(* ===== verification/Prelude.thy ===== *)
theory Prelude
  imports
    Main
    "HOL-Library.Product_Lexorder"
    "HOL-Library.List_Lexorder"
    "HOL-Library.Char_ord"
    "HOL-Library.Multiset"
begin

text \<open>
  What every other theory of the development shares: the type of a failing
  operation, database tables as lists of rows with the few repository calls the
  services make, the stable comparison sort of JavaScript arrays, and generic
  lemmas on lists, options and maps.

  Strings of the program are HOL strings: a \<^typ>\<open>char\<close> stands for a code unit
  below 256.  Fixed copy of the program that holds a character outside Latin-1
  (the em dash, the ellipsis) spells it in ASCII here.
\<close>

section \<open>Collections of hints\<close>

named_theorems row_simps \<open>what a repository call does to the rows of a table\<close>
named_theorems sum_elims \<open>an operation that returned a value took no error branch\<close>

section \<open>Failing operations\<close>

text \<open>
  The exceptions the services throw, by HTTP class, each carrying its message.
  An operation that may throw returns \<open>exception + 'a\<close>.
\<close>

datatype exception =
    BadRequestException string
  | UnauthorizedException string
  | ForbiddenException string
  | NotFoundException string
  | ConflictException string
  | PayloadTooLargeException string
  | TooManyRequestsException string
  | InternalServerErrorException string
  | PlainError string

fun http_status :: "exception \<Rightarrow> nat" where
  "http_status (BadRequestException _) = 400"
| "http_status (UnauthorizedException _) = 401"
| "http_status (ForbiddenException _) = 403"
| "http_status (NotFoundException _) = 404"
| "http_status (ConflictException _) = 409"
| "http_status (PayloadTooLargeException _) = 413"
| "http_status (TooManyRequestsException _) = 429"
| "http_status (InternalServerErrorException _) = 500"
| "http_status (PlainError _) = 500"

type_synonym 'a result = "exception + 'a"

abbreviation throw :: "exception \<Rightarrow> 'a result" where
  "throw e \<equiv> Inl e"

abbreviation return :: "'a \<Rightarrow> 'a result" where
  "return x \<equiv> Inr x"

lemma if_throw_eq_return [sum_elims, simp]:
  "((if b then Inl e else r) = Inr x) \<longleftrightarrow> (\<not> b \<and> r = Inr x)"
  by simp

lemma case_option_throw_eq_return [sum_elims]:
  "((case opt of None \<Rightarrow> Inl e | Some y \<Rightarrow> f y) = Inr x) \<longleftrightarrow> (\<exists>y. opt = Some y \<and> f y = Inr x)"
  by (auto split: option.splits)

lemma case_sum_eq_return [sum_elims]:
  "((case s of Inl e \<Rightarrow> Inl e | Inr y \<Rightarrow> f y) = Inr x) \<longleftrightarrow> (\<exists>y. s = Inr y \<and> f y = Inr x)"
  by (auto split: sum.splits)

section \<open>Tables\<close>

text \<open>
  A table is the list of its rows, in insertion order.  The services reach it
  through a handful of repository calls, each with a condition on rows.
\<close>

definition find_one :: "('r \<Rightarrow> bool) \<Rightarrow> 'r list \<Rightarrow> 'r option" where
  "find_one p rows = List.find p rows"

definition find_all :: "('r \<Rightarrow> bool) \<Rightarrow> 'r list \<Rightarrow> 'r list" where
  "find_all p rows = filter p rows"

definition count_where :: "('r \<Rightarrow> bool) \<Rightarrow> 'r list \<Rightarrow> nat" where
  "count_where p rows = length (filter p rows)"

definition exists_where :: "('r \<Rightarrow> bool) \<Rightarrow> 'r list \<Rightarrow> bool" where
  "exists_where p rows = list_ex p rows"

definition insert_row :: "'r \<Rightarrow> 'r list \<Rightarrow> 'r list" where
  "insert_row r rows = rows @ [r]"

definition update_where :: "('r \<Rightarrow> bool) \<Rightarrow> ('r \<Rightarrow> 'r) \<Rightarrow> 'r list \<Rightarrow> 'r list" where
  "update_where p f rows = map (\<lambda>r. if p r then f r else r) rows"

definition delete_where :: "('r \<Rightarrow> bool) \<Rightarrow> 'r list \<Rightarrow> 'r list" where
  "delete_where p rows = filter (\<lambda>r. \<not> p r) rows"

lemma find_one_SomeD: "find_one p rows = Some r \<Longrightarrow> r \<in> set rows \<and> p r"
  by (auto simp: find_one_def find_Some_iff)

lemma find_one_None_iff: "find_one p rows = None \<longleftrightarrow> (\<forall>r \<in> set rows. \<not> p r)"
  by (auto simp: find_one_def find_None_iff)

lemma find_one_Nil [simp]: "find_one p [] = None"
  by (simp add: find_one_def)

lemma find_one_Cons [simp]: "find_one p (r # rows) = (if p r then Some r else find_one p rows)"
  by (simp add: find_one_def)

lemma find_one_append [simp]:
  "find_one p (xs @ ys) = (case find_one p xs of None \<Rightarrow> find_one p ys | Some r \<Rightarrow> Some r)"
  by (induction xs) auto

lemma set_find_all [simp, row_simps]: "set (find_all p rows) = {r \<in> set rows. p r}"
  by (simp add: find_all_def)

lemma set_insert_row [simp, row_simps]: "set (insert_row r rows) = insert r (set rows)"
  by (simp add: insert_row_def)

lemma set_update_where [row_simps]:
  "set (update_where p f rows) = (\<lambda>r. if p r then f r else r) ` set rows"
  by (simp add: update_where_def)

lemma set_delete_where [simp, row_simps]: "set (delete_where p rows) = {r \<in> set rows. \<not> p r}"
  by (auto simp: delete_where_def)

lemma exists_where_iff [row_simps]: "exists_where p rows \<longleftrightarrow> (\<exists>r \<in> set rows. p r)"
  by (simp add: exists_where_def list_ex_iff)

lemma count_where_0_iff [row_simps]: "count_where p rows = 0 \<longleftrightarrow> (\<forall>r \<in> set rows. \<not> p r)"
  by (auto simp: count_where_def filter_empty_conv)

lemma map_update_where_same:
  assumes "\<And>r. k (f r) = k r"
  shows "map k (update_where p f rows) = map k rows"
  using assms by (auto simp: update_where_def)

lemma map_insert_row [simp]: "map k (insert_row r rows) = map k rows @ [k r]"
  by (simp add: insert_row_def)

lemma filter_insert_row [simp]:
  "filter q (insert_row r rows) = filter q rows @ (if q r then [r] else [])"
  by (simp add: insert_row_def)

lemma find_all_insert_row:
  "find_all q (insert_row r rows) = find_all q rows @ (if q r then [r] else [])"
  by (simp add: find_all_def)

text \<open>An update whose condition implies rows leave or enter no selection keeps the selection.\<close>

lemma find_all_update_where_other:
  assumes "\<And>r. r \<in> set rows \<Longrightarrow> p r \<Longrightarrow> \<not> q r \<and> \<not> q (f r)"
  shows "find_all q (update_where p f rows) = find_all q rows"
  using assms by (induction rows) (auto simp: find_all_def update_where_def)

lemma find_all_update_where_same:
  assumes "\<And>r. r \<in> set rows \<Longrightarrow> q (if p r then f r else r) = q r"
  shows "find_all q (update_where p f rows) = map (\<lambda>r. if p r then f r else r) (find_all q rows)"
  using assms by (induction rows) (auto simp: find_all_def update_where_def)

lemma find_one_unique_key:
  assumes "distinct (map k rows)" and "r \<in> set rows"
  shows "find_one (\<lambda>x. k x = k r) rows = Some r"
  using assms by (induction rows) (auto simp: image_iff split: if_splits)

lemma distinct_key_eq:
  assumes "distinct (map k rows)" and "r \<in> set rows" and "s \<in> set rows" and "k r = k s"
  shows "r = s"
  using assms by (simp add: distinct_map inj_on_def)

text \<open>
  The contract a keyed repository gives the services: rows are found by their
  key, an insert of a fresh key keeps keys unique, an update that does not touch
  the key changes the one row it names.
\<close>

locale keyed_repository =
  fixes key :: "'r \<Rightarrow> 'k"
    and get :: "'k \<Rightarrow> 't \<Rightarrow> 'r option"
    and add :: "'r \<Rightarrow> 't \<Rightarrow> 't"
    and patch :: "'k \<Rightarrow> ('r \<Rightarrow> 'r) \<Rightarrow> 't \<Rightarrow> 't"
    and invar :: "'t \<Rightarrow> bool"
  assumes get_key: "get k t = Some r \<Longrightarrow> key r = k"
    and get_add: "invar t \<Longrightarrow> get (key r) t = None \<Longrightarrow>
          get k (add r t) = (if k = key r then Some r else get k t)"
    and get_patch: "invar t \<Longrightarrow> (\<And>r. key (f r) = key r) \<Longrightarrow>
          get k (patch k' f t) = (if k = k' then map_option f (get k t) else get k t)"
    and invar_add: "invar t \<Longrightarrow> get (key r) t = None \<Longrightarrow> invar (add r t)"
    and invar_patch: "invar t \<Longrightarrow> (\<And>r. key (f r) = key r) \<Longrightarrow> invar (patch k f t)"
begin

lemma get_add_same: "invar t \<Longrightarrow> get (key r) t = None \<Longrightarrow> get (key r) (add r t) = Some r"
  by (simp add: get_add)

lemma get_patch_same:
  "invar t \<Longrightarrow> (\<And>r. key (f r) = key r) \<Longrightarrow> get k t = Some r \<Longrightarrow> get k (patch k f t) = Some (f r)"
  by (simp add: get_patch)

lemma patch_frame:
  "invar t \<Longrightarrow> (\<And>r. key (f r) = key r) \<Longrightarrow> k \<noteq> k' \<Longrightarrow> get k (patch k' f t) = get k t"
  by (simp add: get_patch)

text \<open>Two patches under different keys commute, as far as lookups can tell.\<close>

lemma patch_commute:
  assumes "invar t" and "\<And>r. key (f r) = key r" and "\<And>r. key (g r) = key r" and "k1 \<noteq> k2"
  shows "get k (patch k1 f (patch k2 g t)) = get k (patch k2 g (patch k1 f t))"
  using assms by (simp add: get_patch invar_patch)

end

text \<open>The tables of the model satisfy the contract, for any key column.\<close>

definition get_by :: "('r \<Rightarrow> 'k) \<Rightarrow> 'k \<Rightarrow> 'r list \<Rightarrow> 'r option" where
  "get_by key k rows = find_one (\<lambda>r. key r = k) rows"

definition patch_by :: "('r \<Rightarrow> 'k) \<Rightarrow> 'k \<Rightarrow> ('r \<Rightarrow> 'r) \<Rightarrow> 'r list \<Rightarrow> 'r list" where
  "patch_by key k f rows = update_where (\<lambda>r. key r = k) f rows"

lemma get_by_SomeD: "get_by key k rows = Some r \<Longrightarrow> r \<in> set rows \<and> key r = k"
  by (auto simp: get_by_def dest: find_one_SomeD)

lemma get_by_None_iff: "get_by key k rows = None \<longleftrightarrow> k \<notin> key ` set rows"
  by (auto simp: get_by_def find_one_None_iff)

lemma get_by_unique:
  "distinct (map key rows) \<Longrightarrow> r \<in> set rows \<Longrightarrow> get_by key (key r) rows = Some r"
  by (simp add: get_by_def find_one_unique_key)

lemma get_by_iff:
  "distinct (map key rows) \<Longrightarrow> get_by key k rows = Some r \<longleftrightarrow> r \<in> set rows \<and> key r = k"
  by (auto dest: get_by_SomeD get_by_unique)

lemma get_by_patch_by:
  assumes "\<And>r. key (f r) = key r"
  shows "get_by key k (patch_by key k' f rows) =
    (if k = k' then map_option f (get_by key k rows) else get_by key k rows)"
  using assms by (induction rows) (auto simp: get_by_def patch_by_def update_where_def)

lemma get_by_insert_row:
  "get_by key k (insert_row r rows) =
    (case get_by key k rows of None \<Rightarrow> (if key r = k then Some r else None) | Some s \<Rightarrow> Some s)"
  by (auto simp: get_by_def insert_row_def split: option.splits)

lemma keys_patch_by [simp]:
  "(\<And>r. key (f r) = key r) \<Longrightarrow> map key (patch_by key k f rows) = map key rows"
  by (simp add: patch_by_def map_update_where_same)

lemma set_patch_by: "set (patch_by key k f rows) = (\<lambda>r. if key r = k then f r else r) ` set rows"
  by (simp add: patch_by_def set_update_where)

lemma patch_byE:
  assumes "x \<in> set (patch_by key k f rows)"
  obtains r where "r \<in> set rows" "x = (if key r = k then f r else r)"
  using assms unfolding set_patch_by by blast

lemma patch_byI: "r \<in> set rows \<Longrightarrow> (if key r = k then f r else r) \<in> set (patch_by key k f rows)"
  unfolding set_patch_by by blast

text \<open>A service that writes back the whole row it read patches that row alone.\<close>

lemma saved_row:
  assumes "distinct (map key rows)" and "get_by key i rows = Some r"
  shows "patch_by key i (\<lambda>_. f r) rows = patch_by key i f rows"
  unfolding patch_by_def update_where_def
proof (intro map_cong refl)
  fix x assume "x \<in> set rows"
  then have "key x = i \<Longrightarrow> x = r"
    using get_by_SomeD[OF assms(2)] distinct_key_eq[OF assms(1)] by blast
  then show "(if key x = i then f r else x) = (if key x = i then f x else x)" by auto
qed

lemma update_whereE:
  assumes "x \<in> set (update_where p f rows)"
  obtains r where "r \<in> set rows" "x = (if p r then f r else r)"
  using assms unfolding set_update_where by blast

lemma keyed_rows:
  "keyed_repository key (get_by key) insert_row (patch_by key) (\<lambda>rows. distinct (map key rows))"
proof
  fix k t and r :: 'a
  show "get_by key k t = Some r \<Longrightarrow> key r = k"
    by (auto dest: get_by_SomeD)
  show "get_by key (key r) t = None \<Longrightarrow>
      get_by key k (insert_row r t) = (if k = key r then Some r else get_by key k t)"
    by (auto simp: get_by_insert_row split: option.splits)
  show "distinct (map key t) \<Longrightarrow> get_by key (key r) t = None \<Longrightarrow> distinct (map key (insert_row r t))"
    by (auto simp: get_by_None_iff)
next
  fix k k' t and f :: "'a \<Rightarrow> 'a"
  assume "\<And>r. key (f r) = key r"
  then show "get_by key k (patch_by key k' f t) =
      (if k = k' then map_option f (get_by key k t) else get_by key k t)"
    by (simp add: get_by_patch_by)
next
  fix k t and f :: "'a \<Rightarrow> 'a"
  assume "distinct (map key t)" and "\<And>r. key (f r) = key r"
  then show "distinct (map key (patch_by key k f t))" by simp
qed

section \<open>Array.prototype.sort\<close>

text \<open>
  The JavaScript sort is stable, so for a consistent comparator its result is
  the one of a stable insertion sort.  A comparator returns a negative number,
  zero or a positive number.
\<close>

fun insert_cmp :: "('a \<Rightarrow> 'a \<Rightarrow> int) \<Rightarrow> 'a \<Rightarrow> 'a list \<Rightarrow> 'a list" where
  "insert_cmp cmp x [] = [x]"
| "insert_cmp cmp x (y # ys) = (if cmp x y \<le> 0 then x # y # ys else y # insert_cmp cmp x ys)"

fun js_sort :: "('a \<Rightarrow> 'a \<Rightarrow> int) \<Rightarrow> 'a list \<Rightarrow> 'a list" where
  "js_sort cmp [] = []"
| "js_sort cmp (x # xs) = insert_cmp cmp x (js_sort cmp xs)"

lemma mset_insert_cmp [simp]: "mset (insert_cmp cmp x ys) = add_mset x (mset ys)"
  by (induction ys) auto

lemma mset_js_sort [simp]: "mset (js_sort cmp xs) = mset xs"
  by (induction xs) auto

lemma set_js_sort [simp]: "set (js_sort cmp xs) = set xs"
  by (metis mset_js_sort set_mset_mset)

lemma set_insert_cmp [simp]: "set (insert_cmp cmp x ys) = insert x (set ys)"
  by (induction ys) auto

lemma length_js_sort [simp]: "length (js_sort cmp xs) = length xs"
  by (metis mset_js_sort size_mset)

lemma distinct_js_sort [simp]: "distinct (js_sort cmp xs) = distinct xs"
  by (metis mset_js_sort mset_eq_imp_distinct_iff)

lemma js_sort_Nil_iff [simp]: "js_sort cmp xs = [] \<longleftrightarrow> xs = []"
  by (metis length_0_conv length_js_sort)

lemma length_filter_js_sort [simp]: "length (filter p (js_sort cmp xs)) = length (filter p xs)"
  by (metis mset_filter mset_js_sort size_mset)

lemma insert_cmp_map:
  "(\<And>y. y \<in> set ys \<Longrightarrow> cmp (f x) (f y) = cmp x y) \<Longrightarrow> insert_cmp cmp (f x) (map f ys) = map f (insert_cmp cmp x ys)"
  by (induction ys) auto

lemma js_sort_map:
  "(\<And>x y. x \<in> set xs \<Longrightarrow> y \<in> set xs \<Longrightarrow> cmp (f x) (f y) = cmp x y) \<Longrightarrow> js_sort cmp (map f xs) = map f (js_sort cmp xs)"
proof (induction xs)
  case (Cons x xs)
  have "js_sort cmp (map f (x # xs)) = insert_cmp cmp (f x) (map f (js_sort cmp xs))"
    using Cons by auto
  also have "\<dots> = map f (insert_cmp cmp x (js_sort cmp xs))"
    using Cons.prems by (intro insert_cmp_map) auto
  finally show ?case by simp
qed simp

text \<open>What a comparator owes the sort.\<close>

locale consistent_comparator =
  fixes cmp :: "'a \<Rightarrow> 'a \<Rightarrow> int"
  assumes cmp_antisym: "cmp x y > 0 \<Longrightarrow> cmp y x \<le> 0"
    and cmp_trans: "cmp x y \<le> 0 \<Longrightarrow> cmp y z \<le> 0 \<Longrightarrow> cmp x z \<le> 0"
begin

lemma sorted_insert_cmp:
  "sorted_wrt (\<lambda>x y. cmp x y \<le> 0) ys \<Longrightarrow> sorted_wrt (\<lambda>x y. cmp x y \<le> 0) (insert_cmp cmp x ys)"
  by (induction ys) (auto simp: not_le intro: cmp_trans dest: cmp_antisym)

lemma sorted_js_sort: "sorted_wrt (\<lambda>x y. cmp x y \<le> 0) (js_sort cmp xs)"
  by (induction xs) (auto intro: sorted_insert_cmp)

lemma insert_cmp_sorted:
  "\<forall>y \<in> set ys. cmp x y \<le> 0 \<Longrightarrow> insert_cmp cmp x ys = x # ys"
  by (cases ys) auto

lemma js_sort_idem: "js_sort cmp (js_sort cmp xs) = js_sort cmp xs"
proof -
  have "sorted_wrt (\<lambda>x y. cmp x y \<le> 0) ys \<Longrightarrow> js_sort cmp ys = ys" for ys
    by (induction ys) (auto simp: insert_cmp_sorted)
  then show ?thesis by (simp add: sorted_js_sort)
qed

end

text \<open>Comparison of code units, the default order of strings.\<close>

definition code_unit_compare :: "string \<Rightarrow> string \<Rightarrow> int" where
  "code_unit_compare a b = (if a = b then 0 else if a < b then -1 else 1)"

interpretation code_units: consistent_comparator code_unit_compare
  by unfold_locales (auto simp: code_unit_compare_def split: if_splits)

section \<open>Options\<close>

definition with_default :: "'a option \<Rightarrow> 'a \<Rightarrow> 'a" where
  "with_default opt d = (case opt of None \<Rightarrow> d | Some x \<Rightarrow> x)"

lemma with_default_simps [simp]:
  "with_default None d = d"
  "with_default (Some x) d = x"
  by (simp_all add: with_default_def)

section \<open>Lists\<close>

text \<open>First occurrences only, in order: what spreading a JavaScript Set of an array keeps.\<close>

fun dedup_on :: "'a set \<Rightarrow> 'a list \<Rightarrow> 'a list" where
  "dedup_on seen [] = []"
| "dedup_on seen (x # xs) =
    (if x \<in> seen then dedup_on seen xs else x # dedup_on (insert x seen) xs)"

definition set_spread :: "'a list \<Rightarrow> 'a list" where
  "set_spread xs = dedup_on {} xs"

lemma set_dedup_on: "set (dedup_on seen xs) = set xs - seen"
  by (induction xs arbitrary: seen) auto

lemma set_set_spread [simp]: "set (set_spread xs) = set xs"
  by (simp add: set_spread_def set_dedup_on)

lemma distinct_dedup_on: "distinct (dedup_on seen xs)"
  by (induction xs arbitrary: seen) (auto simp: set_dedup_on)

lemma distinct_set_spread [simp]: "distinct (set_spread xs)"
  by (simp add: set_spread_def distinct_dedup_on)

lemma dedup_on_id: "distinct xs \<Longrightarrow> set xs \<inter> seen = {} \<Longrightarrow> dedup_on seen xs = xs"
  by (induction xs arbitrary: seen) auto

lemma set_spread_id [simp]: "distinct xs \<Longrightarrow> set_spread xs = xs"
  by (simp add: set_spread_def dedup_on_id)

lemma append_delim_inj:
  assumes "a @ c # r = b @ c # s" and "c \<notin> set a" and "c \<notin> set b"
  shows "a = b \<and> r = s"
  using assms by (induction a arbitrary: b) (case_tac b; auto)+

lemma list_all_imp_set: "list_all p xs \<longleftrightarrow> (\<forall>x \<in> set xs. p x)"
  by (simp add: list_all_iff)

end
