(* ===== verification/JsText.thy ===== *)
theory JsText
  imports Prelude "HOL-Library.Word"
begin

text \<open>
  Bytes and text as the program handles them: hexadecimal (\<open>Buffer.from(s, "hex")\<close>,
  \<open>toString("hex")\<close>), UTF-8, JSON string literals, case folding, trimming,
  splitting and joining, and the tests that the program writes as small regular
  expressions.  The round trips and the injectivity of each encoding are proved
  here once.
\<close>

type_synonym bytes = "8 word list"

section \<open>Hexadecimal\<close>

definition hex_digit :: "nat \<Rightarrow> char" where
  "hex_digit n = (if n < 10 then char_of (48 + n) else char_of (87 + n))"

definition hex_value :: "char \<Rightarrow> nat option" where
  "hex_value c = (let n = of_char c :: nat in
     if 48 \<le> n \<and> n < 58 then Some (n - 48)
     else if 97 \<le> n \<and> n < 103 then Some (n - 87)
     else if 65 \<le> n \<and> n < 71 then Some (n - 55) else None)"

definition hex_byte :: "8 word \<Rightarrow> string" where
  "hex_byte b = [hex_digit (unat b div 16), hex_digit (unat b mod 16)]"

definition hex_encode :: "bytes \<Rightarrow> string" where
  "hex_encode bs = concat (map hex_byte bs)"

text \<open>Decoding stops at the first pair that is not two hexadecimal digits.\<close>

fun hex_decode :: "string \<Rightarrow> bytes" where
  "hex_decode (a # b # rest) = (case (hex_value a, hex_value b) of
      (Some x, Some y) \<Rightarrow> of_nat (16 * x + y) # hex_decode rest
    | _ \<Rightarrow> [])"
| "hex_decode _ = []"

definition is_lower_hex :: "char \<Rightarrow> bool" where
  "is_lower_hex c = (let n = of_char c :: nat in 48 \<le> n \<and> n < 58 \<or> 97 \<le> n \<and> n < 103)"

text \<open>The test \<open>/^[0-9a-f]{64}$/\<close>.\<close>

definition is_hash64 :: "string \<Rightarrow> bool" where
  "is_hash64 s = (length s = 64 \<and> list_all is_lower_hex s)"

lemma of_char_hex_digit: "n < 16 \<Longrightarrow> of_char (hex_digit n) = (if n < 10 then 48 + n else 87 + n :: nat)"
  by (auto simp: hex_digit_def)

lemma hex_value_digit [simp]: "n < 16 \<Longrightarrow> hex_value (hex_digit n) = Some n"
  by (auto simp: hex_value_def of_char_hex_digit)

lemma is_lower_hex_digit [simp]: "n < 16 \<Longrightarrow> is_lower_hex (hex_digit n)"
  by (auto simp: is_lower_hex_def of_char_hex_digit)

lemma hex_digit_value:
  assumes "is_lower_hex c"
  obtains n where "hex_value c = Some n" "n < 16" "hex_digit n = c"
proof -
  consider "48 \<le> (of_char c :: nat)" "(of_char c :: nat) < 58"
    | "97 \<le> (of_char c :: nat)" "(of_char c :: nat) < 103"
    using assms by (auto simp: is_lower_hex_def Let_def)
  then show ?thesis
  proof cases
    case 1
    then show ?thesis
      by (intro that[of "of_char c - 48"]) (auto simp: hex_value_def hex_digit_def)
  next
    case 2
    then show ?thesis
      by (intro that[of "of_char c - 87"]) (auto simp: hex_value_def hex_digit_def)
  qed
qed

lemma byte_halves: "unat (b :: 8 word) div 16 < 16" "unat (b :: 8 word) mod 16 < 16"
proof -
  have "unat b < 2 ^ 8" using unsigned_less[of b] by simp
  then show "unat b div 16 < 16" by auto
qed simp

lemma hex_decode_encode [simp]: "hex_decode (hex_encode bs) = bs"
proof (induction bs)
  case (Cons b bs)
  have "of_nat (16 * (unat b div 16) + unat b mod 16) = b" by simp
  then show ?case
    using Cons byte_halves[of b] by (simp add: hex_encode_def hex_byte_def)
qed (simp add: hex_encode_def)

lemma hex_encode_inj [simp]: "hex_encode a = hex_encode b \<longleftrightarrow> a = b"
  by (metis hex_decode_encode)

lemma length_hex_encode [simp]: "length (hex_encode bs) = 2 * length bs"
  by (induction bs) (auto simp: hex_encode_def hex_byte_def)

lemma lower_hex_encode [simp]: "list_all is_lower_hex (hex_encode bs)"
  using byte_halves by (induction bs) (auto simp: hex_encode_def hex_byte_def)

lemma hex_encode_decode:
  assumes "list_all is_lower_hex s" and "even (length s)"
  shows "hex_encode (hex_decode s) = s"
  using assms
proof (induction s rule: hex_decode.induct)
  case (1 a b rest)
  obtain m where m: "hex_value a = Some m" "m < 16" "hex_digit m = a"
    using 1 by (auto elim: hex_digit_value)
  obtain n where n: "hex_value b = Some n" "n < 16" "hex_digit n = b"
    using 1 by (auto elim: hex_digit_value)
  have u: "unat (of_nat (16 * m + n) :: 8 word) = 16 * m + n"
    using m n by (subst unat_of_nat) simp
  have "hex_encode (hex_decode rest) = rest" using 1 m n by auto
  then show ?case
    using m n u by (simp add: hex_encode_def hex_byte_def)
qed (simp_all add: hex_encode_def)

lemma hash64_decode_inj:
  assumes "is_hash64 s" and "is_hash64 t" and "hex_decode s = hex_decode t"
  shows "s = t"
proof -
  have "hex_encode (hex_decode s) = s" "hex_encode (hex_decode t) = t"
    using assms(1,2) by (auto simp: is_hash64_def intro: hex_encode_decode)
  then show ?thesis using assms(3) by metis
qed

lemma length_hash64_decode: "is_hash64 s \<Longrightarrow> length (hex_decode s) = 32"
proof -
  assume "is_hash64 s"
  then have "hex_encode (hex_decode s) = s" "length s = 64"
    by (auto simp: is_hash64_def intro: hex_encode_decode)
  then show ?thesis by (metis length_hex_encode mult_left_cancel zero_neq_numeral numeral_Bit0_eq_double numeral_times_numeral semiring_norm(13) semiring_norm(14))
qed

section \<open>UTF-8\<close>

definition utf8_char :: "char \<Rightarrow> bytes" where
  "utf8_char c = (let n = of_char c :: nat in
     if n < 128 then [of_nat n] else [of_nat (192 + n div 64), of_nat (128 + n mod 64)])"

definition utf8 :: "string \<Rightarrow> bytes" where
  "utf8 s = concat (map utf8_char s)"

lemma unat_byte [simp]: "n < 256 \<Longrightarrow> unat (of_nat n :: 8 word) = n"
  by (simp add: unat_of_nat)

lemma byte_eq_iff: "m < 256 \<Longrightarrow> n < 256 \<Longrightarrow> (of_nat m :: 8 word) = of_nat n \<longleftrightarrow> m = n"
  by (metis unat_byte)

lemma utf8_char_prefix:
  assumes "utf8_char c @ xs = utf8_char d @ ys"
  shows "c = d \<and> xs = ys"
proof -
  define m where "m = (of_char c :: nat)"
  define n where "n = (of_char d :: nat)"
  have m: "m < 256" and n: "n < 256" by (simp_all add: m_def n_def)
  have "m div 64 < 4" "n div 64 < 4" using m n by auto
  then have b: "192 + m div 64 < 256" "192 + n div 64 < 256" "128 + m mod 64 < 256" "128 + n mod 64 < 256"
    using mod_less_divisor[of 64 m] mod_less_divisor[of 64 n] by linarith+
  have "m < 128 \<longleftrightarrow> n < 128" and "m < 128 \<Longrightarrow> m = n" and "xs = ys"
    and "\<not> m < 128 \<Longrightarrow> m div 64 = n div 64 \<and> m mod 64 = n mod 64"
    using assms m n b
    by (auto simp: utf8_char_def m_def[symmetric] n_def[symmetric] Let_def byte_eq_iff
        simp del: of_nat_add split: if_splits)
  then have eq: "m = n" "xs = ys" by (metis div_mult_mod_eq)+
  have "c = d" using eq(1) by (simp add: m_def n_def)
  then show ?thesis using eq(2) by blast
qed

lemma utf8_char_nonempty [simp]: "utf8_char c \<noteq> []" "[] \<noteq> utf8_char c"
  by (auto simp: utf8_char_def Let_def)

lemma utf8_inj_on: "utf8 s = utf8 t \<Longrightarrow> s = t"
proof (induction s arbitrary: t)
  case Nil
  then show ?case by (cases t) (auto simp: utf8_def)
next
  case (Cons c s)
  then obtain d t' where t: "t = d # t'"
    by (cases t) (auto simp: utf8_def)
  then have "utf8_char c @ utf8 s = utf8_char d @ utf8 t'"
    using Cons.prems by (simp add: utf8_def)
  then show ?case using utf8_char_prefix[of c "utf8 s" d "utf8 t'"] Cons.IH t by blast
qed

lemma utf8_inj [simp]: "utf8 s = utf8 t \<longleftrightarrow> s = t"
  using utf8_inj_on by blast

section \<open>JSON strings\<close>

text \<open>\<open>JSON.stringify\<close> on a string: two-character escapes, \<open>u00xx\<close> for the other controls.\<close>

definition json_escape_char :: "char \<Rightarrow> string" where
  "json_escape_char c = (let n = of_char c :: nat in
     if n = 34 \<or> n = 92 then [CHR 0x5C, c]
     else if n = 8 then [CHR 0x5C, CHR ''b'']
     else if n = 9 then [CHR 0x5C, CHR ''t'']
     else if n = 10 then [CHR 0x5C, CHR ''n'']
     else if n = 12 then [CHR 0x5C, CHR ''f'']
     else if n = 13 then [CHR 0x5C, CHR ''r'']
     else if n < 32 then [CHR 0x5C, CHR ''u'', CHR ''0'', CHR ''0'', hex_digit (n div 16), hex_digit (n mod 16)]
     else [c])"

definition json_string :: "string \<Rightarrow> string" where
  "json_string s = CHR 0x22 # concat (map json_escape_char s) @ [CHR 0x22]"

text \<open>The escapes as (whether a backslash comes first, the rest): a prefix code.\<close>

definition json_plain :: "char \<Rightarrow> bool" where
  "json_plain c = (let n = of_char c :: nat in 32 \<le> n \<and> n \<noteq> 34 \<and> n \<noteq> 92)"

definition json_short :: "char \<Rightarrow> char option" where
  "json_short c = (let n = of_char c :: nat in
     if n = 34 \<or> n = 92 then Some c else if n = 8 then Some (CHR ''b'') else if n = 9 then Some (CHR ''t'')
     else if n = 10 then Some (CHR ''n'') else if n = 12 then Some (CHR ''f'')
     else if n = 13 then Some (CHR ''r'') else None)"

lemma json_escape_char_cases:
  "json_escape_char c = (if json_plain c then [c] else CHR 0x5C # (case json_short c of Some d \<Rightarrow> [d]
    | None \<Rightarrow> [CHR ''u'', CHR ''0'', CHR ''0'', hex_digit (of_char c div 16), hex_digit (of_char c mod 16)]))"
  by (simp add: json_escape_char_def json_plain_def json_short_def Let_def)

lemma json_plain_neq: "json_plain c \<Longrightarrow> c \<noteq> CHR 0x5C" "json_plain c \<Longrightarrow> c \<noteq> CHR 0x22"
proof -
  have "(of_char (CHR 0x5C) :: nat) = 92" "(of_char (CHR 0x22) :: nat) = 34" by code_simp+
  then show "json_plain c \<Longrightarrow> c \<noteq> CHR 0x5C" "json_plain c \<Longrightarrow> c \<noteq> CHR 0x22"
    by (auto simp: json_plain_def)
qed

lemma char_of_eqI: "(of_char c :: nat) = n \<Longrightarrow> c = char_of n"
  by auto

lemma json_short_neq_u: "json_short c \<noteq> Some (CHR ''u'')"
proof -
  have "c \<noteq> CHR ''u''" if "of_char c = (34 :: nat) \<or> of_char c = (92 :: nat)"
  proof -
    have "(of_char (CHR ''u'') :: nat) = 117" by code_simp
    then show ?thesis using that by auto
  qed
  then show ?thesis by (auto simp: json_short_def Let_def)
qed

lemma json_short_inj: "json_short c = Some x \<Longrightarrow> json_short d = Some x \<Longrightarrow> c = d"
proof -
  have nums: "(of_char (CHR ''b'') :: nat) = 98" "(of_char (CHR ''t'') :: nat) = 116"
    "(of_char (CHR ''n'') :: nat) = 110" "(of_char (CHR ''f'') :: nat) = 102"
    "(of_char (CHR ''r'') :: nat) = 114" by code_simp+
  assume "json_short c = Some x" and "json_short d = Some x"
  then show "c = d"
    using nums by (auto simp: json_short_def Let_def split: if_splits) (metis char_of_char)+
qed

lemma json_escape_char_prefix:
  assumes "json_escape_char c @ xs = json_escape_char d @ ys"
  shows "c = d \<and> xs = ys"
proof (cases "json_plain c \<or> json_plain d")
  case True
  then show ?thesis
    using assms json_plain_neq(1) by (auto simp: json_escape_char_cases split: if_splits)
next
  case False
  have hd: "hex_digit i = hex_digit j \<longleftrightarrow> i = j" if "i < 16" "j < 16" for i j
    using that by (metis hex_value_digit option.inject)
  have lt: "(of_char c :: nat) div 16 < 16" "(of_char d :: nat) div 16 < 16"
    using nat_of_char_less_256[of c] nat_of_char_less_256[of d] by linarith+
  show ?thesis
  proof (cases "json_short c")
    case c: None
    show ?thesis
    proof (cases "json_short d")
      case None
      then have "(of_char c :: nat) div 16 = of_char d div 16" "(of_char c :: nat) mod 16 = of_char d mod 16" "xs = ys"
        using assms False c lt by (auto simp: json_escape_char_cases hd)
      moreover from this have "(of_char c :: nat) = of_char d" by (metis div_mult_mod_eq)
      ultimately show ?thesis by simp
    next
      case (Some x)
      then show ?thesis
        using assms False c json_short_neq_u[of d] by (auto simp: json_escape_char_cases)
    qed
  next
    case c: (Some x)
    then show ?thesis
      using assms False json_short_neq_u[of c] json_short_inj[of c x d]
      by (cases "json_short d") (auto simp: json_escape_char_cases)
  qed
qed

lemma json_escape_char_not_quote: "json_escape_char c @ xs \<noteq> CHR 0x22 # ys"
  using json_plain_neq(2)[of c] by (auto simp: json_escape_char_cases)

lemma json_string_prefix_aux:
  "concat (map json_escape_char s) @ CHR 0x22 # xs = concat (map json_escape_char t) @ CHR 0x22 # ys
    \<Longrightarrow> s = t \<and> xs = ys"
proof (induction s arbitrary: t)
  case Nil
  show ?case
  proof (cases t)
    case (Cons d t')
    then have "json_escape_char d @ (concat (map json_escape_char t') @ CHR 0x22 # ys) = CHR 0x22 # xs"
      using Nil.prems by simp
    then show ?thesis by (rule notE[OF json_escape_char_not_quote])
  qed (use Nil.prems in simp)
next
  case (Cons c s)
  show ?case
  proof (cases t)
    case Nil
    then have "json_escape_char c @ (concat (map json_escape_char s) @ CHR 0x22 # xs) = CHR 0x22 # ys"
      using Cons.prems by simp
    then show ?thesis by (rule notE[OF json_escape_char_not_quote])
  next
    case t: (Cons d t')
    then have eq: "json_escape_char c @ (concat (map json_escape_char s) @ CHR 0x22 # xs)
        = json_escape_char d @ (concat (map json_escape_char t') @ CHR 0x22 # ys)"
      using Cons.prems by simp
    have cd: "c = d" using json_escape_char_prefix[OF eq] by (rule conjunct1)
    have "s = t' \<and> xs = ys"
      by (rule Cons.IH) (rule json_escape_char_prefix[OF eq, THEN conjunct2])
    then show ?thesis unfolding t cd by blast
  qed
qed

text \<open>A JSON string is self-delimiting: what follows it never changes how it reads.\<close>

lemma json_string_prefix: "json_string s @ xs = json_string t @ ys \<Longrightarrow> s = t \<and> xs = ys"
  by (rule json_string_prefix_aux) (simp add: json_string_def)

lemma json_string_inj [simp]: "json_string s = json_string t \<longleftrightarrow> s = t"
  using json_string_prefix[of s "[]" t "[]"] by (simp only: append_Nil2) blast

section \<open>Case, white space, pieces\<close>

text \<open>
  Case mappings on Latin-1.  \<open>toUpperCase\<close> maps sharp s to two letters; the two
  letters whose capital lies outside Latin-1 (micro sign, y with diaeresis) stay.
\<close>

definition lower_char :: "char \<Rightarrow> char" where
  "lower_char c = (let n = of_char c :: nat in
     if 65 \<le> n \<and> n \<le> 90 \<or> 192 \<le> n \<and> n \<le> 222 \<and> n \<noteq> 215 then char_of (n + 32) else c)"

definition js_lower :: "string \<Rightarrow> string" where
  "js_lower s = map lower_char s"

definition upper_char :: "char \<Rightarrow> string" where
  "upper_char c = (let n = of_char c :: nat in
     if n = 223 then ''SS''
     else if 97 \<le> n \<and> n \<le> 122 \<or> 224 \<le> n \<and> n \<le> 254 \<and> n \<noteq> 247 then [char_of (n - 32)]
     else [c])"

definition js_upper :: "string \<Rightarrow> string" where
  "js_upper s = concat (map upper_char s)"

definition is_space :: "char \<Rightarrow> bool" where
  "is_space c = (let n = of_char c :: nat in 9 \<le> n \<and> n \<le> 13 \<or> n = 32 \<or> n = 160)"

definition trim_start :: "string \<Rightarrow> string" where
  "trim_start s = dropWhile is_space s"

definition trim_end :: "string \<Rightarrow> string" where
  "trim_end s = rev (dropWhile is_space (rev s))"

definition js_trim :: "string \<Rightarrow> string" where
  "js_trim s = trim_end (trim_start s)"

text \<open>\<open>s.replace(/\s+/g, " ")\<close>; the flag says the previous character was white space.\<close>

fun collapse_spaces :: "bool \<Rightarrow> string \<Rightarrow> string" where
  "collapse_spaces prev [] = []"
| "collapse_spaces prev (c # cs) =
    (if is_space c then (if prev then collapse_spaces True cs else CHR '' '' # collapse_spaces True cs)
     else c # collapse_spaces False cs)"

text \<open>\<open>s.split(/[...]/)\<close> for a class of separator characters: always at least one piece.\<close>

fun split_on :: "(char \<Rightarrow> bool) \<Rightarrow> string \<Rightarrow> string list" where
  "split_on p [] = [[]]"
| "split_on p (c # cs) = (if p c then [] # split_on p cs
    else (case split_on p cs of [] \<Rightarrow> [[c]] | w # ws \<Rightarrow> (c # w) # ws))"

fun join_with :: "string \<Rightarrow> string list \<Rightarrow> string" where
  "join_with sep [] = []"
| "join_with sep [x] = x"
| "join_with sep (x # xs) = x @ sep @ join_with sep xs"

definition starts_with :: "string \<Rightarrow> string \<Rightarrow> bool" where
  "starts_with p s = (take (length p) s = p)"

definition ends_with :: "string \<Rightarrow> string \<Rightarrow> bool" where
  "ends_with p s = (length p \<le> length s \<and> drop (length s - length p) s = p)"

fun includes_sub :: "string \<Rightarrow> string \<Rightarrow> bool" where
  "includes_sub p [] = (p = [])"
| "includes_sub p (c # cs) = (starts_with p (c # cs) \<or> includes_sub p cs)"

definition is_digit :: "char \<Rightarrow> bool" where
  "is_digit c = (let n = of_char c :: nat in 48 \<le> n \<and> n \<le> 57)"

definition is_upper :: "char \<Rightarrow> bool" where
  "is_upper c = (let n = of_char c :: nat in 65 \<le> n \<and> n \<le> 90)"

definition is_lower :: "char \<Rightarrow> bool" where
  "is_lower c = (let n = of_char c :: nat in 97 \<le> n \<and> n \<le> 122)"

text \<open>A string with no leading or trailing white space.\<close>

definition trimmed :: "string \<Rightarrow> bool" where
  "trimmed s = (s = [] \<or> \<not> is_space (hd s) \<and> \<not> is_space (last s))"

text \<open>White space only as single blanks.\<close>

fun tidy :: "bool \<Rightarrow> string \<Rightarrow> bool" where
  "tidy prev [] = True"
| "tidy prev (c # cs) = (if is_space c then \<not> prev \<and> c = CHR '' '' \<and> tidy True cs else tidy False cs)"

lemma space_is_space [simp]: "is_space (CHR '' '')"
  by code_simp

lemma trim_end_prefix: "\<exists>r. s = trim_end s @ r \<and> list_all is_space r"
proof -
  have "s = rev (dropWhile is_space (rev s)) @ rev (takeWhile is_space (rev s))"
    by (metis rev_append rev_rev_ident takeWhile_dropWhile_id)
  moreover have "list_all is_space (rev (takeWhile is_space (rev s)))"
    by (auto simp: list_all_iff dest: set_takeWhileD)
  ultimately show ?thesis unfolding trim_end_def by blast
qed

lemma trim_start_suffix: "\<exists>l. s = l @ trim_start s \<and> list_all is_space l"
proof -
  have "list_all is_space (takeWhile is_space s)"
    by (auto simp: list_all_iff dest: set_takeWhileD)
  then show ?thesis unfolding trim_start_def by (metis takeWhile_dropWhile_id)
qed

lemma trim_start_hd: "trim_start s \<noteq> [] \<Longrightarrow> \<not> is_space (hd (trim_start s))"
  unfolding trim_start_def by (rule hd_dropWhile)

lemma trim_end_last: "trim_end s \<noteq> [] \<Longrightarrow> \<not> is_space (last (trim_end s))"
  unfolding trim_end_def by (simp add: last_rev hd_dropWhile)

lemma trimmed_js_trim [simp]: "trimmed (js_trim s)"
proof (cases "js_trim s = []")
  case False
  obtain r where r: "trim_start s = trim_end (trim_start s) @ r" using trim_end_prefix by blast
  then have "hd (trim_start s) = hd (js_trim s)" and "trim_start s \<noteq> []"
    using False by (auto simp: js_trim_def) (metis hd_append2 r)
  then show ?thesis
    using trim_start_hd[of s] trim_end_last[of "trim_start s"] False
    by (auto simp: trimmed_def js_trim_def)
qed (simp add: trimmed_def)

lemma js_trim_trimmed: "trimmed s \<Longrightarrow> js_trim s = s"
proof (cases "s = []")
  case False
  moreover assume "trimmed s"
  ultimately have h: "\<not> is_space (hd s)" "\<not> is_space (last s)" by (auto simp: trimmed_def)
  have "trim_start s = s" using h(1) False by (cases s) (auto simp: trim_start_def)
  moreover have "trim_end s = s" using h(2) False by (cases s rule: rev_cases) (auto simp: trim_end_def)
  ultimately show ?thesis by (simp add: js_trim_def)
qed (simp add: js_trim_def trim_end_def trim_start_def)

lemma js_trim_idem [simp]: "js_trim (js_trim s) = js_trim s"
  by (simp add: js_trim_trimmed)

lemma length_js_trim: "length (js_trim s) \<le> length s"
  unfolding js_trim_def trim_end_def trim_start_def
  by (metis length_dropWhile_le length_rev order_trans)

lemma set_js_trim: "set (js_trim s) \<subseteq> set s"
proof -
  have "set (dropWhile p t) \<subseteq> set t" for p and t :: string by (auto dest: set_dropWhileD)
  then show ?thesis unfolding js_trim_def trim_end_def trim_start_def by (metis set_rev subset_trans)
qed

lemma tidy_collapse: "tidy prev (collapse_spaces prev s)"
  by (induction prev s rule: collapse_spaces.induct) auto

lemma collapse_tidy: "tidy prev s \<Longrightarrow> collapse_spaces prev s = s"
  by (induction prev s rule: collapse_spaces.induct) auto

lemma tidy_False: "tidy prev s \<Longrightarrow> tidy False s"
  by (cases s) auto

lemma tidy_prefix: "tidy prev (s @ r) \<Longrightarrow> tidy prev s"
  by (induction prev s rule: tidy.induct) auto

lemma tidy_suffix: "tidy prev (l @ s) \<Longrightarrow> tidy False s"
  by (induction prev l rule: tidy.induct) (auto split: if_splits intro: tidy_False)

lemma tidy_js_trim: "tidy False s \<Longrightarrow> tidy False (js_trim s)"
  unfolding js_trim_def using trim_start_suffix[of s] trim_end_prefix[of "trim_start s"]
  by (metis tidy_prefix tidy_suffix)

lemma tidy_take: "tidy prev s \<Longrightarrow> tidy prev (take n s)"
  by (metis append_take_drop_id tidy_prefix)

lemma split_on_Cons_ne [simp]: "split_on p s \<noteq> []"
  by (induction s) (auto split: list.splits)

lemma split_on_no_sep: "w \<in> set (split_on p s) \<Longrightarrow> \<forall>c \<in> set w. \<not> p c"
proof (induction s arbitrary: w)
  case (Cons a s)
  show ?case
  proof (cases "split_on p s")
    case (Cons v vs)
    then have "\<forall>c \<in> set v. \<not> p c" "\<forall>w \<in> set vs. \<forall>c \<in> set w. \<not> p c" using Cons.IH by auto
    then show ?thesis using Cons.prems Cons by (auto split: if_splits)
  qed simp
qed simp

lemma split_on_plain: "(\<And>c. c \<in> set s \<Longrightarrow> \<not> p c) \<Longrightarrow> split_on p s = [s]"
  by (induction s) auto

lemma split_on_append:
  "(\<And>c. c \<in> set s \<Longrightarrow> \<not> p c) \<Longrightarrow> p d \<Longrightarrow> split_on p (s @ d # t) = s # split_on p t"
  by (induction s) auto

text \<open>Splitting what was joined by one separator gives the pieces back.\<close>

lemma split_join:
  assumes "xs \<noteq> []" and "\<And>w. w \<in> set xs \<Longrightarrow> \<forall>c \<in> set w. \<not> p c" and "p d"
  shows "split_on p (join_with [d] xs) = xs"
  using assms(1,2)
proof (induction xs)
  case (Cons x xs)
  show ?case
  proof (cases xs)
    case Nil
    then show ?thesis using Cons by (simp add: split_on_plain)
  next
    case (Cons y ys)
    then have "join_with [d] (x # xs) = x @ d # join_with [d] xs" by simp
    moreover have "split_on p (join_with [d] xs) = xs" using Cons.IH Cons.prems(2) Cons by (metis list.distinct(1) list.set_intros(2))
    moreover have "split_on p (x @ d # join_with [d] xs) = x # split_on p (join_with [d] xs)"
      using Cons.prems(2)[of x] assms(3) by (intro split_on_append) auto
    ultimately show ?thesis by simp
  qed
qed simp

end
