(* ===== verification/Sha256.thy ===== *)
theory Sha256
  imports JsText
begin

text \<open>
  SHA-256 as \<open>node:crypto\<close> computes it (FIPS 180-4), on 32-bit words, and the
  contract the rest of the program needs from it: 32 bytes out.  Everything that
  speaks of tamper evidence states what happens up to a collision, and names the
  finite list of inputs in which the collision would be found.
\<close>

unbundle bit_operations_syntax

section \<open>The compression function\<close>

definition sha_ch :: "32 word \<Rightarrow> 32 word \<Rightarrow> 32 word \<Rightarrow> 32 word" where
  "sha_ch x y z = (x AND y) XOR (NOT x AND z)"

definition sha_maj :: "32 word \<Rightarrow> 32 word \<Rightarrow> 32 word \<Rightarrow> 32 word" where
  "sha_maj x y z = (x AND y) XOR (x AND z) XOR (y AND z)"

definition sha_Sigma0 :: "32 word \<Rightarrow> 32 word" where
  "sha_Sigma0 x = word_rotr 2 x XOR word_rotr 13 x XOR word_rotr 22 x"

definition sha_Sigma1 :: "32 word \<Rightarrow> 32 word" where
  "sha_Sigma1 x = word_rotr 6 x XOR word_rotr 11 x XOR word_rotr 25 x"

definition sha_sigma0 :: "32 word \<Rightarrow> 32 word" where
  "sha_sigma0 x = word_rotr 7 x XOR word_rotr 18 x XOR drop_bit 3 x"

definition sha_sigma1 :: "32 word \<Rightarrow> 32 word" where
  "sha_sigma1 x = word_rotr 17 x XOR word_rotr 19 x XOR drop_bit 10 x"

definition sha_K :: "32 word list" where
  "sha_K =
    [1116352408, 1899447441, 3049323471, 3921009573, 961987163, 1508970993, 2453635748, 2870763221,
     3624381080, 310598401, 607225278, 1426881987, 1925078388, 2162078206, 2614888103, 3248222580,
     3835390401, 4022224774, 264347078, 604807628, 770255983, 1249150122, 1555081692, 1996064986,
     2554220882, 2821834349, 2952996808, 3210313671, 3336571891, 3584528711, 113926993, 338241895,
     666307205, 773529912, 1294757372, 1396182291, 1695183700, 1986661051, 2177026350, 2456956037,
     2730485921, 2820302411, 3259730800, 3345764771, 3516065817, 3600352804, 4094571909, 275423344,
     430227734, 506948616, 659060556, 883997877, 958139571, 1322822218, 1537002063, 1747873779,
     1955562222, 2024104815, 2227730452, 2361852424, 2428436474, 2756734187, 3204031479, 3329325298]"

definition sha_init :: "32 word list" where
  "sha_init = [1779033703, 3144134277, 1013904242, 2773480762, 1359893119, 2600822924, 528734635, 1541459225]"

definition sha_schedule_step :: "32 word list \<Rightarrow> 32 word list" where
  "sha_schedule_step ws = (let t = length ws in
     ws @ [sha_sigma1 (ws ! (t - 2)) + ws ! (t - 7) + sha_sigma0 (ws ! (t - 15)) + ws ! (t - 16)])"

definition sha_schedule :: "32 word list \<Rightarrow> 32 word list" where
  "sha_schedule block = (sha_schedule_step ^^ 48) block"

fun sha_round :: "32 word list \<Rightarrow> 32 word \<times> 32 word \<Rightarrow> 32 word list" where
  "sha_round [a, b, c, d, e, f, g, h] (k, w) =
    (let t1 = h + sha_Sigma1 e + sha_ch e f g + k + w;
         t2 = sha_Sigma0 a + sha_maj a b c
     in [t1 + t2, a, b, c, d + t1, e, f, g])"
| "sha_round st _ = st"

definition sha_compress :: "32 word list \<Rightarrow> 32 word list \<Rightarrow> 32 word list" where
  "sha_compress st block = map2 (+) st (foldl sha_round st (zip sha_K (sha_schedule block)))"

section \<open>Padding and digest\<close>

definition be_word :: "bytes \<Rightarrow> 32 word" where
  "be_word bs = foldl (\<lambda>acc b. acc * 256 + ucast b) 0 bs"

definition be_bytes :: "32 word \<Rightarrow> bytes" where
  "be_bytes w = map (\<lambda>i. ucast (drop_bit (8 * i) w)) [3, 2, 1, 0]"

definition be_length :: "nat \<Rightarrow> bytes" where
  "be_length n = map (\<lambda>i. of_nat (n div 256 ^ i)) [7, 6, 5, 4, 3, 2, 1, 0]"

definition sha_pad :: "bytes \<Rightarrow> bytes" where
  "sha_pad m = m @ [0x80] @ replicate ((119 - length m mod 64) mod 64) 0 @ be_length (8 * length m)"

fun chunks :: "nat \<Rightarrow> nat \<Rightarrow> 'a list \<Rightarrow> 'a list list" where
  "chunks 0 n xs = []"
| "chunks (Suc k) n xs = (if xs = [] then [] else take n xs # chunks k n (drop n xs))"

definition sha_blocks :: "bytes \<Rightarrow> 32 word list list" where
  "sha_blocks m = (let p = sha_pad m in
     map (\<lambda>blk. map be_word (chunks 16 4 blk)) (chunks (length p div 64) 64 p))"

definition sha256 :: "bytes \<Rightarrow> bytes" where
  "sha256 m = concat (map be_bytes (foldl sha_compress sha_init (sha_blocks m)))"

section \<open>What the program relies on\<close>

locale digest =
  fixes H :: "bytes \<Rightarrow> bytes"
  assumes length_H: "length (H m) = 32"
begin

lemma hash64_hex_H: "is_hash64 (hex_encode (H m))"
  by (simp add: is_hash64_def length_H)

lemma hex_H_eq_iff: "hex_encode (H a) = hex_encode (H b) \<longleftrightarrow> H a = H b"
  by simp

end

lemma sha_round_length: "length st = 8 \<Longrightarrow> length (sha_round st kw) = 8"
  by (cases "(st, kw)" rule: sha_round.cases) (auto simp: Let_def)

lemma sha_compress_length: "length st = 8 \<Longrightarrow> length (sha_compress st block) = 8"
proof -
  have "length st = 8 \<Longrightarrow> length (foldl sha_round st kws) = 8" for kws
    by (induction kws arbitrary: st) (auto simp: sha_round_length)
  then show "length st = 8 \<Longrightarrow> length (sha_compress st block) = 8"
    by (simp add: sha_compress_def)
qed

lemma sha_state_length: "length st = 8 \<Longrightarrow> length (foldl sha_compress st blocks) = 8"
  by (induction blocks arbitrary: st) (auto simp: sha_compress_length)

lemma length_concat_const: "(\<And>x. x \<in> set xs \<Longrightarrow> length (f x) = n) \<Longrightarrow> length (concat (map f xs)) = n * length xs"
  by (induction xs) auto

interpretation sha: digest sha256
proof
  fix m
  have "length (foldl sha_compress sha_init (sha_blocks m)) = 8"
    by (rule sha_state_length) (simp add: sha_init_def)
  then show "length (sha256 m) = 32"
    by (simp add: sha256_def length_concat_const[where n = 4] be_bytes_def)
qed

section \<open>Collisions\<close>

text \<open>
  Two different inputs in a given list with the same digest.  The list is always
  one that the theorem computes from the values it speaks of, so the statement
  points at a concrete collision and is not the pigeonhole principle.
\<close>

definition has_collision :: "bytes list \<Rightarrow> bool" where
  "has_collision inputs = (\<exists>x \<in> set inputs. \<exists>y \<in> set inputs. x \<noteq> y \<and> sha256 x = sha256 y)"

lemma has_collisionI: "x \<in> set inputs \<Longrightarrow> y \<in> set inputs \<Longrightarrow> sha256 x = sha256 y \<Longrightarrow> x \<noteq> y \<Longrightarrow> has_collision inputs"
  by (auto simp: has_collision_def)

lemma has_collision_mono: "has_collision xs \<Longrightarrow> set xs \<subseteq> set ys \<Longrightarrow> has_collision ys"
  by (auto simp: has_collision_def)

lemma sha256_eqD:
  "\<not> has_collision inputs \<Longrightarrow> x \<in> set inputs \<Longrightarrow> y \<in> set inputs \<Longrightarrow> sha256 x = sha256 y \<Longrightarrow> x = y"
  by (auto simp: has_collision_def)

definition sha256Hex :: "bytes \<Rightarrow> string" where
  "sha256Hex m = hex_encode (sha256 m)"

lemma sha256Hex_hash64 [simp]: "is_hash64 (sha256Hex m)"
  by (simp add: sha256Hex_def sha.hash64_hex_H)

lemma sha256Hex_eq_iff: "sha256Hex a = sha256Hex b \<longleftrightarrow> sha256 a = sha256 b"
  by (simp add: sha256Hex_def)

end
