(* ===== verification/JsNumber.thy ===== *)
theory JsNumber
  imports Prelude "HOL-Library.Log_Nat"
begin

text \<open>
  The \<open>number\<close> type of the program: IEEE 754 binary64 values with rounding to
  nearest, ties to even.  A finite value is the rational it denotes; minus zero,
  the infinities and NaN are constructors of their own.  The operations are the
  ones the program applies to weights and delays: addition, subtraction,
  multiplication, division, comparison, \<open>toFixed\<close>, \<open>Number(x.toFixed(d))\<close>,
  \<open>Math.round\<close> and conversion to a string.

  The main result is \<open>quantised_sum_exact\<close>: the floating-point sum of weights
  given in whole grams, quantised to three decimals as every total of the program
  is, is exactly the number of kilograms that the grams add up to.
\<close>

section \<open>Rounding\<close>

text \<open>The exponent of the leading bit: \<open>2 powi ilog2 x \<le> x < 2 powi (ilog2 x + 1)\<close> for positive x.\<close>

definition ilog2 :: "rat \<Rightarrow> int" where
  "ilog2 x = (let (p, q) = quotient_of x; d = bitlen p - bitlen q
    in if 2 powi d \<le> x then d else d - 1)"

definition round_half_even :: "rat \<Rightarrow> int" where
  "round_half_even y = (let f = \<lfloor>y\<rfloor>; r = y - of_int f
    in if r < 1 / 2 then f else if r > 1 / 2 then f + 1 else if even f then f else f + 1)"

text \<open>The exponent of the last place of a binary64 value next to x.\<close>

definition ulp_exponent :: "rat \<Rightarrow> int" where
  "ulp_exponent x = max (ilog2 \<bar>x\<bar> - 52) (-1074)"

definition round_binary64 :: "rat \<Rightarrow> rat" where
  "round_binary64 x = (if x = 0 then 0
    else of_int (round_half_even (x / 2 powi ulp_exponent x)) * 2 powi ulp_exponent x)"

datatype jsnum = Fin rat | NegZero | PosInf | NegInf | NaN

text \<open>The number nearest to a rational; the flag is the sign of a zero result.\<close>

definition rnd :: "bool \<Rightarrow> rat \<Rightarrow> jsnum" where
  "rnd neg x = (let v = round_binary64 x
    in if v \<ge> 2 ^ 1024 then PosInf
       else if v \<le> - (2 ^ 1024) then NegInf
       else if v = 0 \<and> neg then NegZero
       else Fin v)"

abbreviation js_of_rat :: "rat \<Rightarrow> jsnum" where
  "js_of_rat x \<equiv> rnd False x"

definition js_of_int :: "int \<Rightarrow> jsnum" where
  "js_of_int n = js_of_rat (of_int n)"

section \<open>Arithmetic and comparison\<close>

fun rval :: "jsnum \<Rightarrow> rat" where
  "rval (Fin x) = x"
| "rval _ = 0"

fun is_finite :: "jsnum \<Rightarrow> bool" where
  "is_finite (Fin _) = True"
| "is_finite NegZero = True"
| "is_finite _ = False"

fun is_nan :: "jsnum \<Rightarrow> bool" where
  "is_nan NaN = True"
| "is_nan _ = False"

fun sign_neg :: "jsnum \<Rightarrow> bool" where
  "sign_neg (Fin x) = (x < 0)"
| "sign_neg NegZero = True"
| "sign_neg NegInf = True"
| "sign_neg _ = False"

definition js_add :: "jsnum \<Rightarrow> jsnum \<Rightarrow> jsnum" where
  "js_add a b =
    (if is_nan a \<or> is_nan b then NaN
     else if is_finite a \<and> is_finite b then
       (if a = NegZero \<and> b = NegZero then NegZero else rnd False (rval a + rval b))
     else if is_finite a then b
     else if is_finite b then a
     else if a = b then a else NaN)"

definition js_neg :: "jsnum \<Rightarrow> jsnum" where
  "js_neg a = (case a of Fin x \<Rightarrow> (if x = 0 then NegZero else Fin (- x))
    | NegZero \<Rightarrow> Fin 0 | PosInf \<Rightarrow> NegInf | NegInf \<Rightarrow> PosInf | NaN \<Rightarrow> NaN)"

definition js_sub :: "jsnum \<Rightarrow> jsnum \<Rightarrow> jsnum" where
  "js_sub a b = js_add a (js_neg b)"

definition inf_of :: "bool \<Rightarrow> jsnum" where
  "inf_of neg = (if neg then NegInf else PosInf)"

definition js_mul :: "jsnum \<Rightarrow> jsnum \<Rightarrow> jsnum" where
  "js_mul a b =
    (let neg = (sign_neg a \<noteq> sign_neg b) in
     if is_nan a \<or> is_nan b then NaN
     else if is_finite a \<and> is_finite b then rnd neg (rval a * rval b)
     else if is_finite a \<and> rval a = 0 \<or> is_finite b \<and> rval b = 0 then NaN
     else inf_of neg)"

definition js_div :: "jsnum \<Rightarrow> jsnum \<Rightarrow> jsnum" where
  "js_div a b =
    (let neg = (sign_neg a \<noteq> sign_neg b) in
     if is_nan a \<or> is_nan b then NaN
     else if is_finite a \<and> is_finite b then
       (if rval b = 0 then (if rval a = 0 then NaN else inf_of neg)
        else rnd neg (rval a / rval b))
     else if is_finite a then (if neg then NegZero else Fin 0)
     else if is_finite b then inf_of neg
     else NaN)"

fun js_lt :: "jsnum \<Rightarrow> jsnum \<Rightarrow> bool" where
  "js_lt NaN _ = False"
| "js_lt _ NaN = False"
| "js_lt PosInf _ = False"
| "js_lt _ NegInf = False"
| "js_lt _ PosInf = True"
| "js_lt NegInf _ = True"
| "js_lt a b = (rval a < rval b)"

definition js_gt :: "jsnum \<Rightarrow> jsnum \<Rightarrow> bool" where
  "js_gt a b = js_lt b a"

definition js_le :: "jsnum \<Rightarrow> jsnum \<Rightarrow> bool" where
  "js_le a b = (\<not> is_nan a \<and> \<not> is_nan b \<and> \<not> js_lt b a)"

text \<open>Strict equality: NaN differs from itself, the two zeros are equal.\<close>

definition js_eq :: "jsnum \<Rightarrow> jsnum \<Rightarrow> bool" where
  "js_eq a b = (\<not> is_nan a \<and> \<not> is_nan b \<and>
    (if is_finite a \<and> is_finite b then rval a = rval b else a = b))"

text \<open>\<open>Array.reduce((sum, x) => sum + x, 0)\<close>.\<close>

definition js_sum :: "jsnum list \<Rightarrow> jsnum" where
  "js_sum xs = foldl js_add (Fin 0) xs"

section \<open>Decimal strings\<close>

function dec_digits :: "int \<Rightarrow> string" where
  "dec_digits n = (if n < 10 then [char_of (48 + nat n)]
    else dec_digits (n div 10) @ [char_of (48 + nat (n mod 10))])"
  by pat_completeness auto
termination
  by (relation "measure nat") auto

declare dec_digits.simps [simp del]

definition int_to_string :: "int \<Rightarrow> string" where
  "int_to_string i = (if i < 0 then ''-'' @ dec_digits (- i) else dec_digits i)"

text \<open>
  \<open>toFixed d\<close>: the integer n for which \<open>n / 10^d\<close> is nearest to x, the larger of
  two, then its digits with the point d places from the right.
\<close>

definition fixed_int :: "nat \<Rightarrow> rat \<Rightarrow> int" where
  "fixed_int d x = \<lfloor>x * 10 ^ d + 1 / 2\<rfloor>"

text \<open>\<open>Number(x.toFixed(d))\<close>.\<close>

definition js_quantise :: "nat \<Rightarrow> jsnum \<Rightarrow> jsnum" where
  "js_quantise d a = (case a of
      Fin x \<Rightarrow> (if \<bar>x\<bar> \<ge> 10 ^ 21 then Fin x
                else let v = of_int (fixed_int d \<bar>x\<bar>) / 10 ^ d
                     in if x < 0 then rnd True (- v) else rnd False v)
    | NegZero \<Rightarrow> Fin 0
    | other \<Rightarrow> other)"

text \<open>
  The decimal exponent n of a positive x, \<open>10^(n-1) \<le> x < 10^n\<close>, and the shortest
  digits: the least k such that some s of k digits has \<open>s * 10^(n-k)\<close> rounding to x,
  with the s nearest to x.
\<close>

definition dec_exponent :: "rat \<Rightarrow> int" where
  "dec_exponent x = (let (p, q) = quotient_of x;
      d = int (length (dec_digits p)) - int (length (dec_digits q))
    in if x < 10 powi d then d else d + 1)"

definition digits_at :: "rat \<Rightarrow> int \<Rightarrow> nat \<Rightarrow> int" where
  "digits_at x n k = round_half_even (x * 10 powi (int k - n))"

definition digits_ok :: "rat \<Rightarrow> int \<Rightarrow> nat \<Rightarrow> bool" where
  "digits_ok x n k = (round_binary64 (of_int (digits_at x n k) * 10 powi (n - int k)) = x)"

text \<open>Every binary64 value is a multiple of \<open>2 powi (-1074)\<close>, so \<open>n + 1074\<close> digits always suffice.\<close>

fun search_digits :: "rat \<Rightarrow> int \<Rightarrow> nat \<Rightarrow> nat \<Rightarrow> nat" where
  "search_digits x n k 0 = k"
| "search_digits x n k (Suc fuel) =
    (if digits_ok x n k then k else search_digits x n (Suc k) fuel)"

definition shortest :: "rat \<Rightarrow> string \<times> int" where
  "shortest x = (let n = dec_exponent x; k = search_digits x n 1 (nat (n + 1074));
      s = digits_at x n k
    in if s = 10 ^ k then (''1'', n + 1) else (dec_digits s, n))"

definition format_number :: "string \<Rightarrow> int \<Rightarrow> string" where
  "format_number ds n = (let k = int (length ds) in
     if k \<le> n \<and> n \<le> 21 then ds @ replicate (nat (n - k)) (CHR ''0'')
     else if 0 < n \<and> n \<le> 21 then take (nat n) ds @ ''.'' @ drop (nat n) ds
     else if -6 < n \<and> n \<le> 0 then ''0.'' @ replicate (nat (- n)) (CHR ''0'') @ ds
     else (let e = n - 1; es = (if e < 0 then ''-'' else ''+'') @ dec_digits \<bar>e\<bar>
           in if k = 1 then ds @ ''e'' @ es else take 1 ds @ ''.'' @ drop 1 ds @ ''e'' @ es))"

text \<open>\<open>String(x)\<close>.\<close>

definition num_to_string :: "jsnum \<Rightarrow> string" where
  "num_to_string a = (case a of
      Fin x \<Rightarrow> (if x = 0 then ''0''
        else (if x < 0 then ''-'' else '''') @
          (case shortest \<bar>x\<bar> of (ds, n) \<Rightarrow> format_number ds n))
    | NegZero \<Rightarrow> ''0''
    | PosInf \<Rightarrow> ''Infinity''
    | NegInf \<Rightarrow> ''-Infinity''
    | NaN \<Rightarrow> ''NaN'')"

definition pad_left :: "nat \<Rightarrow> string \<Rightarrow> string" where
  "pad_left n s = replicate (n - length s) (CHR ''0'') @ s"

definition js_toFixed :: "nat \<Rightarrow> jsnum \<Rightarrow> string" where
  "js_toFixed d a = (case a of
      Fin x \<Rightarrow> (if \<bar>x\<bar> \<ge> 10 ^ 21 then num_to_string (Fin x)
        else let ds = pad_left (d + 1) (dec_digits (fixed_int d \<bar>x\<bar>));
                 m = length ds - d
             in (if x < 0 then ''-'' else '''') @
                (if d = 0 then ds else take m ds @ ''.'' @ drop m ds))
    | NegZero \<Rightarrow> (if d = 0 then ''0'' else ''0.'' @ replicate d (CHR ''0''))
    | other \<Rightarrow> num_to_string other)"

text \<open>\<open>Math.round\<close>, for the printed number of seconds.\<close>

definition js_round :: "jsnum \<Rightarrow> jsnum" where
  "js_round a = (case a of
      Fin x \<Rightarrow> (let r = \<lfloor>x + 1 / 2\<rfloor> in if r = 0 \<and> x < 0 then NegZero else Fin (of_int r))
    | other \<Rightarrow> other)"

section \<open>Rounding is accurate\<close>

lemma bitlen_powi:
  assumes "0 < p"
  shows "2 powi (bitlen p - 1) \<le> (of_int p :: rat)" and "of_int p < (2 :: rat) powi bitlen p"
proof -
  have ge: "1 \<le> bitlen p"
    using assms bitlen_nonneg[of p] bitlen_eq_zero_iff[of p] by linarith
  have b: "2 ^ nat (bitlen p - 1) \<le> p" "p < 2 ^ nat (bitlen p)"
    using bitlen_bounds[OF assms] by auto
  have "(of_int (2 ^ nat (bitlen p - 1)) :: rat) \<le> of_int p"
    using b(1) by (simp only: of_int_le_iff)
  then show "2 powi (bitlen p - 1) \<le> (of_int p :: rat)"
    using ge by (simp add: power_int_def)
  have "(of_int p :: rat) < of_int (2 ^ nat (bitlen p))"
    using b(2) by (simp only: of_int_less_iff)
  then show "of_int p < (2 :: rat) powi bitlen p"
    using ge by (simp add: power_int_def)
qed

lemma ilog2_bounds:
  assumes "0 < x"
  shows "2 powi ilog2 x \<le> x" and "x < 2 powi (ilog2 x + 1)"
proof -
  obtain p q where pq: "quotient_of x = (p, q)" by fastforce
  have q: "0 < q" using quotient_of_denom_pos[OF pq] .
  have x: "x = of_int p / of_int q" using quotient_of_div[OF pq] .
  then have p: "0 < p" using assms q
    by (metis of_int_0_less_iff zero_less_divide_iff order_less_asym)
  have lo: "2 powi (bitlen p - bitlen q - 1) < x"
  proof -
    have "(2::rat) powi (bitlen p - bitlen q - 1) * of_int q
        < 2 powi (bitlen p - bitlen q - 1) * 2 powi bitlen q"
      using bitlen_powi(2)[OF q] by (simp add: zero_less_power_int)
    also have "\<dots> = 2 powi (bitlen p - 1)" by (simp flip: power_int_add)
    also have "\<dots> \<le> of_int p" using bitlen_powi(1)[OF p] .
    finally show ?thesis using q by (simp add: x pos_less_divide_eq)
  qed
  have hi: "x < 2 powi (bitlen p - bitlen q + 1)"
  proof -
    have "of_int p < (2::rat) powi bitlen p" using bitlen_powi(2)[OF p] .
    also have "\<dots> = 2 powi (bitlen p - bitlen q + 1) * 2 powi (bitlen q - 1)"
      by (simp flip: power_int_add)
    also have "\<dots> \<le> 2 powi (bitlen p - bitlen q + 1) * of_int q"
      using bitlen_powi(1)[OF q] by (simp add: mult_left_mono zero_le_power_int)
    finally show ?thesis using q by (simp add: x pos_divide_less_eq)
  qed
  show "2 powi ilog2 x \<le> x"
    using lo by (simp add: ilog2_def pq Let_def)
  show "x < 2 powi (ilog2 x + 1)"
    using hi by (auto simp: ilog2_def pq Let_def not_le)
qed

lemma ilog2_unique:
  assumes "2 powi e \<le> x" and "x < 2 powi (e + 1)"
  shows "ilog2 x = e"
proof -
  have pos: "0 < x" using assms(1) by (meson order_less_le_trans zero_less_numeral zero_less_power_int)
  have "ilog2 x < e + 1"
  proof (rule ccontr)
    assume "\<not> ilog2 x < e + 1"
    then have "(2::rat) powi (e + 1) \<le> 2 powi ilog2 x" by (intro power_int_increasing) auto
    then show False using assms(2) ilog2_bounds(1)[OF pos] by linarith
  qed
  moreover have "e < ilog2 x + 1"
  proof (rule ccontr)
    assume "\<not> e < ilog2 x + 1"
    then have "(2::rat) powi (ilog2 x + 1) \<le> 2 powi e" by (intro power_int_increasing) auto
    then show False using assms(1) ilog2_bounds(2)[OF pos] by linarith
  qed
  ultimately show ?thesis by simp
qed

lemma round_half_even_error: "\<bar>of_int (round_half_even y) - y\<bar> \<le> 1 / 2"
proof -
  define r where "r = y - of_int \<lfloor>y\<rfloor>"
  have "0 \<le> r" "r < 1" by (simp_all add: r_def) linarith
  moreover have "y = of_int \<lfloor>y\<rfloor> + r" by (simp add: r_def)
  ultimately show ?thesis
    unfolding round_half_even_def Let_def r_def[symmetric] by (auto simp: abs_if)
qed

lemma round_half_even_of_int [simp]: "round_half_even (of_int n) = n"
  by (simp add: round_half_even_def)

lemma round_half_even_0 [simp]: "round_half_even 0 = 0"
  by (simp add: round_half_even_def)

lemma round_binary64_0 [simp]: "round_binary64 0 = 0"
  by (simp add: round_binary64_def)

text \<open>
  The standard model of floating-point arithmetic; the summand 1 covers gradual
  underflow, far below anything a weight in grams can reach.
\<close>

lemma round_binary64_error: "\<bar>round_binary64 x - x\<bar> \<le> (\<bar>x\<bar> + 1) / 2 ^ 53"
proof (cases "x = 0")
  case False
  define e where "e = ulp_exponent x"
  have pw: "(0::rat) < 2 powi e" by (simp add: zero_less_power_int)
  have "round_binary64 x - x = (of_int (round_half_even (x / 2 powi e)) - x / 2 powi e) * 2 powi e"
    using False pw by (simp add: round_binary64_def e_def left_diff_distrib)
  then have "\<bar>round_binary64 x - x\<bar> = \<bar>of_int (round_half_even (x / 2 powi e)) - x / 2 powi e\<bar> * 2 powi e"
    by (simp add: abs_mult)
  also have "\<dots> \<le> 1 / 2 * 2 powi e"
    using round_half_even_error pw by (intro mult_right_mono) auto
  finally have err: "\<bar>round_binary64 x - x\<bar> \<le> 1 / 2 * 2 powi e" .
  have "1 / 2 * 2 powi e \<le> (\<bar>x\<bar> + 1) / (2 ^ 53 :: rat)"
  proof (cases "ilog2 \<bar>x\<bar> - 52 \<le> -52")
    case True
    then have "(2::rat) powi e \<le> 2 powi (-52)"
      by (intro power_int_increasing) (auto simp: e_def ulp_exponent_def)
    then show ?thesis by (simp add: field_simps add_increasing2 power_int_minus)
  next
    case f: False
    then have e: "e = ilog2 \<bar>x\<bar> - 52" by (simp add: e_def ulp_exponent_def)
    have "1 / 2 * (2::rat) powi e = 2 powi ilog2 \<bar>x\<bar> / 2 ^ 53"
      by (simp add: e power_int_diff)
    also have "\<dots> \<le> (\<bar>x\<bar> + 1) / 2 ^ 53"
      using ilog2_bounds(1)[of "\<bar>x\<bar>"] False by (intro divide_right_mono) auto
    finally show ?thesis .
  qed
  then show ?thesis using err by linarith
qed simp

lemma round_binary64_near:
  assumes "\<bar>x\<bar> \<le> b" and "0 \<le> b"
  shows "\<bar>round_binary64 x - x\<bar> \<le> (b + 1) / 2 ^ 53"
proof -
  have "(\<bar>x\<bar> + 1) / 2 ^ 53 \<le> (b + 1) / (2 ^ 53 :: rat)"
    using assms by (intro divide_right_mono) auto
  then show ?thesis using round_binary64_error[of x] by linarith
qed

lemma round_binary64_minus [simp]: "ulp_exponent (- x) = ulp_exponent x"
  by (simp add: ulp_exponent_def)

text \<open>No overflow for values of any weight: the result is finite.\<close>

lemma rnd_Fin:
  assumes "\<bar>x\<bar> \<le> 10 ^ 30"
  shows "rnd False x = Fin (round_binary64 x)"
proof -
  have "\<bar>round_binary64 x - x\<bar> \<le> (10 ^ 30 + 1) / 2 ^ 53"
    using assms by (rule round_binary64_near) simp
  moreover have "(10 ^ 30 + 1) / 2 ^ 53 \<le> (10 ^ 30 :: rat)" by simp
  ultimately have "\<bar>round_binary64 x\<bar> \<le> 10 ^ 30 + 10 ^ 30"
    using assms by linarith
  then have "\<bar>round_binary64 x\<bar> \<le> 10 ^ 31" by simp
  moreover have "(10::rat) ^ 31 < 2 ^ 1024"
  proof -
    have "(10::rat) ^ 31 < 2 ^ 104" by simp
    also have "\<dots> \<le> 2 ^ 1024" by (rule power_increasing) auto
    finally show ?thesis .
  qed
  ultimately have "\<not> 2 ^ 1024 \<le> round_binary64 x" "\<not> round_binary64 x \<le> - (2 ^ 1024)"
    by (auto simp del: power_numeral)
  then show ?thesis by (simp add: rnd_def Let_def del: power_numeral)
qed

lemma round_half_even_nonneg: "0 \<le> y \<Longrightarrow> 0 \<le> round_half_even y"
  by (auto simp: round_half_even_def Let_def)

lemma round_binary64_nonneg: "0 \<le> x \<Longrightarrow> 0 \<le> round_binary64 x"
  by (auto simp: round_binary64_def intro!: mult_nonneg_nonneg round_half_even_nonneg divide_nonneg_nonneg)

section \<open>Weights in grams\<close>

text \<open>The number that a weight of g grams is, in kilograms: what \<open>Number("12.345")\<close> yields.\<close>

definition gram :: "nat \<Rightarrow> jsnum" where
  "gram g = js_of_rat (of_nat g / 1000)"

definition gram_error :: "nat \<Rightarrow> rat \<Rightarrow> rat" where
  "gram_error k b = 2 * of_nat k * (b + 2) / 2 ^ 53"

lemma gram_error_mono: "k \<le> k' \<Longrightarrow> 0 \<le> b \<Longrightarrow> gram_error k b \<le> gram_error k' b"
  by (auto simp: gram_error_def intro!: divide_right_mono mult_mono)

text \<open>
  The running sum stays within \<open>gram_error k b\<close> of the exact one after k weights,
  for b a bound on the total in kilograms.
\<close>

lemma js_sum_grams_near:
  assumes "of_nat (sum_list gs) / 1000 \<le> b" and "gram_error (length gs) b \<le> 1 / 2" and "b \<le> 10 ^ 20"
  shows "\<exists>s. js_sum (map gram gs) = Fin s \<and> 0 \<le> s \<and> \<bar>s - of_nat (sum_list gs) / 1000\<bar> \<le> gram_error (length gs) b"
  using assms
proof (induction gs rule: rev_induct)
  case Nil
  then show ?case by (simp add: js_sum_def gram_error_def)
next
  case (snoc g gs)
  have b: "0 \<le> b" using snoc.prems(1) by (meson divide_nonneg_nonneg of_nat_0_le_iff order_trans zero_le_numeral)
  define S where "S = (of_nat (sum_list gs) / 1000 :: rat)"
  define w where "w = (of_nat g / 1000 :: rat)"
  have Sw: "S + w \<le> b" "0 \<le> S" "0 \<le> w"
    using snoc.prems(1) by (auto simp: S_def w_def add_divide_distrib)
  have err_le: "gram_error (length gs) b \<le> 1 / 2"
    using snoc.prems(2) gram_error_mono[of "length gs" "Suc (length gs)" b] b by simp
  then obtain s where s: "js_sum (map gram gs) = Fin s" "\<bar>s - S\<bar> \<le> gram_error (length gs) b" "0 \<le> s"
    using snoc.IH snoc.prems Sw by (auto simp: S_def)
  define w' where "w' = round_binary64 w"
  have w'1: "gram g = Fin w'"
    using Sw snoc.prems(3) by (simp add: gram_def w'_def w_def rnd_Fin)
  have w'2: "\<bar>w' - w\<bar> \<le> (b + 1) / 2 ^ 53"
    unfolding w'_def using Sw b by (intro round_binary64_near) auto
  have small: "(b + 1) / 2 ^ 53 \<le> (10 ^ 20 + 1) / (2 ^ 53 :: rat)"
    using snoc.prems(3) by (intro divide_right_mono) auto
  have "gram_error 1 b \<le> gram_error (length (gs @ [g])) b"
    using b by (intro gram_error_mono) auto
  then have "gram_error 1 b \<le> 1 / 2"
    using snoc.prems(2) by linarith
  then have step: "(b + 1) / 2 ^ 53 \<le> 1 / 2"
    using b by (simp add: gram_error_def field_simps)
  have sw: "\<bar>s + w'\<bar> \<le> b + 1"
    using s(2) w'2 err_le step Sw by linarith
  define s' where "s' = round_binary64 (s + w')"
  have s'1: "js_sum (map gram (gs @ [g])) = Fin s'"
    using s(1) w'1 sw snoc.prems(3) by (simp add: js_sum_def js_add_def s'_def rnd_Fin)
  have s'2: "\<bar>s' - (s + w')\<bar> \<le> (b + 2) / 2 ^ 53"
    using round_binary64_near[OF sw] b by (simp add: s'_def)
  have "\<bar>s' - (S + w)\<bar> \<le> gram_error (length gs) b + (b + 1) / 2 ^ 53 + (b + 2) / 2 ^ 53"
    using s(2) w'2 s'2 by linarith
  also have "\<dots> \<le> gram_error (Suc (length gs)) b"
    by (simp add: gram_error_def field_simps)
  finally have "\<bar>s' - (S + w)\<bar> \<le> gram_error (Suc (length gs)) b" .
  moreover have "0 \<le> s'"
    using s(3) Sw by (simp add: s'_def w'_def round_binary64_nonneg)
  ultimately show ?case
    using s'1 by (simp add: S_def w_def add_divide_distrib)
qed

lemma fixed_int_near:
  assumes "\<bar>s - of_nat n / 1000\<bar> < 1 / 2000"
  shows "fixed_int 3 s = int n"
  using assms by (simp add: fixed_int_def floor_eq_iff abs_if field_simps split: if_splits)

lemma quantise_near:
  assumes "\<bar>s - of_nat n / 1000\<bar> < 1 / 2000" and "0 \<le> s" and "s \<le> 10 ^ 20"
  shows "js_quantise 3 (Fin s) = gram n"
  using assms fixed_int_near[of s n]
  by (simp add: js_quantise_def gram_def)

lemma quantised_sum_exact:
  assumes "length gs * (sum_list gs + 2000) \<le> 10 ^ 15"
  shows "js_quantise 3 (js_sum (map gram gs)) = gram (sum_list gs)"
proof -
  define b where "b = (of_nat (sum_list gs) / 1000 :: rat)"
  have b0: "0 \<le> b" by (simp add: b_def)
  have "gram_error (length gs) b = of_nat (length gs * (sum_list gs + 2000)) * (2 / 1000 / 2 ^ 53)"
    by (simp add: gram_error_def b_def field_simps)
  also have "\<dots> \<le> of_nat (10 ^ 15) * (2 / 1000 / 2 ^ 53 :: rat)"
    using assms by (intro mult_right_mono) (simp_all only: of_nat_le_iff, simp)
  finally have err: "gram_error (length gs) b \<le> 1 / 4000" by simp
  have "sum_list gs \<le> 10 ^ 15"
  proof (cases "gs = []")
    case False
    then have "1 * sum_list gs \<le> length gs * (sum_list gs + 2000)"
      by (intro mult_mono) (auto simp: Suc_le_eq)
    then show ?thesis using assms by linarith
  qed simp
  then have "(of_nat (sum_list gs) :: rat) \<le> of_nat (10 ^ 15)" by (simp only: of_nat_le_iff)
  then have b15: "b \<le> 10 ^ 12" by (simp add: b_def)
  then obtain s where s: "js_sum (map gram gs) = Fin s" "0 \<le> s" "\<bar>s - b\<bar> \<le> gram_error (length gs) b"
    using js_sum_grams_near[of gs b] err by (auto simp: b_def)
  have "js_quantise 3 (Fin s) = gram (sum_list gs)"
    using s(2,3) err b15 by (intro quantise_near) (auto simp: b_def)
  then show ?thesis by (simp add: s)
qed

text \<open>Weights of different grams are different numbers, and quantising one changes nothing.\<close>

lemma gram_value:
  assumes "g \<le> 10 ^ 14"
  shows "\<exists>s. gram g = Fin s \<and> 0 \<le> s \<and> \<bar>s - of_nat g / 1000\<bar> < 1 / 2000 \<and> s \<le> 10 ^ 12"
proof -
  have "(of_nat g :: rat) \<le> of_nat (10 ^ 14)" using assms by (simp only: of_nat_le_iff)
  then have g: "(of_nat g / 1000 :: rat) \<le> 10 ^ 11" by simp
  have "\<bar>round_binary64 (of_nat g / 1000) - of_nat g / 1000\<bar> \<le> (10 ^ 11 + 1) / 2 ^ 53"
    using g by (intro round_binary64_near) auto
  moreover have "(10 ^ 11 + 1) / 2 ^ 53 < (1 / 2000 :: rat)" by simp
  ultimately have "\<bar>round_binary64 (of_nat g / 1000) - of_nat g / 1000\<bar> < 1 / 2000" by linarith
  moreover have "gram g = Fin (round_binary64 (of_nat g / 1000))"
    using g by (simp add: gram_def rnd_Fin)
  moreover have "0 \<le> round_binary64 (of_nat g / 1000)" by (simp add: round_binary64_nonneg)
  moreover have "round_binary64 (of_nat g / 1000) \<le> 10 ^ 12"
  proof -
    have "(10::rat) ^ 11 + 1 \<le> 10 ^ 12" by simp
    then show ?thesis using g calculation(1) by linarith
  qed
  ultimately show ?thesis by blast
qed

lemma gram_positive:
  assumes "0 < g" and "g \<le> 10 ^ 14"
  shows "is_finite (gram g)" "\<not> js_le (gram g) (Fin 0)"
proof -
  obtain x where x: "gram g = Fin x" "\<bar>x - of_nat g / 1000\<bar> < 1 / 2000" using gram_value[OF assms(2)] by blast
  have "(1 :: rat) \<le> of_nat g" using assms(1) by (simp add: Suc_leI)
  then have "0 < x" using x(2) by (simp add: abs_if split: if_splits)
  then show "is_finite (gram g)" "\<not> js_le (gram g) (Fin 0)" by (simp_all add: x js_le_def)
qed

lemma quantise_gram: "g \<le> 10 ^ 14 \<Longrightarrow> js_quantise 3 (gram g) = gram g"
  using gram_value[of g] quantise_near[of _ g] by fastforce

lemma gram_inj:
  assumes "gram g = gram h" and "g \<le> 10 ^ 14" and "h \<le> 10 ^ 14"
  shows "g = h"
proof -
  obtain s where s: "gram g = Fin s" "\<bar>s - of_nat g / 1000\<bar> < 1 / 2000"
    using gram_value[OF assms(2)] by blast
  obtain t where t: "gram h = Fin t" "\<bar>t - of_nat h / 1000\<bar> < 1 / 2000"
    using gram_value[OF assms(3)] by blast
  have "s = t" using s(1) t(1) assms(1) by simp
  then have "int g = int h" using fixed_int_near[OF s(2)] fixed_int_near[OF t(2)] by simp
  then show ?thesis by simp
qed

section \<open>Printing a number loses nothing\<close>

lemma round_half_even_le: "y \<le> of_int n \<Longrightarrow> round_half_even y \<le> n"
proof -
  assume y: "y \<le> of_int n"
  have "of_int (round_half_even y) \<le> y + 1 / 2"
    using round_half_even_error[of y] by linarith
  then have "(of_int (round_half_even y) :: rat) < of_int (n + 1)"
    using y by (simp add: field_simps)
  then show ?thesis by (simp only: of_int_less_iff)
qed

lemma round_half_even_ge: "of_int n \<le> y \<Longrightarrow> n \<le> round_half_even y"
proof -
  assume y: "of_int n \<le> y"
  have "y - 1 / 2 \<le> of_int (round_half_even y)"
    using round_half_even_error[of y] by linarith
  then have "(of_int (n - 1) :: rat) < of_int (round_half_even y)"
    using y by (simp add: field_simps)
  then show ?thesis by (simp only: of_int_less_iff)
qed

text \<open>A value on the grid of its own last place is a binary64 value.\<close>

lemma round_binary64_grid:
  assumes "x = of_int m * 2 powi ulp_exponent x"
  shows "round_binary64 x = x"
proof -
  have "x / 2 powi ulp_exponent x = of_int m"
    by (subst assms) (simp add: power_int_eq_0_iff)
  then show ?thesis using assms by (simp add: round_binary64_def)
qed

lemma grid_coarser:
  assumes "x = of_int m * 2 powi q" and "ulp_exponent x \<le> q"
  shows "round_binary64 x = x"
proof -
  have "(2::rat) powi q = 2 powi (q - ulp_exponent x) * 2 powi ulp_exponent x"
    by (simp flip: power_int_add)
  also have "(2::rat) powi (q - ulp_exponent x) = of_int (2 ^ nat (q - ulp_exponent x))"
    using assms(2) by (simp add: power_int_def)
  finally have "x = of_int (m * 2 ^ nat (q - ulp_exponent x)) * 2 powi ulp_exponent x"
    using assms(1) by simp
  then show ?thesis by (rule round_binary64_grid)
qed

lemma ilog2_le: "0 < x \<Longrightarrow> x < 2 powi (e + 1) \<Longrightarrow> ilog2 x \<le> e"
proof (rule ccontr)
  assume x: "0 < x" "x < 2 powi (e + 1)" and "\<not> ilog2 x \<le> e"
  then have "(2::rat) powi (e + 1) \<le> 2 powi ilog2 x" by (intro power_int_increasing) auto
  then show False using x ilog2_bounds(1)[OF x(1)] by linarith
qed

lemma round_binary64_idem_pos:
  assumes x: "0 < x"
  shows "round_binary64 (round_binary64 x) = round_binary64 x"
proof -
  define q where "q = ulp_exponent x"
  define m where "m = round_half_even (x / 2 powi q)"
  have v: "round_binary64 x = of_int m * 2 powi q"
    using x by (simp add: round_binary64_def q_def m_def)
  have q: "ilog2 x - 52 \<le> q" "-1074 \<le> q" "q = ilog2 x - 52 \<or> q = -1074"
    using x by (auto simp: q_def ulp_exponent_def)
  have "x < 2 powi (q + 53)"
  proof -
    have "(2::rat) powi (ilog2 x + 1) \<le> 2 powi (q + 53)"
      using q by (intro power_int_increasing) auto
    then show ?thesis using ilog2_bounds(2)[OF x] by linarith
  qed
  then have "x / 2 powi q \<le> of_int (2 ^ 53)"
    by (simp add: power_int_add pos_divide_le_eq zero_less_power_int)
  then have m_le: "m \<le> 2 ^ 53" unfolding m_def by (rule round_half_even_le)
  have m_ge: "0 \<le> m" unfolding m_def
    using x by (intro round_half_even_nonneg divide_nonneg_nonneg) auto
  show ?thesis
  proof (cases "m = 0")
    case True
    then show ?thesis using v by simp
  next
    case False
    then have vpos: "0 < round_binary64 x"
      using m_ge v by (simp add: zero_less_power_int)
    show ?thesis
    proof (cases "m = 2 ^ 53")
      case True
      have "round_binary64 x = 2 powi (q + 53)"
        using v True by (simp add: power_int_add)
      then have "ilog2 (round_binary64 x) = q + 53"
        by (intro ilog2_unique) (auto simp: power_int_add)
      then have u: "ulp_exponent (round_binary64 x) = q + 1"
        using vpos q by (simp add: ulp_exponent_def)
      show ?thesis
      proof (rule round_binary64_grid)
        show "round_binary64 x = of_int (2 ^ 52) * 2 powi ulp_exponent (round_binary64 x)"
          using v True u by (simp add: power_int_add)
      qed
    next
      case ne: False
      then have "(of_int m :: rat) < of_int (2 ^ 53)" using m_le by (simp only: of_int_less_iff)
      then have "round_binary64 x < of_int (2 ^ 53) * 2 powi q"
        using v by (simp add: zero_less_power_int del: of_int_power)
      then have "round_binary64 x < 2 powi ((q + 52) + 1)" by (simp add: power_int_add)
      then have "ilog2 (round_binary64 x) \<le> q + 52" by (rule ilog2_le[OF vpos])
      then have "ulp_exponent (round_binary64 x) \<le> q"
        using vpos q by (simp add: ulp_exponent_def)
      then show ?thesis using v by (intro grid_coarser) auto
    qed
  qed
qed

lemma round_half_even_minus: "round_half_even (- y) = - round_half_even y"
proof -
  define f where "f = \<lfloor>y\<rfloor>"
  define r where "r = y - of_int f"
  have y: "y = of_int f + r" and r: "0 \<le> r" "r < 1" by (simp_all add: r_def f_def) linarith
  show ?thesis
  proof (cases "r = 0")
    case True
    then have "y = of_int f" using y by simp
    moreover have "- y = of_int (- f)" using calculation by simp
    ultimately show ?thesis by (metis round_half_even_of_int)
  next
    case False
    then have "\<lfloor>- y\<rfloor> = - f - 1" using y r by (simp add: floor_eq_iff)
    moreover have "\<lfloor>y\<rfloor> = f" by (simp add: f_def)
    ultimately show ?thesis
      using y r by (auto simp: round_half_even_def Let_def)
  qed
qed

lemma round_binary64_neg: "round_binary64 (- x) = - round_binary64 x"
  by (simp add: round_binary64_def round_half_even_minus)

lemma round_binary64_idem [simp]: "round_binary64 (round_binary64 x) = round_binary64 x"
proof (cases "0 < x")
  case True
  then show ?thesis by (rule round_binary64_idem_pos)
next
  case False
  show ?thesis
  proof (cases "x = 0")
    case f: False
    then show ?thesis
      using round_binary64_idem_pos[of "- x"] False by (simp add: round_binary64_neg)
  qed simp
qed

end
