(* ===== verification/NumberPrinting.thy ===== *)
theory NumberPrinting
  imports JsNumber
begin

text \<open>Reading a printed number back: mantissa digits, an optional point, an optional exponent.\<close>

definition digit :: "char \<Rightarrow> int" where
  "digit c = int (of_char c) - 48"

fun digits_acc :: "int \<Rightarrow> string \<Rightarrow> int" where
  "digits_acc a [] = a"
| "digits_acc a (c # cs) = digits_acc (10 * a + digit c) cs"

definition digits_value :: "string \<Rightarrow> int" where
  "digits_value ds = digits_acc 0 ds"

definition read_mantissa :: "string \<Rightarrow> rat" where
  "read_mantissa s = (let i = takeWhile (\<lambda>c. c \<noteq> CHR ''.'') s;
      f = drop 1 (dropWhile (\<lambda>c. c \<noteq> CHR ''.'') s)
    in of_int (digits_value (i @ f)) * 10 powi (- int (length f)))"

definition read_exponent :: "string \<Rightarrow> int" where
  "read_exponent s = (case s of [] \<Rightarrow> 0
     | c # ds \<Rightarrow> (if c = CHR ''-'' then - digits_value ds else digits_value ds))"

definition read_number :: "string \<Rightarrow> rat" where
  "read_number s = (let m = takeWhile (\<lambda>c. c \<noteq> CHR ''e'') s;
      e = drop 1 (dropWhile (\<lambda>c. c \<noteq> CHR ''e'') s)
    in read_mantissa m * 10 powi read_exponent e)"

lemma digits_acc_shift: "digits_acc a ds = a * 10 ^ length ds + digits_acc 0 ds"
proof (induction ds arbitrary: a)
  case (Cons d ds)
  have "digits_acc a (d # ds) = (10 * a + digit d) * 10 ^ length ds + digits_acc 0 ds"
    using Cons[of "10 * a + digit d"] by simp
  moreover have "digits_acc 0 (d # ds) = digit d * 10 ^ length ds + digits_acc 0 ds"
    using Cons[of "digit d"] by simp
  ultimately show ?case by (simp only: length_Cons power_Suc) (simp add: algebra_simps)
qed simp

lemma digits_acc_append: "digits_acc a (xs @ ys) = digits_acc (digits_acc a xs) ys"
  by (induction xs arbitrary: a) auto

lemma digits_value_append: "digits_value (xs @ ys) = digits_value xs * 10 ^ length ys + digits_value ys"
  unfolding digits_value_def digits_acc_append by (rule digits_acc_shift)

lemma digit_0 [simp]: "digit (CHR ''0'') = 0"
  by (simp add: digit_def)

lemma digits_value_zeros [simp]: "digits_value (replicate n (CHR ''0'')) = 0"
  by (induction n) (simp_all add: digits_value_def)

lemma digits_value_zeros_append [simp]: "digits_value (replicate n (CHR ''0'') @ ds) = digits_value ds"
  by (simp add: digits_value_append)

lemma digits_value_Nil [simp]: "digits_value [] = 0"
  by (simp add: digits_value_def)

lemma digits_value_single: "n < 10 \<Longrightarrow> digits_value [char_of (48 + n)] = int n"
  by (simp add: digits_value_def digit_def)

definition all_digits :: "string \<Rightarrow> bool" where
  "all_digits ds = (\<forall>c \<in> set ds. c \<in> char_of ` {48..<58 :: nat})"

lemma dec_digits_props:
  "0 \<le> n \<Longrightarrow> digits_value (dec_digits n) = n \<and> all_digits (dec_digits n) \<and> dec_digits n \<noteq> []"
proof (induction n rule: dec_digits.induct)
  case (1 n)
  show ?case
  proof (cases "n < 10")
    case True
    then show ?thesis using 1(2)
      by (subst (1 2 3) dec_digits.simps) (auto simp: digits_value_single all_digits_def)
  next
    case False
    have m: "n mod 10 < 10" "0 \<le> n mod 10" by auto
    have IH: "digits_value (dec_digits (n div 10)) = n div 10" "all_digits (dec_digits (n div 10))"
      using 1 False by auto
    have d: "digits_value [char_of (48 + nat (n mod 10))] = n mod 10"
      using digits_value_single[of "nat (n mod 10)"] m by simp
    have "dec_digits n = dec_digits (n div 10) @ [char_of (48 + nat (n mod 10))]"
      using False by (subst dec_digits.simps) simp
    then show ?thesis
      using IH d m by (auto simp: digits_value_append all_digits_def)
  qed
qed

lemma digit_not [simp]: "all_digits ds \<Longrightarrow> CHR ''.'' \<notin> set ds" "all_digits ds \<Longrightarrow> CHR ''e'' \<notin> set ds"
  "all_digits ds \<Longrightarrow> CHR ''-'' \<notin> set ds" "all_digits ds \<Longrightarrow> CHR ''+'' \<notin> set ds"
  "all_digits ds \<Longrightarrow> CHR ''}'' \<notin> set ds"
proof -
  have *: "of_char c \<in> {48..<58 :: nat}" if "all_digits ds" "c \<in> set ds" for c
    using that by (auto simp: all_digits_def)
  show "all_digits ds \<Longrightarrow> CHR ''.'' \<notin> set ds" "all_digits ds \<Longrightarrow> CHR ''e'' \<notin> set ds"
    "all_digits ds \<Longrightarrow> CHR ''-'' \<notin> set ds" "all_digits ds \<Longrightarrow> CHR ''+'' \<notin> set ds"
    "all_digits ds \<Longrightarrow> CHR ''}'' \<notin> set ds"
    using * by fastforce+
qed

lemma takeWhile_neq_append: "c \<notin> set xs \<Longrightarrow> takeWhile (\<lambda>x. x \<noteq> c) (xs @ c # ys) = xs"
  and dropWhile_neq_append: "c \<notin> set xs \<Longrightarrow> dropWhile (\<lambda>x. x \<noteq> c) (xs @ c # ys) = c # ys"
  and takeWhile_neq_id: "c \<notin> set xs \<Longrightarrow> takeWhile (\<lambda>x. x \<noteq> c) xs = xs"
  and dropWhile_neq_Nil: "c \<notin> set xs \<Longrightarrow> dropWhile (\<lambda>x. x \<noteq> c) xs = []"
  by (induction xs) auto

lemmas split_at = takeWhile_neq_append dropWhile_neq_append takeWhile_neq_id dropWhile_neq_Nil

lemma read_mantissa_point:
  "CHR ''.'' \<notin> set i \<Longrightarrow> read_mantissa (i @ CHR ''.'' # f) = of_int (digits_value (i @ f)) * 10 powi (- int (length f))"
  by (simp add: read_mantissa_def split_at)

lemma read_mantissa_plain: "CHR ''.'' \<notin> set i \<Longrightarrow> read_mantissa i = of_int (digits_value i)"
  by (simp add: read_mantissa_def split_at)

lemma read_number_plain: "CHR ''e'' \<notin> set m \<Longrightarrow> read_number m = read_mantissa m"
  by (simp add: read_number_def split_at read_exponent_def)

lemma read_number_exp:
  "CHR ''e'' \<notin> set m \<Longrightarrow> read_number (m @ CHR ''e'' # e) = read_mantissa m * 10 powi read_exponent e"
  by (simp add: read_number_def split_at)

lemma read_exponent_signed:
  "read_exponent ((if e < 0 then ''-'' else ''+'') @ dec_digits \<bar>e\<bar>) = e"
  using dec_digits_props[of "- e"] dec_digits_props[of e]
  by (cases "e < 0") (auto simp: read_exponent_def)

lemma all_digits_sub: "all_digits ds \<Longrightarrow> set xs \<subseteq> set ds \<Longrightarrow> all_digits xs"
  by (auto simp: all_digits_def)

lemma char_48: "char_of (48 :: nat) = CHR ''0''"
  by code_simp

text \<open>Every layout of the printed number has the value of its digits.\<close>

lemma read_format_number:
  assumes "all_digits ds" and "ds \<noteq> []"
  shows "read_number (format_number ds n) = of_int (digits_value ds) * 10 powi (n - int (length ds))"
proof -
  define k where "k = int (length ds)"
  have z: "all_digits (replicate j (CHR ''0''))" for j
    by (auto simp: all_digits_def image_iff char_48 intro!: bexI[of _ 48])
  consider (int) "k \<le> n" "n \<le> 21" | (point) "\<not> k \<le> n" "0 < n" "n \<le> 21"
    | (small) "-6 < n" "n \<le> 0" | (exp) "\<not> (k \<le> n \<and> n \<le> 21)" "\<not> (0 < n \<and> n \<le> 21)" "\<not> (-6 < n \<and> n \<le> 0)"
    by linarith
  then show ?thesis
  proof cases
    case int
    then have "format_number ds n = ds @ replicate (nat (n - k)) (CHR ''0'')"
      by (simp add: format_number_def k_def)
    then show ?thesis
      using assms z[of "nat (n - k)"] int
      by (simp add: read_number_plain read_mantissa_plain digits_value_append power_int_def k_def)
  next
    case point
    then have f: "format_number ds n = take (nat n) ds @ CHR ''.'' # drop (nat n) ds"
      by (simp add: format_number_def k_def)
    have "all_digits (take (nat n) ds)" "all_digits (drop (nat n) ds)"
      using assms(1) by (auto intro: all_digits_sub dest: in_set_takeD in_set_dropD)
    then show ?thesis
      using point by (simp add: f read_number_plain read_mantissa_point k_def)
  next
    case small
    have k1: "1 \<le> k" using assms(2) by (simp add: k_def Suc_le_eq)
    then have f: "format_number ds n = ''0'' @ CHR ''.'' # (replicate (nat (- n)) (CHR ''0'') @ ds)"
      using small by (simp add: format_number_def k_def)
    have "digits_value (''0'' @ replicate (nat (- n)) (CHR ''0'') @ ds) = digits_value ds"
    proof -
      have "digits_value ''0'' = 0" by (simp add: digits_value_def digit_def)
      then show ?thesis by (subst digits_value_append) (simp add: z)
    qed
    moreover have "read_number (format_number ds n)
        = of_int (digits_value (''0'' @ replicate (nat (- n)) (CHR ''0'') @ ds)) * 10 powi (- int (length (replicate (nat (- n)) (CHR ''0'') @ ds)))"
      unfolding f using assms z[of "nat (- n)"]
      by (subst read_number_plain) (auto simp: read_mantissa_point simp del: append_Cons)
    ultimately show ?thesis using small by simp
  next
    case exp
    define e where "e = n - 1"
    define es where "es = (if e < 0 then ''-'' else ''+'') @ dec_digits \<bar>e\<bar>"
    have rd: "read_exponent es = e" unfolding es_def by (rule read_exponent_signed)
    show ?thesis
    proof (cases "length ds = 1")
      case True
      then have "k = 1" by (simp add: k_def)
      then have "format_number ds n = ds @ CHR ''e'' # es"
        unfolding format_number_def Let_def k_def[symmetric] e_def[symmetric] es_def[symmetric]
          if_not_P[OF exp(1)] if_not_P[OF exp(2)] if_not_P[OF exp(3)] by simp
      then show ?thesis
        using assms True by (simp add: read_number_exp read_mantissa_plain rd e_def)
    next
      case False
      then have f: "format_number ds n = (take 1 ds @ CHR ''.'' # drop 1 ds) @ CHR ''e'' # es"
        unfolding format_number_def Let_def k_def[symmetric] e_def[symmetric] es_def[symmetric]
          if_not_P[OF exp(1)] if_not_P[OF exp(2)] if_not_P[OF exp(3)] by (simp add: k_def)
      have dg: "all_digits (take 1 ds)" "all_digits (drop 1 ds)"
        using assms(1) by (auto intro: all_digits_sub dest: in_set_takeD in_set_dropD)
      have "read_number (format_number ds n)
          = of_int (digits_value ds) * 10 powi (- int (length ds - 1)) * 10 powi e"
        unfolding f using dg by (subst read_number_exp) (auto simp: read_mantissa_point rd)
      also have "\<dots> = of_int (digits_value ds) * 10 powi (- int (length ds - 1) + e)"
        unfolding mult.assoc by (subst power_int_add) simp_all
      also have "- int (length ds - 1) + e = n - int (length ds)"
        using assms(2) by (cases ds) (auto simp: e_def)
      finally show ?thesis .
    qed
  qed
qed


section \<open>The shortest digits denote the number\<close>

lemma digits_value_bound: "all_digits ds \<Longrightarrow> 0 \<le> digits_value ds \<and> digits_value ds < 10 ^ length ds"
proof (induction ds rule: rev_induct)
  case (snoc d ds)
  have d: "0 \<le> digit d" "digit d < 10"
    using snoc.prems by (auto simp: all_digits_def digit_def)
  have "all_digits ds" using snoc.prems by (simp add: all_digits_def)
  then show ?case
    using snoc.IH d by (auto simp: digits_value_append) (simp_all add: digits_value_def)
qed simp

lemma dec_digits_length:
  assumes "0 \<le> n" shows "n < 10 ^ length (dec_digits n)" and "0 < n \<Longrightarrow> 10 ^ (length (dec_digits n) - 1) \<le> n"
proof -
  show "n < 10 ^ length (dec_digits n)"
    using dec_digits_props[OF assms] digits_value_bound[of "dec_digits n"] by simp
  show "0 < n \<Longrightarrow> 10 ^ (length (dec_digits n) - 1) \<le> n"
  proof (induction n rule: dec_digits.induct)
    case (1 n)
    show ?case
    proof (cases "n < 10")
      case True
      then show ?thesis using 1(2) by (subst dec_digits.simps) simp
    next
      case False
      then have "10 ^ (length (dec_digits (n div 10)) - 1) \<le> n div 10" using 1 by simp
      moreover have "dec_digits (n div 10) \<noteq> []" using dec_digits_props False by simp
      ultimately have "10 * 10 ^ (length (dec_digits (n div 10)) - 1) \<le> 10 * (n div 10)" by simp
      then have "10 ^ length (dec_digits (n div 10)) \<le> 10 * (n div 10)"
        using \<open>dec_digits (n div 10) \<noteq> []\<close> by (cases "dec_digits (n div 10)") auto
      moreover have "10 * (n div 10) \<le> n" by simp
      ultimately show ?thesis using False by (subst dec_digits.simps) simp
    qed
  qed
qed

lemma dec_digits_powi:
  assumes "0 < p"
  shows "10 powi (int (length (dec_digits p)) - 1) \<le> (of_int p :: rat)"
    and "of_int p < (10 :: rat) powi int (length (dec_digits p))"
proof -
  have ne: "dec_digits p \<noteq> []" using dec_digits_props assms by simp
  have "(of_int (10 ^ (length (dec_digits p) - 1)) :: rat) \<le> of_int p"
    using dec_digits_length(2)[of p] assms by (simp only: of_int_le_iff)
  then show "10 powi (int (length (dec_digits p)) - 1) \<le> (of_int p :: rat)"
    using ne by (cases "dec_digits p") (auto simp: power_int_def)
  have "(of_int p :: rat) < of_int (10 ^ length (dec_digits p))"
    using dec_digits_length(1)[of p] assms by (simp only: of_int_less_iff)
  then show "of_int p < (10 :: rat) powi int (length (dec_digits p))"
    by simp
qed

lemma dec_exponent_bounds:
  assumes "0 < x"
  shows "10 powi (dec_exponent x - 1) \<le> x" and "x < 10 powi dec_exponent x"
proof -
  obtain p q where pq: "quotient_of x = (p, q)" by fastforce
  have q: "0 < q" using quotient_of_denom_pos[OF pq] .
  have x: "x = of_int p / of_int q" using quotient_of_div[OF pq] .
  then have p: "0 < p" using assms q
    by (metis of_int_0_less_iff zero_less_divide_iff order_less_asym)
  define a where "a = int (length (dec_digits p))"
  define b where "b = int (length (dec_digits q))"
  have lo: "10 powi (a - b - 1) < x"
  proof -
    have "(10::rat) powi (a - b - 1) * of_int q < 10 powi (a - b - 1) * 10 powi b"
      using dec_digits_powi(2)[OF q] by (simp add: zero_less_power_int b_def)
    also have "\<dots> = 10 powi (a - 1)" by (simp flip: power_int_add)
    also have "\<dots> \<le> of_int p" using dec_digits_powi(1)[OF p] by (simp add: a_def)
    finally show ?thesis using q by (simp add: x pos_less_divide_eq)
  qed
  have hi: "x < 10 powi (a - b + 1)"
  proof -
    have "of_int p < (10::rat) powi a" using dec_digits_powi(2)[OF p] by (simp add: a_def)
    also have "\<dots> = 10 powi (a - b + 1) * 10 powi (b - 1)"
      by (simp flip: power_int_add)
    also have "\<dots> \<le> 10 powi (a - b + 1) * of_int q"
      using dec_digits_powi(1)[OF q] by (simp add: mult_left_mono zero_le_power_int b_def)
    finally show ?thesis using q by (simp add: x pos_divide_less_eq)
  qed
  have d: "dec_exponent x = (if x < 10 powi (a - b) then a - b else a - b + 1)"
    by (simp add: dec_exponent_def pq Let_def a_def b_def)
  show "10 powi (dec_exponent x - 1) \<le> x"
    using lo by (auto simp: d not_less intro: less_imp_le)
  show "x < 10 powi dec_exponent x"
    using hi by (auto simp: d)
qed

lemma search_digits_ok:
  assumes "k \<le> j" and "j < k + fuel" and "digits_ok x n j"
  shows "digits_ok x n (search_digits x n k fuel) \<and> k \<le> search_digits x n k fuel"
  using assms
proof (induction fuel arbitrary: k)
  case (Suc fuel)
  show ?case
  proof (cases "digits_ok x n k")
    case False
    then have "Suc k \<le> j" using Suc.prems by (cases "j = k") auto
    then show ?thesis using Suc.IH[of "Suc k"] Suc.prems False by auto
  qed simp
qed simp

text \<open>With enough digits the decimal expansion of a binary64 value is exact.\<close>

lemma digits_ok_exact:
  assumes "round_binary64 x = x" and "0 < x" and n: "n = dec_exponent x"
  shows "0 < n + 1074" and "digits_ok x n (nat (n + 1074))"
proof -
  define e where "e = ulp_exponent x"
  define m where "m = round_half_even (x / 2 powi e)"
  have xm: "x = of_int m * 2 powi e"
    using assms(1,2) by (simp add: round_binary64_def e_def m_def split: if_splits)
  have e: "-1074 \<le> e" by (simp add: e_def ulp_exponent_def)
  have mpos: "1 \<le> m"
  proof -
    have "(0::rat) < 2 powi e" by (simp add: zero_less_power_int)
    then have "(0::rat) < of_int m" using assms(2) xm by (metis zero_less_mult_pos2)
    then show ?thesis by simp
  qed
  have "(2::rat) powi (-1074) \<le> 2 powi e" using e by (intro power_int_increasing) auto
  also have "\<dots> \<le> x"
    unfolding xm using mpos zero_le_power_int[of "2::rat" e] mult_right_mono[of 1 "of_int m" "(2::rat) powi e"] by simp
  finally have x_ge: "(2::rat) powi (-1074) \<le> x" .
  have tiny: "(10::rat) powi (-1074) < 2 powi (-1074)"
    by (simp only: power_int_minus) (rule less_imp_inverse_less, auto simp: power_strict_mono simp del: power_numeral)
  have lt: "(10::rat) powi (-1074) < 10 powi n"
    unfolding n by (rule order.strict_trans[OF order.strict_trans2[OF tiny x_ge] dec_exponent_bounds(2)[OF assms(2)]])
  have "\<not> n \<le> -1074"
  proof
    assume "n \<le> -1074"
    then have "(10::rat) powi n \<le> 10 powi (-1074)" by (intro power_int_increasing) auto
    then show False using lt by (meson leD)
  qed
  then show n1: "0 < n + 1074" by linarith
  have k: "int (nat (n + 1074)) = n + 1074" using n1 by linarith
  have "x * 10 powi 1074 = of_int (m * 5 ^ 1074 * 2 ^ nat (e + 1074))"
  proof -
    have "(10::rat) powi 1074 = (5 * 2) powi 1074" by (rule arg_cong[of 10 "5 * 2"]) simp
    also have "\<dots> = 5 powi 1074 * 2 powi 1074" by (rule power_int_mult_distrib)
    finally have "x * 10 powi 1074 = of_int m * 5 powi 1074 * (2 powi e * 2 powi 1074)"
      by (simp only: xm mult_ac)
    also have "(2::rat) powi e * 2 powi 1074 = 2 powi (e + 1074)"
      by (rule power_int_add[symmetric]) simp
    also have "(2::rat) powi (e + 1074) = of_int (2 ^ nat (e + 1074))" using e by (simp add: power_int_def)
    also have "(5::rat) powi 1074 = of_int (5 ^ 1074)" by (simp only: power_int_numeral of_int_power of_int_numeral)
    finally show ?thesis by (simp only: of_int_mult)
  qed
  then obtain s where s: "x * 10 powi 1074 = of_int s" by blast
  have "digits_at x n (nat (n + 1074)) = s"
  proof -
    have "int (nat (n + 1074)) - n = 1074" using k by linarith
    then show ?thesis by (simp only: digits_at_def s round_half_even_of_int)
  qed
  moreover have "of_int s * 10 powi (n - int (nat (n + 1074))) = x"
  proof -
    have "n - int (nat (n + 1074)) = - 1074" using k by simp
    moreover have "(10::rat) powi 1074 * 10 powi (- 1074) = 10 powi (1074 + - 1074)"
      by (rule power_int_add[symmetric]) simp
    ultimately show ?thesis using s by (metis add.right_inverse mult.assoc mult.right_neutral power_int_0_right)
  qed
  ultimately show "digits_ok x n (nat (n + 1074))"
    using assms(1) by (simp add: digits_ok_def)
qed

lemma shortest_digits:
  assumes x: "round_binary64 x = x" "0 < x" and sh: "shortest x = (ds, n)"
  shows "all_digits ds" and "ds \<noteq> []"
    and "round_binary64 (of_int (digits_value ds) * 10 powi (n - int (length ds))) = x"
proof -
  define d where "d = dec_exponent x"
  define k where "k = search_digits x d 1 (nat (d + 1074))"
  define s where "s = digits_at x d k"
  have ok: "digits_ok x d k" and k1: "1 \<le> k"
    using search_digits_ok[of 1 "nat (d + 1074)" "nat (d + 1074)" x d] digits_ok_exact[OF x d_def]
    by (auto simp: k_def)
  have val: "round_binary64 (of_int s * 10 powi (d - int k)) = x"
    using ok by (simp add: digits_ok_def s_def)
  have pw: "(0::rat) < 10 powi (int k - d)" by (simp add: zero_less_power_int)
  have "10 powi (d - 1) * 10 powi (int k - d) \<le> x * 10 powi (int k - d)"
    using dec_exponent_bounds(1)[OF x(2)] pw by (simp add: d_def)
  moreover have "(10::rat) powi (d - 1) * 10 powi (int k - d) = of_int (10 ^ (k - 1))"
    using k1 by (simp flip: power_int_add) (simp add: power_int_def nat_diff_distrib)
  ultimately have lo: "10 ^ (k - 1) \<le> s"
    unfolding s_def digits_at_def by (intro round_half_even_ge) simp
  have "x * 10 powi (int k - d) \<le> 10 powi d * 10 powi (int k - d)"
    using less_imp_le[OF dec_exponent_bounds(2)[OF x(2)]] pw by (simp add: d_def)
  moreover have "(10::rat) powi d * 10 powi (int k - d) = of_int (10 ^ k)"
    by (simp flip: power_int_add)
  ultimately have hi: "s \<le> 10 ^ k"
    unfolding s_def digits_at_def by (intro round_half_even_le) simp
  have s0: "0 < s" using lo by (meson less_le_trans zero_less_numeral zero_less_power)
  have eq: "shortest x = (if s = 10 ^ k then (''1'', d + 1) else (dec_digits s, d))"
    by (simp add: shortest_def d_def k_def s_def Let_def)
  have "CHR ''1'' = char_of (49 :: nat)" by code_simp
  then have one: "all_digits ''1''" by (auto simp: all_digits_def)
  show "all_digits ds" "ds \<noteq> []"
    using sh eq dec_digits_props[of s] s0 one
    by (auto split: if_splits)
  show "round_binary64 (of_int (digits_value ds) * 10 powi (n - int (length ds))) = x"
  proof (cases "s = 10 ^ k")
    case True
    have "of_int s * 10 powi (d - int k) = (10 :: rat) powi d"
      using True by (simp flip: power_int_of_nat add: power_int_add[symmetric])
    moreover have "digits_value ''1'' = 1" by (simp add: digits_value_def digit_def)
    ultimately show ?thesis using True eq sh val by auto
  next
    case False
    then have s_less: "s < 10 ^ k" using hi by simp
    have "length (dec_digits s) = k"
    proof (rule antisym)
      have "(10::int) ^ (length (dec_digits s) - 1) < 10 ^ k"
        using dec_digits_length(2)[of s] s0 s_less by linarith
      then show "length (dec_digits s) \<le> k" by (simp add: power_strict_increasing_iff)
      have "(10::int) ^ (k - 1) < 10 ^ length (dec_digits s)"
        using dec_digits_length(1)[of s] s0 lo by linarith
      then show "k \<le> length (dec_digits s)" by (simp add: power_strict_increasing_iff)
    qed
    then show ?thesis using False eq sh val dec_digits_props[of s] s0 by auto
  qed
qed

text \<open>The printed form determines the number.\<close>

definition is_binary64 :: "jsnum \<Rightarrow> bool" where
  "is_binary64 a = (case a of Fin x \<Rightarrow> round_binary64 x = x | _ \<Rightarrow> False)"

lemma format_number_nonempty: "all_digits ds \<Longrightarrow> ds \<noteq> [] \<Longrightarrow> format_number ds n \<noteq> [] \<and> hd (format_number ds n) \<in> char_of ` {48..<58 :: nat}"
  by (cases ds) (auto simp: format_number_def Let_def all_digits_def take_Cons' image_iff intro: char_48[symmetric] bexI[of _ 48])

definition read_signed :: "string \<Rightarrow> jsnum" where
  "read_signed s = (case s of [] \<Rightarrow> Fin 0
     | c # cs \<Rightarrow> Fin (if c = CHR ''-'' then - round_binary64 (read_number cs) else round_binary64 (read_number s)))"

theorem read_num_to_string:
  assumes "is_binary64 a"
  shows "read_signed (num_to_string a) = a"
proof -
  obtain x where a: "a = Fin x" and x: "round_binary64 x = x"
    using assms by (auto simp: is_binary64_def split: jsnum.splits)
  obtain ds n where sh: "shortest \<bar>x\<bar> = (ds, n)" by fastforce
  show ?thesis
  proof (cases "x = 0")
    case True
    then show ?thesis
      by (simp add: a num_to_string_def read_signed_def read_number_def read_mantissa_def read_exponent_def digits_value_def)
  next
    case False
    have "round_binary64 \<bar>x\<bar> = \<bar>x\<bar>" using x by (simp add: abs_if round_binary64_neg)
    then have s: "all_digits ds" "ds \<noteq> []" "round_binary64 (read_number (format_number ds n)) = \<bar>x\<bar>"
      using shortest_digits[OF _ _ sh] False by (auto simp: read_format_number)
    have "format_number ds n = hd (format_number ds n) # tl (format_number ds n)"
      using format_number_nonempty[OF s(1,2)] by simp
    moreover have "hd (format_number ds n) \<noteq> CHR ''-''"
      using format_number_nonempty[OF s(1,2), of n] digit_not(3)[of "[hd (format_number ds n)]"]
      by (auto simp: all_digits_def)
    ultimately have "read_signed (format_number ds n) = Fin \<bar>x\<bar>"
      using s(3) by (cases "format_number ds n") (auto simp: read_signed_def)
    moreover have "num_to_string a = (if x < 0 then ''-'' else []) @ format_number ds n"
      using False sh by (simp add: a num_to_string_def)
    ultimately show ?thesis
      using s(3) by (cases "x < 0") (simp_all add: a read_signed_def)
  qed
qed

lemma num_to_string_inj:
  "is_binary64 a \<Longrightarrow> is_binary64 b \<Longrightarrow> num_to_string a = num_to_string b \<Longrightarrow> a = b"
  by (metis read_num_to_string)

lemma gram_binary64: "g \<le> 10 ^ 14 \<Longrightarrow> is_binary64 (gram g)"
  using gram_value[of g] by (auto simp: is_binary64_def gram_def rnd_def Let_def split: if_splits)


section \<open>Number(s)\<close>

text \<open>
  The conversion of a string to a number: blank is zero, a radix prefix, an
  infinity, or a decimal literal with an optional sign; anything else is NaN.
\<close>

definition trim_number :: "string \<Rightarrow> string" where
  "trim_number s = rev (dropWhile (\<lambda>c. of_char c \<in> {9, 10, 11, 12, 13, 32, 160 :: nat})
    (rev (dropWhile (\<lambda>c. of_char c \<in> {9, 10, 11, 12, 13, 32, 160 :: nat}) s)))"

definition digit_chars :: "string \<Rightarrow> bool" where
  "digit_chars s = list_all (\<lambda>c. 48 \<le> (of_char c :: nat) \<and> (of_char c :: nat) < 58) s"

definition valid_mantissa :: "string \<Rightarrow> bool" where
  "valid_mantissa s = (let i = takeWhile (\<lambda>c. c \<noteq> CHR ''.'') s;
      f = drop 1 (dropWhile (\<lambda>c. c \<noteq> CHR ''.'') s)
    in digit_chars (i @ f) \<and> i @ f \<noteq> [])"

definition valid_exponent :: "string \<Rightarrow> bool" where
  "valid_exponent s = (let ds = (case s of [] \<Rightarrow> [] | c # cs \<Rightarrow> if c = CHR ''-'' \<or> c = CHR ''+'' then cs else s)
    in ds \<noteq> [] \<and> digit_chars ds)"

definition valid_decimal :: "string \<Rightarrow> bool" where
  "valid_decimal s = (valid_mantissa (takeWhile (\<lambda>c. c \<noteq> CHR ''e'') s)
     \<and> (CHR ''e'' \<in> set s \<longrightarrow> valid_exponent (drop 1 (dropWhile (\<lambda>c. c \<noteq> CHR ''e'') s))))"

definition radix_digit :: "nat \<Rightarrow> char \<Rightarrow> int option" where
  "radix_digit radix c = (let n = of_char c :: nat;
      v = (if 48 \<le> n \<and> n < 58 then n - 48 else if 97 \<le> n \<and> n < 123 then n - 87
           else if 65 \<le> n \<and> n < 91 then n - 55 else 99)
    in if v < radix then Some (int v) else None)"

fun radix_value :: "nat \<Rightarrow> int \<Rightarrow> string \<Rightarrow> int option" where
  "radix_value radix acc [] = Some acc"
| "radix_value radix acc (c # cs) = (case radix_digit radix c of
      None \<Rightarrow> None | Some v \<Rightarrow> radix_value radix (int radix * acc + v) cs)"

definition radix_prefix :: "string \<Rightarrow> nat option" where
  "radix_prefix s = (case s of
      z # x # c # cs \<Rightarrow> if z \<noteq> CHR ''0'' then None
        else if x = CHR ''x'' \<or> x = CHR ''X'' then Some 16
        else if x = CHR ''o'' \<or> x = CHR ''O'' then Some 8
        else if x = CHR ''b'' \<or> x = CHR ''B'' then Some 2 else None
    | _ \<Rightarrow> None)"

definition number_of_string :: "string \<Rightarrow> jsnum" where
  "number_of_string s0 = (let s = trim_number s0 in
     if s = [] then Fin 0
     else (case radix_prefix s of
         Some radix \<Rightarrow> (case radix_value radix 0 (drop 2 s) of None \<Rightarrow> NaN | Some v \<Rightarrow> js_of_int v)
       | None \<Rightarrow> (let neg = (hd s = CHR ''-'');
             t = (if neg \<or> hd s = CHR ''+'' then tl s else s);
             u = map (\<lambda>c. if c = CHR ''E'' then CHR ''e'' else c) t
           in if t = ''Infinity'' then inf_of neg
              else if valid_decimal u then (let v = read_number u in rnd neg (if neg then - v else v))
              else NaN)))"

lemma all_digits_chars: "all_digits ds \<longleftrightarrow> digit_chars ds"
proof -
  have "c \<in> char_of ` {48..<58 :: nat} \<longleftrightarrow> 48 \<le> (of_char c :: nat) \<and> (of_char c :: nat) < 58" for c
  proof
    assume "48 \<le> (of_char c :: nat) \<and> (of_char c :: nat) < 58"
    then show "c \<in> char_of ` {48..<58 :: nat}"
      by (intro image_eqI[where x = "of_char c"]) auto
  qed auto
  then show ?thesis by (simp add: all_digits_def digit_chars_def list_all_iff)
qed

lemma valid_mantissa_point: "CHR ''.'' \<notin> set i \<Longrightarrow> digit_chars (i @ f) \<Longrightarrow> i @ f \<noteq> [] \<Longrightarrow> valid_mantissa (i @ CHR ''.'' # f)"
  by (simp add: valid_mantissa_def split_at)

lemma valid_mantissa_plain: "CHR ''.'' \<notin> set i \<Longrightarrow> digit_chars i \<Longrightarrow> i \<noteq> [] \<Longrightarrow> valid_mantissa i"
  by (simp add: valid_mantissa_def split_at)

lemma valid_decimal_plain: "CHR ''e'' \<notin> set m \<Longrightarrow> valid_mantissa m \<Longrightarrow> valid_decimal m"
  by (simp add: valid_decimal_def split_at)

lemma valid_decimal_exp:
  "CHR ''e'' \<notin> set m \<Longrightarrow> valid_mantissa m \<Longrightarrow> valid_exponent e \<Longrightarrow> valid_decimal (m @ CHR ''e'' # e)"
  by (simp add: valid_decimal_def split_at)

lemma digit_chars_append [simp]: "digit_chars (xs @ ys) \<longleftrightarrow> digit_chars xs \<and> digit_chars ys"
  by (auto simp: digit_chars_def)

lemma digit_chars_sub: "digit_chars ds \<Longrightarrow> set xs \<subseteq> set ds \<Longrightarrow> digit_chars xs"
  by (auto simp: digit_chars_def list_all_iff)

lemma digit_chars_zeros: "digit_chars (replicate j (CHR ''0''))"
  unfolding all_digits_chars[symmetric] all_digits_def by (auto intro!: image_eqI[where x = 48] simp: char_48)

lemma valid_exponent_signed: "valid_exponent ((if e < 0 then ''-'' else ''+'') @ dec_digits \<bar>e\<bar>)"
  using dec_digits_props[of "\<bar>e\<bar>"] by (cases "e < 0") (simp_all add: valid_exponent_def all_digits_chars Let_def)

text \<open>The letters a printed number is made of.\<close>

lemma valid_format_number:
  assumes d: "digit_chars ds" and ne: "ds \<noteq> []"
  shows "valid_decimal (format_number ds n)"
proof -
  have a: "all_digits xs" if "digit_chars xs" for xs using that by (simp add: all_digits_chars)
  have tk: "digit_chars (take j ds)" "digit_chars (drop j ds)" for j
    using d by (auto intro: digit_chars_sub dest: in_set_takeD in_set_dropD)
  have z: "digit_chars (ds @ replicate j (CHR ''0''))" "digit_chars (replicate j (CHR ''0'') @ ds)" for j
    using d digit_chars_zeros by simp_all
  have zero: "digit_chars ''0''" using digit_chars_zeros[of 1] by simp
  show ?thesis
    unfolding format_number_def Let_def
  proof (split if_split, intro conjI impI; (split if_split, intro conjI impI)?; (split if_split, intro conjI impI)?;
      (split if_split, intro conjI impI)?)
    show "valid_decimal (ds @ replicate (nat (n - int (length ds))) (CHR ''0''))"
      using z ne a[OF z(1)] by (intro valid_decimal_plain valid_mantissa_plain) (simp_all del: set_append)
    show "valid_decimal (take (nat n) ds @ ''.'' @ drop (nat n) ds)"
      using tk ne d a[OF tk(1)] a[OF tk(2)] by (simp, intro valid_decimal_plain valid_mantissa_point) auto
    have "valid_mantissa (''0'' @ CHR ''.'' # (replicate (nat (- n)) (CHR ''0'') @ ds))"
    proof (rule valid_mantissa_point)
      show "digit_chars (''0'' @ (replicate (nat (- n)) (CHR ''0'') @ ds))"
        using z(2) zero by (simp only: digit_chars_append)
    qed (use ne in simp_all)
    then show "valid_decimal (''0.'' @ replicate (nat (- n)) (CHR ''0'') @ ds)"
      using a[OF d] by (intro valid_decimal_plain) simp_all
    show "valid_decimal (ds @ ''e'' @ (if n - 1 < 0 then ''-'' else ''+'') @ dec_digits \<bar>n - 1\<bar>)"
      using valid_decimal_exp[OF _ _ valid_exponent_signed, of ds "n - 1"] d ne a[OF d] by (simp add: valid_mantissa_plain)
    have "valid_mantissa (take 1 ds @ CHR ''.'' # drop 1 ds)"
      using tk[of 1] ne d a[OF tk(1)] by (intro valid_mantissa_point) auto
    then show "valid_decimal (take 1 ds @ ''.'' @ drop 1 ds @ ''e'' @ (if n - 1 < 0 then ''-'' else ''+'') @ dec_digits \<bar>n - 1\<bar>)"
      using valid_decimal_exp[OF _ _ valid_exponent_signed, of "take 1 ds @ CHR ''.'' # drop 1 ds" "n - 1"]
        a[OF tk(1)] a[OF tk(2)] by simp
  qed
qed

text \<open>A printed number reads back as the number it prints.\<close>

definition number_char :: "char \<Rightarrow> bool" where
  "number_char c = ((48 \<le> (of_char c :: nat) \<and> (of_char c :: nat) < 58) \<or> c \<in> {CHR ''.'', CHR ''e'', CHR ''+'', CHR ''-''})"

lemma number_char_special: "number_char c \<Longrightarrow> (of_char c :: nat) \<in> {43, 45, 46, 101} \<union> {48..<58}"
proof -
  have "(of_char (CHR ''.'') :: nat) = 46" "(of_char (CHR ''e'') :: nat) = 101"
    "(of_char (CHR ''+'') :: nat) = 43" "(of_char (CHR ''-'') :: nat) = 45" by code_simp+
  then show "number_char c \<Longrightarrow> (of_char c :: nat) \<in> {43, 45, 46, 101} \<union> {48..<58}"
    by (auto simp: number_char_def)
qed

lemma digit_chars_number: "digit_chars ds \<Longrightarrow> list_all number_char ds"
  by (auto simp: digit_chars_def number_char_def list_all_iff)

lemma format_number_chars:
  assumes "digit_chars ds"
  shows "list_all number_char (format_number ds n)"
proof -
  have d: "list_all number_char ds" using assms by (rule digit_chars_number)
  then have "list_all number_char (take j ds)" "list_all number_char (drop j ds)" for j
    by (auto simp: list_all_iff dest: in_set_takeD in_set_dropD)
  moreover have "list_all number_char (replicate j (CHR ''0''))" for j
    by (rule digit_chars_number[OF digit_chars_zeros])
  moreover have "list_all number_char (dec_digits \<bar>i\<bar>)" for i
    using dec_digits_props[of "\<bar>i\<bar>"] by (intro digit_chars_number) (simp add: all_digits_chars)
  moreover have "number_char (CHR ''0'')" using digit_chars_number[OF digit_chars_zeros[of 1]] by simp
  moreover have "number_char (CHR ''.'')" "number_char (CHR ''e'')" "number_char (CHR ''+'')" "number_char (CHR ''-'')"
    by (simp_all add: number_char_def)
  ultimately show ?thesis using d by (simp add: format_number_def Let_def)
qed

lemma trim_number_id: "list_all number_char s \<Longrightarrow> trim_number s = s"
proof -
  assume s: "list_all number_char s"
  let ?w = "\<lambda>c. of_char c \<in> {9, 10, 11, 12, 13, 32, 160 :: nat}"
  have no: "\<not> ?w c" if "c \<in> set s" for c
    using number_char_special[of c] s that by (auto simp: list_all_iff)
  have id: "dropWhile ?w t = t" if "set t \<subseteq> set s" for t
    using no that by (cases t) auto
  show ?thesis unfolding trim_number_def by (simp only: id set_rev order_refl rev_rev_ident)
qed

lemma radix_prefix_none: "list_all number_char s \<Longrightarrow> radix_prefix s = None"
proof -
  have "(of_char (CHR ''x'') :: nat) = 120" "(of_char (CHR ''X'') :: nat) = 88" "(of_char (CHR ''o'') :: nat) = 111"
    "(of_char (CHR ''O'') :: nat) = 79" "(of_char (CHR ''b'') :: nat) = 98" "(of_char (CHR ''B'') :: nat) = 66"
    by code_simp+
  then have no: "\<not> number_char (CHR ''x'')" "\<not> number_char (CHR ''X'')" "\<not> number_char (CHR ''o'')"
      "\<not> number_char (CHR ''O'')" "\<not> number_char (CHR ''b'')" "\<not> number_char (CHR ''B'')"
    using number_char_special[of "CHR ''x''"] number_char_special[of "CHR ''X''"] number_char_special[of "CHR ''o''"]
      number_char_special[of "CHR ''O''"] number_char_special[of "CHR ''b''"] number_char_special[of "CHR ''B''"]
    by auto
  assume s: "list_all number_char s"
  show ?thesis
  proof (cases "\<exists>z x c cs. s = z # x # c # cs")
    case True
    then obtain z x c cs where eq: "s = z # x # c # cs" by blast
    then have "number_char x" using s by simp
    then have "x \<noteq> CHR ''x''" "x \<noteq> CHR ''X''" "x \<noteq> CHR ''o''" "x \<noteq> CHR ''O''" "x \<noteq> CHR ''b''" "x \<noteq> CHR ''B''"
      using no by metis+
    then show ?thesis by (simp add: eq radix_prefix_def)
  next
    case False
    then show ?thesis unfolding radix_prefix_def by (simp split: list.splits)
  qed
qed

lemma no_capital_E: "list_all number_char s \<Longrightarrow> map (\<lambda>c. if c = CHR ''E'' then CHR ''e'' else c) s = s"
proof -
  have "(of_char (CHR ''E'') :: nat) = 69" by code_simp
  then have "\<not> number_char (CHR ''E'')" using number_char_special[of "CHR ''E''"] by auto
  then show "list_all number_char s \<Longrightarrow> map (\<lambda>c. if c = CHR ''E'' then CHR ''e'' else c) s = s"
    by (induction s) auto
qed

lemma not_Infinity: "list_all number_char s \<Longrightarrow> s \<noteq> ''Infinity''"
proof -
  have "(of_char (CHR ''I'') :: nat) = 73" by code_simp
  then have "\<not> number_char (CHR ''I'')" using number_char_special[of "CHR ''I''"] by auto
  then show "list_all number_char s \<Longrightarrow> s \<noteq> ''Infinity''" by auto
qed

lemma hd_format_number:
  assumes "digit_chars ds" and "ds \<noteq> []"
  shows "format_number ds n \<noteq> []" and "hd (format_number ds n) \<noteq> CHR ''-''" and "hd (format_number ds n) \<noteq> CHR ''+''"
proof -
  have a: "all_digits ds" using assms by (simp add: all_digits_chars)
  have f: "format_number ds n \<noteq> []" "hd (format_number ds n) \<in> char_of ` {48..<58 :: nat}"
    using format_number_nonempty[OF a assms(2), of n] by auto
  then have "all_digits [hd (format_number ds n)]" by (simp add: all_digits_def)
  then show "hd (format_number ds n) \<noteq> CHR ''-''" "hd (format_number ds n) \<noteq> CHR ''+''"
    using digit_not(3,4)[of "[hd (format_number ds n)]"] by auto
  show "format_number ds n \<noteq> []" by (rule f(1))
qed

theorem number_of_printed:
  assumes "is_binary64 a" and "rval a < 2 ^ 1024" and "- (2 ^ 1024) < rval a"
  shows "number_of_string (num_to_string a) = a"
proof -
  obtain x where a: "a = Fin x" and x: "round_binary64 x = x"
    using assms(1) by (auto simp: is_binary64_def split: jsnum.splits)
  have big: "- (2 ^ 1024) < x" "x < 2 ^ 1024" using assms(2,3) a by auto
  show ?thesis
  proof (cases "x = 0")
    case True
    have n: "list_all number_char ''0''" using digit_chars_number[OF digit_chars_zeros[of 1]] by simp
    have "digit_chars ''0''" using digit_chars_zeros[of 1] by simp
    then have v: "valid_decimal ''0''" by (intro valid_decimal_plain valid_mantissa_plain) auto
    have "read_number ''0'' = 0"
      by (simp add: read_number_def read_mantissa_def read_exponent_def digits_value_def)
    then show ?thesis
      using True trim_number_id[OF n] v no_capital_E[OF n]
      by (simp add: a num_to_string_def number_of_string_def radix_prefix_def rnd_def)
  next
    case False
    obtain ds n where sh: "shortest \<bar>x\<bar> = (ds, n)" by fastforce
    have ax: "round_binary64 \<bar>x\<bar> = \<bar>x\<bar>" using x by (simp add: abs_if round_binary64_neg)
    have ds: "digit_chars ds" "ds \<noteq> []" and rd: "round_binary64 (read_number (format_number ds n)) = \<bar>x\<bar>"
      using shortest_digits[OF ax _ sh] False by (simp_all add: read_format_number all_digits_chars)
    define t where "t = format_number ds n"
    have t: "list_all number_char t" "valid_decimal t" "t \<noteq> []" "hd t \<noteq> CHR ''-''" "hd t \<noteq> CHR ''+''"
      using format_number_chars[OF ds(1)] valid_format_number[OF ds] hd_format_number[OF ds] by (simp_all add: t_def)
    have ns: "num_to_string a = (if x < 0 then ''-'' else []) @ t"
      using False sh by (simp add: a num_to_string_def t_def)
    have all: "list_all number_char (num_to_string a)" using t(1) by (simp add: ns number_char_def)
    have "number_of_string (num_to_string a) = rnd (x < 0) (if x < 0 then - read_number t else read_number t)"
      using t not_Infinity[OF t(1)] no_capital_E[OF t(1)]
      unfolding number_of_string_def Let_def trim_number_id[OF all] radix_prefix_none[OF all] option.case
      by (cases "x < 0") (simp_all add: ns)
    also have "\<dots> = Fin x"
      using rd False big
      by (auto simp: rnd_def Let_def round_binary64_neg t_def[symmetric] simp del: power_numeral)
    finally show ?thesis by (simp add: a)
  qed
qed

end
