(* ===== verification/Canonical.thy ===== *)
theory Canonical
  imports Sha256 NumberPrinting
begin

text \<open>
  \<open>packages/shared/src/canonical-core.ts\<close> and \<open>canonical.ts\<close>: the weigh-in payload
  of \<open>types.ts\<close>, the canonical JSON encoder with sorted keys, and the payload hash
  that becomes a Merkle leaf.  The main result is that the canonical string
  determines every field of a payload, so that two payloads with one hash are the
  same payload up to a SHA-256 collision.
\<close>

section \<open>The encoder\<close>

text \<open>The values the encoder meets; \<open>JUndefined\<close> is any value it refuses by type.\<close>

datatype json =
    JNull
  | JBool bool
  | JNum jsnum
  | JStr string
  | JArr "json list"
  | JObj "(string \<times> json) list"
  | JUndefined

definition json_number :: "jsnum \<Rightarrow> string result" where
  "json_number n =
    (if \<not> is_finite n then throw (PlainError (''cannot canonicalise non-finite number: '' @ num_to_string n))
     else return (num_to_string (if n = NegZero then Fin 0 else n)))"

fun sequence_results :: "'a result list \<Rightarrow> 'a list result" where
  "sequence_results [] = return []"
| "sequence_results (r # rs) = (case r of Inl e \<Rightarrow> throw e
    | Inr x \<Rightarrow> (case sequence_results rs of Inl e \<Rightarrow> throw e | Inr xs \<Rightarrow> return (x # xs)))"

fun canonicalize :: "json \<Rightarrow> string result" where
  "canonicalize JNull = return ''null''"
| "canonicalize (JBool b) = return (if b then ''true'' else ''false'')"
| "canonicalize (JNum n) = json_number n"
| "canonicalize (JStr s) = return (json_string s)"
| "canonicalize (JArr vs) = (case sequence_results (map canonicalize vs) of
      Inl e \<Rightarrow> throw e
    | Inr parts \<Rightarrow> return (''['' @ join_with '','' parts @ '']''))"
| "canonicalize (JObj kvs) =
    (case sequence_results (map snd (js_sort (\<lambda>a b. code_unit_compare (fst a) (fst b))
        (map (\<lambda>(k, v). (k,
          if v = JUndefined then throw (PlainError (''cannot canonicalise undefined at key '' @ json_string k))
          else (case canonicalize v of Inl e \<Rightarrow> throw e | Inr s \<Rightarrow> return (json_string k @ '':'' @ s)))) kvs))) of
      Inl e \<Rightarrow> throw e
    | Inr parts \<Rightarrow> return (''{'' @ join_with '','' parts @ ''}''))"
| "canonicalize JUndefined = throw (PlainError ''cannot canonicalise value of type undefined'')"

section \<open>The payload\<close>

record WeighInPayload =
  p_schema :: string
  p_collectorId :: string
  p_hubId :: string
  p_deviceId :: string
  p_weightKg :: jsnum
  p_material :: string
  p_capturedAt :: string
  p_photoHash :: string
  p_nonce :: string

definition WEIGHT_DECIMALS :: nat where
  "WEIGHT_DECIMALS = 3"

definition quantise :: "jsnum \<Rightarrow> nat \<Rightarrow> jsnum result" where
  "quantise n decimals =
    (if \<not> is_finite n then throw (PlainError (''cannot quantise non-finite number: '' @ num_to_string n))
     else return (js_quantise decimals n))"

definition canonicalEventPayload :: "WeighInPayload \<Rightarrow> string result" where
  "canonicalEventPayload p = (case quantise (p_weightKg p) WEIGHT_DECIMALS of
      Inl e \<Rightarrow> throw e
    | Inr w \<Rightarrow> canonicalize (JObj
        [(''schema'', JStr (p_schema p)),
         (''collectorId'', JStr (p_collectorId p)),
         (''hubId'', JStr (p_hubId p)),
         (''deviceId'', JStr (p_deviceId p)),
         (''weightKg'', JNum w),
         (''material'', JStr (p_material p)),
         (''capturedAt'', JStr (p_capturedAt p)),
         (''photoHash'', JStr (p_photoHash p)),
         (''nonce'', JStr (p_nonce p))]))"

definition eventPayloadHash :: "WeighInPayload \<Rightarrow> string result" where
  "eventPayloadHash p = map_sum id (\<lambda>s. sha256Hex (utf8 s)) (canonicalEventPayload p)"

section \<open>The canonical string, written out\<close>

text \<open>The weight as it is encoded.\<close>

definition weight_text :: "jsnum \<Rightarrow> string" where
  "weight_text w = num_to_string (let q = js_quantise 3 w in if q = NegZero then Fin 0 else q)"

lemma is_finite_rnd: "\<bar>x\<bar> \<le> 10 ^ 30 \<Longrightarrow> rnd False x = Fin (round_binary64 x)"
  by (rule rnd_Fin)

definition canonical_text :: "WeighInPayload \<Rightarrow> string" where
  "canonical_text p =
    ''{'' @ json_string ''capturedAt'' @ '':'' @ json_string (p_capturedAt p) @
    '','' @ json_string ''collectorId'' @ '':'' @ json_string (p_collectorId p) @
    '','' @ json_string ''deviceId'' @ '':'' @ json_string (p_deviceId p) @
    '','' @ json_string ''hubId'' @ '':'' @ json_string (p_hubId p) @
    '','' @ json_string ''material'' @ '':'' @ json_string (p_material p) @
    '','' @ json_string ''nonce'' @ '':'' @ json_string (p_nonce p) @
    '','' @ json_string ''photoHash'' @ '':'' @ json_string (p_photoHash p) @
    '','' @ json_string ''schema'' @ '':'' @ json_string (p_schema p) @
    '','' @ json_string ''weightKg'' @ '':'' @ weight_text (p_weightKg p) @ ''}''"

lemma payload_keys_sorted:
  "js_sort (\<lambda>a b. code_unit_compare (fst a) (fst b))
      [(''schema'', a1), (''collectorId'', a2), (''hubId'', a3), (''deviceId'', a4), (''weightKg'', a5),
       (''material'', a6), (''capturedAt'', a7), (''photoHash'', a8), (''nonce'', a9)]
    = [(''capturedAt'', a7), (''collectorId'', a2), (''deviceId'', a4), (''hubId'', a3), (''material'', a6),
       (''nonce'', a9), (''photoHash'', a8), (''schema'', a1), (''weightKg'', a5)]"
proof -
  have less:
    "(code_unit_compare ''capturedAt'' ''nonce'' \<le> 0) = True"
    "(code_unit_compare ''collectorId'' ''capturedAt'' \<le> 0) = False"
    "(code_unit_compare ''collectorId'' ''deviceId'' \<le> 0) = True"
    "(code_unit_compare ''deviceId'' ''capturedAt'' \<le> 0) = False"
    "(code_unit_compare ''deviceId'' ''material'' \<le> 0) = True"
    "(code_unit_compare ''hubId'' ''capturedAt'' \<le> 0) = False"
    "(code_unit_compare ''hubId'' ''deviceId'' \<le> 0) = False"
    "(code_unit_compare ''hubId'' ''material'' \<le> 0) = True"
    "(code_unit_compare ''material'' ''capturedAt'' \<le> 0) = False"
    "(code_unit_compare ''material'' ''nonce'' \<le> 0) = True"
    "(code_unit_compare ''photoHash'' ''nonce'' \<le> 0) = False"
    "(code_unit_compare ''schema'' ''capturedAt'' \<le> 0) = False"
    "(code_unit_compare ''schema'' ''collectorId'' \<le> 0) = False"
    "(code_unit_compare ''schema'' ''deviceId'' \<le> 0) = False"
    "(code_unit_compare ''schema'' ''hubId'' \<le> 0) = False"
    "(code_unit_compare ''schema'' ''material'' \<le> 0) = False"
    "(code_unit_compare ''schema'' ''nonce'' \<le> 0) = False"
    "(code_unit_compare ''schema'' ''photoHash'' \<le> 0) = False"
    "(code_unit_compare ''schema'' ''weightKg'' \<le> 0) = True"
    "(code_unit_compare ''weightKg'' ''capturedAt'' \<le> 0) = False"
    "(code_unit_compare ''weightKg'' ''material'' \<le> 0) = False"
    "(code_unit_compare ''weightKg'' ''nonce'' \<le> 0) = False"
    "(code_unit_compare ''weightKg'' ''photoHash'' \<le> 0) = False"
    by code_simp+
  show ?thesis by (simp only: js_sort.simps insert_cmp.simps fst_conv less if_True if_False)
qed

lemma canonical_text_eq:
  "is_finite (p_weightKg p) \<Longrightarrow> is_finite (js_quantise 3 (p_weightKg p)) \<Longrightarrow>
    canonicalEventPayload p = Inr (canonical_text p)"
  by (simp only: canonicalEventPayload_def quantise_def WEIGHT_DECIMALS_def canonicalize.simps list.map
      prod.case json.distinct json.simps if_False if_True sum.case not_True_eq_False
      payload_keys_sorted sequence_results.simps snd_conv join_with.simps
      json_number_def canonical_text_def weight_text_def Let_def is_finite.simps append_assoc
      if_distrib[where f = is_finite] if_cancel)

section \<open>The canonical string determines the payload\<close>

lemma canonical_text_prefix:
  assumes "canonical_text p = canonical_text q"
  shows "p_capturedAt p = p_capturedAt q" "p_collectorId p = p_collectorId q" "p_deviceId p = p_deviceId q"
    "p_hubId p = p_hubId q" "p_material p = p_material q" "p_nonce p = p_nonce q"
    "p_photoHash p = p_photoHash q" "p_schema p = p_schema q"
    "weight_text (p_weightKg p) = weight_text (p_weightKg q)"
  using assms unfolding canonical_text_def
  by (auto dest!: json_string_prefix)

text \<open>A number a program can hold: finite, and a binary64 value.\<close>

definition is_weight :: "jsnum \<Rightarrow> bool" where
  "is_weight w = (w = NegZero \<or> is_binary64 w)"

text \<open>The weight a payload attests: quantised, minus zero read as zero.\<close>

definition attested_weight :: "jsnum \<Rightarrow> jsnum" where
  "attested_weight w = (let q = js_quantise 3 w in if q = NegZero then Fin 0 else q)"

lemma rnd_binary64:
  assumes "\<bar>v\<bar> \<le> 10 ^ 30"
  shows "rnd neg v = NegZero \<or> is_binary64 (rnd neg v)"
proof -
  have "rnd False v = Fin (round_binary64 v)" using assms by (rule rnd_Fin)
  then show ?thesis
    by (auto simp: rnd_def is_binary64_def Let_def split: if_splits simp del: power_numeral)
qed

lemma fixed_int_bound:
  assumes "0 \<le> x" and "x < 10 ^ 21"
  shows "\<bar>of_int (fixed_int 3 x) / 10 ^ 3 :: rat\<bar> \<le> 10 ^ 30"
proof -
  have "of_int (fixed_int 3 x) \<le> x * 10 ^ 3 + 1 / 2" unfolding fixed_int_def by simp
  also have "\<dots> \<le> 10 ^ 33" using assms(2) by simp
  finally have "of_int (fixed_int 3 x) / 10 ^ 3 \<le> (10 ^ 30 :: rat)" by simp
  moreover have "0 \<le> fixed_int 3 x" using assms(1) by (simp add: fixed_int_def)
  ultimately show ?thesis by (simp add: abs_le_iff)
qed

lemma quantise_weight:
  assumes "is_weight w"
  shows "js_quantise 3 w = NegZero \<or> is_binary64 (js_quantise 3 w)"
proof (cases w)
  case (Fin x)
  show ?thesis
  proof (cases "\<bar>x\<bar> \<ge> 10 ^ 21")
    case True
    then show ?thesis using assms Fin by (simp add: is_weight_def js_quantise_def)
  next
    case False
    then have "\<bar>of_int (fixed_int 3 \<bar>x\<bar>) / 10 ^ 3 :: rat\<bar> \<le> 10 ^ 30"
      by (intro fixed_int_bound) auto
    then show ?thesis
      using False Fin rnd_binary64[of "of_int (fixed_int 3 \<bar>x\<bar>) / 10 ^ 3" False]
        rnd_binary64[of "- (of_int (fixed_int 3 \<bar>x\<bar>) / 10 ^ 3)" True]
      by (cases "x < 0") (simp_all add: js_quantise_def Let_def)
  qed
qed (use assms in \<open>auto simp: is_weight_def is_binary64_def js_quantise_def\<close>)

lemma attested_binary64: "is_weight w \<Longrightarrow> is_binary64 (attested_weight w)"
  using quantise_weight[of w] by (auto simp: attested_weight_def Let_def is_binary64_def)

lemma is_weight_finite: "is_weight w \<Longrightarrow> is_finite w"
  by (cases w) (auto simp: is_weight_def is_binary64_def)

lemma quantise_finite: "is_weight w \<Longrightarrow> is_finite (js_quantise 3 w)"
  using quantise_weight[of w] is_weight_finite[of "js_quantise 3 w"] by (auto simp: is_weight_def)

lemma weight_text_inj:
  "is_weight w \<Longrightarrow> is_weight v \<Longrightarrow> weight_text w = weight_text v \<Longrightarrow> attested_weight w = attested_weight v"
  unfolding weight_text_def attested_weight_def[symmetric] by (rule num_to_string_inj) (simp_all add: attested_binary64)

lemma canonical_total: "is_weight (p_weightKg p) \<Longrightarrow> canonicalEventPayload p = Inr (canonical_text p)"
  by (simp add: canonical_text_eq is_weight_finite quantise_finite)

text \<open>The payload with the weight as attested: what the canonical string, and so the hash, speaks of.\<close>

definition attested :: "WeighInPayload \<Rightarrow> WeighInPayload" where
  "attested p = p\<lparr>p_weightKg := attested_weight (p_weightKg p)\<rparr>"

lemma canonical_text_inj:
  assumes "is_weight (p_weightKg p)" and "is_weight (p_weightKg q)" and "canonical_text p = canonical_text q"
  shows "attested p = attested q"
  using canonical_text_prefix[OF assms(3)] weight_text_inj[OF assms(1,2)]
  by (simp add: attested_def)

lemma js_quantise_attested: "is_weight w \<Longrightarrow> js_quantise 3 w = w \<Longrightarrow> attested_weight w = w"
  by (auto simp: attested_weight_def Let_def js_quantise_def is_weight_def is_binary64_def split: jsnum.splits)

lemma payload_hash_total:
  "is_weight (p_weightKg p) \<Longrightarrow> eventPayloadHash p = Inr (sha256Hex (utf8 (canonical_text p)))"
  by (simp add: eventPayloadHash_def canonical_total)

lemma eventPayloadHash_hash64: "eventPayloadHash p = Inr h \<Longrightarrow> is_hash64 h"
  by (auto simp: eventPayloadHash_def map_sum_def split: sum.splits)

lemma payload_hash_binding:
  assumes "is_weight (p_weightKg p)" and "is_weight (p_weightKg q)"
    and "eventPayloadHash p = Inr h" and "eventPayloadHash q = Inr h"
    and "\<not> has_collision [utf8 (canonical_text p), utf8 (canonical_text q)]"
  shows "attested p = attested q"
proof -
  have "h = sha256Hex (utf8 (canonical_text p))"
    using payload_hash_total[OF assms(1)] assms(3) by simp
  moreover have "h = sha256Hex (utf8 (canonical_text q))"
    using payload_hash_total[OF assms(2)] assms(4) by simp
  ultimately have "sha256 (utf8 (canonical_text p)) = sha256 (utf8 (canonical_text q))"
    by (simp only: sha256Hex_eq_iff)
  then have "utf8 (canonical_text p) = utf8 (canonical_text q)"
    by (rule sha256_eqD[OF assms(5), rotated 2]) simp_all
  then have "canonical_text p = canonical_text q" by (simp only: utf8_inj)
  then show ?thesis using assms(1,2) canonical_text_inj by blast
qed

lemma gram_weight: "g \<le> 10 ^ 14 \<Longrightarrow> is_weight (gram g)"
  by (simp add: is_weight_def gram_binary64)

section \<open>Properties\<close>

text \<open>A payload to instantiate the statements with.\<close>

definition sample_payload :: "string \<Rightarrow> nat \<Rightarrow> WeighInPayload" where
  "sample_payload n g = \<lparr>p_schema = ''proofchain.weighin.v2'', p_collectorId = ''c'', p_hubId = ''h'',
     p_deviceId = ''d'', p_weightKg = gram g, p_material = ''PET'', p_capturedAt = ''2026-01-02T03:04:05.000Z'',
     p_photoHash = sha256Hex [], p_nonce = n\<rparr>"

lemma sample_payload_weight: "g \<le> 10 ^ 14 \<Longrightarrow> is_weight (p_weightKg (sample_payload n g))"
  by (simp add: sample_payload_def gram_weight)

text \<open>C16. The canonical string determines the payload: two payloads with one canonical string
  agree in every field, the weight up to its quantisation to grams, so no choice of ids, nonce or
  other text makes one signed weigh-in read as another.\<close>

theorem canonical_payload_injective:
  assumes "is_weight (p_weightKg p)" and "is_weight (p_weightKg q)"
    and "canonicalEventPayload p = canonicalEventPayload q"
  shows "attested p = attested q"
proof -
  have "canonical_text p = canonical_text q"
    using assms(3) canonical_total[OF assms(1)] canonical_total[OF assms(2)] by simp
  then show ?thesis using assms(1,2) canonical_text_inj by blast
qed

theorem canonical_payload_injective_witness:
  "attested (sample_payload ''n'' 12345) = attested (sample_payload ''n'' 12345)"
  by (rule canonical_payload_injective) (simp_all add: sample_payload_weight)

text \<open>One payload hash, one payload: two payloads with the same hash agree in every field
  (the weight as quantised), or SHA-256 collides on their two canonical strings.  Every payload
  with a finite weight has a hash, of 64 lower-case hexadecimal digits.\<close>

theorem payload_hash_binds:
  assumes "is_weight (p_weightKg p)" and "is_weight (p_weightKg q)"
  shows "\<exists>h k. eventPayloadHash p = Inr h \<and> eventPayloadHash q = Inr k \<and> is_hash64 h
    \<and> (h \<noteq> k \<or> attested p = attested q \<or> has_collision [utf8 (canonical_text p), utf8 (canonical_text q)])"
proof (intro exI conjI)
  let ?h = "\<lambda>p. sha256Hex (utf8 (canonical_text p))"
  show "eventPayloadHash p = Inr (?h p)" "eventPayloadHash q = Inr (?h q)"
    using assms by (simp_all add: payload_hash_total)
  show "is_hash64 (?h p)" by simp
  show "?h p \<noteq> ?h q \<or> attested p = attested q \<or> has_collision [utf8 (canonical_text p), utf8 (canonical_text q)]"
  proof (cases "?h p = ?h q")
    case True
    then have "eventPayloadHash q = Inr (?h p)" using assms(2) by (simp only: payload_hash_total)
    then show ?thesis using payload_hash_binding[OF assms payload_hash_total[OF assms(1)]] by blast
  qed simp
qed

theorem payload_hash_binds_witness:
  "\<exists>h k. eventPayloadHash (sample_payload ''n'' 1) = Inr h \<and> eventPayloadHash (sample_payload ''m'' 2) = Inr k \<and> is_hash64 h
    \<and> (h \<noteq> k \<or> attested (sample_payload ''n'' 1) = attested (sample_payload ''m'' 2)
       \<or> has_collision [utf8 (canonical_text (sample_payload ''n'' 1)), utf8 (canonical_text (sample_payload ''m'' 2))])"
  by (rule payload_hash_binds) (simp_all add: sample_payload_weight)

end
