(* ===== verification/JsDate.thy ===== *)
theory JsDate
  imports JsNumber
begin

text \<open>
  Instants: milliseconds since 1970 as an integer, printed by \<open>toISOString\<close>.
  Reading a date from a string is a parameter of the operations that do it, since
  \<open>new Date(s)\<close> accepts formats beyond the one the language defines.
\<close>

type_synonym instant = int

section \<open>Calendar\<close>

text \<open>The proleptic Gregorian date of a day number, day 0 being 1970-01-01.\<close>

definition civil_of_days :: "int \<Rightarrow> int \<times> int \<times> int" where
  "civil_of_days z0 = (let z = z0 + 719468;
      era = z div 146097;
      doe = z mod 146097;
      yoe = (doe - doe div 1460 + doe div 36524 - doe div 146096) div 365;
      doy = doe - (365 * yoe + yoe div 4 - yoe div 100);
      mp = (5 * doy + 2) div 153;
      d = doy - (153 * mp + 2) div 5 + 1;
      m = (if mp < 10 then mp + 3 else mp - 9);
      y = yoe + era * 400 + (if m \<le> 2 then 1 else 0)
    in (y, m, d))"

definition digits2 :: "int \<Rightarrow> string" where
  "digits2 n = pad_left 2 (dec_digits n)"

definition year_text :: "int \<Rightarrow> string" where
  "year_text y = (if 0 \<le> y \<and> y \<le> 9999 then pad_left 4 (dec_digits y)
    else (if y < 0 then ''-'' else ''+'') @ pad_left 6 (dec_digits \<bar>y\<bar>))"

definition toISOString :: "instant \<Rightarrow> string" where
  "toISOString t = (let days = t div 86400000; ms = t mod 86400000;
      (y, m, d) = civil_of_days days
    in year_text y @ ''-'' @ digits2 m @ ''-'' @ digits2 d @ ''T'' @
       digits2 (ms div 3600000) @ '':'' @ digits2 (ms div 60000 mod 60) @ '':'' @
       digits2 (ms div 1000 mod 60) @ ''.'' @ pad_left 3 (dec_digits (ms mod 1000)) @ ''Z'')"

section \<open>Differences of instants in seconds\<close>

text \<open>\<open>(a.getTime() - b.getTime()) / 1000\<close>.\<close>

definition seconds_between :: "instant \<Rightarrow> instant \<Rightarrow> jsnum" where
  "seconds_between a b = js_div (js_sub (js_of_int a) (js_of_int b)) (js_of_int 1000)"

lemma round_binary64_small_int:
  assumes "\<bar>n\<bar> \<le> 2 ^ 53"
  shows "round_binary64 (of_int n) = of_int n"
proof (cases "n = 0")
  case False
  define x where "x = (of_int \<bar>n\<bar> :: rat)"
  have x: "0 < x" using False by (simp add: x_def)
  show ?thesis
  proof (cases "\<bar>n\<bar> = 2 ^ 53")
    case True
    then have "x = 2 powi 53" by (simp add: x_def)
    then have "ilog2 x = 53" by (intro ilog2_unique) (auto simp: power_int_add)
    then have "ulp_exponent (of_int n) = 1" by (simp add: ulp_exponent_def x_def)
    moreover obtain m where m: "n = m * 2"
    proof -
      have "n = 2 ^ 53 \<or> n = - (2 ^ 53)" using True by auto
      then show ?thesis using that[of "2 ^ 52"] that[of "- (2 ^ 52)"] by auto
    qed
    ultimately show ?thesis by (intro round_binary64_grid[where m = m]) simp
  next
    case ne: False
    then have "\<bar>n\<bar> < 2 ^ 53" using assms by simp
    then have "x < of_int (2 ^ 53)" unfolding x_def by (simp only: of_int_less_iff)
    then have "x < 2 powi (52 + 1)" by simp
    then have "ilog2 x \<le> 52" using ilog2_le[OF x, of 52] by simp
    then have "ulp_exponent (of_int n) \<le> 0" by (simp add: ulp_exponent_def x_def)
    then show ?thesis by (intro grid_coarser[where m = n and q = 0]) simp_all
  qed
qed simp

lemma js_of_int_small: "\<bar>n\<bar> \<le> 2 ^ 53 \<Longrightarrow> js_of_int n = Fin (of_int n)"
proof -
  assume n: "\<bar>n\<bar> \<le> 2 ^ 53"
  then have "(of_int \<bar>n\<bar> :: rat) \<le> of_int (2 ^ 53)" by (simp only: of_int_le_iff)
  then have "\<bar>of_int n :: rat\<bar> \<le> 10 ^ 30" by simp
  then show ?thesis by (simp add: js_of_int_def rnd_Fin round_binary64_small_int[OF n])
qed

text \<open>
  The comparison of a skew with a whole number of seconds is exact: rounding the
  quotient never moves it across an integer, for any instant within 30,000 years.
\<close>

lemma rounded_seconds:
  assumes "\<bar>d\<bar> \<le> 10 ^ 15"
  shows "of_int s < round_binary64 (of_int d / 1000) \<longleftrightarrow> s * 1000 < d"
    and "round_binary64 (of_int d / 1000) < of_int s \<longleftrightarrow> d < s * 1000"
proof -
  define x where "x = (of_int d / 1000 :: rat)"
  have "(of_int \<bar>d\<bar> :: rat) \<le> of_int (10 ^ 15)" using assms by (simp only: of_int_le_iff)
  then have "\<bar>x\<bar> \<le> 10 ^ 12" by (simp add: x_def)
  then have "\<bar>round_binary64 x - x\<bar> \<le> (10 ^ 12 + 1) / 2 ^ 53" by (intro round_binary64_near) auto
  moreover have "(10 ^ 12 + 1) / 2 ^ 53 < (1 / 2000 :: rat)" by simp
  ultimately have near: "\<bar>round_binary64 x - x\<bar> < 1 / 2000" by linarith
  have exact: "round_binary64 x = of_int s" if "d = s * 1000"
  proof -
    have "x = of_int s" using that by (simp add: x_def)
    moreover have "\<bar>s\<bar> \<le> 2 ^ 53" using that assms by simp
    ultimately show ?thesis by (simp add: round_binary64_small_int)
  qed
  have above: "of_int s < round_binary64 x" if "s * 1000 < d"
  proof -
    have "s * 1000 + 1 \<le> d" using that by simp
    then have "(of_int (s * 1000 + 1) :: rat) \<le> of_int d" by (simp only: of_int_le_iff)
    then have "of_int s + 1 / 1000 \<le> x" by (simp add: x_def)
    then show ?thesis using near by linarith
  qed
  have below: "round_binary64 x < of_int s" if "d < s * 1000"
  proof -
    have "d \<le> s * 1000 - 1" using that by simp
    then have "(of_int d :: rat) \<le> of_int (s * 1000 - 1)" by (simp only: of_int_le_iff)
    then have "x \<le> of_int s - 1 / 1000" by (simp add: x_def)
    then show ?thesis using near by linarith
  qed
  show "of_int s < round_binary64 (of_int d / 1000) \<longleftrightarrow> s * 1000 < d"
    using above below exact by (fold x_def) (metis less_asym less_irrefl linorder_less_linear)
  show "round_binary64 (of_int d / 1000) < of_int s \<longleftrightarrow> d < s * 1000"
    using above below exact by (fold x_def) (metis less_asym less_irrefl linorder_less_linear)
qed

lemma js_sub_small:
  assumes "\<bar>a\<bar> \<le> 10 ^ 15" and "\<bar>b\<bar> \<le> 10 ^ 15"
  shows "js_sub (js_of_int a) (js_of_int b) = Fin (of_int (a - b))"
proof -
  have bounds: "\<bar>a\<bar> \<le> 2 ^ 53" "\<bar>b\<bar> \<le> 2 ^ 53" "\<bar>a - b\<bar> \<le> 2 ^ 53" using assms by auto
  have "(of_int \<bar>a - b\<bar> :: rat) \<le> of_int (2 ^ 53)" using bounds(3) by (simp only: of_int_le_iff)
  then have "\<bar>of_int (a - b) :: rat\<bar> \<le> 10 ^ 30" by simp
  then have "rnd False (of_int (a - b)) = Fin (of_int (a - b))"
    using rnd_Fin round_binary64_small_int[OF bounds(3)] by simp
  then show ?thesis
    using bounds by (auto simp: js_sub_def js_of_int_small js_neg_def js_add_def)
qed

lemma seconds_between_eq:
  assumes "\<bar>a\<bar> \<le> 10 ^ 15" and "\<bar>b\<bar> \<le> 10 ^ 15"
  shows "seconds_between a b = (if a < b then rnd True (of_int (a - b) / 1000) else rnd False (of_int (a - b) / 1000))"
proof -
  have t: "js_of_int 1000 = Fin 1000" using js_of_int_small[of 1000] by simp
  have "(of_int (a - b) < (0 :: rat)) = (a < b)" by simp
  then show ?thesis
    by (simp only: seconds_between_def js_sub_small[OF assms] t js_div_def Let_def is_nan.simps is_finite.simps
        rval.simps sign_neg.simps) simp
qed

lemma rnd_lt_int:
  assumes "\<bar>x\<bar> \<le> 10 ^ 30"
  shows "js_lt (Fin (of_int s)) (rnd neg x) \<longleftrightarrow> of_int s < round_binary64 x"
    and "js_lt (rnd neg x) (Fin (of_int s)) \<longleftrightarrow> round_binary64 x < of_int s"
proof -
  have f: "rnd False x = Fin (round_binary64 x)" by (rule rnd_Fin[OF assms])
  have "rnd neg x = (if round_binary64 x = 0 \<and> neg then NegZero else Fin (round_binary64 x))"
    using f by (auto simp: rnd_def Let_def split: if_splits simp del: power_numeral)
  then show "js_lt (Fin (of_int s)) (rnd neg x) \<longleftrightarrow> of_int s < round_binary64 x"
    and "js_lt (rnd neg x) (Fin (of_int s)) \<longleftrightarrow> round_binary64 x < of_int s"
    by auto
qed

lemma skew_exceeds:
  assumes "\<bar>a\<bar> \<le> 10 ^ 14" and "\<bar>b\<bar> \<le> 10 ^ 14" and "\<bar>s\<bar> \<le> 2 ^ 53"
  shows "js_gt (seconds_between a b) (js_of_int s) \<longleftrightarrow> b + s * 1000 < a"
    and "js_lt (seconds_between a b) (js_of_int s) \<longleftrightarrow> a < b + s * 1000"
proof -
  have d: "\<bar>a - b\<bar> \<le> 10 ^ 15" and ab: "\<bar>a\<bar> \<le> 10 ^ 15" "\<bar>b\<bar> \<le> 10 ^ 15" using assms by auto
  have "(of_int \<bar>a - b\<bar> :: rat) \<le> of_int (10 ^ 15)" using d by (simp only: of_int_le_iff)
  then have x: "\<bar>of_int (a - b) / 1000 :: rat\<bar> \<le> 10 ^ 30" by simp
  have s: "js_of_int s = Fin (of_int s)" using assms(3) by (rule js_of_int_small)
  show "js_gt (seconds_between a b) (js_of_int s) \<longleftrightarrow> b + s * 1000 < a"
    using rounded_seconds(1)[OF d, of s] unfolding s js_gt_def seconds_between_eq[OF ab]
    by (auto simp only: rnd_lt_int[OF x] split: if_splits)
  show "js_lt (seconds_between a b) (js_of_int s) \<longleftrightarrow> a < b + s * 1000"
    using rounded_seconds(2)[OF d, of s] unfolding s seconds_between_eq[OF ab]
    by (auto simp only: rnd_lt_int[OF x] split: if_splits)
qed

end
