(* ===== verification/Domain.thy ===== *)
theory Domain
  imports Canonical JsDate
begin

text \<open>
  The entities of \<open>apps/backend/src/database/entities.ts\<close> with the types of
  \<open>packages/shared/src/types.ts\<close>, and the state of the backend: one table per
  entity.  A nullable column is an option, a timestamp an instant, a weight the
  JavaScript number that the numeric transformer reads back.  The columns that
  the database fills and no code reads (\<open>createdAt\<close> of rows other than batches,
  \<open>updatedAt\<close>) are left out.
\<close>

section \<open>Enumerations\<close>

datatype BatchStatus = "open" | sealed | processed | sold

datatype KycLevel = kyc_none | basic | verified

datatype StellarNetwork = testnet | public

datatype IntegrityCheck =
  signature_valid | device_enrolled | weight_in_range | not_duplicate | clock_plausible | photo_present

datatype IntegrityOutcome = pass | warn | fail

datatype AnchorAttemptOutcome = failed | unverified | succeeded

datatype Role = admin | operator | auditor

text \<open>The life of a batch is a line, and verdicts are ordered by gravity.\<close>

fun status_rank :: "BatchStatus \<Rightarrow> nat" where
  "status_rank open = 0"
| "status_rank sealed = 1"
| "status_rank processed = 2"
| "status_rank sold = 3"

lemma status_rank_inj [simp]: "status_rank a = status_rank b \<longleftrightarrow> a = b"
  by (cases a; cases b) auto

instantiation BatchStatus :: linorder
begin

definition less_eq_BatchStatus :: "BatchStatus \<Rightarrow> BatchStatus \<Rightarrow> bool" where
  "less_eq_BatchStatus a b = (status_rank a \<le> status_rank b)"

definition less_BatchStatus :: "BatchStatus \<Rightarrow> BatchStatus \<Rightarrow> bool" where
  "less_BatchStatus a b = (status_rank a < status_rank b)"

instance
  by standard (auto simp: less_eq_BatchStatus_def less_BatchStatus_def)

end

fun outcome_rank :: "IntegrityOutcome \<Rightarrow> nat" where
  "outcome_rank pass = 0"
| "outcome_rank warn = 1"
| "outcome_rank fail = 2"

lemma outcome_rank_inj [simp]: "outcome_rank a = outcome_rank b \<longleftrightarrow> a = b"
  by (cases a; cases b) auto

instantiation IntegrityOutcome :: linorder
begin

definition less_eq_IntegrityOutcome :: "IntegrityOutcome \<Rightarrow> IntegrityOutcome \<Rightarrow> bool" where
  "less_eq_IntegrityOutcome a b = (outcome_rank a \<le> outcome_rank b)"

definition less_IntegrityOutcome :: "IntegrityOutcome \<Rightarrow> IntegrityOutcome \<Rightarrow> bool" where
  "less_IntegrityOutcome a b = (outcome_rank a < outcome_rank b)"

instance
  by standard (auto simp: less_eq_IntegrityOutcome_def less_IntegrityOutcome_def)

end

lemma open_least: "open \<le> (s :: BatchStatus)"
  by (simp add: less_eq_BatchStatus_def)

lemma pass_least: "pass \<le> (r :: IntegrityOutcome)" and fail_greatest: "r \<le> (fail :: IntegrityOutcome)"
  by (cases r; simp add: less_eq_IntegrityOutcome_def)+

definition INTEGRITY_CHECKS :: "IntegrityCheck list" where
  "INTEGRITY_CHECKS = [signature_valid, device_enrolled, weight_in_range, not_duplicate, clock_plausible, photo_present]"

definition BATCH_STATUSES :: "BatchStatus list" where
  "BATCH_STATUSES = [open, sealed, processed, sold]"

fun check_name :: "IntegrityCheck \<Rightarrow> string" where
  "check_name signature_valid = ''signature_valid''"
| "check_name device_enrolled = ''device_enrolled''"
| "check_name weight_in_range = ''weight_in_range''"
| "check_name not_duplicate = ''not_duplicate''"
| "check_name clock_plausible = ''clock_plausible''"
| "check_name photo_present = ''photo_present''"

fun status_name :: "BatchStatus \<Rightarrow> string" where
  "status_name open = ''open''"
| "status_name sealed = ''sealed''"
| "status_name processed = ''processed''"
| "status_name sold = ''sold''"

fun outcome_name :: "IntegrityOutcome \<Rightarrow> string" where
  "outcome_name pass = ''pass''"
| "outcome_name warn = ''warn''"
| "outcome_name fail = ''fail''"

record IntegrityFinding =
  f_check :: IntegrityCheck
  f_outcome :: IntegrityOutcome
  f_detail :: "string option"

record IntegrityVerdict =
  v_outcome :: IntegrityOutcome
  v_findings :: "IntegrityFinding list"

section \<open>Entities\<close>

record HubEntity =
  h_id :: string
  h_code :: string
  h_name :: string
  h_minWeightKg :: jsnum
  h_maxWeightKg :: jsnum

record CollectorEntity =
  c_id :: string
  c_name :: string
  c_phone :: string
  c_cooperativeId :: "string option"
  c_kycLevel :: KycLevel
  c_active :: bool
  c_createdAt :: instant

record DeviceEntity =
  d_id :: string
  d_collectorId :: string
  d_label :: string
  d_publicKeyBase64 :: string
  d_enrolledAt :: instant
  d_revokedAt :: "instant option"

record BatchEntity =
  b_id :: string
  b_hubId :: string
  b_material :: string
  b_status :: BatchStatus
  b_totalWeightKg :: jsnum
  b_eventCount :: nat
  b_merkleRoot :: "string option"
  b_sealedAt :: "instant option"
  b_createdAt :: instant

record CollectionEventEntity =
  e_id :: string
  e_collectorId :: string
  e_hubId :: string
  e_deviceId :: string
  e_batchId :: "string option"
  e_weightKg :: jsnum
  e_material :: string
  e_capturedAt :: instant
  e_receivedAt :: instant
  e_photoHash :: string
  e_photoUri :: "string option"
  e_nonce :: string
  e_signature :: string
  e_payloadHash :: string
  e_integrity :: IntegrityVerdict
  e_quarantined :: bool

record CustodyTransferEntity =
  ct_id :: string
  ct_batchId :: string
  ct_fromParty :: string
  ct_toParty :: string
  ct_weightInKg :: jsnum
  ct_weightOutKg :: jsnum
  ct_varianceKg :: jsnum
  ct_reason :: "string option"
  ct_transferredAt :: instant

record AnchorRecordEntity =
  a_id :: string
  a_batchId :: string
  a_merkleRoot :: string
  a_stellarTxHash :: string
  a_stellarLedger :: int
  a_network :: StellarNetwork
  a_dataEntryKey :: string
  a_anchoredAt :: instant

record AnchorAttemptEntity =
  at_id :: string
  at_batchId :: string
  at_attemptNumber :: nat
  at_outcome :: AnchorAttemptOutcome
  at_detail :: "string option"
  at_stellarTxHash :: "string option"
  at_occurredAt :: instant

record UserEntity =
  u_id :: string
  u_email :: string
  u_passwordHash :: string
  u_role :: Role
  u_active :: bool
  u_createdAt :: instant

text \<open>The catalogue entry as the API returns it, and the row that stores it.\<close>

record Material =
  m_code :: string
  m_name :: string
  m_description :: "string option"
  m_examples :: "string list"
  m_active :: bool
  m_sortOrder :: int

section \<open>The database\<close>

record db =
  hubs :: "HubEntity list"
  collectors :: "CollectorEntity list"
  devices :: "DeviceEntity list"
  batches :: "BatchEntity list"
  events :: "CollectionEventEntity list"
  transfers :: "CustodyTransferEntity list"
  anchors :: "AnchorRecordEntity list"
  attempts :: "AnchorAttemptEntity list"
  users :: "UserEntity list"
  materials :: "Material list"

definition empty_db :: db where
  "empty_db = \<lparr>hubs = [], collectors = [], devices = [], batches = [], events = [], transfers = [], anchors = [],
     attempts = [], users = [], materials = []\<rparr>"

text \<open>An operation of a service: the state before, and the answer with the state after or an exception.\<close>

type_synonym 'a op = "db \<Rightarrow> ('a \<times> db) result"

definition UNIQUE_VIOLATION :: exception where
  "UNIQUE_VIOLATION = InternalServerErrorException ''23505''"

definition FOREIGN_KEY_VIOLATION :: exception where
  "FOREIGN_KEY_VIOLATION = InternalServerErrorException ''23503''"

definition INVALID_DATE :: exception where
  "INVALID_DATE = InternalServerErrorException ''22007''"

text \<open>Each table is a keyed repository over its primary key.\<close>

interpretation hub_rows: keyed_repository h_id "get_by h_id" insert_row "patch_by h_id" "\<lambda>rows. distinct (map h_id rows)"
  by (rule keyed_rows)

interpretation collector_rows: keyed_repository c_id "get_by c_id" insert_row "patch_by c_id" "\<lambda>rows. distinct (map c_id rows)"
  by (rule keyed_rows)

interpretation device_rows: keyed_repository d_id "get_by d_id" insert_row "patch_by d_id" "\<lambda>rows. distinct (map d_id rows)"
  by (rule keyed_rows)

interpretation batch_rows: keyed_repository b_id "get_by b_id" insert_row "patch_by b_id" "\<lambda>rows. distinct (map b_id rows)"
  by (rule keyed_rows)

interpretation event_rows: keyed_repository e_id "get_by e_id" insert_row "patch_by e_id" "\<lambda>rows. distinct (map e_id rows)"
  by (rule keyed_rows)

interpretation user_rows: keyed_repository u_id "get_by u_id" insert_row "patch_by u_id" "\<lambda>rows. distinct (map u_id rows)"
  by (rule keyed_rows)

interpretation material_rows: keyed_repository m_code "get_by m_code" insert_row "patch_by m_code" "\<lambda>rows. distinct (map m_code rows)"
  by (rule keyed_rows)

text \<open>The order of every read of a batch: capture time, then id.\<close>

definition event_order :: "CollectionEventEntity \<Rightarrow> CollectionEventEntity \<Rightarrow> int" where
  "event_order a b =
    (if e_capturedAt a < e_capturedAt b then -1 else if e_capturedAt a > e_capturedAt b then 1
     else code_unit_compare (e_id a) (e_id b))"

interpretation event_order: consistent_comparator event_order
  by unfold_locales
    (auto simp: event_order_def code_unit_compare_def split: if_splits)

end
