(* ===== verification/Signing.thy ===== *)
theory Signing
  imports Canonical
begin

text \<open>
  \<open>packages/shared/src/signing.ts\<close>: base64 as \<open>Buffer\<close> reads and writes it, and
  the check of a device signature over the canonical payload.  The ed25519
  primitive itself is a parameter \<open>cryptoVerify key message signature\<close>, whose
  result \<open>None\<close> stands for an exception.
\<close>

section \<open>Base64\<close>

definition b64_char :: "nat \<Rightarrow> char" where
  "b64_char n = (if n < 26 then char_of (65 + n) else if n < 52 then char_of (71 + n)
    else if n < 62 then char_of (n - 4) else if n = 62 then CHR ''+'' else CHR ''/'')"

text \<open>Both alphabets are accepted when reading.\<close>

definition b64_value :: "char \<Rightarrow> nat option" where
  "b64_value c = (let n = of_char c :: nat in
     if 65 \<le> n \<and> n \<le> 90 then Some (n - 65)
     else if 97 \<le> n \<and> n \<le> 122 then Some (n - 71)
     else if 48 \<le> n \<and> n \<le> 57 then Some (n + 4)
     else if n = 43 \<or> n = 45 then Some 62
     else if n = 47 \<or> n = 95 then Some 63 else None)"

fun base64_encode :: "bytes \<Rightarrow> string" where
  "base64_encode (a # b # c # rest) =
     b64_char (unat a div 4) # b64_char (unat a mod 4 * 16 + unat b div 16)
       # b64_char (unat b mod 16 * 4 + unat c div 64) # b64_char (unat c mod 64) # base64_encode rest"
| "base64_encode [a, b] =
     [b64_char (unat a div 4), b64_char (unat a mod 4 * 16 + unat b div 16), b64_char (unat b mod 16 * 4), CHR ''='']"
| "base64_encode [a] = [b64_char (unat a div 4), b64_char (unat a mod 4 * 16), CHR ''='', CHR ''='']"
| "base64_encode [] = []"

fun b64_bytes :: "nat list \<Rightarrow> bytes" where
  "b64_bytes (p # q # r # s # rest) =
     of_nat (p * 4 + q div 16) # of_nat (q mod 16 * 16 + r div 4) # of_nat (r mod 4 * 64 + s) # b64_bytes rest"
| "b64_bytes [p, q, r] = [of_nat (p * 4 + q div 16), of_nat (q mod 16 * 16 + r div 4)]"
| "b64_bytes [p, q] = [of_nat (p * 4 + q div 16)]"
| "b64_bytes _ = []"

text \<open>
  \<open>Buffer.from(s, "base64")\<close> stops at padding and skips any other character outside
  the alphabets.
\<close>

definition base64_decode :: "string \<Rightarrow> bytes" where
  "base64_decode s = b64_bytes (List.map_filter b64_value (takeWhile (\<lambda>c. c \<noteq> CHR ''='') s))"

lemma of_char_special: "(of_char (CHR ''+'') :: nat) = 43" "(of_char (CHR ''/'') :: nat) = 47"
  "(of_char (CHR ''='') :: nat) = 61"
  by code_simp+

lemma of_char_b64: "n < 64 \<Longrightarrow> (of_char (b64_char n) :: nat) =
    (if n < 26 then 65 + n else if n < 52 then 71 + n else if n < 62 then n - 4 else if n = 62 then 43 else 47)"
  by (auto simp: b64_char_def of_char_special)

lemma b64_value_char [simp]: "n < 64 \<Longrightarrow> b64_value (b64_char n) = Some n"
  unfolding b64_value_def of_char_b64 Let_def by auto

lemma b64_char_not_pad [simp]: "n < 64 \<Longrightarrow> b64_char n \<noteq> CHR ''=''"
proof
  assume n: "n < 64" and "b64_char n = CHR ''=''"
  then have "(of_char (b64_char n) :: nat) = 61" by (simp add: of_char_special)
  then show False using of_char_b64[OF n] n by (auto split: if_splits)
qed

lemma sextet_bounds: "unat (a :: 8 word) div 4 < 64" "unat (a :: 8 word) mod 4 * 16 + unat (b :: 8 word) div 16 < 64"
  "unat (b :: 8 word) mod 16 * 4 + unat (c :: 8 word) div 64 < 64" "unat (c :: 8 word) mod 64 < 64"
  "unat (a :: 8 word) mod 4 * 16 < 64" "unat (b :: 8 word) mod 16 * 4 < 64"
proof -
  have "unat a < 256" "unat b < 256" "unat c < 256"
    using unsigned_less[of a] unsigned_less[of b] unsigned_less[of c] by simp_all
  moreover have "unat a mod 4 \<le> 3" "unat b mod 16 \<le> 15" by auto
  ultimately show "unat a div 4 < 64" "unat a mod 4 * 16 + unat b div 16 < 64"
    "unat b mod 16 * 4 + unat c div 64 < 64" "unat c mod 64 < 64"
    "unat a mod 4 * 16 < 64" "unat b mod 16 * 4 < 64" by auto
qed

lemma sextets_join:
  "a < 256 \<Longrightarrow> b < 256 \<Longrightarrow> c < 256 \<Longrightarrow>
    a div 4 * 4 + (a mod 4 * 16 + b div 16) div 16 = a
    \<and> (a mod 4 * 16 + b div 16) mod 16 * 16 + (b mod 16 * 4 + c div 64) div 4 = b
    \<and> (b mod 16 * 4 + c div 64) mod 4 * 64 + c mod 64 = (c :: nat)"
  by (auto simp: div_mult_mod_eq less_mult_imp_div_less)

lemma byte_less [simp]: "unat (a :: 8 word) < 256"
  using unsigned_less[of a] by simp

lemma base64_round_trip [simp]: "base64_decode (base64_encode bs) = bs"
proof (induction bs rule: base64_encode.induct)
  case (1 a b c rest)
  then show ?case
    using sextet_bounds sextets_join[of "unat a" "unat b" "unat c"]
    by (simp add: base64_decode_def map_filter_simps)
next
  case (2 a b)
  show ?case
    using sextet_bounds sextets_join[of "unat a" "unat b" 0]
    by (simp add: base64_decode_def map_filter_simps)
next
  case (3 a)
  show ?case
    using sextet_bounds sextets_join[of "unat a" 0 0]
    by (simp add: base64_decode_def map_filter_simps)
next
  case 4
  show ?case by (simp add: base64_decode_def map_filter_simps)
qed

lemma base64_inj: "base64_encode a = base64_encode b \<Longrightarrow> a = b"
  by (metis base64_round_trip)

lemma length_base64_encode: "length (base64_encode bs) = 4 * ((length bs + 2) div 3)"
proof (induction bs rule: base64_encode.induct)
  case (1 a b c rest)
  have "(length (a # b # c # rest) + 2) div 3 = Suc ((length rest + 2) div 3)" by simp
  then show ?case using 1 by simp
qed auto

section \<open>Keys and signatures\<close>

text \<open>The raw key of a stored device key, or the exception of a key that is not 32 bytes.\<close>

definition publicKeyFromBase64 :: "string \<Rightarrow> bytes result" where
  "publicKeyFromBase64 b64 = (let raw = base64_decode b64 in
     if length raw \<noteq> 32 then throw (PlainError ''expected a 32-byte ed25519 public key'')
     else return raw)"

definition publicKeyToBase64 :: "bytes \<Rightarrow> string" where
  "publicKeyToBase64 der = base64_encode (drop (length der - 32) der)"

definition ED25519_SPKI_HEADER :: bytes where
  "ED25519_SPKI_HEADER = hex_decode ''302a300506032b6570032100''"

text \<open>The whole function is inside a \<open>try\<close>: an exception means false.\<close>

definition verifyWeighInSignature ::
  "(bytes \<Rightarrow> bytes \<Rightarrow> bytes \<Rightarrow> bool option) \<Rightarrow> WeighInPayload \<Rightarrow> string \<Rightarrow> string \<Rightarrow> bool" where
  "verifyWeighInSignature cryptoVerify payload signatureBase64 publicKey =
    (if signatureBase64 = '''' then False
     else (let signature = base64_decode signatureBase64 in
       if length signature \<noteq> 64 then False
       else (case publicKeyFromBase64 publicKey of
           Inl _ \<Rightarrow> False
         | Inr key \<Rightarrow> (case canonicalEventPayload payload of
             Inl _ \<Rightarrow> False
           | Inr message \<Rightarrow> (case cryptoVerify key (utf8 message) signature of
               None \<Rightarrow> False
             | Some ok \<Rightarrow> ok)))))"

definition signWeighIn :: "(bytes \<Rightarrow> bytes) \<Rightarrow> WeighInPayload \<Rightarrow> string result" where
  "signWeighIn cryptoSign payload =
    map_sum id (\<lambda>message. base64_encode (cryptoSign (utf8 message))) (canonicalEventPayload payload)"

definition generateNonce :: "bytes \<Rightarrow> string" where
  "generateNonce randomBytes = hex_encode randomBytes"

text \<open>The SPKI wrapping and unwrapping of a raw key are inverse.\<close>

lemma publicKey_round_trip:
  assumes "length raw = 32"
  shows "publicKeyFromBase64 (publicKeyToBase64 (ED25519_SPKI_HEADER @ raw)) = Inr raw"
proof -
  have "drop (length (ED25519_SPKI_HEADER @ raw) - 32) (ED25519_SPKI_HEADER @ raw) = raw"
    using assms by simp
  then show ?thesis using assms by (simp add: publicKeyFromBase64_def publicKeyToBase64_def)
qed

text \<open>A signature that verifies is 64 bytes over the canonical bytes, under a 32-byte key.\<close>

lemma verify_signature_iff:
  "verifyWeighInSignature cv p sig pk \<longleftrightarrow>
    length (base64_decode sig) = 64 \<and> length (base64_decode pk) = 32
    \<and> (\<exists>m. canonicalEventPayload p = Inr m \<and> cv (base64_decode pk) (utf8 m) (base64_decode sig) = Some True)"
  by (auto simp: verifyWeighInSignature_def publicKeyFromBase64_def base64_decode_def Let_def map_filter_simps
      split: sum.splits option.splits if_splits)

end
