(* ===== verification/Integrity.thy ===== *)
theory Integrity
  imports Domain Signing
begin

text \<open>
  \<open>apps/backend/src/events/integrity.ts\<close>: the six checks a weigh-in goes through
  at ingest and the verdict they give.  The signature primitive and the reading
  of a date are parameters.  The lemmas say which conditions each check fails on
  and that the verdict is the gravest finding.
\<close>

section \<open>Context\<close>

record DeviceContext =
  dc_id :: string
  dc_collectorId :: string
  dc_publicKeyBase64 :: string
  dc_revokedAt :: "instant option"

record IntegrityContext =
  x_device :: "DeviceContext option"
  x_collector :: "(string \<times> bool) option"
  x_hub :: "(string \<times> jsnum \<times> jsnum) option"
  x_isDuplicate :: bool
  x_now :: instant
  x_maxClockSkewSeconds :: jsnum

section \<open>Checks\<close>

definition finding :: "IntegrityCheck \<Rightarrow> IntegrityOutcome \<Rightarrow> string option \<Rightarrow> IntegrityFinding" where
  "finding c r d = \<lparr>f_check = c, f_outcome = r, f_detail = d\<rparr>"

definition checkDeviceEnrolled :: "WeighInPayload \<Rightarrow> IntegrityContext \<Rightarrow> IntegrityFinding" where
  "checkDeviceEnrolled payload ctx = (case x_device ctx of
      None \<Rightarrow> finding device_enrolled fail (Some ''device not enrolled'')
    | Some device \<Rightarrow> (case dc_revokedAt device of
        Some t \<Rightarrow> finding device_enrolled fail (Some (''device revoked at '' @ toISOString t))
      | None \<Rightarrow>
          if dc_collectorId device \<noteq> p_collectorId payload
          then finding device_enrolled fail (Some ''device is enrolled to a different collector'')
          else (case x_collector ctx of
              None \<Rightarrow> finding device_enrolled fail (Some ''collector is inactive'')
            | Some (_, active) \<Rightarrow>
                if \<not> active then finding device_enrolled fail (Some ''collector is inactive'')
                else finding device_enrolled pass None)))"

definition checkSignature ::
  "(bytes \<Rightarrow> bytes \<Rightarrow> bytes \<Rightarrow> bool option) \<Rightarrow> WeighInPayload \<Rightarrow> string \<Rightarrow> IntegrityContext \<Rightarrow> IntegrityFinding" where
  "checkSignature cryptoVerify payload signature ctx = (case x_device ctx of
      None \<Rightarrow> finding signature_valid fail (Some ''no key to verify against'')
    | Some device \<Rightarrow>
        if verifyWeighInSignature cryptoVerify payload signature (dc_publicKeyBase64 device)
        then finding signature_valid pass None
        else finding signature_valid fail (Some ''signature does not match the enrolled device key''))"

definition checkWeightRange :: "WeighInPayload \<Rightarrow> IntegrityContext \<Rightarrow> IntegrityFinding" where
  "checkWeightRange payload ctx = (let w = p_weightKg payload in
     if \<not> is_finite w \<or> js_le w (Fin 0) then finding weight_in_range fail (Some ''weight must be positive'')
     else (case x_hub ctx of
         None \<Rightarrow> finding weight_in_range fail (Some ''unknown hub'')
       | Some (_, minWeightKg, maxWeightKg) \<Rightarrow>
           if js_lt w minWeightKg then finding weight_in_range fail
             (Some (num_to_string w @ '' kg below hub minimum '' @ num_to_string minWeightKg @ '' kg''))
           else if js_gt w maxWeightKg then finding weight_in_range fail
             (Some (num_to_string w @ '' kg above hub maximum '' @ num_to_string maxWeightKg @ '' kg''))
           else finding weight_in_range pass None))"

definition checkDuplicate :: "IntegrityContext \<Rightarrow> IntegrityFinding" where
  "checkDuplicate ctx = (if x_isDuplicate ctx
     then finding not_duplicate fail (Some ''an identical signed weigh-in has already been ingested'')
     else finding not_duplicate pass None)"

definition checkClock :: "(string \<Rightarrow> instant option) \<Rightarrow> WeighInPayload \<Rightarrow> IntegrityContext \<Rightarrow> IntegrityFinding" where
  "checkClock parse_date payload ctx = (case parse_date (p_capturedAt payload) of
      None \<Rightarrow> finding clock_plausible fail (Some ''capturedAt is not a valid time'')
    | Some captured \<Rightarrow> (let skewSeconds = seconds_between captured (x_now ctx) in
        if js_gt skewSeconds (x_maxClockSkewSeconds ctx)
        then finding clock_plausible fail
          (Some (''captured '' @ num_to_string (js_round skewSeconds) @ '' s in the future''))
        else if js_gt (js_neg skewSeconds) (x_maxClockSkewSeconds ctx)
        then finding clock_plausible warn
          (Some (''captured '' @ num_to_string (js_round (js_neg skewSeconds)) @ '' s before receipt (offline sync?)''))
        else finding clock_plausible pass None))"

definition checkPhoto :: "WeighInPayload \<Rightarrow> IntegrityFinding" where
  "checkPhoto payload =
    (if \<not> is_hash64 (p_photoHash payload)
     then finding photo_present fail (Some ''photoHash is not a sha256 digest'')
     else finding photo_present pass None)"

definition evaluateIntegrity ::
  "(bytes \<Rightarrow> bytes \<Rightarrow> bytes \<Rightarrow> bool option) \<Rightarrow> (string \<Rightarrow> instant option)
    \<Rightarrow> WeighInPayload \<Rightarrow> string \<Rightarrow> IntegrityContext \<Rightarrow> IntegrityVerdict" where
  "evaluateIntegrity cryptoVerify parse_date payload signature ctx =
    (let findings = [checkDeviceEnrolled payload ctx, checkSignature cryptoVerify payload signature ctx,
           checkWeightRange payload ctx, checkDuplicate ctx, checkClock parse_date payload ctx, checkPhoto payload];
         outcome = (if list_ex (\<lambda>f. f_outcome f = fail) findings then fail
           else if list_ex (\<lambda>f. f_outcome f = warn) findings then warn else pass)
     in \<lparr>v_outcome = outcome, v_findings = findings\<rparr>)"

section \<open>What each check fails on\<close>

lemma finding_simps [simp]: "f_outcome (finding c r d) = r" "f_check (finding c r d) = c" "f_detail (finding c r d) = d"
  by (simp_all add: finding_def)

definition device_ok :: "WeighInPayload \<Rightarrow> IntegrityContext \<Rightarrow> bool" where
  "device_ok p ctx = (\<exists>d c. x_device ctx = Some d \<and> dc_revokedAt d = None
     \<and> dc_collectorId d = p_collectorId p \<and> x_collector ctx = Some (c, True))"

definition weight_ok :: "WeighInPayload \<Rightarrow> IntegrityContext \<Rightarrow> bool" where
  "weight_ok p ctx = (is_finite (p_weightKg p) \<and> js_gt (p_weightKg p) (Fin 0)
     \<and> (\<exists>h lo hi. x_hub ctx = Some (h, lo, hi) \<and> \<not> js_lt (p_weightKg p) lo \<and> \<not> js_gt (p_weightKg p) hi))"

lemma checkDeviceEnrolled_outcome:
  "f_outcome (checkDeviceEnrolled p ctx) = (if device_ok p ctx then pass else fail)"
  by (auto simp: checkDeviceEnrolled_def device_ok_def split: option.splits prod.splits)

lemma checkSignature_outcome:
  "f_outcome (checkSignature cv p sig ctx) =
    (if \<exists>d. x_device ctx = Some d \<and> verifyWeighInSignature cv p sig (dc_publicKeyBase64 d) then pass else fail)"
  by (auto simp: checkSignature_def split: option.splits)

lemma js_le_zero: "is_finite w \<Longrightarrow> \<not> js_le w (Fin 0) \<longleftrightarrow> js_gt w (Fin 0)"
  by (cases w) (auto simp: js_le_def js_gt_def)

lemma checkWeightRange_outcome: "f_outcome (checkWeightRange p ctx) = (if weight_ok p ctx then pass else fail)"
  using js_le_zero[of "p_weightKg p"]
  by (auto simp: checkWeightRange_def weight_ok_def Let_def split: option.splits prod.splits)

lemma checkDuplicate_outcome: "f_outcome (checkDuplicate ctx) = (if x_isDuplicate ctx then fail else pass)"
  by (simp add: checkDuplicate_def)

lemma checkPhoto_outcome: "f_outcome (checkPhoto p) = (if is_hash64 (p_photoHash p) then pass else fail)"
  by (simp add: checkPhoto_def)

text \<open>The clock of a payload read at an instant, with a whole number of seconds of tolerance.\<close>

definition clock_class :: "instant option \<Rightarrow> instant \<Rightarrow> int \<Rightarrow> IntegrityOutcome" where
  "clock_class captured now skew = (case captured of
      None \<Rightarrow> fail
    | Some t \<Rightarrow> if t > now + skew * 1000 then fail else if t < now - skew * 1000 then warn else pass)"

lemma js_gt_neg:
  "js_gt (js_neg x) (Fin (of_int s)) \<longleftrightarrow> js_lt x (Fin (of_int (- s)))"
  by (cases x) (auto simp: js_gt_def js_neg_def)

lemma checkClock_outcome:
  assumes "\<And>t. parse_date (p_capturedAt p) = Some t \<Longrightarrow> \<bar>t\<bar> \<le> 10 ^ 14" and "\<bar>x_now ctx\<bar> \<le> 10 ^ 14"
    and "x_maxClockSkewSeconds ctx = js_of_int skew" and "\<bar>skew\<bar> \<le> 2 ^ 53"
  shows "f_outcome (checkClock parse_date p ctx) = clock_class (parse_date (p_capturedAt p)) (x_now ctx) skew"
proof (cases "parse_date (p_capturedAt p)")
  case None
  then show ?thesis by (simp add: checkClock_def clock_class_def)
next
  case (Some t)
  have b: "\<bar>t\<bar> \<le> 10 ^ 14" "\<bar>x_now ctx\<bar> \<le> 10 ^ 14" using assms(1,2) Some by auto
  have s: "js_of_int skew = Fin (of_int skew)" "js_of_int (- skew) = Fin (of_int (- skew))"
    using assms(4) by (intro js_of_int_small; simp)+
  have "js_gt (seconds_between t (x_now ctx)) (js_of_int skew) \<longleftrightarrow> x_now ctx + skew * 1000 < t"
    using skew_exceeds(1)[OF b assms(4)] .
  moreover have "js_gt (js_neg (seconds_between t (x_now ctx))) (js_of_int skew) \<longleftrightarrow> t < x_now ctx - skew * 1000"
    unfolding s(1) js_gt_neg s(2)[symmetric] using skew_exceeds(2)[OF b, of "- skew"] assms(4) by simp
  ultimately show ?thesis
    by (simp add: checkClock_def clock_class_def Some assms(3) Let_def)
qed

section \<open>The verdict is the gravest finding\<close>

lemma outcome_Max:
  assumes "fs \<noteq> []"
  shows "(if list_ex (\<lambda>f. f_outcome f = fail) fs then fail
      else if list_ex (\<lambda>f. f_outcome f = warn) fs then warn else pass) = Max (f_outcome ` set fs)"
proof (rule sym, rule Max_eqI)
  let ?r = "if list_ex (\<lambda>f. f_outcome f = fail) fs then fail
      else if list_ex (\<lambda>f. f_outcome f = warn) fs then warn else pass"
  show "y \<le> ?r" if y: "y \<in> f_outcome ` set fs" for y
  proof -
    obtain f where f: "f \<in> set fs" "y = f_outcome f" using y by auto
    show ?thesis
    proof (cases y)
      case fail
      then have "list_ex (\<lambda>f. f_outcome f = fail) fs" using f by (auto simp: list_ex_iff)
      then show ?thesis by (simp add: fail_greatest)
    next
      case warn
      then have "list_ex (\<lambda>f. f_outcome f = warn) fs" using f by (auto simp: list_ex_iff)
      then show ?thesis using warn by (simp add: less_eq_IntegrityOutcome_def)
    qed (simp add: pass_least)
  qed
  have "f_outcome (hd fs) \<in> {pass, warn, fail}" by (cases "f_outcome (hd fs)") auto
  then show "?r \<in> f_outcome ` set fs"
    using hd_in_set[OF assms] by (auto simp: list_ex_iff image_iff) (metis IntegrityOutcome.exhaust)+
qed simp

lemma verdict_Max:
  "v_outcome (evaluateIntegrity cv pd p sig ctx) = Max (f_outcome ` set (v_findings (evaluateIntegrity cv pd p sig ctx)))"
  unfolding evaluateIntegrity_def Let_def IntegrityVerdict.simps by (rule outcome_Max) simp

lemma findings_checks:
  "map f_check (v_findings (evaluateIntegrity cv pd p sig ctx)) =
    [device_enrolled, signature_valid, weight_in_range, not_duplicate, clock_plausible, photo_present]"
  by (auto simp: evaluateIntegrity_def checkDeviceEnrolled_def checkSignature_def checkWeightRange_def
      checkDuplicate_def checkClock_def checkPhoto_def Let_def split: option.splits prod.splits)

lemma verdict_fail_iff:
  "v_outcome (evaluateIntegrity cv pd p sig ctx) = fail \<longleftrightarrow>
    \<not> device_ok p ctx \<or> \<not> weight_ok p ctx \<or> x_isDuplicate ctx \<or> \<not> is_hash64 (p_photoHash p)
    \<or> (\<forall>d. x_device ctx = Some d \<longrightarrow> \<not> verifyWeighInSignature cv p sig (dc_publicKeyBase64 d))
    \<or> f_outcome (checkClock pd p ctx) = fail"
proof -
  have "v_outcome (evaluateIntegrity cv pd p sig ctx) = fail \<longleftrightarrow>
      f_outcome (checkDeviceEnrolled p ctx) = fail \<or> f_outcome (checkSignature cv p sig ctx) = fail
      \<or> f_outcome (checkWeightRange p ctx) = fail \<or> f_outcome (checkDuplicate ctx) = fail
      \<or> f_outcome (checkClock pd p ctx) = fail \<or> f_outcome (checkPhoto p) = fail"
    by (simp add: evaluateIntegrity_def Let_def)
  then show ?thesis
    by (auto simp: checkDeviceEnrolled_outcome checkSignature_outcome checkWeightRange_outcome
        checkDuplicate_outcome checkPhoto_outcome)
qed

end
