(* ===== verification/Materials.thy ===== *)
theory Materials
  imports Domain
begin

text \<open>
  \<open>packages/shared/src/materials.ts\<close>: material codes, the product examples shown
  with a material, the sorted catalogue and its labels.  \<open>localeCompare\<close> is a
  parameter of the functions that sort.
\<close>

section \<open>Codes\<close>

definition code_char :: "char \<Rightarrow> bool" where
  "code_char c = (is_upper c \<or> is_digit c \<or> c = CHR ''_'' \<or> c = CHR ''-'')"

text \<open>The test \<open>/^[A-Z0-9][A-Z0-9_-]{1,15}$/\<close>.\<close>

definition isMaterialCode :: "string \<Rightarrow> bool" where
  "isMaterialCode value = (case value of
      [] \<Rightarrow> False
    | c # cs \<Rightarrow> (is_upper c \<or> is_digit c) \<and> 1 \<le> length cs \<and> length cs \<le> 15 \<and> list_all code_char cs)"

definition MATERIAL_CODE_MAX_LENGTH :: nat where "MATERIAL_CODE_MAX_LENGTH = 16"
definition MATERIAL_NAME_MAX_LENGTH :: nat where "MATERIAL_NAME_MAX_LENGTH = 120"
definition MATERIAL_DESCRIPTION_MAX_LENGTH :: nat where "MATERIAL_DESCRIPTION_MAX_LENGTH = 300"
definition MATERIAL_EXAMPLE_MAX_LENGTH :: nat where "MATERIAL_EXAMPLE_MAX_LENGTH = 60"
definition MATERIAL_EXAMPLES_MAX :: nat where "MATERIAL_EXAMPLES_MAX = 8"

definition SEED_MATERIALS :: "Material list" where
  "SEED_MATERIALS =
    [\<lparr>m_code = ''PET'', m_name = ''PET'',
      m_description = Some ''Clear drink bottles. Polyethylene terephthalate, resin code 1.'',
      m_examples = [''Water bottles'', ''Soft-drink bottles'', ''Cooking-oil bottles'', ''Clear food punnets''],
      m_active = True, m_sortOrder = 10\<rparr>,
     \<lparr>m_code = ''HDPE'', m_name = ''HDPE'',
      m_description = Some ''Milk jugs, detergent bottles, crates. High-density polyethylene, resin code 2.'',
      m_examples = [''Milk jugs'', ''Detergent bottles'', ''Bleach bottles'', ''Shampoo bottles'', ''Crates''],
      m_active = True, m_sortOrder = 20\<rparr>,
     \<lparr>m_code = ''LDPE'', m_name = ''LDPE'',
      m_description = Some ''Film, carrier bags, squeeze bottles. Low-density polyethylene, resin code 4.'',
      m_examples = [''Carrier bags'', ''Bread bags'', ''Pallet wrap'', ''Squeeze bottles'', ''Sachet film''],
      m_active = True, m_sortOrder = 30\<rparr>,
     \<lparr>m_code = ''PP'', m_name = ''PP'',
      m_description = Some ''Caps, tubs, woven sacks. Polypropylene, resin code 5.'',
      m_examples = [''Bottle caps'', ''Yoghurt tubs'', ''Margarine tubs'', ''Woven sacks'', ''Drinking straws''],
      m_active = True, m_sortOrder = 40\<rparr>,
     \<lparr>m_code = ''PS'', m_name = ''PS'',
      m_description = Some ''Rigid cups, food trays, foam. Polystyrene, resin code 6.'',
      m_examples = [''Foam takeaway packs'', ''Disposable cups'', ''Meat trays'', ''Yoghurt pots'', ''CD cases''],
      m_active = True, m_sortOrder = 50\<rparr>,
     \<lparr>m_code = ''MIXED'', m_name = ''Mixed plastic'',
      m_description = Some ''Unsorted or unidentifiable plastic. Lowest credit value -- sort where possible.'',
      m_examples = [''Multi-layer sachets'', ''Unmarked offcuts'', ''Toys and housewares'', ''Unsorted sweepings''],
      m_active = True, m_sortOrder = 60\<rparr>]"

definition MATERIAL_TYPES :: "string list" where
  "MATERIAL_TYPES = map m_code SEED_MATERIALS"

section \<open>Product examples\<close>

definition clean_example :: "string \<Rightarrow> string" where
  "clean_example entry =
    js_trim (take MATERIAL_EXAMPLE_MAX_LENGTH (js_trim (collapse_spaces False entry)))"

fun normalise_loop :: "string list \<Rightarrow> string list \<Rightarrow> json list \<Rightarrow> string list" where
  "normalise_loop seen out [] = out"
| "normalise_loop seen out (JStr entry # rest) =
    (let cleaned = clean_example entry; key = js_lower cleaned in
     if cleaned = [] then normalise_loop seen out rest
     else if key \<in> set seen then normalise_loop seen out rest
     else (let out' = out @ [cleaned] in
       if length out' = MATERIAL_EXAMPLES_MAX then out' else normalise_loop (key # seen) out' rest))"
| "normalise_loop seen out (_ # rest) = normalise_loop seen out rest"

definition normaliseExamples :: "json \<Rightarrow> string list" where
  "normaliseExamples value = (case value of JArr entries \<Rightarrow> normalise_loop [] [] entries | _ \<Rightarrow> [])"

definition strings_json :: "string list \<Rightarrow> json" where
  "strings_json xs = JArr (map JStr xs)"

definition parseExamples :: "string \<Rightarrow> string list" where
  "parseExamples input = normaliseExamples (strings_json (split_on (\<lambda>c. c = CHR '','' \<or> c = CHR 0x0A) input))"

definition formatExamples :: "string list \<Rightarrow> string" where
  "formatExamples examples = join_with '', '' examples"

definition middot :: string where
  "middot = [CHR '' '', CHR 0xB7, CHR '' '']"

definition examplesLine :: "string list \<Rightarrow> nat \<Rightarrow> string" where
  "examplesLine examples limit = (let shown = take limit examples in
     if shown = [] then ''''
     else (let rest = length examples - length shown in
       if rest > 0 then join_with middot shown @ '' +'' @ int_to_string (int rest) @ '' more''
       else join_with middot shown))"

section \<open>Catalogue\<close>

definition material_compare :: "(string \<Rightarrow> string \<Rightarrow> int) \<Rightarrow> Material \<Rightarrow> Material \<Rightarrow> int" where
  "material_compare localeCompare a b =
    (if m_active a \<noteq> m_active b then (if m_active a then -1 else 1)
     else if m_sortOrder a \<noteq> m_sortOrder b then m_sortOrder a - m_sortOrder b
     else localeCompare (m_code a) (m_code b))"

definition sortMaterials :: "(string \<Rightarrow> string \<Rightarrow> int) \<Rightarrow> Material list \<Rightarrow> Material list" where
  "sortMaterials localeCompare ms = js_sort (material_compare localeCompare) ms"

definition activeMaterials :: "(string \<Rightarrow> string \<Rightarrow> int) \<Rightarrow> Material list \<Rightarrow> Material list" where
  "activeMaterials localeCompare ms = sortMaterials localeCompare (filter m_active ms)"

definition materialLabel :: "string \<Rightarrow> Material list \<Rightarrow> string" where
  "materialLabel code catalogue = (case find_one (\<lambda>m. m_code m = code) catalogue of
      None \<Rightarrow> code
    | Some found \<Rightarrow> if m_name found = code then code else code @ middot @ m_name found)"

section \<open>Examples are short, few, distinct and clean\<close>

definition good_example :: "string \<Rightarrow> bool" where
  "good_example s = (s \<noteq> [] \<and> length s \<le> MATERIAL_EXAMPLE_MAX_LENGTH \<and> trimmed s \<and> tidy False s)"

definition good_examples :: "string list \<Rightarrow> bool" where
  "good_examples xs = (length xs \<le> MATERIAL_EXAMPLES_MAX \<and> list_all good_example xs \<and> distinct (map js_lower xs))"

lemma clean_good: "clean_example s \<noteq> [] \<Longrightarrow> good_example (clean_example s)"
proof -
  have "length (clean_example s) \<le> 60"
    using length_js_trim[of "take 60 (js_trim (collapse_spaces False s))"]
    by (simp add: clean_example_def MATERIAL_EXAMPLE_MAX_LENGTH_def)
  moreover have "tidy False (clean_example s)"
    unfolding clean_example_def by (intro tidy_js_trim tidy_take tidy_collapse)
  ultimately show "clean_example s \<noteq> [] \<Longrightarrow> good_example (clean_example s)"
    by (simp add: good_example_def MATERIAL_EXAMPLE_MAX_LENGTH_def clean_example_def)
qed

lemma clean_id: "good_example s \<Longrightarrow> clean_example s = s"
  by (simp add: good_example_def clean_example_def collapse_tidy js_trim_trimmed)

lemma normalise_loop_good:
  assumes "list_all good_example out" and "distinct (map js_lower out)" and "set seen = set (map js_lower out)"
    and "length out < MATERIAL_EXAMPLES_MAX"
  shows "good_examples (normalise_loop seen out es)"
  using assms
proof (induction seen out es rule: normalise_loop.induct)
  case (2 seen out entry rest)
  let ?c = "clean_example entry"
  show ?case
  proof (cases "?c = [] \<or> js_lower ?c \<in> set seen")
    case True
    then show ?thesis using 2 by (auto simp: Let_def)
  next
    case False
    then have g: "list_all good_example (out @ [?c])" "distinct (map js_lower (out @ [?c]))"
      using 2 clean_good[of entry] by auto
    show ?thesis
    proof (cases "length (out @ [?c]) = MATERIAL_EXAMPLES_MAX")
      case True
      then show ?thesis using False g by (simp add: good_examples_def Let_def)
    next
      case n: False
      then have "good_examples (normalise_loop (js_lower ?c # seen) (out @ [?c]) rest)"
        using False g 2 by (intro 2(3)) auto
      then show ?thesis using False n by (simp add: Let_def)
    qed
  qed
qed (auto simp: good_examples_def)

lemma normaliseExamples_good: "good_examples (normaliseExamples v)"
proof -
  have "good_examples (normalise_loop [] [] es)" for es
    by (rule normalise_loop_good) (simp_all add: MATERIAL_EXAMPLES_MAX_def)
  moreover have "good_examples []" by (simp add: good_examples_def)
  ultimately show ?thesis by (cases v) (simp_all add: normaliseExamples_def)
qed

lemma normalise_loop_id:
  assumes "list_all good_example xs" and "distinct (map js_lower (out @ xs))" and "set seen = set (map js_lower out)"
    and "length (out @ xs) \<le> MATERIAL_EXAMPLES_MAX"
  shows "normalise_loop seen out (map JStr xs) = out @ xs"
  using assms
proof (induction xs arbitrary: seen out)
  case (Cons x xs)
  have c: "clean_example x = x" and ne: "x \<noteq> []" using Cons.prems clean_id by (auto simp: good_example_def)
  have k: "js_lower x \<notin> set seen" using Cons.prems by auto
  show ?case
  proof (cases "length (out @ [x]) = MATERIAL_EXAMPLES_MAX")
    case True
    then have "xs = []" using Cons.prems(4) by (cases xs) auto
    then show ?thesis using True c ne k by (simp add: Let_def)
  next
    case False
    have "normalise_loop (js_lower x # seen) (out @ [x]) (map JStr xs) = (out @ [x]) @ xs"
      using Cons.prems by (intro Cons.IH) auto
    then show ?thesis using False c ne k by (simp add: Let_def)
  qed
qed simp

lemma normalise_good_id: "good_examples xs \<Longrightarrow> normaliseExamples (strings_json xs) = xs"
  using normalise_loop_id[of xs "[]" "[]"] by (simp add: normaliseExamples_def strings_json_def good_examples_def)

text \<open>Formatting and parsing agree on examples that hold no separator.\<close>

lemma clean_leading_blank: "good_example s \<Longrightarrow> clean_example (CHR '' '' # s) = s"
proof -
  assume g: "good_example s"
  then obtain c cs where s: "s = c # cs" by (cases s) (auto simp: good_example_def)
  have c: "\<not> is_space c" using g s by (simp add: good_example_def trimmed_def)
  have "collapse_spaces False (CHR '' '' # s) = CHR '' '' # s"
    using g s c by (simp add: good_example_def collapse_tidy)
  moreover have "js_trim (CHR '' '' # s) = js_trim s" by (simp add: js_trim_def trim_start_def)
  ultimately show ?thesis using g by (simp add: clean_example_def good_example_def js_trim_trimmed)
qed

lemma split_format:
  assumes "xs \<noteq> []" and "\<And>w. w \<in> set xs \<Longrightarrow> \<forall>c \<in> set w. \<not> p c" and "p (CHR '','')" and "\<not> p (CHR '' '')"
  shows "split_on p (join_with '', '' xs) = hd xs # map (\<lambda>x. CHR '' '' # x) (tl xs)"
  using assms(1,2)
proof (induction xs)
  case (Cons x xs)
  show ?case
  proof (cases xs)
    case Nil
    then show ?thesis using Cons.prems by (simp add: split_on_plain)
  next
    case (Cons y ys)
    have "split_on p (join_with '', '' xs) = hd xs # map (\<lambda>x. CHR '' '' # x) (tl xs)"
      using Cons.IH Cons.prems Cons by (metis list.distinct(1) list.set_intros(2))
    then have "split_on p (CHR '' '' # join_with '', '' xs) = map (\<lambda>x. CHR '' '' # x) xs"
      using assms(4) Cons by simp
    moreover have "split_on p (x @ CHR '','' # (CHR '' '' # join_with '', '' xs))
        = x # split_on p (CHR '' '' # join_with '', '' xs)"
      using Cons.prems(2)[of x] assms(3) by (intro split_on_append) auto
    ultimately show ?thesis using Cons by simp
  qed
qed simp

lemma normalise_loop_clean:
  "map clean_example xs = map clean_example ys \<Longrightarrow>
    normalise_loop seen out (map JStr xs) = normalise_loop seen out (map JStr ys)"
proof (induction xs arbitrary: ys seen out)
  case (Cons x xs)
  then obtain y ys' where "ys = y # ys'" "clean_example x = clean_example y" "map clean_example xs = map clean_example ys'"
    by (cases ys) auto
  then show ?case using Cons.IH[of ys'] by (simp add: Let_def)
qed auto

lemma parse_format:
  assumes g: "good_examples xs" and sep: "\<forall>w \<in> set xs. CHR '','' \<notin> set w"
  shows "parseExamples (formatExamples xs) = xs"
proof (cases "xs = []")
  case True
  then show ?thesis
    by (simp add: parseExamples_def formatExamples_def strings_json_def normaliseExamples_def
        clean_example_def js_trim_def trim_end_def trim_start_def)
next
  case False
  let ?p = "\<lambda>c. c = CHR '','' \<or> c = CHR 0x0A"
  have nl: "is_space (CHR 0x0A)" by code_simp
  have no_nl: "CHR 0x0A \<notin> set w" if "tidy prev w" for prev w
    using that nl by (induction prev w rule: tidy.induct) (auto split: if_splits)
  have ex: "good_example w" if "w \<in> set xs" for w using g that by (auto simp: good_examples_def list_all_iff)
  have "split_on ?p (join_with '', '' xs) = hd xs # map (\<lambda>x. CHR '' '' # x) (tl xs)"
  proof (rule split_format[OF False])
    show "\<forall>c \<in> set w. \<not> ?p c" if "w \<in> set xs" for w
    proof -
      have "tidy False w" using ex[OF that] by (simp add: good_example_def)
      then show ?thesis using no_nl sep that by blast
    qed
  qed simp_all
  moreover have "map clean_example (hd xs # map (\<lambda>x. CHR '' '' # x) (tl xs)) = map clean_example xs"
    using False ex by (cases xs) (auto simp: clean_leading_blank clean_id)
  ultimately have "parseExamples (formatExamples xs) = normaliseExamples (strings_json xs)"
    using normalise_loop_clean[of "hd xs # map (\<lambda>x. CHR '' '' # x) (tl xs)" xs]
    by (simp add: parseExamples_def formatExamples_def normaliseExamples_def strings_json_def)
  then show ?thesis using normalise_good_id[OF g] by simp
qed

section \<open>The sorted catalogue\<close>

lemma material_compare_consistent:
  assumes "consistent_comparator lc"
  shows "consistent_comparator (material_compare lc)"
proof
  fix x y z
  show "material_compare lc x y > 0 \<Longrightarrow> material_compare lc y x \<le> 0"
    using consistent_comparator.cmp_antisym[OF assms, of "m_code x" "m_code y"]
    by (auto simp: material_compare_def split: if_splits)
  show "material_compare lc x y \<le> 0 \<Longrightarrow> material_compare lc y z \<le> 0 \<Longrightarrow> material_compare lc x z \<le> 0"
    using consistent_comparator.cmp_trans[OF assms, of "m_code x" "m_code y" "m_code z"]
    by (auto simp: material_compare_def split: if_splits)
qed

lemma sortMaterials_set [simp]: "set (sortMaterials lc ms) = set ms"
  by (simp add: sortMaterials_def)

lemma activeMaterials_set [simp]: "set (activeMaterials lc ms) = {m \<in> set ms. m_active m}"
  by (simp add: activeMaterials_def)

lemma seed_codes: "MATERIAL_TYPES = [''PET'', ''HDPE'', ''LDPE'', ''PP'', ''PS'', ''MIXED'']"
  by (simp add: MATERIAL_TYPES_def SEED_MATERIALS_def)

lemma seed_codes_valid: "list_all isMaterialCode MATERIAL_TYPES"
  unfolding seed_codes by code_simp

end
