(* ===== verification/MaterialsService.thy ===== *)
theory MaterialsService
  imports Materials
begin

text \<open>
  \<open>apps/backend/src/materials/materials.service.ts\<close>: the catalogue operations and
  the two gates that ingest and batch creation pass through.  A code is append-only
  (no operation renames one) and a code in use cannot be removed.
\<close>

section \<open>Requests\<close>

record CreateMaterialDto =
  cm_code :: string
  cm_name :: string
  cm_description :: "string option"
  cm_examples :: "string list option"
  cm_active :: "bool option"
  cm_sortOrder :: "int option"

record UpdateMaterialDto =
  um_name :: "string option"
  um_description :: "string option"
  um_examples :: "string list option"
  um_active :: "bool option"
  um_sortOrder :: "int option"

section \<open>Operations\<close>

definition blankToNull :: "string option \<Rightarrow> string option" where
  "blankToNull value = (case value of
      None \<Rightarrow> None
    | Some v \<Rightarrow> (let trimmed = js_trim v in if trimmed = '''' then None else Some trimmed))"

definition toMaterial :: "Material \<Rightarrow> Material" where
  "toMaterial entity = entity\<lparr>m_examples := normaliseExamples (strings_json (m_examples entity))\<rparr>"

definition dto_examples :: "string list option \<Rightarrow> json" where
  "dto_examples value = (case value of None \<Rightarrow> JUndefined | Some xs \<Rightarrow> strings_json xs)"

definition list_materials :: "(string \<Rightarrow> string \<Rightarrow> int) \<Rightarrow> db \<Rightarrow> Material list" where
  "list_materials localeCompare s = sortMaterials localeCompare (map toMaterial (materials s))"

definition create_material :: "CreateMaterialDto \<Rightarrow> Material op" where
  "create_material dto s = (let code = js_upper (js_trim (cm_code dto)) in
     if \<not> isMaterialCode code then throw (BadRequestException
       (''material code must be 2-16 uppercase characters, letters digits _ or -: got \"'' @ code @ ''\"''))
     else (case get_by m_code code (materials s) of
         Some existing \<Rightarrow> throw (ConflictException
           (if m_active existing then ''material '' @ code @ '' already exists''
            else ''material '' @ code @ '' exists but is retired -- reactivate it instead of recreating it''))
       | None \<Rightarrow> (let saved = \<lparr>m_code = code, m_name = js_trim (cm_name dto),
             m_description = blankToNull (cm_description dto),
             m_examples = normaliseExamples (dto_examples (cm_examples dto)),
             m_active = with_default (cm_active dto) True,
             m_sortOrder = with_default (cm_sortOrder dto) 100\<rparr>
           in return (toMaterial saved, s\<lparr>materials := insert_row saved (materials s)\<rparr>))))"

definition require_material :: "string \<Rightarrow> db \<Rightarrow> Material result" where
  "require_material code s = (case get_by m_code (js_upper (js_trim code)) (materials s) of
      None \<Rightarrow> throw (NotFoundException (''material '' @ code @ '' not found''))
    | Some material \<Rightarrow> return material)"

definition patch_material :: "UpdateMaterialDto \<Rightarrow> Material \<Rightarrow> Material" where
  "patch_material dto m = m\<lparr>
     m_name := (case um_name dto of None \<Rightarrow> m_name m | Some n \<Rightarrow> js_trim n),
     m_description := (case um_description dto of None \<Rightarrow> m_description m | Some d \<Rightarrow> blankToNull (Some d)),
     m_examples := (case um_examples dto of None \<Rightarrow> m_examples m
        | Some xs \<Rightarrow> normaliseExamples (strings_json xs)),
     m_active := with_default (um_active dto) (m_active m),
     m_sortOrder := with_default (um_sortOrder dto) (m_sortOrder m)\<rparr>"

definition update_material :: "string \<Rightarrow> UpdateMaterialDto \<Rightarrow> Material op" where
  "update_material code dto s = (case require_material code s of
      Inl e \<Rightarrow> throw e
    | Inr material \<Rightarrow> (let saved = patch_material dto material
        in return (toMaterial saved, s\<lparr>materials := patch_by m_code (m_code material) (\<lambda>_. saved) (materials s)\<rparr>)))"

definition remove_material :: "string \<Rightarrow> string op" where
  "remove_material code s = (case require_material code s of
      Inl e \<Rightarrow> throw e
    | Inr material \<Rightarrow> (let
          eventCount = count_where (\<lambda>e. e_material e = m_code material) (events s);
          batchCount = count_where (\<lambda>b. b_material b = m_code material) (batches s)
        in if eventCount > 0 \<or> batchCount > 0 then throw (ConflictException
            (''material '' @ m_code material @ '' is used by '' @ int_to_string (int eventCount)
              @ '' event(s) and '' @ int_to_string (int batchCount)
              @ '' batch(es) and cannot be deleted -- its code is part of their signed payloads. Retire it instead (PATCH /materials/''
              @ m_code material
              @ '' {\"active\": false}), which hides it from new capture and leaves the record intact.''))
        else return (m_code material,
          s\<lparr>materials := delete_where (\<lambda>m. m_code m = m_code material) (materials s)\<rparr>)))"

definition unknown_material :: "string \<Rightarrow> exception" where
  "unknown_material code = BadRequestException
    (''unknown material \"'' @ code @ ''\" -- not in the catalogue. See GET /materials.'')"

definition assertKnown :: "string \<Rightarrow> db \<Rightarrow> unit result" where
  "assertKnown code s =
    (if exists_where (\<lambda>m. m_code m = code) (materials s) then return () else throw (unknown_material code))"

definition assertOpenable :: "string \<Rightarrow> db \<Rightarrow> unit result" where
  "assertOpenable code s = (case get_by m_code code (materials s) of
      None \<Rightarrow> throw (unknown_material code)
    | Some material \<Rightarrow>
        if \<not> m_active material then throw (BadRequestException (''material '' @ code
          @ '' is retired and cannot be used for a new batch. Reactivate it first if this is intended.''))
        else return ())"

section \<open>The catalogue contract\<close>

text \<open>What ingest and batch creation rely on: a gate that answers for the set of codes of a state.\<close>

locale catalogue_gate =
  fixes codes :: "'s \<Rightarrow> string set"
    and known :: "string \<Rightarrow> 's \<Rightarrow> unit result"
    and openable :: "string \<Rightarrow> 's \<Rightarrow> unit result"
  assumes known_iff: "known c s = Inr () \<longleftrightarrow> c \<in> codes s"
    and openable_known: "openable c s = Inr () \<Longrightarrow> known c s = Inr ()"
begin

lemma openable_code: "openable c s = Inr () \<Longrightarrow> c \<in> codes s"
  using known_iff openable_known by blast

lemma known_mono: "codes s \<subseteq> codes t \<Longrightarrow> known c s = Inr () \<Longrightarrow> known c t = Inr ()"
  using known_iff by blast

end

definition catalogue_codes :: "db \<Rightarrow> string set" where
  "catalogue_codes s = m_code ` set (materials s)"

interpretation catalogue: catalogue_gate catalogue_codes assertKnown assertOpenable
proof
  fix c s
  show "assertKnown c s = Inr () \<longleftrightarrow> c \<in> catalogue_codes s"
    by (auto simp: assertKnown_def catalogue_codes_def exists_where_iff)
  show "assertOpenable c s = Inr () \<Longrightarrow> assertKnown c s = Inr ()"
    by (auto simp: assertKnown_def assertOpenable_def exists_where_iff sum_elims dest!: get_by_SomeD)
qed

lemma assertOpenable_iff:
  "distinct (map m_code (materials s)) \<Longrightarrow>
    assertOpenable c s = Inr () \<longleftrightarrow> (\<exists>m \<in> set (materials s). m_code m = c \<and> m_active m)"
  by (auto simp: assertOpenable_def sum_elims get_by_iff dest: distinct_key_eq)

section \<open>Invariant\<close>

text \<open>
  The catalogue by itself, and what the rest of the state may assume of it: codes
  in use are listed.
\<close>

definition catalogue_ok :: "db \<Rightarrow> bool" where
  "catalogue_ok s = (distinct (map m_code (materials s))
     \<and> list_all (\<lambda>m. isMaterialCode (m_code m) \<and> good_examples (m_examples m)) (materials s))"

definition uses_known :: "db \<Rightarrow> bool" where
  "uses_known s = ((\<forall>e \<in> set (events s). e_material e \<in> catalogue_codes s)
     \<and> (\<forall>b \<in> set (batches s). b_material b \<in> catalogue_codes s))"

definition materials_ok :: "db \<Rightarrow> bool" where
  "materials_ok s = (catalogue_ok s \<and> uses_known s)"

lemma patch_material_code [simp]: "m_code (patch_material dto m) = m_code m"
  by (simp add: patch_material_def)

lemma patch_material_examples: "good_examples (m_examples m) \<Longrightarrow> good_examples (m_examples (patch_material dto m))"
  by (simp add: patch_material_def normaliseExamples_good split: option.splits)

lemma require_material_eq:
  "require_material code s = Inr m \<longleftrightarrow> get_by m_code (js_upper (js_trim code)) (materials s) = Some m"
  by (auto simp: require_material_def split: option.splits)

lemma create_material_eq:
  "create_material dto s = Inr (r, s') \<longleftrightarrow> (\<exists>code saved. code = js_upper (js_trim (cm_code dto)) \<and> isMaterialCode code
    \<and> get_by m_code code (materials s) = None
    \<and> saved = \<lparr>m_code = code, m_name = js_trim (cm_name dto), m_description = blankToNull (cm_description dto),
        m_examples = normaliseExamples (dto_examples (cm_examples dto)),
        m_active = with_default (cm_active dto) True, m_sortOrder = with_default (cm_sortOrder dto) 100\<rparr>
    \<and> r = toMaterial saved \<and> s' = s\<lparr>materials := insert_row saved (materials s)\<rparr>)"
  by (auto simp: create_material_def Let_def split: option.splits)

lemma update_material_eq:
  "update_material code dto s = Inr (r, s') \<longleftrightarrow> (\<exists>m. require_material code s = Inr m
    \<and> r = toMaterial (patch_material dto m)
    \<and> s' = s\<lparr>materials := patch_by m_code (m_code m) (\<lambda>_. patch_material dto m) (materials s)\<rparr>)"
  by (auto simp: update_material_def Let_def split: sum.splits)

lemma remove_material_eq:
  "remove_material code s = Inr (r, s') \<longleftrightarrow> (\<exists>m. require_material code s = Inr m \<and> r = m_code m
    \<and> (\<forall>e \<in> set (events s). e_material e \<noteq> m_code m) \<and> (\<forall>b \<in> set (batches s). b_material b \<noteq> m_code m)
    \<and> s' = s\<lparr>materials := delete_where (\<lambda>x. m_code x = m_code m) (materials s)\<rparr>)"
  by (auto simp: remove_material_def Let_def count_where_0_iff[unfolded neq0_conv[symmetric]] split: sum.splits)

lemma create_material_catalogue:
  assumes "catalogue_ok s" and "create_material dto s = Inr (r, s')"
  shows "catalogue_ok s'"
  using assms
  by (auto simp: catalogue_ok_def create_material_eq normaliseExamples_good get_by_None_iff list_all_iff)

lemma create_material_ok:
  assumes "materials_ok s" and "create_material dto s = Inr (r, s')"
  shows "materials_ok s'"
  using assms create_material_catalogue[OF _ assms(2)]
  by (auto simp: materials_ok_def uses_known_def create_material_eq catalogue_codes_def)

lemma patch_by_const_keys:
  "key r = k \<Longrightarrow> map key (patch_by key k (\<lambda>_. r) rows) = map key rows"
  by (auto simp: patch_by_def update_where_def)

lemma update_material_codes:
  assumes "update_material code dto s = Inr (r, s')"
  shows "map m_code (materials s') = map m_code (materials s)"
  using assms by (auto simp: update_material_eq patch_by_const_keys)

lemma update_material_catalogue:
  assumes "catalogue_ok s" and "update_material code dto s = Inr (r, s')"
  shows "catalogue_ok s'"
proof -
  obtain m where m: "m \<in> set (materials s)"
      and s': "s' = s\<lparr>materials := patch_by m_code (m_code m) (\<lambda>_. patch_material dto m) (materials s)\<rparr>"
    using assms(2) by (auto simp: update_material_eq require_material_eq dest: get_by_SomeD)
  have "isMaterialCode (m_code x) \<and> good_examples (m_examples x)" if "x \<in> set (materials s')" for x
    using that assms(1) m unfolding s' catalogue_ok_def
    by (auto simp: set_patch_by list_all_iff patch_material_examples split: if_splits)
  then show ?thesis
    using assms(1) update_material_codes[OF assms(2)] by (simp add: catalogue_ok_def list_all_iff)
qed

lemma update_material_ok:
  assumes "materials_ok s" and "update_material code dto s = Inr (r, s')"
  shows "materials_ok s'"
proof -
  have "catalogue_codes s' = catalogue_codes s"
    using update_material_codes[OF assms(2)] unfolding catalogue_codes_def by (metis list.set_map)
  moreover have "events s' = events s" "batches s' = batches s" using assms(2) by (auto simp: update_material_eq)
  ultimately show ?thesis
    using assms(1) update_material_catalogue[OF _ assms(2)] by (simp add: materials_ok_def uses_known_def)
qed

lemma remove_material_codes:
  assumes "remove_material code s = Inr (r, s')"
  shows "catalogue_codes s' = catalogue_codes s - {r}"
  using assms by (auto simp: remove_material_eq catalogue_codes_def)

lemma remove_material_catalogue:
  assumes "catalogue_ok s" and "remove_material code s = Inr (r, s')"
  shows "catalogue_ok s'"
  using assms
  by (auto simp: catalogue_ok_def remove_material_eq list_all_iff)
    (simp add: delete_where_def distinct_map_filter)

lemma remove_material_ok:
  assumes "materials_ok s" and "remove_material code s = Inr (r, s')"
  shows "materials_ok s'"
  using assms remove_material_codes[OF assms(2)] remove_material_catalogue[OF _ assms(2)]
  by (auto simp: materials_ok_def uses_known_def remove_material_eq)

text \<open>No operation of the catalogue touches another table.\<close>

lemma frames:
  "create_material dto s = Inr (r, s') \<Longrightarrow> s' = s\<lparr>materials := materials s'\<rparr>"
  "update_material code udto s = Inr (r, s') \<Longrightarrow> s' = s\<lparr>materials := materials s'\<rparr>"
  "remove_material code s = Inr (q, s') \<Longrightarrow> s' = s\<lparr>materials := materials s'\<rparr>"
  by (auto simp: create_material_eq update_material_eq remove_material_eq)

end
