(* ===== verification/Events.thy ===== *)
theory Events
  imports Integrity MaterialsService
begin

text \<open>
  \<open>apps/backend/src/events/events.service.ts\<close>: ingest of a signed weigh-in, in the
  two steps between which another request can run (the reads and the insert), and
  the queries.  An ingest never loses a weigh-in: a failing one is stored in
  quarantine, a replay answers with the original, and a lost race on the unique
  payload hash answers as a replay.
\<close>

section \<open>Ingest\<close>

text \<open>What ingest calls outside the program, and its configured clock tolerance.\<close>

record ingest_env =
  cryptoVerify :: "bytes \<Rightarrow> bytes \<Rightarrow> bytes \<Rightarrow> bool option"
  parseDate :: "string \<Rightarrow> instant option"
  maxClockSkewSeconds :: jsnum

record IngestResult =
  r_eventId :: string
  r_payloadHash :: string
  r_quarantined :: bool
  r_integrity :: IntegrityVerdict
  r_duplicate :: bool

text \<open>The reads of an ingest decide on an answer or on a row to insert.\<close>

datatype ingest_plan = Answer IngestResult | Insert CollectionEventEntity

definition integrity_context ::
  "ingest_env \<Rightarrow> instant \<Rightarrow> WeighInPayload \<Rightarrow> string \<Rightarrow> db \<Rightarrow> IntegrityContext" where
  "integrity_context env now payload payloadHash s =
    \<lparr>x_device = map_option (\<lambda>d. \<lparr>dc_id = d_id d, dc_collectorId = d_collectorId d,
        dc_publicKeyBase64 = d_publicKeyBase64 d, dc_revokedAt = d_revokedAt d\<rparr>)
        (get_by d_id (p_deviceId payload) (devices s)),
     x_collector = map_option (\<lambda>c. (c_id c, c_active c)) (get_by c_id (p_collectorId payload) (collectors s)),
     x_hub = map_option (\<lambda>h. (h_id h, h_minWeightKg h, h_maxWeightKg h)) (get_by h_id (p_hubId payload) (hubs s)),
     x_isDuplicate = exists_where (\<lambda>e. e_payloadHash e = payloadHash) (events s),
     x_now = now,
     x_maxClockSkewSeconds = maxClockSkewSeconds env\<rparr>"

definition ingest_read ::
  "ingest_env \<Rightarrow> instant \<Rightarrow> string \<Rightarrow> WeighInPayload \<Rightarrow> string \<Rightarrow> db \<Rightarrow> ingest_plan result" where
  "ingest_read env now newId payload signature s =
    (if p_schema payload \<noteq> ''proofchain.weighin.v2''
     then throw (BadRequestException (''unsupported payload schema: '' @ p_schema payload))
     else (case assertKnown (p_material payload) s of
         Inl e \<Rightarrow> throw e
       | Inr _ \<Rightarrow> (case eventPayloadHash payload of
           Inl e \<Rightarrow> throw e
         | Inr payloadHash \<Rightarrow> (let
               integrity = evaluateIntegrity (cryptoVerify env) (parseDate env) payload signature
                 (integrity_context env now payload payloadHash s)
             in case get_by e_payloadHash payloadHash (events s) of
                 Some existing \<Rightarrow> return (Answer \<lparr>r_eventId = e_id existing, r_payloadHash = payloadHash,
                    r_quarantined = True, r_integrity = integrity, r_duplicate = True\<rparr>)
               | None \<Rightarrow>
                   if get_by d_id (p_deviceId payload) (devices s) = None
                     \<or> get_by c_id (p_collectorId payload) (collectors s) = None
                     \<or> get_by h_id (p_hubId payload) (hubs s) = None
                   then throw (BadRequestException ''unknown device, collector or hub'')
                   else (case parseDate env (p_capturedAt payload) of
                       None \<Rightarrow> throw INVALID_DATE
                     | Some capturedAt \<Rightarrow> return (Insert
                         \<lparr>e_id = newId, e_collectorId = p_collectorId payload, e_hubId = p_hubId payload,
                          e_deviceId = p_deviceId payload, e_batchId = None, e_weightKg = p_weightKg payload,
                          e_material = p_material payload, e_capturedAt = capturedAt, e_receivedAt = now,
                          e_photoHash = p_photoHash payload, e_photoUri = None, e_nonce = p_nonce payload,
                          e_signature = signature, e_payloadHash = payloadHash, e_integrity = integrity,
                          e_quarantined = (v_outcome integrity = fail)\<rparr>))))))"

text \<open>The insert: the unique index on the payload hash is the authority, not the earlier read.\<close>

definition ingest_save :: "CollectionEventEntity \<Rightarrow> IngestResult op" where
  "ingest_save entity s = (case get_by e_payloadHash (e_payloadHash entity) (events s) of
      Some winner \<Rightarrow> return (\<lparr>r_eventId = e_id winner, r_payloadHash = e_payloadHash entity,
         r_quarantined = True, r_integrity = e_integrity entity, r_duplicate = True\<rparr>, s)
    | None \<Rightarrow> return (\<lparr>r_eventId = e_id entity, r_payloadHash = e_payloadHash entity,
         r_quarantined = e_quarantined entity, r_integrity = e_integrity entity, r_duplicate = False\<rparr>,
         s\<lparr>events := insert_row entity (events s)\<rparr>))"

definition ingest_finish :: "ingest_plan \<Rightarrow> IngestResult op" where
  "ingest_finish plan s = (case plan of Answer r \<Rightarrow> return (r, s) | Insert entity \<Rightarrow> ingest_save entity s)"

definition ingest :: "ingest_env \<Rightarrow> instant \<Rightarrow> string \<Rightarrow> WeighInPayload \<Rightarrow> string \<Rightarrow> IngestResult op" where
  "ingest env now newId payload signature s = (case ingest_read env now newId payload signature s of
      Inl e \<Rightarrow> throw e
    | Inr plan \<Rightarrow> ingest_finish plan s)"

section \<open>Queries\<close>

definition findOne_event :: "string \<Rightarrow> db \<Rightarrow> CollectionEventEntity result" where
  "findOne_event i s = (case get_by e_id i (events s) of
      None \<Rightarrow> throw (NotFoundException (''event '' @ i @ '' not found''))
    | Some event \<Rightarrow> return event)"

record EventFilter =
  q_hubId :: "string option"
  q_collectorId :: "string option"
  q_batched :: "bool option"
  q_quarantined :: "bool option"
  q_hasPhoto :: "bool option"
  q_limit :: "nat option"

definition opt_matches :: "'a option \<Rightarrow> ('a \<Rightarrow> bool) \<Rightarrow> bool" where
  "opt_matches opt p = (case opt of None \<Rightarrow> True | Some x \<Rightarrow> p x)"

text \<open>An empty id is no filter, as in the JavaScript test of a string.\<close>

definition id_matches :: "string option \<Rightarrow> string \<Rightarrow> bool" where
  "id_matches opt i = opt_matches opt (\<lambda>x. x = '''' \<or> i = x)"

definition event_matches :: "EventFilter \<Rightarrow> CollectionEventEntity \<Rightarrow> bool" where
  "event_matches q e =
    (id_matches (q_hubId q) (e_hubId e) \<and> id_matches (q_collectorId q) (e_collectorId e)
     \<and> opt_matches (q_quarantined q) (\<lambda>b. e_quarantined e = b)
     \<and> opt_matches (q_batched q) (\<lambda>b. (e_batchId e \<noteq> None) = b)
     \<and> opt_matches (q_hasPhoto q) (\<lambda>b. (e_photoUri e \<noteq> None) = b))"

definition captured_desc :: "CollectionEventEntity \<Rightarrow> CollectionEventEntity \<Rightarrow> int" where
  "captured_desc a b = e_capturedAt b - e_capturedAt a"

definition list_events :: "EventFilter \<Rightarrow> db \<Rightarrow> CollectionEventEntity list" where
  "list_events q s =
    take (min (with_default (q_limit q) 100) 500) (js_sort captured_desc (find_all (event_matches q) (events s)))"

interpretation captured_desc: consistent_comparator captured_desc
  by unfold_locales (auto simp: captured_desc_def)

section \<open>What an ingest does\<close>

lemma ingest_read_Insert:
  assumes "ingest_read env now i p sig s = Inr (Insert e)"
  shows "p_schema p = ''proofchain.weighin.v2''" and "p_material p \<in> catalogue_codes s"
    and "eventPayloadHash p = Inr (e_payloadHash e)" and "get_by e_payloadHash (e_payloadHash e) (events s) = None"
    and "get_by d_id (p_deviceId p) (devices s) \<noteq> None" and "get_by c_id (p_collectorId p) (collectors s) \<noteq> None"
    and "get_by h_id (p_hubId p) (hubs s) \<noteq> None" and "parseDate env (p_capturedAt p) = Some (e_capturedAt e)"
    and "e = \<lparr>e_id = i, e_collectorId = p_collectorId p, e_hubId = p_hubId p, e_deviceId = p_deviceId p,
        e_batchId = None, e_weightKg = p_weightKg p, e_material = p_material p, e_capturedAt = e_capturedAt e,
        e_receivedAt = now, e_photoHash = p_photoHash p, e_photoUri = None, e_nonce = p_nonce p, e_signature = sig,
        e_payloadHash = e_payloadHash e,
        e_integrity = evaluateIntegrity (cryptoVerify env) (parseDate env) p sig
          (integrity_context env now p (e_payloadHash e) s),
        e_quarantined = (v_outcome (e_integrity e) = fail)\<rparr>"
  using assms catalogue.known_iff[of "p_material p" s]
  by (auto simp: ingest_read_def Let_def split: if_splits sum.splits option.splits)

lemma ingest_read_Answer:
  assumes "ingest_read env now i p sig s = Inr (Answer r)"
  shows "\<exists>e \<in> set (events s). e_payloadHash e = r_payloadHash r \<and> eventPayloadHash p = Inr (r_payloadHash r)
    \<and> r_eventId r = e_id e \<and> r_duplicate r \<and> r_quarantined r"
  using assms
  by (auto simp: ingest_read_def Let_def split: if_splits sum.splits option.splits dest!: get_by_SomeD)

text \<open>An ingest changes the events table alone, and only by one new row at the end.\<close>

lemma ingest_frame:
  assumes "ingest env now i p sig s = Inr (r, s')"
  shows "s' = s \<or> (\<exists>e. ingest_read env now i p sig s = Inr (Insert e)
    \<and> s' = s\<lparr>events := insert_row e (events s)\<rparr>)"
  using assms
  by (auto simp: ingest_def ingest_finish_def ingest_save_def split: sum.splits ingest_plan.splits option.splits)

lemma ingest_new:
  assumes "ingest env now i p sig s = Inr (r, s')" and "\<not> r_duplicate r"
  shows "\<exists>e. ingest_read env now i p sig s = Inr (Insert e) \<and> s' = s\<lparr>events := insert_row e (events s)\<rparr>
    \<and> r_eventId r = i \<and> r_payloadHash r = e_payloadHash e \<and> r_integrity r = e_integrity e
    \<and> r_quarantined r = (v_outcome (e_integrity e) = fail)"
proof -
  obtain plan where plan: "ingest_read env now i p sig s = Inr plan" "ingest_finish plan s = Inr (r, s')"
    using assms(1) by (auto simp: ingest_def split: sum.splits)
  show ?thesis
  proof (cases plan)
    case (Answer a)
    then show ?thesis using plan assms(2) ingest_read_Answer[of env now i p sig s a] by (auto simp: ingest_finish_def)
  next
    case (Insert e)
    then have read: "ingest_read env now i p sig s = Inr (Insert e)" using plan by simp
    have e: "e_id e = i" "e_quarantined e = (v_outcome (e_integrity e) = fail)"
      by (subst ingest_read_Insert(9)[OF read], simp)+
    show ?thesis
      using read plan Insert assms(2) e
      by (auto simp: ingest_finish_def ingest_save_def split: option.splits)
  qed
qed

text \<open>Once stored, a payload is answered by the row that stores it, whatever else happened.\<close>

lemma ingest_replay:
  assumes "e \<in> set (events s)" and "eventPayloadHash p = Inr (e_payloadHash e)"
    and "distinct (map e_payloadHash (events s))"
    and "p_schema p = ''proofchain.weighin.v2''" and "p_material p \<in> catalogue_codes s"
  shows "\<exists>r. ingest env now i p sig s = Inr (r, s) \<and> r_eventId r = e_id e \<and> r_duplicate r
    \<and> v_outcome (r_integrity r) = fail"
proof -
  have g: "get_by e_payloadHash (e_payloadHash e) (events s) = Some e"
    using assms(1,3) by (rule get_by_unique[rotated])
  have dup: "exists_where (\<lambda>x. e_payloadHash x = e_payloadHash e) (events s)"
    using assms(1) by (auto simp: exists_where_iff)
  have "assertKnown (p_material p) s = Inr ()" using assms(5) by (simp add: catalogue.known_iff)
  then show ?thesis
    using assms(2,4) g dup
    by (simp add: ingest_def ingest_read_def ingest_finish_def Let_def verdict_fail_iff integrity_context_def)
qed

section \<open>Invariant\<close>

definition events_ok :: "db \<Rightarrow> bool" where
  "events_ok s = (distinct (map e_id (events s)) \<and> distinct (map e_payloadHash (events s))
     \<and> (\<forall>e \<in> set (events s). is_hash64 (e_payloadHash e)
          \<and> e_quarantined e = (v_outcome (e_integrity e) = fail)
          \<and> e_hubId e \<in> h_id ` set (hubs s) \<and> e_collectorId e \<in> c_id ` set (collectors s)
          \<and> e_deviceId e \<in> d_id ` set (devices s)))"

lemma insert_event_ok:
  assumes "events_ok s" and "ingest_read env now i p sig s = Inr (Insert e)" and "i \<notin> e_id ` set (events s)"
  shows "events_ok (s\<lparr>events := insert_row e (events s)\<rparr>)"
proof -
  note I = ingest_read_Insert[OF assms(2)]
  have row: "e_id e = i" "e_quarantined e = (v_outcome (e_integrity e) = fail)"
    "e_hubId e = p_hubId p" "e_collectorId e = p_collectorId p" "e_deviceId e = p_deviceId p"
    by (subst I(9), simp)+
  have "p_hubId p \<in> h_id ` set (hubs s)" "p_collectorId p \<in> c_id ` set (collectors s)"
    "p_deviceId p \<in> d_id ` set (devices s)"
    using I(5,6,7) by (auto simp: get_by_None_iff)
  then show ?thesis
    using assms(1,3) I(3,4) row by (auto simp: events_ok_def get_by_None_iff eventPayloadHash_hash64)
qed

lemma ingest_events_ok:
  assumes "events_ok s" and "ingest env now i p sig s = Inr (r, s')" and "i \<notin> e_id ` set (events s)"
  shows "events_ok s'"
  using ingest_frame[OF assms(2)] insert_event_ok[OF assms(1) _ assms(3)] assms(1) by blast

section \<open>Races\<close>

text \<open>
  Two submissions of one payload that both read before either inserts: one row is
  stored and the loser is told about the winner's row.
\<close>

lemma ingest_race:
  assumes a: "ingest_read env1 n1 i1 p sig1 s = Inr (Insert e1)"
    and b: "ingest_read env2 n2 i2 p sig2 s = Inr (Insert e2)"
    and fa: "ingest_finish (Insert e1) s = Inr (r1, s1)" and fb: "ingest_finish (Insert e2) s1 = Inr (r2, s2)"
  shows "s2 = s1 \<and> \<not> r_duplicate r1 \<and> r_duplicate r2 \<and> r_eventId r2 = r_eventId r1
    \<and> count_where (\<lambda>e. e_payloadHash e = e_payloadHash e1) (events s2) = 1"
proof -
  have same: "e_payloadHash e2 = e_payloadHash e1"
    using ingest_read_Insert(3)[OF a] ingest_read_Insert(3)[OF b] by simp
  have none: "get_by e_payloadHash (e_payloadHash e1) (events s) = None"
    by (rule ingest_read_Insert(4)[OF a])
  have s1: "s1 = s\<lparr>events := insert_row e1 (events s)\<rparr>" and r1: "r_eventId r1 = e_id e1" "\<not> r_duplicate r1"
    using fa none by (auto simp: ingest_finish_def ingest_save_def)
  have some: "get_by e_payloadHash (e_payloadHash e1) (events s1) = Some e1"
    using none by (simp add: s1 get_by_insert_row)
  have "s2 = s1" "r_duplicate r2" "r_eventId r2 = e_id e1"
    using fb some same by (auto simp: ingest_finish_def ingest_save_def)
  moreover have "filter (\<lambda>e. e_payloadHash e = e_payloadHash e1) (events s) = []"
    using none by (auto simp: get_by_None_iff filter_empty_conv image_iff)
  ultimately show ?thesis using r1 s1 by (simp add: count_where_def)
qed

end
