(* ===== verification/Merkle.thy ===== *)
theory Merkle
  imports Sha256
begin

text \<open>
  \<open>packages/shared/src/merkle.ts\<close>: the leaf and node hashes with their domain
  prefixes, the tree built level by level with the odd node promoted, the proof of
  a leaf and its verification.  The abstract specification is a binary tree whose
  fringe is the list of leaves; the theorems give completeness and soundness of
  proofs, binding of the root to the leaves, and the length of a proof.
\<close>

section \<open>Hashes\<close>

datatype side = left | right

record MerkleProofStep =
  ps_hash :: string
  ps_side :: side

definition hashLeaf :: "string \<Rightarrow> string" where
  "hashLeaf data = sha256Hex (0x00 # utf8 data)"

definition hashInternal :: "string \<Rightarrow> string \<Rightarrow> string" where
  "hashInternal leftHex rightHex = sha256Hex (0x01 # hex_decode leftHex @ hex_decode rightHex)"

lemma hashLeaf_hash64 [simp]: "is_hash64 (hashLeaf d)"
  and hashInternal_hash64 [simp]: "is_hash64 (hashInternal l r)"
  by (simp_all add: hashLeaf_def hashInternal_def)

section \<open>Building the tree\<close>

fun next_level :: "string list \<Rightarrow> string list" where
  "next_level [] = []"
| "next_level [x] = [x]"
| "next_level (x # y # rest) = hashInternal x y # next_level rest"

lemma length_next_level [simp]: "length (next_level xs) = (length xs + 1) div 2"
  by (induction xs rule: next_level.induct) auto

function build_levels :: "string list \<Rightarrow> string list list" where
  "build_levels current = (if length current \<le> 1 then [current] else current # build_levels (next_level current))"
  by pat_completeness auto
termination
  by (relation "measure length") auto

declare build_levels.simps [simp del]

record MerkleTree =
  mt_levels :: "string list list"
  mt_root :: string

definition assertLeaves :: "string list \<Rightarrow> unit result" where
  "assertLeaves leafHexes =
    (if leafHexes = [] then throw (PlainError ''cannot build a Merkle tree with no leaves'')
     else if list_all is_hash64 leafHexes then return ()
     else throw (PlainError ''leaf is not a 32-byte lowercase hex hash''))"

definition buildMerkleTree :: "string list \<Rightarrow> MerkleTree result" where
  "buildMerkleTree leafHexes = (case assertLeaves leafHexes of
      Inl e \<Rightarrow> throw e
    | Inr _ \<Rightarrow> (let levels = build_levels leafHexes
        in return \<lparr>mt_levels = levels, mt_root = hd (last levels)\<rparr>))"

definition merkleRootHex :: "string list \<Rightarrow> string result" where
  "merkleRootHex leafHexes = map_sum id mt_root (buildMerkleTree leafHexes)"

section \<open>Proofs\<close>

fun proof_steps :: "string list list \<Rightarrow> nat \<Rightarrow> MerkleProofStep list" where
  "proof_steps [] idx = []"
| "proof_steps (level # levels) idx =
    (let isRightChild = (idx mod 2 = 1);
         siblingIdx = (if isRightChild then idx - 1 else idx + 1);
         here = (if siblingIdx < length level
                 then [\<lparr>ps_hash = level ! siblingIdx, ps_side = (if isRightChild then left else right)\<rparr>]
                 else [])
     in here @ proof_steps levels (idx div 2))"

definition merkleProof :: "string list \<Rightarrow> int \<Rightarrow> MerkleProofStep list result" where
  "merkleProof leafHexes index = (case assertLeaves leafHexes of
      Inl e \<Rightarrow> throw e
    | Inr _ \<Rightarrow>
        if index < 0 \<or> index \<ge> int (length leafHexes) then throw (PlainError ''leaf index out of range'')
        else return (proof_steps (butlast (build_levels leafHexes)) (nat index)))"

definition climb_step :: "string \<Rightarrow> MerkleProofStep \<Rightarrow> string" where
  "climb_step acc step = (if ps_side step = left then hashInternal (ps_hash step) acc
    else hashInternal acc (ps_hash step))"

definition climb :: "string \<Rightarrow> MerkleProofStep list \<Rightarrow> string" where
  "climb acc steps = foldl climb_step acc steps"

definition verifyMerkleProof :: "string \<Rightarrow> MerkleProofStep list \<Rightarrow> string \<Rightarrow> bool" where
  "verifyMerkleProof leafHex steps rootHex =
    (is_hash64 leafHex \<and> is_hash64 rootHex \<and> list_all (\<lambda>s. is_hash64 (ps_hash s)) steps
      \<and> climb leafHex steps = rootHex)"

lemma climb_simps [simp]:
  "climb acc [] = acc"
  "climb acc (s # ss) = climb (climb_step acc s) ss"
  "climb acc (ss @ ts) = climb (climb acc ss) ts"
  by (simp_all add: climb_def)

lemma climb_step_hash64 [simp]: "is_hash64 (climb_step acc s)"
  by (simp add: climb_step_def)

lemma climb_hash64: "is_hash64 acc \<Longrightarrow> is_hash64 (climb acc ss)"
  by (induction ss arbitrary: acc) auto

section \<open>Shape of the levels\<close>

lemma next_level_nth:
  "k < length (next_level xs) \<Longrightarrow> next_level xs ! k =
    (if 2 * k + 1 < length xs then hashInternal (xs ! (2 * k)) (xs ! (2 * k + 1)) else xs ! (2 * k))"
proof (induction xs arbitrary: k rule: next_level.induct)
  case (3 x y rest)
  then show ?case by (cases k) auto
qed auto

lemma next_level_hash64: "list_all is_hash64 xs \<Longrightarrow> list_all is_hash64 (next_level xs)"
  by (induction xs rule: next_level.induct) auto

lemma next_level_Nil_iff [simp]: "next_level xs = [] \<longleftrightarrow> xs = []"
  by (induction xs rule: next_level.induct) auto

lemma build_levels_short: "length xs \<le> 1 \<Longrightarrow> build_levels xs = [xs]"
  by (simp add: build_levels.simps)

lemma build_levels_long: "1 < length xs \<Longrightarrow> build_levels xs = xs # build_levels (next_level xs)"
  by (subst build_levels.simps) simp

lemma build_levels_ne [simp]: "build_levels xs \<noteq> []"
  by (subst build_levels.simps) simp

lemma list_all_nth: "list_all p xs \<Longrightarrow> i < length xs \<Longrightarrow> p (xs ! i)"
  by (simp add: list_all_length)

text \<open>Induction on the number of nodes of a level.\<close>

lemma level_induct [case_names empty single more]:
  assumes "P []" and "\<And>x. P [x]" and "\<And>xs. 1 < length xs \<Longrightarrow> P (next_level xs) \<Longrightarrow> P xs"
  shows "P xs"
proof (induction xs rule: build_levels.induct)
  case (1 xs)
  show ?case
  proof (cases "length xs \<le> 1")
    case True
    then have "xs = [] \<or> (\<exists>x. xs = [x])" by (cases xs) auto
    then show ?thesis using assms(1,2) by auto
  next
    case False
    then show ?thesis using 1 assms(3)[of xs] by auto
  qed
qed

definition level_root :: "string list \<Rightarrow> string" where
  "level_root xs = hd (last (build_levels xs))"

lemma level_root_single [simp]: "level_root [x] = x"
  by (simp add: level_root_def build_levels_short)

lemma level_root_next: "1 < length xs \<Longrightarrow> level_root (next_level xs) = level_root xs"
  by (simp add: level_root_def build_levels_long)

lemma level_root_hash64: "xs \<noteq> [] \<Longrightarrow> list_all is_hash64 xs \<Longrightarrow> is_hash64 (level_root xs)"
proof (induction xs rule: level_induct)
  case (more xs)
  then show ?case by (simp add: next_level_hash64 flip: level_root_next)
qed auto

definition steps_of :: "string list \<Rightarrow> nat \<Rightarrow> MerkleProofStep list" where
  "steps_of xs i = proof_steps (butlast (build_levels xs)) i"

lemma steps_of_single [simp]: "steps_of [x] i = []"
  by (simp add: steps_of_def build_levels_short)

definition sibling_step :: "string list \<Rightarrow> nat \<Rightarrow> MerkleProofStep list" where
  "sibling_step xs i = (if odd i then [\<lparr>ps_hash = xs ! (i - 1), ps_side = left\<rparr>]
     else if i + 1 < length xs then [\<lparr>ps_hash = xs ! (i + 1), ps_side = right\<rparr>] else [])"

lemma steps_of_next:
  assumes "1 < length xs" and "i < length xs"
  shows "steps_of xs i = sibling_step xs i @ steps_of (next_level xs) (i div 2)"
proof -
  have "i - 1 < length xs" using assms by simp
  moreover have "(i mod 2 = 1) = odd i" by presburger
  ultimately show ?thesis
    using assms by (auto simp: steps_of_def build_levels_long sibling_step_def Let_def)
qed

lemma climb_sibling:
  assumes "1 < length xs" and "i < length xs"
  shows "climb (xs ! i) (sibling_step xs i) = next_level xs ! (i div 2)"
proof (cases "odd i")
  case True
  then obtain k where k: "i = 2 * k + 1" by (elim oddE)
  then have "i div 2 = k" "i - 1 = 2 * k" by simp_all
  then show ?thesis
    using assms k next_level_nth[of k xs] by (simp add: sibling_step_def climb_step_def)
next
  case False
  then obtain k where k: "i = 2 * k" by (auto elim: evenE)
  then have "i div 2 = k" by simp
  then show ?thesis
    using assms k next_level_nth[of k xs] by (auto simp: sibling_step_def climb_step_def)
qed

section \<open>Completeness\<close>

lemma climb_steps_of: "xs \<noteq> [] \<Longrightarrow> i < length xs \<Longrightarrow> climb (xs ! i) (steps_of xs i) = level_root xs"
proof (induction xs arbitrary: i rule: level_induct)
  case (more xs)
  then have "i div 2 < length (next_level xs)" by auto
  then show ?case
    using more climb_sibling[of xs i] by (simp add: steps_of_next level_root_next)
qed auto

lemma steps_of_hash64: "xs \<noteq> [] \<Longrightarrow> list_all is_hash64 xs \<Longrightarrow> i < length xs \<Longrightarrow>
  list_all (\<lambda>s. is_hash64 (ps_hash s)) (steps_of xs i)"
proof (induction xs arbitrary: i rule: level_induct)
  case (more xs)
  have i: "i div 2 < length (next_level xs)" using more by auto
  have "list_all (\<lambda>s. is_hash64 (ps_hash s)) (steps_of (next_level xs) (i div 2))"
    using more.prems i by (intro more.IH) (auto simp: next_level_hash64)
  moreover have "list_all (\<lambda>s. is_hash64 (ps_hash s)) (sibling_step xs i)"
    using more.prems by (auto simp: sibling_step_def intro: list_all_nth)
  ultimately show ?case
    using more by (simp add: steps_of_next)
qed auto

lemma assertLeaves_ok: "assertLeaves xs = Inr u \<longleftrightarrow> xs \<noteq> [] \<and> list_all is_hash64 xs"
  by (auto simp: assertLeaves_def)

lemma buildMerkleTree_ok:
  "xs \<noteq> [] \<Longrightarrow> list_all is_hash64 xs \<Longrightarrow>
    buildMerkleTree xs = Inr \<lparr>mt_levels = build_levels xs, mt_root = level_root xs\<rparr>"
  by (simp add: buildMerkleTree_def assertLeaves_def level_root_def Let_def)

lemma merkleRootHex_eq: "merkleRootHex xs = Inr r \<longleftrightarrow> xs \<noteq> [] \<and> list_all is_hash64 xs \<and> r = level_root xs"
  by (auto simp: merkleRootHex_def buildMerkleTree_def assertLeaves_def level_root_def Let_def)

lemma merkleRootHex_ok [simp]: "xs \<noteq> [] \<Longrightarrow> list_all is_hash64 xs \<Longrightarrow> merkleRootHex xs = Inr (level_root xs)"
  by (simp add: merkleRootHex_eq)

lemma merkleProof_eq: "merkleProof xs i = Inr p \<longleftrightarrow>
    xs \<noteq> [] \<and> list_all is_hash64 xs \<and> 0 \<le> i \<and> nat i < length xs \<and> p = steps_of xs (nat i)"
  by (auto simp: merkleProof_def assertLeaves_def steps_of_def)

lemma merkleProof_ok [simp]:
  "xs \<noteq> [] \<Longrightarrow> list_all is_hash64 xs \<Longrightarrow> i < length xs \<Longrightarrow> merkleProof xs (int i) = Inr (steps_of xs i)"
  by (simp add: merkleProof_eq)

lemma verify_complete:
  assumes "merkleProof leaves i = Inr p" and "merkleRootHex leaves = Inr r"
  shows "verifyMerkleProof (leaves ! nat i) p r"
  using assms
  by (auto simp: merkleProof_eq merkleRootHex_eq verifyMerkleProof_def climb_steps_of
      level_root_hash64 steps_of_hash64 list_all_nth)

section \<open>The abstract tree\<close>

datatype mtree = Tip string | Fork mtree mtree

fun fringe :: "mtree \<Rightarrow> string list" where
  "fringe (Tip d) = [d]"
| "fringe (Fork l r) = fringe l @ fringe r"

fun depth :: "mtree \<Rightarrow> nat" where
  "depth (Tip d) = 0"
| "depth (Fork l r) = Suc (max (depth l) (depth r))"

fun tree_hash :: "mtree \<Rightarrow> string" where
  "tree_hash (Tip d) = hashLeaf d"
| "tree_hash (Fork l r) = hashInternal (tree_hash l) (tree_hash r)"

lemma tree_hash_hash64 [simp]: "is_hash64 (tree_hash t)"
  by (cases t) auto

fun pair_trees :: "mtree list \<Rightarrow> mtree list" where
  "pair_trees [] = []"
| "pair_trees [x] = [x]"
| "pair_trees (x # y # rest) = Fork x y # pair_trees rest"

lemma length_pair_trees [simp]: "length (pair_trees ts) = (length ts + 1) div 2"
  by (induction ts rule: pair_trees.induct) auto

function merge_trees :: "mtree list \<Rightarrow> mtree list" where
  "merge_trees ts = (if length ts \<le> 1 then ts else merge_trees (pair_trees ts))"
  by pat_completeness auto
termination
  by (relation "measure length") auto

declare merge_trees.simps [simp del]

text \<open>The tree a list of leaf data denotes.\<close>

definition merkle_tree :: "string list \<Rightarrow> mtree" where
  "merkle_tree ds = hd (merge_trees (map Tip ds))"

lemma map_hash_pair_trees: "map tree_hash (pair_trees ts) = next_level (map tree_hash ts)"
  by (induction ts rule: pair_trees.induct) auto

lemma fringe_pair_trees: "concat (map fringe (pair_trees ts)) = concat (map fringe ts)"
  by (induction ts rule: pair_trees.induct) auto

lemma pair_trees_ne [simp]: "pair_trees ts = [] \<longleftrightarrow> ts = []"
  by (induction ts rule: pair_trees.induct) auto

lemma merge_trees_props:
  "ts \<noteq> [] \<Longrightarrow> \<exists>t. merge_trees ts = [t] \<and> fringe t = concat (map fringe ts) \<and> tree_hash t = level_root (map tree_hash ts)"
proof (induction ts rule: merge_trees.induct)
  case (1 ts)
  show ?case
  proof (cases "length ts \<le> 1")
    case True
    then obtain t where "ts = [t]" using 1(2) by (cases ts) auto
    then show ?thesis by (simp add: merge_trees.simps)
  next
    case False
    then have m: "merge_trees ts = merge_trees (pair_trees ts)" by (subst merge_trees.simps) simp
    obtain t where "merge_trees (pair_trees ts) = [t]" "fringe t = concat (map fringe (pair_trees ts))"
        "tree_hash t = level_root (map tree_hash (pair_trees ts))"
      using 1 False by auto
    then show ?thesis
      using m False level_root_next[of "map tree_hash ts"] by (simp add: fringe_pair_trees map_hash_pair_trees)
  qed
qed

lemma fringe_merkle_tree: "ds \<noteq> [] \<Longrightarrow> fringe (merkle_tree ds) = ds"
  using merge_trees_props[of "map Tip ds"] by (auto simp: merkle_tree_def comp_def)

lemma hash_merkle_tree: "ds \<noteq> [] \<Longrightarrow> tree_hash (merkle_tree ds) = level_root (map hashLeaf ds)"
  using merge_trees_props[of "map Tip ds"] by (auto simp: merkle_tree_def comp_def)

lemma depth_pair_trees:
  "\<forall>t \<in> set ts. depth t \<le> n \<Longrightarrow> \<forall>t \<in> set (pair_trees ts). depth t \<le> Suc n"
  by (induction ts rule: pair_trees.induct) auto

lemma depth_merge_trees:
  "ts \<noteq> [] \<Longrightarrow> length ts \<le> 2 ^ k \<Longrightarrow> \<forall>t \<in> set ts. depth t \<le> n \<Longrightarrow> depth (hd (merge_trees ts)) \<le> n + k"
proof (induction ts arbitrary: k n rule: merge_trees.induct)
  case (1 ts)
  show ?case
  proof (cases "length ts \<le> 1")
    case True
    then have "depth (hd ts) \<le> n" using 1(2,4) by auto
    then show ?thesis using True by (subst merge_trees.simps) simp
  next
    case False
    then obtain k' where k': "k = Suc k'" using 1(3) by (cases k) auto
    have "depth (hd (merge_trees (pair_trees ts))) \<le> Suc n + k'"
      using 1 False k' depth_pair_trees[of ts n] by (intro 1(1)) auto
    then show ?thesis using False k' by (subst merge_trees.simps) simp
  qed
qed

section \<open>What is hashed\<close>

text \<open>Every input hashed to build the tree of some data, and to climb a proof.\<close>

fun tree_inputs :: "mtree \<Rightarrow> bytes list" where
  "tree_inputs (Tip d) = [0x00 # utf8 d]"
| "tree_inputs (Fork l r) =
    (0x01 # hex_decode (tree_hash l) @ hex_decode (tree_hash r)) # tree_inputs l @ tree_inputs r"

fun climb_inputs :: "string \<Rightarrow> MerkleProofStep list \<Rightarrow> bytes list" where
  "climb_inputs acc [] = []"
| "climb_inputs acc (s # ss) =
    (if ps_side s = left then 0x01 # hex_decode (ps_hash s) @ hex_decode acc
     else 0x01 # hex_decode acc @ hex_decode (ps_hash s)) # climb_inputs (climb_step acc s) ss"

lemma climb_inputs_append: "climb_inputs acc (ss @ ts) = climb_inputs acc ss @ climb_inputs (climb acc ss) ts"
  by (induction ss arbitrary: acc) auto

lemma hashInternal_inj:
  assumes "hashInternal a b = hashInternal c d"
    and "\<not> has_collision inputs"
    and "0x01 # hex_decode a @ hex_decode b \<in> set inputs" and "0x01 # hex_decode c @ hex_decode d \<in> set inputs"
    and "is_hash64 a" "is_hash64 b" "is_hash64 c" "is_hash64 d"
  shows "a = c \<and> b = d"
proof -
  have "hex_decode a @ hex_decode b = hex_decode c @ hex_decode d"
    using sha256_eqD[OF assms(2-4)] assms(1) by (simp add: hashInternal_def sha256Hex_eq_iff)
  then have "hex_decode a = hex_decode c" "hex_decode b = hex_decode d"
    using assms(5-8) by (simp_all add: length_hash64_decode append_eq_append_conv)
  then show ?thesis using assms(5-8) by (blast intro: hash64_decode_inj)
qed

lemma leaf_not_internal:
  assumes "hashLeaf d = hashInternal a b" and "0x00 # utf8 d \<in> set inputs"
    and "0x01 # hex_decode a @ hex_decode b \<in> set inputs"
  shows "has_collision inputs"
  using has_collisionI[OF assms(2,3)] assms(1) by (simp add: hashLeaf_def hashInternal_def sha256Hex_eq_iff)

lemma hashLeaf_inj:
  assumes "hashLeaf d = hashLeaf e" and "\<not> has_collision inputs"
    and "0x00 # utf8 d \<in> set inputs" and "0x00 # utf8 e \<in> set inputs"
  shows "d = e"
  using sha256_eqD[OF assms(2-4)] assms(1) by (simp add: hashLeaf_def sha256Hex_eq_iff)

section \<open>Binding\<close>

lemma tree_hash_inj:
  assumes "tree_hash t = tree_hash u" and "\<not> has_collision (tree_inputs t @ tree_inputs u)"
  shows "t = u"
  using assms
proof (induction t arbitrary: u)
  case (Tip d)
  then show ?case
  proof (cases u)
    case u: (Tip e)
    have "d = e"
      by (rule hashLeaf_inj[OF _ Tip.prems(2)]) (use Tip.prems(1) u in simp_all)
    then show ?thesis using u by simp
  next
    case u: (Fork l r)
    have "has_collision (tree_inputs (Tip d) @ tree_inputs u)"
      by (rule leaf_not_internal[of d "tree_hash l" "tree_hash r"]) (use Tip.prems(1) u in simp_all)
    then show ?thesis using Tip.prems(2) by contradiction
  qed
next
  case (Fork l r)
  then show ?case
  proof (cases u)
    case u: (Tip e)
    have "has_collision (tree_inputs (Fork l r) @ tree_inputs u)"
      by (rule leaf_not_internal[of e "tree_hash l" "tree_hash r"]) (use Fork.prems(1) u in simp_all)
    then show ?thesis using Fork.prems(2) by contradiction
  next
    case u: (Fork l' r')
    let ?I = "tree_inputs (Fork l r) @ tree_inputs u"
    have "tree_hash l = tree_hash l' \<and> tree_hash r = tree_hash r'"
      using Fork.prems u by (intro hashInternal_inj[where inputs = ?I]) auto
    moreover have "\<not> has_collision (tree_inputs l @ tree_inputs l')" "\<not> has_collision (tree_inputs r @ tree_inputs r')"
      using Fork.prems(2) u by (auto dest: has_collision_mono[where ys = ?I])
    ultimately show ?thesis using Fork.IH u by blast
  qed
qed

section \<open>Soundness\<close>

text \<open>A path that reaches the root passes through a node of every level, or a collision shows.\<close>

lemma climb_through_next:
  assumes xs: "1 < length xs" "list_all is_hash64 xs" and j: "j < length (next_level xs)"
    and reach: "climb (hashLeaf d) pre = next_level xs ! j"
    and valid: "list_all (\<lambda>s. is_hash64 (ps_hash s)) pre"
    and inp: "0x00 # utf8 d \<in> set inputs" "set (climb_inputs (hashLeaf d) pre) \<subseteq> set inputs"
      "\<And>k. 2 * k + 1 < length xs \<Longrightarrow> 0x01 # hex_decode (xs ! (2 * k)) @ hex_decode (xs ! (2 * k + 1)) \<in> set inputs"
    and nc: "\<not> has_collision inputs"
  shows "\<exists>i < length xs. i div 2 = j \<and> (\<exists>pre'. pre = pre' @ sibling_step xs i \<and> climb (hashLeaf d) pre' = xs ! i)"
proof (cases "2 * j + 1 < length xs")
  case False
  then show ?thesis
    using j reach next_level_nth[OF j] by (intro exI[of _ "2 * j"]) (auto simp: sibling_step_def)
next
  case True
  have nl: "next_level xs ! j = hashInternal (xs ! (2 * j)) (xs ! (2 * j + 1))"
    using next_level_nth[OF j] True by simp
  have xh: "is_hash64 (xs ! (2 * j))" "is_hash64 (xs ! (2 * j + 1))"
    using xs(2) True by (auto simp: list_all_length)
  show ?thesis
  proof (cases pre rule: rev_cases)
    case Nil
    then show ?thesis using reach nl leaf_not_internal inp(1) inp(3)[OF True] nc by auto
  next
    case (snoc pre' s)
    define acc where "acc = climb (hashLeaf d) pre'"
    have acc: "is_hash64 acc" by (simp add: acc_def climb_hash64)
    have sh: "is_hash64 (ps_hash s)" using valid snoc by simp
    have st: "climb_step acc s = hashInternal (xs ! (2 * j)) (xs ! (2 * j + 1))"
      using reach snoc nl by (simp add: acc_def)
    have hin: "set (climb_inputs acc [s]) \<subseteq> set inputs"
      using inp(2) snoc by (simp add: climb_inputs_append acc_def)
    show ?thesis
    proof (cases "ps_side s")
      case left
      then have "ps_hash s = xs ! (2 * j) \<and> acc = xs ! (2 * j + 1)"
        using st hin sh acc xh nc inp(3)[OF True]
        by (intro hashInternal_inj[where inputs = inputs]) (auto simp: climb_step_def)
      then show ?thesis
        using True snoc left by (intro exI[of _ "2 * j + 1"]) (auto simp: sibling_step_def acc_def)
    next
      case right
      then have "acc = xs ! (2 * j) \<and> ps_hash s = xs ! (2 * j + 1)"
        using st hin sh acc xh nc inp(3)[OF True]
        by (intro hashInternal_inj[where inputs = inputs]) (auto simp: climb_step_def)
      then show ?thesis
        using True snoc right by (intro exI[of _ "2 * j"]) (auto simp: sibling_step_def acc_def)
    qed
  qed
qed

fun level_inputs :: "string list \<Rightarrow> bytes list" where
  "level_inputs (x # y # rest) = (0x01 # hex_decode x @ hex_decode y) # level_inputs rest"
| "level_inputs _ = []"

lemma level_inputs_nth:
  "2 * k + 1 < length xs \<Longrightarrow> 0x01 # hex_decode (xs ! (2 * k)) @ hex_decode (xs ! (2 * k + 1)) \<in> set (level_inputs xs)"
proof (induction xs arbitrary: k rule: level_inputs.induct)
  case (1 x y rest)
  then show ?case by (cases k) auto
qed auto

definition merkle_inputs :: "string list \<Rightarrow> bytes list" where
  "merkle_inputs ds = map (\<lambda>d. 0x00 # utf8 d) ds @ concat (map level_inputs (build_levels (map hashLeaf ds)))"

lemma climb_reaches_level:
  assumes "xs \<noteq> []" and "list_all is_hash64 xs" and "climb (hashLeaf d) p = level_root xs"
    and "list_all (\<lambda>s. is_hash64 (ps_hash s)) p"
    and "0x00 # utf8 d \<in> set inputs" and "set (climb_inputs (hashLeaf d) p) \<subseteq> set inputs"
    and "set (concat (map level_inputs (build_levels xs))) \<subseteq> set inputs"
    and "\<not> has_collision inputs"
  shows "\<exists>i < length xs. \<exists>pre. p = pre @ steps_of xs i \<and> climb (hashLeaf d) pre = xs ! i"
  using assms
proof (induction xs rule: level_induct)
  case (more xs)
  have b: "build_levels xs = xs # build_levels (next_level xs)" using more.hyps by (rule build_levels_long)
  obtain j pre where j: "j < length (next_level xs)" and p: "p = pre @ steps_of (next_level xs) j"
      and c: "climb (hashLeaf d) pre = next_level xs ! j"
    using more b by (auto simp: level_root_next next_level_hash64)
  have "\<exists>i < length xs. i div 2 = j \<and> (\<exists>pre'. pre = pre' @ sibling_step xs i \<and> climb (hashLeaf d) pre' = xs ! i)"
  proof (rule climb_through_next[where inputs = inputs])
    show "0x01 # hex_decode (xs ! (2 * k)) @ hex_decode (xs ! (2 * k + 1)) \<in> set inputs" if "2 * k + 1 < length xs" for k
      using level_inputs_nth[OF that] more.prems(7) b by auto
  qed (use more j p c in \<open>auto simp: climb_inputs_append\<close>)
  then obtain i pre' where i: "i < length xs" "i div 2 = j" "pre = pre' @ sibling_step xs i"
      "climb (hashLeaf d) pre' = xs ! i" by blast
  have "steps_of xs i = sibling_step xs i @ steps_of (next_level xs) j"
    using steps_of_next[OF more.hyps i(1)] i(2) by simp
  then have "p = pre' @ steps_of xs i" using p i(3) by simp
  then show ?case using i(1,4) by blast
qed (auto intro: exI[of _ p])

lemma verify_sound:
  assumes root: "merkleRootHex (map hashLeaf ds) = Inr r" and ver: "verifyMerkleProof (hashLeaf d) p r"
    and nc: "\<not> has_collision (merkle_inputs ds @ (0x00 # utf8 d) # climb_inputs (hashLeaf d) p)"
  shows "\<exists>i < length ds. ds ! i = d \<and> merkleProof (map hashLeaf ds) (int i) = Inr p"
proof -
  let ?I = "merkle_inputs ds @ (0x00 # utf8 d) # climb_inputs (hashLeaf d) p"
  let ?xs = "map hashLeaf ds"
  have ne: "?xs \<noteq> []" and h: "list_all is_hash64 ?xs" and r: "r = level_root ?xs"
    using root by (simp_all add: merkleRootHex_eq)
  have "\<exists>i < length ?xs. \<exists>pre. p = pre @ steps_of ?xs i \<and> climb (hashLeaf d) pre = ?xs ! i"
    using ne h ver r nc
    by (intro climb_reaches_level[where inputs = ?I]) (auto simp: verifyMerkleProof_def merkle_inputs_def)
  then obtain i pre where i: "i < length ds" and p: "p = pre @ steps_of ?xs i"
      and c: "climb (hashLeaf d) pre = hashLeaf (ds ! i)" by auto
  have di: "0x00 # utf8 (ds ! i) \<in> set ?I" using i by (auto simp: merkle_inputs_def)
  have "pre = []"
  proof (rule ccontr)
    assume "pre \<noteq> []"
    then obtain pre' s where s: "pre = pre' @ [s]" by (cases pre rule: rev_cases) auto
    let ?acc = "climb (hashLeaf d) pre'"
    have "set (climb_inputs ?acc [s]) \<subseteq> set ?I"
      unfolding p s by (auto simp: climb_inputs_append)
    moreover have "hashLeaf (ds ! i) = climb_step ?acc s" using c s by simp
    ultimately show False
      using nc leaf_not_internal[OF _ di] by (auto simp: climb_step_def split: if_splits)
  qed
  then have "d = ds ! i"
    using c hashLeaf_inj[OF _ nc, of d "ds ! i"] di by simp
  then show ?thesis using \<open>pre = []\<close> p i h ne by auto
qed

section \<open>Size of a proof\<close>

lemma length_steps_of: "xs \<noteq> [] \<Longrightarrow> i < length xs \<Longrightarrow> length xs \<le> 2 ^ k \<Longrightarrow> length (steps_of xs i) \<le> k"
proof (induction xs arbitrary: i k rule: level_induct)
  case (more xs)
  then obtain k' where k: "k = Suc k'" by (cases k) auto
  have "length (steps_of (next_level xs) (i div 2)) \<le> k'"
    using more k by (intro more.IH) auto
  then show ?case
    using more k by (auto simp: steps_of_next sibling_step_def)
qed auto

lemma build_levels_nonempty: "xs \<noteq> [] \<Longrightarrow> length (last (build_levels xs)) = 1"
  by (induction xs rule: level_induct) (simp_all add: build_levels_short build_levels_long)

lemma root_binding:
  assumes "merkleRootHex (map hashLeaf ds) = Inr r" and "merkleRootHex (map hashLeaf es) = Inr r"
  shows "ds = es \<or> has_collision (tree_inputs (merkle_tree ds) @ tree_inputs (merkle_tree es))"
proof -
  have ne: "ds \<noteq> []" "es \<noteq> []" and "level_root (map hashLeaf ds) = level_root (map hashLeaf es)"
    using assms by (auto simp: merkleRootHex_eq)
  then have "tree_hash (merkle_tree ds) = tree_hash (merkle_tree es)" by (simp add: hash_merkle_tree)
  then have "merkle_tree ds = merkle_tree es \<or> has_collision (tree_inputs (merkle_tree ds) @ tree_inputs (merkle_tree es))"
    using tree_hash_inj by blast
  then show ?thesis using fringe_merkle_tree[OF ne(1)] fringe_merkle_tree[OF ne(2)] by metis
qed

section \<open>Properties\<close>

lemma hashed_proof: "i < length ds \<Longrightarrow> merkleProof (map hashLeaf ds) (int i) = Inr (steps_of (map hashLeaf ds) i)"
  by (simp add: merkleProof_eq list_all_iff) auto

lemma hashed_root: "ds \<noteq> [] \<Longrightarrow> merkleRootHex (map hashLeaf ds) = Inr (level_root (map hashLeaf ds))"
  by (simp add: merkleRootHex_eq list_all_iff)

lemma hashed_verifies: "i < length ds \<Longrightarrow> verifyMerkleProof (hashLeaf (ds ! i)) (steps_of (map hashLeaf ds) i) (level_root (map hashLeaf ds))"
proof -
  assume i: "i < length ds"
  then have "ds \<noteq> []" by auto
  then have "verifyMerkleProof (map hashLeaf ds ! nat (int i)) (steps_of (map hashLeaf ds) i) (level_root (map hashLeaf ds))"
    by (rule verify_complete[OF hashed_proof[OF i] hashed_root])
  then show ?thesis using i by simp
qed

lemma second_of_two: "(1 :: nat) < length [a, b]" "[a, b] ! 1 = b"
  by simp_all

text \<open>Completeness: for every list of leaves and every index in range, the proof that
  \<open>merkleProof\<close> returns verifies that leaf against the root that \<open>merkleRootHex\<close> returns.\<close>

theorem merkle_proof_complete:
  assumes "merkleProof leaves i = Inr p" and "merkleRootHex leaves = Inr r"
  shows "verifyMerkleProof (leaves ! nat i) p r"
  using assms by (rule verify_complete)

theorem merkle_proof_complete_witness:
  "verifyMerkleProof (map hashLeaf [''a'', ''b''] ! nat (int 1)) (steps_of (map hashLeaf [''a'', ''b'']) 1)
     (level_root (map hashLeaf [''a'', ''b'']))"
  by (rule merkle_proof_complete[OF hashed_proof[OF second_of_two(1)] hashed_root]) simp

text \<open>C14. Soundness: a proof that verifies a payload hash against the root of a list of payload
  hashes is the very proof that \<open>merkleProof\<close> gives for a position of the list that holds this
  hash, or SHA-256 collides on two of the inputs hashed to build the tree and climb the proof.
  In particular an inner node cannot pass for a leaf, and sides and order matter.\<close>

theorem merkle_proof_sound:
  assumes "merkleRootHex (map hashLeaf ds) = Inr r" and "verifyMerkleProof (hashLeaf d) p r"
  shows "(\<exists>i < length ds. ds ! i = d \<and> merkleProof (map hashLeaf ds) (int i) = Inr p)
    \<or> has_collision (merkle_inputs ds @ (0x00 # utf8 d) # climb_inputs (hashLeaf d) p)"
  using assms verify_sound by blast

theorem merkle_proof_sound_witness:
  "(\<exists>i < length [''x'', ''y'']. [''x'', ''y''] ! i = [''x'', ''y''] ! 1 \<and> merkleProof (map hashLeaf [''x'', ''y'']) (int i)
        = Inr (steps_of (map hashLeaf [''x'', ''y'']) 1))
    \<or> has_collision (merkle_inputs [''x'', ''y''] @ (0x00 # utf8 ([''x'', ''y''] ! 1))
        # climb_inputs (hashLeaf ([''x'', ''y''] ! 1)) (steps_of (map hashLeaf [''x'', ''y'']) 1))"
  by (rule merkle_proof_sound[OF hashed_root hashed_verifies[OF second_of_two(1)]]) simp

text \<open>C15. Binding: two lists of payload hashes with one root are the same list, in the same
  order, or SHA-256 collides on two of the inputs hashed to build the two trees.\<close>

theorem merkle_root_binding:
  assumes "merkleRootHex (map hashLeaf ds) = Inr r" and "merkleRootHex (map hashLeaf es) = Inr r"
  shows "ds = es \<or> has_collision (tree_inputs (merkle_tree ds) @ tree_inputs (merkle_tree es))"
  using assms by (rule root_binding)

theorem merkle_root_binding_witness:
  "[''a'', ''b''] = [''a'', ''b''] \<or> has_collision (tree_inputs (merkle_tree [''a'', ''b'']) @ tree_inputs (merkle_tree [''a'', ''b'']))"
  by (rule merkle_root_binding[of _ "level_root (map hashLeaf [''a'', ''b''])"]) simp_all

text \<open>C20. Refinement: the root computed level by level is the hash of a binary tree whose fringe
  is the list of payload hashes in order and whose depth is at most k when there are at most
  \<open>2^k\<close> of them.\<close>

theorem merkle_root_refines_tree:
  assumes "ds \<noteq> []" and "length ds \<le> 2 ^ k"
  shows "\<exists>t. merkleRootHex (map hashLeaf ds) = Inr (tree_hash t) \<and> fringe t = ds \<and> depth t \<le> k"
proof (intro exI conjI)
  show "merkleRootHex (map hashLeaf ds) = Inr (tree_hash (merkle_tree ds))"
    using assms(1) by (simp add: merkleRootHex_eq hash_merkle_tree list_all_iff)
  show "fringe (merkle_tree ds) = ds" using assms(1) by (rule fringe_merkle_tree)
  show "depth (merkle_tree ds) \<le> k"
    using depth_merge_trees[of "map Tip ds" k 0] assms by (simp add: merkle_tree_def)
qed

theorem merkle_root_refines_tree_witness:
  "\<exists>t. merkleRootHex (map hashLeaf [''a'', ''b'', ''c'']) = Inr (tree_hash t) \<and> fringe t = [''a'', ''b'', ''c''] \<and> depth t \<le> 2"
  by (rule merkle_root_refines_tree) simp_all

text \<open>A proof for one of at most \<open>2^k\<close> leaves has at most k steps, each a 32-byte lower-case
  hexadecimal hash.\<close>

theorem merkle_proof_bounded:
  assumes "merkleProof leaves i = Inr p" and "length leaves \<le> 2 ^ k"
  shows "length p \<le> k \<and> list_all (\<lambda>s. is_hash64 (ps_hash s)) p"
  using assms by (auto simp: merkleProof_eq length_steps_of steps_of_hash64)

theorem merkle_proof_bounded_witness:
  "length (steps_of (map hashLeaf [''a'', ''b'']) 1) \<le> 1
    \<and> list_all (\<lambda>s. is_hash64 (ps_hash s)) (steps_of (map hashLeaf [''a'', ''b'']) 1)"
  by (rule merkle_proof_bounded[OF hashed_proof[OF second_of_two(1)]]) simp

end
