(* ===== verification/AnchorAttempts.thy ===== *)
theory AnchorAttempts
  imports Domain
begin

text \<open>
  \<open>apps/backend/src/batches/anchor-attempts.service.ts\<close> and \<open>anchor-backoff.ts\<close>:
  the history of attempts to anchor a batch, its summary, and the schedule of
  retries.  Delays are whole milliseconds; the doubling is exact in binary64 up to
  the point where the ceiling applies, so integers stand for them.
\<close>

section \<open>History\<close>

record RecordedAttempt =
  ra_outcome :: AnchorAttemptOutcome
  ra_detail :: "string option"
  ra_stellarTxHash :: "string option"

record AttemptSummary =
  s_batchId :: string
  s_attempts :: nat
  s_failures :: nat
  s_lastOutcome :: "AnchorAttemptOutcome option"
  s_lastAttemptAt :: "instant option"
  s_lastDetail :: "string option"

definition MAX_DETAIL_LENGTH :: nat where
  "MAX_DETAIL_LENGTH = 2000"

definition record_attempt :: "instant \<Rightarrow> string \<Rightarrow> string \<Rightarrow> RecordedAttempt \<Rightarrow> db \<Rightarrow> AnchorAttemptEntity \<times> db" where
  "record_attempt now newId batchId input s =
    (let previous = count_where (\<lambda>a. at_batchId a = batchId) (attempts s);
         attempt = \<lparr>at_id = newId, at_batchId = batchId, at_attemptNumber = previous + 1,
            at_outcome = ra_outcome input,
            at_detail = (case ra_detail input of None \<Rightarrow> None
              | Some d \<Rightarrow> if d = '''' then None else Some (take MAX_DETAIL_LENGTH d)),
            at_stellarTxHash = ra_stellarTxHash input,
            at_occurredAt = now\<rparr>
     in (attempt, s\<lparr>attempts := insert_row attempt (attempts s)\<rparr>))"

definition newest_first :: "AnchorAttemptEntity \<Rightarrow> AnchorAttemptEntity \<Rightarrow> int" where
  "newest_first a b = (if at_occurredAt a \<noteq> at_occurredAt b then at_occurredAt b - at_occurredAt a
    else int (at_attemptNumber b) - int (at_attemptNumber a))"

definition oldest_first :: "AnchorAttemptEntity \<Rightarrow> AnchorAttemptEntity \<Rightarrow> int" where
  "oldest_first a b = at_occurredAt a - at_occurredAt b"

definition historyFor :: "string \<Rightarrow> nat \<Rightarrow> db \<Rightarrow> AnchorAttemptEntity list" where
  "historyFor batchId limit s =
    take limit (js_sort newest_first (find_all (\<lambda>a. at_batchId a = batchId) (attempts s)))"

interpretation newest_first: consistent_comparator newest_first
  by unfold_locales (auto simp: newest_first_def split: if_splits)

interpretation oldest_first: consistent_comparator oldest_first
  by unfold_locales (auto simp: oldest_first_def)

section \<open>Summaries\<close>

definition empty_summary :: "string \<Rightarrow> AttemptSummary" where
  "empty_summary batchId = \<lparr>s_batchId = batchId, s_attempts = 0, s_failures = 0, s_lastOutcome = None,
     s_lastAttemptAt = None, s_lastDetail = None\<rparr>"

definition add_to_summary :: "AttemptSummary \<Rightarrow> AnchorAttemptEntity \<Rightarrow> AttemptSummary" where
  "add_to_summary x row = x\<lparr>s_attempts := s_attempts x + 1,
     s_failures := s_failures x + (if at_outcome row \<noteq> succeeded then 1 else 0),
     s_lastOutcome := Some (at_outcome row), s_lastAttemptAt := Some (at_occurredAt row),
     s_lastDetail := at_detail row\<rparr>"

definition summary_step ::
  "(string \<Rightarrow> AttemptSummary option) \<Rightarrow> AnchorAttemptEntity \<Rightarrow> (string \<Rightarrow> AttemptSummary option)" where
  "summary_step summaries row = summaries(at_batchId row \<mapsto>
     add_to_summary (with_default (summaries (at_batchId row)) (empty_summary (at_batchId row))) row)"

definition summariesFor :: "string list \<Rightarrow> db \<Rightarrow> (string \<Rightarrow> AttemptSummary option)" where
  "summariesFor batchIds s =
    (if batchIds = [] then Map.empty
     else foldl summary_step Map.empty
       (js_sort oldest_first (find_all (\<lambda>a. at_batchId a \<in> set batchIds) (attempts s))))"

section \<open>Backoff\<close>

definition BASE_DELAY_MS :: int where "BASE_DELAY_MS = 30000"
definition MAX_DELAY_MS :: int where "MAX_DELAY_MS = 60 * 60 * 1000"
definition STUCK_AFTER_FAILURES :: nat where "STUCK_AFTER_FAILURES = 6"

definition backoffDelayMs :: "int \<Rightarrow> int" where
  "backoffDelayMs failures = (if failures \<le> 0 then 0
    else min (BASE_DELAY_MS * 2 ^ nat (failures - 1)) MAX_DELAY_MS)"

definition nextAttemptAt :: "AttemptSummary option \<Rightarrow> instant option" where
  "nextAttemptAt summary = (case summary of
      None \<Rightarrow> None
    | Some x \<Rightarrow> (case s_lastAttemptAt x of
        None \<Rightarrow> None
      | Some t \<Rightarrow> if s_failures x = 0 then None
          else if s_lastOutcome x = Some succeeded then None
          else Some (t + backoffDelayMs (int (s_failures x)))))"

definition isDueForRetry :: "AttemptSummary option \<Rightarrow> instant \<Rightarrow> bool" where
  "isDueForRetry summary now = (case nextAttemptAt summary of None \<Rightarrow> True | Some t \<Rightarrow> t \<le> now)"

definition isStuck :: "AttemptSummary option \<Rightarrow> bool" where
  "isStuck summary = (case summary of None \<Rightarrow> False | Some x \<Rightarrow> s_failures x \<ge> STUCK_AFTER_FAILURES)"

section \<open>A summary is a fold over the rows of its batch\<close>

definition fold_summary :: "string \<Rightarrow> AnchorAttemptEntity list \<Rightarrow> AttemptSummary option" where
  "fold_summary i rows = (if rows = [] then None else Some (foldl add_to_summary (empty_summary i) rows))"

lemma summary_fold_filter:
  "foldl summary_step m rows i =
    (let mine = filter (\<lambda>a. at_batchId a = i) rows in
     if mine = [] then m i else Some (foldl add_to_summary (with_default (m i) (empty_summary i)) mine))"
  by (induction rows arbitrary: m) (auto simp: summary_step_def Let_def)

lemma foldl_add_summary:
  "foldl add_to_summary x rows = (if rows = [] then x else
    x\<lparr>s_attempts := s_attempts x + length rows,
      s_failures := s_failures x + length (filter (\<lambda>a. at_outcome a \<noteq> succeeded) rows),
      s_lastOutcome := Some (at_outcome (last rows)), s_lastAttemptAt := Some (at_occurredAt (last rows)),
      s_lastDetail := at_detail (last rows)\<rparr>)"
  by (induction rows rule: rev_induct) (auto simp: add_to_summary_def)

lemma filter_insert_cmp:
  "filter p (insert_cmp cmp x ys) = (if p x then filter p (insert_cmp cmp x ys) else filter p ys)"
  by (induction ys) auto

lemma summariesFor_eq:
  assumes "i \<in> set batchIds"
  shows "summariesFor batchIds s i = fold_summary i
    (filter (\<lambda>a. at_batchId a = i) (js_sort oldest_first (find_all (\<lambda>a. at_batchId a \<in> set batchIds) (attempts s))))"
  using assms by (auto simp: summariesFor_def summary_fold_filter fold_summary_def Let_def)

text \<open>Counts of a summary are counts of the table, and its last attempt is one of the latest.\<close>

lemma summary_counts:
  assumes "i \<in> set batchIds" and "summariesFor batchIds s i = Some x"
  shows "s_attempts x = count_where (\<lambda>a. at_batchId a = i) (attempts s)"
    and "s_failures x = count_where (\<lambda>a. at_batchId a = i \<and> at_outcome a \<noteq> succeeded) (attempts s)"
proof -
  let ?sorted = "js_sort oldest_first (find_all (\<lambda>a. at_batchId a \<in> set batchIds) (attempts s))"
  let ?mine = "filter (\<lambda>a. at_batchId a = i) ?sorted"
  have len: "length ?mine = count_where (\<lambda>a. at_batchId a = i) (attempts s)"
    using assms(1) by (simp add: find_all_def count_where_def) (metis (mono_tags, lifting))
  have "filter (\<lambda>a. at_outcome a \<noteq> succeeded) ?mine = filter (\<lambda>a. at_batchId a = i \<and> at_outcome a \<noteq> succeeded) ?sorted"
    by (simp add: conj_commute)
  then have fails: "length (filter (\<lambda>a. at_outcome a \<noteq> succeeded) ?mine)
      = count_where (\<lambda>a. at_batchId a = i \<and> at_outcome a \<noteq> succeeded) (attempts s)"
    using assms(1) by (simp add: find_all_def count_where_def) (metis (mono_tags, lifting))
  have ne: "?mine \<noteq> []" and x: "x = foldl add_to_summary (empty_summary i) ?mine"
    using assms(2) unfolding summariesFor_eq[OF assms(1)] fold_summary_def by (auto split: if_splits)
  show "s_attempts x = count_where (\<lambda>a. at_batchId a = i) (attempts s)"
    using ne len by (simp add: x foldl_add_summary empty_summary_def)
  show "s_failures x = count_where (\<lambda>a. at_batchId a = i \<and> at_outcome a \<noteq> succeeded) (attempts s)"
    using ne fails by (simp add: x foldl_add_summary empty_summary_def)
qed

section \<open>The schedule\<close>

lemma backoff_bounds: "0 \<le> backoffDelayMs n" "backoffDelayMs n \<le> MAX_DELAY_MS"
  "0 < n \<Longrightarrow> BASE_DELAY_MS \<le> backoffDelayMs n"
proof -
  have one: "(1 :: int) \<le> 2 ^ k" for k by simp
  show "0 \<le> backoffDelayMs n" "backoffDelayMs n \<le> MAX_DELAY_MS"
    by (auto simp: backoffDelayMs_def BASE_DELAY_MS_def MAX_DELAY_MS_def)
  show "0 < n \<Longrightarrow> BASE_DELAY_MS \<le> backoffDelayMs n"
    using one[of "nat (n - 1)"] by (auto simp: backoffDelayMs_def BASE_DELAY_MS_def MAX_DELAY_MS_def)
qed

lemma backoff_mono: "m \<le> n \<Longrightarrow> backoffDelayMs m \<le> backoffDelayMs n"
proof (cases "m \<le> 0")
  case True
  then have "backoffDelayMs m = 0" by (simp add: backoffDelayMs_def)
  then show ?thesis using backoff_bounds(1)[of n] by simp
next
  case False
  assume mn: "m \<le> n"
  have "(2 :: int) ^ nat (m - 1) \<le> 2 ^ nat (n - 1)" using mn by (intro power_increasing) auto
  then have "BASE_DELAY_MS * 2 ^ nat (m - 1) \<le> BASE_DELAY_MS * 2 ^ nat (n - 1)"
    by (simp add: BASE_DELAY_MS_def)
  then show ?thesis using False mn by (simp add: backoffDelayMs_def)
qed

lemma backoff_double:
  "0 < n \<Longrightarrow> 2 * backoffDelayMs n \<le> MAX_DELAY_MS \<Longrightarrow> backoffDelayMs (n + 1) = 2 * backoffDelayMs n"
proof -
  assume n: "0 < n" and le: "2 * backoffDelayMs n \<le> MAX_DELAY_MS"
  have e: "nat n = Suc (nat (n - 1))" using n by simp
  have "backoffDelayMs n = BASE_DELAY_MS * 2 ^ nat (n - 1)"
    using n le by (auto simp: backoffDelayMs_def min_def MAX_DELAY_MS_def split: if_splits)
  then show ?thesis using n le by (simp add: backoffDelayMs_def e)
qed

lemma due_after_max: "s_lastAttemptAt x = Some t \<Longrightarrow> isDueForRetry (Some x) (t + MAX_DELAY_MS)"
  using backoff_bounds(2)[of "int (s_failures x)"] by (simp add: isDueForRetry_def nextAttemptAt_def)

lemma due_mono: "isDueForRetry x now \<Longrightarrow> now \<le> now' \<Longrightarrow> isDueForRetry x now'"
  by (auto simp: isDueForRetry_def split: option.splits)

end
