(* ===== verification/Ledger.thy ===== *)
theory Ledger
  imports Signing JsDate
begin

text \<open>
  \<open>apps/backend/src/ledger/horizon.client.ts\<close> and \<open>ledger-verification.service.ts\<close>:
  the two reads from Horizon, the comparison of the ledger with a sealed root, and
  the cache of confirmations with its table of reads in flight.  The HTTP response
  is a parameter; every way it can fail is a value.
\<close>

section \<open>JSON values read from a response\<close>

definition jfield :: "string \<Rightarrow> json \<Rightarrow> json" where
  "jfield k v = (case v of JObj kvs \<Rightarrow> with_default (map_of (rev kvs) k) JUndefined | _ \<Rightarrow> JUndefined)"

definition nullish :: "json \<Rightarrow> bool" where
  "nullish v = (v = JNull \<or> v = JUndefined)"

definition coalesce :: "json \<Rightarrow> json \<Rightarrow> json" where
  "coalesce a b = (if nullish a then b else a)"

fun js_String :: "json \<Rightarrow> string" where
  "js_String JNull = ''null''"
| "js_String (JBool b) = (if b then ''true'' else ''false'')"
| "js_String (JNum n) = num_to_string n"
| "js_String (JStr s) = s"
| "js_String (JArr vs) = join_with '','' (map (\<lambda>v. if nullish v then '''' else js_String v) vs)"
| "js_String (JObj _) = ''[object Object]''"
| "js_String JUndefined = ''undefined''"

fun js_Number :: "json \<Rightarrow> jsnum" where
  "js_Number JNull = Fin 0"
| "js_Number (JBool b) = Fin (if b then 1 else 0)"
| "js_Number (JNum n) = n"
| "js_Number (JStr s) = number_of_string s"
| "js_Number (JArr vs) = number_of_string (js_String (JArr vs))"
| "js_Number (JObj _) = NaN"
| "js_Number JUndefined = NaN"

definition as_string :: "json \<Rightarrow> string option" where
  "as_string v = (case v of JStr s \<Rightarrow> Some s | _ \<Rightarrow> None)"

section \<open>The Horizon client\<close>

record HorizonTransaction =
  ht_hash :: string
  ht_ledger :: jsnum
  ht_successful :: bool
  ht_memoType :: string
  ht_memo :: "string option"
  ht_sourceAccount :: "string option"

datatype HorizonFailure = not_found | unavailable

datatype 'a HorizonResult = HOk 'a | HFail HorizonFailure string

text \<open>What a request yields: a status, with the body when it parses, or an error thrown by \<open>fetch\<close>.\<close>

datatype http_response = HttpOk json | HttpStatus nat | HttpError string

definition getJson :: "(string \<Rightarrow> http_response) \<Rightarrow> string \<Rightarrow> string \<Rightarrow> json HorizonResult" where
  "getJson fetch baseUrl path = (let url = baseUrl @ path in
     case fetch url of
       HttpStatus status \<Rightarrow>
         if status = 404 then HFail not_found (url @ '' returned 404'')
         else HFail unavailable (url @ '' returned '' @ int_to_string (int status))
     | HttpOk body \<Rightarrow> HOk body
     | HttpError detail \<Rightarrow> HFail unavailable detail)"

text \<open>Reading a property of a null body throws; that exception is the \<open>Inl\<close> of the result.\<close>

definition null_body :: exception where
  "null_body = InternalServerErrorException ''Cannot read properties of null''"

definition horizon_transaction ::
  "(string \<Rightarrow> string) \<Rightarrow> (string \<Rightarrow> json HorizonResult) \<Rightarrow> string \<Rightarrow> HorizonTransaction HorizonResult result" where
  "horizon_transaction encodeURIComponent get hash =
    (case get (''/transactions/'' @ encodeURIComponent hash) of
      HFail reason detail \<Rightarrow> return (HFail reason detail)
    | HOk body \<Rightarrow> if body = JNull then throw null_body
        else return (HOk \<lparr>ht_hash = js_String (coalesce (jfield ''hash'' body) (JStr hash)),
          ht_ledger = js_Number (coalesce (jfield ''ledger'' body)
            (coalesce (jfield ''ledger_attr'' body) (JNum (Fin 0)))),
          ht_successful = (jfield ''successful'' body = JBool True),
          ht_memoType = js_String (coalesce (jfield ''memo_type'' body) (JStr ''none'')),
          ht_memo = as_string (jfield ''memo'' body),
          ht_sourceAccount = as_string (jfield ''source_account'' body)\<rparr>))"

definition horizon_accountData ::
  "(string \<Rightarrow> string) \<Rightarrow> (string \<Rightarrow> json HorizonResult) \<Rightarrow> string \<Rightarrow> (string \<Rightarrow> string option) HorizonResult result" where
  "horizon_accountData encodeURIComponent get accountId =
    (case get (''/accounts/'' @ encodeURIComponent accountId) of
      HFail reason detail \<Rightarrow> return (HFail reason detail)
    | HOk body \<Rightarrow> if body = JNull then throw null_body
        else (case jfield ''data'' body of
            JObj kvs \<Rightarrow> return (HOk (\<lambda>k. as_string (jfield k (JObj kvs))))
          | _ \<Rightarrow> return (HOk Map.empty)))"

section \<open>Confirmation\<close>

record LedgerConfirmation =
  lc_checked :: bool
  lc_rootMatchesLedger :: "bool option"
  lc_memoMatches :: bool
  lc_dataEntryMatches :: bool
  lc_ledger :: "jsnum option"
  lc_checkedAt :: string
  lc_detail :: string

record AnchorToVerify =
  av_stellarTxHash :: string
  av_merkleRoot :: string
  av_dataEntryKey :: string

definition unchecked_confirmation :: "instant \<Rightarrow> string \<Rightarrow> LedgerConfirmation" where
  "unchecked_confirmation now detail = \<lparr>lc_checked = False, lc_rootMatchesLedger = None, lc_memoMatches = False,
     lc_dataEntryMatches = False, lc_ledger = None, lc_checkedAt = toISOString now, lc_detail = detail\<rparr>"

definition base64ToHex :: "string \<Rightarrow> string" where
  "base64ToHex value = hex_encode (base64_decode value)"

definition ledger_or_null :: "jsnum \<Rightarrow> jsnum option" where
  "ledger_or_null n = (if is_nan n \<or> (is_finite n \<and> rval n = 0) then None else Some n)"

definition dataEntryCarriesRoot ::
  "(string \<Rightarrow> (string \<Rightarrow> string option) HorizonResult result) \<Rightarrow> string option \<Rightarrow> string \<Rightarrow> string \<Rightarrow> bool result" where
  "dataEntryCarriesRoot accountData sourceAccount dataEntryKey merkleRoot = (case sourceAccount of
      None \<Rightarrow> return False
    | Some account \<Rightarrow> if account = '''' then return False
        else (case accountData account of
            Inl e \<Rightarrow> throw e
          | Inr (HFail _ _) \<Rightarrow> return False
          | Inr (HOk entries) \<Rightarrow> (case entries dataEntryKey of
              None \<Rightarrow> return False
            | Some value \<Rightarrow> return (base64ToHex value = merkleRoot))))"

text \<open>The two reads a verification makes, as the answers of Horizon at that moment.\<close>

record horizon =
  hz_transaction :: "string \<Rightarrow> HorizonTransaction HorizonResult result"
  hz_accountData :: "string \<Rightarrow> (string \<Rightarrow> string option) HorizonResult result"

definition bool_text :: "bool \<Rightarrow> string" where
  "bool_text b = (if b then ''true'' else ''false'')"

definition readFromLedger :: "horizon \<Rightarrow> instant \<Rightarrow> AnchorToVerify \<Rightarrow> LedgerConfirmation result" where
  "readFromLedger hz now anchor = (case hz_transaction hz (av_stellarTxHash anchor) of
      Inl e \<Rightarrow> throw e
    | Inr (HFail reason detail) \<Rightarrow>
        if reason = not_found
        then return ((unchecked_confirmation now (''Horizon has no transaction '' @ av_stellarTxHash anchor))
          \<lparr>lc_checked := True, lc_rootMatchesLedger := Some False\<rparr>)
        else return (unchecked_confirmation now (''could not reach Horizon: '' @ detail))
    | Inr (HOk tx) \<Rightarrow>
        if \<not> ht_successful tx
        then return ((unchecked_confirmation now (''transaction '' @ av_stellarTxHash anchor @ '' did not succeed on the ledger''))
          \<lparr>lc_checked := True, lc_rootMatchesLedger := Some False, lc_ledger := ledger_or_null (ht_ledger tx)\<rparr>)
        else (let memoMatches = (ht_memoType tx = ''hash''
              \<and> (case ht_memo tx of None \<Rightarrow> False | Some memo \<Rightarrow> base64ToHex memo = av_merkleRoot anchor))
          in case dataEntryCarriesRoot (hz_accountData hz) (ht_sourceAccount tx) (av_dataEntryKey anchor) (av_merkleRoot anchor) of
              Inl e \<Rightarrow> throw e
            | Inr dataEntryMatches \<Rightarrow> (let rootMatchesLedger = (memoMatches \<or> dataEntryMatches) in
                return \<lparr>lc_checked = True, lc_rootMatchesLedger = Some rootMatchesLedger,
                  lc_memoMatches = memoMatches, lc_dataEntryMatches = dataEntryMatches,
                  lc_ledger = ledger_or_null (ht_ledger tx), lc_checkedAt = toISOString now,
                  lc_detail = (if rootMatchesLedger
                    then ''ledger confirms the sealed root (memo='' @ bool_text memoMatches
                      @ '', dataEntry='' @ bool_text dataEntryMatches @ '')''
                    else ''transaction '' @ av_stellarTxHash anchor @ '' does not carry the sealed root'')\<rparr>)))"

section \<open>Cache and reads in flight\<close>

definition cacheKey :: "AnchorToVerify \<Rightarrow> string" where
  "cacheKey anchor = av_stellarTxHash anchor @ '':'' @ av_merkleRoot anchor"

record verifier =
  confirmed :: "string \<Rightarrow> LedgerConfirmation option"
  inFlight :: "string \<Rightarrow> AnchorToVerify option"

definition fresh_verifier :: verifier where
  "fresh_verifier = \<lparr>confirmed = Map.empty, inFlight = Map.empty\<rparr>"

text \<open>What a call does before its first suspension: answer, join a read, or start one.\<close>

datatype verify_call = Cached LedgerConfirmation | Joined AnchorToVerify | Started

definition verify_start :: "AnchorToVerify \<Rightarrow> verifier \<Rightarrow> verify_call \<times> verifier" where
  "verify_start anchor st = (let key = cacheKey anchor in
     case confirmed st key of
       Some cached \<Rightarrow> (Cached cached, st)
     | None \<Rightarrow> (case inFlight st key of
         Some existing \<Rightarrow> (Joined existing, st)
       | None \<Rightarrow> (Started, st\<lparr>inFlight := (inFlight st)(key \<mapsto> anchor)\<rparr>)))"

text \<open>What happens when a read settles: a positive is cached, the entry in flight goes either way.\<close>

definition verify_settle :: "string \<Rightarrow> LedgerConfirmation result \<Rightarrow> verifier \<Rightarrow> verifier" where
  "verify_settle key outcome st =
    (let st' = (case outcome of
         Inl _ \<Rightarrow> st
       | Inr confirmation \<Rightarrow> if lc_rootMatchesLedger confirmation = Some True
           then st\<lparr>confirmed := (confirmed st)(key \<mapsto> confirmation)\<rparr> else st)
     in st'\<lparr>inFlight := (inFlight st')(key := None)\<rparr>)"

text \<open>A call with nothing else running: start, read, settle.\<close>

definition verify_ledger :: "horizon \<Rightarrow> instant \<Rightarrow> AnchorToVerify \<Rightarrow> verifier \<Rightarrow> LedgerConfirmation result \<times> verifier" where
  "verify_ledger hz now anchor st = (case verify_start anchor st of
      (Cached c, st') \<Rightarrow> (return c, st')
    | (_, st') \<Rightarrow> (let outcome = readFromLedger hz now anchor
        in (outcome, verify_settle (cacheKey anchor) outcome st')))"

section \<open>What a confirmation says\<close>

lemma unchecked_iff:
  "readFromLedger hz now a = Inr c \<Longrightarrow> lc_checked c \<longleftrightarrow> lc_rootMatchesLedger c \<noteq> None"
  by (auto simp: readFromLedger_def unchecked_confirmation_def Let_def split: sum.splits HorizonResult.splits if_splits)

definition carries_root :: "horizon \<Rightarrow> AnchorToVerify \<Rightarrow> bool" where
  "carries_root hz a = (\<exists>tx. hz_transaction hz (av_stellarTxHash a) = Inr (HOk tx) \<and> ht_successful tx \<and>
     (ht_memoType tx = ''hash'' \<and> (\<exists>m. ht_memo tx = Some m \<and> base64ToHex m = av_merkleRoot a)
      \<or> (\<exists>acc entries v. ht_sourceAccount tx = Some acc \<and> acc \<noteq> '''' \<and> hz_accountData hz acc = Inr (HOk entries)
           \<and> entries (av_dataEntryKey a) = Some v \<and> base64ToHex v = av_merkleRoot a)))"

lemma dataEntry_iff:
  "dataEntryCarriesRoot ad acc k r = Inr True \<longleftrightarrow>
    (\<exists>a entries v. acc = Some a \<and> a \<noteq> '''' \<and> ad a = Inr (HOk entries) \<and> entries k = Some v \<and> base64ToHex v = r)"
  by (auto simp: dataEntryCarriesRoot_def split: option.splits sum.splits HorizonResult.splits)

lemma confirmation_carries:
  assumes "readFromLedger hz now a = Inr c" and "lc_rootMatchesLedger c = Some True"
  shows "carries_root hz a"
proof -
  obtain tx where tx: "hz_transaction hz (av_stellarTxHash a) = Inr (HOk tx)" "ht_successful tx"
    using assms by (auto simp: readFromLedger_def unchecked_confirmation_def split: sum.splits HorizonResult.splits if_splits)
  obtain d where d: "dataEntryCarriesRoot (hz_accountData hz) (ht_sourceAccount tx) (av_dataEntryKey a) (av_merkleRoot a) = Inr d"
    using assms tx by (auto simp: readFromLedger_def Let_def split: sum.splits)
  have "ht_memoType tx = ''hash'' \<and> (\<exists>m. ht_memo tx = Some m \<and> base64ToHex m = av_merkleRoot a) \<or> d"
    using assms tx d by (auto simp: readFromLedger_def Let_def split: option.splits)
  then show ?thesis
    using tx d dataEntry_iff[of "hz_accountData hz" "ht_sourceAccount tx" "av_dataEntryKey a" "av_merkleRoot a"]
    unfolding carries_root_def by (intro exI[of _ tx]) auto
qed

lemma outage_is_not_a_mismatch:
  assumes "readFromLedger hz now a = Inr c" and "lc_rootMatchesLedger c = Some False"
  shows "\<forall>d. hz_transaction hz (av_stellarTxHash a) \<noteq> Inr (HFail unavailable d)"
  using assms by (auto simp: readFromLedger_def unchecked_confirmation_def split: if_splits)

section \<open>Interleavings\<close>

text \<open>
  Calls and settling reads in any order.  A read settles with what Horizon
  answers at that moment, whatever that is.
\<close>

inductive verifier_step :: "verifier \<Rightarrow> verifier \<Rightarrow> bool" where
  call: "verify_start a st = (c, st') \<Longrightarrow> verifier_step st st'"
| settle: "inFlight st key = Some a \<Longrightarrow> verifier_step st (verify_settle key (readFromLedger hz now a) st)"

inductive_simps verifier_step_iff: "verifier_step st st'"

inductive verifier_reach :: "verifier \<Rightarrow> bool" where
  init: "verifier_reach fresh_verifier"
| step: "verifier_reach st \<Longrightarrow> verifier_step st st' \<Longrightarrow> verifier_reach st'"

definition verifier_ok :: "verifier \<Rightarrow> bool" where
  "verifier_ok st = ((\<forall>k c. confirmed st k = Some c \<longrightarrow> lc_rootMatchesLedger c = Some True \<and> lc_checked c
       \<and> inFlight st k = None)
     \<and> (\<forall>k a. inFlight st k = Some a \<longrightarrow> cacheKey a = k))"

lemma verify_start_ok: "verifier_ok st \<Longrightarrow> verify_start a st = (c, st') \<Longrightarrow> verifier_ok st'"
  by (auto simp: verify_start_def verifier_ok_def Let_def split: option.splits if_splits)

lemma verify_settle_ok:
  "verifier_ok st \<Longrightarrow> inFlight st k = Some a \<Longrightarrow> verifier_ok (verify_settle k (readFromLedger hz now a) st)"
  using unchecked_iff[of hz now a]
  by (auto simp: verify_settle_def verifier_ok_def Let_def split: sum.splits)

lemma verifier_reach_ok: "verifier_reach st \<Longrightarrow> verifier_ok st"
proof (induction rule: verifier_reach.induct)
  case init
  show ?case by (simp add: fresh_verifier_def verifier_ok_def)
next
  case (step st st')
  then show ?case by (auto simp: verifier_step_iff intro: verify_start_ok verify_settle_ok)
qed

text \<open>A confirmation once cached stays, and is what every later call answers.\<close>

lemma confirmed_stays:
  assumes "verifier_reach st" and "verifier_step st st'" and "confirmed st k = Some c"
  shows "confirmed st' k = Some c"
  using assms(2,3) verifier_reach_ok[OF assms(1)]
  by (auto simp: verifier_step_iff verify_start_def verify_settle_def verifier_ok_def Let_def
      split: option.splits sum.splits)

end
