(* ===== verification/Batches.thy ===== *)
theory Batches
  imports Events Merkle AnchorAttempts Ledger
begin

text \<open>
  \<open>apps/backend/src/batches/batches.service.ts\<close>: the life of a batch from open to
  sold, its membership, the seal that freezes it under a Merkle root, the anchor
  that links the root to the ledger, and the verification an auditor runs.  Each
  operation that the code runs in one database transaction is one step: it returns
  a new state or an exception and no change.
\<close>

section \<open>Reads\<close>

fun LEGAL_TRANSITIONS :: "BatchStatus \<Rightarrow> BatchStatus list" where
  "LEGAL_TRANSITIONS open = [sealed]"
| "LEGAL_TRANSITIONS sealed = [processed]"
| "LEGAL_TRANSITIONS processed = [sold]"
| "LEGAL_TRANSITIONS sold = []"

definition batch_events :: "string \<Rightarrow> db \<Rightarrow> CollectionEventEntity list" where
  "batch_events batchId s = find_all (\<lambda>e. e_batchId e = Some batchId) (events s)"

definition orderedEvents :: "string \<Rightarrow> db \<Rightarrow> CollectionEventEntity list" where
  "orderedEvents batchId s = js_sort event_order (batch_events batchId s)"

definition leavesOf :: "CollectionEventEntity list \<Rightarrow> string list" where
  "leavesOf es = map (\<lambda>e. hashLeaf (e_payloadHash e)) es"

definition total_weight :: "CollectionEventEntity list \<Rightarrow> jsnum" where
  "total_weight es = js_quantise 3 (js_sum (map e_weightKg es))"

definition batch_not_found :: "string \<Rightarrow> exception" where
  "batch_not_found batchId = NotFoundException (''batch '' @ batchId @ '' not found'')"

definition findOne_batch :: "string \<Rightarrow> db \<Rightarrow> BatchEntity result" where
  "findOne_batch batchId s = (case get_by b_id batchId (batches s) of
      None \<Rightarrow> throw (batch_not_found batchId) | Some batch \<Rightarrow> return batch)"

definition anchor_of :: "string \<Rightarrow> db \<Rightarrow> AnchorRecordEntity option" where
  "anchor_of batchId s = get_by a_batchId batchId (anchors s)"

definition created_desc :: "BatchEntity \<Rightarrow> BatchEntity \<Rightarrow> int" where
  "created_desc a b = b_createdAt b - b_createdAt a"

definition list_batches :: "BatchStatus option \<Rightarrow> db \<Rightarrow> (BatchEntity \<times> AnchorRecordEntity option) list" where
  "list_batches status s = map (\<lambda>b. (b, anchor_of (b_id b) s))
     (js_sort created_desc (find_all (\<lambda>b. opt_matches status (\<lambda>st. b_status b = st)) (batches s)))"

definition eventsOf :: "string \<Rightarrow> db \<Rightarrow> CollectionEventEntity list result" where
  "eventsOf batchId s = (case findOne_batch batchId s of
      Inl e \<Rightarrow> throw e | Inr _ \<Rightarrow> return (orderedEvents batchId s))"

section \<open>Membership\<close>

definition create_batch :: "instant \<Rightarrow> string \<Rightarrow> string \<Rightarrow> string \<Rightarrow> BatchEntity op" where
  "create_batch now newId hubId material s = (case assertOpenable material s of
      Inl e \<Rightarrow> throw e
    | Inr _ \<Rightarrow> if get_by h_id hubId (hubs s) = None then throw FOREIGN_KEY_VIOLATION
        else (let batch = \<lparr>b_id = newId, b_hubId = hubId, b_material = material, b_status = open,
             b_totalWeightKg = Fin 0, b_eventCount = 0, b_merkleRoot = None, b_sealedAt = None, b_createdAt = now\<rparr>
          in return (batch, s\<lparr>batches := insert_row batch (batches s)\<rparr>)))"

text \<open>The totals of the rows as the database returns them, in table order.\<close>

definition recomputeTotals :: "string \<Rightarrow> db \<Rightarrow> jsnum \<times> nat" where
  "recomputeTotals batchId s = (let rows = batch_events batchId s in (total_weight rows, length rows))"

definition store_totals :: "string \<Rightarrow> db \<Rightarrow> db" where
  "store_totals batchId s = (let (total, n) = recomputeTotals batchId s
     in s\<lparr>batches := patch_by b_id batchId (\<lambda>b. b\<lparr>b_totalWeightKg := total, b_eventCount := n\<rparr>) (batches s)\<rparr>)"

definition addEvents :: "string \<Rightarrow> string list \<Rightarrow> BatchEntity op" where
  "addEvents batchId eventIds s = (case findOne_batch batchId s of
      Inl e \<Rightarrow> throw e
    | Inr batch \<Rightarrow>
        if b_status batch \<noteq> open then throw (ConflictException
          (''batch '' @ batchId @ '' is '' @ status_name (b_status batch) @ '', not open''))
        else (let
            candidates = find_all (\<lambda>e. e_id e \<in> set eventIds \<and> e_batchId e = None \<and> \<not> e_quarantined e
              \<and> e_hubId e = b_hubId batch) (events s);
            found = map e_id candidates;
            rejected = filter (\<lambda>i. i \<notin> set found) eventIds
          in if rejected \<noteq> [] then throw (BadRequestException
               (''events not eligible for this batch (already batched, quarantined, or at another hub): ''
                 @ join_with '', '' rejected))
             else (let mismatched = filter (\<lambda>c. e_material c \<noteq> b_material batch) candidates
               in if mismatched \<noteq> [] then throw (BadRequestException
                    (''events do not match batch material '' @ b_material batch @ '': ''
                      @ join_with '', '' (map e_id mismatched)))
                  else (let
                      s1 = s\<lparr>events := update_where (\<lambda>e. e_id e \<in> set found) (\<lambda>e. e\<lparr>e_batchId := Some batchId\<rparr>) (events s)\<rparr>;
                      s2 = store_totals batchId s1
                    in case findOne_batch batchId s2 of Inl e \<Rightarrow> throw e | Inr b \<Rightarrow> return (b, s2)))))"

definition removeEvent :: "string \<Rightarrow> string \<Rightarrow> BatchEntity op" where
  "removeEvent batchId eventId s = (case findOne_batch batchId s of
      Inl e \<Rightarrow> throw e
    | Inr batch \<Rightarrow>
        if b_status batch \<noteq> open then throw (ConflictException
          (''batch '' @ batchId @ '' is '' @ status_name (b_status batch) @ ''; sealed membership cannot change''))
        else if \<not> exists_where (\<lambda>e. e_id e = eventId \<and> e_batchId e = Some batchId) (events s)
        then throw (NotFoundException (''event '' @ eventId @ '' is not in batch '' @ batchId))
        else (let
            s1 = s\<lparr>events := update_where (\<lambda>e. e_id e = eventId \<and> e_batchId e = Some batchId)
              (\<lambda>e. e\<lparr>e_batchId := None\<rparr>) (events s)\<rparr>;
            s2 = store_totals batchId s1
          in case findOne_batch batchId s2 of Inl e \<Rightarrow> throw e | Inr b \<Rightarrow> return (b, s2)))"

section \<open>Sealing and status\<close>

definition seal :: "instant \<Rightarrow> string \<Rightarrow> BatchEntity op" where
  "seal now batchId s = (case findOne_batch batchId s of
      Inl e \<Rightarrow> throw e
    | Inr batch \<Rightarrow>
        if b_status batch \<noteq> open then throw (ConflictException
          (''batch '' @ batchId @ '' is already '' @ status_name (b_status batch)))
        else (let es = orderedEvents batchId s in
          if es = [] then throw (BadRequestException ''cannot seal an empty batch'')
          else (let quarantined = filter e_quarantined es in
            if quarantined \<noteq> [] then throw (ConflictException
              (''batch contains quarantined events: '' @ join_with '', '' (map e_id quarantined)))
            else (case merkleRootHex (leavesOf es) of
                Inl e \<Rightarrow> throw e
              | Inr merkleRoot \<Rightarrow> (let
                  s' = s\<lparr>batches := patch_by b_id batchId (\<lambda>b. b\<lparr>b_status := sealed, b_sealedAt := Some now,
                     b_merkleRoot := Some merkleRoot, b_totalWeightKg := total_weight es,
                     b_eventCount := length es\<rparr>) (batches s)\<rparr>
                in case findOne_batch batchId s' of Inl e \<Rightarrow> throw e | Inr b \<Rightarrow> return (b, s'))))))"

definition advanceStatus :: "string \<Rightarrow> BatchStatus \<Rightarrow> BatchEntity op" where
  "advanceStatus batchId to s = (case findOne_batch batchId s of
      Inl e \<Rightarrow> throw e
    | Inr batch \<Rightarrow> (let allowed = LEGAL_TRANSITIONS (b_status batch) in
        if to \<notin> set allowed then throw (ConflictException
          (''illegal transition '' @ status_name (b_status batch) @ '' -> '' @ status_name to @ '' (allowed: ''
            @ (let t = join_with '', '' (map status_name allowed) in if t = '''' then ''none'' else t) @ '')''))
        else if to = sealed then throw (ConflictException
          ''a batch is sealed by POST /batches/:id/seal, which computes and freezes its Merkle root'')
        else if to = processed \<and> b_merkleRoot batch = None then throw (ConflictException
          ''batch must be sealed before it can be processed'')
        else (let s' = s\<lparr>batches := patch_by b_id batchId (\<lambda>b. b\<lparr>b_status := to\<rparr>) (batches s)\<rparr>
          in case findOne_batch batchId s' of Inl e \<Rightarrow> throw e | Inr b \<Rightarrow> return (b, s'))))"

section \<open>Anchoring\<close>

record PendingAnchorBatch =
  pb_id :: string
  pb_merkleRoot :: string
  pb_totalWeightKg :: jsnum
  pb_eventCount :: nat
  pb_failedAttempts :: nat
  pb_lastFailureDetail :: "string option"

definition sealed_asc :: "BatchEntity \<Rightarrow> BatchEntity \<Rightarrow> int" where
  "sealed_asc a b = (case (b_sealedAt a, b_sealedAt b) of
      (None, None) \<Rightarrow> 0 | (None, Some _) \<Rightarrow> 1 | (Some _, None) \<Rightarrow> -1 | (Some x, Some y) \<Rightarrow> x - y)"

definition unanchored :: "(BatchStatus \<Rightarrow> bool) \<Rightarrow> db \<Rightarrow> BatchEntity list" where
  "unanchored p s = js_sort sealed_asc
     (find_all (\<lambda>b. p (b_status b) \<and> anchor_of (b_id b) s = None \<and> b_merkleRoot b \<noteq> None) (batches s))"

definition pendingAnchor :: "instant \<Rightarrow> db \<Rightarrow> PendingAnchorBatch list" where
  "pendingAnchor now s = (let rows = unanchored (\<lambda>st. st = sealed) s;
      summaries = summariesFor (map b_id rows) s
    in map (\<lambda>b. let summary = summaries (b_id b) in
         \<lparr>pb_id = b_id b, pb_merkleRoot = with_default (b_merkleRoot b) '''', pb_totalWeightKg = b_totalWeightKg b,
          pb_eventCount = b_eventCount b,
          pb_failedAttempts = (case summary of None \<Rightarrow> 0 | Some x \<Rightarrow> s_failures x),
          pb_lastFailureDetail = (case summary of None \<Rightarrow> None | Some x \<Rightarrow> s_lastDetail x)\<rparr>)
       (filter (\<lambda>b. isDueForRetry (summaries (b_id b)) now) rows))"

record AwaitingAnchor =
  aw_batchId :: string
  aw_sealedAt :: "string option"
  aw_totalWeightKg :: jsnum
  aw_eventCount :: nat
  aw_failedAttempts :: nat
  aw_lastOutcome :: "AnchorAttemptOutcome option"
  aw_lastAttemptAt :: "string option"
  aw_lastDetail :: "string option"
  aw_nextAttemptAt :: "string option"
  aw_stuck :: bool

record AnchorHealth =
  hl_checkedAt :: string
  hl_awaitingAnchor :: nat
  hl_stuck :: nat
  hl_unanchoredWeightKg :: jsnum
  hl_batches :: "AwaitingAnchor list"

definition anchorHealth :: "instant \<Rightarrow> db \<Rightarrow> AnchorHealth" where
  "anchorHealth now s = (let rows = unanchored (\<lambda>st. st \<noteq> open) s;
      summaries = summariesFor (map b_id rows) s;
      bs = map (\<lambda>b. let summary = summaries (b_id b) in
        \<lparr>aw_batchId = b_id b, aw_sealedAt = map_option toISOString (b_sealedAt b),
         aw_totalWeightKg = b_totalWeightKg b, aw_eventCount = b_eventCount b,
         aw_failedAttempts = (case summary of None \<Rightarrow> 0 | Some x \<Rightarrow> s_failures x),
         aw_lastOutcome = Option.bind summary s_lastOutcome,
         aw_lastAttemptAt = map_option toISOString (Option.bind summary s_lastAttemptAt),
         aw_lastDetail = Option.bind summary s_lastDetail,
         aw_nextAttemptAt = map_option toISOString (nextAttemptAt summary),
         aw_stuck = isStuck summary\<rparr>) rows
    in \<lparr>hl_checkedAt = toISOString now, hl_awaitingAnchor = length bs,
        hl_stuck = length (filter aw_stuck bs),
        hl_unanchoredWeightKg = js_quantise 3 (js_sum (map aw_totalWeightKg bs)),
        hl_batches = bs\<rparr>)"

record RecordAnchorDto =
  an_merkleRoot :: string
  an_stellarTxHash :: string
  an_stellarLedger :: int
  an_network :: StellarNetwork
  an_dataEntryKey :: string
  an_anchoredAt :: string

definition already_anchored :: "string \<Rightarrow> AnchorRecordEntity \<Rightarrow> exception" where
  "already_anchored batchId a =
    ConflictException (''batch '' @ batchId @ '' is already anchored by tx '' @ a_stellarTxHash a)"

definition recordAnchor ::
  "(string \<Rightarrow> instant option) \<Rightarrow> instant \<Rightarrow> string \<Rightarrow> string \<Rightarrow> string \<Rightarrow> RecordAnchorDto \<Rightarrow> AnchorRecordEntity op" where
  "recordAnchor parse_date now anchorId attemptId batchId input s = (case findOne_batch batchId s of
      Inl e \<Rightarrow> throw e
    | Inr batch \<Rightarrow>
        if b_status batch = open \<or> b_merkleRoot batch = None \<or> b_merkleRoot batch = Some ''''
        then throw (ConflictException ''cannot anchor a batch that has not been sealed'')
        else if b_merkleRoot batch \<noteq> Some (an_merkleRoot input) then throw (ConflictException
          (''anchored root '' @ an_merkleRoot input @ '' does not match sealed root '' @ with_default (b_merkleRoot batch) ''''))
        else (case anchor_of batchId s of
            Some existing \<Rightarrow> if a_stellarTxHash existing = an_stellarTxHash input then return (existing, s)
              else throw (already_anchored batchId existing)
          | None \<Rightarrow> (case parse_date (an_anchoredAt input) of
              None \<Rightarrow> throw INVALID_DATE
            | Some anchoredAt \<Rightarrow>
                if exists_where (\<lambda>a. a_stellarTxHash a = an_stellarTxHash input) (anchors s) then throw UNIQUE_VIOLATION
                else (let saved = \<lparr>a_id = anchorId, a_batchId = batchId, a_merkleRoot = an_merkleRoot input,
                     a_stellarTxHash = an_stellarTxHash input, a_stellarLedger = an_stellarLedger input,
                     a_network = an_network input, a_dataEntryKey = an_dataEntryKey input, a_anchoredAt = anchoredAt\<rparr>;
                   s1 = s\<lparr>anchors := insert_row saved (anchors s)\<rparr>;
                   (_, s2) = record_attempt now attemptId batchId
                     \<lparr>ra_outcome = succeeded, ra_detail = Some (''anchored in ledger '' @ int_to_string (an_stellarLedger input)),
                      ra_stellarTxHash = Some (an_stellarTxHash input)\<rparr> s1
                 in return (saved, s2)))))"

definition recordAnchorFailure ::
  "instant \<Rightarrow> string \<Rightarrow> string \<Rightarrow> RecordedAttempt \<Rightarrow> AnchorAttemptEntity op" where
  "recordAnchorFailure now newId batchId input s = (case findOne_batch batchId s of
      Inl e \<Rightarrow> throw e
    | Inr batch \<Rightarrow>
        if b_status batch = open \<or> b_merkleRoot batch = None \<or> b_merkleRoot batch = Some ''''
        then throw (ConflictException ''cannot record an anchor attempt for an unsealed batch'')
        else (case anchor_of batchId s of
            Some anchored \<Rightarrow> throw (already_anchored batchId anchored)
          | None \<Rightarrow> return (record_attempt now newId batchId input s)))"

definition anchorAttemptsFor :: "string \<Rightarrow> db \<Rightarrow> AnchorAttemptEntity list result" where
  "anchorAttemptsFor batchId s = (case findOne_batch batchId s of
      Inl e \<Rightarrow> throw e | Inr _ \<Rightarrow> return (historyFor batchId 20 s))"

section \<open>Verification\<close>

fun network_name :: "StellarNetwork \<Rightarrow> string" where
  "network_name testnet = ''testnet''"
| "network_name public = ''public''"

definition explorerUrl :: "StellarNetwork \<Rightarrow> string \<Rightarrow> string" where
  "explorerUrl network txHash = ''https://stellar.expert/explorer/''
     @ (if network = public then ''public'' else ''testnet'') @ ''/tx/'' @ txHash"

record EventOnChain =
  eo_network :: StellarNetwork
  eo_txHash :: string
  eo_ledger :: jsnum
  eo_explorerUrl :: string
  eo_rootMatchesLedger :: "bool option"

record EventVerification =
  vf_eventId :: string
  vf_batchId :: string
  vf_leaf :: string
  vf_proof :: "MerkleProofStep list"
  vf_merkleRoot :: string
  vf_proofValid :: bool
  vf_onChain :: "EventOnChain option"

definition to_verify :: "AnchorRecordEntity \<Rightarrow> AnchorToVerify" where
  "to_verify a = \<lparr>av_stellarTxHash = a_stellarTxHash a, av_merkleRoot = a_merkleRoot a, av_dataEntryKey = a_dataEntryKey a\<rparr>"

text \<open>Horizon's ledger sequence when it answered, ours when it did not.\<close>

definition ledger_of :: "AnchorRecordEntity \<Rightarrow> LedgerConfirmation \<Rightarrow> jsnum" where
  "ledger_of a c = with_default (lc_ledger c) (js_of_int (a_stellarLedger a))"

definition event_on_chain :: "AnchorRecordEntity \<Rightarrow> LedgerConfirmation \<Rightarrow> EventOnChain" where
  "event_on_chain a c = \<lparr>eo_network = a_network a, eo_txHash = a_stellarTxHash a, eo_ledger = ledger_of a c,
     eo_explorerUrl = explorerUrl (a_network a) (a_stellarTxHash a), eo_rootMatchesLedger = lc_rootMatchesLedger c\<rparr>"

fun find_index :: "('a \<Rightarrow> bool) \<Rightarrow> 'a list \<Rightarrow> int" where
  "find_index p [] = -1"
| "find_index p (x # xs) = (if p x then 0 else (let i = find_index p xs in if i < 0 then i else i + 1))"

text \<open>The ledger service is the argument \<open>verify\<close>: its answer at the moment of the call.\<close>

definition verifyEvent ::
  "(AnchorToVerify \<Rightarrow> LedgerConfirmation result) \<Rightarrow> string \<Rightarrow> string \<Rightarrow> db \<Rightarrow> EventVerification result" where
  "verifyEvent verify batchId eventId s = (case findOne_batch batchId s of
      Inl e \<Rightarrow> throw e
    | Inr batch \<Rightarrow> (case b_merkleRoot batch of
        None \<Rightarrow> throw (ConflictException (''batch '' @ batchId @ '' has not been sealed''))
      | Some merkleRoot \<Rightarrow>
          if merkleRoot = '''' then throw (ConflictException (''batch '' @ batchId @ '' has not been sealed''))
          else (let es = orderedEvents batchId s; index = find_index (\<lambda>e. e_id e = eventId) es in
            if index < 0 then throw (NotFoundException (''event '' @ eventId @ '' is not in batch '' @ batchId))
            else (let leaves = leavesOf es; leaf = leaves ! nat index in
              case merkleProof leaves index of
                Inl e \<Rightarrow> throw e
              | Inr proof \<Rightarrow> (let anchor = anchor_of batchId s;
                  result = (\<lambda>onChain. \<lparr>vf_eventId = eventId, vf_batchId = batchId, vf_leaf = leaf, vf_proof = proof,
                    vf_merkleRoot = merkleRoot, vf_proofValid = verifyMerkleProof leaf proof merkleRoot,
                    vf_onChain = onChain\<rparr>)
                in case anchor of
                    None \<Rightarrow> return (result None)
                  | Some a \<Rightarrow> (case verify (to_verify a) of
                      Inl e \<Rightarrow> throw e
                    | Inr confirmation \<Rightarrow> return (result (Some (event_on_chain a confirmation)))))))))"

record LedgerOnChain =
  lo_network :: StellarNetwork
  lo_txHash :: string
  lo_ledger :: jsnum
  lo_dataEntryKey :: string
  lo_explorerUrl :: string

record BatchLedgerStatus =
  bl_batchId :: string
  bl_anchored :: bool
  bl_merkleRoot :: "string option"
  bl_onChain :: "LedgerOnChain option"
  bl_confirmation :: "LedgerConfirmation option"

definition ledgerStatus ::
  "(AnchorToVerify \<Rightarrow> LedgerConfirmation result) \<Rightarrow> string \<Rightarrow> db \<Rightarrow> BatchLedgerStatus result" where
  "ledgerStatus verify batchId s = (case findOne_batch batchId s of
      Inl e \<Rightarrow> throw e
    | Inr batch \<Rightarrow> (case anchor_of batchId s of
        None \<Rightarrow> return \<lparr>bl_batchId = batchId, bl_anchored = False, bl_merkleRoot = b_merkleRoot batch,
          bl_onChain = None, bl_confirmation = None\<rparr>
      | Some a \<Rightarrow> (case verify (to_verify a) of
          Inl e \<Rightarrow> throw e
        | Inr confirmation \<Rightarrow> return \<lparr>bl_batchId = batchId, bl_anchored = True, bl_merkleRoot = b_merkleRoot batch,
            bl_onChain = Some \<lparr>lo_network = a_network a, lo_txHash = a_stellarTxHash a,
              lo_ledger = ledger_of a confirmation, lo_dataEntryKey = a_dataEntryKey a,
              lo_explorerUrl = explorerUrl (a_network a) (a_stellarTxHash a)\<rparr>,
            bl_confirmation = Some confirmation\<rparr>)))"

end
