(* ===== verification/BatchInvariant.thy ===== *)
theory BatchInvariant
  imports Batches
begin

text \<open>
  The invariant of batches, events and anchors, and that every batch operation
  keeps it: an open batch has no root and counts its rows; a batch past open has
  the root, the totals and the count of the events it holds; no quarantined event
  is in a batch; an anchor carries the root of a batch past open.
\<close>

section \<open>Order and lookups\<close>

lemma find_index_range: "find_index p xs < int (length xs)" "-1 \<le> find_index p xs"
  by (induction xs) (auto simp: Let_def)

lemma find_index_nonneg:
  "0 \<le> find_index p xs \<longleftrightarrow> (\<exists>x \<in> set xs. p x)"
  by (induction xs) (auto simp: Let_def)

lemma find_index_holds: "0 \<le> find_index p xs \<Longrightarrow> p (xs ! nat (find_index p xs))"
proof (induction xs)
  case (Cons x xs)
  then show ?case by (auto simp: Let_def nat_add_distrib split: if_splits)
qed simp

lemma findOne_batch_eq: "findOne_batch i s = Inr b \<longleftrightarrow> get_by b_id i (batches s) = Some b"
  by (auto simp: findOne_batch_def split: option.splits)

lemma leavesOf_hash64 [simp]: "list_all is_hash64 (leavesOf es)"
  by (simp add: leavesOf_def list_all_iff)

lemma leavesOf_Nil_iff [simp]: "leavesOf es = [] \<longleftrightarrow> es = []"
  by (simp add: leavesOf_def)

lemma length_leavesOf [simp]: "length (leavesOf es) = length es"
  by (simp add: leavesOf_def)

lemma orderedEvents_set [simp]: "set (orderedEvents i s) = {e \<in> set (events s). e_batchId e = Some i}"
  by (simp add: orderedEvents_def batch_events_def)

lemma orderedEvents_Nil_iff: "orderedEvents i s = [] \<longleftrightarrow> batch_events i s = []"
  by (simp add: orderedEvents_def)

section \<open>Invariant\<close>

text \<open>What a batch past open commits to.\<close>

definition sealed_ok :: "db \<Rightarrow> BatchEntity \<Rightarrow> bool" where
  "sealed_ok s b = (let es = orderedEvents (b_id b) s in
     es \<noteq> [] \<and> b_merkleRoot b = Some (level_root (leavesOf es)) \<and> b_totalWeightKg b = total_weight es
     \<and> b_eventCount b = length es \<and> b_sealedAt b \<noteq> None)"

definition open_ok :: "db \<Rightarrow> BatchEntity \<Rightarrow> bool" where
  "open_ok s b = (b_merkleRoot b = None \<and> b_sealedAt b = None
     \<and> (b_totalWeightKg b, b_eventCount b) = recomputeTotals (b_id b) s)"

definition batch_ok :: "db \<Rightarrow> BatchEntity \<Rightarrow> bool" where
  "batch_ok s b = (b_hubId b \<in> h_id ` set (hubs s) \<and> (if b_status b = open then open_ok s b else sealed_ok s b))"

text \<open>An event in a batch is clean and of the hub and material of that batch.\<close>

definition member_ok :: "db \<Rightarrow> CollectionEventEntity \<Rightarrow> bool" where
  "member_ok s e = (case e_batchId e of None \<Rightarrow> True
    | Some i \<Rightarrow> \<not> e_quarantined e \<and>
        (\<exists>b \<in> set (batches s). b_id b = i \<and> e_hubId e = b_hubId b \<and> e_material e = b_material b))"

definition anchor_ok :: "db \<Rightarrow> AnchorRecordEntity \<Rightarrow> bool" where
  "anchor_ok s a = (\<exists>b \<in> set (batches s). b_id b = a_batchId a \<and> b_status b \<noteq> open \<and> b_merkleRoot b = Some (a_merkleRoot a))"

definition batches_ok :: "db \<Rightarrow> bool" where
  "batches_ok s = (distinct (map b_id (batches s)) \<and> (\<forall>b \<in> set (batches s). batch_ok s b)
     \<and> (\<forall>e \<in> set (events s). member_ok s e)
     \<and> distinct (map a_batchId (anchors s)) \<and> distinct (map a_stellarTxHash (anchors s))
     \<and> (\<forall>a \<in> set (anchors s). anchor_ok s a))"

definition core_ok :: "db \<Rightarrow> bool" where
  "core_ok s = (events_ok s \<and> batches_ok s)"

lemma core_okD:
  "core_ok s \<Longrightarrow> events_ok s" "core_ok s \<Longrightarrow> batches_ok s"
  "core_ok s \<Longrightarrow> distinct (map b_id (batches s))" "core_ok s \<Longrightarrow> distinct (map e_id (events s))"
  by (auto simp: core_ok_def batches_ok_def events_ok_def)

lemma level_root_not_empty: "es \<noteq> [] \<Longrightarrow> level_root (leavesOf es) \<noteq> ''''"
  using level_root_hash64[of "leavesOf es"] by (auto simp: is_hash64_def)

lemma sealed_root:
  assumes "core_ok s" and "get_by b_id i (batches s) = Some b" and "b_status b \<noteq> open"
  shows "orderedEvents i s \<noteq> []" and "b_merkleRoot b = Some (level_root (leavesOf (orderedEvents i s)))"
    and "merkleRootHex (leavesOf (orderedEvents i s)) = Inr (level_root (leavesOf (orderedEvents i s)))"
    and "b_totalWeightKg b = total_weight (orderedEvents i s)" and "b_eventCount b = length (orderedEvents i s)"
proof -
  have b: "b \<in> set (batches s)" "b_id b = i" using assms(2) by (auto dest: get_by_SomeD)
  then have ok: "sealed_ok s b"
    using assms(1,3) by (auto simp: core_ok_def batches_ok_def batch_ok_def)
  then show "orderedEvents i s \<noteq> []" "b_merkleRoot b = Some (level_root (leavesOf (orderedEvents i s)))"
    "b_totalWeightKg b = total_weight (orderedEvents i s)" "b_eventCount b = length (orderedEvents i s)"
    using b by (auto simp: sealed_ok_def Let_def)
  then show "merkleRootHex (leavesOf (orderedEvents i s)) = Inr (level_root (leavesOf (orderedEvents i s)))"
    by simp
qed

section \<open>Frames\<close>

lemma batch_ok_cong:
  "batch_events (b_id b) s' = batch_events (b_id b) s \<Longrightarrow> h_id ` set (hubs s) \<subseteq> h_id ` set (hubs s')
    \<Longrightarrow> batch_ok s b \<Longrightarrow> batch_ok s' b"
  by (auto simp: batch_ok_def sealed_ok_def open_ok_def recomputeTotals_def orderedEvents_def Let_def)

lemma batch_events_events:
  "events s' = events s \<Longrightarrow> batch_events i s' = batch_events i s"
  by (simp add: batch_events_def)

lemma member_ok_cong:
  "(\<And>b. b \<in> set (batches s) \<Longrightarrow> \<exists>b' \<in> set (batches s'). b_id b' = b_id b \<and> b_hubId b' = b_hubId b \<and> b_material b' = b_material b)
    \<Longrightarrow> member_ok s e \<Longrightarrow> member_ok s' e"
  unfolding member_ok_def by (auto split: option.splits) metis

text \<open>A change of one batch row that keeps its identity, hub and material.\<close>

lemma patch_batch_rows:
  assumes "\<And>b. b_id (f b) = b_id b \<and> b_hubId (f b) = b_hubId b \<and> b_material (f b) = b_material b"
    and "b \<in> set (batches s)"
  shows "\<exists>b' \<in> set (patch_by b_id i f (batches s)). b_id b' = b_id b \<and> b_hubId b' = b_hubId b \<and> b_material b' = b_material b"
  using patch_byI[OF assms(2), of b_id i f] assms(1)[of b] by (intro bexI[of _ "if b_id b = i then f b else b"]) auto

lemma patched_batches_ok:
  assumes ok: "batches_ok s"
    and f: "\<And>b. b_id (f b) = b_id b \<and> b_hubId (f b) = b_hubId b \<and> b_material (f b) = b_material b"
    and s': "events s' = es" "hubs s' = hubs s" "anchors s' = anchors s" "batches s' = patch_by b_id i f (batches s)"
    and same: "\<And>j. j \<noteq> i \<Longrightarrow> batch_events j s' = batch_events j s"
    and new: "\<And>b. b \<in> set (batches s) \<Longrightarrow> b_id b = i \<Longrightarrow> batch_ok s' (f b)"
    and mem: "\<And>e. e \<in> set es \<Longrightarrow> member_ok s e"
    and anc: "\<And>b. b \<in> set (batches s) \<Longrightarrow> b_id b = i \<Longrightarrow> b_status b \<noteq> open \<Longrightarrow>
        b_status (f b) \<noteq> open \<and> b_merkleRoot (f b) = b_merkleRoot b"
  shows "batches_ok s'"
proof -
  have keys: "map b_id (batches s') = map b_id (batches s)"
    unfolding s'(4) using f by (intro keys_patch_by) blast
  have rows: "batch_ok s' b" if b: "b \<in> set (batches s')" for b
  proof -
    obtain b0 where b0: "b0 \<in> set (batches s)" "b = (if b_id b0 = i then f b0 else b0)"
      by (rule patch_byE[OF b[unfolded s'(4)]])
    show ?thesis
    proof (cases "b_id b0 = i")
      case True
      then show ?thesis using new b0 by simp
    next
      case False
      then have "batch_ok s b" using ok b0 by (simp add: batches_ok_def)
      then show ?thesis using False b0 same s'(2) by (auto intro: batch_ok_cong)
    qed
  qed
  have mems: "member_ok s' e" if "e \<in> set (events s')" for e
  proof (rule member_ok_cong)
    show "member_ok s e" using mem that unfolding s'(1) .
    show "\<exists>b' \<in> set (batches s'). b_id b' = b_id b \<and> b_hubId b' = b_hubId b \<and> b_material b' = b_material b"
      if "b \<in> set (batches s)" for b
      unfolding s'(4) by (rule patch_batch_rows[OF f that])
  qed
  have ancs: "anchor_ok s' a" if a: "a \<in> set (anchors s')" for a
  proof -
    have "anchor_ok s a" using a ok unfolding s'(3) by (simp add: batches_ok_def)
    then obtain b where b: "b \<in> set (batches s)" "b_id b = a_batchId a" "b_status b \<noteq> open" "b_merkleRoot b = Some (a_merkleRoot a)"
      unfolding anchor_ok_def by blast
    define b' where "b' = (if b_id b = i then f b else b)"
    have "b' \<in> set (batches s')" unfolding s'(4) b'_def by (rule patch_byI[OF b(1)])
    moreover have "b_id b' = a_batchId a" "b_status b' \<noteq> open" "b_merkleRoot b' = Some (a_merkleRoot a)"
      using b anc[of b] f by (auto simp: b'_def)
    ultimately show ?thesis by (auto simp: anchor_ok_def)
  qed
  show ?thesis
    using ok keys rows mems ancs by (simp add: batches_ok_def s'(3))
qed


lemma total_weight_Nil [simp]: "total_weight [] = Fin 0"
proof -
  have "gram 0 = Fin 0" by (simp add: gram_def rnd_Fin)
  then show ?thesis using quantise_near[of 0 0] by (simp add: total_weight_def js_sum_def)
qed

section \<open>What each operation does\<close>

lemma store_totals_frames [simp]:
  "events (store_totals i s) = events s" "hubs (store_totals i s) = hubs s" "anchors (store_totals i s) = anchors s"
  "materials (store_totals i s) = materials s" "collectors (store_totals i s) = collectors s"
  "devices (store_totals i s) = devices s" "users (store_totals i s) = users s"
  "attempts (store_totals i s) = attempts s" "transfers (store_totals i s) = transfers s"
  by (simp_all add: store_totals_def Let_def split: prod.split)

lemma store_totals_batches:
  "batches (store_totals i s) = patch_by b_id i
    (\<lambda>b. b\<lparr>b_totalWeightKg := total_weight (batch_events i s), b_eventCount := length (batch_events i s)\<rparr>) (batches s)"
  by (simp add: store_totals_def recomputeTotals_def Let_def)

definition joined :: "string \<Rightarrow> string set \<Rightarrow> db \<Rightarrow> db" where
  "joined i ids s = s\<lparr>events := update_where (\<lambda>e. e_id e \<in> ids) (\<lambda>e. e\<lparr>e_batchId := Some i\<rparr>) (events s)\<rparr>"

definition left_batch :: "string \<Rightarrow> string \<Rightarrow> db \<Rightarrow> db" where
  "left_batch i ev s = s\<lparr>events := update_where (\<lambda>e. e_id e = ev \<and> e_batchId e = Some i) (\<lambda>e. e\<lparr>e_batchId := None\<rparr>) (events s)\<rparr>"

text \<open>The rows an add may take: found, unbatched, clean, of the hub and of the material.\<close>

definition joinable :: "BatchEntity \<Rightarrow> CollectionEventEntity \<Rightarrow> bool" where
  "joinable b e = (e_batchId e = None \<and> \<not> e_quarantined e \<and> e_hubId e = b_hubId b \<and> e_material e = b_material b)"

lemma addEvents_eq:
  assumes "addEvents i ids s = Inr (r, s')"
  obtains b where "get_by b_id i (batches s) = Some b" "b_status b = open"
    "s' = store_totals i (joined i (set ids) s)"
    "\<forall>x \<in> set ids. \<exists>e \<in> set (events s). e_id e = x \<and> joinable b e"
    "distinct (map e_id (events s)) \<longrightarrow> (\<forall>e \<in> set (events s). e_id e \<in> set ids \<longrightarrow> joinable b e)"
proof -
  obtain b where b: "get_by b_id i (batches s) = Some b" "b_status b = open"
    using assms by (auto simp: addEvents_def findOne_batch_eq split: sum.splits if_splits)
  let ?c = "find_all (\<lambda>e. e_id e \<in> set ids \<and> e_batchId e = None \<and> \<not> e_quarantined e \<and> e_hubId e = b_hubId b) (events s)"
  have fb: "findOne_batch i s = Inr b" using b by (simp add: findOne_batch_eq)
  have conds: "filter (\<lambda>x. x \<notin> set (map e_id ?c)) ids = []" "filter (\<lambda>c. e_material c \<noteq> b_material b) ?c = []"
      and s'0: "s' = store_totals i (joined i (set (map e_id ?c)) s)"
    using assms b by (auto simp: addEvents_def fb Let_def joined_def split: if_splits sum.splits)
  have ids: "set (map e_id ?c) = set ids" using conds(1) by (auto simp: filter_empty_conv)
  have s': "s' = store_totals i (joined i (set ids) s)" using s'0 by (simp only: ids)
  have sub: "\<exists>e \<in> set (events s). e_id e = x \<and> joinable b e" if "x \<in> set ids" for x
  proof -
    have "x \<in> set (map e_id ?c)" using that ids by blast
    then show ?thesis using conds(2) by (auto simp: joinable_def filter_empty_conv)
  qed
  moreover have "distinct (map e_id (events s)) \<longrightarrow> (\<forall>e \<in> set (events s). e_id e \<in> set ids \<longrightarrow> joinable b e)"
    using sub by (metis distinct_key_eq)
  ultimately show ?thesis using that b s' by blast
qed

lemma removeEvent_eq:
  assumes "removeEvent i ev s = Inr (r, s')"
  obtains b where "get_by b_id i (batches s) = Some b" "b_status b = open" "s' = store_totals i (left_batch i ev s)"
    "\<exists>e \<in> set (events s). e_id e = ev \<and> e_batchId e = Some i"
  using assms
  by (auto simp: removeEvent_def findOne_batch_eq Let_def left_batch_def exists_where_iff split: sum.splits if_splits)

definition freeze :: "instant \<Rightarrow> string \<Rightarrow> CollectionEventEntity list \<Rightarrow> BatchEntity \<Rightarrow> BatchEntity" where
  "freeze now r es b = b\<lparr>b_status := sealed, b_sealedAt := Some now, b_merkleRoot := Some r,
     b_totalWeightKg := total_weight es, b_eventCount := length es\<rparr>"

lemma seal_eq:
  assumes "seal now i s = Inr (r, s')"
  obtains b where "get_by b_id i (batches s) = Some b" "b_status b = open" "orderedEvents i s \<noteq> []"
    "\<forall>e \<in> set (orderedEvents i s). \<not> e_quarantined e"
    "s' = s\<lparr>batches := patch_by b_id i (freeze now (level_root (leavesOf (orderedEvents i s))) (orderedEvents i s)) (batches s)\<rparr>"
    "r = freeze now (level_root (leavesOf (orderedEvents i s))) (orderedEvents i s) b"
proof -
  obtain b where b: "get_by b_id i (batches s) = Some b" "b_status b = open"
    using assms by (auto simp: seal_def findOne_batch_eq split: sum.splits if_splits)
  have fb: "findOne_batch i s = Inr b" using b by (simp add: findOne_batch_eq)
  have conds: "orderedEvents i s \<noteq> []" "filter e_quarantined (orderedEvents i s) = []"
    using assms b by (auto simp: seal_def fb Let_def split: if_splits)
  let ?f = "freeze now (level_root (leavesOf (orderedEvents i s))) (orderedEvents i s)"
  have r: "merkleRootHex (leavesOf (orderedEvents i s)) = Inr (level_root (leavesOf (orderedEvents i s)))"
    using conds(1) by simp
  have s': "s' = s\<lparr>batches := patch_by b_id i ?f (batches s)\<rparr>" and fo: "findOne_batch i s' = Inr r"
    using assms b conds by (auto simp: seal_def fb r Let_def freeze_def[abs_def] split: if_splits sum.splits)
  have "get_by b_id i (batches s') = Some (?f b)"
    unfolding s' using b by (simp add: get_by_patch_by freeze_def)
  then have "r = ?f b" using fo by (simp add: findOne_batch_eq)
  then show ?thesis using that b conds s' by (auto simp: filter_empty_conv)
qed

lemma advanceStatus_eq:
  assumes "advanceStatus i to s = Inr (r, s')"
  obtains b where "get_by b_id i (batches s) = Some b"
    "(b_status b = sealed \<and> to = processed) \<or> (b_status b = processed \<and> to = sold)"
    "s' = s\<lparr>batches := patch_by b_id i (\<lambda>b. b\<lparr>b_status := to\<rparr>) (batches s)\<rparr>" "r = b\<lparr>b_status := to\<rparr>"
proof -
  obtain b where b: "get_by b_id i (batches s) = Some b"
    using assms by (auto simp: advanceStatus_def findOne_batch_eq split: sum.splits)
  have fb: "findOne_batch i s = Inr b" using b by (simp add: findOne_batch_eq)
  have t: "to \<in> set (LEGAL_TRANSITIONS (b_status b))" "to \<noteq> sealed"
      and s': "s' = s\<lparr>batches := patch_by b_id i (\<lambda>b. b\<lparr>b_status := to\<rparr>) (batches s)\<rparr>" and fo: "findOne_batch i s' = Inr r"
    using assms by (auto simp: advanceStatus_def fb Let_def split: if_splits sum.splits)
  have "get_by b_id i (batches s') = Some (b\<lparr>b_status := to\<rparr>)"
    unfolding s' using b by (simp add: get_by_patch_by)
  then have "r = b\<lparr>b_status := to\<rparr>" using fo by (simp add: findOne_batch_eq)
  moreover have "(b_status b = sealed \<and> to = processed) \<or> (b_status b = processed \<and> to = sold)"
    using t by (cases "b_status b") auto
  ultimately show ?thesis using that b s' by blast
qed

lemma record_attempt_eq:
  assumes "record_attempt now i b input s = (att, s')"
  shows "s' = s\<lparr>attempts := insert_row att (attempts s)\<rparr>" "at_batchId att = b" "at_outcome att = ra_outcome input"
  using assms by (auto simp: record_attempt_def Let_def)

lemma recordAnchor_eq:
  assumes "recordAnchor pd now ai ti i input s = Inr (r, s')"
  obtains (known) "s' = s" "anchor_of i s = Some r" "a_stellarTxHash r = an_stellarTxHash input"
  | (new) b where "get_by b_id i (batches s) = Some b" "b_status b \<noteq> open" "b_merkleRoot b = Some (an_merkleRoot input)"
      "anchor_of i s = None" "\<forall>a \<in> set (anchors s). a_stellarTxHash a \<noteq> an_stellarTxHash input"
      "a_batchId r = i" "a_merkleRoot r = an_merkleRoot input" "a_stellarTxHash r = an_stellarTxHash input"
      "\<exists>att. s' = s\<lparr>anchors := insert_row r (anchors s), attempts := insert_row att (attempts s)\<rparr>
         \<and> at_batchId att = i \<and> at_outcome att = succeeded"
proof -
  obtain b where b: "get_by b_id i (batches s) = Some b"
    using assms by (auto simp: recordAnchor_def findOne_batch_eq split: sum.splits)
  have fb: "findOne_batch i s = Inr b" using b by (simp add: findOne_batch_eq)
  have st: "b_status b \<noteq> open" "b_merkleRoot b = Some (an_merkleRoot input)"
    using assms by (simp_all add: recordAnchor_def fb split: if_splits)
  show ?thesis
  proof (cases "anchor_of i s")
    case (Some a)
    then have "s' = s" "anchor_of i s = Some r" "a_stellarTxHash r = an_stellarTxHash input"
      using assms by (auto simp: recordAnchor_def fb split: if_splits)
    then show ?thesis by (rule known)
  next
    case None
    then obtain t where t: "pd (an_anchoredAt input) = Some t"
      using assms by (auto simp: recordAnchor_def fb split: if_splits option.splits)
    have u: "\<not> exists_where (\<lambda>a. a_stellarTxHash a = an_stellarTxHash input) (anchors s)"
      using assms None t by (simp add: recordAnchor_def fb split: if_splits)
    obtain att s2 where att: "record_attempt now ti i
        \<lparr>ra_outcome = succeeded, ra_detail = Some (''anchored in ledger '' @ int_to_string (an_stellarLedger input)),
         ra_stellarTxHash = Some (an_stellarTxHash input)\<rparr> (s\<lparr>anchors := insert_row r (anchors s)\<rparr>) = (att, s2)"
      by fastforce
    have r: "a_batchId r = i" "a_merkleRoot r = an_merkleRoot input" "a_stellarTxHash r = an_stellarTxHash input"
        "s' = s\<lparr>anchors := insert_row r (anchors s), attempts := insert_row att (attempts s)\<rparr>"
        "at_batchId att = i" "at_outcome att = succeeded"
      using assms None t u att record_attempt_eq[OF att] by (auto simp: recordAnchor_def fb Let_def split: if_splits prod.splits)
    show ?thesis
      using b st None u r by (intro new[of b]) (auto simp: exists_where_iff)
  qed
qed

lemma recordAnchorFailure_eq:
  assumes "recordAnchorFailure now ti i input s = Inr (r, s')"
  obtains b where "get_by b_id i (batches s) = Some b" "b_status b \<noteq> open" "anchor_of i s = None"
    "s' = s\<lparr>attempts := insert_row r (attempts s)\<rparr>" "at_batchId r = i"
  using assms
  by (auto simp: recordAnchorFailure_def findOne_batch_eq record_attempt_def Let_def split: sum.splits if_splits option.splits)

section \<open>Membership changes leave other batches alone\<close>

lemma joined_other:
  assumes "\<forall>e \<in> set (events s). e_id e \<in> ids \<longrightarrow> e_batchId e = None" and "j \<noteq> i"
  shows "batch_events j (joined i ids s) = batch_events j s"
  unfolding batch_events_def joined_def using assms
  by (auto intro!: find_all_update_where_other)

lemma left_other:
  assumes "j \<noteq> i"
  shows "batch_events j (left_batch i ev s) = batch_events j s"
  unfolding batch_events_def left_batch_def using assms
  by (auto intro!: find_all_update_where_other)

lemma joined_frames [simp]:
  "hubs (joined i ids s) = hubs s" "anchors (joined i ids s) = anchors s" "batches (joined i ids s) = batches s"
  "materials (joined i ids s) = materials s"
  by (simp_all add: joined_def)

lemma left_frames [simp]:
  "hubs (left_batch i ev s) = hubs s" "anchors (left_batch i ev s) = anchors s" "batches (left_batch i ev s) = batches s"
  "materials (left_batch i ev s) = materials s"
  by (simp_all add: left_batch_def)

lemma open_after_totals:
  assumes "batches_ok s" and "b \<in> set (batches s)" and "b_id b = i" and "b_status b = open" and "hubs s1 = hubs s"
  shows "batch_ok (store_totals i s1)
    (b\<lparr>b_totalWeightKg := total_weight (batch_events i s1), b_eventCount := length (batch_events i s1)\<rparr>)"
proof -
  have "batch_events i (store_totals i s1) = batch_events i s1"
    by (rule batch_events_events[OF store_totals_frames(1)])
  moreover have "batch_ok s b" using assms(1,2) by (simp add: batches_ok_def)
  ultimately show ?thesis
    using assms(3-5) by (simp add: batch_ok_def open_ok_def recomputeTotals_def Let_def)
qed

lemma unique_batch: "batches_ok s \<Longrightarrow> get_by b_id i (batches s) = Some b \<Longrightarrow> b' \<in> set (batches s) \<Longrightarrow> b_id b' = i \<Longrightarrow> b' = b"
  by (auto simp: batches_ok_def get_by_iff intro: distinct_key_eq)

lemma totals_ok:
  assumes ok: "batches_ok s" and b: "get_by b_id i (batches s) = Some b" "b_status b = open"
    and s1: "hubs s1 = hubs s" "anchors s1 = anchors s" "batches s1 = batches s"
    and same: "\<And>j. j \<noteq> i \<Longrightarrow> batch_events j s1 = batch_events j s"
    and mem: "\<And>e. e \<in> set (events s1) \<Longrightarrow> member_ok s e"
  shows "batches_ok (store_totals i s1)"
proof (rule patched_batches_ok[OF ok, where i = i and es = "events s1"
      and f = "\<lambda>b. b\<lparr>b_totalWeightKg := total_weight (batch_events i s1), b_eventCount := length (batch_events i s1)\<rparr>"])
  show "batches (store_totals i s1) = patch_by b_id i
      (\<lambda>b. b\<lparr>b_totalWeightKg := total_weight (batch_events i s1), b_eventCount := length (batch_events i s1)\<rparr>) (batches s)"
    by (simp add: store_totals_batches s1)
  show "batch_events j (store_totals i s1) = batch_events j s" if "j \<noteq> i" for j
    using same[OF that] by (simp add: batch_events_events[OF store_totals_frames(1)])
  show "batch_ok (store_totals i s1)
      (b'\<lparr>b_totalWeightKg := total_weight (batch_events i s1), b_eventCount := length (batch_events i s1)\<rparr>)"
    if "b' \<in> set (batches s)" "b_id b' = i" for b'
    using that unique_batch[OF ok b(1)] b(2) s1(1) by (intro open_after_totals[OF ok]) auto
  show "member_ok s e" if "e \<in> set (events s1)" for e using mem that .
qed (use s1 in simp_all)

section \<open>Preservation\<close>

lemma addEvents_batches_ok:
  assumes ok: "batches_ok s" and d: "distinct (map e_id (events s))" and add: "addEvents i ids s = Inr (r, s')"
  shows "batches_ok s'"
proof -
  obtain b where b: "get_by b_id i (batches s) = Some b" "b_status b = open"
      and s': "s' = store_totals i (joined i (set ids) s)"
      and j: "\<forall>e \<in> set (events s). e_id e \<in> set ids \<longrightarrow> joinable b e"
    using addEvents_eq[OF add] d by metis
  have bi: "b \<in> set (batches s)" "b_id b = i" using b by (auto dest: get_by_SomeD)
  show ?thesis
    unfolding s'
  proof (rule totals_ok[OF ok b])
    show "batch_events k (joined i (set ids) s) = batch_events k s" if "k \<noteq> i" for k
      using that j by (intro joined_other) (auto simp: joinable_def)
    fix e assume "e \<in> set (events (joined i (set ids) s))"
    then obtain e0 where e0: "e0 \<in> set (events s)" "e = (if e_id e0 \<in> set ids then e0\<lparr>e_batchId := Some i\<rparr> else e0)"
      unfolding joined_def by (auto elim: update_whereE)
    show "member_ok s e"
    proof (cases "e_id e0 \<in> set ids")
      case True
      then have "joinable b e0" using j e0 by blast
      then show ?thesis using True e0 bi by (auto simp: member_ok_def joinable_def)
    next
      case False
      then show ?thesis using e0 ok by (simp add: batches_ok_def)
    qed
  qed simp_all
qed

lemma removeEvent_batches_ok:
  assumes ok: "batches_ok s" and rm: "removeEvent i ev s = Inr (r, s')"
  shows "batches_ok s'"
proof -
  obtain b where b: "get_by b_id i (batches s) = Some b" "b_status b = open" and s': "s' = store_totals i (left_batch i ev s)"
    using removeEvent_eq[OF rm] by metis
  show ?thesis
    unfolding s'
  proof (rule totals_ok[OF ok b])
    fix e assume "e \<in> set (events (left_batch i ev s))"
    then obtain e0 where "e0 \<in> set (events s)" "e = (if e_id e0 = ev \<and> e_batchId e0 = Some i then e0\<lparr>e_batchId := None\<rparr> else e0)"
      unfolding left_batch_def by (auto elim: update_whereE)
    then show "member_ok s e" using ok by (auto simp: batches_ok_def member_ok_def)
  qed (simp_all add: left_other)
qed

lemma seal_batches_ok:
  assumes ok: "batches_ok s" and sl: "seal now i s = Inr (r, s')"
  shows "batches_ok s'"
proof -
  let ?es = "orderedEvents i s"
  obtain b where b: "get_by b_id i (batches s) = Some b" "b_status b = open" and ne: "?es \<noteq> []"
      and s': "s' = s\<lparr>batches := patch_by b_id i (freeze now (level_root (leavesOf ?es)) ?es) (batches s)\<rparr>"
    using seal_eq[OF sl] by metis
  have same: "batch_events j s' = batch_events j s" for j by (simp add: s' batch_events_def)
  then have oe: "orderedEvents j s' = orderedEvents j s" for j by (simp add: orderedEvents_def)
  show ?thesis
  proof (rule patched_batches_ok[OF ok, where i = i and es = "events s" and f = "freeze now (level_root (leavesOf ?es)) ?es"])
    show "batch_ok s' (freeze now (level_root (leavesOf ?es)) ?es b')" if "b' \<in> set (batches s)" "b_id b' = i" for b'
      using that ok ne oe by (auto simp: batch_ok_def sealed_ok_def freeze_def Let_def batches_ok_def s')
    show "b_status (freeze now (level_root (leavesOf ?es)) ?es b') \<noteq> open
        \<and> b_merkleRoot (freeze now (level_root (leavesOf ?es)) ?es b') = b_merkleRoot b'"
      if "b' \<in> set (batches s)" "b_id b' = i" "b_status b' \<noteq> open" for b'
      using that unique_batch[OF ok b(1)] b(2) by auto
  qed (use ok same in \<open>auto simp: s' freeze_def batches_ok_def\<close>)
qed

lemma advanceStatus_batches_ok:
  assumes ok: "batches_ok s" and adv: "advanceStatus i to s = Inr (r, s')"
  shows "batches_ok s'"
proof -
  obtain b where b: "get_by b_id i (batches s) = Some b"
      and t: "(b_status b = sealed \<and> to = processed) \<or> (b_status b = processed \<and> to = sold)"
      and s': "s' = s\<lparr>batches := patch_by b_id i (\<lambda>b. b\<lparr>b_status := to\<rparr>) (batches s)\<rparr>"
    using advanceStatus_eq[OF adv] by metis
  have same: "batch_events j s' = batch_events j s" for j by (simp add: s' batch_events_def)
  then have oe: "orderedEvents j s' = orderedEvents j s" for j by (simp add: orderedEvents_def)
  have to: "to \<noteq> open" "b_status b \<noteq> open" using t by auto
  show ?thesis
  proof (rule patched_batches_ok[OF ok, where i = i and es = "events s" and f = "\<lambda>b. b\<lparr>b_status := to\<rparr>"])
    show "batch_ok s' (b'\<lparr>b_status := to\<rparr>)" if b': "b' \<in> set (batches s)" "b_id b' = i" for b'
    proof -
      have "b' = b" using b' unique_batch[OF ok b] by blast
      then have "batch_ok s b'" "b_status b' \<noteq> open" using ok b' to by (auto simp: batches_ok_def)
      then show ?thesis using to oe by (simp add: batch_ok_def sealed_ok_def Let_def s')
    qed
  qed (use ok same to in \<open>auto simp: s' batches_ok_def\<close>)
qed

lemma create_batch_batches_ok:
  assumes ok: "batches_ok s" and cr: "create_batch now i h m s = Inr (r, s')" and fresh: "i \<notin> b_id ` set (batches s)"
    and none: "\<forall>e \<in> set (events s). e_batchId e \<noteq> Some i"
  shows "batches_ok s'"
proof -
  define nb where "nb = \<lparr>b_id = i, b_hubId = h, b_material = m, b_status = open, b_totalWeightKg = Fin 0,
     b_eventCount = 0, b_merkleRoot = None, b_sealedAt = None, b_createdAt = now\<rparr>"
  have h: "h \<in> h_id ` set (hubs s)" and s': "s' = s\<lparr>batches := insert_row nb (batches s)\<rparr>"
    using cr by (auto simp: create_batch_def nb_def get_by_None_iff Let_def split: sum.splits if_splits)
  have same: "batch_events j s' = batch_events j s" for j by (simp add: s' batch_events_def)
  have "batch_events i s = []" using none by (auto simp: batch_events_def find_all_def filter_empty_conv)
  then have "batch_ok s' nb"
    using h same by (simp add: batch_ok_def open_ok_def recomputeTotals_def nb_def s' Let_def)
  moreover have "batch_ok s' b" if "b \<in> set (batches s)" for b
    using that ok same by (intro batch_ok_cong[of b s' s]) (auto simp: batches_ok_def s')
  moreover have "member_ok s' e" if "e \<in> set (events s)" for e
    using that ok by (intro member_ok_cong[of s s' e]) (auto simp: batches_ok_def s')
  moreover have "anchor_ok s' a" if "a \<in> set (anchors s)" for a
    using that ok by (auto simp: batches_ok_def anchor_ok_def s')
  ultimately show ?thesis using ok fresh by (auto simp: batches_ok_def s' nb_def)
qed

lemma recordAnchor_batches_ok:
  assumes ok: "batches_ok s" and rec: "recordAnchor pd now ai ti i input s = Inr (r, s')"
  shows "batches_ok s'"
  using rec
proof (cases rule: recordAnchor_eq)
  case known
  then show ?thesis using ok by simp
next
  case (new b)
  then obtain att where s': "s' = s\<lparr>anchors := insert_row r (anchors s), attempts := insert_row att (attempts s)\<rparr>" by blast
  have same: "batch_events j s' = batch_events j s" for j by (simp add: s' batch_events_def)
  have "batch_ok s' x" if "x \<in> set (batches s)" for x
    using that ok same by (intro batch_ok_cong[of x s' s]) (auto simp: batches_ok_def s')
  moreover have "member_ok s' e" if "e \<in> set (events s)" for e
    using that ok by (intro member_ok_cong[of s s' e]) (auto simp: batches_ok_def s')
  moreover have "anchor_ok s' a" if "a \<in> set (anchors s)" for a
    using that ok by (auto simp: batches_ok_def anchor_ok_def s')
  moreover have "anchor_ok s' r"
    using new(1,2,3,6,7) by (auto simp: anchor_ok_def s' dest!: get_by_SomeD)
  moreover have "a_batchId r \<notin> a_batchId ` set (anchors s)"
    using new(4,6) by (auto simp: anchor_of_def get_by_None_iff)
  moreover have "a_stellarTxHash r \<notin> a_stellarTxHash ` set (anchors s)"
    using new(5,8) by auto
  ultimately show ?thesis using ok by (auto simp: batches_ok_def s')
qed

lemma batches_ok_frame:
  assumes "batches_ok s" and "events s' = events s" and "batches s' = batches s" and "anchors s' = anchors s"
    and "h_id ` set (hubs s) \<subseteq> h_id ` set (hubs s')"
  shows "batches_ok s'"
proof -
  have "batch_ok s' b" if "b \<in> set (batches s)" for b
    using that assms by (intro batch_ok_cong[of b s' s]) (auto simp: batches_ok_def batch_events_events[OF assms(2)])
  moreover have "member_ok s' e" if "e \<in> set (events s)" for e
    using that assms by (intro member_ok_cong[of s s' e]) (auto simp: batches_ok_def)
  moreover have "anchor_ok s' a" if "a \<in> set (anchors s)" for a
    using that assms by (auto simp: batches_ok_def anchor_ok_def)
  ultimately show ?thesis using assms by (simp add: batches_ok_def)
qed

text \<open>The first write-back of a sealed root is accepted.\<close>

lemma recordAnchor_first:
  assumes "get_by b_id i (batches s) = Some b" and "b_status b \<noteq> open" and "b_merkleRoot b = Some (an_merkleRoot input)"
    and "an_merkleRoot input \<noteq> ''''" and "anchors s = []" and "pd (an_anchoredAt input) = Some t"
  shows "\<exists>a s'. recordAnchor pd now ai ti i input s = Inr (a, s')"
proof -
  have "anchor_of i s = None" "\<not> exists_where (\<lambda>a. a_stellarTxHash a = an_stellarTxHash input) (anchors s)"
    using assms(5) by (simp_all add: anchor_of_def get_by_def exists_where_def)
  moreover have "findOne_batch i s = Inr b" using assms(1) by (simp add: findOne_batch_eq)
  ultimately show ?thesis
    using assms(2-4,6) by (simp add: recordAnchor_def Let_def case_prod_beta)
qed

end
