(* ===== verification/BatchProperties.thy ===== *)
theory BatchProperties
  imports BatchInvariant
begin

text \<open>
  What the ingest and the batch operations promise: the statements over the whole
  state, each with a concrete state on which its hypotheses hold.
\<close>

section \<open>A concrete state\<close>

definition sample_verdict :: IntegrityVerdict where
  "sample_verdict = \<lparr>v_outcome = pass, v_findings = []\<rparr>"

definition sample_event :: "string \<Rightarrow> string \<Rightarrow> string option \<Rightarrow> nat \<Rightarrow> CollectionEventEntity" where
  "sample_event i hash b g = \<lparr>e_id = i, e_collectorId = ''c1'', e_hubId = ''h1'', e_deviceId = ''d1'', e_batchId = b,
     e_weightKg = gram g, e_material = ''PET'', e_capturedAt = 0, e_receivedAt = 1, e_photoHash = hash, e_photoUri = None,
     e_nonce = i, e_signature = ''s'', e_payloadHash = hash, e_integrity = sample_verdict, e_quarantined = False\<rparr>"

definition hash_a :: string where "hash_a = replicate 64 (CHR ''a'')"
definition hash_b :: string where "hash_b = replicate 64 (CHR ''b'')"

definition sample_hub :: HubEntity where
  "sample_hub = \<lparr>h_id = ''h1'', h_code = ''H'', h_name = ''Hub'', h_minWeightKg = Fin (1 / 10), h_maxWeightKg = Fin 10000\<rparr>"

definition sample_collector :: CollectorEntity where
  "sample_collector = \<lparr>c_id = ''c1'', c_name = ''C'', c_phone = ''+100'', c_cooperativeId = None, c_kycLevel = basic, c_active = True, c_createdAt = 0\<rparr>"

definition sample_device :: DeviceEntity where
  "sample_device = \<lparr>d_id = ''d1'', d_collectorId = ''c1'', d_label = ''phone'', d_publicKeyBase64 = ''k'', d_enrolledAt = 0, d_revokedAt = None\<rparr>"

definition sample_material :: Material where
  "sample_material = \<lparr>m_code = ''PET'', m_name = ''PET'', m_description = None, m_examples = [], m_active = True, m_sortOrder = 10\<rparr>"

definition sample_batch :: BatchEntity where
  "sample_batch = \<lparr>b_id = ''b1'', b_hubId = ''h1'', b_material = ''PET'', b_status = open, b_totalWeightKg = Fin 0,
     b_eventCount = 0, b_merkleRoot = None, b_sealedAt = None, b_createdAt = 0\<rparr>"

text \<open>A hub with an open, empty batch and two clean events beside it.\<close>

definition sample_db :: db where
  "sample_db = empty_db\<lparr>hubs := [sample_hub], collectors := [sample_collector], devices := [sample_device],
     materials := [sample_material], batches := [sample_batch],
     events := [sample_event ''e1'' hash_a None 12345, sample_event ''e2'' hash_b None 500]\<rparr>"

lemmas sample_defs = sample_db_def empty_db_def sample_batch_def sample_material_def sample_device_def sample_collector_def
  sample_hub_def sample_event_def sample_verdict_def

lemma hash_ab: "is_hash64 hash_a" "is_hash64 hash_b" "hash_a \<noteq> hash_b"
proof -
  have "is_lower_hex (CHR ''a'')" "is_lower_hex (CHR ''b'')" by code_simp+
  then show "is_hash64 hash_a" "is_hash64 hash_b" by (simp_all add: is_hash64_def hash_a_def hash_b_def list_all_iff)
  show "hash_a \<noteq> hash_b" by (simp add: hash_a_def hash_b_def)
qed

lemma sample_core_ok: "core_ok sample_db"
proof -
  have "events_ok sample_db"
    using hash_ab by (simp add: events_ok_def sample_defs)
  moreover have "batches_ok sample_db"
    by (simp add: batches_ok_def batch_ok_def open_ok_def member_ok_def recomputeTotals_def batch_events_def find_all_def sample_defs)
  ultimately show ?thesis by (simp add: core_ok_def)
qed

text \<open>The same hub after both events joined the batch, and after the seal.\<close>

definition both_events :: "CollectionEventEntity list" where
  "both_events = [sample_event ''e1'' hash_a (Some ''b1'') 12345, sample_event ''e2'' hash_b (Some ''b1'') 500]"

definition filled_db :: db where
  "filled_db = sample_db\<lparr>events := both_events,
     batches := [sample_batch\<lparr>b_totalWeightKg := total_weight both_events, b_eventCount := 2\<rparr>]\<rparr>"

lemma both_sorted: "js_sort event_order both_events = both_events"
proof -
  have "code_unit_compare ''e1'' ''e2'' = -1" by code_simp
  then show ?thesis by (simp add: both_events_def event_order_def sample_event_def)
qed

lemma filled_events: "batch_events ''b1'' filled_db = both_events" "orderedEvents ''b1'' filled_db = both_events"
proof -
  show "batch_events ''b1'' filled_db = both_events"
    by (simp add: batch_events_def find_all_def filled_db_def both_events_def sample_event_def)
  then show "orderedEvents ''b1'' filled_db = both_events" by (simp add: orderedEvents_def both_sorted)
qed

lemma addEvents_sample: "\<exists>r. addEvents ''b1'' [''e1'', ''e2''] sample_db = Inr (r, filled_db)"
  by (simp add: addEvents_def findOne_batch_def get_by_def Let_def find_all_def store_totals_def recomputeTotals_def
      batch_events_def update_where_def patch_by_def filled_db_def both_events_def sample_defs)

lemma filled_core_ok: "core_ok filled_db"
proof -
  obtain r where add: "addEvents ''b1'' [''e1'', ''e2''] sample_db = Inr (r, filled_db)" using addEvents_sample by blast
  have "batches_ok filled_db"
    using addEvents_batches_ok[OF _ _ add] sample_core_ok by (simp add: core_okD)
  moreover have "events_ok filled_db"
    using sample_core_ok
    by (auto simp: core_ok_def events_ok_def filled_db_def sample_db_def both_events_def sample_event_def sample_batch_def)
  ultimately show ?thesis by (simp add: core_ok_def)
qed

definition sealed_db :: db where
  "sealed_db = filled_db\<lparr>batches := [freeze 5 (level_root (leavesOf both_events)) both_events
     (sample_batch\<lparr>b_totalWeightKg := total_weight both_events, b_eventCount := 2\<rparr>)]\<rparr>"

lemma seal_sample: "\<exists>r. seal 5 ''b1'' filled_db = Inr (r, sealed_db)"
proof -
  have q: "filter e_quarantined both_events = []" by (simp add: both_events_def sample_event_def)
  have r: "merkleRootHex (leavesOf both_events) = Inr (level_root (leavesOf both_events))"
    by (rule merkleRootHex_ok) (simp_all add: both_events_def)
  have "findOne_batch ''b1'' filled_db = Inr (sample_batch\<lparr>b_totalWeightKg := total_weight both_events, b_eventCount := 2\<rparr>)"
    by (simp add: findOne_batch_def get_by_def filled_db_def sample_batch_def)
  moreover have "findOne_batch ''b1'' sealed_db = Inr (freeze 5 (level_root (leavesOf both_events)) both_events
      (sample_batch\<lparr>b_totalWeightKg := total_weight both_events, b_eventCount := 2\<rparr>))"
    by (simp add: findOne_batch_def get_by_def sealed_db_def sample_batch_def freeze_def)
  moreover have "both_events \<noteq> []" by (simp add: both_events_def)
  moreover have "filled_db\<lparr>batches := patch_by b_id ''b1'' (\<lambda>b. b\<lparr>b_status := sealed, b_sealedAt := Some 5,
       b_merkleRoot := Some (level_root (leavesOf both_events)), b_totalWeightKg := total_weight both_events,
       b_eventCount := length both_events\<rparr>) (batches filled_db)\<rparr> = sealed_db"
    by (simp add: sealed_db_def filled_db_def patch_by_def update_where_def freeze_def sample_batch_def)
  ultimately show ?thesis
    by (simp add: seal_def filled_events q r sample_batch_def)
qed

lemma sealed_core_ok: "core_ok sealed_db"
proof -
  obtain r where "seal 5 ''b1'' filled_db = Inr (r, sealed_db)" using seal_sample by blast
  then have "batches_ok sealed_db" using seal_batches_ok filled_core_ok by (blast dest: core_okD)
  moreover have "events_ok sealed_db"
    using filled_core_ok
    by (auto simp: core_ok_def events_ok_def sealed_db_def filled_db_def freeze_def sample_batch_def)
  ultimately show ?thesis by (simp add: core_ok_def)
qed

lemma sealed_lookup:
  "get_by b_id ''b1'' (batches sealed_db) = Some (freeze 5 (level_root (leavesOf both_events)) both_events
     (sample_batch\<lparr>b_totalWeightKg := total_weight both_events, b_eventCount := 2\<rparr>))"
  by (simp add: get_by_def sealed_db_def freeze_def sample_batch_def)

lemma sealed_events: "orderedEvents ''b1'' sealed_db = both_events" "events sealed_db = both_events"
  using filled_events(2) by (simp_all add: sealed_db_def orderedEvents_def batch_events_def filled_db_def)

lemma filled_lookup:
  "get_by b_id ''b1'' (batches filled_db) = Some (sample_batch\<lparr>b_totalWeightKg := total_weight both_events, b_eventCount := 2\<rparr>)"
  by (simp add: get_by_def filled_db_def sample_batch_def)

lemma both_events_members: "sample_event ''e1'' hash_a (Some ''b1'') 12345 \<in> set (events sealed_db)"
  "e_batchId (sample_event ''e1'' hash_a (Some ''b1'') 12345) = Some ''b1''"
  by (simp_all add: sealed_events both_events_def sample_event_def)

section \<open>Verification\<close>

lemma verifyEvent_run:
  assumes "findOne_batch i s = Inr b" and "b_merkleRoot b = Some r" and "r \<noteq> ''''"
    and "find_index (\<lambda>x. e_id x = x0) (orderedEvents i s) = k" and "\<not> k < 0"
    and "merkleProof (leavesOf (orderedEvents i s)) k = Inr p" and "leavesOf (orderedEvents i s) ! nat k = l"
    and "verifyMerkleProof l p r" and "\<And>a. \<exists>c. verify a = Inr c"
  shows "\<exists>v. verifyEvent verify i x0 s = Inr v \<and> vf_proofValid v \<and> vf_leaf v = l \<and> vf_merkleRoot v = r"
proof (cases "anchor_of i s")
  case None
  then show ?thesis using assms(2-8) by (simp add: verifyEvent_def Let_def assms(1))
next
  case (Some a)
  obtain c where "verify (to_verify a) = Inr c" using assms(9) by blast
  then show ?thesis using Some assms(2-8) by (simp add: verifyEvent_def Let_def assms(1))
qed

text \<open>C1. For every event of a batch that left the open state, the verification an auditor runs
  returns: its leaf is the leaf of the payload hash stored with the event, its root the sealed root,
  and \<open>proofValid\<close> is true, whatever the ledger service answers.\<close>

theorem verifyEvent_proves_members:
  assumes "core_ok s" and "get_by b_id i (batches s) = Some b" and "b_status b \<noteq> open"
    and "e \<in> set (events s)" and "e_batchId e = Some i" and "\<And>a. \<exists>c. verify a = Inr c"
  shows "\<exists>v. verifyEvent verify i (e_id e) s = Inr v \<and> vf_proofValid v \<and> vf_leaf v = hashLeaf (e_payloadHash e)
    \<and> b_merkleRoot b = Some (vf_merkleRoot v)"
proof -
  let ?es = "orderedEvents i s"
  define k where "k = find_index (\<lambda>x. e_id x = e_id e) ?es"
  have ne: "?es \<noteq> []" and root: "b_merkleRoot b = Some (level_root (leavesOf ?es))"
    using sealed_root[OF assms(1-3)] by blast+
  have fb: "findOne_batch i s = Inr b" using assms(2) by (simp add: findOne_batch_eq)
  have "e \<in> set ?es" using assms(4,5) by simp
  then have k0: "0 \<le> k" unfolding k_def find_index_nonneg by blast
  have kl: "nat k < length ?es" using find_index_range(1)[of "\<lambda>x. e_id x = e_id e" ?es] k0 by (simp add: k_def)
  have inEvents: "?es ! nat k \<in> set (events s)" using nth_mem[OF kl] by simp
  have "e_id (?es ! nat k) = e_id e" using k0 unfolding k_def by (rule find_index_holds)
  with core_okD(4)[OF assms(1)] inEvents assms(4) have nth: "?es ! nat k = e" by (rule distinct_key_eq)
  have leaf: "leavesOf ?es ! nat k = hashLeaf (e_payloadHash e)"
    using kl nth by (simp add: leavesOf_def)
  have pf: "merkleProof (leavesOf ?es) k = Inr (steps_of (leavesOf ?es) (nat k))"
    using ne k0 kl by (simp add: merkleProof_eq)
  have "verifyMerkleProof (leavesOf ?es ! nat k) (steps_of (leavesOf ?es) (nat k)) (level_root (leavesOf ?es))"
    by (rule verify_complete[OF pf]) (use ne in simp)
  then have ok: "verifyMerkleProof (hashLeaf (e_payloadHash e)) (steps_of (leavesOf ?es) (nat k)) (level_root (leavesOf ?es))"
    by (simp only: leaf)
  have nempty: "level_root (leavesOf ?es) \<noteq> ''''" using ne by (rule level_root_not_empty)
  have "\<not> k < 0" using k0 by simp
  note verifyEvent_run[OF fb root nempty k_def[symmetric] this pf leaf ok assms(6)]
  then show ?thesis using root by force
qed

theorem verifyEvent_proves_members_witness:
  "\<exists>v. verifyEvent (\<lambda>a. Inr (unchecked_confirmation 0 ''down'')) ''b1'' (e_id (sample_event ''e1'' hash_a (Some ''b1'') 12345)) sealed_db = Inr v
    \<and> vf_proofValid v \<and> vf_leaf v = hashLeaf (e_payloadHash (sample_event ''e1'' hash_a (Some ''b1'') 12345))
    \<and> b_merkleRoot (freeze 5 (level_root (leavesOf both_events)) both_events
        (sample_batch\<lparr>b_totalWeightKg := total_weight both_events, b_eventCount := 2\<rparr>)) = Some (vf_merkleRoot v)"
  by (rule verifyEvent_proves_members[OF sealed_core_ok sealed_lookup _ both_events_members]) (simp_all add: freeze_def)

text \<open>C2. Nothing else verifies: a proof that verifies some payload hash against the root of a batch
  that left the open state is the proof of an event that the batch holds with this payload hash, or
  SHA-256 collides on the inputs hashed for the tree and the proof.\<close>

theorem sealed_root_admits_only_members:
  assumes "core_ok s" and "get_by b_id i (batches s) = Some b" and "b_status b \<noteq> open"
    and "b_merkleRoot b = Some r" and "verifyMerkleProof (hashLeaf h) p r"
  shows "(\<exists>e \<in> set (events s). e_batchId e = Some i \<and> e_payloadHash e = h)
    \<or> has_collision (merkle_inputs (map e_payloadHash (orderedEvents i s)) @ (0x00 # utf8 h) # climb_inputs (hashLeaf h) p)"
proof -
  let ?ds = "map e_payloadHash (orderedEvents i s)"
  have l: "leavesOf (orderedEvents i s) = map hashLeaf ?ds" by (simp add: leavesOf_def)
  have "merkleRootHex (map hashLeaf ?ds) = Inr r"
    using sealed_root(2,3)[OF assms(1-3)] assms(4) by (simp add: l)
  then have "(\<exists>k < length ?ds. ?ds ! k = h) \<or> has_collision (merkle_inputs ?ds @ (0x00 # utf8 h) # climb_inputs (hashLeaf h) p)"
    using verify_sound[OF _ assms(5)] by blast
  moreover have "\<exists>e \<in> set (events s). e_batchId e = Some i \<and> e_payloadHash e = h" if "k < length ?ds" "?ds ! k = h" for k
    using that nth_mem[of k "orderedEvents i s"] by auto
  ultimately show ?thesis by blast
qed

lemma both_root: "verifyMerkleProof (hashLeaf (map e_payloadHash both_events ! 1)) (steps_of (map hashLeaf (map e_payloadHash both_events)) 1)
    (level_root (leavesOf both_events))"
proof -
  have "leavesOf both_events = map hashLeaf (map e_payloadHash both_events)" by (simp add: leavesOf_def)
  moreover have "1 < length (map e_payloadHash both_events)" by (simp add: both_events_def)
  ultimately show ?thesis by (simp only: hashed_verifies)
qed

theorem sealed_root_admits_only_members_witness:
  "(\<exists>e \<in> set (events sealed_db). e_batchId e = Some ''b1'' \<and> e_payloadHash e = map e_payloadHash both_events ! 1)
    \<or> has_collision (merkle_inputs (map e_payloadHash (orderedEvents ''b1'' sealed_db)) @ (0x00 # utf8 (map e_payloadHash both_events ! 1))
        # climb_inputs (hashLeaf (map e_payloadHash both_events ! 1)) (steps_of (map hashLeaf (map e_payloadHash both_events)) 1))"
  by (rule sealed_root_admits_only_members[OF sealed_core_ok sealed_lookup _ _ both_root]) (simp_all add: freeze_def)

section \<open>Membership and the seal\<close>

text \<open>C18. \<open>addEvents\<close> succeeds exactly when the batch exists and is open and every listed event
  exists, is unbatched, not quarantined, and of the hub and the material of the batch.\<close>

theorem addEvents_iff_eligible:
  assumes "core_ok s"
  shows "(\<exists>r s'. addEvents i ids s = Inr (r, s')) \<longleftrightarrow>
    (\<exists>b. get_by b_id i (batches s) = Some b \<and> b_status b = open
      \<and> (\<forall>x \<in> set ids. \<exists>e \<in> set (events s). e_id e = x \<and> joinable b e))"
proof
  assume "\<exists>r s'. addEvents i ids s = Inr (r, s')"
  then obtain r s' where "addEvents i ids s = Inr (r, s')" by blast
  then show "\<exists>b. get_by b_id i (batches s) = Some b \<and> b_status b = open
      \<and> (\<forall>x \<in> set ids. \<exists>e \<in> set (events s). e_id e = x \<and> joinable b e)"
    by (rule addEvents_eq) blast
next
  assume "\<exists>b. get_by b_id i (batches s) = Some b \<and> b_status b = open
      \<and> (\<forall>x \<in> set ids. \<exists>e \<in> set (events s). e_id e = x \<and> joinable b e)"
  then obtain b where b: "get_by b_id i (batches s) = Some b" "b_status b = open"
      and j: "\<forall>x \<in> set ids. \<exists>e \<in> set (events s). e_id e = x \<and> joinable b e" by blast
  let ?c = "find_all (\<lambda>e. e_id e \<in> set ids \<and> e_batchId e = None \<and> \<not> e_quarantined e \<and> e_hubId e = b_hubId b) (events s)"
  have rej: "filter (\<lambda>x. x \<notin> set (map e_id ?c)) ids = []"
    using j by (force simp: filter_empty_conv joinable_def)
  have mis: "filter (\<lambda>c. e_material c \<noteq> b_material b) ?c = []"
    using j core_okD(4)[OF assms] by (fastforce simp: filter_empty_conv joinable_def dest: distinct_key_eq)
  have fb: "findOne_batch i s = Inr b" using b(1) by (simp add: findOne_batch_eq)
  define s1 where "s1 = s\<lparr>events := update_where (\<lambda>e. e_id e \<in> set (map e_id ?c)) (\<lambda>e. e\<lparr>e_batchId := Some i\<rparr>) (events s)\<rparr>"
  have "batches s1 = batches s" by (simp add: s1_def)
  then obtain b' where "findOne_batch i (store_totals i s1) = Inr b'"
    using b(1) by (auto simp: findOne_batch_eq store_totals_batches get_by_patch_by)
  then show "\<exists>r s'. addEvents i ids s = Inr (r, s')"
    unfolding addEvents_def fb sum.case Let_def s1_def[symmetric] rej mis using b(2) by simp
qed

theorem addEvents_iff_eligible_witness:
  "(\<exists>r s'. addEvents ''b1'' [''e1''] sample_db = Inr (r, s')) \<longleftrightarrow>
    (\<exists>b. get_by b_id ''b1'' (batches sample_db) = Some b \<and> b_status b = open
      \<and> (\<forall>x \<in> set [''e1'']. \<exists>e \<in> set (events sample_db). e_id e = x \<and> joinable b e))"
  by (rule addEvents_iff_eligible[OF sample_core_ok])

text \<open>C17. The weight a seal freezes is exact: for events weighed in whole grams (any number of them
  up to the stated bound on count times total) the sealed total is the number of kilograms that the
  grams add up to, whatever the order of the rows and despite binary64 rounding in every addition.\<close>

theorem sealed_weight_exact:
  assumes "core_ok s" and "seal now i s = Inr (b, s')"
    and "map e_weightKg (orderedEvents i s) = map gram gs" and "length gs * (sum_list gs + 2000) \<le> 10 ^ 15"
  shows "b_status b = sealed \<and> b_totalWeightKg b = gram (sum_list gs) \<and> b_eventCount b = length gs
    \<and> b_merkleRoot b = Some (level_root (leavesOf (orderedEvents i s)))"
proof -
  have "length (orderedEvents i s) = length gs" using assms(3) by (metis length_map)
  moreover have "total_weight (orderedEvents i s) = gram (sum_list gs)"
    unfolding total_weight_def assms(3) by (rule quantised_sum_exact[OF assms(4)])
  ultimately show ?thesis using assms(2) by (elim seal_eq) (simp add: freeze_def)
qed

lemma seal_sample_result: "seal 5 ''b1'' filled_db = Inr (fst (projr (seal 5 ''b1'' filled_db)), snd (projr (seal 5 ''b1'' filled_db)))"
  using seal_sample by auto

theorem sealed_weight_exact_witness:
  "b_status (fst (projr (seal 5 ''b1'' filled_db))) = sealed
    \<and> b_totalWeightKg (fst (projr (seal 5 ''b1'' filled_db))) = gram (sum_list [12345, 500])
    \<and> b_eventCount (fst (projr (seal 5 ''b1'' filled_db))) = length [12345 :: nat, 500]
    \<and> b_merkleRoot (fst (projr (seal 5 ''b1'' filled_db))) = Some (level_root (leavesOf (orderedEvents ''b1'' filled_db)))"
  by (rule sealed_weight_exact[OF filled_core_ok seal_sample_result])
    (simp_all add: filled_events both_events_def sample_event_def)

text \<open>C19. Sealing an open batch with at least one event, none quarantined, always succeeds.\<close>

theorem seal_succeeds:
  assumes "core_ok s" and "get_by b_id i (batches s) = Some b" and "b_status b = open" and "batch_events i s \<noteq> []"
  shows "\<exists>r s'. seal now i s = Inr (r, s')"
proof -
  have q: "filter e_quarantined (orderedEvents i s) = []"
    using assms(1) by (fastforce simp: core_ok_def batches_ok_def member_ok_def filter_empty_conv split: option.splits)
  have ne: "orderedEvents i s \<noteq> []" using assms(4) by (simp add: orderedEvents_Nil_iff)
  then have r: "merkleRootHex (leavesOf (orderedEvents i s)) = Inr (level_root (leavesOf (orderedEvents i s)))" by simp
  have "\<exists>b'. get_by b_id i (patch_by b_id i f (batches s)) = Some b'" if "\<And>b. b_id (f b) = b_id b" for f
    using assms(2) that by (simp add: get_by_patch_by)
  then show ?thesis
    using assms(2,3) ne q r by (fastforce simp: seal_def findOne_batch_def Let_def split: option.splits)
qed

theorem seal_succeeds_witness: "\<exists>r s'. seal 9 ''b1'' filled_db = Inr (r, s')"
  by (rule seal_succeeds[OF filled_core_ok filled_lookup]) (simp_all add: sample_batch_def filled_events both_events_def)

end
