(* ===== verification/Registry.thy ===== *)
theory Registry
  imports Domain Signing
begin

text \<open>
  Collectors, their devices and the hubs they work at
  (apps/backend/src/collectors/registry.service.ts).  The order of a text column
  is the collation of the database, the parameter \<open>collate\<close>.
\<close>

section \<open>Requests and answers\<close>

record CreateCollectorDto =
  cc_name :: string
  cc_phone :: string
  cc_cooperativeId :: "string option"
  cc_kycLevel :: "KycLevel option"

record EnrolDeviceDto =
  ed_collectorId :: string
  ed_label :: string
  ed_publicKeyBase64 :: string

record CreateHubDto =
  ch_code :: string
  ch_name :: string
  ch_minWeightKg :: "jsnum option"
  ch_maxWeightKg :: "jsnum option"

record HubDirectoryEntry =
  hd_id :: string
  hd_code :: string
  hd_name :: string
  hd_minWeightKg :: jsnum
  hd_maxWeightKg :: jsnum

section \<open>Operations\<close>

definition collector_created_desc :: "CollectorEntity \<Rightarrow> CollectorEntity \<Rightarrow> int" where
  "collector_created_desc a b = c_createdAt b - c_createdAt a"

definition listCollectors :: "db \<Rightarrow> CollectorEntity list" where
  "listCollectors s = js_sort collector_created_desc (collectors s)"

definition createCollector :: "instant \<Rightarrow> string \<Rightarrow> CreateCollectorDto \<Rightarrow> CollectorEntity op" where
  "createCollector now newId dto s = (case get_by c_phone (cc_phone dto) (collectors s) of
      Some _ \<Rightarrow> throw (ConflictException (''a collector with phone '' @ cc_phone dto @ '' already exists''))
    | None \<Rightarrow> (let collector = \<lparr>c_id = newId, c_name = cc_name dto, c_phone = cc_phone dto,
         c_cooperativeId = cc_cooperativeId dto, c_kycLevel = with_default (cc_kycLevel dto) kyc_none,
         c_active = True, c_createdAt = now\<rparr>
       in return (collector, s\<lparr>collectors := insert_row collector (collectors s)\<rparr>)))"

fun exception_message :: "exception \<Rightarrow> string" where
  "exception_message (BadRequestException m) = m"
| "exception_message (UnauthorizedException m) = m"
| "exception_message (ForbiddenException m) = m"
| "exception_message (NotFoundException m) = m"
| "exception_message (ConflictException m) = m"
| "exception_message (PayloadTooLargeException m) = m"
| "exception_message (TooManyRequestsException m) = m"
| "exception_message (InternalServerErrorException m) = m"
| "exception_message (PlainError m) = m"

definition enrolDevice :: "instant \<Rightarrow> string \<Rightarrow> EnrolDeviceDto \<Rightarrow> DeviceEntity op" where
  "enrolDevice now newId dto s = (case get_by c_id (ed_collectorId dto) (collectors s) of
      None \<Rightarrow> throw (NotFoundException (''collector '' @ ed_collectorId dto @ '' not found''))
    | Some _ \<Rightarrow> (case publicKeyFromBase64 (ed_publicKeyBase64 dto) of
        Inl e \<Rightarrow> throw (ConflictException (''invalid ed25519 public key: '' @ exception_message e))
      | Inr _ \<Rightarrow> (case get_by d_publicKeyBase64 (ed_publicKeyBase64 dto) (devices s) of
          Some _ \<Rightarrow> throw (ConflictException ''this device key is already enrolled'')
        | None \<Rightarrow> (let device = \<lparr>d_id = newId, d_collectorId = ed_collectorId dto, d_label = ed_label dto,
             d_publicKeyBase64 = ed_publicKeyBase64 dto, d_enrolledAt = now, d_revokedAt = None\<rparr>
           in return (device, s\<lparr>devices := insert_row device (devices s)\<rparr>)))))"

definition revokeDevice :: "instant \<Rightarrow> string \<Rightarrow> DeviceEntity op" where
  "revokeDevice now i s = (case get_by d_id i (devices s) of
      None \<Rightarrow> throw (NotFoundException (''device '' @ i @ '' not found''))
    | Some device \<Rightarrow> if d_revokedAt device \<noteq> None then return (device, s)
        else (let device' = device\<lparr>d_revokedAt := Some now\<rparr>
          in return (device', s\<lparr>devices := patch_by d_id i (\<lambda>_. device') (devices s)\<rparr>)))"

definition enrolled_desc :: "DeviceEntity \<Rightarrow> DeviceEntity \<Rightarrow> int" where
  "enrolled_desc a b = d_enrolledAt b - d_enrolledAt a"

definition listDevices :: "string option \<Rightarrow> db \<Rightarrow> DeviceEntity list" where
  "listDevices collectorId s = js_sort enrolled_desc
     (find_all (\<lambda>d. case collectorId of None \<Rightarrow> True | Some i \<Rightarrow> i = '''' \<or> d_collectorId d = i) (devices s))"

definition listHubs :: "(string \<Rightarrow> string \<Rightarrow> int) \<Rightarrow> db \<Rightarrow> HubEntity list" where
  "listHubs collate s = js_sort (\<lambda>a b. collate (h_code a) (h_code b)) (hubs s)"

definition hubDirectory :: "(string \<Rightarrow> string \<Rightarrow> int) \<Rightarrow> db \<Rightarrow> HubDirectoryEntry list" where
  "hubDirectory collate s = map (\<lambda>hub. \<lparr>hd_id = h_id hub, hd_code = h_code hub, hd_name = h_name hub,
     hd_minWeightKg = h_minWeightKg hub, hd_maxWeightKg = h_maxWeightKg hub\<rparr>) (listHubs collate s)"

definition createHub :: "string \<Rightarrow> CreateHubDto \<Rightarrow> HubEntity op" where
  "createHub newId dto s = (case get_by h_code (ch_code dto) (hubs s) of
      Some _ \<Rightarrow> throw (ConflictException (''hub '' @ ch_code dto @ '' already exists''))
    | None \<Rightarrow> (let hub = \<lparr>h_id = newId, h_code = ch_code dto, h_name = ch_name dto,
         h_minWeightKg = with_default (ch_minWeightKg dto) (gram 100),
         h_maxWeightKg = with_default (ch_maxWeightKg dto) (gram 10000000)\<rparr>
       in return (hub, s\<lparr>hubs := insert_row hub (hubs s)\<rparr>)))"

section \<open>Invariant\<close>

text \<open>
  Phones, device keys and hub codes are unique; every device has a collector and
  a key that can verify signatures.
\<close>

definition registry_ok :: "db \<Rightarrow> bool" where
  "registry_ok s = (distinct (map c_id (collectors s)) \<and> distinct (map c_phone (collectors s))
     \<and> distinct (map d_id (devices s)) \<and> distinct (map d_publicKeyBase64 (devices s))
     \<and> distinct (map h_id (hubs s)) \<and> distinct (map h_code (hubs s))
     \<and> (\<forall>d \<in> set (devices s). d_collectorId d \<in> c_id ` set (collectors s)
          \<and> (\<exists>key. publicKeyFromBase64 (d_publicKeyBase64 d) = Inr key)))"

lemma createCollector_eq:
  assumes "createCollector now i dto s = Inr (r, s')"
  shows "s' = s\<lparr>collectors := insert_row r (collectors s)\<rparr>" "c_id r = i" "c_phone r = cc_phone dto" "c_active r"
    "get_by c_phone (cc_phone dto) (collectors s) = None"
  using assms by (auto simp: createCollector_def Let_def split: option.splits)

lemma enrolDevice_eq:
  assumes "enrolDevice now i dto s = Inr (r, s')"
  shows "s' = s\<lparr>devices := insert_row r (devices s)\<rparr>" "d_id r = i" "d_collectorId r = ed_collectorId dto"
    "d_publicKeyBase64 r = ed_publicKeyBase64 dto" "d_revokedAt r = None"
    "get_by c_id (ed_collectorId dto) (collectors s) \<noteq> None"
    "get_by d_publicKeyBase64 (ed_publicKeyBase64 dto) (devices s) = None"
    "\<exists>key. publicKeyFromBase64 (ed_publicKeyBase64 dto) = Inr key"
  using assms by (auto simp: enrolDevice_def Let_def split: option.splits sum.splits)

lemma revokeDevice_eq:
  assumes "revokeDevice now i s = Inr (r, s')"
  obtains (already) "s' = s" "get_by d_id i (devices s) = Some r" "d_revokedAt r \<noteq> None"
  | (new) d where "get_by d_id i (devices s) = Some d" "d_revokedAt d = None" "r = d\<lparr>d_revokedAt := Some now\<rparr>"
      "s' = s\<lparr>devices := patch_by d_id i (\<lambda>_. r) (devices s)\<rparr>"
  using assms by (auto simp: revokeDevice_def Let_def split: option.splits if_splits)

lemma createHub_eq:
  assumes "createHub i dto s = Inr (r, s')"
  shows "s' = s\<lparr>hubs := insert_row r (hubs s)\<rparr>" "h_id r = i" "h_code r = ch_code dto"
    "get_by h_code (ch_code dto) (hubs s) = None"
  using assms by (auto simp: createHub_def Let_def split: option.splits)

lemma createCollector_ok:
  assumes "registry_ok s" and "createCollector now i dto s = Inr (r, s')" and "i \<notin> c_id ` set (collectors s)"
  shows "registry_ok s'"
  using assms(1,3) createCollector_eq[OF assms(2)] by (auto simp: registry_ok_def get_by_None_iff)

lemma enrolDevice_ok:
  assumes "registry_ok s" and "enrolDevice now i dto s = Inr (r, s')" and "i \<notin> d_id ` set (devices s)"
  shows "registry_ok s'"
  using assms(1,3) enrolDevice_eq[OF assms(2)] by (auto simp: registry_ok_def get_by_None_iff)

lemma createHub_ok:
  assumes "registry_ok s" and "createHub i dto s = Inr (r, s')" and "i \<notin> h_id ` set (hubs s)"
  shows "registry_ok s'"
  using assms(1,3) createHub_eq[OF assms(2)] by (auto simp: registry_ok_def get_by_None_iff)

lemma revokeDevice_ok:
  assumes "registry_ok s" and "revokeDevice now i s = Inr (r, s')"
  shows "registry_ok s'"
  using assms(2)
proof (cases rule: revokeDevice_eq)
  case (new d)
  let ?f = "\<lambda>d. d\<lparr>d_revokedAt := Some now\<rparr>"
  have "distinct (map d_id (devices s))" using assms(1) by (simp add: registry_ok_def)
  then have ds: "devices s' = patch_by d_id i ?f (devices s)"
    using saved_row[OF _ new(1), of ?f] new(3,4) by simp
  have "map d_id (devices s') = map d_id (devices s)" "map d_publicKeyBase64 (devices s') = map d_publicKeyBase64 (devices s)"
    unfolding ds by (simp_all add: patch_by_def update_where_def)
  moreover have "\<forall>d \<in> set (devices s'). d_collectorId d \<in> c_id ` set (collectors s)
      \<and> (\<exists>key. publicKeyFromBase64 (d_publicKeyBase64 d) = Inr key)"
    using assms(1) unfolding ds by (auto simp: registry_ok_def set_patch_by)
  ultimately show ?thesis using assms(1) new(4) by (simp add: registry_ok_def)
qed (use assms in simp)

text \<open>The devices are told the bounds the server will check.\<close>

lemma hubDirectory_bounds:
  "h \<in> set (hubs s) \<Longrightarrow> \<exists>d \<in> set (hubDirectory collate s). hd_id d = h_id h
     \<and> hd_minWeightKg d = h_minWeightKg h \<and> hd_maxWeightKg d = h_maxWeightKg h"
  by (force simp: hubDirectory_def listHubs_def)

end
