(* ===== verification/Custody.thy ===== *)
theory Custody
  imports Domain
begin

text \<open>
  Custody transfers with the reconciliation of weight in and weight out
  (apps/backend/src/custody/custody.service.ts).  \<open>parse_date\<close> is the date parser.
\<close>

record CreateCustodyTransferDto =
  ct_dto_fromParty :: string
  ct_dto_toParty :: string
  ct_dto_weightInKg :: jsnum
  ct_dto_weightOutKg :: jsnum
  ct_dto_reason :: "string option"
  ct_dto_transferredAt :: string

definition transferred_asc :: "CustodyTransferEntity \<Rightarrow> CustodyTransferEntity \<Rightarrow> int" where
  "transferred_asc a b = ct_transferredAt a - ct_transferredAt b"

definition list_transfers :: "string \<Rightarrow> db \<Rightarrow> CustodyTransferEntity list" where
  "list_transfers batchId s = js_sort transferred_asc (find_all (\<lambda>t. ct_batchId t = batchId) (transfers s))"

interpretation transferred_asc: consistent_comparator transferred_asc
  by unfold_locales (auto simp: transferred_asc_def)

text \<open>\<open>dto.reason?.trim() || null\<close>\<close>

definition stated_reason :: "string option \<Rightarrow> string option" where
  "stated_reason r = (case r of None \<Rightarrow> None | Some t \<Rightarrow> if js_trim t = '''' then None else Some (js_trim t))"

definition create_transfer ::
  "(string \<Rightarrow> instant option) \<Rightarrow> string \<Rightarrow> string \<Rightarrow> CreateCustodyTransferDto \<Rightarrow> CustodyTransferEntity op" where
  "create_transfer parse_date newId batchId dto s = (case get_by b_id batchId (batches s) of
      None \<Rightarrow> throw (NotFoundException (''batch '' @ batchId @ '' not found''))
    | Some batch \<Rightarrow>
        if js_gt (ct_dto_weightOutKg dto) (ct_dto_weightInKg dto) then throw (BadRequestException
          ''weight out cannot exceed weight in; material does not appear in transit'')
        else (let varianceKg = js_quantise 3 (js_sub (ct_dto_weightInKg dto) (ct_dto_weightOutKg dto)) in
          if \<not> js_eq varianceKg (Fin 0) \<and> stated_reason (ct_dto_reason dto) = None
          then throw (BadRequestException (''a variance of '' @ num_to_string varianceKg
            @ '' kg must carry a stated reason (moisture, contamination, rejects)''))
          else (case parse_date (ct_dto_transferredAt dto) of
              None \<Rightarrow> throw INVALID_DATE
            | Some moved \<Rightarrow> (let transfer = \<lparr>ct_id = newId, ct_batchId = batchId,
                 ct_fromParty = ct_dto_fromParty dto, ct_toParty = ct_dto_toParty dto,
                 ct_weightInKg = ct_dto_weightInKg dto, ct_weightOutKg = ct_dto_weightOutKg dto,
                 ct_varianceKg = varianceKg, ct_reason = stated_reason (ct_dto_reason dto),
                 ct_transferredAt = moved\<rparr>
               in return (transfer, s\<lparr>transfers := insert_row transfer (transfers s)\<rparr>)))))"

section \<open>Differences of weights\<close>

lemma gram_close:
  assumes "g \<le> 10 ^ 12"
  shows "\<exists>x. gram g = Fin x \<and> 0 \<le> x \<and> \<bar>x - of_nat g / 1000\<bar> \<le> 1 / 1000000"
proof (intro exI conjI)
  have "(of_nat g :: rat) \<le> of_nat (10 ^ 12)" using assms by (simp only: of_nat_le_iff)
  then have g: "(of_nat g / 1000 :: rat) \<le> 10 ^ 9" by simp
  then show "gram g = Fin (round_binary64 (of_nat g / 1000))" by (simp add: gram_def rnd_Fin)
  show "0 \<le> round_binary64 (of_nat g / 1000)" by (simp add: round_binary64_nonneg)
  have "\<bar>round_binary64 (of_nat g / 1000) - of_nat g / 1000\<bar> \<le> (10 ^ 9 + 1) / (2 ^ 53 :: rat)"
    using g by (intro round_binary64_near) auto
  also have "\<dots> \<le> 1 / 1000000" by simp
  finally show "\<bar>round_binary64 (of_nat g / 1000) - of_nat g / 1000\<bar> \<le> (1 / 1000000 :: rat)" .
qed

lemma gram_apart: "h < g \<Longrightarrow> (of_nat h / 1000 + 1 / 1000 :: rat) \<le> of_nat g / 1000"
proof -
  assume "h < g"
  then have "(of_nat (h + 1) :: rat) \<le> of_nat g" by (simp only: of_nat_le_iff Suc_eq_plus1 [symmetric] Suc_le_eq)
  then show ?thesis by (simp add: field_simps)
qed

lemma gram_less_iff:
  assumes "g \<le> 10 ^ 12" and "h \<le> 10 ^ 12"
  shows "js_lt (gram g) (gram h) \<longleftrightarrow> g < h"
proof -
  obtain x y where x: "gram g = Fin x" "\<bar>x - of_nat g / 1000\<bar> \<le> 1 / 1000000"
      and y: "gram h = Fin y" "\<bar>y - of_nat h / 1000\<bar> \<le> 1 / 1000000"
    using gram_close[OF assms(1)] gram_close[OF assms(2)] by blast
  show ?thesis
  proof (cases g h rule: linorder_cases)
    case less
    then have "x < y" using x(2) y(2) gram_apart[OF less] by linarith
    then show ?thesis using x(1) y(1) less by simp
  next
    case equal
    then show ?thesis using x(1) by simp
  next
    case greater
    then have "y < x" using x(2) y(2) gram_apart[OF greater] by linarith
    then show ?thesis using x(1) y(1) greater by simp
  qed
qed

lemma gram_difference:
  assumes "h \<le> g" and "g \<le> 10 ^ 12"
  shows "js_quantise 3 (js_sub (gram g) (gram h)) = gram (g - h)"
proof -
  have h: "h \<le> 10 ^ 12" using assms by simp
  obtain x y where x: "gram g = Fin x" "0 \<le> x" "\<bar>x - of_nat g / 1000\<bar> \<le> 1 / 1000000"
      and y: "gram h = Fin y" "0 \<le> y" "\<bar>y - of_nat h / 1000\<bar> \<le> 1 / 1000000"
    using gram_close[OF assms(2)] gram_close[OF h] by blast
  have xy: "y \<le> x"
  proof (cases "h = g")
    case False
    then have "h < g" using assms(1) by simp
    then show ?thesis using x(3) y(3) gram_apart[of h g] by linarith
  qed (use x y in simp)
  have "(of_nat g :: rat) \<le> of_nat (10 ^ 12)" using assms(2) by (simp only: of_nat_le_iff)
  then have gb: "(of_nat g / 1000 :: rat) \<le> 10 ^ 9" by simp
  have "x \<le> 10 ^ 9 + 1 / 1000000" using x(3) gb by linarith
  moreover have "(1 / 1000000 :: rat) \<le> 1" by simp
  ultimately have d: "\<bar>x - y\<bar> \<le> 10 ^ 9 + 1" using x y xy by linarith
  have sub: "js_sub (gram g) (gram h) = Fin (round_binary64 (x - y))"
  proof -
    have "(10 ^ 9 + 1 :: rat) \<le> 10 ^ 30" by simp
    with d have "\<bar>x - y\<bar> \<le> 10 ^ 30" by (rule order_trans)
    then show ?thesis using x(1) y(1) by (simp add: js_sub_def js_neg_def js_add_def rnd_Fin)
  qed
  have r: "\<bar>round_binary64 (x - y) - (x - y)\<bar> \<le> (10 ^ 9 + 1 + 1) / 2 ^ 53"
    using d by (rule round_binary64_near) simp
  have n: "(of_nat (g - h) / 1000 :: rat) = of_nat g / 1000 - of_nat h / 1000"
    using assms(1) by (simp add: of_nat_diff diff_divide_distrib)
  have "(10 ^ 9 + 1 + 1) / 2 ^ 53 + 1 / 1000000 + 1 / 1000000 < (1 / 2000 :: rat)" by simp
  then have "\<bar>round_binary64 (x - y) - of_nat (g - h) / 1000\<bar> < 1 / 2000"
    using r x(3) y(3) unfolding n by linarith
  moreover have "0 \<le> round_binary64 (x - y)" using xy by (intro round_binary64_nonneg) simp
  moreover have "round_binary64 (x - y) \<le> 10 ^ 20"
  proof -
    have "(10 ^ 9 + 1 + 1) / 2 ^ 53 + (10 ^ 9 + 1) \<le> (10 ^ 20 :: rat)" by simp
    then show ?thesis using r d by linarith
  qed
  ultimately show ?thesis unfolding sub by (rule quantise_near)
qed

lemma gram_0 [simp]: "gram 0 = Fin 0"
  by (simp add: gram_def rnd_Fin)

section \<open>What a stored transfer satisfies\<close>

definition transfer_ok :: "db \<Rightarrow> CustodyTransferEntity \<Rightarrow> bool" where
  "transfer_ok s t = (ct_batchId t \<in> b_id ` set (batches s) \<and> \<not> js_gt (ct_weightOutKg t) (ct_weightInKg t)
     \<and> ct_varianceKg t = js_quantise 3 (js_sub (ct_weightInKg t) (ct_weightOutKg t))
     \<and> (js_eq (ct_varianceKg t) (Fin 0) \<or> (\<exists>r. ct_reason t = Some r \<and> r \<noteq> '''' \<and> trimmed r)))"

definition transfers_ok :: "db \<Rightarrow> bool" where
  "transfers_ok s = (\<forall>t \<in> set (transfers s). transfer_ok s t)"

lemma create_transfer_eq:
  assumes "create_transfer pd i b dto s = Inr (t, s')"
  shows "s' = s\<lparr>transfers := insert_row t (transfers s)\<rparr>" "ct_batchId t = b" "ct_id t = i"
    "ct_weightInKg t = ct_dto_weightInKg dto" "ct_weightOutKg t = ct_dto_weightOutKg dto" "transfer_ok s t"
    "ct_reason t = stated_reason (ct_dto_reason dto)"
  using assms
  by (auto simp: create_transfer_def Let_def transfer_ok_def stated_reason_def image_iff
      split: option.splits if_splits dest!: get_by_SomeD)

lemma create_transfer_ok:
  assumes "transfers_ok s" and "create_transfer pd i b dto s = Inr (t, s')"
  shows "transfers_ok s'"
  using assms(1) create_transfer_eq[OF assms(2)] by (auto simp: transfers_ok_def transfer_ok_def)

text \<open>Other operations keep the transfers as long as they keep the ids of the batches.\<close>

lemma transfers_ok_frame:
  "transfers_ok s \<Longrightarrow> transfers s' = transfers s \<Longrightarrow> b_id ` set (batches s) \<subseteq> b_id ` set (batches s') \<Longrightarrow> transfers_ok s'"
  by (auto simp: transfers_ok_def transfer_ok_def)

section \<open>Properties\<close>

text \<open>C28. Custody reconciles exactly: a transfer that is accepted for weights in whole grams never
  gains material, its variance is exactly the difference of the grams despite binary64
  subtraction, and a difference of even one gram carries a stated reason that is not blank.\<close>

theorem transfer_reconciles:
  assumes "create_transfer pd i b dto s = Inr (t, s')" and "ct_dto_weightInKg dto = gram g"
    and "ct_dto_weightOutKg dto = gram h" and "g \<le> 10 ^ 12" and "h \<le> 10 ^ 12"
  shows "h \<le> g \<and> ct_varianceKg t = gram (g - h) \<and> t \<in> set (transfers s')
    \<and> (h = g \<or> (\<exists>r. ct_reason t = Some r \<and> r \<noteq> '''' \<and> trimmed r))"
proof -
  note E = create_transfer_eq[OF assms(1)]
  have ok: "\<not> js_lt (gram g) (gram h)" and v: "ct_varianceKg t = js_quantise 3 (js_sub (gram g) (gram h))"
      and r: "js_eq (ct_varianceKg t) (Fin 0) \<or> (\<exists>r. ct_reason t = Some r \<and> r \<noteq> '''' \<and> trimmed r)"
    using E(4-6) assms(2,3) by (auto simp: transfer_ok_def js_gt_def)
  have hg: "h \<le> g" using ok gram_less_iff[OF assms(4,5)] by simp
  have v': "ct_varianceKg t = gram (g - h)" using v gram_difference[OF hg assms(4)] by simp
  obtain x where x: "gram (g - h) = Fin x" using gram_close[of "g - h"] assms(4) by fastforce
  have "h = g" if "js_eq (ct_varianceKg t) (Fin 0)"
  proof -
    have "gram (g - h) = gram 0" using that x by (simp add: v' js_eq_def)
    then have "g - h = 0" using assms(4) by (intro gram_inj) auto
    then show ?thesis using hg by simp
  qed
  then show ?thesis using hg v' r E(1) by auto
qed

definition sample_transfer :: CreateCustodyTransferDto where
  "sample_transfer = \<lparr>ct_dto_fromParty = ''hub'', ct_dto_toParty = ''mill'', ct_dto_weightInKg = gram 12000,
     ct_dto_weightOutKg = gram 11500, ct_dto_reason = Some ''moisture'', ct_dto_transferredAt = ''''\<rparr>"

definition custody_db :: db where
  "custody_db = \<lparr>hubs = [], collectors = [], devices = [], batches = [\<lparr>b_id = ''b'', b_hubId = ''h'', b_material = ''PET'',
        b_status = sold, b_totalWeightKg = Fin 0, b_eventCount = 0, b_merkleRoot = None, b_sealedAt = None, b_createdAt = 0\<rparr>],
     events = [], transfers = [], anchors = [], attempts = [], users = [], materials = []\<rparr>"

lemma sample_transfer_accepted:
  "create_transfer (\<lambda>_. Some 0) ''t'' ''b'' sample_transfer custody_db =
    Inr (fst (projr (create_transfer (\<lambda>_. Some 0) ''t'' ''b'' sample_transfer custody_db)),
         snd (projr (create_transfer (\<lambda>_. Some 0) ''t'' ''b'' sample_transfer custody_db)))"
proof -
  have "trimmed ''moisture''" by code_simp
  then have "js_trim ''moisture'' = ''moisture''" by (rule js_trim_trimmed)
  then have "stated_reason (ct_dto_reason sample_transfer) \<noteq> None" by (simp add: sample_transfer_def stated_reason_def)
  moreover have "\<not> js_gt (ct_dto_weightOutKg sample_transfer) (ct_dto_weightInKg sample_transfer)"
    using gram_less_iff[of 12000 11500] by (simp add: sample_transfer_def js_gt_def)
  ultimately show ?thesis by (simp add: create_transfer_def custody_db_def get_by_def Let_def)
qed

theorem transfer_reconciles_witness:
  "11500 \<le> (12000 :: nat)
    \<and> ct_varianceKg (fst (projr (create_transfer (\<lambda>_. Some 0) ''t'' ''b'' sample_transfer custody_db))) = gram (12000 - 11500)
    \<and> fst (projr (create_transfer (\<lambda>_. Some 0) ''t'' ''b'' sample_transfer custody_db))
        \<in> set (transfers (snd (projr (create_transfer (\<lambda>_. Some 0) ''t'' ''b'' sample_transfer custody_db))))
    \<and> (11500 = (12000 :: nat) \<or> (\<exists>r. ct_reason (fst (projr (create_transfer (\<lambda>_. Some 0) ''t'' ''b'' sample_transfer custody_db))) = Some r
        \<and> r \<noteq> '''' \<and> trimmed r))"
  by (rule transfer_reconciles[OF sample_transfer_accepted]) (simp_all add: sample_transfer_def)

end
