(* ===== verification/Users.thy ===== *)
theory Users
  imports Domain
begin

text \<open>
  Accounts, login and the guards (apps/backend/src/users/users.service.ts,
  apps/backend/src/auth/auth.module.ts).  Argon2 and the JSON web tokens are
  parameters: \<open>hashPassword\<close> (with the salt it drew), \<open>argonVerify\<close> (None when the
  library rejects) and \<open>jwtVerify\<close> (None when the token does not verify).
\<close>

section \<open>Requests and answers\<close>

record UserView =
  uv_id :: string
  uv_email :: string
  uv_role :: Role
  uv_active :: bool
  uv_createdAt :: string

definition toUserView :: "UserEntity \<Rightarrow> UserView" where
  "toUserView user = \<lparr>uv_id = u_id user, uv_email = u_email user, uv_role = u_role user,
     uv_active = u_active user, uv_createdAt = toISOString (u_createdAt user)\<rparr>"

record CreateUserDto =
  cu_email :: string
  cu_password :: string
  cu_role :: Role

record UpdateUserDto =
  uu_role :: "Role option"
  uu_active :: "bool option"

record JwtPayload =
  jwt_sub :: string
  jwt_email :: string
  jwt_role :: Role

fun role_name :: "Role \<Rightarrow> string" where
  "role_name admin = ''admin''"
| "role_name operator = ''operator''"
| "role_name auditor = ''auditor''"

section \<open>Accounts\<close>

definition user_created_asc :: "UserEntity \<Rightarrow> UserEntity \<Rightarrow> int" where
  "user_created_asc a b = u_createdAt a - u_createdAt b"

definition list_users :: "db \<Rightarrow> UserView list" where
  "list_users s = map toUserView (js_sort user_created_asc (users s))"

definition findOne_user :: "string \<Rightarrow> db \<Rightarrow> UserView result" where
  "findOne_user i s = (case get_by u_id i (users s) of
      None \<Rightarrow> throw (NotFoundException (''user '' @ i @ '' not found''))
    | Some user \<Rightarrow> return (toUserView user))"

definition create_user :: "(string \<Rightarrow> string) \<Rightarrow> instant \<Rightarrow> string \<Rightarrow> CreateUserDto \<Rightarrow> UserView op" where
  "create_user hashPassword now newId dto s = (let email = js_lower (js_trim (cu_email dto)) in
     case get_by u_email email (users s) of
       Some _ \<Rightarrow> throw (ConflictException (''a user with email '' @ email @ '' already exists''))
     | None \<Rightarrow> (let user = \<lparr>u_id = newId, u_email = email, u_passwordHash = hashPassword (cu_password dto),
          u_role = cu_role dto, u_active = True, u_createdAt = now\<rparr>
        in return (toUserView user, s\<lparr>users := insert_row user (users s)\<rparr>)))"

text \<open>One transaction that locks the row and the other admin rows, so it is one step of the model.\<close>

definition losing_admin :: "UpdateUserDto \<Rightarrow> UserEntity \<Rightarrow> bool" where
  "losing_admin dto user = (u_role user = admin \<and>
     ((uu_role dto \<noteq> None \<and> uu_role dto \<noteq> Some admin) \<or> uu_active dto = Some False))"

definition other_admins :: "string \<Rightarrow> db \<Rightarrow> UserEntity list" where
  "other_admins i s = find_all (\<lambda>u. u_role u = admin \<and> u_active u \<and> u_id u \<noteq> i) (users s)"

definition update_user :: "string \<Rightarrow> UpdateUserDto \<Rightarrow> string \<Rightarrow> UserView op" where
  "update_user i dto actor s =
    (if uu_role dto = None \<and> uu_active dto = None
     then throw (BadRequestException ''nothing to update: provide role, active, or both'')
     else (case get_by u_id i (users s) of
         None \<Rightarrow> throw (NotFoundException (''user '' @ i @ '' not found''))
       | Some user \<Rightarrow>
           if losing_admin dto user \<and> other_admins i s = []
           then throw (ConflictException (''this is the last active admin; promote another user to admin first, ''
             @ ''otherwise nobody can manage accounts, hubs or devices''))
           else if i = actor \<and> uu_active dto = Some False
           then throw (ForbiddenException ''you cannot deactivate your own account'')
           else if i = actor \<and> uu_role dto \<noteq> None \<and> uu_role dto \<noteq> Some (u_role user)
           then throw (ForbiddenException ''you cannot change your own role; ask another admin to do it'')
           else (let user' = user\<lparr>u_role := with_default (uu_role dto) (u_role user),
                 u_active := with_default (uu_active dto) (u_active user)\<rparr>
             in return (toUserView user', s\<lparr>users := patch_by u_id i (\<lambda>_. user') (users s)\<rparr>))))"

definition resetPassword :: "(string \<Rightarrow> string) \<Rightarrow> string \<Rightarrow> string \<Rightarrow> UserView op" where
  "resetPassword hashPassword i newPassword s = (case get_by u_id i (users s) of
      None \<Rightarrow> throw (NotFoundException (''user '' @ i @ '' not found''))
    | Some user \<Rightarrow> (let user' = user\<lparr>u_passwordHash := hashPassword newPassword\<rparr>
        in return (toUserView user', s\<lparr>users := patch_by u_id i (\<lambda>_. user') (users s)\<rparr>)))"

text \<open>\<open>argon2.verify(...).catch(() => false)\<close>\<close>

definition password_ok :: "(string \<Rightarrow> string \<Rightarrow> bool option) \<Rightarrow> string \<Rightarrow> string \<Rightarrow> bool" where
  "password_ok argonVerify hash password = with_default (argonVerify hash password) False"

definition changeOwnPassword ::
  "(string \<Rightarrow> string) \<Rightarrow> (string \<Rightarrow> string \<Rightarrow> bool option) \<Rightarrow> string \<Rightarrow> string \<Rightarrow> string \<Rightarrow> unit op" where
  "changeOwnPassword hashPassword argonVerify userId currentPassword newPassword s =
    (case get_by u_id userId (users s) of
      None \<Rightarrow> throw (UnauthorizedException ''account is no longer active'')
    | Some user \<Rightarrow>
        if \<not> password_ok argonVerify (u_passwordHash user) currentPassword
        then throw (UnauthorizedException ''current password is incorrect'')
        else if currentPassword = newPassword
        then throw (BadRequestException ''the new password must differ from the current one'')
        else (let user' = user\<lparr>u_passwordHash := hashPassword newPassword\<rparr>
          in return ((), s\<lparr>users := patch_by u_id userId (\<lambda>_. user') (users s)\<rparr>)))"

section \<open>Login\<close>

definition DUMMY_ARGON2_HASH :: string where
  "DUMMY_ARGON2_HASH =
    ''$argon2id$v=19$m=65536,t=3,p=4$c2FsdHNhbHRzYWx0c2FsdA$3vC2N0YQ0kCq9K6l6H5t0aVQ0Yl7pWc0FhVv0eE2sLk''"

definition validate :: "(string \<Rightarrow> string \<Rightarrow> bool option) \<Rightarrow> string \<Rightarrow> string \<Rightarrow> db \<Rightarrow> UserEntity result" where
  "validate argonVerify email password s = (let user = get_by u_email (js_lower email) (users s);
       hash = (case user of None \<Rightarrow> DUMMY_ARGON2_HASH | Some u \<Rightarrow> u_passwordHash u);
       ok = password_ok argonVerify hash password
     in case user of
         None \<Rightarrow> throw (UnauthorizedException ''invalid credentials'')
       | Some u \<Rightarrow> if \<not> ok \<or> \<not> u_active u then throw (UnauthorizedException ''invalid credentials'') else return u)"

definition login ::
  "(string \<Rightarrow> string \<Rightarrow> bool option) \<Rightarrow> (JwtPayload \<Rightarrow> string) \<Rightarrow> string \<Rightarrow> string \<Rightarrow> db \<Rightarrow> (string \<times> Role) result" where
  "login argonVerify signJwt email password s = (case validate argonVerify email password s of
      Inl e \<Rightarrow> throw e
    | Inr user \<Rightarrow> return (signJwt \<lparr>jwt_sub = u_id user, jwt_email = u_email user, jwt_role = u_role user\<rparr>, u_role user))"

section \<open>Guards\<close>

text \<open>What a route declares, and what the guard reads of a request.\<close>

record route =
  rt_isPublic :: bool
  rt_roles :: "Role list"

definition jwt_canActivate ::
  "(string \<Rightarrow> JwtPayload option) \<Rightarrow> route \<Rightarrow> string option \<Rightarrow> db \<Rightarrow> JwtPayload option result" where
  "jwt_canActivate jwtVerify rt authorization s =
    (if rt_isPublic rt then return None
     else (case authorization of
         None \<Rightarrow> throw (UnauthorizedException ''missing bearer token'')
       | Some header \<Rightarrow>
           if \<not> starts_with ''Bearer '' header then throw (UnauthorizedException ''missing bearer token'')
           else (case jwtVerify (drop 7 header) of
               None \<Rightarrow> throw (UnauthorizedException ''invalid or expired token'')
             | Some claims \<Rightarrow> (case get_by u_id (jwt_sub claims) (users s) of
                 None \<Rightarrow> throw (UnauthorizedException ''account is no longer active'')
               | Some user \<Rightarrow>
                   if \<not> u_active user then throw (UnauthorizedException ''account is no longer active'')
                   else if rt_roles rt \<noteq> [] \<and> u_role user \<notin> set (rt_roles rt)
                   then throw (ForbiddenException (''requires role: '' @ join_with '' or '' (map role_name (rt_roles rt))))
                   else return (Some \<lparr>jwt_sub = u_id user, jwt_email = u_email user, jwt_role = u_role user\<rparr>)))))"

text \<open>\<open>timingSafeEqual\<close> is equality of byte strings.\<close>

definition matchesToken :: "string \<Rightarrow> string \<Rightarrow> bool" where
  "matchesToken token presented = (let expected = utf8 token; given = utf8 presented in
     if length given \<noteq> length expected then False else given = expected)"

definition worker_canActivate :: "string \<Rightarrow> string option \<Rightarrow> bool result" where
  "worker_canActivate token presented = (case presented of
      None \<Rightarrow> throw (UnauthorizedException ''missing or invalid anchor worker token'')
    | Some p \<Rightarrow> if \<not> matchesToken token p
        then throw (UnauthorizedException ''missing or invalid anchor worker token'') else return True)"

section \<open>Invariant\<close>

text \<open>
  Ids and emails are unique, an email is stored trimmed and in lower case, and
  once there is an active administrator there always is one.
\<close>

definition users_ok :: "db \<Rightarrow> bool" where
  "users_ok s = (distinct (map u_id (users s)) \<and> distinct (map u_email (users s))
     \<and> (\<forall>u \<in> set (users s). js_lower (js_trim (u_email u)) = u_email u))"

definition has_admin :: "db \<Rightarrow> bool" where
  "has_admin s = (\<exists>u \<in> set (users s). u_role u = admin \<and> u_active u)"

lemma update_user_eq:
  assumes "update_user i dto actor s = Inr (v, s')" and "users_ok s"
  obtains u where "get_by u_id i (users s) = Some u"
    "losing_admin dto u \<longrightarrow> other_admins i s \<noteq> []"
    "i = actor \<longrightarrow> uu_active dto \<noteq> Some False \<and> (uu_role dto = None \<or> uu_role dto = Some (u_role u))"
    "s' = s\<lparr>users := patch_by u_id i (\<lambda>u. u\<lparr>u_role := with_default (uu_role dto) (u_role u),
       u_active := with_default (uu_active dto) (u_active u)\<rparr>) (users s)\<rparr>"
    "v = toUserView (u\<lparr>u_role := with_default (uu_role dto) (u_role u), u_active := with_default (uu_active dto) (u_active u)\<rparr>)"
proof -
  obtain u where u: "get_by u_id i (users s) = Some u"
    using assms(1) by (auto simp: update_user_def split: option.splits if_splits)
  let ?f = "\<lambda>u. u\<lparr>u_role := with_default (uu_role dto) (u_role u), u_active := with_default (uu_active dto) (u_active u)\<rparr>"
  have "s' = s\<lparr>users := patch_by u_id i (\<lambda>_. ?f u) (users s)\<rparr>" "v = toUserView (?f u)"
    and "losing_admin dto u \<longrightarrow> other_admins i s \<noteq> []"
    and "i = actor \<longrightarrow> uu_active dto \<noteq> Some False \<and> (uu_role dto = None \<or> uu_role dto = Some (u_role u))"
    using assms(1) u by (auto simp: update_user_def Let_def split: if_splits)
  moreover have "patch_by u_id i (\<lambda>_. ?f u) (users s) = patch_by u_id i ?f (users s)"
    using assms(2) u by (intro saved_row) (auto simp: users_ok_def)
  ultimately show ?thesis using that u by simp
qed

lemma patched_users_ok:
  assumes "users_ok s" and "\<And>u. u_id (f u) = u_id u \<and> u_email (f u) = u_email u"
  shows "users_ok (s\<lparr>users := patch_by u_id i f (users s)\<rparr>)"
proof -
  have "map u_id (patch_by u_id i f (users s)) = map u_id (users s)"
    "map u_email (patch_by u_id i f (users s)) = map u_email (users s)"
    using assms(2) by (simp_all add: patch_by_def map_update_where_same)
  then show ?thesis using assms by (auto simp: users_ok_def set_patch_by)
qed

lemma update_user_ok: "users_ok s \<Longrightarrow> update_user i dto actor s = Inr (v, s') \<Longrightarrow> users_ok s'"
  by (erule update_user_eq, assumption) (simp add: patched_users_ok)

lemma update_user_has_admin:
  assumes "users_ok s" and "has_admin s" and "update_user i dto actor s = Inr (v, s')"
  shows "has_admin s'"
proof -
  let ?f = "\<lambda>u. u\<lparr>u_role := with_default (uu_role dto) (u_role u), u_active := with_default (uu_active dto) (u_active u)\<rparr>"
  obtain u where u: "get_by u_id i (users s) = Some u" "losing_admin dto u \<longrightarrow> other_admins i s \<noteq> []"
      and s': "users s' = patch_by u_id i ?f (users s)"
    by (rule update_user_eq[OF assms(3,1)]) auto
  obtain a where a: "a \<in> set (users s)" "u_role a = admin" "u_active a" using assms(2) by (auto simp: has_admin_def)
  have keep: "x \<in> set (users s) \<Longrightarrow> u_id x \<noteq> i \<Longrightarrow> x \<in> set (users s')" for x
    using patch_byI[of x "users s" u_id i ?f] by (simp add: s')
  show ?thesis
  proof (cases "u_id a = i")
    case False
    then show ?thesis using keep a by (auto simp: has_admin_def)
  next
    case True
    have "distinct (map u_id (users s))" using assms(1) by (simp add: users_ok_def)
    then have au: "a = u" using a(1) True u(1) get_by_unique[of u_id "users s" a] by simp
    show ?thesis
    proof (cases "losing_admin dto u")
      case True
      then obtain b where "b \<in> set (other_admins i s)" using u(2) by (cases "other_admins i s") auto
      then show ?thesis using keep by (auto simp: has_admin_def other_admins_def)
    next
      case False
      have "?f a \<in> set (users s')" using patch_byI[of a "users s" u_id i ?f] True a(1) by (simp add: s')
      moreover have "u_role (?f a) = admin" "u_active (?f a)"
        using False a au by (auto simp: losing_admin_def with_default_def split: option.splits)
      ultimately show ?thesis unfolding has_admin_def by blast
    qed
  qed
qed

lemma js_lower_idem [simp]: "js_lower (js_lower s) = js_lower s"
  by (simp add: js_lower_def lower_char_def Let_def)

lemma starts_withD: "starts_with p s \<Longrightarrow> s = p @ drop (length p) s"
  by (metis append_take_drop_id starts_with_def)

lemma create_user_eq:
  assumes "create_user hp now i dto s = Inr (v, s')"
  shows "get_by u_email (js_lower (js_trim (cu_email dto))) (users s) = None"
    and "s' = s\<lparr>users := insert_row \<lparr>u_id = i, u_email = js_lower (js_trim (cu_email dto)),
        u_passwordHash = hp (cu_password dto), u_role = cu_role dto, u_active = True, u_createdAt = now\<rparr> (users s)\<rparr>"
  using assms by (auto simp: create_user_def Let_def split: option.splits)

lemma lower_space [simp]: "is_space (lower_char c) = is_space c"
  by (auto simp: lower_char_def is_space_def Let_def)

lemma trimmed_lower [simp]: "trimmed (js_lower s) = trimmed s"
  by (cases s rule: rev_cases) (auto simp: trimmed_def js_lower_def hd_append hd_map)

lemma lower_trim_stored: "js_lower (js_trim (js_lower (js_trim e))) = js_lower (js_trim e)"
proof -
  have "js_trim (js_lower (js_trim e)) = js_lower (js_trim e)" by (rule js_trim_trimmed) simp
  then show ?thesis by simp
qed

lemma create_user_ok:
  assumes "users_ok s" and "create_user hp now i dto s = Inr (v, s')" and "i \<notin> u_id ` set (users s)"
  shows "users_ok s'"
  using assms(1,3) create_user_eq[OF assms(2)] by (auto simp: users_ok_def get_by_None_iff lower_trim_stored)

lemma create_user_has_admin: "has_admin s \<Longrightarrow> create_user hp now i dto s = Inr (v, s') \<Longrightarrow> has_admin s'"
  by (auto simp: has_admin_def dest!: create_user_eq(2))

lemma resetPassword_eq:
  assumes "resetPassword hp i pw s = Inr (v, s')" and "users_ok s"
  shows "s' = s\<lparr>users := patch_by u_id i (\<lambda>u. u\<lparr>u_passwordHash := hp pw\<rparr>) (users s)\<rparr>"
  using assms saved_row[of u_id "users s" i _ "\<lambda>u. u\<lparr>u_passwordHash := hp pw\<rparr>"]
  by (auto simp: resetPassword_def users_ok_def Let_def split: option.splits)

lemma changeOwnPassword_eq:
  assumes "changeOwnPassword hp av i cur new s = Inr (v, s')" and "users_ok s"
  shows "s' = s\<lparr>users := patch_by u_id i (\<lambda>u. u\<lparr>u_passwordHash := hp new\<rparr>) (users s)\<rparr>" "cur \<noteq> new"
    "\<exists>u. get_by u_id i (users s) = Some u \<and> password_ok av (u_passwordHash u) cur"
  using assms saved_row[of u_id "users s" i _ "\<lambda>u. u\<lparr>u_passwordHash := hp new\<rparr>"]
  by (auto simp: changeOwnPassword_def users_ok_def Let_def split: option.splits if_splits)

lemma password_patch_has_admin:
  assumes "has_admin s" and s': "users s' = patch_by u_id i (\<lambda>u. u\<lparr>u_passwordHash := h\<rparr>) (users s)"
  shows "has_admin s'"
proof -
  obtain u where u: "u \<in> set (users s)" "u_role u = admin" "u_active u" using assms(1) by (auto simp: has_admin_def)
  define u' where "u' = (if u_id u = i then u\<lparr>u_passwordHash := h\<rparr> else u)"
  have "u' \<in> set (users s')" unfolding s' u'_def by (rule patch_byI[OF u(1)])
  then show ?thesis using u unfolding has_admin_def by (intro bexI[of _ u']) (auto simp: u'_def)
qed

section \<open>Properties\<close>

text \<open>C24. No update can leave the deployment without an active administrator, nor an administrator
  demoted or deactivated by their own request: the invariant of the accounts and an active
  administrator survive every accepted update, and the actor's own account keeps its role and its
  activity.\<close>

theorem update_keeps_an_admin:
  assumes "users_ok s" and "has_admin s" and "update_user i dto actor s = Inr (v, s')"
    and "get_by u_id actor (users s) = Some a"
  shows "users_ok s' \<and> has_admin s'
    \<and> (\<exists>a'. get_by u_id actor (users s') = Some a' \<and> u_role a' = u_role a \<and> (\<not> u_active a \<or> u_active a'))"
proof -
  obtain u where u: "get_by u_id i (users s) = Some u"
      "i = actor \<longrightarrow> uu_active dto \<noteq> Some False \<and> (uu_role dto = None \<or> uu_role dto = Some (u_role u))"
      "users s' = patch_by u_id i (\<lambda>u. u\<lparr>u_role := with_default (uu_role dto) (u_role u),
         u_active := with_default (uu_active dto) (u_active u)\<rparr>) (users s)"
    by (rule update_user_eq[OF assms(3,1)]) auto
  then have "\<exists>a'. get_by u_id actor (users s') = Some a' \<and> u_role a' = u_role a \<and> (\<not> u_active a \<or> u_active a')"
    using assms(4) by (auto simp: get_by_patch_by with_default_def split: option.splits)
  then show ?thesis
    using update_user_ok[OF assms(1,3)] update_user_has_admin[OF assms(1-3)] by blast
qed

definition sample_users :: db where
  "sample_users = \<lparr>hubs = [], collectors = [], devices = [], batches = [], events = [], transfers = [], anchors = [],
     attempts = [], users = [
       \<lparr>u_id = ''1'', u_email = ''a@x'', u_passwordHash = ''h'', u_role = admin, u_active = True, u_createdAt = 0\<rparr>,
       \<lparr>u_id = ''2'', u_email = ''b@x'', u_passwordHash = ''h'', u_role = admin, u_active = True, u_createdAt = 1\<rparr>],
     materials = []\<rparr>"

definition demotion :: UpdateUserDto where
  "demotion = \<lparr>uu_role = Some auditor, uu_active = None\<rparr>"

definition demoted_users :: db where
  "demoted_users = snd (projr (update_user ''2'' demotion ''1'' sample_users))"

lemma sample_users_ok: "users_ok sample_users" "has_admin sample_users"
proof -
  have "js_lower (js_trim ''a@x'') = ''a@x''" "js_lower (js_trim ''b@x'') = ''b@x''" by code_simp+
  then show "users_ok sample_users" by (simp add: users_ok_def sample_users_def)
  show "has_admin sample_users" by (simp add: has_admin_def sample_users_def)
qed

lemma sample_demotion:
  "update_user ''2'' demotion ''1'' sample_users = Inr (fst (projr (update_user ''2'' demotion ''1'' sample_users)), demoted_users)"
  by (simp add: update_user_def sample_users_def demotion_def demoted_users_def get_by_def losing_admin_def other_admins_def
      find_all_def Let_def)

lemma sample_first: "get_by u_id ''1'' (users sample_users) =
    Some \<lparr>u_id = ''1'', u_email = ''a@x'', u_passwordHash = ''h'', u_role = admin, u_active = True, u_createdAt = 0\<rparr>"
  by (simp add: sample_users_def get_by_def)

theorem update_keeps_an_admin_witness:
  "users_ok demoted_users \<and> has_admin demoted_users
    \<and> (\<exists>a'. get_by u_id ''1'' (users demoted_users) = Some a' \<and> u_role a' = admin \<and> (\<not> True \<or> u_active a'))"
  using update_keeps_an_admin[OF sample_users_ok sample_demotion sample_first] by simp

text \<open>The row decides, not the token: a request that passes the guard of a protected route belongs
  to an account that exists and is active at that moment and, when the route names roles, has one of
  them; the identity handed to the handler is that of the row, whatever role the token claims.\<close>

theorem guard_reads_the_row:
  assumes "jwt_canActivate jwtVerify rt header s = Inr (Some who)"
  shows "\<not> rt_isPublic rt \<and> (\<exists>u tok claims. header = Some (''Bearer '' @ tok) \<and> jwtVerify tok = Some claims
    \<and> u \<in> set (users s) \<and> u_id u = jwt_sub claims \<and> u_active u
    \<and> (rt_roles rt = [] \<or> u_role u \<in> set (rt_roles rt))
    \<and> who = \<lparr>jwt_sub = u_id u, jwt_email = u_email u, jwt_role = u_role u\<rparr>)"
proof -
  obtain h claims u where h: "header = Some h" "starts_with ''Bearer '' h" "jwtVerify (drop 7 h) = Some claims"
      and u: "get_by u_id (jwt_sub claims) (users s) = Some u" "u_active u" "\<not> rt_isPublic rt"
        "rt_roles rt = [] \<or> u_role u \<in> set (rt_roles rt)"
        "who = \<lparr>jwt_sub = u_id u, jwt_email = u_email u, jwt_role = u_role u\<rparr>"
    using assms by (auto simp: jwt_canActivate_def split: if_splits option.splits)
  have len: "length ''Bearer '' = 7" by simp
  have "h = ''Bearer '' @ drop 7 h" using starts_withD[OF h(2)] unfolding len .
  then show ?thesis using h u get_by_SomeD[OF u(1)] by blast
qed

definition sample_claims :: "string \<Rightarrow> JwtPayload option" where
  "sample_claims tok = (if tok = ''t2'' then Some \<lparr>jwt_sub = ''2'', jwt_email = ''b@x'', jwt_role = admin\<rparr> else None)"

lemma sample_request: "jwt_canActivate sample_claims \<lparr>rt_isPublic = False, rt_roles = []\<rparr> (Some ''Bearer t2'') demoted_users =
    Inr (Some \<lparr>jwt_sub = ''2'', jwt_email = ''b@x'', jwt_role = auditor\<rparr>)"
proof -
  have "demoted_users = snd (projr (Inr (undefined :: UserView, demoted_users)))" by simp
  have u: "get_by u_id ''2'' (users demoted_users) = Some \<lparr>u_id = ''2'', u_email = ''b@x'', u_passwordHash = ''h'', u_role = auditor,
      u_active = True, u_createdAt = 1\<rparr>"
    by (simp add: demoted_users_def update_user_def sample_users_def demotion_def get_by_def losing_admin_def other_admins_def
        find_all_def Let_def patch_by_def update_where_def)
  then show ?thesis by (simp add: jwt_canActivate_def sample_claims_def starts_with_def)
qed

theorem guard_reads_the_row_witness:
  "\<exists>u tok claims. Some ''Bearer t2'' = Some (''Bearer '' @ tok) \<and> sample_claims tok = Some claims
    \<and> u \<in> set (users demoted_users) \<and> u_id u = jwt_sub claims \<and> u_active u \<and> jwt_role claims = admin \<and> u_role u = auditor"
proof -
  obtain u tok claims where e: "Some ''Bearer t2'' = Some (''Bearer '' @ tok)" "sample_claims tok = Some claims"
      "u \<in> set (users demoted_users)" "u_id u = jwt_sub claims" "u_active u" "auditor = u_role u"
    using guard_reads_the_row[OF sample_request] by auto
  then have "jwt_role claims = admin" by (auto simp: sample_claims_def split: if_splits)
  then show ?thesis using e by auto
qed

text \<open>An account signs in with the password it was created with, however the address was
  spelled: upper or lower case, blanks around it at creation.\<close>

theorem created_account_signs_in:
  assumes "create_user hashPassword now i dto s = Inr (v, s')"
    and "js_lower email = js_lower (js_trim (cu_email dto))"
    and "argonVerify (hashPassword (cu_password dto)) (cu_password dto) = Some True"
  shows "\<exists>u. validate argonVerify email (cu_password dto) s' = Inr u \<and> u_id u = i \<and> u_role u = cu_role dto"
  using create_user_eq[OF assms(1)] assms(2,3)
  by (simp add: validate_def get_by_insert_row password_ok_def)

definition newcomer :: CreateUserDto where
  "newcomer = \<lparr>cu_email = '' Ops@X '', cu_password = ''pw'', cu_role = operator\<rparr>"

lemma newcomer_created:
  "create_user (\<lambda>p. p) 7 ''3'' newcomer sample_users =
    Inr (fst (projr (create_user (\<lambda>p. p) 7 ''3'' newcomer sample_users)), snd (projr (create_user (\<lambda>p. p) 7 ''3'' newcomer sample_users)))"
proof -
  have "js_lower (js_trim (cu_email newcomer)) = ''ops@x''" unfolding newcomer_def by code_simp
  then show ?thesis by (simp add: create_user_def sample_users_def get_by_def Let_def)
qed

theorem created_account_signs_in_witness:
  "\<exists>u. validate (\<lambda>h p. Some (h = p)) ''OPS@x'' (cu_password newcomer) (snd (projr (create_user (\<lambda>p. p) 7 ''3'' newcomer sample_users))) = Inr u
    \<and> u_id u = ''3'' \<and> u_role u = cu_role newcomer"
proof (rule created_account_signs_in[OF newcomer_created])
  show "js_lower ''OPS@x'' = js_lower (js_trim (cu_email newcomer))" unfolding newcomer_def by code_simp
qed simp

end
