(* ===== verification/RateLimit.thy ===== *)
theory RateLimit
  imports Prelude NumberPrinting "HOL-Library.AList"
begin

text \<open>
  The rate limit guard (apps/backend/src/common/rate-limit.guard.ts): one bucket
  per route and client address, reset when its window is over, with an occasional
  sweep of expired buckets.  The buckets are the entries of the JavaScript map;
  \<open>roll\<close> is what \<open>Math.random\<close> returned.
\<close>

record RateLimitOptions =
  rl_limit :: int
  rl_windowSeconds :: int

record Bucket =
  bk_count :: int
  bk_resetAt :: int

record request =
  rq_method :: string
  rq_routePath :: "string option"
  rq_path :: string
  rq_ip :: "string option"
  rq_remoteAddress :: "string option"

type_synonym buckets = "(string \<times> Bucket) list"

definition clientIp :: "request \<Rightarrow> string" where
  "clientIp rq = with_default (rq_ip rq) (with_default (rq_remoteAddress rq) ''unknown'')"

definition rate_key :: "request \<Rightarrow> string" where
  "rate_key rq = rq_method rq @ '' '' @ with_default (rq_routePath rq) (rq_path rq) @ '':'' @ clientIp rq"

definition maybeEvictExpired :: "int \<Rightarrow> rat \<Rightarrow> buckets \<Rightarrow> buckets" where
  "maybeEvictExpired now roll bs =
    (if length bs < 10000 \<or> roll > 1 / 100 then bs
     else filter (\<lambda>(_, bucket). \<not> bk_resetAt bucket \<le> now) bs)"

definition rate_step :: "RateLimitOptions \<Rightarrow> string \<Rightarrow> int \<Rightarrow> rat \<Rightarrow> buckets \<Rightarrow> bool result \<times> buckets" where
  "rate_step opts key now roll bs = (case map_of bs key of
      Some existing \<Rightarrow>
        if bk_resetAt existing \<le> now
        then (return True, maybeEvictExpired now roll (AList.update key
               \<lparr>bk_count = 1, bk_resetAt = now + rl_windowSeconds opts * 1000\<rparr> bs))
        else if bk_count existing \<ge> rl_limit opts
        then (throw (TooManyRequestsException (''rate limit exceeded: max '' @ int_to_string (rl_limit opts)
               @ '' requests per '' @ int_to_string (rl_windowSeconds opts) @ ''s'')), bs)
        else (return True, AList.update key (existing\<lparr>bk_count := bk_count existing + 1\<rparr>) bs)
    | None \<Rightarrow> (return True, maybeEvictExpired now roll (AList.update key
               \<lparr>bk_count = 1, bk_resetAt = now + rl_windowSeconds opts * 1000\<rparr> bs)))"

text \<open>A route without the decorator is let through and touches no bucket.\<close>

definition rate_canActivate ::
  "RateLimitOptions option \<Rightarrow> request \<Rightarrow> int \<Rightarrow> rat \<Rightarrow> buckets \<Rightarrow> bool result \<times> buckets" where
  "rate_canActivate options rq now roll bs = (case options of
      None \<Rightarrow> (return True, bs)
    | Some opts \<Rightarrow> rate_step opts (rate_key rq) now roll bs)"

section \<open>Sequences of requests\<close>

text \<open>The times at which requests for one key were let through, among requests for any keys.\<close>

fun admitted :: "(string \<Rightarrow> RateLimitOptions) \<Rightarrow> string \<Rightarrow> (string \<times> int \<times> rat) list \<Rightarrow> buckets \<Rightarrow> int list" where
  "admitted opts k [] bs = []"
| "admitted opts k ((key, now, roll) # rqs) bs = (case rate_step (opts key) key now roll bs of
      (outcome, bs') \<Rightarrow> (if key = k \<and> outcome = Inr True then [now] else []) @ admitted opts k rqs bs')"

definition timely :: "int \<Rightarrow> (string \<times> int \<times> rat) list \<Rightarrow> bool" where
  "timely t rqs = (sorted (map (\<lambda>(_, now, _). now) rqs) \<and> (\<forall>(_, now, _) \<in> set rqs. t \<le> now))"

lemma timely_Cons: "timely t ((key, now, roll) # rqs) \<Longrightarrow> t \<le> now \<and> timely now rqs"
  by (auto simp: timely_def)

text \<open>A bucket that is expired or absent grants a full window, a live one what is left of it.\<close>

definition lapsed :: "int \<Rightarrow> Bucket option \<Rightarrow> bool" where
  "lapsed t bo = (case bo of None \<Rightarrow> True | Some b \<Rightarrow> bk_resetAt b \<le> t)"

lemma lapsed_mono: "lapsed t bo \<Longrightarrow> t \<le> t' \<Longrightarrow> lapsed t' bo"
  by (auto simp: lapsed_def split: option.splits)

lemma map_of_filter_live:
  assumes "distinct (map fst bs)"
  shows "map_of (filter (\<lambda>(_, b). \<not> bk_resetAt b \<le> now) bs) k =
    (case map_of bs k of None \<Rightarrow> None | Some b \<Rightarrow> if bk_resetAt b \<le> now then None else Some b)"
  using assms by (induction bs) (auto split: option.splits dest: map_of_SomeD simp: image_iff map_of_eq_None_iff)

lemma distinct_evict: "distinct (map fst bs) \<Longrightarrow> distinct (map fst (maybeEvictExpired now roll bs))"
  by (simp add: maybeEvictExpired_def distinct_map_filter)

lemma rate_step_distinct:
  "distinct (map fst bs) \<Longrightarrow> rate_step opts key now roll bs = (out, bs') \<Longrightarrow> distinct (map fst bs')"
  by (auto simp: rate_step_def intro!: distinct_evict distinct_update split: option.splits if_splits)

lemma evict_lookup:
  assumes "distinct (map fst bs)"
  shows "map_of (maybeEvictExpired now roll bs) k = map_of bs k
    \<or> map_of (maybeEvictExpired now roll bs) k = None \<and> lapsed now (map_of bs k)"
  using map_of_filter_live[OF assms, of now k]
  by (auto simp: maybeEvictExpired_def lapsed_def split: option.splits if_splits)

text \<open>A request for another key, and the sweep it may run, change nothing that matters.\<close>

lemma rate_step_other:
  assumes "distinct (map fst bs)" and "rate_step opts key now roll bs = (out, bs')" and "key \<noteq> k"
  shows "map_of bs' k = map_of bs k \<or> map_of bs' k = None \<and> lapsed now (map_of bs k)"
proof -
  have "map_of (maybeEvictExpired now roll (AList.update key b bs)) k = map_of bs k
      \<or> map_of (maybeEvictExpired now roll (AList.update key b bs)) k = None \<and> lapsed now (map_of bs k)" for b
    using evict_lookup[OF distinct_update[OF assms(1)], of now roll key b k] assms(3) by (simp add: update_conv')
  then show ?thesis
    using assms(2,3) by (auto simp: rate_step_def update_conv' split: option.splits if_splits)
qed

lemma rate_step_same:
  assumes "distinct (map fst bs)" and "rate_step opts k now roll bs = (out, bs')" and "0 < rl_windowSeconds opts"
  shows "lapsed now (map_of bs k) \<Longrightarrow> out = Inr True \<and> map_of bs' k = Some \<lparr>bk_count = 1, bk_resetAt = now + rl_windowSeconds opts * 1000\<rparr>"
    and "map_of bs k = Some b \<Longrightarrow> now < bk_resetAt b \<Longrightarrow> rl_limit opts \<le> bk_count b \<Longrightarrow> out \<noteq> Inr True \<and> bs' = bs"
    and "map_of bs k = Some b \<Longrightarrow> now < bk_resetAt b \<Longrightarrow> bk_count b < rl_limit opts \<Longrightarrow>
      out = Inr True \<and> map_of bs' k = Some (b\<lparr>bk_count := bk_count b + 1\<rparr>)"
proof -
  let ?new = "AList.update k \<lparr>bk_count = 1, bk_resetAt = now + rl_windowSeconds opts * 1000\<rparr> bs"
  have "map_of (maybeEvictExpired now roll ?new) k = map_of ?new k"
    using evict_lookup[OF distinct_update[OF assms(1)], of now roll k _ k] assms(3)
    by (fastforce simp: update_conv' lapsed_def)
  then show "lapsed now (map_of bs k) \<Longrightarrow> out = Inr True \<and> map_of bs' k = Some \<lparr>bk_count = 1, bk_resetAt = now + rl_windowSeconds opts * 1000\<rparr>"
    using assms(2) by (auto simp: rate_step_def lapsed_def update_conv' split: option.splits if_splits)
qed (use assms(2) in \<open>auto simp: rate_step_def update_conv' split: option.splits if_splits\<close>)

section \<open>What a window admits\<close>

definition before :: "int \<Rightarrow> int list \<Rightarrow> nat" where
  "before b ts = length (filter (\<lambda>t. t < b) ts)"

lemma before_Cons [simp]: "before b (t # ts) = (if t < b then Suc (before b ts) else before b ts)"
  by (simp add: before_def)

lemma before_Nil [simp]: "before b [] = 0"
  by (simp add: before_def)

lemma admitted_late: "timely t rqs \<Longrightarrow> b \<le> t \<Longrightarrow> before b (admitted opts k rqs bs) = 0"
proof (induction rqs arbitrary: t bs)
  case (Cons rq rqs)
  obtain key now roll where rq: "rq = (key, now, roll)" by (cases rq)
  obtain out bs' where step: "rate_step (opts key) key now roll bs = (out, bs')" by fastforce
  have "t \<le> now" "timely now rqs" using timely_Cons Cons.prems(1) rq by blast+
  then show ?case using Cons.IH[of now bs'] Cons.prems(2) by (simp add: rq step)
qed simp

text \<open>What is admitted before the current window of the bucket is over.\<close>

lemma admitted_in_window:
  assumes "0 < rl_windowSeconds (opts k)"
  shows "timely t rqs \<Longrightarrow> distinct (map fst bs) \<Longrightarrow> map_of bs k = Some bk \<Longrightarrow> bk_count bk \<le> rl_limit (opts k) \<Longrightarrow>
    int (before (bk_resetAt bk) (admitted opts k rqs bs)) \<le> rl_limit (opts k) - bk_count bk"
proof (induction rqs arbitrary: t bs bk)
  case (Cons rq rqs)
  obtain key now roll where rq: "rq = (key, now, roll)" by (cases rq)
  obtain out bs' where step: "rate_step (opts key) key now roll bs = (out, bs')" by fastforce
  have tm: "t \<le> now" "timely now rqs" using timely_Cons Cons.prems(1) rq by blast+
  have d: "distinct (map fst bs')" using rate_step_distinct[OF Cons.prems(2) step] .
  show ?case
  proof (cases "bk_resetAt bk \<le> now")
    case True
    then have "before (bk_resetAt bk) (admitted opts k rqs bs') = 0" by (intro admitted_late[OF tm(2)])
    then show ?thesis using True Cons.prems(4) by (simp add: rq step)
  next
    case live: False
    show ?thesis
    proof (cases "key = k")
      case other: False
      then have "map_of bs' k = Some bk"
        using rate_step_other[OF Cons.prems(2) step other] Cons.prems(3) live by (auto simp: lapsed_def)
      then show ?thesis using Cons.IH[OF tm(2) d _ Cons.prems(4)] other by (simp add: rq step)
    next
      case True
      note S = rate_step_same[OF Cons.prems(2) step[unfolded True] assms]
      show ?thesis
      proof (cases "rl_limit (opts k) \<le> bk_count bk")
        case True
        then have "out \<noteq> Inr True" "bs' = bs" using S(2)[OF Cons.prems(3)] live by simp_all
        then show ?thesis using Cons.IH[OF tm(2) Cons.prems(2-4)] by (simp add: rq step)
      next
        case False
        then have b': "out = Inr True" "map_of bs' k = Some (bk\<lparr>bk_count := bk_count bk + 1\<rparr>)"
          using S(3)[OF Cons.prems(3)] live by simp_all
        then have "int (before (bk_resetAt bk) (admitted opts k rqs bs')) \<le> rl_limit (opts k) - (bk_count bk + 1)"
          using Cons.IH[OF tm(2) d b'(2)] False by simp
        then show ?thesis using live b' by (simp add: rq step eqTrueI[OF \<open>key = k\<close>])
      qed
    qed
  qed
qed simp

text \<open>From a lapsed bucket, one window's worth in the next window length.\<close>

lemma admitted_fresh:
  assumes "0 < rl_windowSeconds (opts k)" and "1 \<le> rl_limit (opts k)"
  shows "timely t rqs \<Longrightarrow> distinct (map fst bs) \<Longrightarrow> lapsed t (map_of bs k) \<Longrightarrow> b \<le> t + rl_windowSeconds (opts k) * 1000 \<Longrightarrow>
    int (before b (admitted opts k rqs bs)) \<le> rl_limit (opts k)"
proof (induction rqs arbitrary: t bs)
  case Nil
  then show ?case using assms(2) by simp
next
  case (Cons rq rqs)
  obtain key now roll where rq: "rq = (key, now, roll)" by (cases rq)
  obtain out bs' where step: "rate_step (opts key) key now roll bs = (out, bs')" by fastforce
  have tm: "t \<le> now" "timely now rqs" using timely_Cons Cons.prems(1) rq by blast+
  have d: "distinct (map fst bs')" using rate_step_distinct[OF Cons.prems(2) step] .
  have l: "lapsed now (map_of bs k)" using Cons.prems(3) tm(1) by (rule lapsed_mono)
  show ?case
  proof (cases "key = k")
    case other: False
    have "lapsed now (map_of bs' k)"
      using rate_step_other[OF Cons.prems(2) step other] l by (auto simp: lapsed_def)
    then show ?thesis using Cons.IH[OF tm(2) d] Cons.prems(4) tm(1) other by (simp add: rq step)
  next
    case True
    let ?new = "\<lparr>bk_count = 1, bk_resetAt = now + rl_windowSeconds (opts k) * 1000\<rparr>"
    have s: "out = Inr True" "map_of bs' k = Some ?new"
      using rate_step_same(1)[OF Cons.prems(2) step[unfolded True] assms(1) l] by simp_all
    have "int (before (bk_resetAt ?new) (admitted opts k rqs bs')) \<le> rl_limit (opts k) - 1"
      using admitted_in_window[where opts = opts and k = k, OF assms(1) tm(2) d s(2)] assms(2) by simp
    moreover have "before b ts \<le> before (bk_resetAt ?new) ts" for ts
      using Cons.prems(4) tm(1) by (induction ts) auto
    ultimately have "int (before b (admitted opts k rqs bs')) \<le> rl_limit (opts k) - 1"
      by (meson of_nat_mono order_trans)
    then show ?thesis using s(1) assms(2) by (auto simp: rq step eqTrueI[OF \<open>key = k\<close>])
  qed
qed

text \<open>From a live bucket, what it has left and one more window's worth.\<close>

lemma admitted_live:
  assumes "0 < rl_windowSeconds (opts k)" and "1 \<le> rl_limit (opts k)"
  shows "timely t rqs \<Longrightarrow> distinct (map fst bs) \<Longrightarrow> map_of bs k = Some bk \<Longrightarrow> bk_count bk \<le> rl_limit (opts k) \<Longrightarrow>
    b \<le> bk_resetAt bk + rl_windowSeconds (opts k) * 1000 \<Longrightarrow>
    int (before b (admitted opts k rqs bs)) \<le> 2 * rl_limit (opts k) - bk_count bk"
proof (induction rqs arbitrary: t bs bk)
  case Nil
  then show ?case using assms(2) by simp
next
  case (Cons rq rqs)
  obtain key now roll where rq: "rq = (key, now, roll)" by (cases rq)
  obtain out bs' where step: "rate_step (opts key) key now roll bs = (out, bs')" by fastforce
  have tm: "t \<le> now" "timely now rqs" using timely_Cons Cons.prems(1) rq by blast+
  have d: "distinct (map fst bs')" using rate_step_distinct[OF Cons.prems(2) step] .
  show ?case
  proof (cases "bk_resetAt bk \<le> now")
    case True
    have "timely now (rq # rqs)" using Cons.prems(1) by (auto simp: timely_def rq)
    then have "int (before b (admitted opts k (rq # rqs) bs)) \<le> rl_limit (opts k)"
      using Cons.prems(3,5) True by (intro admitted_fresh[where opts = opts and k = k and t = now, OF assms _ Cons.prems(2)]) (auto simp: lapsed_def)
    then show ?thesis using Cons.prems(4) by simp
  next
    case live: False
    show ?thesis
    proof (cases "key = k")
      case other: False
      then have "map_of bs' k = Some bk"
        using rate_step_other[OF Cons.prems(2) step other] Cons.prems(3) live by (auto simp: lapsed_def)
      then show ?thesis using Cons.IH[OF tm(2) d _ Cons.prems(4,5)] other by (simp add: rq step)
    next
      case True
      note S = rate_step_same[OF Cons.prems(2) step[unfolded True] assms(1)]
      show ?thesis
      proof (cases "rl_limit (opts k) \<le> bk_count bk")
        case True
        then have "out \<noteq> Inr True" "bs' = bs" using S(2)[OF Cons.prems(3)] live by simp_all
        then show ?thesis using Cons.IH[OF tm(2) Cons.prems(2-5)] by (simp add: rq step)
      next
        case False
        then have b': "out = Inr True" "map_of bs' k = Some (bk\<lparr>bk_count := bk_count bk + 1\<rparr>)"
          using S(3)[OF Cons.prems(3)] live by simp_all
        then have "int (before b (admitted opts k rqs bs')) \<le> 2 * rl_limit (opts k) - (bk_count bk + 1)"
          using Cons.IH[OF tm(2) d b'(2)] False Cons.prems(5) by simp
        then show ?thesis using b' by (simp add: rq step eqTrueI[OF \<open>key = k\<close>])
      qed
    qed
  qed
qed

definition bucket_ok :: "RateLimitOptions \<Rightarrow> Bucket option \<Rightarrow> bool" where
  "bucket_ok opts bo = (case bo of None \<Rightarrow> True | Some bk \<Rightarrow> 1 \<le> bk_count bk \<and> bk_count bk \<le> rl_limit opts)"

lemma rate_step_bucket_ok:
  assumes "distinct (map fst bs)" and "bucket_ok (opts k) (map_of bs k)" and "1 \<le> rl_limit (opts k)"
    and "0 < rl_windowSeconds (opts k)" and "rate_step (opts key) key now roll bs = (out, bs')"
  shows "bucket_ok (opts k) (map_of bs' k)"
proof (cases "key = k")
  case False
  then show ?thesis using rate_step_other[OF assms(1,5) False] assms(2) by (auto simp: bucket_ok_def)
next
  case True
  note S = rate_step_same[OF assms(1) assms(5)[unfolded True] assms(4)]
  show ?thesis
  proof (cases "lapsed now (map_of bs k)")
    case True
    then show ?thesis using S(1) assms(3) by (simp add: bucket_ok_def)
  next
    case False
    then obtain bk where bk: "map_of bs k = Some bk" "now < bk_resetAt bk"
      by (auto simp: lapsed_def split: option.splits)
    then show ?thesis using S(2,3)[OF bk] assms(2) by (cases "rl_limit (opts k) \<le> bk_count bk") (auto simp: bucket_ok_def)
  qed
qed

lemma admitted_interval:
  assumes "0 < rl_windowSeconds (opts k)" and "1 \<le> rl_limit (opts k)"
  shows "timely t rqs \<Longrightarrow> distinct (map fst bs) \<Longrightarrow> bucket_ok (opts k) (map_of bs k) \<Longrightarrow>
    int (length (filter (\<lambda>x. a \<le> x \<and> x < a + rl_windowSeconds (opts k) * 1000) (admitted opts k rqs bs))) \<le> 2 * rl_limit (opts k)"
proof (induction rqs arbitrary: t bs)
  case Nil
  then show ?case using assms(2) by simp
next
  case (Cons rq rqs)
  let ?b = "a + rl_windowSeconds (opts k) * 1000"
  obtain key now roll where rq: "rq = (key, now, roll)" by (cases rq)
  obtain out bs' where step: "rate_step (opts key) key now roll bs = (out, bs')" by fastforce
  have tm: "t \<le> now" "timely now rqs" using timely_Cons Cons.prems(1) rq by blast+
  have all: "timely now (rq # rqs)" using Cons.prems(1) by (auto simp: timely_def rq)
  have sub: "length (filter (\<lambda>x. a \<le> x \<and> x < ?b) ts) \<le> before ?b ts" for ts
    by (induction ts) auto
  show ?case
  proof (cases "now < a")
    case True
    have "bucket_ok (opts k) (map_of bs' k)"
      by (rule rate_step_bucket_ok[OF Cons.prems(2,3) assms(2,1) step])
    then show ?thesis using Cons.IH[OF tm(2) rate_step_distinct[OF Cons.prems(2) step]] True by (simp add: rq step)
  next
    case False
    have "int (before ?b (admitted opts k (rq # rqs) bs)) \<le> 2 * rl_limit (opts k)"
    proof (cases "lapsed now (map_of bs k)")
      case True
      then have "int (before ?b (admitted opts k (rq # rqs) bs)) \<le> rl_limit (opts k)"
        using admitted_fresh[where opts = opts and k = k, OF assms all Cons.prems(2)] False by simp
      then show ?thesis using assms(2) by simp
    next
      case live: False
      then obtain bk where bk: "map_of bs k = Some bk" "now < bk_resetAt bk" "1 \<le> bk_count bk" "bk_count bk \<le> rl_limit (opts k)"
        using Cons.prems(3) by (auto simp: lapsed_def bucket_ok_def split: option.splits)
      then show ?thesis using admitted_live[where opts = opts and k = k, OF assms all Cons.prems(2) bk(1,4), of ?b] False by simp
    qed
    then show ?thesis using sub[of "admitted opts k (rq # rqs) bs"] by linarith
  qed
qed

section \<open>Properties\<close>

text \<open>C31. In any interval as long as its window a route admits at most twice its limit from one
  client, whatever requests of other routes and clients come between and whenever expired buckets
  are swept: the windows are fixed, not sliding, so twice the limit is the guarantee.\<close>

theorem rate_limit_bounds_any_interval:
  assumes "sorted (map (\<lambda>(_, now, _). now) rqs)" and "1 \<le> rl_limit (opts k)" and "0 < rl_windowSeconds (opts k)"
  shows "int (length (filter (\<lambda>x. a \<le> x \<and> x < a + rl_windowSeconds (opts k) * 1000) (admitted opts k rqs []))) \<le> 2 * rl_limit (opts k)"
proof -
  have "\<exists>t. timely t rqs"
  proof (cases rqs)
    case (Cons rq rest)
    then show ?thesis using assms(1) by (intro exI[of _ "case rq of (_, now, _) \<Rightarrow> now"]) (auto simp: timely_def)
  qed (simp add: timely_def)
  then show ?thesis using admitted_interval[where opts = opts and k = k, OF assms(3,2), of _ rqs "[]" a] by (auto simp: bucket_ok_def)
qed

definition two_per_second :: "string \<Rightarrow> RateLimitOptions" where
  "two_per_second k = \<lparr>rl_limit = 2, rl_windowSeconds = 1\<rparr>"

definition burst :: "(string \<times> int \<times> rat) list" where
  "burst = [(''k'', 0, 1), (''k'', 999, 1), (''k'', 1000, 1), (''k'', 1001, 1), (''k'', 1002, 1)]"

theorem rate_limit_bounds_any_interval_witness:
  "int (length (filter (\<lambda>x. 999 \<le> x \<and> x < 999 + rl_windowSeconds (two_per_second ''k'') * 1000) (admitted two_per_second ''k'' burst [])))
    \<le> 2 * rl_limit (two_per_second ''k'')"
  by (rule rate_limit_bounds_any_interval) (simp_all add: burst_def two_per_second_def)

text \<open>The limiter is not the sliding window its options are documented as: with a limit of two
  per second, three requests within three milliseconds are all let through.\<close>

theorem rate_limit_window_is_fixed:
  "admitted two_per_second ''k'' burst [] = [0, 999, 1000, 1001]"
  by (simp add: burst_def two_per_second_def rate_step_def maybeEvictExpired_def)

end
