(* ===== verification/Photos.thy ===== *)
theory Photos
  imports Domain JsDate
begin

text \<open>
  Weigh-in photos: image detection (apps/backend/src/photos/image-type.ts), the
  content-addressed store (photo-store.ts), attaching and serving
  (photos.service.ts, photos.controller.ts).  The disk maps absolute paths to the
  bytes of files; writes that fail are outside the model.
\<close>

section \<open>Image types\<close>

datatype ImageType = image_jpeg | image_png | image_webp | image_heic

fun image_type_name :: "ImageType \<Rightarrow> string" where
  "image_type_name image_jpeg = ''image/jpeg''"
| "image_type_name image_png = ''image/png''"
| "image_type_name image_webp = ''image/webp''"
| "image_type_name image_heic = ''image/heic''"

record Signature =
  sg_type :: ImageType
  sg_offset :: nat
  sg_magic :: bytes

definition SIGNATURES :: "Signature list" where
  "SIGNATURES = [
     \<lparr>sg_type = image_jpeg, sg_offset = 0, sg_magic = [0xff, 0xd8, 0xff]\<rparr>,
     \<lparr>sg_type = image_png, sg_offset = 0, sg_magic = [0x89, 0x50, 0x4e, 0x47, 0x0d, 0x0a, 0x1a, 0x0a]\<rparr>,
     \<lparr>sg_type = image_webp, sg_offset = 0, sg_magic = [0x52, 0x49, 0x46, 0x46]\<rparr>,
     \<lparr>sg_type = image_heic, sg_offset = 4, sg_magic = [0x66, 0x74, 0x79, 0x70]\<rparr>]"

definition matches_signature :: "bytes \<Rightarrow> Signature \<Rightarrow> bool" where
  "matches_signature bs sg = (let stop = sg_offset sg + length (sg_magic sg) in
     if length bs < stop then False
     else take (length (sg_magic sg)) (drop (sg_offset sg) bs) = sg_magic sg)"

text \<open>\<open>subarray(8, 12).toString("ascii")\<close>: Node clears the high bit of every byte.\<close>

definition ascii_text :: "bytes \<Rightarrow> string" where
  "ascii_text bs = map (\<lambda>b. char_of (unat b mod 128)) bs"

definition brand :: "bytes \<Rightarrow> string" where
  "brand bs = ascii_text (take 4 (drop 8 bs))"

definition HEIC_BRANDS :: "string list" where
  "HEIC_BRANDS = [''heic'', ''heix'', ''hevc'', ''mif1'', ''msf1'']"

definition brand_ok :: "ImageType \<Rightarrow> bytes \<Rightarrow> bool" where
  "brand_ok t bs = (case t of
      image_webp \<Rightarrow> length bs \<ge> 12 \<and> brand bs = ''WEBP''
    | image_heic \<Rightarrow> brand bs \<in> set HEIC_BRANDS
    | _ \<Rightarrow> True)"

definition detectImageType :: "bytes \<Rightarrow> ImageType option" where
  "detectImageType bs =
    map_option sg_type (find_one (\<lambda>sg. matches_signature bs sg \<and> brand_ok (sg_type sg) bs) SIGNATURES)"

section \<open>The store\<close>

record StoredPhoto =
  sp_sha256 :: string
  sp_bytes :: nat
  sp_relativePath :: string

type_synonym disk = "string \<Rightarrow> bytes option"

definition relativePathFor :: "string \<Rightarrow> string result" where
  "relativePathFor sha =
    (if \<not> is_hash64 sha then throw (PlainError (''not a sha256 digest: '' @ sha))
     else return (take 2 sha @ ''/'' @ take 2 (drop 2 sha) @ ''/'' @ sha @ ''.bin''))"

definition absolutePathFor :: "string \<Rightarrow> string \<Rightarrow> string result" where
  "absolutePathFor root_dir sha = map_sum id (\<lambda>p. root_dir @ ''/'' @ p) (relativePathFor sha)"

definition put_photo :: "string \<Rightarrow> bytes \<Rightarrow> disk \<Rightarrow> StoredPhoto \<times> disk" where
  "put_photo root_dir bs d = (let sha = sha256Hex bs; relative = projr (relativePathFor sha) in
     (\<lparr>sp_sha256 = sha, sp_bytes = length bs, sp_relativePath = relative\<rparr>, d(root_dir @ ''/'' @ relative \<mapsto> bs)))"

definition read_photo :: "string \<Rightarrow> string \<Rightarrow> disk \<Rightarrow> bytes option" where
  "read_photo root_dir sha d = (case absolutePathFor root_dir sha of Inl _ \<Rightarrow> None | Inr p \<Rightarrow> d p)"

definition has_photo :: "string \<Rightarrow> string \<Rightarrow> disk \<Rightarrow> bool" where
  "has_photo root_dir sha d = (case absolutePathFor root_dir sha of Inl _ \<Rightarrow> False | Inr p \<Rightarrow> d p \<noteq> None)"

text \<open>
  The contract of a content-addressed store: bytes are found under their digest
  and under no other name, and a name is always the digest of what it holds.
\<close>

locale content_store =
  fixes put :: "bytes \<Rightarrow> 's \<Rightarrow> 'm \<times> 's"
    and get :: "string \<Rightarrow> 's \<Rightarrow> bytes option"
    and present :: "string \<Rightarrow> 's \<Rightarrow> bool"
    and digest_of :: "bytes \<Rightarrow> string"
    and invar :: "'s \<Rightarrow> bool"
  assumes get_put: "get k (snd (put bs s)) = (if k = digest_of bs then Some bs else get k s)"
    and present_iff: "present k s \<longleftrightarrow> get k s \<noteq> None"
    and invar_put: "invar s \<Longrightarrow> invar (snd (put bs s))"
    and invar_get: "invar s \<Longrightarrow> get k s = Some bs \<Longrightarrow> digest_of bs = k"
begin

lemma get_put_same: "get (digest_of bs) (snd (put bs s)) = Some bs"
  by (simp add: get_put)

lemma get_put_other: "k \<noteq> digest_of bs \<Longrightarrow> get k (snd (put bs s)) = get k s"
  by (simp add: get_put)

text \<open>A second upload of the same bytes changes no lookup; what was there differs only by a collision.\<close>

lemma put_again: "get k (snd (put bs (snd (put bs s)))) = get k (snd (put bs s))"
  by (simp add: get_put)

lemma put_over:
  "invar s \<Longrightarrow> get (digest_of bs) s = Some old \<Longrightarrow> old = bs \<or> digest_of old = digest_of bs \<and> old \<noteq> bs"
  by (auto dest: invar_get)

lemma put_keeps: "get k s = Some b \<Longrightarrow> \<exists>b'. get k (snd (put bs s)) = Some b' \<and> (b' = b \<or> k = digest_of bs \<and> b' = bs)"
  by (simp add: get_put)

end

definition disk_ok :: "string \<Rightarrow> disk \<Rightarrow> bool" where
  "disk_ok root_dir d = (\<forall>k bs. read_photo root_dir k d = Some bs \<longrightarrow> sha256Hex bs = k)"

lemma relativePathFor_eq: "is_hash64 k \<Longrightarrow>
    relativePathFor k = Inr (take 2 k @ ''/'' @ take 2 (drop 2 k) @ ''/'' @ k @ ''.bin'')"
  by (simp add: relativePathFor_def)

lemma relative_path_inj:
  assumes "is_hash64 j" and "is_hash64 k" and "relativePathFor j = relativePathFor k"
  shows "j = k"
proof -
  have len: "length j = 64" "length k = 64" using assms(1,2) by (auto simp: is_hash64_def)
  have "take 2 j @ ''/'' @ take 2 (drop 2 j) @ ''/'' @ j @ ''.bin'' = take 2 k @ ''/'' @ take 2 (drop 2 k) @ ''/'' @ k @ ''.bin''"
    using assms by (simp add: relativePathFor_eq)
  then show ?thesis using len by (simp add: append_eq_append_conv)
qed

lemma absolute_path_inj:
  "is_hash64 j \<Longrightarrow> is_hash64 k \<Longrightarrow> absolutePathFor r j = absolutePathFor r k \<Longrightarrow> j = k"
  by (rule relative_path_inj) (auto simp: absolutePathFor_def relativePathFor_eq)

lemma read_put:
  "read_photo r k (snd (put_photo r bs d)) = (if k = sha256Hex bs then Some bs else read_photo r k d)"
proof (cases "is_hash64 k")
  case True
  have h: "is_hash64 (sha256Hex bs)" by simp
  show ?thesis
    using absolute_path_inj[OF True h, of r] True
    by (auto simp: read_photo_def put_photo_def absolutePathFor_def relativePathFor_eq Let_def)
next
  case False
  then have "k \<noteq> sha256Hex bs" by auto
  then show ?thesis using False by (simp add: read_photo_def absolutePathFor_def relativePathFor_def)
qed

interpretation photo_store: content_store "put_photo r" "read_photo r" "has_photo r" sha256Hex "disk_ok r" for r
proof
  show "read_photo r k (snd (put_photo r bs d)) = (if k = sha256Hex bs then Some bs else read_photo r k d)" for k bs d
    by (rule read_put)
  show "has_photo r k d \<longleftrightarrow> read_photo r k d \<noteq> None" for k d
    by (auto simp: has_photo_def read_photo_def split: sum.splits)
  show "disk_ok r d \<Longrightarrow> disk_ok r (snd (put_photo r bs d))" for bs d
    by (simp add: disk_ok_def read_put)
  show "disk_ok r d \<Longrightarrow> read_photo r k d = Some bs \<Longrightarrow> sha256Hex bs = k" for d k bs
    by (simp add: disk_ok_def)
qed

section \<open>Attaching and serving\<close>

record ServedPhoto =
  sv_bytes :: bytes
  sv_sha256 :: string
  sv_contentType :: string

record PhotoAttachment =
  pa_eventId :: string
  pa_sha256 :: string
  pa_bytes :: nat
  pa_contentType :: ImageType
  pa_alreadyStored :: bool

definition attach_photo ::
  "string \<Rightarrow> jsnum \<Rightarrow> string \<Rightarrow> bytes \<Rightarrow> db \<times> disk \<Rightarrow> (PhotoAttachment \<times> db \<times> disk) result" where
  "attach_photo root_dir maxBytes eventId bs st = (case st of (s, d) \<Rightarrow>
     if length bs = 0 then throw (BadRequestException ''photo body is empty'')
     else if js_gt (js_of_int (int (length bs))) maxBytes then throw (PayloadTooLargeException
       (''photo is '' @ int_to_string (int (length bs)) @ '' bytes; the limit is '' @ num_to_string maxBytes))
     else (case get_by e_id eventId (events s) of
         None \<Rightarrow> throw (NotFoundException (''event '' @ eventId @ '' not found''))
       | Some event \<Rightarrow> (case detectImageType bs of
           None \<Rightarrow> throw (BadRequestException ''photo body is not a recognised image (jpeg, png, webp or heic)'')
         | Some contentType \<Rightarrow> (let sha = sha256Hex bs in
             if sha \<noteq> e_photoHash event then throw (BadRequestException
               (''photo does not match the signed photoHash for this weigh-in (got '' @ sha @ '')''))
             else (let alreadyStored = has_photo root_dir sha d; (stored, d') = put_photo root_dir bs d;
                 s' = s\<lparr>events := patch_by e_id eventId (\<lambda>e. e\<lparr>e_photoUri := Some (sp_relativePath stored)\<rparr>) (events s)\<rparr>
               in return (\<lparr>pa_eventId = eventId, pa_sha256 = sha, pa_bytes = sp_bytes stored,
                    pa_contentType = contentType, pa_alreadyStored = alreadyStored\<rparr>, s', d'))))))"

definition photo_forEvent :: "string \<Rightarrow> string \<Rightarrow> db \<times> disk \<Rightarrow> ServedPhoto option result" where
  "photo_forEvent root_dir eventId st = (case st of (s, d) \<Rightarrow>
     (case get_by e_id eventId (events s) of
        None \<Rightarrow> throw (NotFoundException (''event '' @ eventId @ '' not found''))
      | Some event \<Rightarrow>
          if e_photoUri event = None \<or> e_photoUri event = Some '''' then return None
          else (case read_photo root_dir (e_photoHash event) d of
              None \<Rightarrow> return None
            | Some bs \<Rightarrow> return (Some \<lparr>sv_bytes = bs, sv_sha256 = e_photoHash event,
                sv_contentType = (case detectImageType bs of None \<Rightarrow> ''application/octet-stream''
                   | Some t \<Rightarrow> image_type_name t)\<rparr>))))"

record http_reply =
  hr_status :: nat
  hr_headers :: "(string \<times> string) list"
  hr_body :: bytes

definition serve_photo :: "string \<Rightarrow> string \<Rightarrow> string option \<Rightarrow> db \<times> disk \<Rightarrow> http_reply result" where
  "serve_photo root_dir eventId ifNoneMatch st = (case photo_forEvent root_dir eventId st of
      Inl e \<Rightarrow> throw e
    | Inr None \<Rightarrow> throw (NotFoundException (''no photo has been uploaded for event '' @ eventId))
    | Inr (Some photo) \<Rightarrow> (let etag = [CHR 0x22] @ sv_sha256 photo @ [CHR 0x22] in
        if ifNoneMatch = Some etag
        then return \<lparr>hr_status = 304,
          hr_headers = [(''Cache-Control'', ''public, max-age=31536000, immutable'')], hr_body = []\<rparr>
        else return \<lparr>hr_status = 200,
          hr_headers = [(''Cache-Control'', ''public, max-age=31536000, immutable''), (''ETag'', etag),
            (''Content-Type'', sv_contentType photo),
            (''Content-Length'', int_to_string (int (length (sv_bytes photo)))),
            (''X-Content-Type-Options'', ''nosniff''),
            (''Content-Disposition'', ''inline; filename='' @ [CHR 0x22] @ sv_sha256 photo @ [CHR 0x22])],
          hr_body = sv_bytes photo\<rparr>))"

section \<open>Invariant\<close>

text \<open>An event that says it has a photo has it: the file is there and is an image.\<close>

definition photo_ok :: "string \<Rightarrow> disk \<Rightarrow> CollectionEventEntity \<Rightarrow> bool" where
  "photo_ok r d e = (case e_photoUri e of None \<Rightarrow> True
    | Some u \<Rightarrow> relativePathFor (e_photoHash e) = Inr u \<and>
        (\<exists>bs. read_photo r (e_photoHash e) d = Some bs \<and> detectImageType bs \<noteq> None))"

definition photos_ok :: "string \<Rightarrow> db \<times> disk \<Rightarrow> bool" where
  "photos_ok r st = (disk_ok r (snd st) \<and> (\<forall>e \<in> set (events (fst st)). photo_ok r (snd st) e))"

lemma attach_eq:
  assumes "attach_photo r m i bs (s, d) = Inr (pa, s', d')"
  obtains e t u where "get_by e_id i (events s) = Some e" "detectImageType bs = Some t" "sha256Hex bs = e_photoHash e"
    "relativePathFor (e_photoHash e) = Inr u" "d' = snd (put_photo r bs d)" "bs \<noteq> []"
    "s' = s\<lparr>events := patch_by e_id i (\<lambda>e. e\<lparr>e_photoUri := Some u\<rparr>) (events s)\<rparr>"
    "pa = \<lparr>pa_eventId = i, pa_sha256 = e_photoHash e, pa_bytes = length bs, pa_contentType = t,
       pa_alreadyStored = has_photo r (e_photoHash e) d\<rparr>"
proof -
  obtain e where e: "get_by e_id i (events s) = Some e"
    using assms by (auto simp: attach_photo_def split: if_splits option.splits)
  obtain t where t: "detectImageType bs = Some t"
    using assms e by (auto simp: attach_photo_def split: if_splits option.splits)
  have h: "sha256Hex bs = e_photoHash e" and ne: "bs \<noteq> []"
    using assms e t by (auto simp: attach_photo_def Let_def split: if_splits)
  obtain u where u: "relativePathFor (e_photoHash e) = Inr u"
  proof -
    have "is_hash64 (e_photoHash e)" unfolding h[symmetric] by simp
    then show ?thesis using that relativePathFor_eq by blast
  qed
  have "d' = snd (put_photo r bs d)" "s' = s\<lparr>events := patch_by e_id i (\<lambda>e. e\<lparr>e_photoUri := Some u\<rparr>) (events s)\<rparr>"
    "pa = \<lparr>pa_eventId = i, pa_sha256 = e_photoHash e, pa_bytes = length bs, pa_contentType = t,
       pa_alreadyStored = has_photo r (e_photoHash e) d\<rparr>"
    using assms e t h ne u by (auto simp: attach_photo_def put_photo_def Let_def split: if_splits)
  then show ?thesis using that e t h u ne by blast
qed

lemma photo_ok_put:
  assumes "photo_ok r d e" and "detectImageType bs \<noteq> None"
  shows "photo_ok r (snd (put_photo r bs d)) e"
  using assms by (auto simp: photo_ok_def read_put split: option.splits)

lemma attach_photos_ok:
  assumes "photos_ok r (s, d)" and "attach_photo r m i bs (s, d) = Inr (pa, s', d')" and "distinct (map e_id (events s))"
  shows "photos_ok r (s', d')"
proof -
  obtain e t u where E: "get_by e_id i (events s) = Some e" "detectImageType bs = Some t" "sha256Hex bs = e_photoHash e"
      "relativePathFor (e_photoHash e) = Inr u" "d' = snd (put_photo r bs d)"
      "s' = s\<lparr>events := patch_by e_id i (\<lambda>e. e\<lparr>e_photoUri := Some u\<rparr>) (events s)\<rparr>"
    using attach_eq[OF assms(2)] by metis
  have "photo_ok r d' x" if x: "x \<in> set (events s')" for x
  proof -
    have "x \<in> set (patch_by e_id i (\<lambda>e. e\<lparr>e_photoUri := Some u\<rparr>) (events s))" using x E(6) by simp
    then obtain y where y: "y \<in> set (events s)" "x = (if e_id y = i then y\<lparr>e_photoUri := Some u\<rparr> else y)"
      by (rule patch_byE)
    have old: "photo_ok r d' y"
      unfolding E(5) using assms(1) y(1) E(2) by (intro photo_ok_put) (auto simp: photos_ok_def)
    show ?thesis
    proof (cases "e_id y = i")
      case True
      then have "y = e" using y(1) E(1) get_by_unique[OF assms(3) y(1)] by simp
      then show ?thesis using y True E(2-5) by (simp add: photo_ok_def read_put)
    qed (use y old in simp)
  qed
  moreover have "disk_ok r d'" unfolding E(5) using assms(1) by (simp add: photos_ok_def photo_store.invar_put)
  ultimately show ?thesis by (simp add: photos_ok_def)
qed

section \<open>Properties\<close>

text \<open>C25. What is accepted as the photo of a weigh-in is exactly the photo that was signed: the bytes hash
  to the photo hash of the event and are an image, and from then on the event serves these very bytes
  with the type detected in them, under its hash as the entity tag.\<close>

theorem attached_photo_is_served:
  assumes "attach_photo r m i bs (s, d) = Inr (pa, s', d')" and "distinct (map e_id (events s))"
  shows "(\<exists>e \<in> set (events s). e_id e = i \<and> e_photoHash e = sha256Hex bs) \<and> detectImageType bs = Some (pa_contentType pa)
    \<and> photo_forEvent r i (s', d') = Inr (Some \<lparr>sv_bytes = bs, sv_sha256 = sha256Hex bs,
        sv_contentType = image_type_name (pa_contentType pa)\<rparr>)
    \<and> (\<exists>rep. serve_photo r i None (s', d') = Inr rep \<and> hr_status rep = 200 \<and> hr_body rep = bs)"
proof -
  obtain e t u where E: "get_by e_id i (events s) = Some e" "detectImageType bs = Some t" "sha256Hex bs = e_photoHash e"
      "relativePathFor (e_photoHash e) = Inr u" "d' = snd (put_photo r bs d)"
      "s' = s\<lparr>events := patch_by e_id i (\<lambda>e. e\<lparr>e_photoUri := Some u\<rparr>) (events s)\<rparr>" "pa_contentType pa = t"
    using attach_eq[OF assms(1)] by (metis PhotoAttachment.select_convs(4))
  have "u \<noteq> ''''" using E(4) by (auto simp: relativePathFor_def split: if_splits)
  then have served: "photo_forEvent r i (s', d') = Inr (Some \<lparr>sv_bytes = bs, sv_sha256 = sha256Hex bs,
        sv_contentType = image_type_name (pa_contentType pa)\<rparr>)"
    using E by (simp add: photo_forEvent_def get_by_patch_by read_put)
  moreover have "\<exists>rep. serve_photo r i None (s', d') = Inr rep \<and> hr_status rep = 200 \<and> hr_body rep = bs"
    by (simp add: serve_photo_def served Let_def)
  moreover have "e \<in> set (events s) \<and> e_id e = i" using get_by_SomeD[OF E(1)] by blast
  ultimately show ?thesis using E by force
qed

definition jpeg :: bytes where "jpeg = [0xff, 0xd8, 0xff, 0xe0]"

definition photo_event :: CollectionEventEntity where
  "photo_event = \<lparr>e_id = ''e'', e_collectorId = ''c'', e_hubId = ''h'', e_deviceId = ''d'', e_batchId = None,
     e_weightKg = gram 1000, e_material = ''PET'', e_capturedAt = 0, e_receivedAt = 0, e_photoHash = sha256Hex jpeg,
     e_photoUri = None, e_nonce = ''n'', e_signature = ''s'', e_payloadHash = ''p'',
     e_integrity = \<lparr>v_outcome = pass, v_findings = []\<rparr>, e_quarantined = False\<rparr>"

definition photo_db :: db where
  "photo_db = \<lparr>hubs = [], collectors = [], devices = [], batches = [], events = [photo_event], transfers = [], anchors = [],
     attempts = [], users = [], materials = []\<rparr>"

lemma jpeg_is_image: "detectImageType jpeg = Some image_jpeg"
  by (simp add: detectImageType_def SIGNATURES_def jpeg_def matches_signature_def brand_ok_def)

lemma jpeg_attached: "\<exists>pa s' d'. attach_photo ''/p'' PosInf ''e'' jpeg (photo_db, Map.empty) = Inr (pa, s', d')"
proof -
  have ne: "jpeg \<noteq> []" by (simp add: jpeg_def)
  have "\<not> js_gt (js_of_int n) PosInf" for n by (cases "js_of_int n") (simp_all add: js_gt_def)
  then show ?thesis
    by (simp add: attach_photo_def jpeg_is_image photo_db_def photo_event_def get_by_def ne Let_def split: prod.splits)
qed

theorem attached_photo_is_served_witness:
  "\<exists>s' d'. photo_forEvent ''/p'' ''e'' (s', d') = Inr (Some \<lparr>sv_bytes = jpeg, sv_sha256 = sha256Hex jpeg, sv_contentType = ''image/jpeg''\<rparr>)"
proof -
  obtain pa s' d' where a: "attach_photo ''/p'' PosInf ''e'' jpeg (photo_db, Map.empty) = Inr (pa, s', d')"
    using jpeg_attached by blast
  have "distinct (map e_id (events photo_db))" by (simp add: photo_db_def)
  note A = attached_photo_is_served[OF a this]
  then have "pa_contentType pa = image_jpeg" using jpeg_is_image by simp
  then have "photo_forEvent ''/p'' ''e'' (s', d') =
      Inr (Some \<lparr>sv_bytes = jpeg, sv_sha256 = sha256Hex jpeg, sv_contentType = ''image/jpeg''\<rparr>)"
    using A by simp
  then show ?thesis by blast
qed

text \<open>A WEBP file is recognised by a comparison that ignores the high bit of the brand: a RIFF file
  whose brand is not WEBP in any encoding is taken for an image.\<close>

theorem webp_brand_ignores_high_bits:
  "detectImageType ([0x52, 0x49, 0x46, 0x46] @ [0, 0, 0, 0] @ [0xd7, 0xc5, 0xc2, 0xd0]) = Some image_webp"
  by code_simp

end
