(* ===== verification/Reports.thy ===== *)
theory Reports
  imports BatchProperties Custody
begin

text \<open>
  The audit report of a batch and its event log as CSV
  (apps/backend/src/reports/reports.service.ts).  \<open>verify\<close> is the ledger service
  at the moment of the report.
\<close>

section \<open>The document\<close>

record AuditReportEvent =
  re_eventId :: string
  re_collectorId :: string
  re_collectorName :: string
  re_weightKg :: jsnum
  re_material :: string
  re_capturedAt :: string
  re_receivedAt :: string
  re_photoHash :: string
  re_photoAvailable :: bool
  re_photoUrl :: "string option"
  re_payloadHash :: string
  re_leaf :: string
  re_merkleProof :: "MerkleProofStep list"
  re_integrityOutcome :: IntegrityOutcome
  re_integrityFindings :: "IntegrityFinding list"

record ReportBatch =
  rb_id :: string
  rb_status :: BatchStatus
  rb_material :: string
  rb_totalWeightKg :: jsnum
  rb_totalWeightTonnes :: jsnum
  rb_eventCount :: nat
  rb_sealedAt :: "string option"
  rb_createdAt :: string

record ReportCollector =
  rc_id :: string
  rc_name :: string
  rc_kycLevel :: KycLevel
  rc_eventCount :: nat
  rc_weightKg :: jsnum

record ReportTransfer =
  rt_id :: string
  rt_fromParty :: string
  rt_toParty :: string
  rt_weightInKg :: jsnum
  rt_weightOutKg :: jsnum
  rt_varianceKg :: jsnum
  rt_variancePct :: "jsnum option"
  rt_reason :: "string option"
  rt_transferredAt :: string

record Reconciliation =
  rn_collectedKg :: jsnum
  rn_finalWeightOutKg :: "jsnum option"
  rn_gapKg :: "jsnum option"
  rn_gapPct :: "jsnum option"
  rn_explained :: bool

record ReportProof =
  rp_merkleRoot :: "string option"
  rp_recomputedRoot :: "string option"
  rp_rootMatchesSealedValue :: bool
  rp_allProofsValid :: bool

record ReportOnChain =
  ro_network :: StellarNetwork
  ro_stellarTxHash :: string
  ro_stellarLedger :: int
  ro_dataEntryKey :: string
  ro_anchoredAt :: string
  ro_explorerUrl :: string
  ro_rootMatchesLedger :: "bool option"
  ro_memoMatches :: bool
  ro_dataEntryMatches :: bool
  ro_checkedAt :: string
  ro_detail :: string

record AuditReport =
  ar_generatedAt :: string
  ar_batch :: ReportBatch
  ar_hub :: "string \<times> string \<times> string"
  ar_collectors :: "ReportCollector list"
  ar_chainOfCustody :: "ReportTransfer list"
  ar_reconciliation :: Reconciliation
  ar_proof :: ReportProof
  ar_onChain :: "ReportOnChain option"
  ar_events :: "AuditReportEvent list"
  ar_attestationNotes :: "string list"

section \<open>Building it\<close>

definition attestationNotes :: "string list" where
  "attestationNotes = [
     ''The Stellar anchor proves these records existed unaltered at the anchored ledger time. It does not, by itself, prove the material weighed was real or additional.'',
     ''Source-level assurance comes from device signatures, hub geofencing, photo evidence and duplicate detection, recorded per event above.'',
     ''Each event's photoHash was signed by the capture device. Where photoAvailable is true, the stored bytes have been checked to hash to that value; download the photo and recompute the sha256 to confirm it independently.'',
     ''Baseline and additionality figures must be completed against the selected Verra Plastic Waste Reduction Standard track before submission.'']"

definition is_zero :: "jsnum \<Rightarrow> bool" where
  "is_zero a = js_eq a (Fin 0)"

definition percent :: "jsnum \<Rightarrow> jsnum \<Rightarrow> jsnum" where
  "percent part whole = js_quantise 2 (js_mul (js_div part whole) (Fin 100))"

definition collector_name :: "db \<Rightarrow> string \<Rightarrow> string" where
  "collector_name s i = (case get_by c_id i (collectors s) of None \<Rightarrow> ''(unknown)'' | Some c \<Rightarrow> c_name c)"

definition report_event :: "db \<Rightarrow> string list \<Rightarrow> CollectionEventEntity \<Rightarrow> nat \<Rightarrow> AuditReportEvent result" where
  "report_event s leaves e index = (case merkleProof leaves (int index) of
      Inl x \<Rightarrow> throw x
    | Inr path \<Rightarrow> return
       \<lparr>re_eventId = e_id e, re_collectorId = e_collectorId e, re_collectorName = collector_name s (e_collectorId e),
        re_weightKg = e_weightKg e, re_material = e_material e, re_capturedAt = toISOString (e_capturedAt e),
        re_receivedAt = toISOString (e_receivedAt e), re_photoHash = e_photoHash e,
        re_photoAvailable = (e_photoUri e \<noteq> None),
        re_photoUrl = (if e_photoUri e = None then None else Some (''/events/'' @ e_id e @ ''/photo'')),
        re_payloadHash = e_payloadHash e, re_leaf = leaves ! index, re_merkleProof = path,
        re_integrityOutcome = v_outcome (e_integrity e), re_integrityFindings = v_findings (e_integrity e)\<rparr>)"

definition report_collector :: "db \<Rightarrow> CollectionEventEntity list \<Rightarrow> string \<Rightarrow> ReportCollector" where
  "report_collector s es i = (let own = filter (\<lambda>e. e_collectorId e = i) es in
     \<lparr>rc_id = i, rc_name = collector_name s i,
      rc_kycLevel = (case get_by c_id i (collectors s) of None \<Rightarrow> kyc_none | Some c \<Rightarrow> c_kycLevel c),
      rc_eventCount = length own, rc_weightKg = js_quantise 3 (js_sum (map e_weightKg own))\<rparr>)"

definition report_transfer :: "CustodyTransferEntity \<Rightarrow> ReportTransfer" where
  "report_transfer t = \<lparr>rt_id = ct_id t, rt_fromParty = ct_fromParty t, rt_toParty = ct_toParty t,
     rt_weightInKg = ct_weightInKg t, rt_weightOutKg = ct_weightOutKg t, rt_varianceKg = ct_varianceKg t,
     rt_variancePct = (if is_zero (ct_weightInKg t) then None else Some (percent (ct_varianceKg t) (ct_weightInKg t))),
     rt_reason = ct_reason t, rt_transferredAt = toISOString (ct_transferredAt t)\<rparr>"

definition reconcile :: "CollectionEventEntity list \<Rightarrow> CustodyTransferEntity list \<Rightarrow> Reconciliation" where
  "reconcile es ts = (let collectedKg = js_quantise 3 (js_sum (map e_weightKg es));
       finalWeightOutKg = (if ts = [] then None else Some (ct_weightOutKg (last ts)));
       gapKg = map_option (\<lambda>w. js_quantise 3 (js_sub collectedKg w)) finalWeightOutKg
     in \<lparr>rn_collectedKg = collectedKg, rn_finalWeightOutKg = finalWeightOutKg, rn_gapKg = gapKg,
         rn_gapPct = (case gapKg of None \<Rightarrow> None
           | Some g \<Rightarrow> if is_zero collectedKg then None else Some (percent g collectedKg)),
         rn_explained = list_all (\<lambda>t. is_zero (ct_varianceKg t)
           \<or> (ct_reason t \<noteq> None \<and> ct_reason t \<noteq> Some '''')) ts\<rparr>)"

definition report_on_chain :: "AnchorRecordEntity \<Rightarrow> LedgerConfirmation \<Rightarrow> ReportOnChain" where
  "report_on_chain a c = \<lparr>ro_network = a_network a, ro_stellarTxHash = a_stellarTxHash a,
     ro_stellarLedger = a_stellarLedger a, ro_dataEntryKey = a_dataEntryKey a,
     ro_anchoredAt = toISOString (a_anchoredAt a), ro_explorerUrl = explorerUrl (a_network a) (a_stellarTxHash a),
     ro_rootMatchesLedger = lc_rootMatchesLedger c, ro_memoMatches = lc_memoMatches c,
     ro_dataEntryMatches = lc_dataEntryMatches c, ro_checkedAt = lc_checkedAt c, ro_detail = lc_detail c\<rparr>"

definition buildAuditReport ::
  "(AnchorToVerify \<Rightarrow> LedgerConfirmation result) \<Rightarrow> instant \<Rightarrow> string \<Rightarrow> db \<Rightarrow> AuditReport result" where
  "buildAuditReport verify now batchId s = (case get_by b_id batchId (batches s) of
      None \<Rightarrow> throw (NotFoundException (''no batch exists with id '' @ batchId))
    | Some batch \<Rightarrow> (case get_by h_id (b_hubId batch) (hubs s) of
        None \<Rightarrow> throw (InternalServerErrorException
          (''batch '' @ batchId @ '' references hub '' @ b_hubId batch @ '', which does not exist''))
      | Some hub \<Rightarrow> (let es = orderedEvents batchId s; ts = list_transfers batchId s; anchor = anchor_of batchId s
          in case (case anchor of None \<Rightarrow> return None
                | Some a \<Rightarrow> map_sum id Some (verify (to_verify a))) of
              Inl x \<Rightarrow> throw x
            | Inr confirmation \<Rightarrow> (let leaves = leavesOf es
                in case (if leaves = [] then return None else map_sum id Some (merkleRootHex leaves)) of
                    Inl x \<Rightarrow> throw x
                  | Inr recomputedRoot \<Rightarrow> (case sequence_results (map2 (report_event s leaves) es [0..<length es]) of
                      Inl x \<Rightarrow> throw x
                    | Inr reportEvents \<Rightarrow> return
                       \<lparr>ar_generatedAt = toISOString now,
                        ar_batch = \<lparr>rb_id = b_id batch, rb_status = b_status batch, rb_material = b_material batch,
                          rb_totalWeightKg = b_totalWeightKg batch,
                          rb_totalWeightTonnes = js_quantise 6 (js_div (b_totalWeightKg batch) (js_of_int 1000)),
                          rb_eventCount = b_eventCount batch,
                          rb_sealedAt = map_option toISOString (b_sealedAt batch),
                          rb_createdAt = toISOString (b_createdAt batch)\<rparr>,
                        ar_hub = (h_id hub, h_code hub, h_name hub),
                        ar_collectors = map (report_collector s es) (set_spread (map e_collectorId es)),
                        ar_chainOfCustody = map report_transfer ts,
                        ar_reconciliation = reconcile es ts,
                        ar_proof = \<lparr>rp_merkleRoot = b_merkleRoot batch, rp_recomputedRoot = recomputedRoot,
                          rp_rootMatchesSealedValue = (b_merkleRoot batch \<noteq> None \<and> recomputedRoot \<noteq> None
                            \<and> b_merkleRoot batch = recomputedRoot),
                          rp_allProofsValid = (case recomputedRoot of None \<Rightarrow> False
                            | Some r \<Rightarrow> list_all (\<lambda>e. verifyMerkleProof (re_leaf e) (re_merkleProof e) r) reportEvents)\<rparr>,
                        ar_onChain = (case anchor of None \<Rightarrow> None
                          | Some a \<Rightarrow> map_option (report_on_chain a) confirmation),
                        ar_events = reportEvents, ar_attestationNotes = attestationNotes\<rparr>)))))"

section \<open>The event log as CSV\<close>

definition quote_char :: char where "quote_char = CHR 0x22"

definition csv_special :: "char \<Rightarrow> bool" where
  "csv_special c = (c = quote_char \<or> c = CHR '','' \<or> c = CHR 0x0D \<or> c = CHR 0x0A)"

fun double_quotes :: "string \<Rightarrow> string" where
  "double_quotes [] = []"
| "double_quotes (c # cs) = (if c = quote_char then [c, c] else [c]) @ double_quotes cs"

definition csvCell :: "string \<Rightarrow> string" where
  "csvCell s = (if list_ex csv_special s then [quote_char] @ double_quotes s @ [quote_char] else s)"

definition csv_header :: "string list" where
  "csv_header = [''event_id'', ''collector_id'', ''collector_name'', ''captured_at'', ''received_at'', ''material'',
     ''weight_kg'', ''photo_sha256'', ''photo_url'', ''payload_sha256'', ''merkle_leaf'', ''integrity'']"

definition event_cells :: "AuditReportEvent \<Rightarrow> string list" where
  "event_cells e = [re_eventId e, re_collectorId e, re_collectorName e, re_capturedAt e, re_receivedAt e, re_material e,
     js_toFixed 3 (re_weightKg e), re_photoHash e, with_default (re_photoUrl e) '''', re_payloadHash e, re_leaf e,
     outcome_name (re_integrityOutcome e)]"

definition crlf :: string where "crlf = [CHR 0x0D, CHR 0x0A]"

definition event_csv :: "AuditReport \<Rightarrow> string" where
  "event_csv report = join_with crlf
     (join_with '','' csv_header # map (\<lambda>r. join_with '','' r) (map (\<lambda>e. map csvCell (event_cells e)) (ar_events report)))"

definition buildEventCsv ::
  "(AnchorToVerify \<Rightarrow> LedgerConfirmation result) \<Rightarrow> instant \<Rightarrow> string \<Rightarrow> db \<Rightarrow> string result" where
  "buildEventCsv verify now batchId s = map_sum id event_csv (buildAuditReport verify now batchId s)"

text \<open>
  The reader of RFC 4180, in quotes or not, with the field and the row read so
  far: what a spreadsheet does with the file.
\<close>

fun csv_read :: "bool \<Rightarrow> string \<Rightarrow> string list \<Rightarrow> string \<Rightarrow> string list list" where
  "csv_read q f r [] = [r @ [f]]"
| "csv_read True f r [c] = (if c = quote_char then [r @ [f]] else [r @ [f @ [c]]])"
| "csv_read True f r (c # d # cs) =
    (if c = quote_char then (if d = quote_char then csv_read True (f @ [c]) r cs else csv_read False f r (d # cs))
     else csv_read True (f @ [c]) r (d # cs))"
| "csv_read False f r (c # cs) =
    (if c = quote_char then csv_read True f r cs
     else if c = CHR '','' then csv_read False [] (r @ [f]) cs
     else if starts_with crlf (c # cs) then (r @ [f]) # csv_read False [] [] (tl cs)
     else csv_read False (f @ [c]) r cs)"

definition csv_rows :: "string \<Rightarrow> string list list" where
  "csv_rows s = csv_read False [] [] s"

section \<open>Reading the CSV back\<close>

lemma read_quoted:
  assumes "rest = [] \<or> hd rest \<noteq> quote_char"
  shows "csv_read True f r (double_quotes v @ quote_char # rest) = csv_read False (f @ v) r rest"
proof (induction v arbitrary: f)
  case Nil
  show ?case using assms by (cases rest) auto
next
  case (Cons c v)
  show ?case
  proof (cases "c = quote_char")
    case True
    then show ?thesis using Cons by simp
  next
    case False
    obtain d ds where "double_quotes v @ quote_char # rest = d # ds"
      by (cases "double_quotes v @ quote_char # rest") auto
    then show ?thesis using Cons[of "f @ [c]"] False by simp
  qed
qed

lemma read_plain:
  assumes "\<not> list_ex csv_special v"
  shows "csv_read False f r (v @ rest) = csv_read False (f @ v) r rest"
  using assms by (induction v arbitrary: f) (auto simp: csv_special_def starts_with_def crlf_def)

lemma read_cell:
  assumes "rest = [] \<or> hd rest \<noteq> quote_char"
  shows "csv_read False [] r (csvCell v @ rest) = csv_read False v r rest"
proof (cases "list_ex csv_special v")
  case True
  then show ?thesis using read_quoted[OF assms, of "[]" r v] by (simp add: csvCell_def)
next
  case False
  then show ?thesis using read_plain[OF False, of "[]" r rest] by (simp add: csvCell_def)
qed

lemma read_row:
  assumes "vs \<noteq> []" and "rest = [] \<or> starts_with crlf rest"
  shows "csv_read False [] r (join_with '','' (map csvCell vs) @ rest) =
    (if rest = [] then [r @ vs] else (r @ vs) # csv_read False [] [] (drop 2 rest))"
  using assms(1)
proof (induction vs arbitrary: r)
  case (Cons v vs)
  show ?case
  proof (cases vs)
    case Nil
    have "rest = [] \<or> hd rest \<noteq> quote_char"
      using assms(2) by (cases rest) (auto simp: starts_with_def crlf_def quote_char_def)
    then have e: "csv_read False [] r (csvCell v @ rest) = csv_read False v r rest" by (rule read_cell)
    show ?thesis
    proof (cases "rest = []")
      case True
      then show ?thesis using e Nil by simp
    next
      case False
      then obtain cs where "rest = crlf @ cs" using assms(2) unfolding starts_with_def by (metis append_take_drop_id)
      then show ?thesis using e Nil by (simp add: crlf_def quote_char_def starts_with_def)
    qed
  next
    case (Cons w ws)
    have "csv_read False [] r (csvCell v @ '','' @ join_with '','' (map csvCell vs) @ rest)
        = csv_read False v r ('','' @ join_with '','' (map csvCell vs) @ rest)"
      by (rule read_cell) (simp add: quote_char_def)
    also have "\<dots> = csv_read False [] (r @ [v]) (join_with '','' (map csvCell vs) @ rest)"
      by (simp add: quote_char_def)
    finally show ?thesis using Cons.IH[of "r @ [v]"] Cons by simp
  qed
qed simp

lemma read_rows:
  assumes "\<forall>vs \<in> set rows. vs \<noteq> []" and "rows \<noteq> []"
  shows "csv_rows (join_with crlf (map (\<lambda>vs. join_with '','' (map csvCell vs)) rows)) = rows"
  using assms
proof (induction rows)
  case (Cons vs rows)
  show ?case
  proof (cases rows)
    case Nil
    then show ?thesis using read_row[of vs "[]" "[]"] Cons.prems by (simp add: csv_rows_def)
  next
    case (Cons w ws)
    let ?rest = "crlf @ join_with crlf (map (\<lambda>vs. join_with '','' (map csvCell vs)) rows)"
    have "csv_rows (join_with '','' (map csvCell vs) @ ?rest)
        = vs # csv_rows (join_with crlf (map (\<lambda>vs. join_with '','' (map csvCell vs)) rows))"
      unfolding csv_rows_def by (subst read_row) (use Cons.prems in \<open>auto simp: starts_with_def crlf_def\<close>)
    then show ?thesis using Cons Cons.IH Cons.prems by simp
  qed
qed simp

text \<open>C23. Read by any RFC 4180 reader, the event log is the header and, for every event of the report,
  exactly its twelve fields, whatever quotes, commas and line breaks the collector names contain.\<close>

theorem event_csv_reads_back:
  "csv_rows (event_csv report) = csv_header # map event_cells (ar_events report)"
proof -
  have "map csvCell csv_header = csv_header" by code_simp
  then have "event_csv report = join_with crlf (map (\<lambda>vs. join_with '','' (map csvCell vs)) (csv_header # map event_cells (ar_events report)))"
    by (simp add: event_csv_def o_def)
  then show ?thesis by (simp only:) (rule read_rows, auto simp: csv_header_def event_cells_def)
qed

section \<open>What a report says\<close>

lemma sequence_results_map_Inr [simp]: "sequence_results (map Inr xs) = Inr xs"
  by (induction xs) auto

definition event_entry :: "db \<Rightarrow> string list \<Rightarrow> CollectionEventEntity \<Rightarrow> nat \<Rightarrow> AuditReportEvent" where
  "event_entry s leaves e k = \<lparr>re_eventId = e_id e, re_collectorId = e_collectorId e,
     re_collectorName = collector_name s (e_collectorId e),
     re_weightKg = e_weightKg e, re_material = e_material e, re_capturedAt = toISOString (e_capturedAt e),
     re_receivedAt = toISOString (e_receivedAt e), re_photoHash = e_photoHash e,
     re_photoAvailable = (e_photoUri e \<noteq> None),
     re_photoUrl = (if e_photoUri e = None then None else Some (''/events/'' @ e_id e @ ''/photo'')),
     re_payloadHash = e_payloadHash e, re_leaf = leaves ! k, re_merkleProof = steps_of leaves k,
     re_integrityOutcome = v_outcome (e_integrity e), re_integrityFindings = v_findings (e_integrity e)\<rparr>"

lemma report_event_eq:
  "k < length es \<Longrightarrow> report_event s (leavesOf es) e k = Inr (event_entry s (leavesOf es) e k)"
proof -
  assume k: "k < length es"
  then have "merkleProof (leavesOf es) (int k) = Inr (steps_of (leavesOf es) k)" by (intro merkleProof_ok) auto
  then show ?thesis by (simp add: report_event_def event_entry_def)
qed

lemma report_events_eq:
  "sequence_results (map2 (report_event s (leavesOf es)) es [0..<length es]) =
    Inr (map2 (event_entry s (leavesOf es)) es [0..<length es])"
proof -
  have "map2 (report_event s (leavesOf es)) es [0..<length es] = map Inr (map2 (event_entry s (leavesOf es)) es [0..<length es])"
    by (rule nth_equalityI) (simp_all add: report_event_eq)
  then show ?thesis by (simp only: sequence_results_map_Inr)
qed

definition report_facts :: "db \<Rightarrow> string \<Rightarrow> BatchEntity \<Rightarrow> AuditReport \<Rightarrow> bool" where
  "report_facts s i b rep = (let es = orderedEvents i s in
     ar_events rep = map2 (event_entry s (leavesOf es)) es [0..<length es]
     \<and> rp_merkleRoot (ar_proof rep) = b_merkleRoot b
     \<and> rp_recomputedRoot (ar_proof rep) = (if es = [] then None else Some (level_root (leavesOf es)))
     \<and> (rp_rootMatchesSealedValue (ar_proof rep) \<longleftrightarrow> b_merkleRoot b \<noteq> None \<and> b_merkleRoot b = rp_recomputedRoot (ar_proof rep))
     \<and> ar_reconciliation rep = reconcile es (list_transfers i s)
     \<and> ar_collectors rep = map (report_collector s es) (set_spread (map e_collectorId es))
     \<and> (rp_allProofsValid (ar_proof rep) \<longleftrightarrow> (case rp_recomputedRoot (ar_proof rep) of None \<Rightarrow> False
          | Some r \<Rightarrow> list_all (\<lambda>e. verifyMerkleProof (re_leaf e) (re_merkleProof e) r) (ar_events rep)))
     \<and> rb_totalWeightKg (ar_batch rep) = b_totalWeightKg b \<and> rb_eventCount (ar_batch rep) = b_eventCount b)"

lemma report_eq:
  assumes "buildAuditReport verify now i s = Inr rep"
  obtains b where "get_by b_id i (batches s) = Some b" "report_facts s i b rep"
proof -
  obtain b where b: "get_by b_id i (batches s) = Some b"
    using assms by (auto simp: buildAuditReport_def split: option.splits)
  obtain h where h: "get_by h_id (b_hubId b) (hubs s) = Some h"
    using assms b by (auto simp: buildAuditReport_def split: option.splits)
  obtain c where c: "(case anchor_of i s of None \<Rightarrow> Inr None | Some a \<Rightarrow> map_sum id Some (verify (to_verify a))) = Inr c"
    using assms b h by (auto simp: buildAuditReport_def Let_def split: sum.splits)
  have r: "(if leavesOf (orderedEvents i s) = [] then Inr None else map_sum id Some (merkleRootHex (leavesOf (orderedEvents i s))))
      = Inr (if orderedEvents i s = [] then None else Some (level_root (leavesOf (orderedEvents i s))))"
    by simp
  note run = assms[unfolded buildAuditReport_def b h option.case Let_def c sum.case r report_events_eq, symmetric]
  have "report_facts s i b rep"
    using run by (simp only: sum.inject report_facts_def Let_def AuditReport.simps ReportProof.simps ReportBatch.simps) (cases "b_merkleRoot b"; simp)
  then show ?thesis using b that by blast
qed

lemma map2_event_entry: "map re_payloadHash (map2 (event_entry s ls) es [0..<length es]) = map e_payloadHash es"
  by (rule nth_equalityI) (simp_all add: event_entry_def)

section \<open>Properties of a report\<close>

lemma report_built:
  assumes "get_by b_id i (batches s) = Some b" and "get_by h_id (b_hubId b) (hubs s) = Some h" and "anchor_of i s = None"
  shows "\<exists>rep. buildAuditReport verify now i s = Inr rep"
proof -
  have r: "(if leavesOf (orderedEvents i s) = [] then Inr None else map_sum id Some (merkleRootHex (leavesOf (orderedEvents i s))))
      = Inr (if orderedEvents i s = [] then None else Some (level_root (leavesOf (orderedEvents i s))))"
    by simp
  show ?thesis
    unfolding buildAuditReport_def assms option.case Let_def sum.case r report_events_eq by blast
qed

lemma sealed_report: "\<exists>rep. buildAuditReport verify now ''b1'' sealed_db = Inr rep"
proof (rule report_built[OF sealed_lookup])
  show "get_by h_id (b_hubId (freeze 5 (level_root (leavesOf both_events)) both_events
     (sample_batch\<lparr>b_totalWeightKg := total_weight both_events, b_eventCount := 2\<rparr>))) (hubs sealed_db) = Some sample_hub"
    by (simp add: freeze_def sealed_db_def filled_db_def get_by_def sample_db_def sample_batch_def sample_hub_def)
  show "anchor_of ''b1'' sealed_db = None"
    by (simp add: anchor_of_def sealed_db_def filled_db_def get_by_def sample_db_def empty_db_def)
qed

definition the_sealed_report :: AuditReport where
  "the_sealed_report = projr (buildAuditReport (\<lambda>_. Inr (unchecked_confirmation 0 '''')) 9 ''b1'' sealed_db)"

lemma the_sealed_report: "buildAuditReport (\<lambda>_. Inr (unchecked_confirmation 0 '''')) 9 ''b1'' sealed_db = Inr the_sealed_report"
  using sealed_report[of "\<lambda>_. Inr (unchecked_confirmation 0 '''')" 9] by (auto simp: the_sealed_report_def)

text \<open>The report of a sealed batch agrees with itself.\<close>

lemma report_of_sealed:
  assumes "core_ok s" and "get_by b_id i (batches s) = Some b" and "b_status b \<noteq> open"
    and "buildAuditReport verify now i s = Inr rep"
  shows "report_facts s i b rep" and "rp_rootMatchesSealedValue (ar_proof rep)" and "rp_allProofsValid (ar_proof rep)"
proof -
  let ?es = "orderedEvents i s"
  obtain b' where b: "get_by b_id i (batches s) = Some b'" "report_facts s i b' rep"
    using report_eq[OF assms(4)] by blast
  then show facts: "report_facts s i b rep" using assms(2) by simp
  note R = facts[unfolded report_facts_def Let_def, THEN conjunct1]
  note Q = facts[unfolded report_facts_def Let_def, THEN conjunct2]
  note S = sealed_root[OF assms(1-3)]
  have proofs: "verifyMerkleProof (leavesOf ?es ! k) (steps_of (leavesOf ?es) k) (level_root (leavesOf ?es))" if k: "k < length ?es" for k
  proof -
    have "merkleProof (leavesOf ?es) (int k) = Inr (steps_of (leavesOf ?es) k)" using k by (intro merkleProof_ok) auto
    from verify_complete[OF this S(3)] show ?thesis by simp
  qed
  have "list_all (\<lambda>e. verifyMerkleProof (re_leaf e) (re_merkleProof e) (level_root (leavesOf ?es))) (ar_events rep)"
    unfolding R list_all_length by (simp add: event_entry_def proofs)
  then show "rp_rootMatchesSealedValue (ar_proof rep)" and "rp_allProofsValid (ar_proof rep)" using Q S by simp_all
qed

text \<open>C21. The report of a batch that left the open state certifies itself: the root recomputed from the
  listed events is the sealed root, every listed proof verifies against it, count and weight are those
  of the batch row, and a reader who hashes the listed payload hashes gets that root.\<close>

theorem report_certifies_itself:
  assumes "core_ok s" and "get_by b_id i (batches s) = Some b" and "b_status b \<noteq> open"
    and "buildAuditReport verify now i s = Inr rep"
  shows "rp_rootMatchesSealedValue (ar_proof rep) \<and> rp_allProofsValid (ar_proof rep)
    \<and> (\<exists>r. b_merkleRoot b = Some r \<and> merkleRootHex (map (\<lambda>e. hashLeaf (re_payloadHash e)) (ar_events rep)) = Inr r)
    \<and> rb_totalWeightKg (ar_batch rep) = rn_collectedKg (ar_reconciliation rep)
    \<and> rb_eventCount (ar_batch rep) = length (ar_events rep)"
proof -
  let ?es = "orderedEvents i s"
  note sealed = report_of_sealed[OF assms]
  note R = sealed(1)[unfolded report_facts_def Let_def, THEN conjunct1]
  note Q = sealed(1)[unfolded report_facts_def Let_def, THEN conjunct2]
  have "map hashLeaf (map re_payloadHash (ar_events rep)) = map hashLeaf (map e_payloadHash ?es)"
    unfolding R map2_event_entry ..
  then have leaves: "map (\<lambda>e. hashLeaf (re_payloadHash e)) (ar_events rep) = leavesOf ?es" by (simp add: leavesOf_def o_def)
  note S = sealed_root[OF assms(1-3)]
  have "\<exists>r. b_merkleRoot b = Some r \<and> merkleRootHex (map (\<lambda>e. hashLeaf (re_payloadHash e)) (ar_events rep)) = Inr r"
    unfolding leaves using S(2,3) by blast
  moreover have "rb_totalWeightKg (ar_batch rep) = rn_collectedKg (ar_reconciliation rep)"
    using Q S(4) by (simp add: reconcile_def total_weight_def Let_def)
  moreover have "rb_eventCount (ar_batch rep) = length (ar_events rep)" using Q S(5) unfolding R by simp
  ultimately show ?thesis using sealed(2,3) by blast
qed

theorem report_certifies_itself_witness:
  "rp_rootMatchesSealedValue (ar_proof the_sealed_report) \<and> rp_allProofsValid (ar_proof the_sealed_report)
    \<and> rb_eventCount (ar_batch the_sealed_report) = length (ar_events the_sealed_report)"
  using report_certifies_itself[OF sealed_core_ok sealed_lookup _ the_sealed_report] by (simp add: freeze_def)


lemma the_sealed_report_matches: "rp_rootMatchesSealedValue (ar_proof the_sealed_report)"
proof -
  obtain b where b: "get_by b_id ''b1'' (batches sealed_db) = Some b" "report_facts sealed_db ''b1'' b the_sealed_report"
    using report_eq[OF the_sealed_report] by blast
  have "b_status b \<noteq> open" using b(1) unfolding sealed_lookup by (auto simp: freeze_def)
  from sealed_root(1,2)[OF sealed_core_ok b(1) this] b(2) show ?thesis by (simp add: report_facts_def Let_def)
qed


lemma sum_over_groups:
  assumes "distinct is" and "f ` set es \<subseteq> set is"
  shows "sum_list (map (\<lambda>i. sum_list (map w (filter (\<lambda>e. f e = i) es))) is) = (sum_list (map w es) :: nat)"
  using assms(2)
proof (induction es)
  case (Cons e es)
  have "sum_list (map (\<lambda>i. sum_list (map w (filter (\<lambda>x. f x = i) (e # es)))) is)
      = sum_list (map (\<lambda>i. (if f e = i then w e else 0) + sum_list (map w (filter (\<lambda>x. f x = i) es))) is)"
    by (intro arg_cong[where f = sum_list] map_cong) auto
  also have "\<dots> = sum_list (map (\<lambda>i. if f e = i then w e else 0) is) + sum_list (map w es)"
    using Cons by (simp add: sum_list_addf)
  also have "sum_list (map (\<lambda>i. if f e = i then w e else 0) is) = w e"
    using assms(1) Cons.prems by (simp add: sum_list_distinct_conv_sum_set sum.delta)
  finally show ?case by simp
qed simp

lemma sum_list_filter_le: "sum_list (map w (filter p es)) \<le> (sum_list (map w es) :: nat)"
  by (induction es) auto

lemma group_bound:
  assumes "length es * (sum_list (map w es) + 2000) \<le> (10 ^ 15 :: nat)"
  shows "length (filter p es) * (sum_list (map w (filter p es)) + 2000) \<le> 10 ^ 15"
proof -
  have "length (filter p es) * (sum_list (map w (filter p es)) + 2000) \<le> length es * (sum_list (map w es) + 2000)"
    by (intro mult_le_mono add_le_mono length_filter_le sum_list_filter_le order_refl)
  then show ?thesis using assms by linarith
qed

text \<open>The figures per collector partition the batch: for events weighed in whole grams their weights
  add up, gram for gram, to the collected weight, and their counts to the number of events, each
  collector listed once.\<close>

theorem collectors_partition_the_report:
  assumes "buildAuditReport verify now i s = Inr rep"
    and "\<And>e. e \<in> set (orderedEvents i s) \<Longrightarrow> e_weightKg e = gram (w e)"
    and "length (orderedEvents i s) * (sum_list (map w (orderedEvents i s)) + 2000) \<le> 10 ^ 15"
  shows "\<exists>hs. map rc_weightKg (ar_collectors rep) = map gram hs
    \<and> rn_collectedKg (ar_reconciliation rep) = gram (sum_list hs)
    \<and> sum_list (map rc_eventCount (ar_collectors rep)) = length (ar_events rep)
    \<and> distinct (map rc_id (ar_collectors rep))"
proof -
  let ?es = "orderedEvents i s"
  let ?ids = "set_spread (map e_collectorId ?es)"
  obtain b where b: "report_facts s i b rep" using report_eq[OF assms(1)] by blast
  have grams: "map e_weightKg (filter p ?es) = map gram (map w (filter p ?es))" for p
    using assms(2) by auto
  have own: "js_quantise 3 (js_sum (map e_weightKg (filter p ?es))) = gram (sum_list (map w (filter p ?es)))" for p
    unfolding grams using group_bound[OF assms(3), of p] by (intro quantised_sum_exact) simp
  have "rn_collectedKg (ar_reconciliation rep) = gram (sum_list (map w ?es))"
    using b own[of "\<lambda>_. True"] by (simp add: report_facts_def reconcile_def Let_def)
  moreover have "map rc_weightKg (ar_collectors rep) = map gram (map (\<lambda>i. sum_list (map w (filter (\<lambda>e. e_collectorId e = i) ?es))) ?ids)"
    using b own by (simp add: report_facts_def report_collector_def Let_def)
  moreover have "sum_list (map (\<lambda>i. sum_list (map w (filter (\<lambda>e. e_collectorId e = i) ?es))) ?ids) = sum_list (map w ?es)"
    by (rule sum_over_groups) auto
  moreover have "sum_list (map rc_eventCount (ar_collectors rep)) = length (ar_events rep)"
  proof -
    have counts: "map rc_eventCount (ar_collectors rep) = map (\<lambda>i. sum_list (map (\<lambda>_. 1) (filter (\<lambda>e. e_collectorId e = i) ?es))) ?ids"
      using b by (simp add: report_facts_def report_collector_def Let_def sum_list_triv)
    have "sum_list (map (\<lambda>i. sum_list (map (\<lambda>_. 1 :: nat) (filter (\<lambda>e. e_collectorId e = i) ?es))) ?ids) = sum_list (map (\<lambda>_. 1) ?es)"
      by (rule sum_over_groups) auto
    moreover have "length (ar_events rep) = length ?es" using b by (simp add: report_facts_def Let_def)
    ultimately show ?thesis unfolding counts by (simp add: sum_list_triv)
  qed
  moreover have "map rc_id (ar_collectors rep) = ?ids"
    using b by (simp add: report_facts_def report_collector_def Let_def o_def)
  ultimately show ?thesis by (metis distinct_set_spread)
qed

theorem collectors_partition_the_report_witness:
  "\<exists>hs. map rc_weightKg (ar_collectors the_sealed_report) = map gram hs
    \<and> rn_collectedKg (ar_reconciliation the_sealed_report) = gram (sum_list hs)
    \<and> sum_list (map rc_eventCount (ar_collectors the_sealed_report)) = length (ar_events the_sealed_report)
    \<and> distinct (map rc_id (ar_collectors the_sealed_report))"
  by (rule collectors_partition_the_report[OF the_sealed_report, where w = "\<lambda>e. if e_id e = ''e1'' then 12345 else 500"])
    (auto simp: sealed_events both_events_def sample_event_def)

text \<open>The verdict on reconciliation looks at each transfer alone: a batch of 100 kg whose only
  transfer carried 50 kg without loss has a gap of 50 kg that nothing explains, and the report calls
  it explained.\<close>

theorem unexplained_gap_reported_as_explained:
  assumes "e_weightKg e = gram 100000" and "ct_weightOutKg t = gram 50000" and "ct_varianceKg t = Fin 0"
  shows "rn_explained (reconcile [e] [t]) \<and> rn_gapKg (reconcile [e] [t]) = Some (gram 50000)"
proof -
  have c: "js_quantise 3 (js_sum [gram 100000]) = gram 100000" using quantised_sum_exact[of "[100000]"] by simp
  have "js_quantise 3 (js_sub (gram 100000) (gram 50000)) = gram 50000" using gram_difference[of 50000 100000] by simp
  then show ?thesis by (simp add: reconcile_def assms c is_zero_def js_eq_def Let_def)
qed

definition half_transfer :: CustodyTransferEntity where
  "half_transfer = \<lparr>ct_id = ''t'', ct_batchId = ''b1'', ct_fromParty = ''hub'', ct_toParty = ''mill'', ct_weightInKg = gram 50000,
     ct_weightOutKg = gram 50000, ct_varianceKg = Fin 0, ct_reason = None, ct_transferredAt = 0\<rparr>"

theorem unexplained_gap_reported_as_explained_witness:
  "rn_explained (reconcile [sample_event ''e'' hash_a None 100000] [half_transfer])"
  using unexplained_gap_reported_as_explained[of "sample_event ''e'' hash_a None 100000" half_transfer]
  by (simp add: sample_event_def half_transfer_def)

end
