(* ===== verification/System.thy ===== *)
theory System
  imports BatchProperties Registry Custody Users Photos "HOL-Library.Sublist"
begin

text \<open>
  The backend as a state machine: the database with the photo directory, the
  weigh-ins whose ingest has read but not yet saved, and the clock.  Every operation
  of a service that the code runs in one transaction is one step, the two halves of
  an ingest are two steps, a process may die between them, and requests interleave in
  any order.  The invariant of the parts is an invariant of the machine.
\<close>

section \<open>Steps\<close>

text \<open>What a deployment fixes: the libraries it calls and its configuration.\<close>

record deployment =
  dp_env :: ingest_env
  dp_hashPassword :: "string \<Rightarrow> string"
  dp_verifyPassword :: "string \<Rightarrow> string \<Rightarrow> bool option"
  dp_photoRoot :: string
  dp_photoMaxBytes :: jsnum

record world =
  w_db :: db
  w_disk :: disk
  w_planned :: "CollectionEventEntity list"
  w_clock :: instant

text \<open>The operations that are one transaction; the ids that the database generates are new.\<close>

inductive service_step :: "deployment \<Rightarrow> instant \<Rightarrow> db \<Rightarrow> db \<Rightarrow> bool" for D now where
  creates_collector: "createCollector now i cdto s = Inr (c, s') \<Longrightarrow> i \<notin> c_id ` set (collectors s) \<Longrightarrow> service_step D now s s'"
| enrols_device: "enrolDevice now i ddto s = Inr (d, s') \<Longrightarrow> i \<notin> d_id ` set (devices s) \<Longrightarrow> service_step D now s s'"
| revokes_device: "revokeDevice now i s = Inr (d, s') \<Longrightarrow> service_step D now s s'"
| creates_hub: "createHub i hdto s = Inr (h, s') \<Longrightarrow> i \<notin> h_id ` set (hubs s) \<Longrightarrow> service_step D now s s'"
| creates_material: "create_material mdto s = Inr (m, s') \<Longrightarrow> service_step D now s s'"
| updates_material: "update_material code udto s = Inr (m, s') \<Longrightarrow> service_step D now s s'"
| removes_material: "remove_material code s = Inr (q, s') \<Longrightarrow> service_step D now s s'"
| creates_batch: "create_batch now i h code s = Inr (b, s') \<Longrightarrow> i \<notin> b_id ` set (batches s) \<Longrightarrow> service_step D now s s'"
| adds_events: "addEvents i ids s = Inr (b, s') \<Longrightarrow> service_step D now s s'"
| removes_event: "removeEvent i ev s = Inr (b, s') \<Longrightarrow> service_step D now s s'"
| seals: "seal now i s = Inr (b, s') \<Longrightarrow> service_step D now s s'"
| advances: "advanceStatus i to s = Inr (b, s') \<Longrightarrow> service_step D now s s'"
| records_anchor: "recordAnchor (parseDate (dp_env D)) now ai ti i adto s = Inr (a, s') \<Longrightarrow> service_step D now s s'"
| records_failure: "recordAnchorFailure now ti i att s = Inr (a', s') \<Longrightarrow> service_step D now s s'"
| creates_transfer: "create_transfer (parseDate (dp_env D)) i b tdto s = Inr (t, s') \<Longrightarrow> service_step D now s s'"
| creates_user: "create_user (dp_hashPassword D) now i cudto s = Inr (v, s') \<Longrightarrow> i \<notin> u_id ` set (users s) \<Longrightarrow> service_step D now s s'"
| updates_user: "update_user i uudto actor s = Inr (v, s') \<Longrightarrow> service_step D now s s'"
| resets_password: "resetPassword (dp_hashPassword D) i pw s = Inr (v, s') \<Longrightarrow> service_step D now s s'"
| changes_password: "changeOwnPassword (dp_hashPassword D) (dp_verifyPassword D) i pw pw' s = Inr (v', s') \<Longrightarrow> service_step D now s s'"

inductive step :: "deployment \<Rightarrow> world \<Rightarrow> world \<Rightarrow> bool" for D where
  serves: "service_step D (w_clock w) (w_db w) s' \<Longrightarrow> step D w (w\<lparr>w_db := s'\<rparr>)"
| reads: "ingest_read (dp_env D) (w_clock w) i p sig (w_db w) = Inr (Insert e)
    \<Longrightarrow> i \<notin> e_id ` set (events (w_db w)) \<Longrightarrow> i \<notin> e_id ` set (w_planned w)
    \<Longrightarrow> step D w (w\<lparr>w_planned := e # w_planned w\<rparr>)"
| saves: "w_planned w = xs @ e # ys \<Longrightarrow> ingest_save e (w_db w) = Inr (r, s')
    \<Longrightarrow> step D w (w\<lparr>w_db := s', w_planned := xs @ ys\<rparr>)"
| dies: "w_planned w = xs @ e # ys \<Longrightarrow> step D w (w\<lparr>w_planned := xs @ ys\<rparr>)"
| attaches: "attach_photo (dp_photoRoot D) (dp_photoMaxBytes D) i bs (w_db w, w_disk w) = Inr (pa, s', d')
    \<Longrightarrow> step D w (w\<lparr>w_db := s', w_disk := d'\<rparr>)"
| ticks: "w_clock w \<le> t \<Longrightarrow> step D w (w\<lparr>w_clock := t\<rparr>)"

definition first_world :: world where
  "first_world = \<lparr>w_db = empty_db, w_disk = Map.empty, w_planned = [], w_clock = 0\<rparr>"

abbreviation runs :: "deployment \<Rightarrow> world \<Rightarrow> world \<Rightarrow> bool" where
  "runs D \<equiv> (step D)\<^sup>*\<^sup>*"

definition reachable :: "deployment \<Rightarrow> world \<Rightarrow> bool" where
  "reachable D w = runs D first_world w"

section \<open>What a step may change\<close>

text \<open>
  No operation deletes or rewrites a stored weigh-in: its batch and its photo are all
  that ever changes, and only a batch operation changes the one, an upload the other.
\<close>

definition unbatched :: "CollectionEventEntity \<Rightarrow> CollectionEventEntity" where
  "unbatched e = e\<lparr>e_batchId := None\<rparr>"

text \<open>A device keeps its owner and its key, and a revocation is final.\<close>

definition device_succeeds :: "instant \<Rightarrow> DeviceEntity \<Rightarrow> DeviceEntity \<Rightarrow> bool" where
  "device_succeeds now d d' = (d_id d' = d_id d \<and> d_collectorId d' = d_collectorId d \<and> d_publicKeyBase64 d' = d_publicKeyBase64 d
     \<and> (d_revokedAt d' = d_revokedAt d \<or> d_revokedAt d = None \<and> d_revokedAt d' = Some now))"

definition grows :: "instant \<Rightarrow> db \<Rightarrow> db \<Rightarrow> bool" where
  "grows now s s' = (map unbatched (events s') = map unbatched (events s)
     \<and> set (hubs s) \<subseteq> set (hubs s') \<and> set (collectors s) \<subseteq> set (collectors s')
     \<and> (\<forall>d \<in> set (devices s). \<exists>d' \<in> set (devices s'). device_succeeds now d d')
     \<and> (\<forall>d' \<in> set (devices s'). d_revokedAt d' = None \<or> d_revokedAt d' = Some now \<or> d' \<in> set (devices s))
     \<and> b_id ` set (batches s) \<subseteq> b_id ` set (batches s')
     \<and> prefix (anchors s) (anchors s') \<and> prefix (attempts s) (attempts s') \<and> prefix (transfers s) (transfers s'))"

lemma device_succeeds_refl [simp]: "device_succeeds now d d"
  by (simp add: device_succeeds_def)

lemma device_kept: "d \<in> ds \<Longrightarrow> \<exists>x \<in> ds. device_succeeds now d x"
  using device_succeeds_refl by blast

lemma grows_frame:
  assumes "map unbatched (events s') = map unbatched (events s)" and "set (hubs s) \<subseteq> set (hubs s')"
    and "set (collectors s) \<subseteq> set (collectors s')" and "devices s' = devices s"
    and "b_id ` set (batches s) \<subseteq> b_id ` set (batches s')" and "prefix (anchors s) (anchors s')"
    and "prefix (attempts s) (attempts s')" and "prefix (transfers s) (transfers s')"
  shows "grows now s s'"
  using assms unfolding grows_def by (auto intro: device_kept)

lemma prefix_insert_row [simp]: "prefix rows (insert_row r rows)"
  by (simp add: insert_row_def)

lemma ids_patch_by: "(\<And>r. key (f r) = key r) \<Longrightarrow> key ` set (patch_by key k f rows) = key ` set rows"
  using keys_patch_by[of key f k rows] by (metis set_map)

lemma unbatched_update: "map unbatched (update_where p (\<lambda>e. e\<lparr>e_batchId := b\<rparr>) rows) = map unbatched rows"
  by (simp add: update_where_def unbatched_def)

lemma joined_unbatched: "map unbatched (events (joined i ids s)) = map unbatched (events s)"
  "map unbatched (events (left_batch i ev s)) = map unbatched (events s)"
  by (simp_all add: joined_def left_batch_def unbatched_update)

lemma moved_frames [simp]:
  "devices (joined i ids s) = devices s" "devices (left_batch i ev s) = devices s"
  "collectors (joined i ids s) = collectors s" "collectors (left_batch i ev s) = collectors s"
  "users (joined i ids s) = users s" "users (left_batch i ev s) = users s"
  "attempts (joined i ids s) = attempts s" "attempts (left_batch i ev s) = attempts s"
  "transfers (joined i ids s) = transfers s" "transfers (left_batch i ev s) = transfers s"
  by (simp_all add: joined_def left_batch_def)

lemma totals_ids [simp]: "b_id ` set (batches (store_totals i s)) = b_id ` set (batches s)"
  by (simp add: store_totals_batches ids_patch_by)

text \<open>Totals, membership, seal and status touch the batches and the batch ids of the events alone.\<close>

lemma batch_step_grows:
  "addEvents i ids s = Inr (b, s') \<Longrightarrow> grows now s s'"
  "removeEvent i ev s = Inr (b, s') \<Longrightarrow> grows now s s'"
  "seal t i s = Inr (b, s') \<Longrightarrow> grows now s s'"
  "advanceStatus i to s = Inr (b, s') \<Longrightarrow> grows now s s'"
  by (rule grows_frame; (elim addEvents_eq removeEvent_eq seal_eq advanceStatus_eq)?;
      simp add: joined_unbatched ids_patch_by freeze_def)+

lemma create_batch_eq:
  assumes "create_batch now i h code s = Inr (b, s')"
  shows "s' = s\<lparr>batches := insert_row b (batches s)\<rparr>" "b_id b = i" "b_status b = open"
    "h \<in> h_id ` set (hubs s)" "b_material b \<in> catalogue_codes s"
  using assms catalogue.openable_code[of code s]
  by (auto simp: create_batch_def get_by_None_iff Let_def split: sum.splits if_splits)

lemma revokeDevice_grows:
  assumes "revokeDevice now i s = Inr (r, s')" and "registry_ok s"
  shows "grows now s s'"
  using assms(1)
proof (cases rule: revokeDevice_eq)
  case already
  then show ?thesis by (auto intro: grows_frame)
next
  case (new d)
  let ?f = "\<lambda>d. d\<lparr>d_revokedAt := Some now\<rparr>"
  have u: "distinct (map d_id (devices s))" using assms(2) by (simp add: registry_ok_def)
  then have ds: "devices s' = patch_by d_id i ?f (devices s)"
    using saved_row[OF _ new(1), of ?f] new(3,4) by simp
  have "\<exists>x' \<in> set (devices s'). device_succeeds now x x'" if x: "x \<in> set (devices s)" for x
  proof -
    have "d_id x = i \<Longrightarrow> x = d" using get_by_unique[OF u x] new(1) by auto
    then have "device_succeeds now x (if d_id x = i then ?f x else x)" using new(2) by (auto simp: device_succeeds_def)
    then show ?thesis unfolding ds using patch_byI[OF x, of d_id i ?f] by blast
  qed
  moreover have "d_revokedAt x = None \<or> d_revokedAt x = Some now \<or> x \<in> set (devices s)" if "x \<in> set (devices s')" for x
    using that[unfolded ds] by (rule patch_byE) auto
  ultimately show ?thesis using new(4) by (auto simp: grows_def)
qed

text \<open>An operation on the accounts or the catalogue leaves every other table as it was.\<close>

lemma users_only:
  "create_user hp now i cudto s = Inr (v, s') \<Longrightarrow> s' = s\<lparr>users := users s'\<rparr>"
  "update_user i uudto actor s = Inr (v, s') \<Longrightarrow> s' = s\<lparr>users := users s'\<rparr>"
  "resetPassword hp i pw s = Inr (v, s') \<Longrightarrow> s' = s\<lparr>users := users s'\<rparr>"
  "changeOwnPassword hp vp i pw pw' s = Inr (v', s') \<Longrightarrow> s' = s\<lparr>users := users s'\<rparr>"
  by (auto simp: create_user_def update_user_def resetPassword_def changeOwnPassword_def Let_def
      split: option.splits if_splits)

lemma grows_users: "s' = s\<lparr>users := us\<rparr> \<Longrightarrow> grows now s s'"
  and grows_materials: "s' = s\<lparr>materials := ms\<rparr> \<Longrightarrow> grows now s s'"
  by (auto intro: grows_frame)

lemma insert_grows:
  "createCollector now i cdto s = Inr (c, s') \<Longrightarrow> grows t s s'"
  "createHub i hdto s = Inr (h, s') \<Longrightarrow> grows t s s'"
  "create_batch now i hb code s = Inr (b, s') \<Longrightarrow> grows t s s'"
  "create_transfer pd i hb tdto s = Inr (tr, s') \<Longrightarrow> grows t s s'"
  "recordAnchorFailure now i hb att s = Inr (a', s') \<Longrightarrow> grows t s s'"
  by (auto intro!: grows_frame elim!: recordAnchorFailure_eq
      dest!: createCollector_eq(1) createHub_eq(1) create_batch_eq(1) create_transfer_eq(1))

lemma enrolDevice_grows: "enrolDevice now i ddto s = Inr (d, s') \<Longrightarrow> grows t s s'"
  using enrolDevice_eq(1,5)[of now i ddto s d s'] by (simp add: grows_def device_kept)

lemma recordAnchor_grows: "recordAnchor pd now ai ti i adto s = Inr (a, s') \<Longrightarrow> grows t s s'"
  by (erule recordAnchor_eq) (auto intro!: grows_frame)

lemmas op_grows = insert_grows enrolDevice_grows batch_step_grows recordAnchor_grows
  grows_users[OF users_only(1)] grows_users[OF users_only(2)] grows_users[OF users_only(3)] grows_users[OF users_only(4)]
  grows_materials[OF frames(1)] grows_materials[OF frames(2)] grows_materials[OF frames(3)]

lemma service_step_grows:
  assumes "service_step D now s s'" and "registry_ok s"
  shows "grows now s s'"
  using assms by cases (erule op_grows | erule (1) revokeDevice_grows)+

section \<open>What a stored weigh-in attests\<close>

text \<open>The columns of a row are the fields of the payload whose hash it carries.\<close>

definition records_payload :: "ingest_env \<Rightarrow> WeighInPayload \<Rightarrow> CollectionEventEntity \<Rightarrow> bool" where
  "records_payload env p e = (p_schema p = ''proofchain.weighin.v2'' \<and> eventPayloadHash p = Inr (e_payloadHash e)
     \<and> p_collectorId p = e_collectorId e \<and> p_hubId p = e_hubId e \<and> p_deviceId p = e_deviceId e
     \<and> p_weightKg p = e_weightKg e \<and> p_material p = e_material e \<and> p_photoHash p = e_photoHash e
     \<and> p_nonce p = e_nonce e \<and> parseDate env (p_capturedAt p) = Some (e_capturedAt e))"

text \<open>
  A device vouches for a payload: it belongs to the collector named, the signature
  verifies under its key, and it was not revoked before the payload arrived.
\<close>

definition vouches :: "ingest_env \<Rightarrow> WeighInPayload \<Rightarrow> CollectionEventEntity \<Rightarrow> DeviceEntity \<Rightarrow> bool" where
  "vouches env p e d = (d_id d = e_deviceId e \<and> d_collectorId d = e_collectorId e
     \<and> verifyWeighInSignature (cryptoVerify env) p (e_signature e) (d_publicKeyBase64 d)
     \<and> (\<forall>t. d_revokedAt d = Some t \<longrightarrow> e_receivedAt e \<le> t))"

definition weighable :: "CollectionEventEntity \<Rightarrow> HubEntity \<Rightarrow> bool" where
  "weighable e h = (h_id h = e_hubId e \<and> is_finite (e_weightKg e) \<and> js_gt (e_weightKg e) (Fin 0)
     \<and> \<not> js_lt (e_weightKg e) (h_minWeightKg h) \<and> \<not> js_gt (e_weightKg e) (h_maxWeightKg h))"

definition genuine :: "ingest_env \<Rightarrow> db \<Rightarrow> CollectionEventEntity \<Rightarrow> bool" where
  "genuine env s e = (\<exists>p. records_payload env p e \<and> (\<not> e_quarantined e \<longrightarrow>
     (\<exists>d \<in> set (devices s). vouches env p e d) \<and> (\<exists>h \<in> set (hubs s). weighable e h) \<and> is_hash64 (e_photoHash e)))"

lemma records_unbatched [simp]: "records_payload env p (unbatched e) = records_payload env p e"
  by (simp add: records_payload_def unbatched_def)

lemma genuine_unbatched: "genuine env s (unbatched e) = genuine env s e"
  by (simp add: genuine_def vouches_def weighable_def) (simp add: unbatched_def)

lemma genuine_photo: "genuine env s (e\<lparr>e_photoUri := u\<rparr>) = genuine env s e"
  by (simp add: genuine_def vouches_def weighable_def records_payload_def)

lemma genuine_grows:
  assumes a: "genuine env s e" and g: "grows now s s'" and t: "e_receivedAt e \<le> now"
  shows "genuine env s' e"
proof -
  obtain p where p: "records_payload env p e" "\<not> e_quarantined e \<Longrightarrow> \<exists>d \<in> set (devices s). vouches env p e d"
      "\<not> e_quarantined e \<Longrightarrow> (\<exists>h \<in> set (hubs s). weighable e h) \<and> is_hash64 (e_photoHash e)"
    using a by (auto simp: genuine_def)
  have "\<exists>d \<in> set (devices s'). vouches env p e d" if q: "\<not> e_quarantined e"
  proof -
    obtain d where d: "d \<in> set (devices s)" "vouches env p e d" using p(2) q by blast
    then obtain d' where d': "d' \<in> set (devices s')" "device_succeeds now d d'" using g by (auto simp: grows_def)
    then have "vouches env p e d'" using d(2) t by (auto simp: vouches_def device_succeeds_def)
    then show ?thesis using d'(1) by blast
  qed
  moreover have "set (hubs s) \<subseteq> set (hubs s')" using g by (simp add: grows_def)
  ultimately show ?thesis using p unfolding genuine_def by blast
qed

text \<open>A row that an ingest plans is attested by the payload it was planned from.\<close>

lemma planned_genuine:
  assumes I: "ingest_read env now i p sig s = Inr (Insert e)"
  shows "genuine env s e" and "e_receivedAt e = now"
proof -
  note R = ingest_read_Insert[OF I]
  show "e_receivedAt e = now" by (subst R(9)) simp
  have row: "p_collectorId p = e_collectorId e" "p_hubId p = e_hubId e" "p_deviceId p = e_deviceId e"
    "p_weightKg p = e_weightKg e" "p_material p = e_material e" "p_photoHash p = e_photoHash e" "p_nonce p = e_nonce e"
    "e_signature e = sig" "e_quarantined e = (v_outcome (e_integrity e) = fail)"
    "e_integrity e = evaluateIntegrity (cryptoVerify env) (parseDate env) p sig (integrity_context env now p (e_payloadHash e) s)"
    by (subst R(9), simp)+
  have rec: "records_payload env p e" using R row by (simp add: records_payload_def)
  have "(\<exists>d \<in> set (devices s). vouches env p e d) \<and> (\<exists>h \<in> set (hubs s). weighable e h) \<and> is_hash64 (e_photoHash e)"
    if q: "\<not> e_quarantined e"
  proof -
    let ?ctx = "integrity_context env now p (e_payloadHash e) s"
    have ok: "device_ok p ?ctx" "weight_ok p ?ctx" "is_hash64 (p_photoHash p)"
        "\<exists>d. x_device ?ctx = Some d \<and> verifyWeighInSignature (cryptoVerify env) p sig (dc_publicKeyBase64 d)"
      using q row(9,10) verdict_fail_iff[of "cryptoVerify env" "parseDate env" p sig ?ctx] by auto
    obtain d where d: "get_by d_id (p_deviceId p) (devices s) = Some d" "d_revokedAt d = None" "d_collectorId d = p_collectorId p"
        "verifyWeighInSignature (cryptoVerify env) p sig (d_publicKeyBase64 d)"
      using ok(1,4) by (auto simp: device_ok_def integrity_context_def)
    then have "d \<in> set (devices s)" "vouches env p e d"
      using row by (auto simp: vouches_def dest: get_by_SomeD)
    moreover obtain h where "get_by h_id (p_hubId p) (hubs s) = Some h" "weighable e h"
      using ok(2) row by (auto simp: weight_ok_def integrity_context_def weighable_def dest: get_by_SomeD)
    ultimately show ?thesis using ok(3) row(6) by (auto dest: get_by_SomeD)
  qed
  then show "genuine env s e" using rec by (auto simp: genuine_def)
qed

section \<open>The invariant of the machine\<close>

text \<open>A planned row can be saved in any state its plan can reach.\<close>

definition planned_ok :: "db \<Rightarrow> CollectionEventEntity \<Rightarrow> bool" where
  "planned_ok s e = (e_id e \<notin> e_id ` set (events s) \<and> e_batchId e = None \<and> e_photoUri e = None
     \<and> is_hash64 (e_payloadHash e) \<and> e_quarantined e = (v_outcome (e_integrity e) = fail)
     \<and> e_hubId e \<in> h_id ` set (hubs s) \<and> e_collectorId e \<in> c_id ` set (collectors s) \<and> e_deviceId e \<in> d_id ` set (devices s))"

definition tables_ok :: "db \<Rightarrow> bool" where
  "tables_ok s = (registry_ok s \<and> catalogue_ok s \<and> events_ok s \<and> batches_ok s \<and> transfers_ok s \<and> users_ok s)"

definition rows_ok :: "ingest_env \<Rightarrow> instant \<Rightarrow> db \<Rightarrow> CollectionEventEntity set \<Rightarrow> bool" where
  "rows_ok env now s es = (\<forall>e \<in> es. genuine env s e \<and> e_receivedAt e \<le> now)"

definition world_ok :: "deployment \<Rightarrow> world \<Rightarrow> bool" where
  "world_ok D w = (tables_ok (w_db w) \<and> photos_ok (dp_photoRoot D) (w_db w, w_disk w)
     \<and> rows_ok (dp_env D) (w_clock w) (w_db w) (set (events (w_db w)) \<union> set (w_planned w))
     \<and> (\<forall>e \<in> set (w_planned w). planned_ok (w_db w) e) \<and> distinct (map e_id (w_planned w)))"

section \<open>Growth keeps the rows\<close>

lemma unbatched_columns:
  assumes "map unbatched es' = map unbatched es"
  shows "map e_id es' = map e_id es" "map e_payloadHash es' = map e_payloadHash es"
proof -
  have col: "map f es' = map f es" if "\<And>e. f (unbatched e) = f e" for f :: "CollectionEventEntity \<Rightarrow> string"
    using arg_cong[OF assms, of "map f"] that by (simp add: comp_def)
  show "map e_id es' = map e_id es" "map e_payloadHash es' = map e_payloadHash es"
    by (rule col; simp add: unbatched_def)+
qed

lemma unbatched_memberE:
  assumes "map unbatched es' = map unbatched es" and "e' \<in> set es'"
  obtains e where "e \<in> set es" "unbatched e = unbatched e'"
  using arg_cong[OF assms(1), of set] assms(2) by (auto simp: image_iff set_eq_iff) metis

lemma unbatched_cols:
  "unbatched e = unbatched e' \<Longrightarrow> e_payloadHash e = e_payloadHash e' \<and> e_quarantined e = e_quarantined e'
    \<and> e_integrity e = e_integrity e' \<and> e_hubId e = e_hubId e' \<and> e_collectorId e = e_collectorId e'
    \<and> e_deviceId e = e_deviceId e' \<and> e_receivedAt e = e_receivedAt e' \<and> e_photoUri e = e_photoUri e'
    \<and> e_photoHash e = e_photoHash e' \<and> e_id e = e_id e'"
  by (cases e; cases e') (simp add: unbatched_def)

lemma grows_ids:
  assumes "grows now s s'"
  shows "h_id ` set (hubs s) \<subseteq> h_id ` set (hubs s')" "c_id ` set (collectors s) \<subseteq> c_id ` set (collectors s')"
    "d_id ` set (devices s) \<subseteq> d_id ` set (devices s')" "e_id ` set (events s') = e_id ` set (events s)"
proof -
  show "h_id ` set (hubs s) \<subseteq> h_id ` set (hubs s')" "c_id ` set (collectors s) \<subseteq> c_id ` set (collectors s')"
    using assms by (auto simp: grows_def)
  show "d_id ` set (devices s) \<subseteq> d_id ` set (devices s')"
  proof (intro subsetI, elim imageE)
    fix i d assume i: "i = d_id d" and d: "d \<in> set (devices s)"
    obtain d' where d': "d' \<in> set (devices s')" "device_succeeds now d d'" using assms d by (auto simp: grows_def)
    then have "i = d_id d'" using i by (simp add: device_succeeds_def)
    then show "i \<in> d_id ` set (devices s')" using d'(1) by blast
  qed
  have u: "map unbatched (events s') = map unbatched (events s)" using assms by (simp add: grows_def)
  have "set (map e_id (events s')) = set (map e_id (events s))" by (rule arg_cong[OF unbatched_columns(1)[OF u]])
  then show "e_id ` set (events s') = e_id ` set (events s)" by simp
qed

lemma events_ok_grows:
  assumes "events_ok s" and g: "grows now s s'"
  shows "events_ok s'"
proof -
  have u: "map unbatched (events s') = map unbatched (events s)" using g by (simp add: grows_def)
  have "is_hash64 (e_payloadHash e') \<and> e_quarantined e' = (v_outcome (e_integrity e') = fail)
      \<and> e_hubId e' \<in> h_id ` set (hubs s') \<and> e_collectorId e' \<in> c_id ` set (collectors s')
      \<and> e_deviceId e' \<in> d_id ` set (devices s')" if e': "e' \<in> set (events s')" for e'
  proof -
    obtain e where e: "e \<in> set (events s)" "unbatched e = unbatched e'" by (rule unbatched_memberE[OF u e'])
    then show ?thesis
      using assms(1) unbatched_cols[OF e(2)] grows_ids(1-3)[OF g] unfolding events_ok_def by (metis subsetD)
  qed
  then show ?thesis using assms(1) unbatched_columns[OF u] by (simp add: events_ok_def)
qed

lemma planned_ok_grows: "planned_ok s e \<Longrightarrow> grows now s s' \<Longrightarrow> planned_ok s' e"
  using grows_ids[of now s s'] by (auto simp: planned_ok_def)

lemma rows_ok_grows:
  assumes "rows_ok env now s (set (events s) \<union> P)" and g: "grows now s s'"
  shows "rows_ok env now s' (set (events s') \<union> P)"
proof -
  have u: "map unbatched (events s') = map unbatched (events s)" using g by (simp add: grows_def)
  have old: "genuine env s' e \<and> e_receivedAt e \<le> now" if "e \<in> set (events s) \<union> P" for e
    using assms(1) that genuine_grows[OF _ g] by (auto simp: rows_ok_def)
  have "genuine env s' e' \<and> e_receivedAt e' \<le> now" if e': "e' \<in> set (events s')" for e'
  proof -
    obtain e where e: "e \<in> set (events s)" "unbatched e = unbatched e'" by (rule unbatched_memberE[OF u e'])
    then show ?thesis using old[of e] unbatched_cols[OF e(2)] genuine_unbatched by (metis UnI1)
  qed
  then show ?thesis using old by (auto simp: rows_ok_def)
qed

lemma photos_ok_grows:
  assumes "photos_ok r (s, d)" and g: "grows now s s'"
  shows "photos_ok r (s', d)"
proof -
  have u: "map unbatched (events s') = map unbatched (events s)" using g by (simp add: grows_def)
  have "photo_ok r d e'" if e': "e' \<in> set (events s')" for e'
  proof -
    obtain e where e: "e \<in> set (events s)" "unbatched e = unbatched e'" by (rule unbatched_memberE[OF u e'])
    then have "photo_ok r d e" using assms(1) by (simp add: photos_ok_def)
    then show ?thesis using unbatched_cols[OF e(2)] by (auto simp: photo_ok_def split: option.splits)
  qed
  then show ?thesis using assms(1) by (simp add: photos_ok_def)
qed

section \<open>Every operation of a service keeps the tables\<close>

lemma registry_ok_cong:
  "registry_ok s \<Longrightarrow> hubs s' = hubs s \<Longrightarrow> collectors s' = collectors s \<Longrightarrow> devices s' = devices s \<Longrightarrow> registry_ok s'"
  by (simp add: registry_ok_def)

lemma catalogue_ok_cong: "catalogue_ok s \<Longrightarrow> materials s' = materials s \<Longrightarrow> catalogue_ok s'"
  by (simp add: catalogue_ok_def)

lemma users_ok_cong: "users_ok s \<Longrightarrow> users s' = users s \<Longrightarrow> users_ok s'"
  by (simp add: users_ok_def)

text \<open>The batch operations leave the registry, the catalogue and the accounts alone.\<close>

definition registry_frame :: "db \<Rightarrow> db \<Rightarrow> bool" where
  "registry_frame s s' = (hubs s' = hubs s \<and> collectors s' = collectors s \<and> devices s' = devices s
     \<and> materials s' = materials s \<and> users s' = users s)"

lemma batch_step_frame:
  "addEvents i ids s = Inr (b, s') \<Longrightarrow> registry_frame s s'"
  "removeEvent i ev s = Inr (b, s') \<Longrightarrow> registry_frame s s'"
  "seal t i s = Inr (b, s') \<Longrightarrow> registry_frame s s'"
  "advanceStatus i to s = Inr (b, s') \<Longrightarrow> registry_frame s s'"
  "create_batch t i h code s = Inr (b, s') \<Longrightarrow> registry_frame s s'"
  "recordAnchor pd t ai ti i adto s = Inr (a, s') \<Longrightarrow> registry_frame s s'"
  "recordAnchorFailure t ti i att s = Inr (a', s') \<Longrightarrow> registry_frame s s'"
  "create_transfer pd i h tdto s = Inr (tr, s') \<Longrightarrow> registry_frame s s'"
  by (auto simp: registry_frame_def joined_def left_batch_def
      elim!: addEvents_eq removeEvent_eq seal_eq advanceStatus_eq recordAnchor_eq recordAnchorFailure_eq
      dest!: create_batch_eq(1) create_transfer_eq(1))

lemma framed_ok:
  assumes "registry_frame s s'"
  shows "registry_ok s \<Longrightarrow> registry_ok s'" "catalogue_ok s \<Longrightarrow> catalogue_ok s'" "users_ok s \<Longrightarrow> users_ok s'"
  using assms by (auto simp: registry_frame_def intro: registry_ok_cong catalogue_ok_cong users_ok_cong)

lemma service_step_registry:
  assumes "service_step D now s s'" and "registry_ok s"
  shows "registry_ok s'"
  using assms
  by cases (erule batch_step_frame[THEN framed_ok(1)], assumption
    | (erule (2) createCollector_ok enrolDevice_ok createHub_ok)
    | (erule revokeDevice_ok, assumption)
    | (drule frames users_only, erule registry_ok_cong; erule ssubst; simp))+

lemma service_step_catalogue:
  assumes "service_step D now s s'" and "catalogue_ok s"
  shows "catalogue_ok s'"
  using assms
  by cases (erule batch_step_frame[THEN framed_ok(2)], assumption
    | (drule (1) create_material_catalogue update_material_catalogue remove_material_catalogue)
    | (drule users_only, erule catalogue_ok_cong; erule ssubst; simp)
    | (auto elim!: revokeDevice_eq intro: catalogue_ok_cong dest!: createCollector_eq(1) enrolDevice_eq(1) createHub_eq(1)))+

lemma service_step_users:
  assumes "service_step D now s s'" and "users_ok s"
  shows "users_ok s'"
  using assms
  by cases (erule batch_step_frame[THEN framed_ok(3)], assumption
    | (drule (2) create_user_ok)
    | (drule (1) update_user_ok)
    | (frule (1) resetPassword_eq changeOwnPassword_eq(1), simp add: patched_users_ok)
    | (drule frames, erule users_ok_cong; erule ssubst; simp)
    | (auto elim!: revokeDevice_eq intro: users_ok_cong dest!: createCollector_eq(1) enrolDevice_eq(1) createHub_eq(1)))+

lemma service_step_transfers:
  assumes st: "service_step D now s s'" and g: "grows now s s'" and ok: "transfers_ok s"
  shows "transfers_ok s'"
proof -
  have ids: "b_id ` set (batches s) \<subseteq> b_id ` set (batches s')" using g by (simp add: grows_def)
  have kept: "transfers s' = transfers s \<Longrightarrow> transfers_ok s'" using transfers_ok_frame[OF ok _ ids] .
  show ?thesis
    using st ok
    by cases (erule (1) create_transfer_ok
      | (rule kept; drule frames users_only; erule ssubst; simp)
      | (rule kept; auto elim!: revokeDevice_eq addEvents_eq removeEvent_eq seal_eq advanceStatus_eq recordAnchor_eq
          recordAnchorFailure_eq dest!: createCollector_eq(1) enrolDevice_eq(1) createHub_eq(1) create_batch_eq(1)))+
qed

text \<open>A row whose batch does not exist is in no batch, so a new batch starts empty.\<close>

lemma fresh_batch_empty:
  "batches_ok s \<Longrightarrow> i \<notin> b_id ` set (batches s) \<Longrightarrow> \<forall>e \<in> set (events s). e_batchId e \<noteq> Some i"
  by (fastforce simp: batches_ok_def member_ok_def image_iff)

definition batches_frame :: "db \<Rightarrow> db \<Rightarrow> bool" where
  "batches_frame s s' = (events s' = events s \<and> batches s' = batches s \<and> anchors s' = anchors s \<and> set (hubs s) \<subseteq> set (hubs s'))"

lemma batches_frame_ok: "batches_frame s s' \<Longrightarrow> batches_ok s \<Longrightarrow> batches_ok s'"
  by (rule batches_ok_frame) (auto simp: batches_frame_def)

lemma other_step_frame:
  "createCollector t i cdto s = Inr (c, s') \<Longrightarrow> batches_frame s s'"
  "enrolDevice t i ddto s = Inr (d, s') \<Longrightarrow> batches_frame s s'"
  "revokeDevice t i s = Inr (d, s') \<Longrightarrow> batches_frame s s'"
  "createHub i hdto s = Inr (h, s') \<Longrightarrow> batches_frame s s'"
  "create_transfer pd i hb tdto s = Inr (tr, s') \<Longrightarrow> batches_frame s s'"
  "recordAnchorFailure t ti i att s = Inr (a', s') \<Longrightarrow> batches_frame s s'"
  by (auto simp: batches_frame_def elim!: revokeDevice_eq recordAnchorFailure_eq
      dest!: createCollector_eq(1) enrolDevice_eq(1) createHub_eq(1) create_transfer_eq(1))

lemma side_frame:
  "s' = s\<lparr>users := us\<rparr> \<Longrightarrow> batches_frame s s'" "s' = s\<lparr>materials := ms\<rparr> \<Longrightarrow> batches_frame s s'"
  by (simp_all add: batches_frame_def)

lemmas step_batches_frame = other_step_frame side_frame(1)[OF users_only(1)] side_frame(1)[OF users_only(2)]
  side_frame(1)[OF users_only(3)] side_frame(1)[OF users_only(4)]
  side_frame(2)[OF frames(1)] side_frame(2)[OF frames(2)] side_frame(2)[OF frames(3)]

lemma service_step_batches:
  assumes "service_step D now s s'" and "batches_ok s" and "events_ok s"
  shows "batches_ok s'"
proof -
  have d: "distinct (map e_id (events s))" using assms(3) by (simp add: events_ok_def)
  show ?thesis
    using assms(1,2) d
    by cases (erule step_batches_frame[THEN batches_frame_ok], assumption
      | (erule (1) addEvents_batches_ok[rotated 2], assumption)
      | (erule removeEvent_batches_ok[rotated], assumption)
      | (erule seal_batches_ok[rotated], assumption)
      | (erule advanceStatus_batches_ok[rotated], assumption)
      | (erule recordAnchor_batches_ok[rotated], assumption)
      | (frule (1) fresh_batch_empty, erule (2) create_batch_batches_ok[rotated], assumption))+
qed

lemma service_step_tables:
  assumes st: "service_step D now s s'" and ok: "tables_ok s"
  shows "tables_ok s'" and "grows now s s'"
proof -
  show g: "grows now s s'" using service_step_grows[OF st] ok by (simp add: tables_ok_def)
  show "tables_ok s'"
    using ok service_step_registry[OF st] service_step_catalogue[OF st] service_step_users[OF st]
      service_step_transfers[OF st g] service_step_batches[OF st] events_ok_grows[OF _ g]
    by (simp add: tables_ok_def)
qed

section \<open>A saved weigh-in and an attached photo keep the tables\<close>

lemma save_effect:
  assumes "ingest_save e s = Inr (r, s')"
  obtains (lost) "s' = s" "get_by e_payloadHash (e_payloadHash e) (events s) \<noteq> None"
  | (stored) "s' = s\<lparr>events := insert_row e (events s)\<rparr>" "e_payloadHash e \<notin> e_payloadHash ` set (events s)"
proof (cases "get_by e_payloadHash (e_payloadHash e) (events s)")
  case None
  then have "e_payloadHash e \<notin> e_payloadHash ` set (events s)" by (simp add: get_by_None_iff)
  moreover have "s' = s\<lparr>events := insert_row e (events s)\<rparr>" using assms None by (simp add: ingest_save_def)
  ultimately show ?thesis by (rule stored[rotated])
next
  case (Some x)
  then show ?thesis using assms lost by (simp add: ingest_save_def)
qed

lemma stored_ok:
  assumes "tables_ok s" and "planned_ok s e" and "e_payloadHash e \<notin> e_payloadHash ` set (events s)"
  shows "tables_ok (s\<lparr>events := insert_row e (events s)\<rparr>)"
proof -
  let ?s = "s\<lparr>events := insert_row e (events s)\<rparr>"
  have none: "e_batchId e = None" using assms(2) by (simp add: planned_ok_def)
  have same: "batch_events j ?s = batch_events j s" for j
    using none by (simp add: batch_events_def find_all_insert_row)
  have ok: "batches_ok s" using assms(1) by (simp add: tables_ok_def)
  have "batch_ok ?s b" if "b \<in> set (batches s)" for b
    using that ok same by (intro batch_ok_cong[of b ?s s]) (auto simp: batches_ok_def)
  moreover have "member_ok ?s x" if "x \<in> set (events s)" for x
    using that ok by (intro member_ok_cong[of s ?s x]) (auto simp: batches_ok_def)
  moreover have "member_ok ?s e" using none by (simp add: member_ok_def)
  moreover have "anchor_ok ?s a" if "a \<in> set (anchors s)" for a
    using that ok by (auto simp: batches_ok_def anchor_ok_def)
  ultimately have "batches_ok ?s" using ok by (simp add: batches_ok_def)
  moreover have "events_ok ?s" using assms by (auto simp: tables_ok_def events_ok_def planned_ok_def)
  moreover have "transfers_ok ?s" using assms(1) by (auto simp: tables_ok_def intro: transfers_ok_frame)
  ultimately show ?thesis
    using assms(1) by (auto simp: tables_ok_def intro: registry_ok_cong catalogue_ok_cong users_ok_cong)
qed

text \<open>A photo changes no column that a batch reads.\<close>

definition with_photo :: "string \<Rightarrow> string \<Rightarrow> CollectionEventEntity \<Rightarrow> CollectionEventEntity" where
  "with_photo i u e = (if e_id e = i then e\<lparr>e_photoUri := Some u\<rparr> else e)"

lemma with_photo_cols [simp]:
  "e_id (with_photo i u e) = e_id e" "e_batchId (with_photo i u e) = e_batchId e"
  "e_payloadHash (with_photo i u e) = e_payloadHash e" "e_weightKg (with_photo i u e) = e_weightKg e"
  "e_capturedAt (with_photo i u e) = e_capturedAt e" "e_quarantined (with_photo i u e) = e_quarantined e"
  "e_hubId (with_photo i u e) = e_hubId e" "e_material (with_photo i u e) = e_material e"
  "e_collectorId (with_photo i u e) = e_collectorId e" "e_deviceId (with_photo i u e) = e_deviceId e"
  "e_integrity (with_photo i u e) = e_integrity e" "e_receivedAt (with_photo i u e) = e_receivedAt e"
  by (simp_all add: with_photo_def)

lemma photo_patch: "patch_by e_id i (\<lambda>e. e\<lparr>e_photoUri := Some u\<rparr>) rows = map (with_photo i u) rows"
  by (simp add: patch_by_def update_where_def with_photo_def[abs_def])

lemma photo_batch_events: "batch_events j (s\<lparr>events := map (with_photo i u) (events s)\<rparr>) = map (with_photo i u) (batch_events j s)"
  by (simp add: batch_events_def find_all_def filter_map comp_def)

lemma photo_orderedEvents: "orderedEvents j (s\<lparr>events := map (with_photo i u) (events s)\<rparr>) = map (with_photo i u) (orderedEvents j s)"
  unfolding orderedEvents_def photo_batch_events by (rule js_sort_map) (simp add: event_order_def)

lemma photo_columns: "total_weight (map (with_photo i u) es) = total_weight es" "leavesOf (map (with_photo i u) es) = leavesOf es"
  by (simp_all add: total_weight_def leavesOf_def comp_def)

lemma photo_tables_ok:
  assumes "tables_ok s"
  shows "tables_ok (s\<lparr>events := map (with_photo i u) (events s)\<rparr>)"
proof -
  let ?s = "s\<lparr>events := map (with_photo i u) (events s)\<rparr>"
  have ok: "batches_ok s" "events_ok s" using assms by (auto simp: tables_ok_def)
  have "batch_ok ?s b" if "b \<in> set (batches s)" for b
    using that ok(1)
    by (auto simp: batches_ok_def batch_ok_def sealed_ok_def open_ok_def recomputeTotals_def photo_batch_events
        photo_orderedEvents photo_columns Let_def)
  moreover have "member_ok ?s (with_photo i u e)" if "e \<in> set (events s)" for e
  proof -
    have "member_ok s e" using that ok(1) by (simp add: batches_ok_def)
    then show ?thesis by (simp add: member_ok_def split: option.splits)
  qed
  moreover have "anchor_ok ?s a" if "a \<in> set (anchors s)" for a
    using that ok(1) by (auto simp: batches_ok_def anchor_ok_def)
  ultimately have "batches_ok ?s" using ok(1) by (simp add: batches_ok_def)
  moreover have "events_ok ?s" using ok(2) by (simp add: events_ok_def comp_def)
  moreover have "transfers_ok ?s" using assms by (auto simp: tables_ok_def intro: transfers_ok_frame)
  ultimately show ?thesis
    using assms by (auto simp: tables_ok_def intro: registry_ok_cong catalogue_ok_cong users_ok_cong)
qed

lemma attach_effect:
  assumes "attach_photo r m i bs (s, d) = Inr (pa, s', d')"
  obtains u where "s' = s\<lparr>events := map (with_photo i u) (events s)\<rparr>"
  using attach_eq[OF assms] photo_patch by metis

section \<open>Every step keeps the invariant\<close>

lemma genuine_cong: "devices s' = devices s \<Longrightarrow> hubs s' = hubs s \<Longrightarrow> genuine env s' e = genuine env s e"
  by (simp add: genuine_def)

lemma genuine_with_photo: "genuine env s (with_photo i u e) = genuine env s e"
  by (simp add: with_photo_def genuine_photo)

lemma planned_ok_cong:
  "planned_ok s e \<Longrightarrow> e_id ` set (events s') = e_id ` set (events s) \<Longrightarrow> devices s' = devices s \<Longrightarrow> hubs s' = hubs s
    \<Longrightarrow> collectors s' = collectors s \<Longrightarrow> planned_ok s' e"
  by (simp add: planned_ok_def)

lemma planned_by_read:
  assumes I: "ingest_read env now i p sig s = Inr (Insert e)" and "i \<notin> e_id ` set (events s)"
  shows "planned_ok s e" and "e_id e = i"
proof -
  note R = ingest_read_Insert[OF I]
  have row: "e_id e = i" "e_batchId e = None" "e_photoUri e = None" "e_quarantined e = (v_outcome (e_integrity e) = fail)"
    "e_hubId e = p_hubId p" "e_collectorId e = p_collectorId p" "e_deviceId e = p_deviceId p"
    by (subst R(9), simp)+
  show "e_id e = i" by (rule row(1))
  show "planned_ok s e"
    using assms(2) R(3,5,6,7) row by (auto simp: planned_ok_def get_by_None_iff eventPayloadHash_hash64)
qed

lemma first_world_ok: "world_ok D first_world"
  by (simp add: world_ok_def first_world_def empty_db_def tables_ok_def registry_ok_def catalogue_ok_def events_ok_def
      batches_ok_def transfers_ok_def users_ok_def photos_ok_def disk_ok_def read_photo_def rows_ok_def
      split: sum.split)

lemma serve_keeps:
  assumes ok: "world_ok D w" and st: "service_step D (w_clock w) (w_db w) s'"
  shows "world_ok D (w\<lparr>w_db := s'\<rparr>)"
proof -
  have "tables_ok (w_db w)" using ok by (simp add: world_ok_def)
  note T = service_step_tables[OF st this]
  show ?thesis
    using ok T photos_ok_grows[OF _ T(2)] rows_ok_grows[OF _ T(2)] planned_ok_grows[OF _ T(2)]
    by (simp add: world_ok_def)
qed

lemma read_keeps:
  assumes ok: "world_ok D w" and I: "ingest_read (dp_env D) (w_clock w) i p sig (w_db w) = Inr (Insert e)"
    and fresh: "i \<notin> e_id ` set (events (w_db w))" "i \<notin> e_id ` set (w_planned w)"
  shows "world_ok D (w\<lparr>w_planned := e # w_planned w\<rparr>)"
  using ok planned_genuine[OF I] planned_by_read[OF I fresh(1)] fresh(2)
  by (auto simp: world_ok_def rows_ok_def)

lemma drop_keeps:
  assumes "world_ok D w" and "w_planned w = xs @ e # ys"
  shows "world_ok D (w\<lparr>w_planned := xs @ ys\<rparr>)"
  using assms by (auto simp: world_ok_def rows_ok_def)

lemma save_keeps:
  assumes ok: "world_ok D w" and pl: "w_planned w = xs @ e # ys" and sv: "ingest_save e (w_db w) = Inr (r, s')"
  shows "world_ok D (w\<lparr>w_db := s', w_planned := xs @ ys\<rparr>)"
  using sv
proof (cases rule: save_effect)
  case lost
  then show ?thesis using drop_keeps[OF ok pl] by (simp add: world_ok_def)
next
  case stored
  let ?s = "w_db w"
  have "distinct (map e_id (xs @ e # ys))" using ok pl by (simp add: world_ok_def)
  then have "e_id x \<noteq> e_id e" if "x \<in> set (xs @ ys)" for x
    using imageI[OF that, of e_id] by auto
  moreover have e: "planned_ok ?s e" and "\<forall>x \<in> set (xs @ ys). planned_ok ?s x"
    using ok pl by (auto simp: world_ok_def)
  ultimately have rest: "\<forall>x \<in> set (xs @ ys). planned_ok ?s x \<and> e_id x \<noteq> e_id e" by blast
  have frame: "devices s' = devices ?s" "hubs s' = hubs ?s" using stored(1) by simp_all
  have "tables_ok s'" using ok stored_ok[OF _ e stored(2)] stored(1) by (simp add: world_ok_def)
  moreover have "photos_ok (dp_photoRoot D) (s', w_disk w)"
    using ok e stored(1) by (auto simp: world_ok_def photos_ok_def photo_ok_def planned_ok_def)
  moreover have "rows_ok (dp_env D) (w_clock w) s' (set (events s') \<union> set (xs @ ys))"
    using ok pl stored(1) genuine_cong[OF frame] by (auto simp: world_ok_def rows_ok_def)
  moreover have "\<forall>x \<in> set (xs @ ys). planned_ok s' x"
    using rest stored(1) by (auto simp: planned_ok_def)
  ultimately show ?thesis using ok pl by (simp add: world_ok_def)
qed

lemma attach_keeps:
  assumes ok: "world_ok D w"
    and at: "attach_photo (dp_photoRoot D) (dp_photoMaxBytes D) i bs (w_db w, w_disk w) = Inr (pa, s', d')"
  shows "world_ok D (w\<lparr>w_db := s', w_disk := d'\<rparr>)"
proof -
  obtain u where s': "s' = (w_db w)\<lparr>events := map (with_photo i u) (events (w_db w))\<rparr>"
    by (rule attach_effect[OF at])
  have frame: "devices s' = devices (w_db w)" "hubs s' = hubs (w_db w)" unfolding s' by simp_all
  have T: "tables_ok (w_db w)" using ok by (simp add: world_ok_def)
  then have "distinct (map e_id (events (w_db w)))" by (simp add: tables_ok_def events_ok_def)
  then have "photos_ok (dp_photoRoot D) (s', d')" using ok attach_photos_ok[OF _ at] by (simp add: world_ok_def)
  moreover have "tables_ok s'" unfolding s' by (rule photo_tables_ok[OF T])
  moreover have "rows_ok (dp_env D) (w_clock w) s' (set (events s') \<union> set (w_planned w))"
    using ok genuine_cong[OF frame] unfolding s'
    by (auto simp: world_ok_def rows_ok_def genuine_with_photo)
  moreover have "\<forall>x \<in> set (w_planned w). planned_ok s' x"
    using ok unfolding s' by (auto simp: world_ok_def planned_ok_def image_image)
  ultimately show ?thesis using ok by (simp add: world_ok_def)
qed

lemma step_keeps: "step D w w' \<Longrightarrow> world_ok D w \<Longrightarrow> world_ok D w'"
proof (induction rule: step.induct)
  case (ticks w t)
  have "rows_ok (dp_env D) (w_clock w) (w_db w) es \<Longrightarrow> rows_ok (dp_env D) t (w_db w) es" for es
    using ticks(1) by (auto simp: rows_ok_def intro: order_trans)
  then show ?case using ticks(2) by (simp add: world_ok_def)
qed (blast intro: serve_keeps read_keeps save_keeps drop_keeps attach_keeps)+

lemma runs_keep: "runs D w w' \<Longrightarrow> world_ok D w \<Longrightarrow> world_ok D w'"
  by (induction rule: rtranclp_induct) (auto intro: step_keeps)

lemma reachable_ok: "reachable D w \<Longrightarrow> world_ok D w"
  unfolding reachable_def by (erule runs_keep) (rule first_world_ok)

lemma reachable_run: "reachable D w \<Longrightarrow> runs D w w' \<Longrightarrow> reachable D w'"
  by (simp add: reachable_def)

section \<open>A seal is final\<close>

text \<open>What a seal commits to, and the weigh-ins under it without their photos, which may still arrive.\<close>

definition commitment :: "BatchEntity \<Rightarrow> string \<times> string \<times> string option \<times> jsnum \<times> nat \<times> instant option" where
  "commitment b = (b_hubId b, b_material b, b_merkleRoot b, b_totalWeightKg b, b_eventCount b, b_sealedAt b)"

definition members :: "string \<Rightarrow> db \<Rightarrow> CollectionEventEntity list" where
  "members i s = map (\<lambda>e. e\<lparr>e_photoUri := None\<rparr>) (orderedEvents i s)"

definition frozen :: "string \<Rightarrow> db \<Rightarrow> db \<Rightarrow> bool" where
  "frozen i s s' = (\<exists>b b'. get_by b_id i (batches s) = Some b \<and> get_by b_id i (batches s') = Some b'
     \<and> commitment b' = commitment b \<and> b_status b \<le> b_status b' \<and> members i s' = members i s)"

definition is_sealed :: "string \<Rightarrow> db \<Rightarrow> bool" where
  "is_sealed i s = (\<exists>b. get_by b_id i (batches s) = Some b \<and> b_status b \<noteq> open)"

lemma frozen_sealed: "is_sealed i s \<Longrightarrow> frozen i s s' \<Longrightarrow> is_sealed i s'"
  using antisym[OF _ open_least] by (fastforce simp: is_sealed_def frozen_def)

lemma frozen_trans: "frozen i s t \<Longrightarrow> frozen i t u \<Longrightarrow> frozen i s u"
  unfolding frozen_def by (auto intro: order_trans)

lemma frozen_other:
  assumes "is_sealed i s" and "get_by b_id i (batches s') = get_by b_id i (batches s)"
    and "batch_events i s' = batch_events i s"
  shows "frozen i s s'"
  using assms by (auto simp: frozen_def is_sealed_def members_def orderedEvents_def)

lemma frozen_frame: "batches_frame s s' \<Longrightarrow> is_sealed i s \<Longrightarrow> frozen i s s'"
  by (rule frozen_other) (auto simp: batches_frame_def batch_events_def)

text \<open>What works on an open batch works on another one.\<close>

lemma frozen_patch:
  assumes "is_sealed i s" and "get_by b_id j (batches s) = Some b" and "b_status b = open"
    and "batches s' = patch_by b_id j f (batches s)" and "\<And>b. b_id (f b) = b_id b"
    and "i \<noteq> j \<Longrightarrow> batch_events i s' = batch_events i s"
  shows "frozen i s s'"
proof -
  have ij: "i \<noteq> j" using assms(1-3) by (auto simp: is_sealed_def)
  show ?thesis
    by (rule frozen_other[OF assms(1)]) (use assms(4-6) ij in \<open>auto simp: get_by_patch_by\<close>)
qed

lemma addEvents_frozen:
  assumes "addEvents j ids s = Inr (r, s')" and "is_sealed i s" and "distinct (map e_id (events s))"
  shows "frozen i s s'"
proof -
  obtain b where b: "get_by b_id j (batches s) = Some b" "b_status b = open" and s': "s' = store_totals j (joined j (set ids) s)"
      and free: "\<forall>e \<in> set (events s). e_id e \<in> set ids \<longrightarrow> joinable b e"
    using addEvents_eq[OF assms(1)] assms(3) by metis
  show ?thesis
  proof (rule frozen_patch[OF assms(2) b])
    show "batches s' = patch_by b_id j (\<lambda>b. b\<lparr>b_totalWeightKg := total_weight (batch_events j (joined j (set ids) s)),
        b_eventCount := length (batch_events j (joined j (set ids) s))\<rparr>) (batches s)"
      by (simp add: s' store_totals_batches)
    show "batch_events i s' = batch_events i s" if "i \<noteq> j"
      using joined_other[of s "set ids" i j] free that
      by (simp add: s' batch_events_events[OF store_totals_frames(1)] joinable_def)
  qed simp
qed

lemma removeEvent_frozen:
  assumes "removeEvent j ev s = Inr (r, s')" and "is_sealed i s"
  shows "frozen i s s'"
proof -
  obtain b where b: "get_by b_id j (batches s) = Some b" "b_status b = open" and s': "s' = store_totals j (left_batch j ev s)"
    using removeEvent_eq[OF assms(1)] by metis
  show ?thesis
  proof (rule frozen_patch[OF assms(2) b])
    show "batches s' = patch_by b_id j (\<lambda>b. b\<lparr>b_totalWeightKg := total_weight (batch_events j (left_batch j ev s)),
        b_eventCount := length (batch_events j (left_batch j ev s))\<rparr>) (batches s)"
      by (simp add: s' store_totals_batches)
    show "batch_events i s' = batch_events i s" if "i \<noteq> j"
      using left_other[OF that, of ev s] by (simp add: s' batch_events_events[OF store_totals_frames(1)])
  qed simp
qed

lemma seal_frozen:
  assumes "seal now j s = Inr (r, s')" and "is_sealed i s"
  shows "frozen i s s'"
  using assms(1)
proof (cases rule: seal_eq)
  case (1 b)
  then show ?thesis
    by (intro frozen_patch[OF assms(2) 1(1,2), where f = "freeze now (level_root (leavesOf (orderedEvents j s))) (orderedEvents j s)"])
      (auto simp: freeze_def batch_events_def)
qed

lemma advanceStatus_frozen:
  assumes "advanceStatus j to s = Inr (r, s')" and "is_sealed i s"
  shows "frozen i s s'"
  using assms(1)
proof (cases rule: advanceStatus_eq)
  case (1 b)
  have ev: "batch_events i s' = batch_events i s" using 1(3) by (simp add: batch_events_def)
  show ?thesis
  proof (cases "i = j")
    case False
    then show ?thesis by (intro frozen_other[OF assms(2) _ ev]) (simp add: 1(3) get_by_patch_by)
  next
    case True
    have "get_by b_id i (batches s') = Some (b\<lparr>b_status := to\<rparr>)" using True 1(1) by (simp add: 1(3) get_by_patch_by)
    moreover have "b_status b \<le> to" using 1(2) by (auto simp: less_eq_BatchStatus_def)
    ultimately show ?thesis
      using True 1(1) ev by (auto simp: frozen_def commitment_def members_def orderedEvents_def)
  qed
qed

lemma create_batch_frozen: "create_batch now j h code s = Inr (b, s') \<Longrightarrow> is_sealed i s \<Longrightarrow> frozen i s s'"
  by (rule frozen_other) (auto simp: is_sealed_def get_by_insert_row batch_events_def dest!: create_batch_eq(1))

lemma recordAnchor_frozen: "recordAnchor pd now ai ti j adto s = Inr (a, s') \<Longrightarrow> is_sealed i s \<Longrightarrow> frozen i s s'"
  by (rule frozen_other) (auto simp: batch_events_def elim!: recordAnchor_eq)

lemma service_step_frozen:
  assumes "service_step D now s s'" and "is_sealed i s" and "distinct (map e_id (events s))"
  shows "frozen i s s'"
  using assms
  by cases (erule step_batches_frame[THEN frozen_frame], assumption
    | (erule (2) addEvents_frozen)
    | (erule (1) removeEvent_frozen seal_frozen advanceStatus_frozen create_batch_frozen recordAnchor_frozen))+

lemma save_frozen: "ingest_save e s = Inr (r, s') \<Longrightarrow> e_batchId e = None \<Longrightarrow> is_sealed i s \<Longrightarrow> frozen i s s'"
  by (rule frozen_other) (auto simp: batch_events_def find_all_insert_row elim!: save_effect)

lemma photo_frozen: "is_sealed i s \<Longrightarrow> frozen i s (s\<lparr>events := map (with_photo j u) (events s)\<rparr>)"
  by (auto simp: is_sealed_def frozen_def members_def photo_orderedEvents comp_def with_photo_def)

lemma step_frozen:
  assumes "step D w w'" and "world_ok D w" and "is_sealed i (w_db w)"
  shows "frozen i (w_db w) (w_db w')"
  using assms
proof cases
  case (serves s')
  have "distinct (map e_id (events (w_db w)))" using assms(2) by (simp add: world_ok_def tables_ok_def events_ok_def)
  then show ?thesis using service_step_frozen[OF serves(2) assms(3)] serves(1) by simp
next
  case (saves xs e ys r s')
  then have "e_batchId e = None" using assms(2) by (auto simp: world_ok_def planned_ok_def)
  then show ?thesis using save_frozen[OF saves(3) _ assms(3)] saves(1) by simp
next
  case (attaches j bs pa s' d')
  obtain u where "s' = (w_db w)\<lparr>events := map (with_photo j u) (events (w_db w))\<rparr>"
    by (rule attach_effect[OF attaches(2)])
  then show ?thesis using photo_frozen[OF assms(3)] attaches(1) by simp
qed (use frozen_other[OF assms(3)] in simp_all)

lemma runs_frozen:
  assumes "runs D w w'" and "world_ok D w" and "is_sealed i (w_db w)"
  shows "frozen i (w_db w) (w_db w')"
  using assms(1)
proof (induction rule: rtranclp_induct)
  case base
  then show ?case by (rule frozen_other[OF assms(3) refl refl])
next
  case (step u v)
  have "is_sealed i (w_db u)" by (rule frozen_sealed[OF assms(3) step.IH])
  then show ?case
    using frozen_trans[OF step.IH] step_frozen[OF step.hyps(2)] runs_keep[OF step.hyps(1) assms(2)] by blast
qed

section \<open>A concrete run\<close>

text \<open>
  From the empty database to a sealed batch: a hub, a material, a collector and a
  device are registered, a weigh-in of 12.345 kg arrives, joins a batch, the batch is sealed.
\<close>

definition run_deployment :: deployment where
  "run_deployment = \<lparr>dp_env = \<lparr>cryptoVerify = (\<lambda>_ _ _. Some True), parseDate = (\<lambda>_. Some 0),
       maxClockSkewSeconds = js_of_int 300\<rparr>, dp_hashPassword = (\<lambda>p. p), dp_verifyPassword = (\<lambda>h p. Some (h = p)),
     dp_photoRoot = ''/p'', dp_photoMaxBytes = PosInf\<rparr>"

definition run_hub :: HubEntity where
  "run_hub = \<lparr>h_id = ''h'', h_code = ''H'', h_name = ''Hub'', h_minWeightKg = gram 100, h_maxWeightKg = gram 10000000\<rparr>"

definition run_material :: Material where
  "run_material = \<lparr>m_code = ''PET'', m_name = ''PET'', m_description = None, m_examples = [], m_active = True, m_sortOrder = 100\<rparr>"

definition run_collector :: CollectorEntity where
  "run_collector = \<lparr>c_id = ''c'', c_name = ''C'', c_phone = ''+1'', c_cooperativeId = None, c_kycLevel = kyc_none,
     c_active = True, c_createdAt = 0\<rparr>"

definition run_device :: DeviceEntity where
  "run_device = \<lparr>d_id = ''d'', d_collectorId = ''c'', d_label = ''phone'', d_publicKeyBase64 = base64_encode (replicate 32 0),
     d_enrolledAt = 0, d_revokedAt = None\<rparr>"

definition run_signature :: string where
  "run_signature = base64_encode (replicate 64 0)"

definition registered_db :: db where
  "registered_db = empty_db\<lparr>hubs := [run_hub], materials := [run_material], collectors := [run_collector], devices := [run_device]\<rparr>"

lemma serve_run: "service_step D (w_clock w) (w_db w) s' \<Longrightarrow> runs D v w \<Longrightarrow> runs D v (w\<lparr>w_db := s'\<rparr>)"
  by (rule rtranclp.rtrancl_into_rtrancl) (auto intro: serves)

lemma createHub_run: "createHub ''h'' \<lparr>ch_code = ''H'', ch_name = ''Hub'', ch_minWeightKg = None, ch_maxWeightKg = None\<rparr> empty_db
    = Inr (run_hub, empty_db\<lparr>hubs := [run_hub]\<rparr>)"
  by (simp add: createHub_def Let_def empty_db_def run_hub_def insert_row_def get_by_def)

lemma create_material_run: "\<exists>m. create_material \<lparr>cm_code = ''PET'', cm_name = ''PET'', cm_description = None, cm_examples = None,
      cm_active = None, cm_sortOrder = None\<rparr> (empty_db\<lparr>hubs := [run_hub]\<rparr>)
    = Inr (m, empty_db\<lparr>hubs := [run_hub], materials := [run_material]\<rparr>)"
proof -
  have "js_upper (js_trim ''PET'') = ''PET''" "isMaterialCode ''PET''" "js_trim ''PET'' = ''PET''"
    "normaliseExamples (dto_examples None) = []"
    by code_simp+
  then show ?thesis
    by (simp add: create_material_eq blankToNull_def empty_db_def run_material_def insert_row_def get_by_def)
qed

lemma createCollector_run: "createCollector 0 ''c'' \<lparr>cc_name = ''C'', cc_phone = ''+1'', cc_cooperativeId = None, cc_kycLevel = None\<rparr>
      (empty_db\<lparr>hubs := [run_hub], materials := [run_material]\<rparr>)
    = Inr (run_collector, empty_db\<lparr>hubs := [run_hub], materials := [run_material], collectors := [run_collector]\<rparr>)"
  by (simp add: createCollector_def Let_def empty_db_def run_collector_def insert_row_def get_by_def)

lemma enrolDevice_run: "enrolDevice 0 ''d'' \<lparr>ed_collectorId = ''c'', ed_label = ''phone'', ed_publicKeyBase64 = base64_encode (replicate 32 0)\<rparr>
      (empty_db\<lparr>hubs := [run_hub], materials := [run_material], collectors := [run_collector]\<rparr>)
    = Inr (run_device, registered_db)"
  by (simp add: enrolDevice_def publicKeyFromBase64_def Let_def empty_db_def run_collector_def run_device_def registered_db_def
      insert_row_def get_by_def)

lemma registered_run: "runs run_deployment first_world (first_world\<lparr>w_db := registered_db\<rparr>)"
proof -
  obtain m where m: "create_material \<lparr>cm_code = ''PET'', cm_name = ''PET'', cm_description = None, cm_examples = None,
      cm_active = None, cm_sortOrder = None\<rparr> (empty_db\<lparr>hubs := [run_hub]\<rparr>)
    = Inr (m, empty_db\<lparr>hubs := [run_hub], materials := [run_material]\<rparr>)"
    using create_material_run by blast
  let ?w = "\<lambda>s. first_world\<lparr>w_db := s\<rparr>"
  have w0: "first_world = ?w empty_db" by (simp add: first_world_def)
  have c: "w_clock (?w s) = 0" "w_db (?w s) = s" "(?w s)\<lparr>w_db := s'\<rparr> = ?w s'" for s s' by (simp_all add: first_world_def)
  have go: "service_step run_deployment 0 s s' \<Longrightarrow> runs run_deployment first_world (?w s) \<Longrightarrow> runs run_deployment first_world (?w s')" for s s'
    using serve_run[of run_deployment "?w s" s' first_world] c by simp
  have "runs run_deployment first_world (?w empty_db)" using w0 by simp
  then show ?thesis
    by (intro go[OF enrols_device[OF enrolDevice_run]] go[OF creates_collector[OF createCollector_run]]
        go[OF creates_material[OF m]] go[OF creates_hub[OF createHub_run]])
      (simp_all add: empty_db_def run_collector_def)
qed

text \<open>The weigh-in passes every check, so its row is clean.\<close>

lemma run_verdict:
  assumes "eventPayloadHash (sample_payload ''n'' 12345) = Inr h"
  shows "v_outcome (evaluateIntegrity (cryptoVerify (dp_env run_deployment)) (parseDate (dp_env run_deployment))
    (sample_payload ''n'' 12345) run_signature
    (integrity_context (dp_env run_deployment) 0 (sample_payload ''n'' 12345) h registered_db)) \<noteq> fail"
proof -
  let ?p = "sample_payload ''n'' 12345" and ?env = "dp_env run_deployment"
  let ?ctx = "integrity_context ?env 0 ?p h registered_db"
  have w: "is_weight (gram 12345)" by (simp add: gram_weight)
  have dev: "x_device ?ctx = Some \<lparr>dc_id = ''d'', dc_collectorId = ''c'', dc_publicKeyBase64 = base64_encode (replicate 32 0), dc_revokedAt = None\<rparr>"
    and col: "x_collector ?ctx = Some (''c'', True)"
    and hub: "x_hub ?ctx = Some (''h'', gram 100, gram 10000000)" and dup: "\<not> x_isDuplicate ?ctx"
    and cfg: "x_now ?ctx = 0" "x_maxClockSkewSeconds ?ctx = js_of_int 300" and pd: "parseDate ?env = (\<lambda>_. Some 0)"
    by (simp_all add: integrity_context_def registered_db_def empty_db_def run_device_def run_collector_def run_hub_def
        sample_payload_def get_by_def exists_where_def run_deployment_def)
  have "js_lt (gram 0) (gram 12345)" "\<not> js_lt (gram 12345) (gram 100)" "\<not> js_lt (gram 10000000) (gram 12345)"
    by (subst gram_less_iff; simp)+
  then have weight: "weight_ok ?p ?ctx"
    using hub is_weight_finite[OF w] by (auto simp: weight_ok_def sample_payload_def js_gt_def)
  have device: "device_ok ?p ?ctx" using dev col by (simp add: device_ok_def sample_payload_def)
  have clock: "f_outcome (checkClock (parseDate ?env) ?p ?ctx) = pass"
    by (subst checkClock_outcome[where skew = 300]) (simp_all add: cfg clock_class_def pd)
  have "canonicalEventPayload ?p = Inr (canonical_text ?p)" by (rule canonical_total) (simp add: sample_payload_def w)
  then have sig: "verifyWeighInSignature (cryptoVerify ?env) ?p run_signature (base64_encode (replicate 32 0))"
    by (simp add: verify_signature_iff run_signature_def run_deployment_def)
  have photo: "is_hash64 (p_photoHash ?p)" by (simp add: sample_payload_def)
  show ?thesis
    using weight device clock sig photo dup dev by (auto simp: verdict_fail_iff)
qed

lemma run_read:
  "\<exists>e. ingest_read (dp_env run_deployment) 0 ''e'' (sample_payload ''n'' 12345) run_signature registered_db = Inr (Insert e)
    \<and> \<not> e_quarantined e"
proof -
  let ?p = "sample_payload ''n'' 12345"
  have h: "eventPayloadHash ?p = Inr (sha256Hex (utf8 (canonical_text ?p)))"
    by (rule payload_hash_total) (simp add: sample_payload_def gram_weight)
  show ?thesis
    using h run_verdict[OF h]
    by (simp add: ingest_read_def assertKnown_def exists_where_def registered_db_def empty_db_def run_material_def
        run_device_def run_collector_def run_hub_def sample_payload_def get_by_def Let_def) (simp add: run_deployment_def)
qed

text \<open>The batch it joins, and the seal.\<close>

definition run_batch :: BatchEntity where
  "run_batch = \<lparr>b_id = ''b'', b_hubId = ''h'', b_material = ''PET'', b_status = open, b_totalWeightKg = Fin 0,
     b_eventCount = 0, b_merkleRoot = None, b_sealedAt = None, b_createdAt = 0\<rparr>"

definition weighed_db :: "CollectionEventEntity \<Rightarrow> db" where
  "weighed_db e = registered_db\<lparr>events := [e]\<rparr>"

definition joined_db :: "CollectionEventEntity \<Rightarrow> db" where
  "joined_db e = store_totals ''b'' (registered_db\<lparr>events := [e\<lparr>e_batchId := Some ''b''\<rparr>], batches := [run_batch]\<rparr>)"

lemma create_batch_run: "create_batch 0 ''b'' ''h'' ''PET'' (weighed_db e) = Inr (run_batch, weighed_db e\<lparr>batches := [run_batch]\<rparr>)"
  by (simp add: create_batch_def assertOpenable_def weighed_db_def registered_db_def empty_db_def run_material_def run_hub_def
      run_batch_def get_by_def insert_row_def Let_def)

lemma addEvents_run:
  assumes "e_id e = ''e''" "e_batchId e = None" "\<not> e_quarantined e" "e_hubId e = ''h''" "e_material e = ''PET''"
  shows "\<exists>b. addEvents ''b'' [''e''] (weighed_db e\<lparr>batches := [run_batch]\<rparr>) = Inr (b, joined_db e)"
  using assms
  by (simp add: addEvents_def findOne_batch_def get_by_def Let_def find_all_def store_totals_def recomputeTotals_def
      batch_events_def update_where_def patch_by_def weighed_db_def joined_db_def registered_db_def empty_db_def run_batch_def)

lemma seal_run:
  assumes "\<not> e_quarantined e"
  shows "\<exists>b s'. seal 0 ''b'' (joined_db e) = Inr (b, s') \<and> is_sealed ''b'' s' \<and> events s' = [e\<lparr>e_batchId := Some ''b''\<rparr>]
    \<and> anchors s' = []"
proof -
  let ?e = "e\<lparr>e_batchId := Some ''b''\<rparr>"
  have o: "orderedEvents ''b'' (joined_db e) = [?e]"
    by (simp add: orderedEvents_def batch_events_def joined_db_def registered_db_def find_all_def)
  have r: "merkleRootHex (leavesOf [?e]) = Inr (level_root (leavesOf [?e]))"
    by (rule merkleRootHex_ok) simp_all
  have ev: "events (joined_db e) = [?e]" "anchors (joined_db e) = []"
    by (simp_all add: joined_db_def registered_db_def empty_db_def)
  obtain t n where bs: "batches (joined_db e) = [run_batch\<lparr>b_totalWeightKg := t, b_eventCount := n\<rparr>]"
    by (simp add: joined_db_def store_totals_def recomputeTotals_def patch_by_def update_where_def run_batch_def Let_def)
  show ?thesis
    using assms o r ev
    by (simp add: seal_def findOne_batch_def get_by_def patch_by_def update_where_def is_sealed_def Let_def bs run_batch_def)
qed

lemma sample_run:
  obtains w e where "reachable run_deployment w" "is_sealed ''b'' (w_db w)" "events (w_db w) = [e]" "e_batchId e = Some ''b''"
    "anchors (w_db w) = []"
proof -
  let ?w = "\<lambda>s. first_world\<lparr>w_db := s\<rparr>"
  obtain e where I: "ingest_read (dp_env run_deployment) 0 ''e'' (sample_payload ''n'' 12345) run_signature registered_db = Inr (Insert e)"
      and q: "\<not> e_quarantined e"
    using run_read by blast
  have row: "e_id e = ''e''" "e_batchId e = None" "e_hubId e = ''h''" "e_material e = ''PET''"
    by (subst ingest_read_Insert(9)[OF I], simp add: sample_payload_def)+
  have c: "w_clock (?w s) = 0" "w_db (?w s) = s" "(?w s)\<lparr>w_db := s'\<rparr> = ?w s'" "w_planned (?w s) = []" for s s'
    by (simp_all add: first_world_def)
  have go: "service_step run_deployment 0 s s' \<Longrightarrow> runs run_deployment first_world (?w s) \<Longrightarrow> runs run_deployment first_world (?w s')" for s s'
    using serve_run[of run_deployment "?w s" s' first_world] c by simp
  have "step run_deployment (?w registered_db) ((?w registered_db)\<lparr>w_planned := [e]\<rparr>)"
    using reads[of run_deployment "?w registered_db" "''e''"] I c by (simp add: registered_db_def empty_db_def)
  moreover have "step run_deployment ((?w registered_db)\<lparr>w_planned := [e]\<rparr>) (?w (weighed_db e))"
  proof -
    have "ingest_save e registered_db = Inr (\<lparr>r_eventId = e_id e, r_payloadHash = e_payloadHash e,
         r_quarantined = e_quarantined e, r_integrity = e_integrity e, r_duplicate = False\<rparr>, weighed_db e)"
      by (simp add: ingest_save_def weighed_db_def registered_db_def empty_db_def get_by_def insert_row_def)
    then show ?thesis
      using saves[of "(?w registered_db)\<lparr>w_planned := [e]\<rparr>" "[]" e "[]"] by (simp add: first_world_def)
  qed
  ultimately have "runs run_deployment first_world (?w (weighed_db e))"
    using registered_run by (meson rtranclp.rtrancl_into_rtrancl)
  moreover have "service_step run_deployment 0 (weighed_db e) (weighed_db e\<lparr>batches := [run_batch]\<rparr>)"
    by (rule creates_batch[OF create_batch_run]) (simp add: weighed_db_def registered_db_def empty_db_def)
  ultimately have b: "runs run_deployment first_world (?w (weighed_db e\<lparr>batches := [run_batch]\<rparr>))" by (rule go[rotated])
  obtain r where "addEvents ''b'' [''e''] (weighed_db e\<lparr>batches := [run_batch]\<rparr>) = Inr (r, joined_db e)"
    using addEvents_run[OF row(1,2) q row(3,4)] by blast
  then have j: "runs run_deployment first_world (?w (joined_db e))" using go[OF adds_events b] by blast
  obtain r s' where s: "seal 0 ''b'' (joined_db e) = Inr (r, s')" "is_sealed ''b'' s'" "events s' = [e\<lparr>e_batchId := Some ''b''\<rparr>]"
      "anchors s' = []"
    using seal_run[OF q] by blast
  have "runs run_deployment first_world (?w s')" using go[OF seals[OF s(1)] j] .
  then show ?thesis using that[of "?w s'"] s by (simp add: reachable_def c)
qed

section \<open>What is stored stays stored\<close>

text \<open>A row without the two columns that may still change.\<close>

definition record_of :: "CollectionEventEntity \<Rightarrow> CollectionEventEntity" where
  "record_of e = e\<lparr>e_batchId := None, e_photoUri := None\<rparr>"

definition revocation_kept :: "DeviceEntity \<Rightarrow> DeviceEntity \<Rightarrow> bool" where
  "revocation_kept d d' = (d_id d' = d_id d \<and> d_collectorId d' = d_collectorId d \<and> d_publicKeyBase64 d' = d_publicKeyBase64 d
     \<and> (d_revokedAt d \<noteq> None \<longrightarrow> d_revokedAt d' = d_revokedAt d))"

definition appends :: "db \<Rightarrow> db \<Rightarrow> bool" where
  "appends s s' = (prefix (map record_of (events s)) (map record_of (events s'))
     \<and> prefix (anchors s) (anchors s') \<and> prefix (attempts s) (attempts s') \<and> prefix (transfers s) (transfers s')
     \<and> (\<forall>d \<in> set (devices s). \<exists>d' \<in> set (devices s'). revocation_kept d d'))"

lemma appends_refl [simp]: "appends s s"
proof -
  have "revocation_kept d d" for d by (simp add: revocation_kept_def)
  then show ?thesis unfolding appends_def by blast
qed

lemma revocation_kept_trans: "revocation_kept a b \<Longrightarrow> revocation_kept b c \<Longrightarrow> revocation_kept a c"
  by (auto simp: revocation_kept_def)

lemma appends_trans:
  assumes "appends s t" and "appends t u"
  shows "appends s u"
proof -
  have "\<exists>d'' \<in> set (devices u). revocation_kept d d''" if "d \<in> set (devices s)" for d
    using assms that revocation_kept_trans unfolding appends_def by meson
  then show ?thesis using assms unfolding appends_def by (meson prefix_order.trans)
qed

lemma record_unbatched: "record_of (unbatched e) = record_of e"
  by (simp add: record_of_def unbatched_def)

lemma appends_grows: "grows now s s' \<Longrightarrow> appends s s'"
proof -
  assume g: "grows now s s'"
  have "map record_of (map unbatched (events s')) = map record_of (map unbatched (events s))" using g by (simp add: grows_def)
  then have "map record_of (events s') = map record_of (events s)" by (simp add: comp_def record_unbatched)
  moreover have "\<exists>d' \<in> set (devices s'). revocation_kept d d'" if d: "d \<in> set (devices s)" for d
  proof -
    obtain d' where "d' \<in> set (devices s')" "device_succeeds now d d'" using g d by (auto simp: grows_def)
    then show ?thesis by (intro bexI[of _ d']) (auto simp: device_succeeds_def revocation_kept_def)
  qed
  ultimately show ?thesis using g by (simp add: grows_def appends_def)
qed

lemma revocation_refl: "d \<in> ds \<Longrightarrow> \<exists>d' \<in> ds. revocation_kept d d'"
  by (intro bexI[of _ d]) (auto simp: revocation_kept_def)

lemma appends_events:
  "s' = s\<lparr>events := es\<rparr> \<Longrightarrow> prefix (map record_of (events s)) (map record_of es) \<Longrightarrow> appends s s'"
  by (simp add: appends_def revocation_refl)

lemma step_appends:
  assumes "step D w w'" and "world_ok D w"
  shows "appends (w_db w) (w_db w')"
  using assms
proof cases
  case (serves s')
  have "tables_ok (w_db w)" using assms(2) by (simp add: world_ok_def)
  then show ?thesis using serves(1) service_step_tables(2)[OF serves(2)] appends_grows by simp
next
  case (saves xs e ys r s')
  from saves(3) have "appends (w_db w) s'"
    by (cases rule: save_effect) (auto intro!: appends_events simp: insert_row_def)
  then show ?thesis using saves(1) by simp
next
  case (attaches j bs pa s' d')
  obtain u where s': "s' = (w_db w)\<lparr>events := map (with_photo j u) (events (w_db w))\<rparr>"
    by (rule attach_effect[OF attaches(2)])
  have "record_of (with_photo j u e) = record_of e" for e
    by (simp add: record_of_def with_photo_def)
  then have "appends (w_db w) s'" using appends_events[OF s'] by (simp add: comp_def)
  then show ?thesis using attaches(1) by simp
qed simp_all

lemma runs_append:
  assumes "runs D w w'" and "world_ok D w"
  shows "appends (w_db w) (w_db w')"
  using assms(1)
proof (induction rule: rtranclp_induct)
  case (step u v)
  then show ?case using appends_trans step_appends runs_keep[OF step.hyps(1) assms(2)] by blast
qed simp

section \<open>Properties\<close>





text \<open>C3. Every weigh-in in a batch is genuine, in every reachable state: it is not quarantined, its row
  holds the fields of a payload whose canonical hash it carries, a registered device of the collector it
  names signed that payload with a key that verifies and had not been revoked before it arrived, its
  weight is inside the bounds of its hub, and it is of the hub and the material of the batch.\<close>

theorem batched_weigh_ins_are_genuine:
  assumes "reachable D w" and "e \<in> set (events (w_db w))" and "e_batchId e = Some i"
  shows "\<not> e_quarantined e
    \<and> (\<exists>p. records_payload (dp_env D) p e \<and> (\<exists>d \<in> set (devices (w_db w)). vouches (dp_env D) p e d))
    \<and> (\<exists>h \<in> set (hubs (w_db w)). weighable e h)
    \<and> (\<exists>b \<in> set (batches (w_db w)). b_id b = i \<and> e_hubId e = b_hubId b \<and> e_material e = b_material b)"
proof -
  have ok: "world_ok D w" by (rule reachable_ok[OF assms(1)])
  then have "member_ok (w_db w) e" using assms(2) by (simp add: world_ok_def tables_ok_def batches_ok_def)
  then have m: "\<not> e_quarantined e"
      "\<exists>b \<in> set (batches (w_db w)). b_id b = i \<and> e_hubId e = b_hubId b \<and> e_material e = b_material b"
    using assms(3) by (auto simp: member_ok_def)
  have "genuine (dp_env D) (w_db w) e" using ok assms(2) by (simp add: world_ok_def rows_ok_def)
  then show ?thesis using m unfolding genuine_def by blast
qed

theorem batched_weigh_ins_are_genuine_witness:
  "\<exists>(w :: world) e p. e \<in> set (events (w_db w)) \<and> e_batchId e = Some ''b'' \<and> records_payload (dp_env run_deployment) p e"
proof (rule sample_run)
  fix w e assume w: "reachable run_deployment w" "events (w_db w) = [e]" "e_batchId e = Some ''b''"
  then have e: "e \<in> set (events (w_db w))" by simp
  obtain p where "records_payload (dp_env run_deployment) p e"
    using batched_weigh_ins_are_genuine[OF w(1) e w(3)] by auto
  then show ?thesis using e w(3) by (intro exI[of _ w] exI[of _ e] exI[of _ p] conjI)
qed




lemma anchored_run:
  obtains w a where "reachable run_deployment w" "a \<in> set (anchors (w_db w))" "a_batchId a = ''b''"
proof (rule sample_run)
  fix w e assume w: "reachable run_deployment w" "is_sealed ''b'' (w_db w)" "anchors (w_db w) = []"
  have ok: "core_ok (w_db w)" using reachable_ok[OF w(1)] by (simp add: world_ok_def tables_ok_def core_ok_def)
  obtain b where b: "get_by b_id ''b'' (batches (w_db w)) = Some b" "b_status b \<noteq> open" using w(2) by (auto simp: is_sealed_def)
  define r where "r = level_root (leavesOf (orderedEvents ''b'' (w_db w)))"
  have pd: "parseDate (dp_env run_deployment) t = Some 0" for t by (simp add: run_deployment_def)
  have r: "b_merkleRoot b = Some r" "r \<noteq> ''''"
    using sealed_root(1,2)[OF ok b] level_root_not_empty by (simp_all add: r_def)
  define input where "input = \<lparr>an_merkleRoot = r, an_stellarTxHash = ''tx'', an_stellarLedger = 7, an_network = testnet,
       an_dataEntryKey = ''k'', an_anchoredAt = ''''\<rparr>"
  have "b_merkleRoot b = Some (an_merkleRoot input)" "an_merkleRoot input \<noteq> ''''" using r by (simp_all add: input_def)
  then obtain a s' where a: "recordAnchor (parseDate (dp_env run_deployment)) (w_clock w) ''a'' ''t'' ''b'' input (w_db w) = Inr (a, s')"
    using recordAnchor_first[OF b _ _ w(3), of input "parseDate (dp_env run_deployment)"] pd by blast
  have "runs run_deployment w (w\<lparr>w_db := s'\<rparr>)" using serve_run[OF records_anchor[OF a]] by simp
  then have run: "reachable run_deployment (w\<lparr>w_db := s'\<rparr>)" by (rule reachable_run[OF w(1)])
  have "a \<in> set (anchors s') \<and> a_batchId a = ''b''"
    using a
  proof (cases rule: recordAnchor_eq)
    case known
    then show ?thesis using w(3) by (simp add: anchor_of_def get_by_def)
  next
    case new
    then show ?thesis by auto
  qed
  then show ?thesis using that[OF run, of a] by simp
qed


text \<open>Removing a material races with ingest: the gate of an ingest and the count of the removal both
  read before the insert, and no foreign key ties a weigh-in to the catalogue, so a material can be removed
  as unused while a weigh-in of it is on its way, and the weigh-in is then stored with a material that the
  catalogue does not have.\<close>

theorem removal_races_ingest:
  assumes "ingest_read env now i p sig s = Inr (Insert e)" and "remove_material (p_material p) s = Inr (q, s')"
    and "q = p_material p"
  shows "\<exists>r s''. ingest_save e s' = Inr (r, s'') \<and> \<not> r_duplicate r \<and> e \<in> set (events s'') \<and> e_material e \<notin> catalogue_codes s''"
proof -
  note R = ingest_read_Insert[OF assms(1)]
  have m: "e_material e = p_material p" by (subst R(9)) simp
  have "events s' = events s" using assms(2) by (auto simp: remove_material_eq)
  then have none: "get_by e_payloadHash (e_payloadHash e) (events s') = None" using R(4) by simp
  have "p_material p \<notin> catalogue_codes s'" using remove_material_codes[OF assms(2)] assms(3) by simp
  then show ?thesis using m none by (auto simp: ingest_save_def catalogue_codes_def)
qed

lemma remove_run: "\<exists>s'. remove_material ''PET'' registered_db = Inr (''PET'', s')"
proof -
  have "js_upper (js_trim ''PET'') = ''PET''" by code_simp
  then show ?thesis
    by (simp add: remove_material_eq require_material_eq registered_db_def empty_db_def run_material_def get_by_def)
qed

theorem removal_races_ingest_witness:
  "\<exists>e s' r s''. ingest_save e s' = Inr (r, s'') \<and> e \<in> set (events s'') \<and> e_material e \<notin> catalogue_codes s''"
proof -
  obtain e where e: "ingest_read (dp_env run_deployment) 0 ''e'' (sample_payload ''n'' 12345) run_signature registered_db = Inr (Insert e)"
    using run_read by blast
  have m: "p_material (sample_payload ''n'' 12345) = ''PET''" by (simp add: sample_payload_def)
  obtain s' where "remove_material (p_material (sample_payload ''n'' 12345)) registered_db = Inr (''PET'', s')"
    using remove_run unfolding m by blast
  from removal_races_ingest[OF e this m[symmetric]] show ?thesis by blast
qed

end
