(* ===== verification/AnchorWorker.thy ===== *)
theory AnchorWorker
  imports BatchProperties Users Config
begin

text \<open>
  \<open>services/anchor-worker\<close>: \<open>src/anchor.ts\<close>, which writes a root on the ledger and
  reads it back, and \<open>src/index.ts\<close>, the loop that asks the backend for sealed
  batches and reports what became of each.  A network call is a parameter: a function
  from the outside state to a promise and the state after.  A promise that loses
  against its timeout goes on in the background, so its effects stand.
\<close>

section \<open>Promises\<close>

datatype 'a promise = Resolves nat 'a | Rejects nat string | Hangs

type_synonym ('n, 'a) call = "'n \<Rightarrow> 'a promise \<times> 'n"

definition done_with :: "'a \<Rightarrow> ('n, 'a) call" where
  "done_with v n = (Resolves 0 v, n)"

definition throwing :: "string \<Rightarrow> ('n, 'a) call" where
  "throwing m n = (Rejects 0 m, n)"

fun later :: "nat \<Rightarrow> 'a promise \<Rightarrow> 'a promise" where
  "later d (Resolves t v) = Resolves (d + t) v"
| "later d (Rejects t m) = Rejects (d + t) m"
| "later d Hangs = Hangs"

definition and_then :: "('n, 'a) call \<Rightarrow> ('a \<Rightarrow> ('n, 'b) call) \<Rightarrow> ('n, 'b) call" where
  "and_then c f n = (case c n of
      (Resolves t v, n1) \<Rightarrow> (let (p, n2) = f v n1 in (later t p, n2))
    | (Rejects t m, n1) \<Rightarrow> (Rejects t m, n1)
    | (Hangs, n1) \<Rightarrow> (Hangs, n1))"

text \<open>A call inside a \<open>try\<close> whose \<open>catch\<close> swallows the error.\<close>

definition caught :: "('n, 'a) call \<Rightarrow> ('n, 'a option) call" where
  "caught c n = (case c n of
      (Resolves t v, n1) \<Rightarrow> (Resolves t (Some v), n1)
    | (Rejects t m, n1) \<Rightarrow> (Resolves t None, n1)
    | (Hangs, n1) \<Rightarrow> (Hangs, n1))"

text \<open>The delay that \<open>setTimeout\<close> uses for a number of milliseconds.\<close>

definition timer_delay :: "jsnum \<Rightarrow> nat" where
  "timer_delay ms = (case ms of
      Fin x \<Rightarrow> if 1 \<le> x \<and> x \<le> 2147483647 then nat \<lfloor>x\<rfloor> else 1
    | _ \<Rightarrow> 1)"

definition withTimeout :: "'a promise \<Rightarrow> jsnum \<Rightarrow> string \<Rightarrow> string + 'a" where
  "withTimeout p ms label = (let expired = label @ '' timed out after '' @ num_to_string ms @ ''ms'' in
     case p of
       Resolves t v \<Rightarrow> if t < timer_delay ms then Inr v else Inl expired
     | Rejects t m \<Rightarrow> if t < timer_delay ms then Inl m else Inl expired
     | Hangs \<Rightarrow> Inl expired)"

section \<open>Anchoring\<close>

record AnchorResult =
  ar_stellarTxHash :: string
  ar_stellarLedger :: jsnum
  ar_network :: StellarNetwork
  ar_dataEntryKey :: string
  ar_anchoredAt :: string

record AnchorConfig =
  ac_horizonUrl :: string
  ac_networkPassphrase :: string
  ac_secret :: string

text \<open>What the Stellar library provides: its constants and the public key of a secret.\<close>

record stellar_sdk =
  sdk_TESTNET :: string
  sdk_PUBLIC :: string
  sdk_BASE_FEE :: string
  sdk_publicKey :: "string \<Rightarrow> string + string"

definition loadAnchorConfig :: "stellar_sdk \<Rightarrow> environment \<Rightarrow> string + AnchorConfig" where
  "loadAnchorConfig sdk env = (case env ''STELLAR_SECRET'' of
      None \<Rightarrow> Inl ''STELLAR_SECRET is not set -- run `npm run create-account -w @proofchain/anchor-worker` to fund a testnet key''
    | Some secret \<Rightarrow> if secret = ''''
        then Inl ''STELLAR_SECRET is not set -- run `npm run create-account -w @proofchain/anchor-worker` to fund a testnet key''
        else Inr \<lparr>ac_horizonUrl = with_default (env ''STELLAR_HORIZON_URL'') ''https://horizon-testnet.stellar.org'',
          ac_networkPassphrase = with_default (env ''STELLAR_NETWORK_PASSPHRASE'') (sdk_TESTNET sdk), ac_secret = secret\<rparr>)"

definition dataEntryKeyFor :: "string \<Rightarrow> string + string" where
  "dataEntryKeyFor batchId = (let key = ''proofchain:batch:'' @ batchId in
     if length (utf8 key) > 64 then Inl (''data entry key exceeds 64 bytes: '' @ key) else Inr key)"

definition assertRoot :: "string \<Rightarrow> string + bytes" where
  "assertRoot rootHex = (if \<not> is_hash64 rootHex
     then Inl (''expected a 32-byte lowercase hex Merkle root, got: '' @ rootHex) else Inr (hex_decode rootHex))"

definition networkNameOf :: "stellar_sdk \<Rightarrow> string \<Rightarrow> StellarNetwork" where
  "networkNameOf sdk passphrase = (if passphrase = sdk_PUBLIC sdk then public else testnet)"

text \<open>The transaction the builder is asked for, and what a submission answers.\<close>

record anchor_tx =
  tx_source :: string
  tx_fee :: string
  tx_networkPassphrase :: string
  tx_dataName :: string
  tx_dataValue :: bytes
  tx_memoHash :: bytes
  tx_timeout :: nat

record submit_response =
  sr_successful :: bool
  sr_hash :: string
  sr_ledger :: jsnum

text \<open>The backend's answer to a request: its status, its text, and its JSON when it is the list of batches.\<close>

record http_answer =
  ha_status :: nat
  ha_text :: string
  ha_pending :: "PendingAnchorBatch list"

record AnchorBody =
  wb_merkleRoot :: string
  wb_stellarTxHash :: string
  wb_stellarLedger :: jsnum
  wb_network :: StellarNetwork
  wb_dataEntryKey :: string
  wb_anchoredAt :: string

record FailureBody =
  fb_outcome :: AnchorAttemptOutcome
  fb_detail :: string
  fb_stellarTxHash :: "string option"

datatype worker_request = GetPending | PostFailure string string FailureBody | PostAnchor string string AnchorBody

text \<open>The network the worker runs in.  The arguments of the posts are the batch and the token sent.\<close>

record 'n network =
  nw_fetch :: "worker_request \<Rightarrow> 'n \<Rightarrow> (string + http_answer) \<times> 'n"
  nw_loadAccount :: "string \<Rightarrow> string \<Rightarrow> ('n, json) call"
  nw_submit :: "string \<Rightarrow> anchor_tx \<Rightarrow> ('n, submit_response) call"
  nw_transaction :: "string \<Rightarrow> string \<Rightarrow> ('n, json) call"
  nw_now :: "'n \<Rightarrow> instant"

definition from_sum :: "string + 'a \<Rightarrow> ('n, 'a) call" where
  "from_sum r = (case r of Inl m \<Rightarrow> throwing m | Inr v \<Rightarrow> done_with v)"

definition anchorBatchRoot ::
  "stellar_sdk \<Rightarrow> 'n network \<Rightarrow> string \<Rightarrow> string \<Rightarrow> AnchorConfig \<Rightarrow> ('n, AnchorResult) call" where
  "anchorBatchRoot sdk nw rootHex batchId config =
    and_then (from_sum (assertRoot rootHex)) (\<lambda>root.
    and_then (from_sum (dataEntryKeyFor batchId)) (\<lambda>dataEntryKey.
    and_then (from_sum (sdk_publicKey sdk (ac_secret config))) (\<lambda>source.
    and_then (nw_loadAccount nw (ac_horizonUrl config) source) (\<lambda>account.
    and_then (nw_submit nw (ac_horizonUrl config)
        \<lparr>tx_source = source, tx_fee = sdk_BASE_FEE sdk, tx_networkPassphrase = ac_networkPassphrase config,
         tx_dataName = dataEntryKey, tx_dataValue = root, tx_memoHash = root, tx_timeout = 90\<rparr>) (\<lambda>response.
      if \<not> sr_successful response
      then throwing (''Horizon reported an unsuccessful submission for tx '' @ sr_hash response @ '', refusing to treat it as anchored'')
      else (\<lambda>n. (Resolves 0 \<lparr>ar_stellarTxHash = sr_hash response, ar_stellarLedger = sr_ledger response,
          ar_network = networkNameOf sdk (ac_networkPassphrase config), ar_dataEntryKey = dataEntryKey,
          ar_anchoredAt = toISOString (nw_now nw n)\<rparr>, n)))))))"

section \<open>Reading it back\<close>

record LedgerVerification =
  lv_txFound :: bool
  lv_memoMatches :: bool
  lv_dataEntryMatches :: bool
  lv_ledger :: "jsnum option"
  lv_verified :: bool

text \<open>What the answer of Horizon to each of the two reads says; reading a property of null throws.\<close>

definition read_memo :: "string \<Rightarrow> json option \<Rightarrow> bool \<times> jsnum option \<times> bool" where
  "read_memo expectedRootHex answer = (case answer of
      None \<Rightarrow> (False, None, False)
    | Some tx \<Rightarrow> if tx = JNull then (False, None, False)
        else (True, ledger_or_null (js_Number (coalesce (jfield ''ledger_attr'' tx) (JNum (Fin 0)))),
          jfield ''memo_type'' tx = JStr ''hash'' \<and> (case jfield ''memo'' tx of
             JStr memo \<Rightarrow> base64ToHex memo = expectedRootHex | _ \<Rightarrow> False)))"

definition read_data_entry :: "string \<Rightarrow> string \<Rightarrow> json option \<Rightarrow> bool" where
  "read_data_entry expectedRootHex dataEntryKey answer = (case answer of
      None \<Rightarrow> False
    | Some account \<Rightarrow> (case jfield dataEntryKey (jfield ''data_attr'' account) of
        JStr value \<Rightarrow> base64ToHex value = expectedRootHex | _ \<Rightarrow> False))"

definition verifyAnchorOnLedger ::
  "'n network \<Rightarrow> string \<Rightarrow> string \<Rightarrow> string \<Rightarrow> string \<Rightarrow> string \<Rightarrow> ('n, LedgerVerification) call" where
  "verifyAnchorOnLedger nw txHash expectedRootHex accountPublicKey dataEntryKey horizonUrl =
    and_then (caught (nw_transaction nw horizonUrl txHash)) (\<lambda>tx.
    and_then (caught (nw_loadAccount nw horizonUrl accountPublicKey)) (\<lambda>account.
      (case read_memo expectedRootHex tx of (txFound, ledger, memoMatches) \<Rightarrow>
        (let dataEntryMatches = read_data_entry expectedRootHex dataEntryKey account in
         done_with \<lparr>lv_txFound = txFound, lv_memoMatches = memoMatches, lv_dataEntryMatches = dataEntryMatches,
           lv_ledger = ledger, lv_verified = (txFound \<and> (memoMatches \<or> dataEntryMatches))\<rparr>))))"

section \<open>The worker\<close>

definition worker_token :: "environment \<Rightarrow> string" where
  "worker_token env = with_default (env ''ANCHOR_WORKER_TOKEN'') ''''"

definition ANCHOR_TIMEOUT_MS :: "environment \<Rightarrow> jsnum" where
  "ANCHOR_TIMEOUT_MS env = number_var env ''ANCHOR_TIMEOUT_MS'' 60000"

text \<open>What the worker prints, one constructor per kind of line.\<close>

datatype log_line =
    Retry string nat "string option"
  | Unverified string string bool bool
  | Anchored string jsnum nat string jsnum
  | AnchorFailed string nat string
  | ReportFailed string string
  | CycleError string

definition http_ok :: "http_answer \<Rightarrow> bool" where
  "http_ok res = (200 \<le> ha_status res \<and> ha_status res < 300)"

definition fetchPending :: "'n network \<Rightarrow> 'n \<Rightarrow> (string + PendingAnchorBatch list) \<times> 'n" where
  "fetchPending nw n = (case nw_fetch nw GetPending n of
      (Inl m, n1) \<Rightarrow> (Inl m, n1)
    | (Inr res, n1) \<Rightarrow> if \<not> http_ok res
        then (Inl (''backend returned '' @ int_to_string (int (ha_status res)) @ '' for pending-anchor''), n1)
        else (Inr (ha_pending res), n1))"

definition reportFailure ::
  "'n network \<Rightarrow> string \<Rightarrow> string \<Rightarrow> AnchorAttemptOutcome \<Rightarrow> string \<Rightarrow> string option \<Rightarrow> 'n \<Rightarrow> log_line list \<times> 'n" where
  "reportFailure nw token batchId outcome detail stellarTxHash n =
    (case nw_fetch nw (PostFailure batchId token
        \<lparr>fb_outcome = outcome, fb_detail = take 2000 detail, fb_stellarTxHash = stellarTxHash\<rparr>) n of
      (Inl m, n1) \<Rightarrow> ([ReportFailed batchId m], n1)
    | (Inr res, n1) \<Rightarrow> if \<not> http_ok res
        then ([ReportFailed batchId (''backend returned '' @ int_to_string (int (ha_status res)))], n1)
        else ([], n1))"

definition post_anchor :: "'n network \<Rightarrow> string \<Rightarrow> string \<Rightarrow> AnchorBody \<Rightarrow> 'n \<Rightarrow> (string + unit) \<times> 'n" where
  "post_anchor nw token batchId body n = (case nw_fetch nw (PostAnchor batchId token body) n of
      (Inl m, n1) \<Rightarrow> (Inl m, n1)
    | (Inr res, n1) \<Rightarrow>
        if ha_status res = 401 \<or> ha_status res = 403
        then (Inl (''backend rejected the anchor write-back as unauthorised ('' @ int_to_string (int (ha_status res))
          @ ''). ANCHOR_WORKER_TOKEN must match the backend's value.''), n1)
        else if \<not> http_ok res
        then (Inl (''backend rejected the anchor record ('' @ int_to_string (int (ha_status res)) @ ''): '' @ ha_text res), n1)
        else (Inr (), n1))"

text \<open>The body of the \<open>try\<close> for one batch: an error, an unverified submission, or the ledger of the anchor recorded.\<close>

datatype attempt_result = Unconfirmed AnchorResult LedgerVerification | Recorded AnchorResult jsnum

definition anchor_batch ::
  "stellar_sdk \<Rightarrow> 'n network \<Rightarrow> environment \<Rightarrow> AnchorConfig \<Rightarrow> string \<Rightarrow> PendingAnchorBatch \<Rightarrow> 'n
    \<Rightarrow> (string + attempt_result) \<times> 'n" where
  "anchor_batch sdk nw env config publicKey batch n =
    (case anchorBatchRoot sdk nw (pb_merkleRoot batch) (pb_id batch) config n of (p, n1) \<Rightarrow>
      (case withTimeout p (ANCHOR_TIMEOUT_MS env) (''anchoring batch '' @ pb_id batch) of
        Inl m \<Rightarrow> (Inl m, n1)
      | Inr result \<Rightarrow>
        (case verifyAnchorOnLedger nw (ar_stellarTxHash result) (pb_merkleRoot batch) publicKey
            (ar_dataEntryKey result) (ac_horizonUrl config) n1 of (q, n2) \<Rightarrow>
          (case withTimeout q (ANCHOR_TIMEOUT_MS env) (''verifying batch '' @ pb_id batch) of
            Inl m \<Rightarrow> (Inl m, n2)
          | Inr verification \<Rightarrow>
              if \<not> lv_verified verification then (Inr (Unconfirmed result verification), n2)
              else (let stellarLedger = with_default (lv_ledger verification) (ar_stellarLedger result) in
                case post_anchor nw (worker_token env) (pb_id batch)
                    \<lparr>wb_merkleRoot = pb_merkleRoot batch, wb_stellarTxHash = ar_stellarTxHash result,
                     wb_stellarLedger = stellarLedger, wb_network = ar_network result,
                     wb_dataEntryKey = ar_dataEntryKey result, wb_anchoredAt = ar_anchoredAt result\<rparr> n2 of
                  (Inl m, n3) \<Rightarrow> (Inl m, n3)
                | (Inr _, n3) \<Rightarrow> (Inr (Recorded result stellarLedger), n3))))))"

definition retry_line :: "PendingAnchorBatch \<Rightarrow> log_line list" where
  "retry_line batch = (if pb_failedAttempts batch > 0
     then [Retry (pb_id batch) (pb_failedAttempts batch) (pb_lastFailureDetail batch)] else [])"

text \<open>One turn of the loop: how many batches it anchored (one or none), what it printed.\<close>

definition attempt_batch ::
  "stellar_sdk \<Rightarrow> 'n network \<Rightarrow> environment \<Rightarrow> AnchorConfig \<Rightarrow> string \<Rightarrow> PendingAnchorBatch \<Rightarrow> 'n
    \<Rightarrow> nat \<times> log_line list \<times> 'n" where
  "attempt_batch sdk nw env config publicKey batch n =
    (case anchor_batch sdk nw env config publicKey batch n of
      (Inr (Recorded result ledger), n1) \<Rightarrow>
        (1, retry_line batch @ [Anchored (pb_id batch) (pb_totalWeightKg batch) (pb_eventCount batch)
           (ar_stellarTxHash result) ledger], n1)
    | (Inr (Unconfirmed result v), n1) \<Rightarrow>
        (case reportFailure nw (worker_token env) (pb_id batch) unverified
            (''submitted but not confirmed on read-back (memo='' @ bool_text (lv_memoMatches v)
              @ '', dataEntry='' @ bool_text (lv_dataEntryMatches v) @ '')'') (Some (ar_stellarTxHash result)) n1 of
          (rest_log, n2) \<Rightarrow> (0, retry_line batch
            @ Unverified (pb_id batch) (ar_stellarTxHash result) (lv_memoMatches v) (lv_dataEntryMatches v) # rest_log, n2))
    | (Inl detail, n1) \<Rightarrow>
        (case reportFailure nw (worker_token env) (pb_id batch) failed detail None n1 of
          (rest_log, n2) \<Rightarrow> (0, retry_line batch @ AnchorFailed (pb_id batch) (pb_failedAttempts batch + 1) detail # rest_log, n2)))"

fun attempt_all ::
  "stellar_sdk \<Rightarrow> 'n network \<Rightarrow> environment \<Rightarrow> AnchorConfig \<Rightarrow> string \<Rightarrow> PendingAnchorBatch list \<Rightarrow> 'n
    \<Rightarrow> nat \<times> log_line list \<times> 'n" where
  "attempt_all sdk nw env config publicKey [] n = (0, [], n)"
| "attempt_all sdk nw env config publicKey (batch # pending) n =
    (case attempt_batch sdk nw env config publicKey batch n of (k1, lines1, n1) \<Rightarrow>
      (case attempt_all sdk nw env config publicKey pending n1 of (k2, lines2, n2) \<Rightarrow> (k1 + k2, lines1 @ lines2, n2)))"

definition anchorOnce ::
  "stellar_sdk \<Rightarrow> 'n network \<Rightarrow> environment \<Rightarrow> 'n \<Rightarrow> (string + nat) \<times> log_line list \<times> 'n" where
  "anchorOnce sdk nw env n =
    (if worker_token env = '''' then
       (Inl (''ANCHOR_WORKER_TOKEN is not set -- the backend will reject the anchor write-back. ''
         @ ''Set it in services/anchor-worker/.env to match the backend's value.''), [], n)
     else (case loadAnchorConfig sdk env of
         Inl m \<Rightarrow> (Inl m, [], n)
       | Inr config \<Rightarrow> (case sdk_publicKey sdk (ac_secret config) of
           Inl m \<Rightarrow> (Inl m, [], n)
         | Inr publicKey \<Rightarrow> (case fetchPending nw n of
             (Inl m, n1) \<Rightarrow> (Inl m, [], n1)
           | (Inr pending, n1) \<Rightarrow>
               (case attempt_all sdk nw env config publicKey pending n1 of (k, lines, n2) \<Rightarrow> (Inr k, lines, n2))))))"

text \<open>
  The poll loop: each element of the schedule is one cycle with whether a signal to stop
  came before it ended; a cycle that fails is printed and the loop goes on.
\<close>

fun worker_main :: "stellar_sdk \<Rightarrow> 'n network \<Rightarrow> environment \<Rightarrow> bool list \<Rightarrow> 'n \<Rightarrow> log_line list \<times> 'n" where
  "worker_main sdk nw env [] n = ([], n)"
| "worker_main sdk nw env (stopped # schedule) n =
    (case anchorOnce sdk nw env n of (r, lines, n1) \<Rightarrow>
      (let lines' = lines @ (case r of Inl m \<Rightarrow> [CycleError m] | Inr _ \<Rightarrow> []) in
       if stopped then (lines', n1)
       else (case worker_main sdk nw env schedule n1 of (rest_log, n2) \<Rightarrow> (lines' @ rest_log, n2))))"

section \<open>The backend as the worker sees it\<close>

text \<open>The body of a post as the request object of the service; a ledger that is not a positive whole number is refused.\<close>

definition anchor_dto :: "AnchorBody \<Rightarrow> RecordAnchorDto option" where
  "anchor_dto body = (if is_integer (wb_stellarLedger body) \<and> js_le (Fin 1) (wb_stellarLedger body)
     then Some \<lparr>an_merkleRoot = wb_merkleRoot body, an_stellarTxHash = wb_stellarTxHash body,
       an_stellarLedger = \<lfloor>rval (wb_stellarLedger body)\<rfloor>, an_network = wb_network body,
       an_dataEntryKey = wb_dataEntryKey body, an_anchoredAt = wb_anchoredAt body\<rparr>
     else None)"

definition reply :: "nat \<Rightarrow> 'a op \<Rightarrow> db \<Rightarrow> http_answer \<times> db" where
  "reply status f s = (case f s of
      Inl e \<Rightarrow> (\<lparr>ha_status = http_status e, ha_text = '''', ha_pending = []\<rparr>, s)
    | Inr (_, s') \<Rightarrow> (\<lparr>ha_status = status, ha_text = '''', ha_pending = []\<rparr>, s'))"

text \<open>What the server has: the token of its configuration, the clock, the parser of dates, new ids.\<close>

record server =
  sv_token :: string
  sv_now :: "db \<Rightarrow> instant"
  sv_parseDate :: "string \<Rightarrow> instant option"
  sv_newId :: "db \<Rightarrow> string"

definition serve_worker :: "server \<Rightarrow> worker_request \<Rightarrow> db \<Rightarrow> http_answer \<times> db" where
  "serve_worker sv req s = (case req of
      GetPending \<Rightarrow> (\<lparr>ha_status = 200, ha_text = '''', ha_pending = pendingAnchor (sv_now sv s) s\<rparr>, s)
    | PostAnchor batchId token body \<Rightarrow> (case worker_canActivate (sv_token sv) (Some token) of
        Inl e \<Rightarrow> (\<lparr>ha_status = http_status e, ha_text = '''', ha_pending = []\<rparr>, s)
      | Inr _ \<Rightarrow> (case anchor_dto body of
          None \<Rightarrow> (\<lparr>ha_status = 400, ha_text = '''', ha_pending = []\<rparr>, s)
        | Some dto \<Rightarrow> reply 201 (recordAnchor (sv_parseDate sv) (sv_now sv s) (sv_newId sv s) (sv_newId sv s) batchId dto) s))
    | PostFailure batchId token body \<Rightarrow> (case worker_canActivate (sv_token sv) (Some token) of
        Inl e \<Rightarrow> (\<lparr>ha_status = http_status e, ha_text = '''', ha_pending = []\<rparr>, s)
      | Inr _ \<Rightarrow> reply 201 (recordAnchorFailure (sv_now sv s) (sv_newId sv s) batchId
          \<lparr>ra_outcome = fb_outcome body, ra_detail = Some (fb_detail body), ra_stellarTxHash = fb_stellarTxHash body\<rparr>) s))"

text \<open>A request may be lost on its way, or its answer on the way back.\<close>

datatype fate = Delivered | LostRequest string | LostReply string

text \<open>The ledger side of the network, over a state of its own.\<close>

record 'l ledger_side =
  ls_fate :: "'l \<Rightarrow> fate \<times> 'l"
  ls_loadAccount :: "string \<Rightarrow> string \<Rightarrow> ('l, json) call"
  ls_submit :: "string \<Rightarrow> anchor_tx \<Rightarrow> ('l, submit_response) call"
  ls_transaction :: "string \<Rightarrow> string \<Rightarrow> ('l, json) call"
  ls_now :: "'l \<Rightarrow> instant"

definition on_ledger :: "('l, 'a) call \<Rightarrow> (db \<times> 'l, 'a) call" where
  "on_ledger c n = (case c (snd n) of (p, l) \<Rightarrow> (p, (fst n, l)))"

definition deployed_network :: "server \<Rightarrow> 'l ledger_side \<Rightarrow> (db \<times> 'l) network" where
  "deployed_network sv ls = \<lparr>
     nw_fetch = (\<lambda>req n. case ls_fate ls (snd n) of
        (Delivered, l) \<Rightarrow> (case serve_worker sv req (fst n) of (res, s) \<Rightarrow> (Inr res, (s, l)))
      | (LostRequest m, l) \<Rightarrow> (Inl m, (fst n, l))
      | (LostReply m, l) \<Rightarrow> (Inl m, (snd (serve_worker sv req (fst n)), l))),
     nw_loadAccount = (\<lambda>url k. on_ledger (ls_loadAccount ls url k)),
     nw_submit = (\<lambda>url tx. on_ledger (ls_submit ls url tx)),
     nw_transaction = (\<lambda>url h. on_ledger (ls_transaction ls url h)),
     nw_now = (\<lambda>n. ls_now ls (snd n))\<rparr>"

section \<open>What the worker owes the backend\<close>

definition keeps :: "('n \<Rightarrow> 'd) \<Rightarrow> ('n, 'a) call \<Rightarrow> bool" where
  "keeps view c = (\<forall>n. view (snd (c n)) = view n)"

lemma keeps_done [simp]: "keeps view (done_with v)" and keeps_throwing [simp]: "keeps view (throwing m)"
  by (simp_all add: keeps_def done_with_def throwing_def)

lemma keeps_from_sum [simp]: "keeps view (from_sum r)"
  by (simp add: from_sum_def split: sum.split)

lemma keeps_and_then: "keeps view c \<Longrightarrow> (\<And>v. keeps view (f v)) \<Longrightarrow> keeps view (and_then c f)"
  by (auto simp: keeps_def and_then_def split: prod.splits promise.splits) (metis prod.sel(2))+

lemma keeps_caught: "keeps view c \<Longrightarrow> keeps view (caught c)"
  by (auto simp: keeps_def caught_def split: prod.splits promise.splits) (metis prod.sel(2))+

text \<open>A new anchor is for the batch in hand, and the read-back of its transaction confirmed its root.\<close>

definition confirmed_anchor :: "'n network \<Rightarrow> PendingAnchorBatch \<Rightarrow> AnchorRecordEntity \<Rightarrow> bool" where
  "confirmed_anchor nw b a = (a_batchId a = pb_id b \<and> a_merkleRoot a = pb_merkleRoot b
     \<and> (\<exists>k e url n t v n'. verifyAnchorOnLedger nw (a_stellarTxHash a) (a_merkleRoot a) k e url n = (Resolves t v, n') \<and> lv_verified v))"

text \<open>
  The interface between the worker and the backend behind a network: only a post of an
  anchor may store one, and it stores what was posted.
\<close>

locale worker_backend =
  fixes nw :: "'n network" and stored :: "'n \<Rightarrow> AnchorRecordEntity list"
  assumes pending_keeps: "nw_fetch nw GetPending n = (r, n') \<Longrightarrow> stored n' = stored n"
    and failure_keeps: "nw_fetch nw (PostFailure i token fb) n = (r, n') \<Longrightarrow> stored n' = stored n"
    and post_stores: "nw_fetch nw (PostAnchor i token body) n = (r, n') \<Longrightarrow> a \<in> set (stored n') \<Longrightarrow> a \<in> set (stored n)
        \<or> (a_batchId a = i \<and> a_merkleRoot a = wb_merkleRoot body \<and> a_stellarTxHash a = wb_stellarTxHash body)"
    and ledger_keeps: "keeps stored (nw_loadAccount nw url k)" "keeps stored (nw_submit nw url tx)"
        "keeps stored (nw_transaction nw url h)"
begin

lemma anchoring_keeps: "keeps stored (anchorBatchRoot sdk nw r i config)"
  unfolding anchorBatchRoot_def
  by (intro keeps_and_then keeps_from_sum ledger_keeps) (auto simp: keeps_def throwing_def)

lemma verifying_keeps: "keeps stored (verifyAnchorOnLedger nw h r k e url)"
  unfolding verifyAnchorOnLedger_def
  by (intro keeps_and_then keeps_caught ledger_keeps) (simp add: Let_def split: prod.split)

lemma withTimeout_Inr: "withTimeout p ms label = Inr v \<Longrightarrow> \<exists>t. p = Resolves t v"
  by (auto simp: withTimeout_def Let_def split: promise.splits if_splits)

lemma post_anchor_stores:
  assumes "post_anchor nw token i body n = (r, n')" and "a \<in> set (stored n')"
  shows "a \<in> set (stored n) \<or> (a_batchId a = i \<and> a_merkleRoot a = wb_merkleRoot body \<and> a_stellarTxHash a = wb_stellarTxHash body)"
proof -
  obtain f where "nw_fetch nw (PostAnchor i token body) n = (f, n')"
    using assms(1) by (auto simp: post_anchor_def split: prod.splits sum.splits if_splits)
  then show ?thesis by (rule post_stores[OF _ assms(2)])
qed

lemma anchor_batch_stores:
  assumes ab: "anchor_batch sdk nw env config k b n = (r, n')" and a: "a \<in> set (stored n')"
  shows "a \<in> set (stored n) \<or> confirmed_anchor nw b a"
proof -
  obtain p n1 where p: "anchorBatchRoot sdk nw (pb_merkleRoot b) (pb_id b) config n = (p, n1)" by fastforce
  have k1: "stored n1 = stored n" using anchoring_keeps p unfolding keeps_def by (metis prod.sel(2))
  show ?thesis
  proof (cases "withTimeout p (ANCHOR_TIMEOUT_MS env) (''anchoring batch '' @ pb_id b)")
    case (Inl m)
    then show ?thesis using ab a p k1 by (simp add: anchor_batch_def)
  next
    case (Inr result)
    let ?verify = "verifyAnchorOnLedger nw (ar_stellarTxHash result) (pb_merkleRoot b) k (ar_dataEntryKey result) (ac_horizonUrl config)"
    obtain q n2 where q: "?verify n1 = (q, n2)" by fastforce
    have k2: "stored n2 = stored n" using verifying_keeps q k1 unfolding keeps_def by (metis prod.sel(2))
    show ?thesis
    proof (cases "withTimeout q (ANCHOR_TIMEOUT_MS env) (''verifying batch '' @ pb_id b)")
      case (Inl m)
      then show ?thesis using ab a p q Inr k2 by (simp add: anchor_batch_def)
    next
      case v: (Inr verification)
      show ?thesis
      proof (cases "lv_verified verification")
        case False
        then show ?thesis using ab a p q Inr v k2 by (simp add: anchor_batch_def)
      next
        case True
        let ?body = "\<lparr>wb_merkleRoot = pb_merkleRoot b, wb_stellarTxHash = ar_stellarTxHash result,
             wb_stellarLedger = with_default (lv_ledger verification) (ar_stellarLedger result), wb_network = ar_network result,
             wb_dataEntryKey = ar_dataEntryKey result, wb_anchoredAt = ar_anchoredAt result\<rparr>"
        obtain x where "post_anchor nw (worker_token env) (pb_id b) ?body n2 = (x, n')"
          using ab p q Inr v True by (auto simp: anchor_batch_def Let_def split: prod.splits sum.splits)
        from post_anchor_stores[OF this a] have "a \<in> set (stored n) \<or> (a_batchId a = pb_id b \<and> a_merkleRoot a = pb_merkleRoot b
            \<and> a_stellarTxHash a = ar_stellarTxHash result)"
          using k2 by simp
        moreover obtain t where "q = Resolves t verification" using withTimeout_Inr[OF v] by blast
        then have "\<exists>k e url n t v n'. verifyAnchorOnLedger nw (ar_stellarTxHash result) (pb_merkleRoot b) k e url n
            = (Resolves t v, n') \<and> lv_verified v"
          using True q by blast
        ultimately show ?thesis unfolding confirmed_anchor_def by metis
      qed
    qed
  qed
qed

lemma report_keeps: "reportFailure nw token i out detail h n = (ls, n') \<Longrightarrow> stored n' = stored n"
  using failure_keeps by (auto simp: reportFailure_def split: prod.splits sum.splits if_splits)

lemma attempt_batch_stores:
  assumes "attempt_batch sdk nw env config k b n = (c, ls, n')" and "a \<in> set (stored n')"
  shows "a \<in> set (stored n) \<or> confirmed_anchor nw b a"
proof -
  obtain r n1 where r: "anchor_batch sdk nw env config k b n = (r, n1)" by fastforce
  have "stored n' = stored n1"
    using assms(1) r report_keeps by (auto simp: attempt_batch_def split: prod.splits sum.splits attempt_result.splits)
  then show ?thesis using anchor_batch_stores[OF r] assms(2) by simp
qed

lemma attempt_all_stores:
  "attempt_all sdk nw env config k bs n = (c, ls, n') \<Longrightarrow> a \<in> set (stored n')
    \<Longrightarrow> a \<in> set (stored n) \<or> (\<exists>b \<in> set bs. confirmed_anchor nw b a)"
proof (induction bs arbitrary: n c ls)
  case (Cons b bs)
  obtain c1 l1 n1 where one: "attempt_batch sdk nw env config k b n = (c1, l1, n1)" by (metis prod_cases3)
  obtain c2 l2 n2 where rest: "attempt_all sdk nw env config k bs n1 = (c2, l2, n2)" by (metis prod_cases3)
  have "n2 = n'" using Cons.prems(1) one rest by simp
  then have "attempt_all sdk nw env config k bs n1 = (c2, l2, n')" using rest by simp
  from Cons.IH[OF this Cons.prems(2)] show ?case
    using attempt_batch_stores[OF one, of a] by auto
qed simp

lemma cycle_stores:
  assumes "anchorOnce sdk nw env n = (r, ls, n')" and "a \<in> set (stored n')" and "a \<notin> set (stored n)"
  obtains pending n1 b where "fetchPending nw n = (Inr pending, n1)" "b \<in> set pending" "confirmed_anchor nw b a"
proof -
  have fp: "fetchPending nw n = (x, n1) \<Longrightarrow> stored n1 = stored n" for x n1
    using pending_keeps by (auto simp: fetchPending_def split: prod.splits sum.splits if_splits)
  obtain config k pending n1 c where "fetchPending nw n = (Inr pending, n1)" "attempt_all sdk nw env config k pending n1 = (c, ls, n')"
    using assms fp by (auto simp: anchorOnce_def split: if_splits sum.splits prod.splits)
  then show ?thesis using that attempt_all_stores[OF _ assms(2)] fp assms(3) by metis
qed

end

text \<open>The backend of the model behind any ledger and any loss of messages meets the interface.\<close>

lemma serve_pending: "serve_worker sv GetPending s = (res, s') \<Longrightarrow> s' = s"
  by (simp add: serve_worker_def)

lemma serve_failure: "serve_worker sv (PostFailure i token fb) s = (res, s') \<Longrightarrow> anchors s' = anchors s"
  by (auto simp: serve_worker_def reply_def split: sum.splits prod.splits elim!: recordAnchorFailure_eq)

lemma serve_anchor:
  assumes "serve_worker sv (PostAnchor i token body) s = (res, s')" and "a \<in> set (anchors s')"
  shows "a \<in> set (anchors s) \<or> (a_batchId a = i \<and> a_merkleRoot a = wb_merkleRoot body \<and> a_stellarTxHash a = wb_stellarTxHash body)"
proof (cases "s' = s")
  case False
  then obtain dto r where dto: "anchor_dto body = Some dto"
      and rec: "recordAnchor (sv_parseDate sv) (sv_now sv s) (sv_newId sv s) (sv_newId sv s) i dto s = Inr (r, s')"
    using assms(1) by (auto simp: serve_worker_def reply_def split: sum.splits option.splits prod.splits)
  have d: "an_merkleRoot dto = wb_merkleRoot body" "an_stellarTxHash dto = wb_stellarTxHash body"
    using dto by (auto simp: anchor_dto_def split: if_splits)
  show ?thesis
    using rec
  proof (cases rule: recordAnchor_eq)
    case (new b)
    then show ?thesis using assms(2) d by auto
  qed (use False in simp)
qed (use assms(2) in simp)

lemma deployed_fetch:
  assumes "nw_fetch (deployed_network sv ls) req n = (r, n')"
  obtains "fst n' = fst n" | res where "serve_worker sv req (fst n) = (res, fst n')"
  using assms by (auto simp: deployed_network_def split: prod.splits fate.splits)

interpretation deployed: worker_backend "deployed_network sv ls" "\<lambda>n. anchors (fst n)"
proof
  fix n :: "db \<times> 'a" and n' r i token fb body a url k h tx
  show "anchors (fst n') = anchors (fst n)" if "nw_fetch (deployed_network sv ls) GetPending n = (r, n')"
    using that by (rule deployed_fetch) (auto dest: serve_pending)
  show "anchors (fst n') = anchors (fst n)" if "nw_fetch (deployed_network sv ls) (PostFailure i token fb) n = (r, n')"
    using that by (rule deployed_fetch) (auto dest: serve_failure)
  show "a \<in> set (anchors (fst n)) \<or> (a_batchId a = i \<and> a_merkleRoot a = wb_merkleRoot body \<and> a_stellarTxHash a = wb_stellarTxHash body)"
    if "nw_fetch (deployed_network sv ls) (PostAnchor i token body) n = (r, n')" and a: "a \<in> set (anchors (fst n'))"
    using that(1) by (rule deployed_fetch) (use a serve_anchor in auto)
  show "keeps (\<lambda>n. anchors (fst n)) (nw_loadAccount (deployed_network sv ls) url k)"
    "keeps (\<lambda>n. anchors (fst n)) (nw_submit (deployed_network sv ls) url tx)"
    "keeps (\<lambda>n. anchors (fst n)) (nw_transaction (deployed_network sv ls) url h)"
    by (auto simp: deployed_network_def keeps_def on_ledger_def split: prod.split)
qed

section \<open>Properties\<close>

text \<open>The batch that a closing line of one turn names; the other lines are context.\<close>

fun verdict_of :: "log_line \<Rightarrow> string option" where
  "verdict_of (Anchored i w n tx l) = Some i"
| "verdict_of (Unverified i tx m d) = Some i"
| "verdict_of (AnchorFailed i k m) = Some i"
| "verdict_of line = None"

fun is_anchored :: "log_line \<Rightarrow> bool" where
  "is_anchored (Anchored i w n tx l) = True"
| "is_anchored line = False"

lemma report_lines: "reportFailure nw token i out detail h n = (lines, n') \<Longrightarrow>
    List.map_filter verdict_of lines = [] \<and> filter is_anchored lines = []"
  by (auto simp: reportFailure_def map_filter_simps split: prod.splits sum.splits if_splits)

lemma map_filter_append: "List.map_filter f (xs @ ys) = List.map_filter f xs @ List.map_filter f ys"
  by (simp add: List.map_filter_def)

lemma attempt_lines:
  assumes "attempt_batch sdk nw env config k b n = (c, lines, n')"
  shows "List.map_filter verdict_of lines = [pb_id b] \<and> c = length (filter is_anchored lines)"
proof -
  have "List.map_filter verdict_of (retry_line b) = []" "filter is_anchored (retry_line b) = []"
    by (simp_all add: retry_line_def map_filter_simps)
  then show ?thesis
    using assms
    by (auto simp: attempt_batch_def map_filter_append map_filter_simps
        split: prod.splits sum.splits attempt_result.splits dest!: report_lines)
qed


text \<open>C10. The worker stores no anchor that the ledger did not confirm: after one cycle against the backend,
  with any ledger and any loss of requests and answers, every anchor that is new in the database is for
  a batch the backend had handed out, carries the root handed out, and the worker's own read-back of its
  transaction confirmed that root.\<close>

theorem worker_stores_only_confirmed_anchors:
  assumes "anchorOnce sdk (deployed_network sv ls) env (s, l) = (r, lines, (s', l'))"
    and "a \<in> set (anchors s')" and "a \<notin> set (anchors s)"
  shows "\<exists>pending n1. fetchPending (deployed_network sv ls) (s, l) = (Inr pending, n1)
    \<and> (\<exists>b \<in> set pending. confirmed_anchor (deployed_network sv ls) b a)"
  using deployed.cycle_stores[OF assms(1)] assms(2,3) by (metis fst_conv)

text \<open>What a submission writes, the read-back accepts: the memo and the data entry hold the bytes of the
  root, and Horizon's base64 of these bytes is recognised as the root, in either place.\<close>

theorem read_back_recognises_the_root:
  assumes "assertRoot r = Inr bs"
  shows "length bs = 32 \<and> read_memo r (Some (JObj [(''memo_type'', JStr ''hash''), (''memo'', JStr (base64_encode bs)),
        (''ledger_attr'', JNum n)])) = (True, ledger_or_null n, True)
    \<and> read_data_entry r e (Some (JObj [(''data_attr'', JObj [(e, JStr (base64_encode bs))])]))"
proof -
  have r: "is_hash64 r" "bs = hex_decode r" using assms by (auto simp: assertRoot_def split: if_splits)
  then have "hex_encode bs = r" using hex_encode_decode[of r] by (auto simp: is_hash64_def)
  then show ?thesis
    using r length_hash64_decode[OF r(1)]
    by (simp add: read_memo_def read_data_entry_def jfield_def coalesce_def nullish_def base64ToHex_def with_default_def)
qed

section \<open>A concrete cycle\<close>

lemma hash_a_root: "assertRoot hash_a = Inr (hex_decode hash_a)"
  using hash_ab(1) by (simp add: assertRoot_def)

theorem read_back_recognises_the_root_witness:
  "read_memo hash_a (Some (JObj [(''memo_type'', JStr ''hash''), (''memo'', JStr (base64_encode (hex_decode hash_a))),
     (''ledger_attr'', JNum (Fin 7))])) = (True, ledger_or_null (Fin 7), True)"
  using read_back_recognises_the_root[OF hash_a_root, of "Fin 7"] by simp

definition sealed_root_hex :: string where
  "sealed_root_hex = level_root (leavesOf both_events)"

definition demo_config :: AnchorConfig where
  "demo_config = \<lparr>ac_horizonUrl = ''https://horizon-testnet.stellar.org'', ac_networkPassphrase = ''Test'', ac_secret = ''S''\<rparr>"

definition demo_sdk :: stellar_sdk where
  "demo_sdk = \<lparr>sdk_TESTNET = ''Test'', sdk_PUBLIC = ''Public'', sdk_BASE_FEE = ''100'', sdk_publicKey = (\<lambda>_. Inr ''G'')\<rparr>"

definition demo_env :: environment where
  "demo_env = [''ANCHOR_WORKER_TOKEN'' \<mapsto> ''t'', ''STELLAR_SECRET'' \<mapsto> ''S'']"

definition demo_server :: server where
  "demo_server = \<lparr>sv_token = ''t'', sv_now = (\<lambda>_. 9), sv_parseDate = (\<lambda>_. Some 9), sv_newId = (\<lambda>_. ''id'')\<rparr>"

definition demo_ledger :: "unit ledger_side" where
  "demo_ledger = \<lparr>ls_fate = (\<lambda>l. (Delivered, l)),
     ls_loadAccount = (\<lambda>url k l. (Resolves 1 (JObj [(''data_attr'', JObj [])]), l)),
     ls_submit = (\<lambda>url tx l. (Resolves 5 \<lparr>sr_successful = True, sr_hash = ''tx'', sr_ledger = Fin 7\<rparr>, l)),
     ls_transaction = (\<lambda>url h l. (Resolves 1 (JObj [(''memo_type'', JStr ''hash''),
        (''memo'', JStr (base64_encode (hex_decode sealed_root_hex))), (''ledger_attr'', JNum (Fin 7))]), l)),
     ls_now = (\<lambda>l. 9)\<rparr>"

abbreviation demo_network :: "(db \<times> unit) network" where
  "demo_network \<equiv> deployed_network demo_server demo_ledger"

lemma sealed_root_assert: "assertRoot sealed_root_hex = Inr (hex_decode sealed_root_hex)"
proof -
  have "is_hash64 sealed_root_hex"
    unfolding sealed_root_hex_def by (rule level_root_hash64) (simp_all add: both_events_def)
  then show ?thesis by (simp add: assertRoot_def)
qed

lemma demo_anchoring:
  "anchorBatchRoot demo_sdk demo_network sealed_root_hex ''b1'' demo_config (s, ())
    = (Resolves 6 \<lparr>ar_stellarTxHash = ''tx'', ar_stellarLedger = Fin 7, ar_network = testnet,
        ar_dataEntryKey = ''proofchain:batch:b1'', ar_anchoredAt = toISOString 9\<rparr>, (s, ()))"
proof -
  have "dataEntryKeyFor ''b1'' = Inr ''proofchain:batch:b1''" by code_simp
  then show ?thesis
    by (simp add: anchorBatchRoot_def and_then_def from_sum_def done_with_def sealed_root_assert demo_sdk_def demo_config_def
        deployed_network_def demo_ledger_def on_ledger_def networkNameOf_def)
qed

lemma demo_verifying:
  "\<exists>v. verifyAnchorOnLedger demo_network ''tx'' sealed_root_hex ''G'' ''proofchain:batch:b1'' url (s, ()) = (Resolves 2 v, (s, ())) \<and> lv_verified v
    \<and> lv_ledger v = Some (Fin 7)"
proof -
  have h: "hex_encode (hex_decode sealed_root_hex) = sealed_root_hex"
    using sealed_root_assert hex_encode_decode[of sealed_root_hex] by (auto simp: assertRoot_def is_hash64_def split: if_splits)
  show ?thesis
    by (simp add: verifyAnchorOnLedger_def and_then_def caught_def done_with_def deployed_network_def demo_ledger_def on_ledger_def
        read_memo_def jfield_def coalesce_def nullish_def base64ToHex_def h Let_def ledger_or_null_def)
qed

lemma demo_timer: "timer_delay (ANCHOR_TIMEOUT_MS demo_env) = 60000"
proof -
  have "ANCHOR_TIMEOUT_MS demo_env = js_of_int 60000" by (simp add: ANCHOR_TIMEOUT_MS_def number_var_def demo_env_def)
  then show ?thesis using js_of_int_small[of 60000] by (simp add: timer_delay_def)
qed

lemma demo_pending: "\<exists>b. fetchPending demo_network (sealed_db, ()) = (Inr [b], (sealed_db, ())) \<and> pb_id b = ''b1'' \<and> pb_merkleRoot b = sealed_root_hex"
proof -
  have none: "anchors sealed_db = []" "attempts sealed_db = []"
    by (simp_all add: sealed_db_def filled_db_def sample_db_def empty_db_def)
  have due: "isDueForRetry (summariesFor [''b1''] sealed_db ''b1'') 9"
    using none by (simp add: summariesFor_def find_all_def isDueForRetry_def nextAttemptAt_def)
  have "unanchored (\<lambda>st. st = sealed) sealed_db = batches sealed_db"
    using none by (simp add: unanchored_def anchor_of_def get_by_def find_all_def sealed_db_def freeze_def)
  then show ?thesis
    using due
    by (simp add: fetchPending_def deployed_network_def demo_ledger_def serve_worker_def demo_server_def http_ok_def
        pendingAnchor_def Let_def sealed_db_def freeze_def sample_batch_def sealed_root_hex_def)
qed

lemma demo_post:
  assumes "wb_merkleRoot body = sealed_root_hex" and "wb_stellarLedger body = Fin 7"
  shows "\<exists>s' (a :: AnchorRecordEntity). post_anchor demo_network ''t'' ''b1'' body (sealed_db, ()) = (Inr (), (s', ())) \<and> a \<in> set (anchors s') \<and> anchors sealed_db = []"
proof -
  have ne: "sealed_root_hex \<noteq> ''''" unfolding sealed_root_hex_def by (rule level_root_not_empty) (simp add: both_events_def)
  define dto where "dto = \<lparr>an_merkleRoot = wb_merkleRoot body, an_stellarTxHash = wb_stellarTxHash body, an_stellarLedger = 7,
      an_network = wb_network body, an_dataEntryKey = wb_dataEntryKey body, an_anchoredAt = wb_anchoredAt body\<rparr>"
  have dto: "anchor_dto body = Some dto"
    using assms by (simp add: anchor_dto_def dto_def is_integer_def js_le_def)
  have tok: "worker_canActivate ''t'' (Some ''t'') = Inr True" by (simp add: worker_canActivate_def matchesToken_def Let_def)
  have none: "anchors sealed_db = []" by (simp add: sealed_db_def filled_db_def sample_db_def empty_db_def)
  define b where "b = freeze 5 sealed_root_hex both_events (sample_batch\<lparr>b_totalWeightKg := total_weight both_events, b_eventCount := 2\<rparr>)"
  have b: "get_by b_id ''b1'' (batches sealed_db) = Some b" "b_status b \<noteq> open" "b_merkleRoot b = Some sealed_root_hex"
    by (simp_all add: b_def sealed_db_def get_by_def freeze_def sample_batch_def sealed_root_hex_def)
  obtain a s' where rec: "recordAnchor (\<lambda>_. Some 9) 9 ''id'' ''id'' ''b1'' dto sealed_db = Inr (a, s')"
    using recordAnchor_first[OF b(1,2), of dto "\<lambda>_. Some 9" 9 9 "''id''" "''id''"] b(3) ne none assms by (auto simp: dto_def)
  have "a \<in> set (anchors s')"
    using rec
  proof (cases rule: recordAnchor_eq)
    case known
    then show ?thesis using none by (simp add: anchor_of_def get_by_def)
  next
    case new
    then show ?thesis by auto
  qed
  then show ?thesis
    using rec none
    by (simp add: post_anchor_def deployed_network_def demo_ledger_def serve_worker_def demo_server_def tok dto reply_def http_ok_def) blast
qed

lemma demo_cycle:
  "\<exists>lines s' (a :: AnchorRecordEntity). anchorOnce demo_sdk demo_network demo_env (sealed_db, ()) = (Inr 1, lines, (s', ()))
    \<and> a \<in> set (anchors s') \<and> a \<notin> set (anchors sealed_db)"
proof -
  obtain b where b: "fetchPending demo_network (sealed_db, ()) = (Inr [b], (sealed_db, ()))" "pb_id b = ''b1''" "pb_merkleRoot b = sealed_root_hex"
    using demo_pending by blast
  obtain v where v: "verifyAnchorOnLedger demo_network ''tx'' sealed_root_hex ''G'' ''proofchain:batch:b1''
      (ac_horizonUrl demo_config) (sealed_db, ()) = (Resolves 2 v, (sealed_db, ()))" "lv_verified v" "lv_ledger v = Some (Fin 7)"
    using demo_verifying by blast
  define body where "body = \<lparr>wb_merkleRoot = sealed_root_hex, wb_stellarTxHash = ''tx'', wb_stellarLedger = Fin 7, wb_network = testnet,
      wb_dataEntryKey = ''proofchain:batch:b1'', wb_anchoredAt = toISOString 9\<rparr>"
  obtain s' a where p: "post_anchor demo_network ''t'' ''b1'' body (sealed_db, ()) = (Inr (), (s', ()))"
      "a \<in> set (anchors s')" "anchors sealed_db = []"
    using demo_post[of body] by (auto simp: body_def)
  have tok: "worker_token demo_env = ''t''" by (simp add: worker_token_def demo_env_def)
  have time: "withTimeout (Resolves 6 x) (ANCHOR_TIMEOUT_MS demo_env) lab = Inr x" "withTimeout (Resolves 2 y) (ANCHOR_TIMEOUT_MS demo_env) lab = Inr y"
    for x :: AnchorResult and y :: LedgerVerification and lab
    by (simp_all add: withTimeout_def demo_timer Let_def)
  have cfg: "loadAnchorConfig demo_sdk demo_env = Inr demo_config" "sdk_publicKey demo_sdk (ac_secret demo_config) = Inr ''G''"
    by (simp_all add: loadAnchorConfig_def demo_env_def demo_sdk_def demo_config_def)
  have "anchor_batch demo_sdk demo_network demo_env demo_config ''G'' b (sealed_db, ()) =
      (Inr (Recorded \<lparr>ar_stellarTxHash = ''tx'', ar_stellarLedger = Fin 7, ar_network = testnet,
        ar_dataEntryKey = ''proofchain:batch:b1'', ar_anchoredAt = toISOString 9\<rparr> (Fin 7)), (s', ()))"
    using p(1) by (simp add: anchor_batch_def b(2,3) demo_anchoring time v tok body_def Let_def)
  then show ?thesis
    using b(1) p(2,3) by (simp add: anchorOnce_def tok cfg attempt_batch_def) blast
qed

theorem worker_stores_only_confirmed_anchors_witness:
  "\<exists>(s' :: db) a b. a \<in> set (anchors s') \<and> confirmed_anchor demo_network b a"
proof -
  obtain lines s' a where c: "anchorOnce demo_sdk demo_network demo_env (sealed_db, ()) = (Inr 1, lines, (s', ()))"
      "a \<in> set (anchors s')" "a \<notin> set (anchors sealed_db)"
    using demo_cycle by blast
  obtain b where "confirmed_anchor demo_network b a" using worker_stores_only_confirmed_anchors[OF c] by blast
  then show ?thesis using c(2) by (intro exI[of _ s'] exI[of _ a] exI[of _ b] conjI)
qed

end
