(* ===== verification/Dto.thy ===== *)
theory Dto
  imports Events Custody Users Registry Ledger
begin

text \<open>
  \<open>apps/backend/src/common/dto.ts\<close>: what crosses the boundary.  A request class is the
  list of its fields with the decorators on them; the regular expressions, the limits
  and the transforms are the source's.  What a decorator accepts is the validator
  library's: a parameter, with the documented behaviour of the decorators as hypotheses.
\<close>

section \<open>Fields and decorators\<close>

datatype decorator =
    IsString | IsNotEmpty | MaxLength nat | MinLength nat | Matches "string \<Rightarrow> bool" | IsIn "string list"
  | IsUUID | IsUUID4 | IsNumber "nat option" | AtLeast jsnum | AtMost jsnum | IsBoolean | IsArray | ArrayMaxSize nat
  | Each decorator | IsEmail | IsISO8601

text \<open>A field may be optional, is transformed first, and must pass every decorator.\<close>

record field =
  fd_name :: string
  fd_optional :: bool
  fd_transform :: "json \<Rightarrow> json"
  fd_decorators :: "decorator list"

abbreviation needs :: "string \<Rightarrow> decorator list \<Rightarrow> field" where
  "needs n ds \<equiv> \<lparr>fd_name = n, fd_optional = False, fd_transform = (\<lambda>v. v), fd_decorators = ds\<rparr>"

abbreviation may_have :: "string \<Rightarrow> decorator list \<Rightarrow> field" where
  "may_have n ds \<equiv> \<lparr>fd_name = n, fd_optional = True, fd_transform = (\<lambda>v. v), fd_decorators = ds\<rparr>"

abbreviation may_read :: "string \<Rightarrow> (json \<Rightarrow> json) \<Rightarrow> decorator list \<Rightarrow> field" where
  "may_read n t ds \<equiv> \<lparr>fd_name = n, fd_optional = True, fd_transform = t, fd_decorators = ds\<rparr>"

section \<open>Patterns and transforms\<close>

definition SHA256_HEX :: "string \<Rightarrow> bool" where
  "SHA256_HEX s = is_hash64 s"

definition MaterialCode :: decorator where
  "MaterialCode = Matches isMaterialCode"

definition is_letter :: "char \<Rightarrow> bool" where
  "is_letter c = (is_upper c \<or> is_lower c)"

definition phone_pattern :: "string \<Rightarrow> bool" where
  "phone_pattern s = (let d = (if starts_with ''+'' s then drop 1 s else s) in
     7 \<le> length d \<and> length d \<le> 15 \<and> list_all is_digit d)"

definition device_key_pattern :: "string \<Rightarrow> bool" where
  "device_key_pattern s = (length s = 44 \<and> last s = CHR ''=''
     \<and> list_all (\<lambda>c. is_letter c \<or> is_digit c \<or> c = CHR ''+'' \<or> c = CHR ''/'') (butlast s))"

definition any_case_code_pattern :: "string \<Rightarrow> bool" where
  "any_case_code_pattern s = (2 \<le> length s \<and> length s \<le> 16 \<and> (is_letter (hd s) \<or> is_digit (hd s))
     \<and> list_all (\<lambda>c. is_letter c \<or> is_digit c \<or> c = CHR ''_'' \<or> c = CHR ''-'') (tl s))"

definition hex64_pattern :: "string \<Rightarrow> bool" where
  "hex64_pattern s = is_hash64 s"

text \<open>The reading of a query string's boolean, and the conversion it replaces.\<close>

definition QueryBoolean :: "json \<Rightarrow> json" where
  "QueryBoolean v = (case v of
      JBool b \<Rightarrow> JBool b
    | _ \<Rightarrow> if v = JUndefined \<or> v = JNull \<or> v = JStr '''' then JUndefined
        else (let normalised = js_lower (js_trim (js_String v)) in
          if normalised = ''true'' \<or> normalised = ''1'' then JBool True
          else if normalised = ''false'' \<or> normalised = ''0'' then JBool False
          else v))"

text \<open>\<open>@Type(() => Boolean)\<close> calls \<open>Boolean(value)\<close>, and \<open>@Type(() => Number)\<close> calls \<open>Number(value)\<close>, on a present value.\<close>

definition js_truthy :: "json \<Rightarrow> bool" where
  "js_truthy v = (case v of JNull \<Rightarrow> False | JUndefined \<Rightarrow> False | JBool b \<Rightarrow> b | JStr s \<Rightarrow> s \<noteq> ''''
    | JNum n \<Rightarrow> \<not> is_nan n \<and> \<not> js_eq n (Fin 0) | _ \<Rightarrow> True)"

definition TypeBoolean :: "json \<Rightarrow> json" where
  "TypeBoolean v = (if nullish v then v else JBool (js_truthy v))"

definition TypeNumber :: "json \<Rightarrow> json" where
  "TypeNumber v = (if nullish v then v else JNum (js_Number v))"

section \<open>The request classes\<close>

definition WeighInPayloadDto :: "field list" where
  "WeighInPayloadDto = [
     needs ''schema'' [IsIn [''proofchain.weighin.v2'']],
     needs ''collectorId'' [IsUUID],
     needs ''hubId'' [IsUUID],
     needs ''deviceId'' [IsUUID],
     needs ''weightKg'' [IsNumber (Some 3), AtLeast (gram 1), AtMost (Fin 100000)],
     needs ''material'' [MaterialCode],
     needs ''capturedAt'' [IsISO8601],
     needs ''photoHash'' [Matches SHA256_HEX],
     needs ''nonce'' [IsString, MinLength 16, MaxLength 64]]"

text \<open>The class of a submission, less its nested payload, which the validation below treats.\<close>

definition SubmitWeighInDto :: "field list" where
  "SubmitWeighInDto = [needs ''payload'' [], needs ''signature'' [IsString, IsNotEmpty, MaxLength 200]]"

definition CreateCollectorDto_fields :: "field list" where
  "CreateCollectorDto_fields = [
     needs ''name'' [IsString, IsNotEmpty, MaxLength 200],
     needs ''phone'' [Matches phone_pattern],
     may_have ''cooperativeId'' [IsString, MaxLength 100],
     may_have ''kycLevel'' [IsIn [''none'', ''basic'', ''verified'']]]"

definition EnrolDeviceDto_fields :: "field list" where
  "EnrolDeviceDto_fields = [
     needs ''collectorId'' [IsUUID],
     needs ''label'' [IsString, IsNotEmpty, MaxLength 120],
     needs ''publicKeyBase64'' [Matches device_key_pattern]]"

definition CreateHubDto_fields :: "field list" where
  "CreateHubDto_fields = [
     needs ''code'' [IsString, IsNotEmpty, MaxLength 50],
     needs ''name'' [IsString, IsNotEmpty, MaxLength 200],
     may_have ''minWeightKg'' [IsNumber None, AtLeast (Fin 0)],
     may_have ''maxWeightKg'' [IsNumber None, AtLeast (Fin 0)]]"

definition CreateBatchDto :: "field list" where
  "CreateBatchDto = [needs ''hubId'' [IsUUID], needs ''material'' [MaterialCode]]"

definition CreateMaterialDto_fields :: "field list" where
  "CreateMaterialDto_fields = [
     needs ''code'' [IsString, IsNotEmpty, MaxLength MATERIAL_CODE_MAX_LENGTH, Matches any_case_code_pattern],
     needs ''name'' [IsString, IsNotEmpty, MaxLength MATERIAL_NAME_MAX_LENGTH],
     may_have ''description'' [IsString, MaxLength MATERIAL_DESCRIPTION_MAX_LENGTH],
     may_have ''examples'' [IsArray, ArrayMaxSize MATERIAL_EXAMPLES_MAX, Each IsString, Each (MaxLength MATERIAL_EXAMPLE_MAX_LENGTH)],
     may_have ''active'' [IsBoolean],
     may_have ''sortOrder'' [IsNumber None, AtLeast (Fin 0), AtMost (Fin 10000)]]"

definition UpdateMaterialDto_fields :: "field list" where
  "UpdateMaterialDto_fields = [
     may_have ''name'' [IsString, IsNotEmpty, MaxLength MATERIAL_NAME_MAX_LENGTH],
     may_have ''description'' [IsString, MaxLength MATERIAL_DESCRIPTION_MAX_LENGTH],
     may_have ''examples'' [IsArray, ArrayMaxSize MATERIAL_EXAMPLES_MAX, Each IsString, Each (MaxLength MATERIAL_EXAMPLE_MAX_LENGTH)],
     may_have ''active'' [IsBoolean],
     may_have ''sortOrder'' [IsNumber None, AtLeast (Fin 0), AtMost (Fin 10000)]]"

definition AddEventsDto :: "field list" where
  "AddEventsDto = [needs ''eventIds'' [IsArray, Each IsUUID4]]"

definition AdvanceStatusDto :: "field list" where
  "AdvanceStatusDto = [needs ''status'' [IsIn (map status_name BATCH_STATUSES)]]"

definition RecordAnchorDto_fields :: "field list" where
  "RecordAnchorDto_fields = [
     needs ''merkleRoot'' [Matches SHA256_HEX],
     needs ''stellarTxHash'' [Matches hex64_pattern],
     needs ''stellarLedger'' [IsNumber None, AtLeast (Fin 1)],
     needs ''network'' [IsIn [''testnet'', ''public'']],
     needs ''dataEntryKey'' [IsString, IsNotEmpty, MaxLength 64],
     needs ''anchoredAt'' [IsISO8601]]"

definition RecordAnchorFailureDto :: "field list" where
  "RecordAnchorFailureDto = [
     needs ''outcome'' [IsIn [''failed'', ''unverified'']],
     may_have ''detail'' [IsString, MaxLength 2000],
     may_have ''stellarTxHash'' [Matches hex64_pattern]]"

definition CreateCustodyTransferDto_fields :: "field list" where
  "CreateCustodyTransferDto_fields = [
     needs ''fromParty'' [IsString, IsNotEmpty, MaxLength 200],
     needs ''toParty'' [IsString, IsNotEmpty, MaxLength 200],
     needs ''weightInKg'' [IsNumber (Some 3), AtLeast (Fin 0)],
     needs ''weightOutKg'' [IsNumber (Some 3), AtLeast (Fin 0)],
     may_have ''reason'' [IsString, MaxLength 500],
     needs ''transferredAt'' [IsISO8601]]"

definition LoginDto :: "field list" where
  "LoginDto = [needs ''email'' [IsEmail], needs ''password'' [IsString, MinLength 8, MaxLength 200]]"

definition PASSWORD_MIN_LENGTH :: nat where "PASSWORD_MIN_LENGTH = 12"

definition PasswordFieldDto :: "field list" where
  "PasswordFieldDto = [needs ''newPassword'' [IsString, MinLength PASSWORD_MIN_LENGTH, MaxLength 200]]"

definition CreateUserDto_fields :: "field list" where
  "CreateUserDto_fields = [
     needs ''email'' [IsEmail],
     needs ''password'' [IsString, MinLength PASSWORD_MIN_LENGTH, MaxLength 200],
     needs ''role'' [IsIn [''admin'', ''operator'', ''auditor'']]]"

definition UpdateUserDto_fields :: "field list" where
  "UpdateUserDto_fields = [may_have ''role'' [IsIn [''admin'', ''operator'', ''auditor'']], may_have ''active'' [IsBoolean]]"

definition ResetPasswordDto :: "field list" where
  "ResetPasswordDto = PasswordFieldDto"

definition ChangePasswordDto :: "field list" where
  "ChangePasswordDto = PasswordFieldDto @ [needs ''currentPassword'' [IsString, IsNotEmpty, MaxLength 200]]"

definition ListEventsQueryDto :: "field list" where
  "ListEventsQueryDto = [
     may_have ''hubId'' [IsUUID],
     may_have ''collectorId'' [IsUUID],
     may_read ''batched'' QueryBoolean [IsBoolean],
     may_read ''quarantined'' QueryBoolean [IsBoolean],
     may_read ''hasPhoto'' TypeBoolean [IsBoolean],
     may_read ''limit'' TypeNumber [IsNumber None, AtLeast (Fin 1), AtMost (Fin 500)]]"

section \<open>Validation\<close>

text \<open>
  The pipe of \<open>main.ts\<close>: unknown fields are refused, every field is transformed and
  must pass its decorators, an optional field that is null or absent passes as it is.
\<close>

definition field_value :: "field \<Rightarrow> (string \<times> json) list \<Rightarrow> json" where
  "field_value f kvs = fd_transform f (with_default (map_of (rev kvs) (fd_name f)) JUndefined)"

definition field_ok :: "(decorator \<Rightarrow> json \<Rightarrow> bool) \<Rightarrow> field \<Rightarrow> (string \<times> json) list \<Rightarrow> bool" where
  "field_ok accepts f kvs = (let v = field_value f kvs in
     (fd_optional f \<and> nullish v) \<or> list_all (\<lambda>d. accepts d v) (fd_decorators f))"

definition validate_dto :: "(decorator \<Rightarrow> json \<Rightarrow> bool) \<Rightarrow> field list \<Rightarrow> json \<Rightarrow> (string \<Rightarrow> json) result" where
  "validate_dto accepts fs body = (case body of
      JObj kvs \<Rightarrow>
        if list_all (\<lambda>(k, _). k \<in> set (map fd_name fs)) kvs \<and> list_all (\<lambda>f. field_ok accepts f kvs) fs
        then return (\<lambda>k. case find (\<lambda>f. fd_name f = k) fs of None \<Rightarrow> JUndefined | Some f \<Rightarrow> field_value f kvs)
        else throw (BadRequestException ''Bad Request'')
    | _ \<Rightarrow> throw (BadRequestException ''Bad Request''))"

definition text_of :: "json \<Rightarrow> string" where
  "text_of v = (case v of JStr s \<Rightarrow> s | _ \<Rightarrow> '''')"

definition number_of :: "json \<Rightarrow> jsnum" where
  "number_of v = (case v of JNum n \<Rightarrow> n | _ \<Rightarrow> NaN)"

text \<open>
  A submission: the library skips a nested object that is null or absent, checks every
  element of an array, and refuses any other value that is not an object.
\<close>

definition nested_ok :: "(decorator \<Rightarrow> json \<Rightarrow> bool) \<Rightarrow> field list \<Rightarrow> json \<Rightarrow> bool" where
  "nested_ok accepts fs v = (case v of
      JNull \<Rightarrow> True | JUndefined \<Rightarrow> True
    | JArr vs \<Rightarrow> list_all (\<lambda>x. \<not> isl (validate_dto accepts fs x)) vs
    | _ \<Rightarrow> \<not> isl (validate_dto accepts fs v))"

definition validate_submission :: "(decorator \<Rightarrow> json \<Rightarrow> bool) \<Rightarrow> json \<Rightarrow> (json \<times> string) result" where
  "validate_submission accepts body = (case validate_dto accepts SubmitWeighInDto body of
      Inl e \<Rightarrow> throw e
    | Inr get \<Rightarrow> if nested_ok accepts WeighInPayloadDto (get ''payload'')
        then return (get ''payload'', text_of (get ''signature''))
        else throw (BadRequestException ''Bad Request''))"

text \<open>The validated instance is the payload: its fields, by their names.\<close>

definition payload_of :: "json \<Rightarrow> WeighInPayload" where
  "payload_of v = \<lparr>p_schema = text_of (jfield ''schema'' v), p_collectorId = text_of (jfield ''collectorId'' v),
     p_hubId = text_of (jfield ''hubId'' v), p_deviceId = text_of (jfield ''deviceId'' v),
     p_weightKg = number_of (jfield ''weightKg'' v), p_material = text_of (jfield ''material'' v),
     p_capturedAt = text_of (jfield ''capturedAt'' v), p_photoHash = text_of (jfield ''photoHash'' v),
     p_nonce = text_of (jfield ''nonce'' v)\<rparr>"

text \<open>
  \<open>POST /events\<close>: the body is validated, then ingested.  Reading \<open>payload.schema\<close> throws
  when there is no payload, and gives no schema when the payload is an array.
\<close>

definition submit :: "(decorator \<Rightarrow> json \<Rightarrow> bool) \<Rightarrow> ingest_env \<Rightarrow> instant \<Rightarrow> string \<Rightarrow> json \<Rightarrow> IngestResult op" where
  "submit accepts env now newId body s = (case validate_submission accepts body of
      Inl e \<Rightarrow> throw e
    | Inr (payload, signature) \<Rightarrow> (case payload of
          JObj _ \<Rightarrow> ingest env now newId (payload_of payload) signature s
        | JArr _ \<Rightarrow> throw (BadRequestException ''unsupported payload schema: undefined'')
        | _ \<Rightarrow> throw (PlainError ''Cannot read properties of undefined (reading schema)'')))"

text \<open>\<open>GET /events\<close>: the filter read from the query, for an integral limit.\<close>

definition flag_of :: "json \<Rightarrow> bool option" where
  "flag_of v = (case v of JBool b \<Rightarrow> Some b | _ \<Rightarrow> None)"

definition string_of :: "json \<Rightarrow> string option" where
  "string_of v = (case v of JStr s \<Rightarrow> Some s | _ \<Rightarrow> None)"

definition filter_of :: "(string \<Rightarrow> json) \<Rightarrow> EventFilter" where
  "filter_of get = \<lparr>q_hubId = string_of (get ''hubId''), q_collectorId = string_of (get ''collectorId''),
     q_batched = flag_of (get ''batched''), q_quarantined = flag_of (get ''quarantined''),
     q_hasPhoto = flag_of (get ''hasPhoto''),
     q_limit = (case get ''limit'' of JNum n \<Rightarrow> Some (nat \<lfloor>rval n\<rfloor>) | _ \<Rightarrow> None)\<rparr>"

definition query_events :: "(decorator \<Rightarrow> json \<Rightarrow> bool) \<Rightarrow> json \<Rightarrow> db \<Rightarrow> CollectionEventEntity list result" where
  "query_events accepts query s = (case validate_dto accepts ListEventsQueryDto query of
      Inl e \<Rightarrow> throw e | Inr get \<Rightarrow> return (list_events (filter_of get) s))"

text \<open>The documented behaviour of the decorators that the statements rely on.\<close>

definition documented :: "(decorator \<Rightarrow> json \<Rightarrow> bool) \<Rightarrow> bool" where
  "documented accepts =
    ((\<forall>v. accepts IsString v = (\<exists>s. v = JStr s))
     \<and> (\<forall>v. accepts IsNotEmpty v = (v \<noteq> JStr '''' \<and> \<not> nullish v))
     \<and> (\<forall>p v. accepts (Matches p) v = (\<exists>s. v = JStr s \<and> p s))
     \<and> (\<forall>xs v. accepts (IsIn xs) v = (\<exists>s. v = JStr s \<and> s \<in> set xs))
     \<and> (\<forall>n v. accepts (MinLength n) v = (\<exists>s. v = JStr s \<and> n \<le> length s))
     \<and> (\<forall>n v. accepts (MaxLength n) v = (\<exists>s. v = JStr s \<and> length s \<le> n))
     \<and> (\<forall>d v. accepts (IsNumber d) v \<longrightarrow> (\<exists>x. v = JNum x \<and> is_finite x))
     \<and> (\<forall>b v. accepts (AtLeast b) v = (\<exists>x. v = JNum x \<and> js_le b x))
     \<and> (\<forall>b v. accepts (AtMost b) v = (\<exists>x. v = JNum x \<and> js_le x b))
     \<and> (\<forall>v. accepts IsBoolean v = (\<exists>b. v = JBool b))
     \<and> (\<forall>v. accepts IsUUID v \<longrightarrow> (\<exists>s. v = JStr s)) \<and> (\<forall>v. accepts IsISO8601 v \<longrightarrow> (\<exists>s. v = JStr s)))"

section \<open>What validation gives\<close>

lemma validated_field:
  assumes "validate_dto accepts fs (JObj kvs) = Inr get" and "f \<in> set fs" and "distinct (map fd_name fs)"
  shows "get (fd_name f) = field_value f kvs" and "field_ok accepts f kvs"
proof -
  have ok: "list_all (\<lambda>f. field_ok accepts f kvs) fs"
      and get: "get = (\<lambda>k. case find (\<lambda>f. fd_name f = k) fs of None \<Rightarrow> JUndefined | Some f \<Rightarrow> field_value f kvs)"
    using assms(1) by (auto simp: validate_dto_def split: if_splits)
  show "field_ok accepts f kvs" using ok assms(2) by (simp add: list_all_iff)
  have "find (\<lambda>g. fd_name g = fd_name f) fs = Some f"
    using find_one_unique_key[OF assms(3,2)] by (simp add: find_one_def)
  then show "get (fd_name f) = field_value f kvs" by (simp add: get)
qed

lemma validated_object: "validate_dto accepts fs v = Inr get \<Longrightarrow> \<exists>kvs. v = JObj kvs"
  by (cases v) (simp_all add: validate_dto_def)

text \<open>A field that is needed and untransformed passed all its decorators, as the body has it.\<close>

lemma needed_field:
  assumes "validate_dto accepts fs (JObj kvs) = Inr get" and "needs n ds \<in> set fs" and "distinct (map fd_name fs)"
  shows "get n = jfield n (JObj kvs)" and "\<And>d. d \<in> set ds \<Longrightarrow> accepts d (jfield n (JObj kvs))"
  using validated_field[OF assms]
  by (auto simp: field_value_def field_ok_def jfield_def Let_def list_all_iff)

lemma weigh_in_names: "distinct (map fd_name WeighInPayloadDto)"
  by (simp add: WeighInPayloadDto_def)

lemma documented_texts:
  assumes "documented accepts"
  shows "accepts (Matches p) v \<Longrightarrow> p (text_of v)"
    and "accepts (IsIn xs) v \<Longrightarrow> text_of v \<in> set xs"
    and "accepts (MinLength n) v \<Longrightarrow> n \<le> length (text_of v)"
    and "accepts (MaxLength n) v \<Longrightarrow> length (text_of v) \<le> n"
    and "accepts IsString v \<Longrightarrow> accepts IsNotEmpty v \<Longrightarrow> text_of v \<noteq> ''''"
    and "accepts (AtLeast b) v \<Longrightarrow> js_le b (number_of v)"
    and "accepts (AtMost b) v \<Longrightarrow> js_le (number_of v) b"
proof -
  note doc = assms[unfolded documented_def]
  show "accepts (Matches p) v \<Longrightarrow> p (text_of v)" using doc by (elim conjE) (fastforce simp: text_of_def)
  show "accepts (IsIn xs) v \<Longrightarrow> text_of v \<in> set xs" using doc by (elim conjE) (fastforce simp: text_of_def)
  show "accepts (MinLength n) v \<Longrightarrow> n \<le> length (text_of v)" using doc by (elim conjE) (fastforce simp: text_of_def)
  show "accepts (MaxLength n) v \<Longrightarrow> length (text_of v) \<le> n" using doc by (elim conjE) (fastforce simp: text_of_def)
  show "accepts IsString v \<Longrightarrow> accepts IsNotEmpty v \<Longrightarrow> text_of v \<noteq> ''''"
    using doc by (elim conjE) (fastforce simp: text_of_def)
  show "accepts (AtLeast b) v \<Longrightarrow> js_le b (number_of v)" using doc by (elim conjE) (fastforce simp: number_of_def)
  show "accepts (AtMost b) v \<Longrightarrow> js_le (number_of v) b" using doc by (elim conjE) (fastforce simp: number_of_def)
qed

text \<open>What every weigh-in that passes validation satisfies.\<close>

definition well_formed_weigh_in :: "WeighInPayload \<Rightarrow> bool" where
  "well_formed_weigh_in p = (p_schema p = ''proofchain.weighin.v2'' \<and> isMaterialCode (p_material p)
     \<and> is_hash64 (p_photoHash p) \<and> 16 \<le> length (p_nonce p) \<and> length (p_nonce p) \<le> 64
     \<and> js_le (gram 1) (p_weightKg p) \<and> js_le (p_weightKg p) (Fin 100000))"

lemma validated_weigh_in:
  assumes "documented accepts" and "validate_dto accepts WeighInPayloadDto (JObj kvs) = Inr get"
  shows "well_formed_weigh_in (payload_of (JObj kvs))"
proof -
  note doc = documented_texts[OF assms(1)]
  have f: "accepts d (jfield n (JObj kvs))" if "needs n ds \<in> set WeighInPayloadDto" "d \<in> set ds" for n d ds
    using needed_field(2)[OF assms(2) that(1) weigh_in_names that(2)] .
  have "text_of (jfield ''schema'' (JObj kvs)) \<in> set [''proofchain.weighin.v2'']"
    by (rule doc(2), rule f) (auto simp: WeighInPayloadDto_def)
  moreover have "isMaterialCode (text_of (jfield ''material'' (JObj kvs)))"
    by (rule doc(1), rule f[of _ "[Matches isMaterialCode]"]) (auto simp: WeighInPayloadDto_def MaterialCode_def)
  moreover have "SHA256_HEX (text_of (jfield ''photoHash'' (JObj kvs)))"
    by (rule doc(1), rule f[of _ "[Matches SHA256_HEX]"]) (auto simp: WeighInPayloadDto_def)
  moreover have "16 \<le> length (text_of (jfield ''nonce'' (JObj kvs)))"
    by (rule doc(3), rule f[of _ "[IsString, MinLength 16, MaxLength 64]"]) (auto simp: WeighInPayloadDto_def)
  moreover have "length (text_of (jfield ''nonce'' (JObj kvs))) \<le> 64"
    by (rule doc(4), rule f[of _ "[IsString, MinLength 16, MaxLength 64]"]) (auto simp: WeighInPayloadDto_def)
  moreover have "js_le (gram 1) (number_of (jfield ''weightKg'' (JObj kvs)))"
    by (rule doc(6), rule f[of _ "[IsNumber (Some 3), AtLeast (gram 1), AtMost (Fin 100000)]"]) (auto simp: WeighInPayloadDto_def)
  moreover have "js_le (number_of (jfield ''weightKg'' (JObj kvs))) (Fin 100000)"
    by (rule doc(7), rule f[of _ "[IsNumber (Some 3), AtLeast (gram 1), AtMost (Fin 100000)]"]) (auto simp: WeighInPayloadDto_def)
  ultimately show ?thesis by (simp add: well_formed_weigh_in_def payload_of_def SHA256_HEX_def)
qed

lemma submission_parts:
  assumes "documented accepts" and "validate_submission accepts body = Inr (payload, sig)"
  shows "sig \<noteq> ''''" and "length sig \<le> 200" and "nested_ok accepts WeighInPayloadDto payload"
    and "payload = jfield ''payload'' body"
proof -
  obtain get where get: "validate_dto accepts SubmitWeighInDto body = Inr get" and p: "payload = get ''payload''"
      and s: "sig = text_of (get ''signature'')" and n: "nested_ok accepts WeighInPayloadDto payload"
    using assms(2) by (auto simp: validate_submission_def split: sum.splits if_splits)
  then obtain kvs where body: "body = JObj kvs" using validated_object by blast
  note get' = get[unfolded body]
  have d: "distinct (map fd_name SubmitWeighInDto)" by (simp add: SubmitWeighInDto_def)
  have in_sig: "needs ''signature'' [IsString, IsNotEmpty, MaxLength 200] \<in> set SubmitWeighInDto"
    and in_p: "needs ''payload'' [] \<in> set SubmitWeighInDto" by (simp_all add: SubmitWeighInDto_def)
  note sig' = needed_field[OF get' in_sig d]
  show "nested_ok accepts WeighInPayloadDto payload" by (rule n)
  show "payload = jfield ''payload'' body" using needed_field(1)[OF get' in_p d] by (simp add: p body)
  show "sig \<noteq> ''''" using documented_texts(5)[OF assms(1)] sig' by (simp add: s)
  show "length sig \<le> 200" using documented_texts(4)[OF assms(1)] sig' by (simp add: s)
qed

text \<open>A concrete reading of the decorators, with which the statements are instantiated.\<close>

fun sample_accepts :: "decorator \<Rightarrow> json \<Rightarrow> bool" where
  "sample_accepts IsNotEmpty v = (v \<noteq> JStr '''' \<and> \<not> nullish v)"
| "sample_accepts (IsNumber _) (JNum x) = is_finite x"
| "sample_accepts (AtLeast b) (JNum x) = js_le b x"
| "sample_accepts (AtMost b) (JNum x) = js_le x b"
| "sample_accepts IsBoolean (JBool _) = True"
| "sample_accepts (Matches p) (JStr s) = p s"
| "sample_accepts (IsIn xs) (JStr s) = (s \<in> set xs)"
| "sample_accepts (MinLength n) (JStr s) = (n \<le> length s)"
| "sample_accepts (MaxLength n) (JStr s) = (length s \<le> n)"
| "sample_accepts IsString (JStr _) = True"
| "sample_accepts IsUUID (JStr s) = (s \<noteq> '''')"
| "sample_accepts IsISO8601 (JStr s) = (s \<noteq> '''')"
| "sample_accepts _ _ = False"

lemma sample_accepts_documented: "documented sample_accepts"
proof -
  have "sample_accepts IsString v = (\<exists>s. v = JStr s)" "sample_accepts (Matches p) v = (\<exists>s. v = JStr s \<and> p s)"
    "sample_accepts (IsIn xs) v = (\<exists>s. v = JStr s \<and> s \<in> set xs)"
    "sample_accepts (MinLength n) v = (\<exists>s. v = JStr s \<and> n \<le> length s)"
    "sample_accepts (MaxLength n) v = (\<exists>s. v = JStr s \<and> length s \<le> n)"
    "sample_accepts (IsNumber d) v \<longrightarrow> (\<exists>x. v = JNum x \<and> is_finite x)"
    "sample_accepts (AtLeast b) v = (\<exists>x. v = JNum x \<and> js_le b x)"
    "sample_accepts (AtMost b) v = (\<exists>x. v = JNum x \<and> js_le x b)"
    "sample_accepts IsBoolean v = (\<exists>b. v = JBool b)"
    "sample_accepts IsUUID v \<longrightarrow> (\<exists>s. v = JStr s)" "sample_accepts IsISO8601 v \<longrightarrow> (\<exists>s. v = JStr s)"
    for v p xs n d b
    by (cases v; simp)+
  then show ?thesis by (simp add: documented_def)
qed

lemma submit_Inr:
  assumes "submit accepts env now i body s = Inr (r, s')"
  shows "\<exists>kvs sig. validate_submission accepts body = Inr (JObj kvs, sig)
    \<and> ingest env now i (payload_of (JObj kvs)) sig s = Inr (r, s')"
  using assms by (auto simp: submit_def split: sum.splits json.splits prod.splits)

lemma submitted_payload:
  assumes "validate_submission accepts body = Inr (payload, sig)"
  shows "payload = jfield ''payload'' body"
proof -
  obtain get where get: "validate_dto accepts SubmitWeighInDto body = Inr get" and p: "payload = get ''payload''"
    using assms by (auto simp: validate_submission_def split: sum.splits if_splits)
  then obtain kvs where body: "body = JObj kvs" using validated_object by blast
  have "needs ''payload'' [] \<in> set SubmitWeighInDto" "distinct (map fd_name SubmitWeighInDto)"
    by (simp_all add: SubmitWeighInDto_def)
  then show ?thesis using needed_field(1)[OF get[unfolded body]] by (simp add: p body)
qed

section \<open>Properties\<close>

lemma flag_field_ok [simp]:
  "documented accepts \<Longrightarrow> accepts IsBoolean (JBool b)"
  by (simp add: documented_def)

lemma in_list_events: "e \<in> set (list_events q s) \<Longrightarrow> event_matches q e"
  by (auto simp: list_events_def find_all_def dest!: in_set_takeD)

text \<open>C36. The query \<open>?hasPhoto=false\<close> is answered with the weigh-ins that have a photo: the
  conversion by \<open>Boolean\<close> takes the text \<open>false\<close> for true.  The same text in \<open>?batched=false\<close>,
  read by the query transform, gives the weigh-ins in no batch, as asked.\<close>

theorem has_photo_filter_inverted:
  assumes "documented accepts"
  shows "\<exists>es es'. query_events accepts (JObj [(''hasPhoto'', JStr ''false'')]) s = Inr es
    \<and> (\<forall>e \<in> set es. e_photoUri e \<noteq> None)
    \<and> query_events accepts (JObj [(''batched'', JStr ''false'')]) s = Inr es'
    \<and> (\<forall>e \<in> set es'. e_batchId e = None)"
proof -
  have q: "js_lower (js_trim ''false'') = ''false''" by code_simp
  obtain g where g: "validate_dto accepts ListEventsQueryDto (JObj [(''hasPhoto'', JStr ''false'')]) = Inr g"
      "g ''hasPhoto'' = JBool True"
    using assms
    by (simp add: validate_dto_def ListEventsQueryDto_def field_ok_def field_value_def TypeBoolean_def TypeNumber_def
        js_truthy_def QueryBoolean_def nullish_def with_default_def)
  obtain h where h: "validate_dto accepts ListEventsQueryDto (JObj [(''batched'', JStr ''false'')]) = Inr h"
      "h ''batched'' = JBool False"
    using assms q
    by (simp add: validate_dto_def ListEventsQueryDto_def field_ok_def field_value_def TypeBoolean_def TypeNumber_def
        js_truthy_def QueryBoolean_def nullish_def with_default_def Let_def)
  show ?thesis
    using g h by (auto simp: query_events_def filter_of_def flag_of_def event_matches_def opt_matches_def dest!: in_list_events)
qed

theorem has_photo_filter_inverted_witness:
  "\<exists>es es'. query_events sample_accepts (JObj [(''hasPhoto'', JStr ''false'')]) empty_db = Inr es
    \<and> (\<forall>e \<in> set es. e_photoUri e \<noteq> None)
    \<and> query_events sample_accepts (JObj [(''batched'', JStr ''false'')]) empty_db = Inr es'
    \<and> (\<forall>e \<in> set es'. e_batchId e = None)"
  by (rule has_photo_filter_inverted[OF sample_accepts_documented])

text \<open>A submission that has no payload at all passes validation, since the nested check skips an
  absent value and no decorator requires one, and ends in an uncaught error: the answer
  is 500, a failure of the server, and not the 400 that says the request is wrong.\<close>

theorem submission_without_payload_is_a_server_error:
  assumes "documented accepts" and "sig \<noteq> ''''" and "length sig \<le> 200"
  shows "\<exists>e. submit accepts env now i (JObj [(''signature'', JStr sig)]) s = Inl e \<and> http_status e = 500"
proof -
  have "accepts IsString (JStr sig)" "accepts IsNotEmpty (JStr sig)" "accepts (MaxLength 200) (JStr sig)"
    using assms by (simp_all add: documented_def nullish_def)
  then obtain g where "validate_dto accepts SubmitWeighInDto (JObj [(''signature'', JStr sig)]) = Inr g"
      "g ''payload'' = JUndefined"
    by (simp add: validate_dto_def SubmitWeighInDto_def field_ok_def field_value_def with_default_def)
  then show ?thesis by (simp add: submit_def validate_submission_def nested_ok_def)
qed

theorem submission_without_payload_is_a_server_error_witness:
  "\<forall>env now i. \<exists>e. submit sample_accepts env now i (JObj [(''signature'', JStr ''s'')]) empty_db = Inl e \<and> http_status e = 500"
  by (intro allI, rule submission_without_payload_is_a_server_error[OF sample_accepts_documented]) simp_all

end
