(* ===== verification/Routes.thy ===== *)
theory Routes
  imports Users RateLimit
begin

text \<open>
  The routes that the controllers declare (apps/backend/src/*/*.controller.ts): method,
  path, who may call them and how often, one table per controller in the order of the
  source, and how a request finds its route.  A route is matched by method and path
  segments in declaration order, the first that fits.
\<close>

section \<open>Handlers and routes\<close>

datatype handler =
    Root_index | Health_check
  | Auth_login | Auth_me | Auth_changePassword
  | Registry_listCollectors | Registry_createCollector | Registry_listDevices | Registry_enrolDevice
  | Registry_revokeDevice | Registry_listHubs | Registry_hubDirectory | Registry_createHub
  | Users_list | Users_create | Users_findOne | Users_update | Users_resetPassword
  | Events_submit | Events_list | Events_findOne
  | Photos_upload | Photos_serve
  | Batches_list | Batches_create | Batches_pendingAnchor | Batches_anchorHealth | Batches_findOne
  | Batches_anchorAttempts | Batches_events | Batches_addEvents | Batches_removeEvent | Batches_seal
  | Batches_advance | Batches_recordAnchor | Batches_recordAnchorFailure | Batches_ledger | Batches_verify
  | Custody_list | Custody_create
  | Reports_json | Reports_csv
  | Materials_list | Materials_create | Materials_update | Materials_remove

datatype verb = GET | POST | PATCH | DELETE

datatype segment = Lit string | Param

record api_route = route +
  ar_verb :: verb
  ar_path :: "segment list"
  ar_handler :: handler
  ar_worker :: bool
  ar_limit :: "RateLimitOptions option"

text \<open>A route for any signed-in account, one for given roles, one that is public, and one for the anchor worker.\<close>

definition members :: "verb \<Rightarrow> segment list \<Rightarrow> handler \<Rightarrow> api_route" where
  "members v p h = \<lparr>rt_isPublic = False, rt_roles = [], ar_verb = v, ar_path = p, ar_handler = h, ar_worker = False, ar_limit = None\<rparr>"

definition roles :: "Role list \<Rightarrow> verb \<Rightarrow> segment list \<Rightarrow> handler \<Rightarrow> api_route" where
  "roles rs v p h = (members v p h)\<lparr>rt_roles := rs\<rparr>"

definition anyone :: "verb \<Rightarrow> segment list \<Rightarrow> handler \<Rightarrow> api_route" where
  "anyone v p h = (members v p h)\<lparr>rt_isPublic := True\<rparr>"

definition worker :: "verb \<Rightarrow> segment list \<Rightarrow> handler \<Rightarrow> api_route" where
  "worker v p h = (anyone v p h)\<lparr>ar_worker := True\<rparr>"

definition limited :: "int \<Rightarrow> int \<Rightarrow> api_route \<Rightarrow> api_route" where
  "limited n seconds r = r\<lparr>ar_limit := Some \<lparr>rl_limit = n, rl_windowSeconds = seconds\<rparr>\<rparr>"

abbreviation staff :: "verb \<Rightarrow> segment list \<Rightarrow> handler \<Rightarrow> api_route" where
  "staff \<equiv> roles [admin, operator]"

abbreviation admins :: "verb \<Rightarrow> segment list \<Rightarrow> handler \<Rightarrow> api_route" where
  "admins \<equiv> roles [admin]"

lemmas route_defs = members_def roles_def anyone_def worker_def limited_def

section \<open>The controllers' tables\<close>

definition root_routes :: "api_route list" where
  "root_routes = [anyone GET [] Root_index]"

definition health_routes :: "api_route list" where
  "health_routes = [anyone GET [Lit ''health''] Health_check]"

definition auth_routes :: "api_route list" where
  "auth_routes =
    [limited 10 60 (anyone POST [Lit ''auth'', Lit ''login''] Auth_login),
     members GET [Lit ''auth'', Lit ''me''] Auth_me,
     limited 5 300 (members POST [Lit ''auth'', Lit ''password''] Auth_changePassword)]"

definition registry_routes :: "api_route list" where
  "registry_routes =
    [members GET [Lit ''collectors''] Registry_listCollectors,
     staff POST [Lit ''collectors''] Registry_createCollector,
     members GET [Lit ''devices''] Registry_listDevices,
     staff POST [Lit ''devices''] Registry_enrolDevice,
     staff DELETE [Lit ''devices'', Param] Registry_revokeDevice,
     members GET [Lit ''hubs''] Registry_listHubs,
     anyone GET [Lit ''hubs'', Lit ''directory''] Registry_hubDirectory,
     admins POST [Lit ''hubs''] Registry_createHub]"

definition users_routes :: "api_route list" where
  "users_routes =
    [admins GET [Lit ''users''] Users_list,
     admins POST [Lit ''users''] Users_create,
     admins GET [Lit ''users'', Param] Users_findOne,
     admins PATCH [Lit ''users'', Param] Users_update,
     admins POST [Lit ''users'', Param, Lit ''password''] Users_resetPassword]"

definition events_routes :: "api_route list" where
  "events_routes =
    [limited 60 60 (anyone POST [Lit ''events''] Events_submit),
     members GET [Lit ''events''] Events_list,
     members GET [Lit ''events'', Param] Events_findOne]"

definition photos_routes :: "api_route list" where
  "photos_routes =
    [limited 20 60 (anyone POST [Lit ''events'', Param, Lit ''photo''] Photos_upload),
     anyone GET [Lit ''events'', Param, Lit ''photo''] Photos_serve]"

definition batches_routes :: "api_route list" where
  "batches_routes =
    [members GET [Lit ''batches''] Batches_list,
     staff POST [Lit ''batches''] Batches_create,
     anyone GET [Lit ''batches'', Lit ''pending-anchor''] Batches_pendingAnchor,
     staff GET [Lit ''batches'', Lit ''anchor-health''] Batches_anchorHealth,
     members GET [Lit ''batches'', Param] Batches_findOne,
     staff GET [Lit ''batches'', Param, Lit ''anchor-attempts''] Batches_anchorAttempts,
     members GET [Lit ''batches'', Param, Lit ''events''] Batches_events,
     staff POST [Lit ''batches'', Param, Lit ''events''] Batches_addEvents,
     staff DELETE [Lit ''batches'', Param, Lit ''events'', Param] Batches_removeEvent,
     staff POST [Lit ''batches'', Param, Lit ''seal''] Batches_seal,
     staff POST [Lit ''batches'', Param, Lit ''status''] Batches_advance,
     worker POST [Lit ''batches'', Param, Lit ''anchor''] Batches_recordAnchor,
     worker POST [Lit ''batches'', Param, Lit ''anchor-failure''] Batches_recordAnchorFailure,
     anyone GET [Lit ''batches'', Param, Lit ''ledger''] Batches_ledger,
     anyone GET [Lit ''batches'', Param, Lit ''verify'', Param] Batches_verify]"

definition custody_routes :: "api_route list" where
  "custody_routes =
    [members GET [Lit ''batches'', Param, Lit ''custody''] Custody_list,
     staff POST [Lit ''batches'', Param, Lit ''custody''] Custody_create]"

definition reports_routes :: "api_route list" where
  "reports_routes =
    [anyone GET [Lit ''batches'', Param, Lit ''report''] Reports_json,
     anyone GET [Lit ''batches'', Param, Lit ''report'', Lit ''events.csv''] Reports_csv]"

definition materials_routes :: "api_route list" where
  "materials_routes =
    [anyone GET [Lit ''materials''] Materials_list,
     admins POST [Lit ''materials''] Materials_create,
     admins PATCH [Lit ''materials'', Param] Materials_update,
     admins DELETE [Lit ''materials'', Param] Materials_remove]"

text \<open>The controllers of the application module; two of them share a path prefix but no path.\<close>

definition ROUTES :: "api_route list" where
  "ROUTES = root_routes @ auth_routes @ health_routes @ users_routes @ registry_routes @ events_routes
     @ photos_routes @ batches_routes @ custody_routes @ reports_routes @ materials_routes"

section \<open>Finding the route of a request\<close>

fun path_fits :: "segment list \<Rightarrow> string list \<Rightarrow> bool" where
  "path_fits [] [] = True"
| "path_fits (Lit t # ps) (s # ss) = (t = s \<and> path_fits ps ss)"
| "path_fits (Param # ps) (s # ss) = (s \<noteq> '''' \<and> path_fits ps ss)"
| "path_fits _ _ = False"

fun path_params :: "segment list \<Rightarrow> string list \<Rightarrow> string list" where
  "path_params (Param # ps) (s # ss) = s # path_params ps ss"
| "path_params (Lit t # ps) (s # ss) = path_params ps ss"
| "path_params _ _ = []"

definition find_route :: "verb \<Rightarrow> string list \<Rightarrow> api_route option" where
  "find_route v path = find_one (\<lambda>r. ar_verb r = v \<and> path_fits (ar_path r) path) ROUTES"

fun verb_name :: "verb \<Rightarrow> string" where
  "verb_name GET = ''GET''" | "verb_name POST = ''POST''" | "verb_name PATCH = ''PATCH''" | "verb_name DELETE = ''DELETE''"

text \<open>The path of a route as the rate limiter sees it: the parameters by name, not by value.\<close>

definition segment_text :: "segment \<Rightarrow> string" where
  "segment_text s = (case s of Lit t \<Rightarrow> t | Param \<Rightarrow> '':id'')"

definition route_text :: "api_route \<Rightarrow> string" where
  "route_text r = concat (map (\<lambda>s. ''/'' @ segment_text s) (ar_path r))"

section \<open>The tables, read\<close>

lemma find_route_in: "find_route v path = Some r \<Longrightarrow> r \<in> set ROUTES \<and> ar_verb r = v \<and> path_fits (ar_path r) path"
  by (auto simp: find_route_def find_one_def find_Some_iff)

text \<open>The handlers that can change the database or the photo directory.\<close>

definition writes :: "handler \<Rightarrow> bool" where
  "writes h = (h \<in> {Auth_changePassword, Registry_createCollector, Registry_enrolDevice, Registry_revokeDevice,
     Registry_createHub, Users_create, Users_update, Users_resetPassword, Events_submit, Photos_upload,
     Batches_create, Batches_addEvents, Batches_removeEvent, Batches_seal, Batches_advance, Batches_recordAnchor,
     Batches_recordAnchorFailure, Custody_create, Materials_create, Materials_update, Materials_remove})"

definition admin_only :: "handler \<Rightarrow> bool" where
  "admin_only h = (h \<in> {Registry_createHub, Users_list, Users_create, Users_findOne, Users_update, Users_resetPassword,
     Materials_create, Materials_update, Materials_remove})"

text \<open>Who may call a handler that writes, and that every declared handler is routed to once.\<close>

lemma writing_routes:
  assumes "r \<in> set ROUTES" and "writes (ar_handler r)"
  shows "(rt_isPublic r \<and> ar_worker r \<and> ar_handler r \<in> {Batches_recordAnchor, Batches_recordAnchorFailure})
    \<or> (rt_isPublic r \<and> \<not> ar_worker r \<and> ar_handler r \<in> {Events_submit, Photos_upload})
    \<or> (\<not> rt_isPublic r \<and> (rt_roles r = [admin] \<and> admin_only (ar_handler r) \<or> rt_roles r = [admin, operator] \<and> \<not> admin_only (ar_handler r)))
    \<or> (\<not> rt_isPublic r \<and> rt_roles r = [] \<and> ar_handler r = Auth_changePassword)"
proof -
  have "list_all (\<lambda>r. writes (ar_handler r) \<longrightarrow>
      (rt_isPublic r \<and> ar_worker r \<and> ar_handler r \<in> {Batches_recordAnchor, Batches_recordAnchorFailure})
    \<or> (rt_isPublic r \<and> \<not> ar_worker r \<and> ar_handler r \<in> {Events_submit, Photos_upload})
    \<or> (\<not> rt_isPublic r \<and> (rt_roles r = [admin] \<and> admin_only (ar_handler r) \<or> rt_roles r = [admin, operator] \<and> \<not> admin_only (ar_handler r)))
    \<or> (\<not> rt_isPublic r \<and> rt_roles r = [] \<and> ar_handler r = Auth_changePassword)) ROUTES"
    by (simp add: ROUTES_def root_routes_def auth_routes_def health_routes_def users_routes_def registry_routes_def
        events_routes_def photos_routes_def batches_routes_def custody_routes_def reports_routes_def materials_routes_def
        route_defs writes_def admin_only_def)
  then show ?thesis using assms by (simp add: list_all_iff)
qed

lemma routed_once: "distinct (map ar_handler ROUTES)"
  by (simp add: ROUTES_def root_routes_def auth_routes_def health_routes_def users_routes_def registry_routes_def
      events_routes_def photos_routes_def batches_routes_def custody_routes_def reports_routes_def materials_routes_def
      route_defs)

end
