(* ===== verification/Api.thy ===== *)
theory Api
  imports Routes Dto Reports System
begin

text \<open>
  The HTTP face of the backend: a request finds its route, passes the guards in the order
  of \<open>app.module.ts\<close> (account, rate limit, then the worker's token), has its parameters
  and body validated by the pipes of \<open>main.ts\<close>, and is handed to the service that the
  controller names.  A request is answered atomically here; \<open>System\<close> interleaves.
\<close>

section \<open>Requests and answers\<close>

record http_request =
  hq_verb :: verb
  hq_path :: "string list"
  hq_query :: json
  hq_body :: json
  hq_bytes :: bytes
  hq_authorization :: "string option"
  hq_workerToken :: "string option"
  hq_ifNoneMatch :: "string option"
  hq_ip :: "string option"

text \<open>
  What surrounds the handlers: the deployment, the libraries (validator decorators, uuid
  pattern, collation, tokens, Horizon through the ledger service), the shared secret of the
  worker, and what the database and the random source give to one request.
\<close>

record api_env =
  ae_deployment :: deployment
  ae_accepts :: "decorator \<Rightarrow> json \<Rightarrow> bool"
  ae_isUuid :: "string \<Rightarrow> bool"
  ae_uuidText :: "string \<Rightarrow> bool"
  ae_collate :: "string \<Rightarrow> string \<Rightarrow> int"
  ae_jwtVerify :: "string \<Rightarrow> JwtPayload option"
  ae_signJwt :: "JwtPayload \<Rightarrow> string"
  ae_verifyAnchor :: "AnchorToVerify \<Rightarrow> LedgerConfirmation result"
  ae_workerToken :: string
  ae_production :: bool
  ae_databaseUp :: bool

record ids =
  id_new :: string
  id_attempt :: string

record call =
  cl_params :: "string list"
  cl_query :: json
  cl_body :: json
  cl_bytes :: bytes
  cl_user :: "JwtPayload option"
  cl_ifNoneMatch :: "string option"

datatype answer =
    Redirect string | Identity string | HealthReport bool instant
  | Token string Role | Me JwtPayload | NoContent
  | ACollector CollectorEntity | Collectors "CollectorEntity list" | ADevice DeviceEntity | Devices "DeviceEntity list"
  | AHub HubEntity | Hubs "HubEntity list" | Directory "HubDirectoryEntry list"
  | AUser UserView | AllUsers "UserView list"
  | Ingested IngestResult | AnEvent CollectionEventEntity | EventList "CollectionEventEntity list"
  | Attached PhotoAttachment | Served http_reply
  | ABatch BatchEntity | TheBatch BatchEntity "AnchorRecordEntity option" | BatchList "(BatchEntity \<times> AnchorRecordEntity option) list"
  | Pending "PendingAnchorBatch list" | Health AnchorHealth | AnAttempt AnchorAttemptEntity
  | Attempts "AnchorAttemptEntity list" | AnAnchor AnchorRecordEntity | OnLedger BatchLedgerStatus
  | Verified EventVerification | ATransfer CustodyTransferEntity | TransferList "CustodyTransferEntity list"
  | Report AuditReport | Csv string | AMaterial Material | MaterialList "Material list" | MaterialGone string

text \<open>A handler that reads answers and leaves the world as it was; one that writes answers with the database after.\<close>

definition reading :: "('a \<Rightarrow> answer) \<Rightarrow> 'a result \<Rightarrow> world \<Rightarrow> (answer \<times> world) result" where
  "reading f r w = (case r of Inl e \<Rightarrow> throw e | Inr a \<Rightarrow> return (f a, w))"

definition writing :: "('a \<Rightarrow> answer) \<Rightarrow> 'a op \<Rightarrow> world \<Rightarrow> (answer \<times> world) result" where
  "writing f op w = (case op (w_db w) of Inl e \<Rightarrow> throw e | Inr (a, s') \<Rightarrow> return (f a, w\<lparr>w_db := s'\<rparr>))"

section \<open>Pipes\<close>

text \<open>\<open>ParseUUIDPipe\<close> on the n-th path parameter, and the validation pipe on the body.\<close>

definition uuid_param :: "api_env \<Rightarrow> call \<Rightarrow> nat \<Rightarrow> string result" where
  "uuid_param A c n = (if n < length (cl_params c) \<and> ae_isUuid A (cl_params c ! n) then return (cl_params c ! n)
     else throw (BadRequestException ''Validation failed (uuid is expected)''))"

definition body_as :: "api_env \<Rightarrow> call \<Rightarrow> field list \<Rightarrow> (string \<Rightarrow> json) result" where
  "body_as A c fs = validate_dto (ae_accepts A) fs (cl_body c)"

definition and_then :: "'a result \<Rightarrow> ('a \<Rightarrow> 'b result) \<Rightarrow> 'b result" where
  "and_then r f = (case r of Inl e \<Rightarrow> throw e | Inr a \<Rightarrow> f a)"

lemma and_then_Inr [sum_elims]: "and_then r f = Inr b \<longleftrightarrow> (\<exists>a. r = Inr a \<and> f a = Inr b)"
  by (cases r) (simp_all add: and_then_def)

section \<open>Bodies read as requests of the services\<close>

definition number_opt :: "json \<Rightarrow> jsnum option" where
  "number_opt v = (case v of JNum n \<Rightarrow> Some n | _ \<Rightarrow> None)"

text \<open>An integer column refuses a number that is not whole.\<close>

definition whole :: "json \<Rightarrow> int option" where
  "whole v = (case v of JNum n \<Rightarrow> if is_finite n \<and> rval n = of_int \<lfloor>rval n\<rfloor> then Some \<lfloor>rval n\<rfloor> else None | _ \<Rightarrow> None)"

definition INVALID_INTEGER :: exception where
  "INVALID_INTEGER = InternalServerErrorException ''22P02''"

definition NOT_NULL_VIOLATION :: exception where
  "NOT_NULL_VIOLATION = InternalServerErrorException ''23502''"

definition texts_of :: "json \<Rightarrow> string list" where
  "texts_of v = (case v of JArr vs \<Rightarrow> map text_of vs | _ \<Rightarrow> [])"

definition texts_opt :: "json \<Rightarrow> string list option" where
  "texts_opt v = (if nullish v then None else Some (texts_of v))"

definition role_of :: "string \<Rightarrow> Role" where
  "role_of s = (if s = ''admin'' then admin else if s = ''operator'' then operator else auditor)"

definition kyc_of :: "string \<Rightarrow> KycLevel" where
  "kyc_of s = (if s = ''basic'' then basic else if s = ''verified'' then verified else kyc_none)"

definition status_of :: "string \<Rightarrow> BatchStatus option" where
  "status_of s = find_one (\<lambda>st. status_name st = s) BATCH_STATUSES"

definition collector_body :: "(string \<Rightarrow> json) \<Rightarrow> CreateCollectorDto" where
  "collector_body get = \<lparr>cc_name = text_of (get ''name''), cc_phone = text_of (get ''phone''),
     cc_cooperativeId = string_of (get ''cooperativeId''), cc_kycLevel = map_option kyc_of (string_of (get ''kycLevel''))\<rparr>"

definition device_body :: "(string \<Rightarrow> json) \<Rightarrow> EnrolDeviceDto" where
  "device_body get = \<lparr>ed_collectorId = text_of (get ''collectorId''), ed_label = text_of (get ''label''),
     ed_publicKeyBase64 = text_of (get ''publicKeyBase64'')\<rparr>"

definition hub_body :: "(string \<Rightarrow> json) \<Rightarrow> CreateHubDto" where
  "hub_body get = \<lparr>ch_code = text_of (get ''code''), ch_name = text_of (get ''name''),
     ch_minWeightKg = number_opt (get ''minWeightKg''), ch_maxWeightKg = number_opt (get ''maxWeightKg'')\<rparr>"

definition transfer_body :: "(string \<Rightarrow> json) \<Rightarrow> CreateCustodyTransferDto" where
  "transfer_body get = \<lparr>ct_dto_fromParty = text_of (get ''fromParty''), ct_dto_toParty = text_of (get ''toParty''),
     ct_dto_weightInKg = number_of (get ''weightInKg''), ct_dto_weightOutKg = number_of (get ''weightOutKg''),
     ct_dto_reason = string_of (get ''reason''), ct_dto_transferredAt = text_of (get ''transferredAt'')\<rparr>"

definition user_body :: "(string \<Rightarrow> json) \<Rightarrow> CreateUserDto" where
  "user_body get = \<lparr>cu_email = text_of (get ''email''), cu_password = text_of (get ''password''),
     cu_role = role_of (text_of (get ''role''))\<rparr>"

definition user_patch :: "(string \<Rightarrow> json) \<Rightarrow> UpdateUserDto" where
  "user_patch get = \<lparr>uu_role = map_option role_of (string_of (get ''role'')), uu_active = flag_of (get ''active'')\<rparr>"

definition anchor_body :: "(string \<Rightarrow> json) \<Rightarrow> int \<Rightarrow> RecordAnchorDto" where
  "anchor_body get ledger = \<lparr>an_merkleRoot = text_of (get ''merkleRoot''), an_stellarTxHash = text_of (get ''stellarTxHash''),
     an_stellarLedger = ledger, an_network = (if get ''network'' = JStr ''public'' then public else testnet),
     an_dataEntryKey = text_of (get ''dataEntryKey''), an_anchoredAt = text_of (get ''anchoredAt'')\<rparr>"

definition failure_body :: "(string \<Rightarrow> json) \<Rightarrow> RecordedAttempt" where
  "failure_body get = \<lparr>ra_outcome = (if get ''outcome'' = JStr ''unverified'' then unverified else failed),
     ra_detail = string_of (get ''detail''), ra_stellarTxHash = string_of (get ''stellarTxHash'')\<rparr>"

definition material_body :: "(string \<Rightarrow> json) \<Rightarrow> CreateMaterialDto" where
  "material_body get = \<lparr>cm_code = text_of (get ''code''), cm_name = text_of (get ''name''),
     cm_description = string_of (get ''description''), cm_examples = texts_opt (get ''examples''),
     cm_active = flag_of (get ''active''), cm_sortOrder = whole (get ''sortOrder'')\<rparr>"

text \<open>A null description or list in a patch clears the column, as blank ones do.\<close>

definition material_patch :: "(string \<Rightarrow> json) \<Rightarrow> UpdateMaterialDto" where
  "material_patch get = \<lparr>um_name = string_of (get ''name''),
     um_description = (if get ''description'' = JNull then Some '''' else string_of (get ''description'')),
     um_examples = (if get ''examples'' = JNull then Some [] else texts_opt (get ''examples'')),
     um_active = flag_of (get ''active''), um_sortOrder = whole (get ''sortOrder'')\<rparr>"

section \<open>Handlers\<close>

definition auth_login :: "api_env \<Rightarrow> call \<Rightarrow> world \<Rightarrow> (answer \<times> world) result" where
  "auth_login A c w = and_then (body_as A c LoginDto) (\<lambda>get.
     reading (\<lambda>(t, r). Token t r)
       (login (dp_verifyPassword (ae_deployment A)) (ae_signJwt A) (text_of (get ''email'')) (text_of (get ''password'')) (w_db w)) w)"

definition auth_changePassword :: "api_env \<Rightarrow> call \<Rightarrow> world \<Rightarrow> (answer \<times> world) result" where
  "auth_changePassword A c w = and_then (body_as A c ChangePasswordDto) (\<lambda>get. case cl_user c of
       None \<Rightarrow> throw (PlainError ''Cannot read properties of undefined (reading sub)'')
     | Some user \<Rightarrow> writing (\<lambda>_. NoContent)
         (changeOwnPassword (dp_hashPassword (ae_deployment A)) (dp_verifyPassword (ae_deployment A)) (jwt_sub user)
           (text_of (get ''currentPassword'')) (text_of (get ''newPassword''))) w)"

definition registry_createCollector :: "api_env \<Rightarrow> ids \<Rightarrow> call \<Rightarrow> world \<Rightarrow> (answer \<times> world) result" where
  "registry_createCollector A ns c w = and_then (body_as A c CreateCollectorDto_fields) (\<lambda>get.
     writing ACollector (createCollector (w_clock w) (id_new ns) (collector_body get)) w)"

text \<open>The database refuses a collector id that is not the text of a uuid.\<close>

definition registry_listDevices :: "api_env \<Rightarrow> call \<Rightarrow> world \<Rightarrow> (answer \<times> world) result" where
  "registry_listDevices A c w = (let wanted = string_of (jfield ''collectorId'' (cl_query c)) in
     if \<not> opt_matches wanted (\<lambda>i. i = '''' \<or> ae_uuidText A i) then throw INVALID_INTEGER
     else return (Devices (listDevices wanted (w_db w)), w))"

definition registry_enrolDevice :: "api_env \<Rightarrow> ids \<Rightarrow> call \<Rightarrow> world \<Rightarrow> (answer \<times> world) result" where
  "registry_enrolDevice A ns c w = and_then (body_as A c EnrolDeviceDto_fields) (\<lambda>get.
     writing ADevice (enrolDevice (w_clock w) (id_new ns) (device_body get)) w)"

definition registry_revokeDevice :: "api_env \<Rightarrow> call \<Rightarrow> world \<Rightarrow> (answer \<times> world) result" where
  "registry_revokeDevice A c w = and_then (uuid_param A c 0) (\<lambda>i. writing ADevice (revokeDevice (w_clock w) i) w)"

definition registry_createHub :: "api_env \<Rightarrow> ids \<Rightarrow> call \<Rightarrow> world \<Rightarrow> (answer \<times> world) result" where
  "registry_createHub A ns c w = and_then (body_as A c CreateHubDto_fields) (\<lambda>get.
     writing AHub (createHub (id_new ns) (hub_body get)) w)"

definition users_create :: "api_env \<Rightarrow> ids \<Rightarrow> call \<Rightarrow> world \<Rightarrow> (answer \<times> world) result" where
  "users_create A ns c w = and_then (body_as A c CreateUserDto_fields) (\<lambda>get.
     writing AUser (create_user (dp_hashPassword (ae_deployment A)) (w_clock w) (id_new ns) (user_body get)) w)"

text \<open>
  A patch with a null role or activity passes the optional fields: the checks compare it
  with what the account has, and the save is refused by the column.
\<close>

definition user_null_patch :: "(string \<Rightarrow> json) \<Rightarrow> string \<Rightarrow> string \<Rightarrow> db \<Rightarrow> exception" where
  "user_null_patch get i actor s = (case get_by u_id i (users s) of
      None \<Rightarrow> NotFoundException (''user '' @ i @ '' not found'')
    | Some user \<Rightarrow>
        if u_role user = admin \<and> ((get ''role'' \<noteq> JUndefined \<and> get ''role'' \<noteq> JStr ''admin'') \<or> get ''active'' = JBool False)
          \<and> other_admins i s = []
        then ConflictException (''this is the last active admin; promote another user to admin first, ''
             @ ''otherwise nobody can manage accounts, hubs or devices'')
        else if i = actor \<and> get ''active'' = JBool False
        then ForbiddenException ''you cannot deactivate your own account''
        else if i = actor \<and> get ''role'' \<noteq> JUndefined \<and> get ''role'' \<noteq> JStr (role_name (u_role user))
        then ForbiddenException ''you cannot change your own role; ask another admin to do it''
        else NOT_NULL_VIOLATION)"

definition users_patch :: "api_env \<Rightarrow> call \<Rightarrow> world \<Rightarrow> (answer \<times> world) result" where
  "users_patch A c w = and_then (uuid_param A c 0) (\<lambda>i. and_then (body_as A c UpdateUserDto_fields) (\<lambda>get. case cl_user c of
       None \<Rightarrow> throw (PlainError ''Cannot read properties of undefined (reading sub)'')
     | Some actor \<Rightarrow>
         if get ''role'' = JNull \<or> get ''active'' = JNull then throw (user_null_patch get i (jwt_sub actor) (w_db w))
         else writing AUser (update_user i (user_patch get) (jwt_sub actor)) w))"

definition users_resetPassword :: "api_env \<Rightarrow> call \<Rightarrow> world \<Rightarrow> (answer \<times> world) result" where
  "users_resetPassword A c w = and_then (uuid_param A c 0) (\<lambda>i. and_then (body_as A c ResetPasswordDto) (\<lambda>get.
     writing AUser (resetPassword (dp_hashPassword (ae_deployment A)) i (text_of (get ''newPassword''))) w))"

definition events_submit :: "api_env \<Rightarrow> ids \<Rightarrow> call \<Rightarrow> world \<Rightarrow> (answer \<times> world) result" where
  "events_submit A ns c w =
     writing Ingested (submit (ae_accepts A) (dp_env (ae_deployment A)) (w_clock w) (id_new ns) (cl_body c)) w"

definition photos_upload :: "api_env \<Rightarrow> call \<Rightarrow> world \<Rightarrow> (answer \<times> world) result" where
  "photos_upload A c w = and_then (uuid_param A c 0) (\<lambda>i.
     case attach_photo (dp_photoRoot (ae_deployment A)) (dp_photoMaxBytes (ae_deployment A)) i (cl_bytes c) (w_db w, w_disk w) of
       Inl e \<Rightarrow> throw e
     | Inr (a, s', d') \<Rightarrow> return (Attached a, w\<lparr>w_db := s', w_disk := d'\<rparr>))"

definition photos_serve :: "api_env \<Rightarrow> call \<Rightarrow> world \<Rightarrow> (answer \<times> world) result" where
  "photos_serve A c w = and_then (uuid_param A c 0) (\<lambda>i.
     reading Served (serve_photo (dp_photoRoot (ae_deployment A)) i (cl_ifNoneMatch c) (w_db w, w_disk w)) w)"

text \<open>Any other status than the four names no batch.\<close>

definition batches_list :: "call \<Rightarrow> world \<Rightarrow> (answer \<times> world) result" where
  "batches_list c w = (case string_of (jfield ''status'' (cl_query c)) of
       None \<Rightarrow> return (BatchList (list_batches None (w_db w)), w)
     | Some t \<Rightarrow> if t = '''' then return (BatchList (list_batches None (w_db w)), w)
         else (case status_of t of
             None \<Rightarrow> return (BatchList [], w)
           | Some st \<Rightarrow> return (BatchList (list_batches (Some st) (w_db w)), w)))"

definition batches_create :: "api_env \<Rightarrow> ids \<Rightarrow> call \<Rightarrow> world \<Rightarrow> (answer \<times> world) result" where
  "batches_create A ns c w = and_then (body_as A c CreateBatchDto) (\<lambda>get.
     writing ABatch (create_batch (w_clock w) (id_new ns) (text_of (get ''hubId'')) (text_of (get ''material''))) w)"

definition batches_addEvents :: "api_env \<Rightarrow> call \<Rightarrow> world \<Rightarrow> (answer \<times> world) result" where
  "batches_addEvents A c w = and_then (uuid_param A c 0) (\<lambda>i. and_then (body_as A c AddEventsDto) (\<lambda>get.
     writing ABatch (addEvents i (texts_of (get ''eventIds''))) w))"

definition batches_removeEvent :: "api_env \<Rightarrow> call \<Rightarrow> world \<Rightarrow> (answer \<times> world) result" where
  "batches_removeEvent A c w = and_then (uuid_param A c 0) (\<lambda>i. and_then (uuid_param A c 1) (\<lambda>ev.
     writing ABatch (removeEvent i ev) w))"

definition batches_seal :: "api_env \<Rightarrow> call \<Rightarrow> world \<Rightarrow> (answer \<times> world) result" where
  "batches_seal A c w = and_then (uuid_param A c 0) (\<lambda>i. writing ABatch (seal (w_clock w) i) w)"

definition batches_advance :: "api_env \<Rightarrow> call \<Rightarrow> world \<Rightarrow> (answer \<times> world) result" where
  "batches_advance A c w = and_then (uuid_param A c 0) (\<lambda>i. and_then (body_as A c AdvanceStatusDto) (\<lambda>get.
     case status_of (text_of (get ''status'')) of
       None \<Rightarrow> throw (BadRequestException ''Bad Request'')
     | Some st \<Rightarrow> writing ABatch (advanceStatus i st) w))"

text \<open>A ledger number that is not whole is refused by the column, where a row would be written.\<close>

definition batches_recordAnchor :: "api_env \<Rightarrow> ids \<Rightarrow> call \<Rightarrow> world \<Rightarrow> (answer \<times> world) result" where
  "batches_recordAnchor A ns c w = and_then (uuid_param A c 0) (\<lambda>i. and_then (body_as A c RecordAnchorDto_fields) (\<lambda>get.
     let record = (\<lambda>ledger. recordAnchor (parseDate (dp_env (ae_deployment A))) (w_clock w) (id_new ns) (id_attempt ns) i
           (anchor_body get ledger)) in
     case whole (get ''stellarLedger'') of
       Some ledger \<Rightarrow> writing AnAnchor (record ledger) w
     | None \<Rightarrow> if anchor_of i (w_db w) = None then and_then (record 0 (w_db w)) (\<lambda>_. throw INVALID_INTEGER)
         else writing AnAnchor (record 0) w))"

definition batches_recordAnchorFailure :: "api_env \<Rightarrow> ids \<Rightarrow> call \<Rightarrow> world \<Rightarrow> (answer \<times> world) result" where
  "batches_recordAnchorFailure A ns c w = and_then (uuid_param A c 0) (\<lambda>i. and_then (body_as A c RecordAnchorFailureDto) (\<lambda>get.
     writing AnAttempt (recordAnchorFailure (w_clock w) (id_attempt ns) i (failure_body get)) w))"

definition batches_verify :: "api_env \<Rightarrow> call \<Rightarrow> world \<Rightarrow> (answer \<times> world) result" where
  "batches_verify A c w = and_then (uuid_param A c 0) (\<lambda>b. and_then (uuid_param A c 1) (\<lambda>ev.
     reading Verified (verifyEvent (ae_verifyAnchor A) b ev (w_db w)) w))"

definition custody_create :: "api_env \<Rightarrow> ids \<Rightarrow> call \<Rightarrow> world \<Rightarrow> (answer \<times> world) result" where
  "custody_create A ns c w = and_then (uuid_param A c 0) (\<lambda>b. and_then (body_as A c CreateCustodyTransferDto_fields) (\<lambda>get.
     writing ATransfer (create_transfer (parseDate (dp_env (ae_deployment A))) (id_new ns) b (transfer_body get)) w))"

definition materials_create :: "api_env \<Rightarrow> call \<Rightarrow> world \<Rightarrow> (answer \<times> world) result" where
  "materials_create A c w = and_then (body_as A c CreateMaterialDto_fields) (\<lambda>get.
     if number_opt (get ''sortOrder'') \<noteq> None \<and> whole (get ''sortOrder'') = None
     then and_then (create_material (material_body get) (w_db w)) (\<lambda>_. throw INVALID_INTEGER)
     else writing AMaterial (create_material (material_body get)) w)"

text \<open>A null name passes the optional field and is trimmed; a null activity or order is refused by the column.\<close>

definition materials_patch :: "api_env \<Rightarrow> call \<Rightarrow> world \<Rightarrow> (answer \<times> world) result" where
  "materials_patch A c w = and_then (body_as A c UpdateMaterialDto_fields) (\<lambda>get. let code = cl_params c ! 0 in
     if get ''name'' = JNull
     then and_then (require_material code (w_db w)) (\<lambda>_. throw (PlainError ''Cannot read properties of null (reading trim)''))
     else if get ''active'' = JNull \<or> get ''sortOrder'' = JNull
     then and_then (require_material code (w_db w)) (\<lambda>_. throw NOT_NULL_VIOLATION)
     else if number_opt (get ''sortOrder'') \<noteq> None \<and> whole (get ''sortOrder'') = None
     then and_then (require_material code (w_db w)) (\<lambda>_. throw INVALID_INTEGER)
     else writing AMaterial (update_material code (material_patch get)) w)"

text \<open>The handler of each route; the rest read and answer.\<close>

fun handle :: "handler \<Rightarrow> api_env \<Rightarrow> ids \<Rightarrow> call \<Rightarrow> world \<Rightarrow> (answer \<times> world) result" where
  "handle Root_index A ns c w = return (if ae_production A then Identity ''proofchain-api'' else Redirect ''/docs'', w)"
| "handle Health_check A ns c w = return (HealthReport (ae_databaseUp A) (w_clock w), w)"
| "handle Auth_login A ns c w = auth_login A c w"
| "handle Auth_me A ns c w = (case cl_user c of
      None \<Rightarrow> throw (PlainError ''Cannot read properties of undefined (reading sub)'') | Some user \<Rightarrow> return (Me user, w))"
| "handle Auth_changePassword A ns c w = auth_changePassword A c w"
| "handle Registry_listCollectors A ns c w = return (Collectors (listCollectors (w_db w)), w)"
| "handle Registry_createCollector A ns c w = registry_createCollector A ns c w"
| "handle Registry_listDevices A ns c w = registry_listDevices A c w"
| "handle Registry_enrolDevice A ns c w = registry_enrolDevice A ns c w"
| "handle Registry_revokeDevice A ns c w = registry_revokeDevice A c w"
| "handle Registry_listHubs A ns c w = return (Hubs (listHubs (ae_collate A) (w_db w)), w)"
| "handle Registry_hubDirectory A ns c w = return (Directory (hubDirectory (ae_collate A) (w_db w)), w)"
| "handle Registry_createHub A ns c w = registry_createHub A ns c w"
| "handle Users_list A ns c w = return (AllUsers (list_users (w_db w)), w)"
| "handle Users_create A ns c w = users_create A ns c w"
| "handle Users_findOne A ns c w = and_then (uuid_param A c 0) (\<lambda>i. reading AUser (findOne_user i (w_db w)) w)"
| "handle Users_update A ns c w = users_patch A c w"
| "handle Users_resetPassword A ns c w = users_resetPassword A c w"
| "handle Events_submit A ns c w = events_submit A ns c w"
| "handle Events_list A ns c w = reading EventList (query_events (ae_accepts A) (cl_query c) (w_db w)) w"
| "handle Events_findOne A ns c w = and_then (uuid_param A c 0) (\<lambda>i. reading AnEvent (findOne_event i (w_db w)) w)"
| "handle Photos_upload A ns c w = photos_upload A c w"
| "handle Photos_serve A ns c w = photos_serve A c w"
| "handle Batches_list A ns c w = batches_list c w"
| "handle Batches_create A ns c w = batches_create A ns c w"
| "handle Batches_pendingAnchor A ns c w = return (Pending (pendingAnchor (w_clock w) (w_db w)), w)"
| "handle Batches_anchorHealth A ns c w = return (Health (anchorHealth (w_clock w) (w_db w)), w)"
| "handle Batches_findOne A ns c w = and_then (uuid_param A c 0) (\<lambda>i.
      reading (\<lambda>b. TheBatch b (anchor_of i (w_db w))) (findOne_batch i (w_db w)) w)"
| "handle Batches_anchorAttempts A ns c w = and_then (uuid_param A c 0) (\<lambda>i. reading Attempts (anchorAttemptsFor i (w_db w)) w)"
| "handle Batches_events A ns c w = and_then (uuid_param A c 0) (\<lambda>i. reading EventList (eventsOf i (w_db w)) w)"
| "handle Batches_addEvents A ns c w = batches_addEvents A c w"
| "handle Batches_removeEvent A ns c w = batches_removeEvent A c w"
| "handle Batches_seal A ns c w = batches_seal A c w"
| "handle Batches_advance A ns c w = batches_advance A c w"
| "handle Batches_recordAnchor A ns c w = batches_recordAnchor A ns c w"
| "handle Batches_recordAnchorFailure A ns c w = batches_recordAnchorFailure A ns c w"
| "handle Batches_ledger A ns c w = and_then (uuid_param A c 0) (\<lambda>i. reading OnLedger (ledgerStatus (ae_verifyAnchor A) i (w_db w)) w)"
| "handle Batches_verify A ns c w = batches_verify A c w"
| "handle Custody_list A ns c w = and_then (uuid_param A c 0) (\<lambda>b. return (TransferList (list_transfers b (w_db w)), w))"
| "handle Custody_create A ns c w = custody_create A ns c w"
| "handle Reports_json A ns c w = and_then (uuid_param A c 0) (\<lambda>b.
      reading Report (buildAuditReport (ae_verifyAnchor A) (w_clock w) b (w_db w)) w)"
| "handle Reports_csv A ns c w = and_then (uuid_param A c 0) (\<lambda>b.
      reading Csv (buildEventCsv (ae_verifyAnchor A) (w_clock w) b (w_db w)) w)"
| "handle Materials_list A ns c w = return (MaterialList (list_materials (ae_collate A) (w_db w)), w)"
| "handle Materials_create A ns c w = materials_create A c w"
| "handle Materials_update A ns c w = materials_patch A c w"
| "handle Materials_remove A ns c w = writing MaterialGone (remove_material (cl_params c ! 0)) w"

section \<open>The life of a request\<close>

text \<open>The guards, in their order; the limiter counts whatever the account guard let through.\<close>

definition guards ::
  "api_env \<Rightarrow> api_route \<Rightarrow> http_request \<Rightarrow> rat \<Rightarrow> db \<Rightarrow> instant \<Rightarrow> buckets \<Rightarrow> JwtPayload option result \<times> buckets" where
  "guards A r q roll s now bs = (case jwt_canActivate (ae_jwtVerify A) (route.truncate r) (hq_authorization q) s of
      Inl e \<Rightarrow> (throw e, bs)
    | Inr user \<Rightarrow> (case rate_canActivate (ar_limit r)
          \<lparr>rq_method = verb_name (hq_verb q), rq_routePath = Some (route_text r),
           rq_path = concat (map (\<lambda>t. ''/'' @ t) (hq_path q)), rq_ip = hq_ip q, rq_remoteAddress = None\<rparr> now roll bs of
        (Inl e, bs') \<Rightarrow> (throw e, bs')
      | (Inr _, bs') \<Rightarrow>
          if ar_worker r then (case worker_canActivate (ae_workerToken A) (hq_workerToken q) of
              Inl e \<Rightarrow> (throw e, bs') | Inr _ \<Rightarrow> (return user, bs'))
          else (return user, bs')))"

definition call_of :: "api_route \<Rightarrow> http_request \<Rightarrow> JwtPayload option \<Rightarrow> call" where
  "call_of r q user = \<lparr>cl_params = path_params (ar_path r) (hq_path q), cl_query = hq_query q,
     cl_body = hq_body q, cl_bytes = hq_bytes q, cl_user = user, cl_ifNoneMatch = hq_ifNoneMatch q\<rparr>"

definition respond ::
  "api_env \<Rightarrow> http_request \<Rightarrow> rat \<Rightarrow> ids \<Rightarrow> world \<times> buckets \<Rightarrow> answer result \<times> world \<times> buckets" where
  "respond A q roll ns st = (case st of (w, bs) \<Rightarrow> (case find_route (hq_verb q) (hq_path q) of
      None \<Rightarrow> (throw (NotFoundException ''Cannot find the route''), w, bs)
    | Some r \<Rightarrow> (case guards A r q roll (w_db w) (w_clock w) bs of
        (Inl e, bs') \<Rightarrow> (throw e, w, bs')
      | (Inr user, bs') \<Rightarrow> (case handle (ar_handler r) A ns (call_of r q user) w of
            Inl e \<Rightarrow> (throw e, w, bs')
          | Inr (a, w') \<Rightarrow> (return a, w', bs')))))"

section \<open>What a handler does to the world\<close>

lemma reading_keeps [dest!]: "reading f r w = Inr (a, w') \<Longrightarrow> w' = w"
  by (auto simp: reading_def split: sum.splits)

lemma writing_eq:
  "writing f opr w = Inr (a, w') \<longleftrightarrow> (\<exists>x s'. opr (w_db w) = Inr (x, s') \<and> a = f x \<and> w' = w\<lparr>w_db := s'\<rparr>)"
  by (auto simp: writing_def split: sum.splits)

lemma same_db [simp]: "w\<lparr>w_db := w_db w\<rparr> = w"
  by simp

lemma serves_run: "service_step D (w_clock w) (w_db w) s' \<Longrightarrow> runs D w (w\<lparr>w_db := s'\<rparr>)"
  by (rule r_into_rtranclp) (rule serves)

text \<open>The handlers that only read.\<close>

lemma readers_keep:
  assumes "handle h A ns c w = Inr (a, w')" and "\<not> writes h"
  shows "w' = w"
  using assms
  by (cases h) (auto simp: writes_def and_then_Inr auth_login_def registry_listDevices_def photos_serve_def
      batches_list_def batches_verify_def Let_def split: option.splits if_splits)

text \<open>New ids: no row of a table, stored or planned, has them.\<close>

definition fresh_ids :: "ids \<Rightarrow> world \<Rightarrow> bool" where
  "fresh_ids ns w = (let s = w_db w; i = id_new ns in
     i \<notin> c_id ` set (collectors s) \<and> i \<notin> d_id ` set (devices s) \<and> i \<notin> h_id ` set (hubs s) \<and> i \<notin> b_id ` set (batches s)
     \<and> i \<notin> u_id ` set (users s) \<and> i \<notin> e_id ` set (events s) \<and> i \<notin> e_id ` set (w_planned w))"

text \<open>A submission that stores a row is the two steps of an ingest, one after the other.\<close>

lemma ingest_runs:
  assumes "ingest (dp_env D) (w_clock w) i p sig (w_db w) = Inr (r, s')"
    and "i \<notin> e_id ` set (events (w_db w))" and "i \<notin> e_id ` set (w_planned w)"
  shows "runs D w (w\<lparr>w_db := s'\<rparr>)"
  using ingest_frame[OF assms(1)]
proof (elim disjE exE conjE)
  assume "s' = w_db w"
  then show ?thesis by simp
next
  fix e
  assume I: "ingest_read (dp_env D) (w_clock w) i p sig (w_db w) = Inr (Insert e)"
    and s': "s' = (w_db w)\<lparr>events := insert_row e (events (w_db w))\<rparr>"
  let ?w = "w\<lparr>w_planned := e # w_planned w\<rparr>"
  have "step D w ?w" by (rule reads[OF I assms(2,3)])
  moreover have "ingest_save e (w_db ?w) = Inr (\<lparr>r_eventId = e_id e, r_payloadHash = e_payloadHash e,
      r_quarantined = e_quarantined e, r_integrity = e_integrity e, r_duplicate = False\<rparr>, s')"
    using ingest_read_Insert(4)[OF I] s' by (simp add: ingest_save_def)
  then have "step D ?w (?w\<lparr>w_db := s', w_planned := [] @ w_planned w\<rparr>)"
    by (intro saves[of ?w "[]" e "w_planned w"]) simp_all
  ultimately show ?thesis by (simp add: rtranclp.rtrancl_into_rtrancl)
qed

text \<open>A handler that writes makes one step of a service.\<close>

definition served :: "deployment \<Rightarrow> world \<Rightarrow> world \<Rightarrow> bool" where
  "served D w w' = (\<exists>s'. w' = w\<lparr>w_db := s'\<rparr> \<and> service_step D (w_clock w) (w_db w) s')"

lemma servedI: "service_step D (w_clock w) (w_db w) s' \<Longrightarrow> served D w (w\<lparr>w_db := s'\<rparr>)"
  by (auto simp: served_def)

lemma writingE:
  assumes "writing f opr w = Inr (a, w')"
  obtains x s' where "opr (w_db w) = Inr (x, s')" "w' = w\<lparr>w_db := s'\<rparr>"
  using assms by (auto simp: writing_eq)

lemma and_thenE:
  assumes "and_then r f = Inr b"
  obtains a where "r = Inr a" "f a = Inr b"
  using assms by (auto simp: and_then_Inr)

lemma null_patch_fails: "and_then r (\<lambda>_. throw e) \<noteq> Inr b"
  by (simp add: and_then_Inr)

lemma registry_served:
  assumes "fresh_ids ns w"
  shows "registry_createCollector A ns c w = Inr (a, w') \<Longrightarrow> served (ae_deployment A) w w'"
    and "registry_enrolDevice A ns c w = Inr (a, w') \<Longrightarrow> served (ae_deployment A) w w'"
    and "registry_revokeDevice A c w = Inr (a, w') \<Longrightarrow> served (ae_deployment A) w w'"
    and "registry_createHub A ns c w = Inr (a, w') \<Longrightarrow> served (ae_deployment A) w w'"
proof -
  note fresh = assms[unfolded fresh_ids_def Let_def]
  show "registry_createCollector A ns c w = Inr (a, w') \<Longrightarrow> served (ae_deployment A) w w'"
    unfolding registry_createCollector_def
    by (elim and_thenE writingE, hypsubst, rule servedI, erule creates_collector) (simp add: fresh)
  show "registry_enrolDevice A ns c w = Inr (a, w') \<Longrightarrow> served (ae_deployment A) w w'"
    unfolding registry_enrolDevice_def
    by (elim and_thenE writingE, hypsubst, rule servedI, erule enrols_device) (simp add: fresh)
  show "registry_revokeDevice A c w = Inr (a, w') \<Longrightarrow> served (ae_deployment A) w w'"
    unfolding registry_revokeDevice_def
    by (elim and_thenE writingE, hypsubst, rule servedI, erule revokes_device)
  show "registry_createHub A ns c w = Inr (a, w') \<Longrightarrow> served (ae_deployment A) w w'"
    unfolding registry_createHub_def
    by (elim and_thenE writingE, hypsubst, rule servedI, erule creates_hub) (simp add: fresh)
qed

lemma users_served:
  assumes "fresh_ids ns w"
  shows "users_create A ns c w = Inr (a, w') \<Longrightarrow> served (ae_deployment A) w w'"
    and "users_patch A c w = Inr (a, w') \<Longrightarrow> served (ae_deployment A) w w'"
    and "users_resetPassword A c w = Inr (a, w') \<Longrightarrow> served (ae_deployment A) w w'"
    and "auth_changePassword A c w = Inr (a, w') \<Longrightarrow> served (ae_deployment A) w w'"
proof -
  note fresh = assms[unfolded fresh_ids_def Let_def]
  show "users_create A ns c w = Inr (a, w') \<Longrightarrow> served (ae_deployment A) w w'"
    unfolding users_create_def
    by (elim and_thenE writingE, hypsubst, rule servedI, erule creates_user) (simp add: fresh)
  show "users_patch A c w = Inr (a, w') \<Longrightarrow> served (ae_deployment A) w w'"
    unfolding users_patch_def
    by (elim and_thenE) (auto split: option.splits if_splits elim!: writingE intro!: servedI updates_user)
  show "users_resetPassword A c w = Inr (a, w') \<Longrightarrow> served (ae_deployment A) w w'"
    unfolding users_resetPassword_def
    by (elim and_thenE writingE, hypsubst, rule servedI, erule resets_password)
  show "auth_changePassword A c w = Inr (a, w') \<Longrightarrow> served (ae_deployment A) w w'"
    unfolding auth_changePassword_def
    by (elim and_thenE) (auto split: option.splits elim!: writingE intro!: servedI changes_password)
qed

lemma batches_served:
  assumes "fresh_ids ns w"
  shows "batches_create A ns c w = Inr (a, w') \<Longrightarrow> served (ae_deployment A) w w'"
    and "batches_addEvents A c w = Inr (a, w') \<Longrightarrow> served (ae_deployment A) w w'"
    and "batches_removeEvent A c w = Inr (a, w') \<Longrightarrow> served (ae_deployment A) w w'"
    and "batches_seal A c w = Inr (a, w') \<Longrightarrow> served (ae_deployment A) w w'"
    and "batches_advance A c w = Inr (a, w') \<Longrightarrow> served (ae_deployment A) w w'"
    and "batches_recordAnchor A ns c w = Inr (a, w') \<Longrightarrow> served (ae_deployment A) w w'"
    and "batches_recordAnchorFailure A ns c w = Inr (a, w') \<Longrightarrow> served (ae_deployment A) w w'"
    and "custody_create A ns c w = Inr (a, w') \<Longrightarrow> served (ae_deployment A) w w'"
proof -
  note fresh = assms[unfolded fresh_ids_def Let_def]
  show "batches_create A ns c w = Inr (a, w') \<Longrightarrow> served (ae_deployment A) w w'"
    unfolding batches_create_def
    by (elim and_thenE writingE, hypsubst, rule servedI, erule creates_batch) (simp add: fresh)
  show "batches_addEvents A c w = Inr (a, w') \<Longrightarrow> served (ae_deployment A) w w'"
    unfolding batches_addEvents_def by (elim and_thenE writingE, hypsubst, rule servedI, erule adds_events)
  show "batches_removeEvent A c w = Inr (a, w') \<Longrightarrow> served (ae_deployment A) w w'"
    unfolding batches_removeEvent_def by (elim and_thenE writingE, hypsubst, rule servedI, erule removes_event)
  show "batches_seal A c w = Inr (a, w') \<Longrightarrow> served (ae_deployment A) w w'"
    unfolding batches_seal_def by (elim and_thenE writingE, hypsubst, rule servedI, erule seals)
  show "batches_advance A c w = Inr (a, w') \<Longrightarrow> served (ae_deployment A) w w'"
    unfolding batches_advance_def
    by (elim and_thenE) (auto split: option.splits elim!: writingE intro!: servedI advances)
  show "batches_recordAnchor A ns c w = Inr (a, w') \<Longrightarrow> served (ae_deployment A) w w'"
    unfolding batches_recordAnchor_def Let_def
    by (elim and_thenE) (auto simp: null_patch_fails split: option.splits if_splits elim!: writingE intro!: servedI records_anchor)
  show "batches_recordAnchorFailure A ns c w = Inr (a, w') \<Longrightarrow> served (ae_deployment A) w w'"
    unfolding batches_recordAnchorFailure_def by (elim and_thenE writingE, hypsubst, rule servedI, erule records_failure)
  show "custody_create A ns c w = Inr (a, w') \<Longrightarrow> served (ae_deployment A) w w'"
    unfolding custody_create_def by (elim and_thenE writingE, hypsubst, rule servedI, erule creates_transfer)
qed

lemma materials_served:
  shows "materials_create A c w = Inr (a, w') \<Longrightarrow> served (ae_deployment A) w w'"
    and "materials_patch A c w = Inr (a, w') \<Longrightarrow> served (ae_deployment A) w w'"
    and "writing g (remove_material i) w = Inr (a, w') \<Longrightarrow> served (ae_deployment A) w w'"
proof -
  show "materials_create A c w = Inr (a, w') \<Longrightarrow> served (ae_deployment A) w w'"
    unfolding materials_create_def
    by (elim and_thenE) (auto simp: null_patch_fails split: if_splits elim!: writingE intro!: servedI creates_material)
  show "materials_patch A c w = Inr (a, w') \<Longrightarrow> served (ae_deployment A) w w'"
    unfolding materials_patch_def Let_def
    by (elim and_thenE) (auto simp: null_patch_fails split: if_splits elim!: writingE intro!: servedI updates_material)
  show "writing g (remove_material i) w = Inr (a, w') \<Longrightarrow> served (ae_deployment A) w w'"
    by (elim writingE, hypsubst, rule servedI, erule removes_material)
qed

lemma writers_run:
  assumes "handle h A ns c w = Inr (a, w')" and "fresh_ids ns w" and "writes h"
    and "h \<noteq> Events_submit" and "h \<noteq> Photos_upload"
  shows "served (ae_deployment A) w w'"
proof -
  note served_by = registry_served[OF assms(2)] users_served[OF assms(2)] batches_served[OF assms(2)] materials_served
  show ?thesis using assms(1,3,4,5) by (cases h) (simp_all add: writes_def, (erule served_by)+)
qed

lemma upload_eq:
  assumes "photos_upload A c w = Inr (a, w')"
  shows "\<exists>i pa s' d'. attach_photo (dp_photoRoot (ae_deployment A)) (dp_photoMaxBytes (ae_deployment A)) i (cl_bytes c)
      (w_db w, w_disk w) = Inr (pa, s', d') \<and> w' = w\<lparr>w_db := s', w_disk := d'\<rparr>"
proof -
  obtain i where "(case attach_photo (dp_photoRoot (ae_deployment A)) (dp_photoMaxBytes (ae_deployment A)) i (cl_bytes c)
      (w_db w, w_disk w) of Inl e \<Rightarrow> throw e | Inr (a, s', d') \<Rightarrow> return (Attached a, w\<lparr>w_db := s', w_disk := d'\<rparr>)) = Inr (a, w')"
    using assms unfolding photos_upload_def by (elim and_thenE)
  then show ?thesis by (intro exI[of _ i]) (auto split: sum.splits)
qed

lemma handle_runs:
  assumes "handle h A ns c w = Inr (a, w')" and "fresh_ids ns w"
  shows "runs (ae_deployment A) w w'"
proof (cases "writes h")
  case False
  then show ?thesis using readers_keep[OF assms(1)] by simp
next
  case True
  consider "h = Events_submit" | "h = Photos_upload" | "h \<noteq> Events_submit" "h \<noteq> Photos_upload" by blast
  then show ?thesis
  proof cases
    case 1
    then obtain r s' where "submit (ae_accepts A) (dp_env (ae_deployment A)) (w_clock w) (id_new ns) (cl_body c) (w_db w) = Inr (r, s')"
        and w': "w' = w\<lparr>w_db := s'\<rparr>"
      using assms(1) by (auto simp: events_submit_def writing_eq)
    then obtain p sig where "ingest (dp_env (ae_deployment A)) (w_clock w) (id_new ns) p sig (w_db w) = Inr (r, s')"
      using submit_Inr by blast
    moreover have "id_new ns \<notin> e_id ` set (events (w_db w))" "id_new ns \<notin> e_id ` set (w_planned w)"
      using assms(2) by (simp_all add: fresh_ids_def Let_def)
    ultimately show ?thesis unfolding w' by (rule ingest_runs)
  next
    case 2
    then show ?thesis
      using assms(1) by (auto dest!: upload_eq intro!: r_into_rtranclp attaches)
  next
    case 3
    then show ?thesis using writers_run[OF assms True] serves_run by (auto simp: served_def)
  qed
qed

section \<open>What a request does\<close>

text \<open>A request either changes nothing, or passed the guards of its route and was handled.\<close>

lemma respond_cases:
  assumes "respond A q roll ns (w, bs) = (r, w', bs')"
  obtains (nothing) "w' = w"
  | (handled) rt user a bs1 where "find_route (hq_verb q) (hq_path q) = Some rt"
      "guards A rt q roll (w_db w) (w_clock w) bs = (Inr user, bs1)"
      "handle (ar_handler rt) A ns (call_of rt q user) w = Inr (a, w')" "r = Inr a"
  using assms by (auto simp: respond_def split: option.splits prod.splits sum.splits)

lemma respond_error: "respond A q roll ns (w, bs) = (Inl e, w', bs') \<Longrightarrow> w' = w"
  by (auto simp: respond_def split: option.splits prod.splits sum.splits)

text \<open>Who a bearer token stands for, by the database.\<close>

definition signed_in :: "api_env \<Rightarrow> http_request \<Rightarrow> world \<Rightarrow> UserEntity \<Rightarrow> bool" where
  "signed_in A q w u = (\<exists>header claims. hq_authorization q = Some header \<and> starts_with ''Bearer '' header
     \<and> ae_jwtVerify A (drop 7 header) = Some claims \<and> get_by u_id (jwt_sub claims) (users (w_db w)) = Some u \<and> u_active u)"

lemma guarded_account:
  assumes "guards A rt q roll (w_db w) now bs = (Inr user, bs')" and "\<not> rt_isPublic rt"
  obtains u where "signed_in A q w u" "rt_roles rt = [] \<or> u_role u \<in> set (rt_roles rt)"
    "user = Some \<lparr>jwt_sub = u_id u, jwt_email = u_email u, jwt_role = u_role u\<rparr>"
proof -
  have "jwt_canActivate (ae_jwtVerify A) (route.truncate rt) (hq_authorization q) (w_db w) = Inr user"
    using assms(1) by (auto simp: guards_def split: sum.splits prod.splits if_splits)
  then show ?thesis
    using assms(2) that by (auto simp: jwt_canActivate_def route.truncate_def signed_in_def split: option.splits if_splits)
qed

lemma guarded_worker:
  assumes "guards A rt q roll s now bs = (Inr user, bs')" and "ar_worker rt"
  shows "hq_workerToken q = Some (ae_workerToken A)"
proof -
  have "\<exists>b. worker_canActivate (ae_workerToken A) (hq_workerToken q) = Inr b"
    using assms by (auto simp: guards_def split: sum.splits prod.splits if_splits)
  then show ?thesis
    by (auto simp: worker_canActivate_def matchesToken_def Let_def split: option.splits if_splits)
qed

text \<open>What an anonymous submission or upload may do.\<close>

definition adds_weigh_in :: "api_env \<Rightarrow> world \<Rightarrow> world \<Rightarrow> bool" where
  "adds_weigh_in A w w' = (\<exists>e. w' = w\<lparr>w_db := (w_db w)\<lparr>events := insert_row e (events (w_db w))\<rparr>\<rparr>
     \<and> genuine (dp_env (ae_deployment A)) (w_db w) e)"

definition adds_photo :: "http_request \<Rightarrow> world \<Rightarrow> world \<Rightarrow> bool" where
  "adds_photo q w w' = (\<exists>e u d'. get_by e_id (e_id e) (events (w_db w)) = Some e \<and> sha256Hex (hq_bytes q) = e_photoHash e
     \<and> w' = w\<lparr>w_db := (w_db w)\<lparr>events := patch_by e_id (e_id e) (\<lambda>e. e\<lparr>e_photoUri := Some u\<rparr>) (events (w_db w))\<rparr>, w_disk := d'\<rparr>)"

lemma submit_adds:
  assumes "events_submit A ns c w = Inr (a, w')" and "w' \<noteq> w"
  shows "adds_weigh_in A w w'"
proof -
  obtain r s' where s: "submit (ae_accepts A) (dp_env (ae_deployment A)) (w_clock w) (id_new ns) (cl_body c) (w_db w) = Inr (r, s')"
      and w': "w' = w\<lparr>w_db := s'\<rparr>"
    using assms(1) unfolding events_submit_def by (elim writingE)
  obtain p sig where "ingest (dp_env (ae_deployment A)) (w_clock w) (id_new ns) p sig (w_db w) = Inr (r, s')"
    using submit_Inr[OF s] by blast
  moreover have "s' \<noteq> w_db w" using assms(2) w' by auto
  ultimately obtain e where "ingest_read (dp_env (ae_deployment A)) (w_clock w) (id_new ns) p sig (w_db w) = Inr (Insert e)"
      "s' = (w_db w)\<lparr>events := insert_row e (events (w_db w))\<rparr>"
    using ingest_frame by blast
  then show ?thesis using planned_genuine(1) w' by (auto simp: adds_weigh_in_def)
qed

lemma upload_adds:
  assumes "photos_upload A (call_of rt q user) w = Inr (a, w')"
  shows "adds_photo q w w'"
proof -
  obtain i pa s' d' where a: "attach_photo (dp_photoRoot (ae_deployment A)) (dp_photoMaxBytes (ae_deployment A)) i (hq_bytes q)
      (w_db w, w_disk w) = Inr (pa, s', d')" and w': "w' = w\<lparr>w_db := s', w_disk := d'\<rparr>"
    using upload_eq[OF assms] by (auto simp: call_of_def)
  obtain e u where e: "get_by e_id i (events (w_db w)) = Some e" "sha256Hex (hq_bytes q) = e_photoHash e"
      "s' = (w_db w)\<lparr>events := patch_by e_id i (\<lambda>e. e\<lparr>e_photoUri := Some u\<rparr>) (events (w_db w))\<rparr>"
    using a by (auto simp: attach_photo_def Let_def split: if_splits option.splits prod.splits)
  have "e_id e = i" using e(1) by (auto dest: get_by_SomeD)
  then show ?thesis using e w' unfolding adds_photo_def by blast
qed

lemma password_changes:
  assumes "auth_changePassword A c w = Inr (a, w')" and "cl_user c = Some p"
    and "get_by u_id (jwt_sub p) (users (w_db w)) = Some u"
  shows "\<exists>h pw. password_ok (dp_verifyPassword (ae_deployment A)) (u_passwordHash u) pw
    \<and> w' = w\<lparr>w_db := (w_db w)\<lparr>users := patch_by u_id (u_id u) (\<lambda>_. u\<lparr>u_passwordHash := h\<rparr>) (users (w_db w))\<rparr>\<rparr>"
proof -
  have "u_id u = jwt_sub p" using assms(3) by (auto dest: get_by_SomeD)
  then show ?thesis
    using assms unfolding auth_changePassword_def
    by (elim and_thenE) (auto simp: changeOwnPassword_def Let_def split: if_splits elim!: writingE)
qed

section \<open>A deployment to instantiate the statements with\<close>

definition run_admin :: UserEntity where
  "run_admin = \<lparr>u_id = ''u'', u_email = ''a@b.c'', u_passwordHash = ''secret'', u_role = admin, u_active = True, u_createdAt = 0\<rparr>"

definition run_api :: api_env where
  "run_api = \<lparr>ae_deployment = run_deployment, ae_accepts = sample_accepts, ae_isUuid = (\<lambda>_. True), ae_uuidText = (\<lambda>_. True),
     ae_collate = (\<lambda>_ _. 0), ae_jwtVerify = (\<lambda>t. if t = ''t'' then Some \<lparr>jwt_sub = ''u'', jwt_email = '''', jwt_role = auditor\<rparr> else None),
     ae_signJwt = jwt_sub, ae_verifyAnchor = (\<lambda>_. throw (PlainError '''')), ae_workerToken = ''w'', ae_production = True,
     ae_databaseUp = True\<rparr>"

definition run_ids :: ids where
  "run_ids = \<lparr>id_new = ''e'', id_attempt = ''x''\<rparr>"

definition request_to :: "verb \<Rightarrow> string list \<Rightarrow> json \<Rightarrow> string option \<Rightarrow> http_request" where
  "request_to v path body auth = \<lparr>hq_verb = v, hq_path = path, hq_query = JObj [], hq_body = body, hq_bytes = [],
     hq_authorization = auth, hq_workerToken = None, hq_ifNoneMatch = None, hq_ip = Some ''1''\<rparr>"

definition hub_request :: http_request where
  "hub_request = request_to POST [''hubs''] (JObj [(''code'', JStr ''H''), (''name'', JStr ''Hub'')]) (Some ''Bearer t'')"

definition admin_world :: world where
  "admin_world = first_world\<lparr>w_db := empty_db\<lparr>users := [run_admin]\<rparr>\<rparr>"

lemma hub_route: "find_route POST [''hubs''] = Some (admins POST [Lit ''hubs''] Registry_createHub)"
  by (simp add: find_route_def find_one_def ROUTES_def root_routes_def auth_routes_def health_routes_def users_routes_def
      registry_routes_def events_routes_def photos_routes_def batches_routes_def custody_routes_def reports_routes_def
      materials_routes_def route_defs)

lemma hub_responds:
  "\<exists>h. respond run_api hub_request 1 run_ids (admin_world, []) = (Inr (AHub h), admin_world\<lparr>w_db := (w_db admin_world)\<lparr>hubs := [h]\<rparr>\<rparr>, [])"
proof -
  note route = hub_route
  have guard: "guards run_api (admins POST [Lit ''hubs''] Registry_createHub) hub_request 1 (w_db admin_world) 0 []
      = (Inr (Some \<lparr>jwt_sub = ''u'', jwt_email = ''a@b.c'', jwt_role = admin\<rparr>), [])"
    by (simp add: guards_def hub_request_def request_to_def jwt_canActivate_def route_defs route.truncate_def starts_with_def
        run_api_def admin_world_def first_world_def get_by_def run_admin_def rate_canActivate_def)
  have "\<exists>get. body_as run_api c CreateHubDto_fields = Inr get" if "cl_body c = hq_body hub_request" for c
    using that by (simp add: body_as_def hub_request_def request_to_def validate_dto_def CreateHubDto_fields_def field_ok_def
        field_value_def with_default_def run_api_def nullish_def)
  then obtain get where "body_as run_api (call_of (admins POST [Lit ''hubs''] Registry_createHub) hub_request
      (Some \<lparr>jwt_sub = ''u'', jwt_email = ''a@b.c'', jwt_role = admin\<rparr>)) CreateHubDto_fields = Inr get"
    by (fastforce simp: call_of_def)
  moreover have "hq_verb hub_request = POST" "hq_path hub_request = [''hubs'']" "w_clock admin_world = 0"
    "ar_handler (admins POST [Lit ''hubs''] Registry_createHub) = Registry_createHub"
    "hubs (w_db admin_world) = []"
    by (simp_all add: hub_request_def request_to_def admin_world_def first_world_def route_defs empty_db_def)
  ultimately show ?thesis
    using route guard
    by (simp add: respond_def registry_createHub_def and_then_def writing_def createHub_def Let_def get_by_def insert_row_def)
qed

lemma run_ids_fresh: "fresh_ids run_ids admin_world"
  by (simp add: fresh_ids_def run_ids_def admin_world_def first_world_def empty_db_def run_admin_def)

lemma admin_world_ok: "world_ok run_deployment admin_world"
proof -
  have "create_user (dp_hashPassword run_deployment) (w_clock first_world) ''u''
      \<lparr>cu_email = ''a@b.c'', cu_password = ''secret'', cu_role = admin\<rparr> (w_db first_world)
    = Inr (toUserView run_admin, empty_db\<lparr>users := [run_admin]\<rparr>)"
    by (simp add: create_user_def run_deployment_def first_world_def empty_db_def run_admin_def get_by_def insert_row_def
        js_trim_def trim_start_def trim_end_def is_space_def js_lower_def lower_char_def Let_def)
  then have "service_step run_deployment (w_clock first_world) (w_db first_world) (empty_db\<lparr>users := [run_admin]\<rparr>)"
    by (rule creates_user) (simp add: first_world_def empty_db_def)
  then have "runs run_deployment first_world admin_world" unfolding admin_world_def by (rule serves_run)
  then show ?thesis using runs_keep first_world_ok by blast
qed

text \<open>The body of a submission.\<close>

definition sample_body :: json where
  "sample_body = JObj [(''payload'', JObj
      [(''schema'', JStr ''proofchain.weighin.v2''), (''collectorId'', JStr ''c''), (''hubId'', JStr ''h''),
       (''deviceId'', JStr ''d''), (''weightKg'', JNum (gram 12345)), (''material'', JStr ''PET''),
       (''capturedAt'', JStr ''2026-01-02T03:04:05.000Z''), (''photoHash'', JStr (sha256Hex [])),
       (''nonce'', JStr ''0123456789abcdef'')]), (''signature'', JStr ''s'')]"

lemma sample_body_valid:
  "\<exists>payload. validate_submission sample_accepts sample_body = Inr (payload, ''s'')
    \<and> (\<exists>kvs. payload = JObj kvs \<and> payload_of payload = sample_payload ''0123456789abcdef'' 12345)"
proof -
  have m: "isMaterialCode ''PET''" by (simp add: isMaterialCode_def is_upper_def is_digit_def code_char_def)
  obtain x where x: "gram 12345 = Fin x" "\<bar>x - of_nat 12345 / 1000\<bar> \<le> 1 / 1000000"
    using gram_close[of 12345] by auto
  have "\<not> js_lt (gram 12345) (gram 1)" by (subst gram_less_iff; simp)
  moreover have "x < 100000" using x(2) by (simp add: abs_if split: if_splits)
  ultimately have r: "js_le (gram 1) (gram 12345)" "js_le (gram 12345) (Fin 100000)" and w: "is_finite (gram 12345)"
    using x(1) is_weight_finite[OF gram_weight, of 1] by (auto simp: js_le_def elim: is_nan.elims)
  have h: "SHA256_HEX (sha256Hex [])" by (simp add: SHA256_HEX_def)
  show ?thesis
    using m w r h
    by (simp add: validate_submission_def validate_dto_def SubmitWeighInDto_def field_ok_def field_value_def with_default_def
        nullish_def sample_body_def nested_ok_def WeighInPayloadDto_def MaterialCode_def text_of_def payload_of_def
        jfield_def number_of_def sample_payload_def)
qed

lemma sample_submits:
  "\<exists>r e. submit sample_accepts (dp_env run_deployment) 0 ''e'' sample_body registered_db = Inr (r, registered_db\<lparr>events := [e]\<rparr>)
    \<and> e_id e = ''e''"
proof -
  let ?p = "sample_payload ''0123456789abcdef'' 12345"
  have h: "eventPayloadHash ?p = Inr (sha256Hex (utf8 (canonical_text ?p)))"
    by (rule payload_hash_total) (simp add: sample_payload_def gram_weight)
  obtain e where e: "ingest_read (dp_env run_deployment) 0 ''e'' ?p ''s'' registered_db = Inr (Insert e)"
    using h by (simp add: ingest_read_def assertKnown_def exists_where_def registered_db_def empty_db_def run_material_def
        run_device_def run_collector_def run_hub_def sample_payload_def get_by_def Let_def) (simp add: run_deployment_def)
  have i: "e_id e = ''e''" by (subst ingest_read_Insert(9)[OF e]) simp
  obtain payload kvs where "validate_submission sample_accepts sample_body = Inr (payload, ''s'')" "payload = JObj kvs"
      "payload_of payload = ?p"
    using sample_body_valid by blast
  then show ?thesis
    using e i by (simp add: submit_def ingest_def ingest_finish_def ingest_save_def registered_db_def empty_db_def get_by_def insert_row_def)
qed

section \<open>Properties\<close>

text \<open>C7. The HTTP interface implements the state machine: whatever a request carries, its effect is a
  run of the machine's steps, a request that is answered with an error changes nothing, and the
  invariant of all tables and of the photo directory is kept.\<close>

theorem respond_refines_machine:
  assumes "respond A q roll ns (w, bs) = (r, w', bs')" and "fresh_ids ns w" and "world_ok (ae_deployment A) w"
  shows "runs (ae_deployment A) w w' \<and> world_ok (ae_deployment A) w' \<and> (isl r \<longrightarrow> w' = w)"
proof (intro conjI impI)
  show run: "runs (ae_deployment A) w w'"
    by (rule respond_cases[OF assms(1)]) (auto intro: handle_runs[OF _ assms(2)])
  show "world_ok (ae_deployment A) w'" by (rule runs_keep[OF run assms(3)])
  show "isl r \<Longrightarrow> w' = w" using assms(1) by (auto simp: isl_def dest: respond_error)
qed

theorem respond_refines_machine_witness:
  "\<exists>h. runs run_deployment admin_world (admin_world\<lparr>w_db := (w_db admin_world)\<lparr>hubs := [h]\<rparr>\<rparr>)
    \<and> world_ok run_deployment (admin_world\<lparr>w_db := (w_db admin_world)\<lparr>hubs := [h]\<rparr>\<rparr>)"
proof -
  obtain h where "respond run_api hub_request 1 run_ids (admin_world, [])
      = (Inr (AHub h), admin_world\<lparr>w_db := (w_db admin_world)\<lparr>hubs := [h]\<rparr>\<rparr>, [])"
    using hub_responds by blast
  from respond_refines_machine[OF this run_ids_fresh] admin_world_ok show ?thesis
    by (auto simp: run_api_def)
qed

text \<open>C6. Only an authorised request changes the state.  If a request changed anything, then it was made
  by an active administrator; or by an active operator, on a route that is not an administrator's;
  or with the anchor worker's token, to report an anchor or a failure; or by an active account that
  proved its password, whose password hash alone changed; or it submitted a weigh-in, and
  one row was added that is quarantined or carries the verified signature of an enrolled device; or
  it uploaded the photo whose hash the device had signed, and nothing but that was noted.\<close>

theorem changes_are_authorised:
  assumes "respond A q roll ns (w, bs) = (r, w', bs')" and "w' \<noteq> w"
  shows "\<exists>rt. find_route (hq_verb q) (hq_path q) = Some rt \<and>
    ((\<exists>u. signed_in A q w u \<and> (u_role u = admin \<or> u_role u = operator \<and> \<not> admin_only (ar_handler rt)))
     \<or> (ar_handler rt \<in> {Batches_recordAnchor, Batches_recordAnchorFailure} \<and> hq_workerToken q = Some (ae_workerToken A))
     \<or> (\<exists>u h pw. signed_in A q w u \<and> password_ok (dp_verifyPassword (ae_deployment A)) (u_passwordHash u) pw
          \<and> w' = w\<lparr>w_db := (w_db w)\<lparr>users := patch_by u_id (u_id u) (\<lambda>_. u\<lparr>u_passwordHash := h\<rparr>) (users (w_db w))\<rparr>\<rparr>)
     \<or> (ar_handler rt = Events_submit \<and> adds_weigh_in A w w')
     \<or> (ar_handler rt = Photos_upload \<and> adds_photo q w w'))"
proof (rule respond_cases[OF assms(1)])
  assume "w' = w" with assms(2) show ?thesis by simp
next
  fix rt user a bs1
  assume rt: "find_route (hq_verb q) (hq_path q) = Some rt"
    and g: "guards A rt q roll (w_db w) (w_clock w) bs = (Inr user, bs1)"
    and h: "handle (ar_handler rt) A ns (call_of rt q user) w = Inr (a, w')"
  have "rt \<in> set ROUTES" using find_route_in[OF rt] by simp
  moreover have "writes (ar_handler rt)" using readers_keep[OF h] assms(2) by blast
  ultimately consider
      (worker) "ar_worker rt" "ar_handler rt \<in> {Batches_recordAnchor, Batches_recordAnchorFailure}"
    | (device) "ar_handler rt \<in> {Events_submit, Photos_upload}"
    | (staff) "\<not> rt_isPublic rt"
        "rt_roles rt = [admin] \<and> admin_only (ar_handler rt) \<or> rt_roles rt = [admin, operator] \<and> \<not> admin_only (ar_handler rt)"
    | (own) "\<not> rt_isPublic rt" "ar_handler rt = Auth_changePassword"
    using writing_routes by blast
  then show ?thesis
  proof cases
    case worker
    then show ?thesis using rt guarded_worker[OF g] by blast
  next
    case device
    then show ?thesis using rt h submit_adds[OF _ assms(2)] upload_adds by auto
  next
    case staff
    then show ?thesis using rt by (elim guarded_account[OF g]) auto
  next
    case own
    then obtain u where u: "signed_in A q w u" "user = Some \<lparr>jwt_sub = u_id u, jwt_email = u_email u, jwt_role = u_role u\<rparr>"
      by (elim guarded_account[OF g])
    have "get_by u_id (u_id u) (users (w_db w)) = Some u"
      using u(1) get_by_SomeD by (fastforce simp: signed_in_def)
    then show ?thesis
      using rt u h own(2) password_changes[of A "call_of rt q user" w a w' "\<lparr>jwt_sub = u_id u, jwt_email = u_email u, jwt_role = u_role u\<rparr>" u]
      by (auto simp: call_of_def)
  qed
qed

theorem changes_are_authorised_witness:
  "\<exists>u. signed_in run_api hub_request admin_world u \<and> u_role u = admin"
proof -
  obtain h where r: "respond run_api hub_request 1 run_ids (admin_world, [])
      = (Inr (AHub h), admin_world\<lparr>w_db := (w_db admin_world)\<lparr>hubs := [h]\<rparr>\<rparr>, [])"
    using hub_responds by blast
  have hubs: "hubs (w_db admin_world) = []" by (simp add: admin_world_def first_world_def empty_db_def)
  then have "admin_world\<lparr>w_db := (w_db admin_world)\<lparr>hubs := [h]\<rparr>\<rparr> \<noteq> admin_world"
    by (metis list.distinct(1) db.select_convs(1) db.surjective db.update_convs(1) world.select_convs(1) world.surjective world.update_convs(1))
  from changes_are_authorised[OF r this] obtain rt where rt: "find_route (hq_verb hub_request) (hq_path hub_request) = Some rt"
    and cases: "(\<exists>u. signed_in run_api hub_request admin_world u \<and> (u_role u = admin \<or> u_role u = operator \<and> \<not> admin_only (ar_handler rt)))
     \<or> (ar_handler rt \<in> {Batches_recordAnchor, Batches_recordAnchorFailure})
     \<or> (\<exists>us. hubs ((w_db admin_world)\<lparr>hubs := [h]\<rparr>) = hubs ((w_db admin_world)\<lparr>users := us\<rparr>))
     \<or> ar_handler rt = Events_submit \<or> ar_handler rt = Photos_upload"
    by (auto dest!: arg_cong[of _ _ "\<lambda>w. hubs (w_db w)"])
  from rt have "ar_handler rt = Registry_createHub"
    using hub_route by (auto simp: hub_request_def request_to_def route_defs)
  then show ?thesis using cases hubs by (auto simp: admin_only_def)
qed

text \<open>C26. What validation lets through is what the rest of the program relies on: a row that a submission
  stores has a well-formed material code, a photo hash and a payload hash of 64 hexadecimal digits, a
  nonce of 16 to 64 characters and a weight from one gram to a hundred tonnes.\<close>

theorem stored_weigh_in_is_well_formed:
  assumes "documented accepts" and "submit accepts env now i body s = Inr (r, s')"
    and "e \<in> set (events s')" and "e \<notin> set (events s)"
  shows "isMaterialCode (e_material e) \<and> is_hash64 (e_photoHash e) \<and> is_hash64 (e_payloadHash e)
    \<and> 16 \<le> length (e_nonce e) \<and> length (e_nonce e) \<le> 64 \<and> js_le (gram 1) (e_weightKg e) \<and> js_le (e_weightKg e) (Fin 100000)
    \<and> 0 < length (e_signature e) \<and> length (e_signature e) \<le> 200"
proof -
  obtain kvs sig where v: "validate_submission accepts body = Inr (JObj kvs, sig)"
      and ing: "ingest env now i (payload_of (JObj kvs)) sig s = Inr (r, s')"
    using submit_Inr[OF assms(2)] by blast
  obtain e' where I: "ingest_read env now i (payload_of (JObj kvs)) sig s = Inr (Insert e')" and "s' = s\<lparr>events := insert_row e' (events s)\<rparr>"
    using ingest_frame[OF ing] assms(3,4) by blast
  then have e: "e' = e" using assms(3,4) by (auto simp: insert_row_def)
  note R = ingest_read_Insert[OF I[unfolded e]]
  have row: "e_material e = p_material (payload_of (JObj kvs))" "e_photoHash e = p_photoHash (payload_of (JObj kvs))"
    "e_nonce e = p_nonce (payload_of (JObj kvs))" "e_weightKg e = p_weightKg (payload_of (JObj kvs))" "e_signature e = sig"
    by (subst R(9), simp)+
  obtain get where "validate_dto accepts WeighInPayloadDto (JObj kvs) = Inr get"
    using submission_parts(3)[OF assms(1) v] by (auto simp: nested_ok_def isl_def split: sum.splits)
      (metis sum.exhaust_sel)
  then have "well_formed_weigh_in (payload_of (JObj kvs))" by (rule validated_weigh_in[OF assms(1)])
  then show ?thesis
    using submission_parts(1,2)[OF assms(1) v] row eventPayloadHash_hash64[OF R(3)] by (simp add: well_formed_weigh_in_def)
qed

theorem stored_weigh_in_is_well_formed_witness:
  "\<exists>r s' e. submit sample_accepts (dp_env run_deployment) 0 ''e'' sample_body registered_db = Inr (r, s')
    \<and> e \<in> set (events s') \<and> isMaterialCode (e_material e) \<and> is_hash64 (e_photoHash e)"
proof -
  obtain r e where "submit sample_accepts (dp_env run_deployment) 0 ''e'' sample_body registered_db
      = Inr (r, registered_db\<lparr>events := [e]\<rparr>)"
    using sample_submits by blast
  then show ?thesis
    using stored_weigh_in_is_well_formed[OF sample_accepts_documented, of "dp_env run_deployment" 0 "''e''" sample_body registered_db r
        "registered_db\<lparr>events := [e]\<rparr>" e]
    by (auto simp: registered_db_def empty_db_def)
qed

end
