(* ===== verification/IntegrityCopy.thy ===== *)
theory IntegrityCopy
  imports Integrity
begin

text \<open>
  \<open>packages/shared/src/integrity-copy.ts\<close>: what a collector is told about a refused
  weigh-in, and the check of the weight that a device makes before it signs.  The text of
  the messages is kept, the em dash spelled as two hyphens and the apostrophe as in the source.
\<close>

section \<open>Findings in words\<close>

text \<open>A finding as it comes over the wire: the name of a check may be one this build does not know.\<close>

record wire_finding =
  wf_check :: string
  wf_outcome :: string
  wf_detail :: "string option"

definition apostrophe :: string where "apostrophe = [CHR 0x27]"

fun COLLECTOR_COPY :: "IntegrityCheck \<Rightarrow> string" where
  "COLLECTOR_COPY signature_valid = ''This phone'' @ apostrophe
     @ ''s signing key was not accepted. Ask an operator to re-enrol it -- weigh-ins captured until then will not count.''"
| "COLLECTOR_COPY device_enrolled =
     ''This phone is not enrolled to capture for this collector. Ask an operator to enrol it again.''"
| "COLLECTOR_COPY weight_in_range =
     ''The weight is outside what this hub accepts. Re-weigh the material and capture it again.''"
| "COLLECTOR_COPY not_duplicate = ''This weigh-in was already recorded, so it was not counted twice.''"
| "COLLECTOR_COPY clock_plausible = ''This phone'' @ apostrophe @ ''s date and time are wrong. Correct them in the phone''
     @ apostrophe @ ''s settings, then capture this weigh-in again.''"
| "COLLECTOR_COPY photo_present = ''The photo did not record properly. Capture this weigh-in again with a new photo.''"

definition known_check :: "string \<Rightarrow> IntegrityCheck option" where
  "known_check c = find_one (\<lambda>k. check_name k = c) INTEGRITY_CHECKS"

text \<open>An empty detail counts as none.\<close>

definition given :: "string option \<Rightarrow> string option" where
  "given d = (if d = Some '''' then None else d)"

definition describeFinding :: "wire_finding \<Rightarrow> string" where
  "describeFinding f = (case known_check (wf_check f) of
      Some k \<Rightarrow> COLLECTOR_COPY k
    | None \<Rightarrow> (case given (wf_detail f) of
        Some d \<Rightarrow> ''This weigh-in was refused: '' @ d
      | None \<Rightarrow> ''This weigh-in was refused by the server.''))"

text \<open>A \<open>Set\<close> keeps the first of equal messages, in order.\<close>

definition set_values :: "'a list \<Rightarrow> 'a list" where
  "set_values xs = foldl (\<lambda>acc x. if x \<in> set acc then acc else acc @ [x]) [] xs"

definition describeFailures :: "wire_finding list \<Rightarrow> string" where
  "describeFailures fs = join_with '' '' (set_values (map describeFinding (filter (\<lambda>f. wf_outcome f = ''fail'') fs)))"

definition technicalSummary :: "wire_finding list \<Rightarrow> string" where
  "technicalSummary fs = join_with ''; ''
     (map (\<lambda>f. wf_check f @ (case given (wf_detail f) of Some d \<Rightarrow> '': '' @ d | None \<Rightarrow> ''''))
       (filter (\<lambda>f. wf_outcome f = ''fail'') fs))"

text \<open>The findings of a verdict as the server sends them.\<close>

definition to_wire :: "IntegrityFinding \<Rightarrow> wire_finding" where
  "to_wire f = \<lparr>wf_check = check_name (f_check f), wf_outcome = outcome_name (f_outcome f), wf_detail = f_detail f\<rparr>"

section \<open>Weights\<close>

record HubWeightBounds =
  minKg :: "jsnum option"
  maxKg :: "jsnum option"

text \<open>\<open>whole.replace(/\B(?=(\d{3})+(?!\d))/g, ",")\<close> on digits with an optional sign: a comma where a
  multiple of three digits is left and a digit is before (more than one digit never precedes an exponent).\<close>

fun group_digits :: "string \<Rightarrow> string" where
  "group_digits [] = []"
| "group_digits [c] = [c]"
| "group_digits (c # d # cs) =
    (if is_digit c \<and> list_all is_digit (d # cs) \<and> length (d # cs) mod 3 = 0
     then c # CHR '','' # group_digits (d # cs) else c # group_digits (d # cs))"

definition formatKg :: "jsnum \<Rightarrow> string" where
  "formatKg value = (let fixed = num_to_string (js_quantise 3 value) in
     (case split_on (\<lambda>c. c = CHR ''.'') fixed of
        whole # fraction # _ \<Rightarrow> (if fraction = '''' then group_digits whole else group_digits whole @ ''.'' @ fraction)
      | [whole] \<Rightarrow> group_digits whole
      | [] \<Rightarrow> ''''))"

definition weightProblem :: "jsnum \<Rightarrow> HubWeightBounds \<Rightarrow> string option" where
  "weightProblem weightKg bounds =
    (if \<not> is_finite weightKg \<or> js_le weightKg (Fin 0) then None
     else if (case maxKg bounds of None \<Rightarrow> False | Some m \<Rightarrow> js_gt weightKg m)
     then Some (''Too heavy for this hub -- the limit is '' @ formatKg (with_default (maxKg bounds) NaN)
       @ '' kg for one weigh-in. Split the load and weigh it in parts.'')
     else if (case minKg bounds of None \<Rightarrow> False | Some m \<Rightarrow> js_lt weightKg m)
     then Some (''Too light for this hub -- the minimum is '' @ formatKg (with_default (minKg bounds) NaN)
       @ '' kg for one weigh-in.'')
     else None)"

section \<open>What they say\<close>

lemma known_check_name [simp]: "known_check (check_name k) = Some k"
  by (cases k) (simp_all add: known_check_def find_one_def INTEGRITY_CHECKS_def)

lemma known_check_Some: "known_check c = Some k \<Longrightarrow> check_name k = c"
  by (auto simp: known_check_def find_one_def find_Some_iff)

lemma set_values_loop:
  "distinct acc \<Longrightarrow> distinct (foldl (\<lambda>acc x. if x \<in> set acc then acc else acc @ [x]) acc xs)
    \<and> set (foldl (\<lambda>acc x. if x \<in> set acc then acc else acc @ [x]) acc xs) = set acc \<union> set xs"
  by (induction xs arbitrary: acc) auto

lemma set_values [simp]: "distinct (set_values xs)" "set (set_values xs) = set xs"
  using set_values_loop[of "[]" xs] by (simp_all add: set_values_def)

lemma describe_wire [simp]: "describeFinding (to_wire f) = COLLECTOR_COPY (f_check f)"
  by (simp add: describeFinding_def to_wire_def)

lemma fail_name [simp]: "outcome_name r = ''fail'' \<longleftrightarrow> r = fail"
  by (cases r) simp_all

lemma copy_nonempty [simp]: "COLLECTOR_COPY k \<noteq> ''''"
  by (cases k) simp_all

lemmas copy_nonempty' [simp] = copy_nonempty[symmetric]

lemma join_with_empty: "'''' \<notin> set xs \<Longrightarrow> join_with sep xs = '''' \<longleftrightarrow> xs = []"
  by (induction sep xs rule: join_with.induct) auto

text \<open>A collector is told something exactly when a check failed.\<close>

lemma describeFailures_empty:
  "describeFailures (map to_wire fs) = '''' \<longleftrightarrow> (\<forall>f \<in> set fs. f_outcome f \<noteq> fail)"
proof -
  let ?ms = "map describeFinding (filter (\<lambda>f. wf_outcome f = ''fail'') (map to_wire fs))"
  have "?ms = map (\<lambda>f. COLLECTOR_COPY (f_check f)) (filter (\<lambda>f. f_outcome f = fail) fs)"
    by (induction fs) (simp_all, simp add: to_wire_def)
  then have ms: "set ?ms = (\<lambda>f. COLLECTOR_COPY (f_check f)) ` {f \<in> set fs. f_outcome f = fail}"
    by simp
  then have "'''' \<notin> set (set_values ?ms)" by auto
  then have "describeFailures (map to_wire fs) = '''' \<longleftrightarrow> set_values ?ms = []"
    unfolding describeFailures_def by (rule join_with_empty)
  also have "\<dots> \<longleftrightarrow> set ?ms = {}" by (metis set_empty set_values(2))
  also have "\<dots> \<longleftrightarrow> (\<forall>f \<in> set fs. f_outcome f \<noteq> fail)" unfolding ms by auto
  finally show ?thesis .
qed

section \<open>Properties\<close>

text \<open>C29. The check a device makes before signing is the server's: for a positive finite weight and a
  device that knows its hub's bounds, the device raises a problem exactly when the server's range check
  fails, and a device that lacks a bound never refuses what the server accepts.\<close>

theorem device_check_agrees_with_server:
  assumes "is_finite (p_weightKg p)" and "js_gt (p_weightKg p) (Fin 0)" and "x_hub ctx = Some (h, lo, hi)"
  shows "(weightProblem (p_weightKg p) \<lparr>minKg = Some lo, maxKg = Some hi\<rparr> = None) = (f_outcome (checkWeightRange p ctx) = pass)
    \<and> (f_outcome (checkWeightRange p ctx) = pass \<longrightarrow> (\<forall>lo' \<in> {None, Some lo}. \<forall>hi' \<in> {None, Some hi}.
         weightProblem (p_weightKg p) \<lparr>minKg = lo', maxKg = hi'\<rparr> = None))"
proof -
  have pos: "\<not> js_le (p_weightKg p) (Fin 0)" using assms(2) by (simp add: js_le_def js_gt_def)
  have "f_outcome (checkWeightRange p ctx) = (if js_lt (p_weightKg p) lo \<or> js_gt (p_weightKg p) hi then fail else pass)"
    using assms(1,3) pos by (simp add: checkWeightRange_def finding_def Let_def)
  then show ?thesis using assms(1) pos by (auto simp: weightProblem_def)
qed

theorem device_check_agrees_with_server_witness:
  "weightProblem (Fin 300) \<lparr>minKg = Some (Fin 1), maxKg = Some (Fin 200)\<rparr> \<noteq> None"
proof -
  define p where "p = (sample_payload ''n'' 1)\<lparr>p_weightKg := Fin 300\<rparr>"
  define ctx where "ctx = \<lparr>x_device = None, x_collector = None, x_hub = Some (''h'', Fin 1, Fin 200), x_isDuplicate = False,
     x_now = 0, x_maxClockSkewSeconds = Fin 0\<rparr>"
  have w: "p_weightKg p = Fin 300" by (simp add: p_def)
  have "f_outcome (checkWeightRange p ctx) = fail"
    by (simp add: checkWeightRange_def finding_def Let_def w ctx_def js_le_def js_gt_def)
  then show ?thesis
    using device_check_agrees_with_server[of p ctx "''h''" "Fin 1" "Fin 200"] by (simp add: w ctx_def js_gt_def)
qed

end
