(* ===== verification/DeviceQueue.thy ===== *)
theory DeviceQueue
  imports Canonical
begin

text \<open>
  The offline queues of the capture devices: \<open>apps/mobile/src/lib/queue.ts\<close>, one JSON
  text under one key of the application's store, and \<open>apps/capture/src/lib/queue.ts\<close>, a
  table of the browser's database keyed by the record's id.  Both keep the contract that
  the sync relies on, the locale below.  A stored text is modelled by what \<open>JSON.parse\<close>
  makes of it, so what \<open>JSON.stringify\<close> wrote is read back as it was.
\<close>

section \<open>Records\<close>

datatype QueueStatus = queued | syncing | synced | rejected

text \<open>The photo is the path of a file on the mobile device and the bytes themselves in the browser.\<close>

record 'p QueuedWeighIn =
  qw_id :: string
  qw_payload :: WeighInPayload
  qw_signature :: string
  qw_photo :: "'p option"
  qw_photoUploadedAt :: "string option"
  qw_status :: QueueStatus
  qw_attempts :: int
  qw_lastError :: "string option"
  qw_createdAt :: string
  qw_syncedAt :: "string option"
  qw_serverEventId :: "string option"

text \<open>A patch of a record does not touch its id.\<close>

type_synonym 'p patch = "'p QueuedWeighIn \<Rightarrow> 'p QueuedWeighIn"

definition is_pending :: "'p QueuedWeighIn \<Rightarrow> bool" where
  "is_pending r = (qw_status r = queued \<or> qw_status r = syncing)"

definition photo_outstanding :: "'p QueuedWeighIn \<Rightarrow> bool" where
  "photo_outstanding r = (qw_photo r \<noteq> None \<and> qw_photoUploadedAt r = None)"

definition awaits_photo :: "'p QueuedWeighIn \<Rightarrow> bool" where
  "awaits_photo r = (qw_status r = synced \<and> qw_serverEventId r \<noteq> None \<and> qw_photo r \<noteq> None \<and> qw_photoUploadedAt r = None)"

definition queue_asc :: "(string \<Rightarrow> string \<Rightarrow> int) \<Rightarrow> 'p QueuedWeighIn \<Rightarrow> 'p QueuedWeighIn \<Rightarrow> int" where
  "queue_asc localeCompare a b = localeCompare (qw_createdAt a) (qw_createdAt b)"

definition queue_desc :: "(string \<Rightarrow> string \<Rightarrow> int) \<Rightarrow> 'p QueuedWeighIn \<Rightarrow> 'p QueuedWeighIn \<Rightarrow> int" where
  "queue_desc localeCompare a b = localeCompare (qw_createdAt b) (qw_createdAt a)"

definition count_status :: "'p QueuedWeighIn list \<Rightarrow> QueueStatus \<Rightarrow> nat" where
  "count_status rs st = length (filter (\<lambda>r. qw_status r = st) rs)"

definition DAY_MS :: int where "DAY_MS = 86400000"

text \<open>Acknowledged, with nothing left to send, and older than the retention window.\<close>

definition is_stale :: "(string \<Rightarrow> int option) \<Rightarrow> int \<Rightarrow> 'p QueuedWeighIn \<Rightarrow> bool" where
  "is_stale parse_date cutoff r = (qw_status r = synced \<and> \<not> photo_outstanding r
     \<and> (case parse_date (qw_createdAt r) of None \<Rightarrow> False | Some t \<Rightarrow> t < cutoff))"

section \<open>The mobile store\<close>

text \<open>A text of the store, by what parsing it gives; the other keys hold plain texts.\<close>

datatype stored = Plain string | NotAnArray | Corrupt | Records "string QueuedWeighIn list"

type_synonym KeyValueStore = "string \<Rightarrow> stored option"

definition createMemoryStore :: "(string \<times> stored) list \<Rightarrow> KeyValueStore" where
  "createMemoryStore seed = map_of (rev seed)"

definition getItem :: "string \<Rightarrow> KeyValueStore \<Rightarrow> stored option" where
  "getItem k store = store k"

definition setItem :: "string \<Rightarrow> stored \<Rightarrow> KeyValueStore \<Rightarrow> KeyValueStore" where
  "setItem k v store = store(k \<mapsto> v)"

definition removeItem :: "string \<Rightarrow> KeyValueStore \<Rightarrow> KeyValueStore" where
  "removeItem k store = store(k := None)"

definition QUEUE_KEY :: string where "QUEUE_KEY = ''proofchain.queue.v1''"

definition readAll :: "KeyValueStore \<Rightarrow> string QueuedWeighIn list" where
  "readAll store = (case getItem QUEUE_KEY store of Some (Records rs) \<Rightarrow> rs | _ \<Rightarrow> [])"

definition writeAll :: "string QueuedWeighIn list \<Rightarrow> KeyValueStore \<Rightarrow> KeyValueStore" where
  "writeAll records store = setItem QUEUE_KEY (Records records) store"

text \<open>Every writing operation reads the whole queue and writes it back: the second half takes what the first read.\<close>

definition enqueue_write :: "string QueuedWeighIn list \<Rightarrow> string QueuedWeighIn \<Rightarrow> KeyValueStore \<Rightarrow> KeyValueStore" where
  "enqueue_write records r store = writeAll (records @ [r]) store"

definition enqueue :: "string QueuedWeighIn \<Rightarrow> KeyValueStore \<Rightarrow> KeyValueStore" where
  "enqueue r store = enqueue_write (readAll store) r store"

definition patched :: "string \<Rightarrow> 'p patch \<Rightarrow> 'p QueuedWeighIn list \<Rightarrow> 'p QueuedWeighIn list" where
  "patched i f records = map (\<lambda>r. if qw_id r = i then (f r)\<lparr>qw_id := qw_id r\<rparr> else r) records"

definition update_write :: "string QueuedWeighIn list \<Rightarrow> string \<Rightarrow> string patch \<Rightarrow> KeyValueStore \<Rightarrow> KeyValueStore" where
  "update_write records i f store = writeAll (patched i f records) store"

definition update :: "string \<Rightarrow> string patch \<Rightarrow> KeyValueStore \<Rightarrow> KeyValueStore" where
  "update i f store = update_write (readAll store) i f store"

definition pending :: "(string \<Rightarrow> string \<Rightarrow> int) \<Rightarrow> KeyValueStore \<Rightarrow> string QueuedWeighIn list" where
  "pending localeCompare store = js_sort (queue_asc localeCompare) (filter is_pending (readAll store))"

definition recent :: "(string \<Rightarrow> string \<Rightarrow> int) \<Rightarrow> nat \<Rightarrow> KeyValueStore \<Rightarrow> string QueuedWeighIn list" where
  "recent localeCompare limit store = take limit (js_sort (queue_desc localeCompare) (readAll store))"

definition counts :: "KeyValueStore \<Rightarrow> QueueStatus \<Rightarrow> nat" where
  "counts store = count_status (readAll store)"

definition unsyncedWeightKg :: "(string \<Rightarrow> string \<Rightarrow> int) \<Rightarrow> KeyValueStore \<Rightarrow> jsnum" where
  "unsyncedWeightKg localeCompare store = js_quantise 3 (js_sum (map (\<lambda>r. p_weightKg (qw_payload r)) (pending localeCompare store)))"

definition pendingPhotos :: "(string \<Rightarrow> string \<Rightarrow> int) \<Rightarrow> KeyValueStore \<Rightarrow> string QueuedWeighIn list" where
  "pendingPhotos localeCompare store = js_sort (queue_asc localeCompare) (filter awaits_photo (readAll store))"

definition pruneSynced :: "(string \<Rightarrow> int option) \<Rightarrow> int \<Rightarrow> int \<Rightarrow> KeyValueStore \<Rightarrow> nat \<times> KeyValueStore" where
  "pruneSynced parse_date now olderThanDays store = (let records = readAll store;
       kept = filter (\<lambda>r. \<not> is_stale parse_date (now - olderThanDays * DAY_MS) r) records
     in (length records - length kept, if length kept \<noteq> length records then writeAll kept store else store))"

section \<open>The browser's table\<close>

text \<open>The rows of the object store, in the order of their key, which is the id.\<close>

type_synonym table = "bytes QueuedWeighIn list"

definition key_order :: "'p QueuedWeighIn \<Rightarrow> 'p QueuedWeighIn \<Rightarrow> int" where
  "key_order a b = code_unit_compare (qw_id a) (qw_id b)"

definition put :: "bytes QueuedWeighIn \<Rightarrow> table \<Rightarrow> table" where
  "put r t = (if qw_id r \<in> qw_id ` set t then map (\<lambda>x. if qw_id x = qw_id r then r else x) t else insert_cmp key_order r t)"

definition get_row :: "string \<Rightarrow> table \<Rightarrow> bytes QueuedWeighIn option" where
  "get_row i t = find_one (\<lambda>r. qw_id r = i) t"

definition idb_enqueue :: "bytes QueuedWeighIn \<Rightarrow> table \<Rightarrow> table" where
  "idb_enqueue r t = put r t"

definition idb_all :: "(string \<Rightarrow> string \<Rightarrow> int) \<Rightarrow> table \<Rightarrow> bytes QueuedWeighIn list" where
  "idb_all localeCompare t = js_sort (queue_desc localeCompare) t"

definition idb_pending :: "(string \<Rightarrow> string \<Rightarrow> int) \<Rightarrow> table \<Rightarrow> bytes QueuedWeighIn list" where
  "idb_pending localeCompare t = js_sort (queue_asc localeCompare) (filter is_pending (idb_all localeCompare t))"

definition idb_pendingPhotos :: "(string \<Rightarrow> string \<Rightarrow> int) \<Rightarrow> table \<Rightarrow> bytes QueuedWeighIn list" where
  "idb_pendingPhotos localeCompare t = js_sort (queue_asc localeCompare) (filter awaits_photo (idb_all localeCompare t))"

definition idb_update :: "string \<Rightarrow> bytes patch \<Rightarrow> table \<Rightarrow> table" where
  "idb_update i f t = (case get_row i t of None \<Rightarrow> t | Some existing \<Rightarrow> put (f existing) t)"

definition idb_counts :: "(string \<Rightarrow> string \<Rightarrow> int) \<Rightarrow> table \<Rightarrow> QueueStatus \<Rightarrow> nat" where
  "idb_counts localeCompare t = count_status (idb_all localeCompare t)"

fun idb_prune :: "(bytes QueuedWeighIn \<Rightarrow> bool) \<Rightarrow> bytes QueuedWeighIn list \<Rightarrow> nat \<times> table \<Rightarrow> nat \<times> table" where
  "idb_prune stale [] st = st"
| "idb_prune stale (r # rs) (removed, t) =
    idb_prune stale rs (if stale r then (removed + 1, filter (\<lambda>x. qw_id x \<noteq> qw_id r) t) else (removed, t))"

definition idb_pruneSynced :: "(string \<Rightarrow> int option) \<Rightarrow> int \<Rightarrow> int \<Rightarrow> table \<Rightarrow> nat \<times> table" where
  "idb_pruneSynced parse_date now olderThanDays t =
    idb_prune (is_stale parse_date (now - olderThanDays * DAY_MS)) t (0, t)"

section \<open>The contract of a queue\<close>

text \<open>
  What the sync relies on: a queue has records with different ids, hands out those that
  are unsent and those whose photo is, and an update patches the record of one id and
  nothing else.  The law is stated of patches that leave the id alone.
\<close>

definition keeps_id :: "'p patch \<Rightarrow> bool" where
  "keeps_id f = (\<forall>r. qw_id (f r) = qw_id r)"

locale weigh_in_queue =
  fixes rows :: "'s \<Rightarrow> 'p QueuedWeighIn list"
    and due :: "'s \<Rightarrow> 'p QueuedWeighIn list"
    and due_photos :: "'s \<Rightarrow> 'p QueuedWeighIn list"
    and upd :: "string \<Rightarrow> 'p patch \<Rightarrow> 's \<Rightarrow> 's"
  assumes rows_upd: "keeps_id f \<Longrightarrow> distinct (map qw_id (rows s)) \<Longrightarrow>
      rows (upd i f s) = map (\<lambda>r. if qw_id r = i then f r else r) (rows s)"
    and due_rows: "mset (due s) = mset (filter is_pending (rows s))"
    and due_photos_rows: "mset (due_photos s) = mset (filter awaits_photo (rows s))"
begin

lemma ids_upd: "keeps_id f \<Longrightarrow> distinct (map qw_id (rows s)) \<Longrightarrow> map qw_id (rows (upd i f s)) = map qw_id (rows s)"
  by (simp add: rows_upd keeps_id_def comp_def if_distrib[of qw_id] cong: if_cong)

lemma set_due: "set (due s) = {r \<in> set (rows s). is_pending r}"
  using due_rows[of s] by (metis mset_eq_setD set_filter)

lemma set_due_photos: "set (due_photos s) = {r \<in> set (rows s). awaits_photo r}"
  using due_photos_rows[of s] by (metis mset_eq_setD set_filter)

lemma distinct_due: "distinct (map qw_id (rows s)) \<Longrightarrow> distinct (map qw_id (due s))"
proof -
  assume "distinct (map qw_id (rows s))"
  then have "distinct (map qw_id (filter is_pending (rows s)))" by (simp add: distinct_map_filter)
  moreover have "mset (map qw_id (due s)) = mset (map qw_id (filter is_pending (rows s)))"
    using due_rows[of s] by simp
  ultimately show ?thesis by (metis mset_eq_imp_distinct_iff)
qed

end

section \<open>Both queues keep it\<close>

lemma readAll_write [simp]: "readAll (writeAll rs store) = rs"
  by (simp add: readAll_def writeAll_def getItem_def setItem_def)

lemma keeps_id_same [simp]: "keeps_id f \<Longrightarrow> (f r)\<lparr>qw_id := qw_id r\<rparr> = f r"
proof -
  assume "keeps_id f"
  then have "qw_id (f r) = qw_id r" by (simp add: keeps_id_def)
  then have "(f r)\<lparr>qw_id := qw_id r\<rparr> = (f r)\<lparr>qw_id := qw_id (f r)\<rparr>" by simp
  then show ?thesis by simp
qed

interpretation mobile_queue: weigh_in_queue readAll "pending lc" "pendingPhotos lc" update for lc
proof
  show "readAll (update i f s) = map (\<lambda>r. if qw_id r = i then f r else r) (readAll s)"
    if "keeps_id f" "distinct (map qw_id (readAll s))" for f s i
    using that keeps_id_same[OF that(1)] by (auto simp: update_def update_write_def patched_def)
qed (simp_all add: pending_def pendingPhotos_def)

lemma find_key: "distinct (map qw_id t) \<Longrightarrow> r \<in> set t \<Longrightarrow> find_one (\<lambda>x. qw_id x = qw_id r) t = Some r"
  by (simp add: find_one_unique_key)

interpretation browser_queue: weigh_in_queue "\<lambda>t :: table. t" "idb_pending lc" "idb_pendingPhotos lc" idb_update for lc
proof
  show "idb_update i f t = map (\<lambda>r. if qw_id r = i then f r else r) t"
    if f: "keeps_id f" and d: "distinct (map qw_id t)" for f i and t :: table
  proof (cases "i \<in> qw_id ` set t")
    case False
    then have "get_row i t = None" by (auto simp: get_row_def find_one_def find_None_iff)
    moreover have "map (\<lambda>r. if qw_id r = i then f r else r) t = t"
      using False by (intro map_idI) auto
    ultimately show ?thesis by (simp add: idb_update_def)
  next
    case True
    then obtain r where r: "r \<in> set t" "qw_id r = i" by auto
    then have g: "get_row i t = Some r" using find_key[OF d, of r] by (simp add: get_row_def)
    have id: "qw_id (f r) = i" using f r by (simp add: keeps_id_def)
    have "x = r" if "x \<in> set t" "qw_id x = i" for x
      using d that r by (metis distinct_map inj_on_def)
    then have "map (\<lambda>x. if qw_id x = i then f r else x) t = map (\<lambda>x. if qw_id x = i then f x else x) t"
      by (intro map_cong) auto
    then show ?thesis using True g id by (simp add: idb_update_def put_def)
  qed
qed (simp_all add: idb_pending_def idb_pendingPhotos_def idb_all_def)

section \<open>Pruning\<close>

lemma idb_prune_filter:
  assumes "distinct (map qw_id t)" and "set rs \<subseteq> set t"
  shows "distinct (map qw_id rs) \<Longrightarrow> idb_prune stale rs (k, filter (\<lambda>x. x \<notin> S) t)
    = (k + length (filter stale rs), filter (\<lambda>x. x \<notin> S \<union> {r \<in> set rs. stale r}) t)"
  using assms(2)
proof (induction rs arbitrary: k S)
  case (Cons r rs)
  have "qw_id x \<noteq> qw_id r \<longleftrightarrow> x \<noteq> r" if "x \<in> set t" for x
    using assms(1) that Cons.prems(2) by (auto simp: distinct_map inj_on_def)
  then have f: "filter (\<lambda>x. qw_id x \<noteq> qw_id r) (filter (\<lambda>x. x \<notin> S) t) = filter (\<lambda>x. x \<notin> insert r S) t"
    by (auto intro: filter_cong simp: filter_filter)
  have "idb_prune stale rs (k', filter (\<lambda>x. x \<notin> S') t)
    = (k' + length (filter stale rs), filter (\<lambda>x. x \<notin> S' \<union> {x \<in> set rs. stale x}) t)" for k' S'
    using Cons.IH Cons.prems by simp
  note IH = this[of "k + 1" "insert r S"] this[of k S]
  show ?case
  proof (cases "stale r")
    case True
    then have "insert r S \<union> {x \<in> set rs. stale x} = S \<union> {x \<in> set (r # rs). stale x}" by auto
    then show ?thesis using True IH(1) f by simp
  next
    case False
    then have "S \<union> {x \<in> set rs. stale x} = S \<union> {x \<in> set (r # rs). stale x}" by auto
    then show ?thesis using False IH(2) by simp
  qed
qed simp

lemma idb_pruneSynced_filter:
  assumes "distinct (map qw_id t)"
  shows "idb_pruneSynced pd now days t = (count_where (is_stale pd (now - days * DAY_MS)) t,
    filter (\<lambda>r. \<not> is_stale pd (now - days * DAY_MS) r) t)"
proof -
  let ?stale = "is_stale pd (now - days * DAY_MS)"
  have "filter (\<lambda>x. x \<notin> {r \<in> set t. ?stale r}) t = filter (\<lambda>r. \<not> ?stale r) t" by (intro filter_cong) auto
  then show ?thesis
    using idb_prune_filter[OF assms order.refl assms, of ?stale 0 "{}"] by (simp add: idb_pruneSynced_def count_where_def)
qed

section \<open>A weigh-in, for the witnesses\<close>

definition sample_record :: "'p QueuedWeighIn" where
  "sample_record = \<lparr>qw_id = ''q'', qw_payload = sample_payload ''0123456789abcdef'' 12345, qw_signature = ''s'', qw_photo = None,
     qw_photoUploadedAt = None, qw_status = queued, qw_attempts = 0, qw_lastError = None,
     qw_createdAt = ''2026-01-02T03:04:05.000Z'', qw_syncedAt = None, qw_serverEventId = None\<rparr>"

section \<open>Properties\<close>

text \<open>Pruning never discards unfinished work.  In both apps it drops exactly the stale records and
  reports how many, and a record that is unsent or rejected, or whose photo is still to be
  handed over, is none of them, however old it is.\<close>

theorem pruning_keeps_unfinished_work:
  assumes "distinct (map qw_id t)"
  shows "idb_pruneSynced pd now days t = (length (filter (is_stale pd (now - days * DAY_MS)) t),
        filter (\<lambda>r. \<not> is_stale pd (now - days * DAY_MS) r) t)
    \<and> fst (pruneSynced pd now days store) = length (filter (is_stale pd (now - days * DAY_MS)) (readAll store))
    \<and> readAll (snd (pruneSynced pd now days store)) = filter (\<lambda>r. \<not> is_stale pd (now - days * DAY_MS) r) (readAll store)
    \<and> {r \<in> set t. qw_status r \<noteq> synced \<or> photo_outstanding r} \<subseteq> set (snd (idb_pruneSynced pd now days t))
    \<and> {r \<in> set (readAll store). qw_status r \<noteq> synced \<or> photo_outstanding r}
        \<subseteq> set (readAll (snd (pruneSynced pd now days store)))"
proof -
  let ?stale = "is_stale pd (now - days * DAY_MS) :: string QueuedWeighIn \<Rightarrow> bool"
  have len: "length (readAll store) - length (filter (\<lambda>r. \<not> ?stale r) (readAll store)) = length (filter ?stale (readAll store))"
    using sum_length_filter_compl[of ?stale "readAll store"] by simp
  have "length (filter (\<lambda>r. \<not> ?stale r) (readAll store)) = length (readAll store)
      \<Longrightarrow> filter (\<lambda>r. \<not> ?stale r) (readAll store) = readAll store"
    by (metis filter_id_conv length_filter_less order_less_irrefl)
  then have rows: "readAll (snd (pruneSynced pd now days store)) = filter (\<lambda>r. \<not> ?stale r) (readAll store)"
    by (auto simp: pruneSynced_def Let_def)
  have "fst (pruneSynced pd now days store) = length (filter ?stale (readAll store))"
    using len by (simp add: pruneSynced_def Let_def)
  then show ?thesis
    using rows by (auto simp: idb_pruneSynced_filter[OF assms] count_where_def is_stale_def)
qed

theorem pruning_keeps_unfinished_work_witness:
  "idb_pruneSynced (\<lambda>_. Some 0) (30 * DAY_MS) 14 [sample_record\<lparr>qw_id := ''a'', qw_status := synced\<rparr>, sample_record]
    = (1, [sample_record])"
  using pruning_keeps_unfinished_work[of "[sample_record\<lparr>qw_id := ''a'', qw_status := synced\<rparr>, sample_record]"
      "\<lambda>_. Some 0" "30 * DAY_MS" 14 Map.empty]
  by (simp add: is_stale_def sample_record_def photo_outstanding_def DAY_MS_def)

text \<open>A weigh-in captured while the mobile app updates another record is lost.  The update reads the whole
  queue and writes it back, so what \<open>enqueue\<close> stored between its two halves is gone; the browser app,
  which reads and writes one row, keeps it.\<close>

theorem concurrent_capture_is_lost:
  assumes "qw_id r \<notin> qw_id ` set (readAll store)" and "keeps_id g" and "get_row i t = Some x" and "qw_id r' \<notin> qw_id ` set t"
  shows "r \<in> set (readAll (enqueue r store)) \<and> r \<notin> set (readAll (update_write (readAll store) i f (enqueue r store)))
    \<and> r' \<in> set (put (g x) (idb_enqueue r' t))"
proof -
  have "map qw_id (patched i f (readAll store)) = map qw_id (readAll store)"
    by (simp add: patched_def comp_def if_distrib[of qw_id] cong: if_cong)
  then have "qw_id ` set (patched i f (readAll store)) = qw_id ` set (readAll store)" by (metis list.set_map)
  then have "r \<notin> set (patched i f (readAll store))" using assms(1) by auto
  moreover have "x \<in> set t" "qw_id (g x) = qw_id x" using assms(2,3) by (auto simp: get_row_def keeps_id_def dest: find_one_SomeD)
  then have "qw_id (g x) \<noteq> qw_id r'" using assms(4) by (metis imageI)
  ultimately show ?thesis using assms(4)
    by (auto simp: enqueue_def enqueue_write_def update_write_def idb_enqueue_def put_def)
qed

theorem concurrent_capture_is_lost_witness:
  "(sample_record :: string QueuedWeighIn) \<notin> set (readAll (update_write (readAll Map.empty) ''y'' id (enqueue sample_record Map.empty)))"
proof -
  have "qw_id sample_record \<notin> qw_id ` set (readAll Map.empty)" by (simp add: readAll_def getItem_def)
  moreover have "get_row ''y'' [sample_record\<lparr>qw_id := ''y''\<rparr>] = Some (sample_record\<lparr>qw_id := ''y''\<rparr>)" by (simp add: get_row_def)
  moreover have "qw_id sample_record \<notin> qw_id ` set [sample_record\<lparr>qw_id := ''y''\<rparr>]" by (simp add: sample_record_def)
  moreover have "keeps_id id" by (simp add: keeps_id_def)
  ultimately show ?thesis using concurrent_capture_is_lost by blast
qed

text \<open>A queue text that does not parse is reported empty, and the next capture writes over it.\<close>

lemma corrupt_queue_overwritten:
  assumes "getItem QUEUE_KEY store = Some Corrupt"
  shows "readAll store = [] \<and> getItem QUEUE_KEY (enqueue r store) = Some (Records [r])"
  using assms by (simp add: readAll_def enqueue_def enqueue_write_def writeAll_def getItem_def setItem_def)

end
