(* ===== verification/DeviceSync.thy ===== *)
theory DeviceSync
  imports DeviceQueue IntegrityCopy Api
begin

text \<open>
  Draining the offline queue: \<open>syncPending\<close> of \<open>apps/mobile/src/lib/api.ts\<close> and of
  \<open>apps/capture/src/lib/api.ts\<close>, over a queue that keeps the contract of \<open>DeviceQueue\<close>
  and a link that may lose a request or an answer, in front of the backend of the model.
  The two clients have one loop and differ in the queue and in how a photo is sent.
\<close>

section \<open>The loop\<close>

record SyncOutcome =
  so_attempted :: nat
  so_synced :: nat
  so_rejected :: nat
  so_failed :: nat
  so_photosUploaded :: nat

definition no_outcome :: SyncOutcome where
  "no_outcome = \<lparr>so_attempted = 0, so_synced = 0, so_rejected = 0, so_failed = 0, so_photosUploaded = 0\<rparr>"

text \<open>What a client calls: its queue, the POST of a weigh-in, the sending of a photo, and the clock.\<close>

record ('s, 'p, 'n) client =
  cl_due :: "'s \<Rightarrow> 'p QueuedWeighIn list"
  cl_duePhotos :: "'s \<Rightarrow> 'p QueuedWeighIn list"
  cl_update :: "string \<Rightarrow> 'p patch \<Rightarrow> 's \<Rightarrow> 's"
  cl_post :: "'p QueuedWeighIn \<Rightarrow> 'n \<Rightarrow> (string + IngestResult) \<times> 'n"
  cl_tryPhoto :: "'p QueuedWeighIn \<Rightarrow> string \<Rightarrow> 'n \<Rightarrow> bool \<times> 'n"
  cl_nowText :: "'n \<Rightarrow> string"

definition failureSummary :: "IngestResult \<Rightarrow> string" where
  "failureSummary response = describeFailures (map to_wire (v_findings (r_integrity response)))"

definition PHOTO_LATER :: string where
  "PHOTO_LATER = ''Weigh-in recorded. Its photo will finish uploading on the next connection.''"

definition mark_syncing :: "'p patch" where
  "mark_syncing r = r\<lparr>qw_status := syncing\<rparr>"

definition mark_rejected :: "IngestResult \<Rightarrow> string \<Rightarrow> 'p patch" where
  "mark_rejected response t r = r\<lparr>qw_status := rejected, qw_serverEventId := Some (r_eventId response),
     qw_syncedAt := Some t, qw_lastError := Some (failureSummary response)\<rparr>"

definition mark_synced :: "IngestResult \<Rightarrow> bool \<Rightarrow> string \<Rightarrow> 'p patch" where
  "mark_synced response photoUploaded t r = r\<lparr>qw_status := synced, qw_serverEventId := Some (r_eventId response),
     qw_syncedAt := Some t, qw_photoUploadedAt := (if photoUploaded then Some t else None),
     qw_lastError := (if photoUploaded then None else Some PHOTO_LATER)\<rparr>"

definition mark_failed :: "'p QueuedWeighIn \<Rightarrow> string \<Rightarrow> 'p patch" where
  "mark_failed read message r = r\<lparr>qw_status := queued, qw_attempts := qw_attempts read + 1, qw_lastError := Some message\<rparr>"

definition mark_photo :: "string \<Rightarrow> 'p patch" where
  "mark_photo t r = r\<lparr>qw_photoUploadedAt := Some t, qw_lastError := None\<rparr>"

definition sync_record :: "('s, 'p, 'n) client \<Rightarrow> 'p QueuedWeighIn \<Rightarrow> 's \<times> 'n \<times> SyncOutcome \<Rightarrow> 's \<times> 'n \<times> SyncOutcome" where
  "sync_record C r st = (case st of (s, n, oc) \<Rightarrow> (let
       oc1 = oc\<lparr>so_attempted := so_attempted oc + 1\<rparr>;
       s1 = cl_update C (qw_id r) mark_syncing s
     in case cl_post C r n of
         (Inl message, n1) \<Rightarrow>
           (cl_update C (qw_id r) (mark_failed r message) s1, n1, oc1\<lparr>so_failed := so_failed oc1 + 1\<rparr>)
       | (Inr response, n1) \<Rightarrow>
           if r_quarantined response \<and> \<not> r_duplicate response
           then (cl_update C (qw_id r) (mark_rejected response (cl_nowText C n1)) s1, n1,
                 oc1\<lparr>so_rejected := so_rejected oc1 + 1\<rparr>)
           else (let (photoUploaded, n2) = cl_tryPhoto C r (r_eventId response) n1 in
             (cl_update C (qw_id r) (mark_synced response photoUploaded (cl_nowText C n2)) s1, n2,
              oc1\<lparr>so_synced := so_synced oc1 + 1,
                so_photosUploaded := so_photosUploaded oc1 + (if photoUploaded then 1 else 0)\<rparr>))))"

definition sync_photo :: "('s, 'p, 'n) client \<Rightarrow> 'p QueuedWeighIn \<Rightarrow> 's \<times> 'n \<times> SyncOutcome \<Rightarrow> 's \<times> 'n \<times> SyncOutcome" where
  "sync_photo C r st = (case st of (s, n, oc) \<Rightarrow>
     (let (uploaded, n1) = cl_tryPhoto C r (with_default (qw_serverEventId r) '''') n in
       if uploaded then (cl_update C (qw_id r) (mark_photo (cl_nowText C n1)) s, n1,
         oc\<lparr>so_photosUploaded := so_photosUploaded oc + 1\<rparr>)
       else (s, n1, oc)))"

definition syncPending :: "('s, 'p, 'n) client \<Rightarrow> bool \<Rightarrow> 's \<times> 'n \<Rightarrow> 's \<times> 'n \<times> SyncOutcome" where
  "syncPending C online st = (case st of (s, n) \<Rightarrow>
     if \<not> online then (s, n, no_outcome)
     else (let (s1, n1, oc1) = fold (sync_record C) (cl_due C s) (s, n, no_outcome)
       in fold (sync_photo C) (cl_duePhotos C s1) (s1, n1, oc1)))"

section \<open>The link and the backend behind it\<close>

text \<open>What becomes of an exchange: delivered, refused by what stands before the backend, or lost on the way there or back.\<close>

datatype fate = Delivered | Refused nat | RequestLost | AnswerLost

record link =
  ln_fates :: "fate list"
  ln_db :: db
  ln_disk :: disk
  ln_clock :: instant
  ln_newIds :: "string list"

text \<open>The backend's configuration and libraries, and the texts that only the display shows.\<close>

record backend =
  bk_accepts :: "decorator \<Rightarrow> json \<Rightarrow> bool"
  bk_env :: ingest_env
  bk_photoRoot :: string
  bk_photoMaxBytes :: jsnum
  bk_errorBody :: "exception \<Rightarrow> string"
  bk_lostMessage :: string

text \<open>The body of the request, as the server parses it.\<close>

definition payload_json :: "WeighInPayload \<Rightarrow> json" where
  "payload_json p = JObj [(''schema'', JStr (p_schema p)), (''collectorId'', JStr (p_collectorId p)),
     (''hubId'', JStr (p_hubId p)), (''deviceId'', JStr (p_deviceId p)), (''weightKg'', JNum (p_weightKg p)),
     (''material'', JStr (p_material p)), (''capturedAt'', JStr (p_capturedAt p)),
     (''photoHash'', JStr (p_photoHash p)), (''nonce'', JStr (p_nonce p))]"

definition submission_json :: "'p QueuedWeighIn \<Rightarrow> json" where
  "submission_json r = JObj [(''payload'', payload_json (qw_payload r)), (''signature'', JStr (qw_signature r))]"

definition pop :: "'a \<Rightarrow> 'a list \<Rightarrow> 'a \<times> 'a list" where
  "pop d xs = (case xs of [] \<Rightarrow> (d, []) | y # ys \<Rightarrow> (y, ys))"

text \<open>The backend handles a submission: its answer, and the link with the database after.\<close>

definition serve_submission :: "backend \<Rightarrow> 'p QueuedWeighIn \<Rightarrow> link \<Rightarrow> IngestResult result \<times> link" where
  "serve_submission B r l = (let (newId, ids) = pop '''' (ln_newIds l) in
     case submit (bk_accepts B) (bk_env B) (ln_clock l) newId (submission_json r) (ln_db l) of
       Inl e \<Rightarrow> (Inl e, l\<lparr>ln_newIds := ids\<rparr>)
     | Inr (a, s') \<Rightarrow> (Inr a, l\<lparr>ln_newIds := ids, ln_db := s'\<rparr>))"

definition refusal :: "nat \<Rightarrow> string \<Rightarrow> string" where
  "refusal status body = (if status = 400 \<or> status = 422
     then ''rejected as invalid ('' @ int_to_string (int status) @ ''): '' @ take 200 body
     else ''server returned '' @ int_to_string (int status))"

text \<open>\<open>postWeighIn\<close>: a lost exchange rejects when the timeout aborts it; only an answer in the 200s has a result.\<close>

definition postWeighIn :: "backend \<Rightarrow> 'p QueuedWeighIn \<Rightarrow> link \<Rightarrow> (string + IngestResult) \<times> link" where
  "postWeighIn B r l = (let (fate, fates) = pop RequestLost (ln_fates l); l1 = l\<lparr>ln_fates := fates\<rparr> in
     case fate of
       RequestLost \<Rightarrow> (Inl (bk_lostMessage B), l1)
     | Refused status \<Rightarrow> (Inl (refusal status ''''), l1)
     | AnswerLost \<Rightarrow> (Inl (bk_lostMessage B), snd (serve_submission B r l1))
     | Delivered \<Rightarrow> (case serve_submission B r l1 of
           (Inl e, l2) \<Rightarrow> (Inl (refusal (http_status e) (bk_errorBody B e)), l2)
         | (Inr a, l2) \<Rightarrow> (Inr a, l2)))"

definition serve_upload :: "backend \<Rightarrow> string \<Rightarrow> bytes \<Rightarrow> link \<Rightarrow> bool \<times> link" where
  "serve_upload B i bs l = (case attach_photo (bk_photoRoot B) (bk_photoMaxBytes B) i bs (ln_db l, ln_disk l) of
       Inl e \<Rightarrow> (False, l)
     | Inr (a, s', d') \<Rightarrow> (True, l\<lparr>ln_db := s', ln_disk := d'\<rparr>))"

definition uploadPhoto :: "backend \<Rightarrow> string \<Rightarrow> bytes \<Rightarrow> link \<Rightarrow> bool \<times> link" where
  "uploadPhoto B i bs l = (let (fate, fates) = pop RequestLost (ln_fates l); l1 = l\<lparr>ln_fates := fates\<rparr> in
     case fate of
       RequestLost \<Rightarrow> (False, l1)
     | Refused _ \<Rightarrow> (False, l1)
     | AnswerLost \<Rightarrow> (False, snd (serve_upload B i bs l1))
     | Delivered \<Rightarrow> serve_upload B i bs l1)"

text \<open>The mobile app reads the photo from its file; a file that is gone makes the attempt fail.\<close>

definition mobile_tryPhoto :: "(string \<Rightarrow> bytes option) \<Rightarrow> backend \<Rightarrow> string QueuedWeighIn \<Rightarrow> string \<Rightarrow> link \<Rightarrow> bool \<times> link" where
  "mobile_tryPhoto readFile B r i l = (case qw_photo r of
      None \<Rightarrow> (False, l)
    | Some uri \<Rightarrow> if uri = '''' then (False, l)
        else (case readFile uri of None \<Rightarrow> (False, l) | Some bs \<Rightarrow> uploadPhoto B i bs l))"

definition capture_tryUploadPhoto :: "backend \<Rightarrow> bytes QueuedWeighIn \<Rightarrow> string \<Rightarrow> link \<Rightarrow> bool \<times> link" where
  "capture_tryUploadPhoto B r i l = (case qw_photo r of
      None \<Rightarrow> (qw_photoUploadedAt r \<noteq> None \<and> qw_photoUploadedAt r \<noteq> Some '''', l)
    | Some bs \<Rightarrow> if qw_photoUploadedAt r \<noteq> None \<and> qw_photoUploadedAt r \<noteq> Some '''' then (True, l) else uploadPhoto B i bs l)"

definition mobile_client :: "(string \<Rightarrow> string \<Rightarrow> int) \<Rightarrow> (string \<Rightarrow> bytes option) \<Rightarrow> backend \<Rightarrow> (KeyValueStore, string, link) client" where
  "mobile_client lc readFile B = \<lparr>cl_due = pending lc, cl_duePhotos = pendingPhotos lc, cl_update = update,
     cl_post = postWeighIn B, cl_tryPhoto = mobile_tryPhoto readFile B, cl_nowText = (\<lambda>l. toISOString (ln_clock l))\<rparr>"

definition capture_client :: "(string \<Rightarrow> string \<Rightarrow> int) \<Rightarrow> backend \<Rightarrow> (table, bytes, link) client" where
  "capture_client lc B = \<lparr>cl_due = idb_pending lc, cl_duePhotos = idb_pendingPhotos lc, cl_update = idb_update,
     cl_post = postWeighIn B, cl_tryPhoto = capture_tryUploadPhoto B, cl_nowText = (\<lambda>l. toISOString (ln_clock l))\<rparr>"

text \<open>The two apps' \<open>syncPending\<close>: one loop, two queues.\<close>

definition mobile_syncPending :: "(string \<Rightarrow> string \<Rightarrow> int) \<Rightarrow> (string \<Rightarrow> bytes option) \<Rightarrow> backend \<Rightarrow> bool
    \<Rightarrow> KeyValueStore \<times> link \<Rightarrow> KeyValueStore \<times> link \<times> SyncOutcome" where
  "mobile_syncPending lc readFile B isOnline st = syncPending (mobile_client lc readFile B) isOnline st"

definition capture_syncPending :: "(string \<Rightarrow> string \<Rightarrow> int) \<Rightarrow> backend \<Rightarrow> bool \<Rightarrow> table \<times> link \<Rightarrow> table \<times> link \<times> SyncOutcome" where
  "capture_syncPending lc B onLine st = syncPending (capture_client lc B) onLine st"

section \<open>What a sync keeps of the records\<close>

text \<open>The work a record stands for.\<close>

definition work :: "'p QueuedWeighIn \<Rightarrow> string \<times> WeighInPayload \<times> string \<times> 'p option \<times> string" where
  "work r = (qw_id r, qw_payload r, qw_signature r, qw_photo r, qw_createdAt r)"

definition keeps_work :: "'p patch \<Rightarrow> bool" where
  "keeps_work f = (\<forall>r. work (f r) = work r)"

lemma keeps_work_id: "keeps_work f \<Longrightarrow> keeps_id f"
  by (auto simp: keeps_work_def keeps_id_def work_def)

lemma marks_keep_work [simp]:
  "keeps_work mark_syncing" "keeps_work (mark_rejected a t)" "keeps_work (mark_synced a b t)"
  "keeps_work (mark_failed r m)" "keeps_work (mark_photo t)"
  by (simp_all add: keeps_work_def work_def mark_syncing_def mark_rejected_def mark_synced_def mark_failed_def mark_photo_def)

text \<open>A record that counts as settled is held by the server under the id it notes.\<close>

definition settled_by :: "(WeighInPayload \<Rightarrow> string \<Rightarrow> bool) \<Rightarrow> 'p QueuedWeighIn \<Rightarrow> bool" where
  "settled_by holds r = (\<not> is_pending r \<longrightarrow> (\<exists>i. qw_serverEventId r = Some i \<and> holds (qw_payload r) i))"

section \<open>A client of a queue\<close>

text \<open>
  What a server promises its clients: what it holds it goes on holding, and a weigh-in it
  answered it holds under the id it gave.  With it the sync is proved once for both apps.
\<close>

locale queue_client = weigh_in_queue rows due due_photos upd
  for rows :: "'s \<Rightarrow> 'p QueuedWeighIn list" and due and due_photos and upd +
  fixes C :: "('s, 'p, 'n) client"
    and goes_to :: "'n \<Rightarrow> 'n \<Rightarrow> bool"
    and held :: "'n \<Rightarrow> WeighInPayload \<Rightarrow> string \<Rightarrow> bool"
  assumes client: "cl_due C = due" "cl_duePhotos C = due_photos" "cl_update C = upd"
    and stays: "goes_to n n" and later: "goes_to n n1 \<Longrightarrow> goes_to n1 n2 \<Longrightarrow> goes_to n n2"
    and keeps: "goes_to n n' \<Longrightarrow> held n p i \<Longrightarrow> held n' p i"
    and post_goes: "cl_post C r n = (x, n') \<Longrightarrow> goes_to n n'"
    and post_holds: "cl_post C r n = (Inr a, n') \<Longrightarrow> held n' (qw_payload r) (r_eventId a)"
    and photo_goes: "cl_tryPhoto C r i n = (b, n') \<Longrightarrow> goes_to n n'"
begin

abbreviation settled_ok :: "'n \<Rightarrow> 'p QueuedWeighIn \<Rightarrow> bool" where
  "settled_ok n \<equiv> settled_by (held n)"

lemma settled_later: "goes_to n n' \<Longrightarrow> settled_ok n r \<Longrightarrow> settled_ok n' r"
  by (auto simp: settled_by_def intro: keeps)

abbreviation at_id :: "string \<Rightarrow> 'p patch \<Rightarrow> 'p patch" where
  "at_id i g \<equiv> (\<lambda>x. if qw_id x = i then g x else x)"

lemma work_at_id: "keeps_work g \<Longrightarrow> map work (map (at_id i g) xs) = map work xs"
  by (simp add: keeps_work_def)

lemma ids_work: "map work xs = map work ys \<Longrightarrow> map qw_id xs = map qw_id ys"
proof -
  assume "map work xs = map work ys"
  then have "map fst (map work xs) = map fst (map work ys)" by simp
  then show ?thesis by (simp add: work_def comp_def)
qed

lemma upd_twice:
  assumes "keeps_work f" and "keeps_work g" and "distinct (map qw_id (rows s))"
  shows "rows (upd i g (upd i f s)) = map (at_id i (g \<circ> f)) (rows s)"
proof -
  have f: "rows (upd i f s) = map (at_id i f) (rows s)" using assms by (simp add: rows_upd keeps_work_id)
  have "distinct (map qw_id (rows (upd i f s)))" using assms by (simp add: ids_upd keeps_work_id)
  then have "rows (upd i g (upd i f s)) = map (at_id i g) (rows (upd i f s))" using assms by (simp add: rows_upd keeps_work_id)
  moreover have "qw_id (f x) = qw_id x" for x using keeps_work_id[OF assms(1)] by (simp add: keeps_id_def)
  ultimately show ?thesis by (simp add: f)
qed

lemma sync_record_step:
  assumes "sync_record C r (s, n, oc) = (s', n', oc')" and d: "distinct (map qw_id (rows s))"
  shows "\<exists>g. keeps_work g \<and> rows s' = map (at_id (qw_id r) g) (rows s) \<and> goes_to n n'
    \<and> (\<forall>x. qw_status (g x) \<noteq> syncing \<and> (qw_payload x = qw_payload r \<longrightarrow> settled_ok n' (g x)))"
proof -
  let ?s1 = "upd (qw_id r) mark_syncing s"
  have concl: ?thesis if f: "keeps_work f" "s' = upd (qw_id r) f ?s1" and "goes_to n n'"
      and "\<And>x. qw_status (f (mark_syncing x)) \<noteq> syncing"
      and "\<And>x. qw_payload x = qw_payload r \<Longrightarrow> settled_ok n' (f (mark_syncing x))" for f
  proof (intro exI[of _ "f \<circ> mark_syncing"] conjI allI impI)
    show "keeps_work (f \<circ> mark_syncing)" using f(1) by (simp add: keeps_work_def work_def mark_syncing_def)
    show "rows s' = map (at_id (qw_id r) (f \<circ> mark_syncing)) (rows s)"
      unfolding f(2) by (rule upd_twice[OF marks_keep_work(1) f(1) d])
  qed (use that in simp_all)
  obtain x n1 where p: "cl_post C r n = (x, n1)" by fastforce
  show ?thesis
  proof (cases x)
    case (Inl m)
    show ?thesis
    proof (rule concl[of "mark_failed r m"])
      show "s' = upd (qw_id r) (mark_failed r m) ?s1" using assms(1) p Inl by (simp add: sync_record_def client Let_def)
      show "goes_to n n'" using assms(1) p Inl post_goes[OF p] by (auto simp: sync_record_def Let_def)
    qed (simp_all add: mark_failed_def settled_by_def is_pending_def)
  next
    case (Inr a)
    have h: "held n1 (qw_payload r) (r_eventId a)" by (rule post_holds[OF p[unfolded Inr]])
    show ?thesis
    proof (cases "r_quarantined a \<and> \<not> r_duplicate a")
      case True
      then have e: "s' = upd (qw_id r) (mark_rejected a (cl_nowText C n1)) ?s1" "n' = n1"
        using assms(1) p Inr by (auto simp: sync_record_def client Let_def)
      show ?thesis
        by (rule concl[of "mark_rejected a (cl_nowText C n1)"])
          (use e post_goes[OF p] h in \<open>simp_all add: mark_rejected_def mark_syncing_def settled_by_def\<close>)
    next
      case False
      obtain b n2 where t: "cl_tryPhoto C r (r_eventId a) n1 = (b, n2)" by fastforce
      then have e: "s' = upd (qw_id r) (mark_synced a b (cl_nowText C n2)) ?s1" "n' = n2"
        using assms(1) p Inr False by (auto simp: sync_record_def client Let_def)
      have "held n2 (qw_payload r) (r_eventId a)" by (rule keeps[OF photo_goes[OF t] h])
      then show ?thesis
        by (intro concl[of "mark_synced a b (cl_nowText C n2)"])
          (use e later[OF post_goes[OF p] photo_goes[OF t]] in \<open>simp_all add: mark_synced_def mark_syncing_def settled_by_def\<close>)
    qed
  qed
qed

lemma sync_records_pass:
  assumes "fold (sync_record C) rs (s, n, oc) = (s', n', oc')" and "distinct (map qw_id (rows s))"
    and "\<forall>r \<in> set rs. work r \<in> work ` set (rows s)"
  shows "map work (rows s') = map work (rows s) \<and> goes_to n n'
    \<and> ((\<forall>x \<in> set (rows s). settled_ok n x) \<longrightarrow> (\<forall>x \<in> set (rows s'). settled_ok n' x))
    \<and> (\<forall>x \<in> set (rows s'). qw_status x = syncing \<longrightarrow> x \<in> set (rows s) \<and> qw_id x \<notin> qw_id ` set rs)"
  using assms
proof (induction rs arbitrary: s n oc)
  case Nil
  then show ?case by (simp add: stays)
next
  case (Cons r rs)
  obtain s1 n1 oc1 where one: "sync_record C r (s, n, oc) = (s1, n1, oc1)" by (cases "sync_record C r (s, n, oc)")
  then obtain g where g: "keeps_work g" "rows s1 = map (at_id (qw_id r) g) (rows s)" "goes_to n n1"
      "\<And>x. qw_status (g x) \<noteq> syncing" "\<And>x. qw_payload x = qw_payload r \<Longrightarrow> settled_ok n1 (g x)"
    using sync_record_step[OF one Cons.prems(2)] by blast
  have w1: "map work (rows s1) = map work (rows s)" unfolding g(2) by (rule work_at_id[OF g(1)])
  have d1: "distinct (map qw_id (rows s1))" using ids_work[OF w1] Cons.prems(2) by simp
  have ws: "work ` set (rows s1) = work ` set (rows s)" using w1 by (metis set_map)
  have IH: "map work (rows s') = map work (rows s1) \<and> goes_to n1 n'
    \<and> ((\<forall>x \<in> set (rows s1). settled_ok n1 x) \<longrightarrow> (\<forall>x \<in> set (rows s'). settled_ok n' x))
    \<and> (\<forall>x \<in> set (rows s'). qw_status x = syncing \<longrightarrow> x \<in> set (rows s1) \<and> qw_id x \<notin> qw_id ` set rs)"
    by (rule Cons.IH) (use Cons.prems one d1 ws in auto)
  have same: "qw_payload x = qw_payload r" if "x \<in> set (rows s)" "qw_id x = qw_id r" for x
  proof -
    obtain y where y: "y \<in> set (rows s)" "work y = work r" using Cons.prems(3) by auto
    then have "y = x" using that Cons.prems(2) by (auto simp: work_def distinct_map inj_on_def)
    then show ?thesis using y by (simp add: work_def)
  qed
  have "settled_ok n1 x" if "\<forall>x \<in> set (rows s). settled_ok n x" "x \<in> set (rows s1)" for x
    using that g same by (auto intro: settled_later[OF g(3)])
  moreover have "x \<in> set (rows s) \<and> qw_id x \<noteq> qw_id r" if "x \<in> set (rows s1)" "qw_status x = syncing" for x
    using that g(4) unfolding g(2) by (auto split: if_splits)
  ultimately show ?case using IH w1 later[OF g(3)] by auto
qed

lemma sync_photos_pass:
  assumes "fold (sync_photo C) rs (s, n, oc) = (s', n', oc')" and "distinct (map qw_id (rows s))"
  shows "map work (rows s') = map work (rows s) \<and> goes_to n n'
    \<and> ((\<forall>x \<in> set (rows s). settled_ok n x) \<longrightarrow> (\<forall>x \<in> set (rows s'). settled_ok n' x))
    \<and> ((\<forall>x \<in> set (rows s). qw_status x \<noteq> syncing) \<longrightarrow> (\<forall>x \<in> set (rows s'). qw_status x \<noteq> syncing))"
  using assms
proof (induction rs arbitrary: s n oc)
  case Nil
  then show ?case by (simp add: stays)
next
  case (Cons r rs)
  obtain s1 n1 oc1 where one: "sync_photo C r (s, n, oc) = (s1, n1, oc1)" by (cases "sync_photo C r (s, n, oc)")
  obtain b where t: "cl_tryPhoto C r (with_default (qw_serverEventId r) '''') n = (b, n1)"
    using one by (auto simp: sync_photo_def split: prod.splits if_splits)
  have r1: "rows s1 = rows s \<or> rows s1 = map (at_id (qw_id r) (mark_photo (cl_nowText C n1))) (rows s)"
    using one t Cons.prems(2) by (auto simp: sync_photo_def client rows_upd keeps_work_id split: if_splits)
  have w1: "map work (rows s1) = map work (rows s)" using r1 work_at_id[OF marks_keep_work(5)] by (elim disjE) (simp_all only:)
  have d1: "distinct (map qw_id (rows s1))" using ids_work[OF w1] Cons.prems(2) by simp
  have IH: "map work (rows s') = map work (rows s1) \<and> goes_to n1 n'
    \<and> ((\<forall>x \<in> set (rows s1). settled_ok n1 x) \<longrightarrow> (\<forall>x \<in> set (rows s'). settled_ok n' x))
    \<and> ((\<forall>x \<in> set (rows s1). qw_status x \<noteq> syncing) \<longrightarrow> (\<forall>x \<in> set (rows s'). qw_status x \<noteq> syncing))"
    by (rule Cons.IH) (use Cons.prems one d1 in auto)
  note go = photo_goes[OF t]
  have "\<forall>x \<in> set (rows s1). settled_ok n1 x" if a: "\<forall>x \<in> set (rows s). settled_ok n x"
  proof -
    have "settled_ok n1 (mark_photo u x)" if "x \<in> set (rows s)" for x u
      using settled_later[OF go] a that by (auto simp: settled_by_def mark_photo_def is_pending_def)
    then show ?thesis using r1 settled_later[OF go] a by auto
  qed
  moreover have "\<forall>x \<in> set (rows s1). qw_status x \<noteq> syncing" if "\<forall>x \<in> set (rows s). qw_status x \<noteq> syncing"
    using r1 that by (auto simp: mark_photo_def)
  ultimately show ?case using IH w1 later[OF go] by auto
qed

text \<open>A sync leaves every record's work as it was, strands none half-way, and calls settled only what is held.\<close>

lemma sync_safe:
  assumes "syncPending C online (s, n) = (s', n', oc)" and d: "distinct (map qw_id (rows s))"
    and "\<forall>x \<in> set (rows s). settled_ok n x"
  shows "map work (rows s') = map work (rows s) \<and> goes_to n n' \<and> (\<forall>x \<in> set (rows s'). settled_ok n' x)
    \<and> (online \<longrightarrow> (\<forall>x \<in> set (rows s'). qw_status x \<noteq> syncing))"
proof (cases online)
  case False
  then show ?thesis using assms by (simp add: syncPending_def stays)
next
  case True
  obtain s1 n1 oc1 where one: "fold (sync_record C) (due s) (s, n, no_outcome) = (s1, n1, oc1)"
    by (cases "fold (sync_record C) (due s) (s, n, no_outcome)")
  then have two: "fold (sync_photo C) (due_photos s1) (s1, n1, oc1) = (s', n', oc)"
    using assms(1) True by (simp add: syncPending_def client)
  have dues: "\<forall>r \<in> set (due s). work r \<in> work ` set (rows s)" by (auto simp: set_due)
  have P: "map work (rows s1) = map work (rows s)" "goes_to n n1" "\<forall>x \<in> set (rows s1). settled_ok n1 x"
      "\<forall>x \<in> set (rows s1). qw_status x = syncing \<longrightarrow> x \<in> set (rows s) \<and> qw_id x \<notin> qw_id ` set (due s)"
    using sync_records_pass[OF one d dues] assms(3) by auto
  have "\<forall>x \<in> set (rows s1). qw_status x \<noteq> syncing"
  proof (rule ballI, rule notI)
    fix x assume "x \<in> set (rows s1)" "qw_status x = syncing"
    then have "x \<in> set (rows s)" "qw_id x \<notin> qw_id ` set (due s)" "is_pending x" using P(4) by (auto simp: is_pending_def)
    then show False by (auto simp: set_due)
  qed
  moreover have "distinct (map qw_id (rows s1))" using ids_work[OF P(1)] d by simp
  ultimately show ?thesis using sync_photos_pass[OF two] P later[OF P(2)] by auto
qed

text \<open>A queue of one record: what a failed and what an answered submission leave.\<close>

lemma due_single: "rows s = [r] \<Longrightarrow> is_pending r \<Longrightarrow> due s = [r]"
  using due_rows[of s] by simp

lemma due_photos_single: "rows s = [r] \<Longrightarrow> due_photos s = (if awaits_photo r then [r] else [])"
  using due_photos_rows[of s] by (simp split: if_splits)

lemma upd_single: "rows s = [r] \<Longrightarrow> keeps_work f \<Longrightarrow> rows (upd (qw_id r) f s) = [f r]"
  by (simp add: rows_upd keeps_work_id)

lemma sync_single_failed:
  assumes r: "rows s = [r]" "is_pending r" and p: "cl_post C r n = (Inl m, n1)"
  shows "\<exists>s' oc. syncPending C True (s, n) = (s', n1, oc) \<and> so_rejected oc = 0
    \<and> rows s' = [mark_failed r m (mark_syncing r)]"
proof -
  let ?s = "upd (qw_id r) (mark_failed r m) (upd (qw_id r) mark_syncing s)"
  have s: "rows ?s = [mark_failed r m (mark_syncing r)]"
    using upd_twice[OF marks_keep_work(1) marks_keep_work(4), of s "qw_id r" r m] r(1) by simp
  have "\<not> awaits_photo (mark_failed r m (mark_syncing r))" by (simp add: awaits_photo_def mark_failed_def)
  then have "due_photos ?s = []" using due_photos_single[OF s] by simp
  then show ?thesis using s p due_single[OF r]
    by (simp add: syncPending_def client sync_record_def Let_def no_outcome_def)
qed

lemma sync_single_answered:
  assumes r: "rows s = [r]" "is_pending r" and p: "cl_post C r n = (Inr a, n1)" and a: "\<not> (r_quarantined a \<and> \<not> r_duplicate a)"
  shows "\<exists>s' n' oc x. syncPending C True (s, n) = (s', n', oc) \<and> goes_to n1 n' \<and> so_rejected oc = 0 \<and> so_synced oc = 1
    \<and> rows s' = [x] \<and> qw_status x = synced \<and> qw_serverEventId x = Some (r_eventId a)"
proof -
  obtain b n2 where t: "cl_tryPhoto C r (r_eventId a) n1 = (b, n2)" by fastforce
  let ?x = "mark_synced a b (cl_nowText C n2) (mark_syncing r)"
  let ?s = "upd (qw_id r) (mark_synced a b (cl_nowText C n2)) (upd (qw_id r) mark_syncing s)"
  have s: "rows ?s = [?x]"
    using upd_twice[OF marks_keep_work(1) marks_keep_work(3), of s "qw_id r" a b "cl_nowText C n2"] r(1) by simp
  have x: "qw_status ?x = synced" "qw_serverEventId ?x = Some (r_eventId a)" by (simp_all add: mark_synced_def)
  obtain b3 n3 where t3: "cl_tryPhoto C ?x (r_eventId a) n2 = (b3, n3)" by fastforce
  let ?photo = "\<lambda>t. rows (upd (qw_id ?x) (mark_photo t) ?s) = [mark_photo t ?x]"
  have ph: "?photo t" for t by (rule upd_single[OF s]) simp
  note go = photo_goes[OF t] later[OF photo_goes[OF t] photo_goes[OF t3]]
  define oc1 where "oc1 = no_outcome\<lparr>so_attempted := 1, so_synced := 1, so_photosUploaded := (if b then 1 else 0)\<rparr>"
  have one: "sync_record C r (s, n, no_outcome) = (?s, n2, oc1)"
    using p t by (simp add: sync_record_def client Let_def if_not_P[OF a] oc1_def no_outcome_def)
  have oc1: "so_rejected oc1 = 0" "so_synced oc1 = 1" by (simp_all add: oc1_def no_outcome_def)
  have run: "syncPending C True (s, n) = fold (sync_photo C) (due_photos ?s) (?s, n2, oc1)"
    using one due_single[OF r] by (simp add: syncPending_def client)
  show ?thesis
  proof (cases "awaits_photo ?x")
    case False
    then have "due_photos ?s = []" using due_photos_single[OF s] by simp
    then show ?thesis using run s x oc1 go(1) by simp
  next
    case True
    then have d: "due_photos ?s = [?x]" using due_photos_single[OF s] by simp
    obtain s3 oc3 where f: "sync_photo C ?x (?s, n2, oc1) = (s3, n3, oc3)" and s3: "s3 = ?s \<or> (\<exists>u. s3 = upd (qw_id ?x) (mark_photo u) ?s)"
        and oc3: "so_rejected oc3 = 0" "so_synced oc3 = 1"
      using t3 x(2) oc1 by (cases b3) (auto simp: sync_photo_def with_default_def client)
    have "\<exists>y. rows s3 = [y] \<and> qw_status y = synced \<and> qw_serverEventId y = Some (r_eventId a)"
      using s3 s ph x by (auto simp: mark_photo_def)
    then show ?thesis using run d f oc3 go(2) by auto
  qed
qed

end

section \<open>The backend behind the link\<close>

text \<open>The weigh-ins the backend holds stay, with their ids, their hashes and their quarantine.\<close>

definition link_goes :: "link \<Rightarrow> link \<Rightarrow> bool" where
  "link_goes l l' = (\<forall>e \<in> set (events (ln_db l)). \<exists>e' \<in> set (events (ln_db l')).
     e_id e' = e_id e \<and> e_payloadHash e' = e_payloadHash e \<and> e_quarantined e' = e_quarantined e)"

definition link_holds :: "link \<Rightarrow> WeighInPayload \<Rightarrow> string \<Rightarrow> bool" where
  "link_holds l p i = (\<exists>e \<in> set (events (ln_db l)). e_id e = i \<and> eventPayloadHash p = Inr (e_payloadHash e))"

lemma payload_of_json [simp]: "payload_of (payload_json p) = p"
  by (cases p) (simp add: payload_of_def payload_json_def jfield_def with_default_def text_of_def number_of_def)

lemma submission_payload [simp]: "jfield ''payload'' (submission_json r) = payload_json (qw_payload r)"
  by (simp add: submission_json_def jfield_def with_default_def)

lemma ingest_holds:
  assumes "ingest env now i p sig s = Inr (r, s')"
  shows "\<exists>e \<in> set (events s'). e_id e = r_eventId r \<and> eventPayloadHash p = Inr (e_payloadHash e)"
proof -
  obtain plan where plan: "ingest_read env now i p sig s = Inr plan" "ingest_finish plan s = Inr (r, s')"
    using assms by (auto simp: ingest_def split: sum.splits)
  show ?thesis
  proof (cases plan)
    case (Answer a)
    then show ?thesis using plan ingest_read_Answer[of env now i p sig s a] by (auto simp: ingest_finish_def)
  next
    case (Insert e)
    then show ?thesis
      using plan ingest_read_Insert(3,4)[of env now i p sig s e] by (auto simp: ingest_finish_def ingest_save_def)
  qed
qed

lemma served_goes:
  assumes "serve_submission B r l = (x, l')"
  shows "link_goes l l' \<and> (\<forall>a. x = Inr a \<longrightarrow> link_holds l' (qw_payload r) (r_eventId a))"
proof (cases x)
  case (Inl e)
  then have "ln_db l' = ln_db l" using assms by (auto simp: serve_submission_def Let_def split: prod.splits sum.splits)
  then show ?thesis using Inl by (auto simp: link_goes_def)
next
  case (Inr b)
  then obtain newId s' where s: "submit (bk_accepts B) (bk_env B) (ln_clock l) newId (submission_json r) (ln_db l) = Inr (b, s')"
      and l': "ln_db l' = s'"
    using assms by (auto simp: serve_submission_def split: prod.splits sum.splits)
  obtain kvs sig where v: "validate_submission (bk_accepts B) (submission_json r) = Inr (JObj kvs, sig)"
      and ing: "ingest (bk_env B) (ln_clock l) newId (payload_of (JObj kvs)) sig (ln_db l) = Inr (b, s')"
    using submit_Inr[OF s] by blast
  have p: "payload_of (JObj kvs) = qw_payload r" using submitted_payload[OF v] by simp
  have fr: "set (events (ln_db l)) \<subseteq> set (events s')" using ingest_frame[OF ing] by (auto simp: insert_row_def)
  have "link_goes l l'" unfolding link_goes_def l' using fr by blast
  moreover have "link_holds l' (qw_payload r) (r_eventId b)" using ingest_holds[OF ing] p l' by (simp add: link_holds_def)
  ultimately show ?thesis using Inr by simp
qed

lemma served_submission:
  assumes "serve_submission B r l = (x, l')"
  shows "link_goes l l'" and "x = Inr a \<Longrightarrow> link_holds l' (qw_payload r) (r_eventId a)"
  using served_goes[OF assms] by blast+

lemma goes_fates [simp]: "link_goes (l\<lparr>ln_fates := fs\<rparr>) l' = link_goes l l'" "link_goes l l" "link_goes l (l\<lparr>ln_fates := fs\<rparr>)"
  by (auto simp: link_goes_def)

lemma posted:
  assumes "postWeighIn B r l = (x, l')"
  shows "link_goes l l'" and "x = Inr a \<Longrightarrow> link_holds l' (qw_payload r) (r_eventId a)"
proof -
  obtain fate fs where f: "pop RequestLost (ln_fates l) = (fate, fs)" by fastforce
  obtain y l2 where y: "serve_submission B r (l\<lparr>ln_fates := fs\<rparr>) = (y, l2)" by fastforce
  note served = served_submission[OF y]
  have "link_goes l l' \<and> (x = Inr a \<longrightarrow> link_holds l' (qw_payload r) (r_eventId a))" for a
    using assms f y served by (cases fate; cases y) (auto simp: postWeighIn_def)
  then show "link_goes l l'" "x = Inr a \<Longrightarrow> link_holds l' (qw_payload r) (r_eventId a)" by blast+
qed

lemma photo_taken:
  assumes "serve_upload B i bs l = (b, l')"
  shows "link_goes l l'"
proof -
  have "l' = l \<or> (\<exists>u. events (ln_db l') = patch_by e_id i (\<lambda>e. e\<lparr>e_photoUri := Some u\<rparr>) (events (ln_db l)))"
    using assms by (auto simp: serve_upload_def attach_photo_def Let_def split: sum.splits prod.splits if_splits option.splits)
  then show ?thesis
  proof (elim disjE exE)
    fix u assume l': "events (ln_db l') = patch_by e_id i (\<lambda>e. e\<lparr>e_photoUri := Some u\<rparr>) (events (ln_db l))"
    have "(if e_id e = i then e\<lparr>e_photoUri := Some u\<rparr> else e) \<in> set (events (ln_db l'))" if "e \<in> set (events (ln_db l))" for e
      unfolding l' by (rule patch_byI[OF that])
    note mem = this
    show ?thesis unfolding link_goes_def
    proof (rule ballI)
      fix e assume "e \<in> set (events (ln_db l))"
      then show "\<exists>e' \<in> set (events (ln_db l')). e_id e' = e_id e \<and> e_payloadHash e' = e_payloadHash e \<and> e_quarantined e' = e_quarantined e"
        by (intro bexI[OF _ mem]) simp_all
    qed
  qed simp
qed

lemma uploaded:
  assumes "uploadPhoto B i bs l = (b, l')"
  shows "link_goes l l'"
proof -
  obtain fate fs where f: "pop RequestLost (ln_fates l) = (fate, fs)" by fastforce
  obtain y l2 where y: "serve_upload B i bs (l\<lparr>ln_fates := fs\<rparr>) = (y, l2)" by fastforce
  show ?thesis using assms f y photo_taken[OF y] by (cases fate) (auto simp: uploadPhoto_def)
qed

section \<open>Both apps keep the client's contract\<close>

lemma link_goes_trans: "link_goes l l1 \<Longrightarrow> link_goes l1 l2 \<Longrightarrow> link_goes l l2"
  unfolding link_goes_def by metis

lemma link_holds_later: "link_goes l l' \<Longrightarrow> link_holds l p i \<Longrightarrow> link_holds l' p i"
  unfolding link_goes_def link_holds_def by metis

lemma mobile_photo_goes: "mobile_tryPhoto readFile B r i l = (b, l') \<Longrightarrow> link_goes l l'"
  by (auto simp: mobile_tryPhoto_def split: option.splits if_splits intro: uploaded)

lemma capture_photo_goes: "capture_tryUploadPhoto B r i l = (b, l') \<Longrightarrow> link_goes l l'"
  by (auto simp: capture_tryUploadPhoto_def split: option.splits if_splits intro: uploaded)

interpretation mobile_sync: queue_client readAll "pending lc" "pendingPhotos lc" update
  "mobile_client lc readFile B" link_goes link_holds for lc readFile B
  by unfold_locales (auto simp: mobile_client_def intro: link_goes_trans link_holds_later posted mobile_photo_goes)

interpretation browser_sync: queue_client "\<lambda>t :: table. t" "idb_pending lc" "idb_pendingPhotos lc" idb_update
  "capture_client lc B" link_goes link_holds for lc B
  by unfold_locales (auto simp: capture_client_def intro: link_goes_trans link_holds_later posted capture_photo_goes)

text \<open>A submission answered for the second time names the weigh-in the first one stored, whatever its verdict was.\<close>

lemma submit_again:
  assumes "submit accepts env now i body s = Inr (a, s')" and "\<not> r_duplicate a"
    and "distinct (map e_payloadHash (events s))"
  shows "\<exists>e b. e \<in> set (events s') \<and> e_id e = r_eventId a \<and> e_quarantined e = r_quarantined a
    \<and> submit accepts env now' i' body s' = Inr (b, s') \<and> r_duplicate b \<and> r_eventId b = e_id e"
proof -
  obtain kvs sig where v: "validate_submission accepts body = Inr (JObj kvs, sig)"
      and ing: "ingest env now i (payload_of (JObj kvs)) sig s = Inr (a, s')"
    using submit_Inr[OF assms(1)] by blast
  let ?p = "payload_of (JObj kvs)"
  obtain e where e: "ingest_read env now i ?p sig s = Inr (Insert e)" "s' = s\<lparr>events := insert_row e (events s)\<rparr>"
      and a: "r_eventId a = i" "r_quarantined a = (v_outcome (e_integrity e) = fail)"
    using ingest_new[OF ing assms(2)] by blast
  note I = ingest_read_Insert[OF e(1)]
  have q: "e_id e = i" "e_quarantined e = (v_outcome (e_integrity e) = fail)" by (subst I(9), simp)+
  have m: "e \<in> set (events s')" "distinct (map e_payloadHash (events s'))" "?p = ?p \<and> p_material ?p \<in> catalogue_codes s'"
    using e(2) assms(3) I(2,4) by (auto simp: get_by_None_iff catalogue_codes_def)
  obtain b where "ingest env now' i' ?p sig s' = Inr (b, s')" "r_eventId b = e_id e" "r_duplicate b"
    using ingest_replay[OF m(1) I(3) m(2) I(1), of env now' i' sig] m(3) by blast
  then show ?thesis using m(1) q a v by (auto simp: submit_def)
qed

lemma serve_answered:
  assumes "submit (bk_accepts B) (bk_env B) (ln_clock l) (fst (pop '''' (ln_newIds l))) (submission_json r) (ln_db l) = Inr (a, s)"
  shows "serve_submission B r l = (Inr a, l\<lparr>ln_newIds := snd (pop '''' (ln_newIds l)), ln_db := s\<rparr>)"
  using assms by (simp add: serve_submission_def split_beta)

section \<open>A weigh-in of a device, for the witnesses\<close>

definition sample_backend :: backend where
  "sample_backend = \<lparr>bk_accepts = sample_accepts, bk_env = dp_env run_deployment, bk_photoRoot = ''/p'',
     bk_photoMaxBytes = PosInf, bk_errorBody = (\<lambda>_. ''''), bk_lostMessage = ''aborted''\<rparr>"

definition sample_link :: "fate list \<Rightarrow> link" where
  "sample_link fates = \<lparr>ln_fates = fates, ln_db = registered_db, ln_disk = Map.empty, ln_clock = 0, ln_newIds = [''e'', ''f'']\<rparr>"

lemma sample_record_body: "submission_json sample_record = sample_body"
  by (simp add: submission_json_def payload_json_def sample_record_def sample_payload_def sample_body_def)

text \<open>Its signature is not one, so the backend stores it in quarantine.\<close>

lemma sample_quarantined:
  "\<exists>a s'. submit sample_accepts (dp_env run_deployment) 0 ''e'' sample_body registered_db = Inr (a, s')
    \<and> r_quarantined a \<and> \<not> r_duplicate a"
proof -
  obtain r e where s: "submit sample_accepts (dp_env run_deployment) 0 ''e'' sample_body registered_db
      = Inr (r, registered_db\<lparr>events := [e]\<rparr>)"
    using sample_submits by blast
  obtain kvs sig where v: "validate_submission sample_accepts sample_body = Inr (JObj kvs, sig)"
      and ing: "ingest (dp_env run_deployment) 0 ''e'' (payload_of (JObj kvs)) sig registered_db = Inr (r, registered_db\<lparr>events := [e]\<rparr>)"
    using submit_Inr[OF s] by blast
  have v': "sig = ''s''" "payload_of (JObj kvs) = sample_payload ''0123456789abcdef'' 12345" using sample_body_valid v by auto
  have "registered_db\<lparr>events := [e]\<rparr> \<noteq> registered_db" by (simp add: registered_db_def empty_db_def)
  moreover have "r_duplicate r \<Longrightarrow> registered_db\<lparr>events := [e]\<rparr> = registered_db"
    using ing by (auto simp: ingest_def ingest_finish_def ingest_save_def split: sum.splits ingest_plan.splits option.splits)
  ultimately have d: "\<not> r_duplicate r" by blast
  obtain e' where e: "ingest_read (dp_env run_deployment) 0 ''e'' (payload_of (JObj kvs)) sig registered_db = Inr (Insert e')"
      "r_quarantined r = (v_outcome (e_integrity e') = fail)"
    using ingest_new[OF ing d] by blast
  have short: "length (base64_decode ''s'') = 0" by code_simp
  have "\<not> verifyWeighInSignature (cryptoVerify (dp_env run_deployment)) (sample_payload ''0123456789abcdef'' 12345) ''s'' k" for k
    using short by (simp add: verify_signature_iff)
  then have "v_outcome (e_integrity e') = fail"
    by (subst ingest_read_Insert(9)[OF e(1)]) (auto simp: v' verdict_fail_iff)
  then show ?thesis using s d e(2) by blast
qed

section \<open>Properties\<close>

text \<open>A sync of the mobile app loses no weigh-in.  Whatever the link loses and whatever the backend answers,
  every record of the queue is still there with its payload, signature and photo; every record the app
  calls settled is held by the backend, under the id the record notes; and a sync that ran leaves no
  record half-way.\<close>

theorem mobile_sync_loses_nothing:
  assumes "mobile_syncPending lc readFile B online (store, l) = (store', l', oc)"
    and "distinct (map qw_id (readAll store))" and "\<forall>r \<in> set (readAll store). settled_by (link_holds l) r"
  shows "map work (readAll store') = map work (readAll store)
    \<and> (\<forall>r \<in> set (readAll store'). settled_by (link_holds l') r)
    \<and> (online \<longrightarrow> (\<forall>r \<in> set (readAll store'). qw_status r \<noteq> syncing))"
  using mobile_sync.sync_safe[OF assms[unfolded mobile_syncPending_def]] by blast

theorem mobile_sync_loses_nothing_witness:
  "\<exists>store' l' oc. mobile_syncPending (\<lambda>_ _. 0) (\<lambda>_. None) sample_backend True
      (writeAll [sample_record] Map.empty, sample_link [AnswerLost]) = (store', l', oc)
    \<and> map work (readAll store') = [work (sample_record :: string QueuedWeighIn)]"
proof -
  let ?store = "writeAll [sample_record] Map.empty"
  obtain store' l' oc where s: "mobile_syncPending (\<lambda>_ _. 0) (\<lambda>_. None) sample_backend True
      (?store, sample_link [AnswerLost]) = (store', l', oc)"
    by (metis prod_cases3)
  have "\<forall>r \<in> set (readAll ?store). settled_by (link_holds (sample_link [AnswerLost])) r"
    by (simp add: settled_by_def sample_record_def is_pending_def)
  then show ?thesis using s mobile_sync_loses_nothing[OF s] by simp
qed

text \<open>The browser app keeps the same promise over its table of records.\<close>

theorem browser_sync_loses_nothing:
  assumes "capture_syncPending lc B online (t, l) = (t', l', oc)"
    and "distinct (map qw_id t)" and "\<forall>r \<in> set t. settled_by (link_holds l) r"
  shows "map work t' = map work t \<and> (\<forall>r \<in> set t'. settled_by (link_holds l') r)
    \<and> (online \<longrightarrow> (\<forall>r \<in> set t'. qw_status r \<noteq> syncing))"
  using browser_sync.sync_safe[OF assms[unfolded capture_syncPending_def]] by blast

theorem browser_sync_loses_nothing_witness:
  "\<exists>t' l' oc. capture_syncPending (\<lambda>_ _. 0) sample_backend True ([sample_record], sample_link [Refused 503]) = (t', l', oc)
    \<and> map work t' = [work (sample_record :: bytes QueuedWeighIn)]"
proof -
  obtain t' l' oc where s: "capture_syncPending (\<lambda>_ _. 0) sample_backend True
      ([sample_record], sample_link [Refused 503]) = (t', l', oc)"
    by (metis prod_cases3)
  have "\<forall>r \<in> set [sample_record :: bytes QueuedWeighIn]. settled_by (link_holds (sample_link [Refused 503])) r"
    by (simp add: settled_by_def sample_record_def is_pending_def)
  then show ?thesis using s browser_sync_loses_nothing[OF s] by simp
qed

text \<open>A rejection can be hidden.  When the backend stores a weigh-in in quarantine and the answer is lost,
  the next sync is told that it is a duplicate, and the app marks the record synced: it shows the
  collector a payable weigh-in, and counts none rejected, while the backend holds it in quarantine.\<close>

theorem lost_answer_hides_rejection:
  assumes "readAll store = [r]" and "is_pending r" and "ln_fates l = AnswerLost # Delivered # fates"
    and "submit (bk_accepts B) (bk_env B) (ln_clock l) (fst (pop '''' (ln_newIds l))) (submission_json r) (ln_db l) = Inr (a, s)"
    and "r_quarantined a" and "\<not> r_duplicate a" and "distinct (map e_payloadHash (events (ln_db l)))"
  shows "\<exists>store1 l1 oc1 store2 l2 oc2 x e.
      mobile_syncPending lc readFile B True (store, l) = (store1, l1, oc1)
    \<and> mobile_syncPending lc readFile B True (store1, l1\<lparr>ln_clock := now\<rparr>) = (store2, l2, oc2)
    \<and> so_rejected oc1 = 0 \<and> so_rejected oc2 = 0 \<and> so_synced oc2 = 1
    \<and> readAll store2 = [x] \<and> qw_status x = synced \<and> qw_serverEventId x = Some (e_id e)
    \<and> e \<in> set (events s) \<and> e_quarantined e"
proof -
  let ?C = "mobile_client lc readFile B"
  obtain e where e: "e \<in> set (events s)" "e_id e = r_eventId a" "e_quarantined e"
    using submit_again[OF assms(4,6,7)] assms(5) by metis
  define l1 where "l1 = l\<lparr>ln_fates := Delivered # fates, ln_newIds := snd (pop '''' (ln_newIds l)), ln_db := s\<rparr>"
  have p1: "cl_post ?C r l = (Inl (bk_lostMessage B), l1)"
    using assms(3) serve_answered[of B "l\<lparr>ln_fates := Delivered # fates\<rparr>" r a s] assms(4)
    by (simp add: mobile_client_def postWeighIn_def pop_def[of RequestLost] Let_def l1_def)
  obtain store1 oc1 where s1: "syncPending ?C True (store, l) = (store1, l1, oc1)" "so_rejected oc1 = 0"
      "readAll store1 = [mark_failed r (bk_lostMessage B) (mark_syncing r)]"
    using mobile_sync.sync_single_failed[OF assms(1,2) p1] by blast
  let ?r = "mark_failed r (bk_lostMessage B) (mark_syncing r)"
  have same: "submission_json ?r = submission_json r" by (simp add: submission_json_def mark_failed_def mark_syncing_def)
  obtain b where b: "submit (bk_accepts B) (bk_env B) now (fst (pop '''' (ln_newIds l1))) (submission_json r) s = Inr (b, s)"
      "r_duplicate b" "r_eventId b = r_eventId a"
    using submit_again[OF assms(4,6,7), of now "fst (pop '''' (ln_newIds l1))"] e by metis
  then obtain l2 where p2: "cl_post ?C ?r (l1\<lparr>ln_clock := now\<rparr>) = (Inr b, l2)"
    using serve_answered[of B "l1\<lparr>ln_clock := now, ln_fates := fates\<rparr>" ?r b s]
    by (simp add: mobile_client_def postWeighIn_def pop_def[of RequestLost] Let_def l1_def same)
  have "is_pending ?r" "\<not> (r_quarantined b \<and> \<not> r_duplicate b)" using b(2) by (simp_all add: is_pending_def mark_failed_def)
  then show ?thesis
    using mobile_sync.sync_single_answered[OF s1(3) _ p2] s1(1,2) e b(3) unfolding mobile_syncPending_def by metis
qed

theorem lost_answer_hides_rejection_witness:
  "\<exists>store1 l1 oc1 store2 l2 oc2 x. mobile_syncPending (\<lambda>_ _. 0) (\<lambda>_. None) sample_backend True
      (writeAll [sample_record] Map.empty, sample_link [AnswerLost, Delivered]) = (store1, l1, oc1)
    \<and> mobile_syncPending (\<lambda>_ _. 0) (\<lambda>_. None) sample_backend True (store1, l1\<lparr>ln_clock := 5\<rparr>) = (store2, l2, oc2)
    \<and> readAll store2 = [x] \<and> qw_status x = synced \<and> so_rejected oc1 + so_rejected oc2 = 0"
proof -
  obtain a s where "submit sample_accepts (dp_env run_deployment) 0 ''e'' sample_body registered_db = Inr (a, s)"
      "r_quarantined a" "\<not> r_duplicate a"
    using sample_quarantined by blast
  then show ?thesis
    using lost_answer_hides_rejection[of "writeAll [sample_record] Map.empty" sample_record "sample_link [AnswerLost, Delivered]" "[]"
        sample_backend a s "\<lambda>_ _. 0" "\<lambda>_. None" 5]
    by (simp add: sample_record_body sample_link_def sample_backend_def pop_def registered_db_def empty_db_def)
      (auto simp: is_pending_def sample_record_def)
qed

end
