(* ===== verification/DeviceIdentity.thy ===== *)
theory DeviceIdentity
  imports Signing Sha256
begin

unbundle bit_operations_syntax

text \<open>
  The identity of a capture device: \<open>apps/mobile/src/lib/identity.ts\<close>,
  \<open>apps/capture/src/lib/identity.ts\<close> and what \<open>apps/mobile/src/lib/native.ts\<close> adds to it.  The
  mobile runtime has no \<open>Buffer\<close>, so its base64 is written out over 32-bit integers;
  it is shown to be the one that the server reads.  The curve and the random bytes are
  parameters.
\<close>

section \<open>Hexadecimal\<close>

text \<open>\<open>Number.prototype.toString(16)\<close>.\<close>

fun hex_text :: "nat \<Rightarrow> string" where
  "hex_text n = (if n < 16 then [hex_digit n] else hex_text (n div 16) @ [hex_digit (n mod 16)])"

declare hex_text.simps [simp del]

definition toHex :: "bytes \<Rightarrow> string" where
  "toHex bs = concat (map (\<lambda>b. pad_left 2 (hex_text (unat b))) bs)"

text \<open>
  \<open>parseInt(pair, 16)\<close> of two characters, stored in a byte: leading blanks and a sign are
  read, what is not a digit ends the number, and no digit at all is NaN, which is stored as 0.
\<close>

definition parse_hex_pair :: "char \<Rightarrow> char \<Rightarrow> 8 word" where
  "parse_hex_pair a b = (case (hex_value a, hex_value b) of
      (Some x, Some y) \<Rightarrow> of_nat (16 * x + y)
    | (Some x, None) \<Rightarrow> if x = 0 \<and> (b = CHR ''x'' \<or> b = CHR ''X'') then 0 else of_nat x
    | (None, Some y) \<Rightarrow> if is_space a \<or> a = CHR ''+'' then of_nat y else if a = CHR ''-'' then - of_nat y else 0
    | (None, None) \<Rightarrow> 0)"

fun fromHex :: "string \<Rightarrow> bytes" where
  "fromHex (a # b # rest) = parse_hex_pair a b # fromHex rest"
| "fromHex _ = []"

lemma hex_text_byte: "n < 256 \<Longrightarrow> pad_left 2 (hex_text n) = [hex_digit (n div 16), hex_digit (n mod 16)]"
proof (cases "n < 16")
  case True
  have "hex_digit 0 = CHR ''0''" by code_simp
  then show ?thesis using True by (simp add: hex_text.simps[of n] pad_left_def)
next
  case False
  assume "n < 256"
  then have "n div 16 < 16" by simp
  then show ?thesis using False by (simp add: hex_text.simps[of n] hex_text.simps[of "n div 16"] pad_left_def)
qed

lemma toHex_encode [simp]: "toHex bs = hex_encode bs"
  unfolding toHex_def hex_encode_def
  by (intro arg_cong[where f = concat] map_cong refl) (simp add: hex_text_byte hex_byte_def)

lemma fromHex_encode [simp]: "fromHex (hex_encode bs) = bs"
proof (induction bs)
  case (Cons b bs)
  have "unat b div 16 < 16" "unat b mod 16 < 16" by (rule byte_halves)+
  then have "parse_hex_pair (hex_digit (unat b div 16)) (hex_digit (unat b mod 16)) = of_nat (16 * (unat b div 16) + unat b mod 16)"
    by (simp add: parse_hex_pair_def)
  also have "\<dots> = b" by (simp only: mult_div_mod_eq) simp
  finally show ?case using Cons by (simp add: hex_encode_def hex_byte_def)
qed (simp add: hex_encode_def)

section \<open>Base64\<close>

text \<open>The mobile app's encoder, over the 32-bit integers of the bit operators.\<close>

definition sextet_char :: "32 word \<Rightarrow> nat \<Rightarrow> char" where
  "sextet_char triple k = b64_char (unat (drop_bit k triple AND 63))"

definition byte_int :: "8 word \<Rightarrow> 32 word" where
  "byte_int b = ucast b"

definition triple_of :: "8 word \<Rightarrow> 8 word option \<Rightarrow> 8 word option \<Rightarrow> 32 word" where
  "triple_of b0 b1 b2 = push_bit 16 (byte_int b0) OR push_bit 8 (byte_int (with_default b1 0)) OR byte_int (with_default b2 0)"

definition base64_group :: "8 word \<Rightarrow> 8 word option \<Rightarrow> 8 word option \<Rightarrow> string" where
  "base64_group b0 b1 b2 = (let triple = triple_of b0 b1 b2 in
     [sextet_char triple 18, sextet_char triple 12,
      if b1 = None then CHR ''='' else sextet_char triple 6, if b2 = None then CHR ''='' else sextet_char triple 0])"

fun mobile_toBase64 :: "bytes \<Rightarrow> string" where
  "mobile_toBase64 (b0 # b1 # b2 # rest) = base64_group b0 (Some b1) (Some b2) @ mobile_toBase64 rest"
| "mobile_toBase64 [b0, b1] = base64_group b0 (Some b1) None"
| "mobile_toBase64 [b0] = base64_group b0 None None"
| "mobile_toBase64 [] = []"

text \<open>The browser's: \<open>btoa\<close> of the bytes as characters.\<close>

definition btoa :: "string \<Rightarrow> string" where
  "btoa binary = base64_encode (map (\<lambda>c. of_nat (of_char c)) binary)"

definition capture_toBase64 :: "bytes \<Rightarrow> string" where
  "capture_toBase64 bs = btoa (map (\<lambda>b. char_of (unat b)) bs)"

lemma or_push: "y < 2 ^ n \<Longrightarrow> push_bit n x OR y = x * 2 ^ n + (y :: nat)"
proof -
  assume "y < 2 ^ n"
  then have y: "take_bit n y = y" by (rule take_bit_nat_eq_self)
  have "\<not> (bit (push_bit n x) i \<and> bit y i)" for i
    by (subst y[symmetric]) (auto simp: bit_push_bit_iff bit_take_bit_iff)
  then have "push_bit n x AND y = 0" by (auto simp: bit_eq_iff bit_and_iff)
  then show ?thesis by (simp add: disjunctive_add_eq_or[symmetric] push_bit_eq_mult)
qed

lemma unat_byte_int [simp]: "unat (byte_int b) = unat b"
  proof -
  have "unat b < 4294967296" using byte_less[of b] by linarith
  then show ?thesis by (simp add: byte_int_def unsigned_ucast_eq take_bit_eq_mod)
qed

lemma unat_triple:
  "unat (triple_of b0 b1 b2) = unat b0 * 65536 + unat (with_default b1 0) * 256 + unat (with_default b2 0)"
proof -
  let ?a = "unat b0" and ?b = "unat (with_default b1 0)" and ?c = "unat (with_default b2 0)"
  have l: "?a < 256" "?b < 256" "?c < 256" by simp_all
  have m: "?a * 65536 < 4294967296" "?b * 256 < 4294967296" using l by linarith+
  have t: "take_bit 32 (push_bit 16 ?a) = push_bit 16 ?a" "take_bit 32 (push_bit 8 ?b) = push_bit 8 ?b"
    using m by (simp_all add: push_bit_eq_mult take_bit_eq_mod)
  have "unat (triple_of b0 b1 b2) = push_bit 16 ?a OR (push_bit 8 ?b OR ?c)"
    by (simp add: triple_of_def unsigned_or_eq unsigned_push_bit_eq t or.assoc)
  also have "push_bit 8 ?b OR ?c = ?b * 256 + ?c" using or_push[of ?c 8 ?b] l by simp
  also have "push_bit 16 ?a OR (?b * 256 + ?c) = ?a * 65536 + (?b * 256 + ?c)"
    using or_push[of "?b * 256 + ?c" 16 ?a] l by simp
  finally show ?thesis by simp
qed

lemma sextet_char_nat: "sextet_char t k = b64_char (unat t div 2 ^ k mod 64)"
proof -
  have "unat (drop_bit k t AND 63) = unat t div 2 ^ k mod 64"
  proof -
    have m: "(63 :: 32 word) = mask 6" by (simp add: mask_eq_exp_minus_1)
    have "unat (drop_bit k t AND 63) = take_bit 6 (unat (drop_bit k t))"
      by (simp only: m take_bit_eq_mask[symmetric] unsigned_take_bit_eq)
    also have "\<dots> = unat t div 2 ^ k mod 64" by (subst unat_drop_bit_eq) (simp add: drop_bit_eq_div take_bit_eq_mod)
    finally show ?thesis .
  qed
  then show ?thesis by (simp add: sextet_char_def)
qed

lemma sextets_of_triple:
  assumes "a < 256" and "b < 256" and "c < 256" and "n = a * 65536 + b * 256 + (c :: nat)"
  shows "n div 2 ^ 18 mod 64 = a div 4" and "n div 2 ^ 12 mod 64 = a mod 4 * 16 + b div 16"
    and "n div 2 ^ 6 mod 64 = b mod 16 * 4 + c div 64" and "n div 2 ^ 0 mod 64 = c mod 64"
proof -
  define a1 a0 b1 b0 c1 c0 where d: "a1 = a div 4" "a0 = a mod 4" "b1 = b div 16" "b0 = b mod 16" "c1 = c div 64" "c0 = c mod 64"
  have l: "a1 < 64" "a0 < 4" "b1 < 16" "b0 < 16" "c1 < 4" "c0 < 64" using assms by (simp_all add: d)
  have "a = 4 * a1 + a0" "b = 16 * b1 + b0" "c = 64 * c1 + c0" by (simp_all add: d)
  then have n: "n = 262144 * a1 + 65536 * a0 + 4096 * b1 + 256 * b0 + 64 * c1 + c0" using assms(4) by simp
  have q: "m = k * q + r \<Longrightarrow> r < k \<Longrightarrow> m div k = q" and s: "m = k * q + r \<Longrightarrow> r < k \<Longrightarrow> m mod k = r" for m k q r :: nat
    by simp_all
  have "n div 262144 = a1"
    by (rule q[where r = "65536 * a0 + 4096 * b1 + 256 * b0 + 64 * c1 + c0"]) (use n l in \<open>simp_all add: algebra_simps\<close>)
  then have "n div 262144 mod 64 = a1" using l by simp
  then show "n div 2 ^ 18 mod 64 = a div 4" by (simp add: d)
  have "n div 4096 = 64 * a1 + (16 * a0 + b1)"
    by (rule q[where r = "256 * b0 + 64 * c1 + c0"]) (use n l in \<open>simp_all add: algebra_simps\<close>)
  then have "n div 4096 mod 64 = 16 * a0 + b1" by (rule s) (use l in linarith)
  then show "n div 2 ^ 12 mod 64 = a mod 4 * 16 + b div 16" by (simp add: d)
  have "n div 64 = 64 * (64 * a1 + 16 * a0 + b1) + (4 * b0 + c1)"
    by (rule q[where r = c0]) (use n l in \<open>simp_all add: algebra_simps\<close>)
  then have "n div 64 mod 64 = 4 * b0 + c1" by (rule s) (use l in linarith)
  then show "n div 2 ^ 6 mod 64 = b mod 16 * 4 + c div 64" by (simp add: d)
  have "n mod 64 = c0" by (rule s[where q = "4096 * a1 + 1024 * a0 + 64 * b1 + 4 * b0 + c1"]) (use n l in \<open>simp_all add: algebra_simps\<close>)
  then show "n div 2 ^ 0 mod 64 = c mod 64" by (simp add: d)
qed

lemma base64_group_eq:
  "base64_group b0 b1 b2 = (let b = unat (with_default b1 0); c = unat (with_default b2 0) in
    [b64_char (unat b0 div 4), b64_char (unat b0 mod 4 * 16 + b div 16),
     if b1 = None then CHR ''='' else b64_char (b mod 16 * 4 + c div 64), if b2 = None then CHR ''='' else b64_char (c mod 64)])"
  using sextets_of_triple[OF byte_less byte_less byte_less unat_triple, of b0 b1 b2]
  by (simp only: base64_group_def Let_def sextet_char_nat)

lemma mobile_base64 [simp]: "mobile_toBase64 bs = base64_encode bs"
  by (induction bs rule: base64_encode.induct) (simp_all add: base64_group_eq with_default_def Let_def)

lemma capture_base64 [simp]: "capture_toBase64 bs = base64_encode bs"
  by (simp add: capture_toBase64_def btoa_def comp_def)

section \<open>Stored identities\<close>

text \<open>A stored text, by what parsing it gives; an empty text is not parsed.\<close>

datatype stored_text = EmptyText | Unparsable | Parses json

type_synonym text_store = "string \<Rightarrow> stored_text option"

definition is_stored :: "stored_text option \<Rightarrow> bool" where
  "is_stored raw = (raw \<noteq> None \<and> raw \<noteq> Some EmptyText)"

record DeviceIdentity =
  di_privateKeyHex :: string
  di_publicKeyBase64 :: string

definition member :: "string \<Rightarrow> json \<Rightarrow> json option" where
  "member k v = (case v of JObj kvs \<Rightarrow> map_of kvs k | _ \<Rightarrow> None)"

definition text_member :: "string \<Rightarrow> json \<Rightarrow> string" where
  "text_member k v = (case member k v of Some (JStr s) \<Rightarrow> s | _ \<Rightarrow> '''')"

definition number_member :: "string \<Rightarrow> json \<Rightarrow> jsnum option" where
  "number_member k v = (case member k v of Some (JNum x) \<Rightarrow> Some x | _ \<Rightarrow> None)"

definition identity_json :: "DeviceIdentity \<Rightarrow> json" where
  "identity_json d = JObj [(''privateKeyHex'', JStr (di_privateKeyHex d)), (''publicKeyBase64'', JStr (di_publicKeyBase64 d))]"

definition identity_of_json :: "json \<Rightarrow> DeviceIdentity" where
  "identity_of_json v = \<lparr>di_privateKeyHex = text_member ''privateKeyHex'' v, di_publicKeyBase64 = text_member ''publicKeyBase64'' v\<rparr>"

definition IDENTITY_KEY :: string where "IDENTITY_KEY = ''proofchain.device.identity.v1''"
definition DEVICE_META_KEY :: string where "DEVICE_META_KEY = ''proofchain.device.meta.v1''"

text \<open>The curve: the public key of a secret, and the signature of a message under a secret.\<close>

record curve =
  getPublicKey :: "bytes \<Rightarrow> bytes"
  ed_sign :: "bytes \<Rightarrow> bytes \<Rightarrow> bytes"

text \<open>Both apps' \<open>loadOrCreateIdentity\<close>, for the secret the random source gives and an encoder of bytes.\<close>

definition loadOrCreate :: "(bytes \<Rightarrow> string) \<Rightarrow> curve \<Rightarrow> bytes \<Rightarrow> text_store \<Rightarrow> (DeviceIdentity \<times> text_store) result" where
  "loadOrCreate toBase64 C secret store = (if is_stored (store IDENTITY_KEY)
     then (case the (store IDENTITY_KEY) of
         Parses v \<Rightarrow> return (identity_of_json v, store)
       | _ \<Rightarrow> throw (PlainError ''Unexpected token in JSON''))
     else (let identity = \<lparr>di_privateKeyHex = toHex secret, di_publicKeyBase64 = toBase64 (getPublicKey C secret)\<rparr>
       in return (identity, store(IDENTITY_KEY \<mapsto> Parses (identity_json identity)))))"

definition mobile_loadOrCreateIdentity :: "curve \<Rightarrow> (nat \<Rightarrow> bytes) \<Rightarrow> text_store \<Rightarrow> (DeviceIdentity \<times> text_store) result" where
  "mobile_loadOrCreateIdentity C randomBytes store = loadOrCreate mobile_toBase64 C (randomBytes 32) store"

definition capture_loadOrCreateIdentity :: "curve \<Rightarrow> bytes \<Rightarrow> text_store \<Rightarrow> (DeviceIdentity \<times> text_store) result" where
  "capture_loadOrCreateIdentity C randomPrivateKey store = loadOrCreate capture_toBase64 C randomPrivateKey store"

definition mobile_resetIdentity :: "text_store \<Rightarrow> text_store" where
  "mobile_resetIdentity store = store(IDENTITY_KEY := None, DEVICE_META_KEY := None)"

definition capture_resetIdentity :: "text_store \<Rightarrow> text_store" where
  "capture_resetIdentity store = store(IDENTITY_KEY := None)"

text \<open>Signing: the message is the canonical payload, and an exception is passed on.\<close>

definition mobile_signWeighIn :: "curve \<Rightarrow> WeighInPayload \<Rightarrow> DeviceIdentity \<Rightarrow> string result" where
  "mobile_signWeighIn C payload identity = (case canonicalEventPayload payload of
      Inl e \<Rightarrow> throw e
    | Inr message \<Rightarrow> return (mobile_toBase64 (ed_sign C (utf8 message) (fromHex (di_privateKeyHex identity)))))"

definition capture_signWeighIn :: "curve \<Rightarrow> WeighInPayload \<Rightarrow> DeviceIdentity \<Rightarrow> string result" where
  "capture_signWeighIn C payload identity = (case canonicalEventPayload payload of
      Inl e \<Rightarrow> throw e
    | Inr message \<Rightarrow> (let signature = ed_sign C (utf8 message) (fromHex (di_privateKeyHex identity))
        in return (capture_toBase64 signature)))"

definition hashPhoto :: "bytes \<Rightarrow> string" where
  "hashPhoto buffer = toHex (sha256 buffer)"

definition hashPhotoFile :: "(string \<Rightarrow> string) \<Rightarrow> string \<Rightarrow> string" where
  "hashPhotoFile readBase64 uri = toHex (sha256 (base64_decode (readBase64 uri)))"

definition randomNonce :: "bytes \<Rightarrow> string" where
  "randomNonce random16 = toHex random16"

text \<open>A v4 UUID from 16 random bytes, where the browser does not provide one.\<close>

definition v4_bytes :: "bytes \<Rightarrow> bytes" where
  "v4_bytes bytes = (let b = bytes[6 := (bytes ! 6 AND 0x0f) OR 0x40] in b[8 := (b ! 8 AND 0x3f) OR 0x80])"

definition randomId :: "string option \<Rightarrow> bytes \<Rightarrow> string" where
  "randomId randomUUID random16 = (case randomUUID of Some u \<Rightarrow> u
    | None \<Rightarrow> (let hex = toHex (v4_bytes random16) in
        take 8 hex @ ''-'' @ take 4 (drop 8 hex) @ ''-'' @ take 4 (drop 12 hex) @ ''-'' @ take 4 (drop 16 hex) @ ''-'' @ drop 20 hex))"

section \<open>What the operator assigned\<close>

record DeviceMeta =
  dm_deviceId :: string
  dm_collectorId :: string
  dm_collectorName :: string
  dm_hubId :: string
  dm_hubName :: string
  dm_minWeightKg :: "jsnum option"
  dm_maxWeightKg :: "jsnum option"

text \<open>A bound that is absent is not written; one that is no finite number is written as null.\<close>

definition bound_members :: "string \<Rightarrow> jsnum option \<Rightarrow> (string \<times> json) list" where
  "bound_members k b = (case b of None \<Rightarrow> [] | Some x \<Rightarrow> [(k, if is_finite x then JNum x else JNull)])"

definition meta_json :: "DeviceMeta \<Rightarrow> json" where
  "meta_json m = JObj ([(''deviceId'', JStr (dm_deviceId m)), (''collectorId'', JStr (dm_collectorId m)),
     (''collectorName'', JStr (dm_collectorName m)), (''hubId'', JStr (dm_hubId m)), (''hubName'', JStr (dm_hubName m))]
     @ bound_members ''minWeightKg'' (dm_minWeightKg m) @ bound_members ''maxWeightKg'' (dm_maxWeightKg m))"

definition meta_of_json :: "json \<Rightarrow> DeviceMeta" where
  "meta_of_json v = \<lparr>dm_deviceId = text_member ''deviceId'' v, dm_collectorId = text_member ''collectorId'' v,
     dm_collectorName = text_member ''collectorName'' v, dm_hubId = text_member ''hubId'' v, dm_hubName = text_member ''hubName'' v,
     dm_minWeightKg = number_member ''minWeightKg'' v, dm_maxWeightKg = number_member ''maxWeightKg'' v\<rparr>"

definition loadDeviceMeta :: "text_store \<Rightarrow> DeviceMeta option result" where
  "loadDeviceMeta store = (if is_stored (store DEVICE_META_KEY)
     then (case the (store DEVICE_META_KEY) of
         Parses v \<Rightarrow> return (if v = JNull then None else Some (meta_of_json v))
       | _ \<Rightarrow> throw (PlainError ''Unexpected token in JSON''))
     else return None)"

definition saveDeviceMeta :: "DeviceMeta \<Rightarrow> text_store \<Rightarrow> text_store" where
  "saveDeviceMeta m store = store(DEVICE_META_KEY \<mapsto> Parses (meta_json m))"

section \<open>What is stored is read back\<close>

lemma identity_round_trip [simp]: "identity_of_json (identity_json d) = d"
  by (cases d) (simp add: identity_of_json_def identity_json_def text_member_def member_def)

lemma meta_round_trip:
  assumes "\<forall>x. dm_minWeightKg m = Some x \<or> dm_maxWeightKg m = Some x \<longrightarrow> is_finite x"
  shows "loadDeviceMeta (saveDeviceMeta m store) = Inr (Some m)"
  using assms
  by (cases m) (auto simp: loadDeviceMeta_def saveDeviceMeta_def is_stored_def meta_json_def meta_of_json_def text_member_def
      number_member_def member_def bound_members_def split: option.splits)

text \<open>What the libraries document of ed25519: the lengths, and that a signature verifies under its key.\<close>

definition ed25519_laws :: "curve \<Rightarrow> (bytes \<Rightarrow> bytes \<Rightarrow> bytes \<Rightarrow> bool option) \<Rightarrow> bool" where
  "ed25519_laws C cryptoVerify = (\<forall>secret message. length secret = 32 \<longrightarrow>
     length (getPublicKey C secret) = 32 \<and> length (ed_sign C message secret) = 64
     \<and> cryptoVerify (getPublicKey C secret) message (ed_sign C message secret) = Some True)"

lemma created_identity:
  assumes "\<not> is_stored (store IDENTITY_KEY)" and "enc = base64_encode"
  shows "\<exists>d store'. loadOrCreate enc C secret store = Inr (d, store') \<and> loadOrCreate enc C secret' store' = Inr (d, store')
    \<and> fromHex (di_privateKeyHex d) = secret \<and> di_publicKeyBase64 d = base64_encode (getPublicKey C secret)"
proof -
  define d where "d = \<lparr>di_privateKeyHex = toHex secret, di_publicKeyBase64 = enc (getPublicKey C secret)\<rparr>"
  define store' where "store' = store(IDENTITY_KEY \<mapsto> Parses (identity_json d))"
  have "loadOrCreate enc C secret store = Inr (d, store')"
    using assms(1) by (simp add: loadOrCreate_def Let_def d_def store'_def)
  moreover have "loadOrCreate enc C secret' store' = Inr (d, store')"
    by (simp add: loadOrCreate_def is_stored_def store'_def)
  ultimately show ?thesis using assms(2) by (auto simp: d_def)
qed

lemma encoders: "mobile_toBase64 = base64_encode" "capture_toBase64 = base64_encode"
  by (rule ext, simp)+

section \<open>Properties\<close>

text \<open>A device that has just made its identity is believed by the server.  The identity is the one that
  every later start of the app loads, and whatever payload it signs, the signature it sends verifies
  against the public key it enrolled: in both apps, through their own hexadecimal and base64.\<close>

theorem device_signature_is_accepted:
  assumes "ed25519_laws C cv" and "length secret = 32" and "\<not> is_stored (store IDENTITY_KEY)"
    and "canonicalEventPayload p = Inr m"
  shows "(\<exists>d store' sig. mobile_loadOrCreateIdentity C (\<lambda>_. secret) store = Inr (d, store')
      \<and> mobile_loadOrCreateIdentity C (\<lambda>_. other) store' = Inr (d, store')
      \<and> mobile_signWeighIn C p d = Inr sig \<and> verifyWeighInSignature cv p sig (di_publicKeyBase64 d))
    \<and> (\<exists>d store' sig. capture_loadOrCreateIdentity C secret store = Inr (d, store')
      \<and> capture_loadOrCreateIdentity C other store' = Inr (d, store')
      \<and> capture_signWeighIn C p d = Inr sig \<and> verifyWeighInSignature cv p sig (di_publicKeyBase64 d))"
proof -
  have v: "verifyWeighInSignature cv p (base64_encode (ed_sign C (utf8 m) secret)) (base64_encode (getPublicKey C secret))"
    using assms(1,2,4) by (simp add: verify_signature_iff ed25519_laws_def)
  obtain d1 s1 where d1: "loadOrCreate mobile_toBase64 C secret store = Inr (d1, s1)"
      "loadOrCreate mobile_toBase64 C other s1 = Inr (d1, s1)"
      "fromHex (di_privateKeyHex d1) = secret" "di_publicKeyBase64 d1 = base64_encode (getPublicKey C secret)"
    using created_identity[of store, OF assms(3) encoders(1)] by blast
  obtain d2 s2 where d2: "loadOrCreate capture_toBase64 C secret store = Inr (d2, s2)"
      "loadOrCreate capture_toBase64 C other s2 = Inr (d2, s2)"
      "fromHex (di_privateKeyHex d2) = secret" "di_publicKeyBase64 d2 = base64_encode (getPublicKey C secret)"
    using created_identity[of store, OF assms(3) encoders(2)] by blast
  show ?thesis
    using d1 d2 v assms(4)
    by (simp add: mobile_loadOrCreateIdentity_def capture_loadOrCreateIdentity_def mobile_signWeighIn_def capture_signWeighIn_def Let_def)
qed

definition sample_curve :: curve where
  "sample_curve = \<lparr>getPublicKey = id, ed_sign = (\<lambda>message secret. secret @ secret)\<rparr>"

theorem device_signature_is_accepted_witness:
  "\<exists>d store' sig. mobile_loadOrCreateIdentity sample_curve (\<lambda>_. replicate 32 7) Map.empty = Inr (d, store')
    \<and> mobile_signWeighIn sample_curve (sample_payload ''n'' 12345) d = Inr sig
    \<and> verifyWeighInSignature (\<lambda>key _ sig. Some (sig = key @ key)) (sample_payload ''n'' 12345) sig (di_publicKeyBase64 d)"
proof -
  have l: "ed25519_laws sample_curve (\<lambda>key _ sig. Some (sig = key @ key))"
    by (simp add: ed25519_laws_def sample_curve_def)
  have c: "canonicalEventPayload (sample_payload ''n'' 12345) = Inr (canonical_text (sample_payload ''n'' 12345))"
    by (rule canonical_total) (simp add: sample_payload_def gram_weight)
  have s: "length (replicate 32 7) = 32" "\<not> is_stored (Map.empty IDENTITY_KEY)" by (simp_all add: is_stored_def)
  show ?thesis using device_signature_is_accepted[OF l s(1) _ c, of Map.empty] s(2) by blast
qed

text \<open>The mobile app's base64, computed with shifts and masks on 32-bit integers, is the encoding the
  server reads, as is the browser's: decoding it gives the bytes back.\<close>

theorem device_base64_is_read_back:
  "mobile_toBase64 bs = base64_encode bs \<and> capture_toBase64 bs = base64_encode bs
    \<and> base64_decode (mobile_toBase64 bs) = bs \<and> fromHex (toHex bs) = bs"
  by simp

text \<open>The version and variant bits of a random id.\<close>

lemma set_high_bits:
  fixes b :: "8 word"
  shows "unat ((b AND 0x0f) OR 0x40) = 64 + unat b mod 16" and "unat ((b AND 0x3f) OR 0x80) = 128 + unat b mod 64"
proof -
  have m: "(0x0f :: 8 word) = mask 4" "(0x3f :: 8 word) = mask 6" by (simp_all add: mask_eq_exp_minus_1)
  have l: "unat (b AND 0x0f) = unat b mod 16" "unat (b AND 0x3f) = unat b mod 64"
    by (simp_all only: m take_bit_eq_mask[symmetric] unsigned_take_bit_eq) (simp_all add: take_bit_eq_mod)
  have "unat ((b AND 0x0f) OR 0x40) = push_bit 4 4 OR unat b mod 16"
    by (simp only: unsigned_or_eq l) (simp add: or.commute)
  then show "unat ((b AND 0x0f) OR 0x40) = 64 + unat b mod 16" using or_push[of "unat b mod 16" 4 4] by simp
  have "unat ((b AND 0x3f) OR 0x80) = push_bit 6 2 OR unat b mod 64"
    by (simp only: unsigned_or_eq l) (simp add: or.commute)
  then show "unat ((b AND 0x3f) OR 0x80) = 128 + unat b mod 64" using or_push[of "unat b mod 64" 6 2] by simp
qed

lemma length_16:
  assumes "length xs = 16"
  obtains a0 a1 a2 a3 a4 a5 a6 a7 a8 a9 a10 a11 a12 a13 a14 a15 where
    "xs = [a0, a1, a2, a3, a4, a5, a6, a7, a8, a9, a10, a11, a12, a13, a14, a15]"
  using assms by (auto simp: length_Suc_conv numeral_eq_Suc)

definition is_v4 :: "string \<Rightarrow> bool" where
  "is_v4 u = (length u = 36 \<and> list_all (\<lambda>k. u ! k = CHR ''-'') [8, 13, 18, 23] \<and> u ! 14 = CHR ''4''
     \<and> u ! 19 \<in> set ''89ab'' \<and> list_all (\<lambda>c. c = CHR ''-'' \<or> is_lower_hex c) u)"

text \<open>The fallback for a queue id is a version 4 UUID, whatever the random bytes are.\<close>

theorem randomId_is_v4:
  assumes "length random16 = 16"
  shows "is_v4 (randomId None random16)"
proof -
  obtain a0 a1 a2 a3 a4 a5 a6 a7 a8 a9 a10 a11 a12 a13 a14 a15 where
    xs: "random16 = [a0, a1, a2, a3, a4, a5, a6, a7, a8, a9, a10, a11, a12, a13, a14, a15]"
    using length_16[OF assms] by blast
  define y z where "y = (a6 AND 0x0f) OR (0x40 :: 8 word)" and "z = (a8 AND 0x3f) OR (0x80 :: 8 word)"
  have "unat y div 16 = 4" unfolding y_def set_high_bits by presburger
  moreover have "hex_digit 4 = CHR ''4''" by code_simp
  ultimately have y: "hex_digit (unat y div 16) = CHR ''4''" by simp
  have "unat z div 16 \<in> {8, 9, 10, 11}" unfolding z_def set_high_bits by auto
  moreover have "hex_digit 8 = CHR ''8''" "hex_digit 9 = CHR ''9''" "hex_digit 10 = CHR ''a''" "hex_digit 11 = CHR ''b''"
    by code_simp+
  ultimately have z: "hex_digit (unat z div 16) \<in> set ''89ab''" by auto
  have v: "v4_bytes random16 = [a0, a1, a2, a3, a4, a5, y, a7, z, a9, a10, a11, a12, a13, a14, a15]"
    by (simp add: xs v4_bytes_def y_def z_def Let_def)
  have "is_lower_hex (CHR ''4'')" by code_simp
  then show ?thesis
    using y z by (simp add: randomId_def v hex_encode_def hex_byte_def is_v4_def byte_halves Let_def)
qed

theorem randomId_is_v4_witness: "is_v4 (randomId None (replicate 16 255))"
  by (rule randomId_is_v4) simp

section \<open>A device that signs\<close>

text \<open>A device whose identity was made from a secret.\<close>

definition made_from :: "curve \<Rightarrow> bytes \<Rightarrow> DeviceIdentity \<Rightarrow> bool" where
  "made_from C secret identity = (length secret = 32 \<and> di_privateKeyHex identity = toHex secret
     \<and> di_publicKeyBase64 identity = capture_toBase64 (getPublicKey C secret))"

lemma signed_verifies:
  assumes "ed25519_laws C cv" and "made_from C secret identity" and "mobile_signWeighIn C payload identity = Inr sig \<or> capture_signWeighIn C payload identity = Inr sig"
  shows "verifyWeighInSignature cv payload sig (di_publicKeyBase64 identity)"
proof -
  have id: "fromHex (di_privateKeyHex identity) = secret" "length secret = 32"
      "di_publicKeyBase64 identity = base64_encode (getPublicKey C secret)"
    using assms(2) by (simp_all add: made_from_def)
  obtain m where m: "canonicalEventPayload payload = Inr m" "sig = base64_encode (ed_sign C (utf8 m) secret)"
    using assms(3) by (cases "canonicalEventPayload payload") (auto simp: mobile_signWeighIn_def capture_signWeighIn_def id(1) Let_def)
  have "length (getPublicKey C secret) = 32" "length (ed_sign C (utf8 m) secret) = 64"
      "cv (getPublicKey C secret) (utf8 m) (ed_sign C (utf8 m) secret) = Some True"
    using assms(1) id(2) unfolding ed25519_laws_def by blast+
  then show ?thesis by (simp add: verify_signature_iff id(3) m)
qed

text \<open>One for the witnesses.\<close>

definition sample_identity :: DeviceIdentity where
  "sample_identity = \<lparr>di_privateKeyHex = toHex (replicate 32 7), di_publicKeyBase64 = capture_toBase64 (replicate 32 7)\<rparr>"

lemma sample_made: "made_from sample_curve (replicate 32 7) sample_identity"
  by (simp add: made_from_def sample_identity_def sample_curve_def)

lemma sample_laws: "ed25519_laws sample_curve (\<lambda>key _ sig. Some (sig = key @ key))"
  by (simp add: ed25519_laws_def sample_curve_def)

end
