(* ===== verification/DeviceCatalogue.thy ===== *)
theory DeviceCatalogue
  imports DeviceIdentity Materials
begin

text \<open>
  The material catalogue on the devices: \<open>apps/mobile/src/lib/materials.ts\<close> and
  \<open>apps/capture/src/lib/materials.ts\<close>.  A stored text is modelled by what \<open>JSON.parse\<close> makes of
  it, the answer of the backend by what becomes of the request.  An entry whose description is no
  text is read without one, and one whose sort order is no number as if it were 0.
\<close>

section \<open>Entries of a cache or an answer\<close>

definition string_member :: "string \<Rightarrow> json \<Rightarrow> string option" where
  "string_member k v = (case member k v of Some (JStr s) \<Rightarrow> Some s | _ \<Rightarrow> None)"

definition flag_member :: "string \<Rightarrow> json \<Rightarrow> bool option" where
  "flag_member k v = (case member k v of Some (JBool b) \<Rightarrow> Some b | _ \<Rightarrow> None)"

definition isMaterial :: "json \<Rightarrow> bool" where
  "isMaterial v = (string_member ''code'' v \<noteq> None \<and> length (text_member ''code'' v) > 0
     \<and> string_member ''name'' v \<noteq> None \<and> flag_member ''active'' v \<noteq> None)"

definition sanitise :: "json \<Rightarrow> Material" where
  "sanitise v = \<lparr>m_code = text_member ''code'' v, m_name = text_member ''name'' v,
     m_description = string_member ''description'' v,
     m_examples = normaliseExamples (with_default (member ''examples'' v) JUndefined), m_active = with_default (flag_member ''active'' v) False,
     m_sortOrder = (case number_member ''sortOrder'' v of Some x \<Rightarrow> \<lfloor>rval x\<rfloor> | None \<Rightarrow> 0)\<rparr>"

definition clean_materials :: "json list \<Rightarrow> Material list" where
  "clean_materials entries = map sanitise (filter isMaterial entries)"

definition material_json :: "Material \<Rightarrow> json" where
  "material_json m = JObj [(''code'', JStr (m_code m)), (''name'', JStr (m_name m)),
     (''description'', case m_description m of None \<Rightarrow> JNull | Some d \<Rightarrow> JStr d),
     (''examples'', strings_json (m_examples m)), (''active'', JBool (m_active m)),
     (''sortOrder'', JNum (Fin (of_int (m_sortOrder m))))]"

section \<open>The cache\<close>

record CachedCatalogue =
  cc_fetchedAt :: "string option"
  cc_origin :: string
  cc_materials :: "Material list"

definition CACHE_KEY :: string where "CACHE_KEY = ''proofchain.materials.v1''"

definition catalogue_json :: "string \<Rightarrow> string \<Rightarrow> Material list \<Rightarrow> json" where
  "catalogue_json fetchedAt origin ms = JObj [(''fetchedAt'', JStr fetchedAt), (''origin'', JStr origin),
     (''materials'', JArr (map material_json ms))]"

text \<open>The browser's \<open>readCache\<close>: nothing of another backend, and only entries that are materials.\<close>

definition capture_readCache :: "string \<Rightarrow> text_store \<Rightarrow> CachedCatalogue option" where
  "capture_readCache backendUrl store = (case store CACHE_KEY of
      Some (Parses parsed) \<Rightarrow> (case member ''materials'' parsed of
          Some (JArr entries) \<Rightarrow> if member ''origin'' parsed \<noteq> Some (JStr backendUrl) then None
            else Some \<lparr>cc_fetchedAt = string_member ''fetchedAt'' parsed, cc_origin = backendUrl,
              cc_materials = clean_materials entries\<rparr>
        | _ \<Rightarrow> None)
    | _ \<Rightarrow> None)"

text \<open>The mobile app's also refuses a cache that holds no material.\<close>

definition mobile_readCache :: "text_store \<Rightarrow> string \<Rightarrow> CachedCatalogue option" where
  "mobile_readCache store origin = (case capture_readCache origin store of
      None \<Rightarrow> None
    | Some cached \<Rightarrow> if length (cc_materials cached) > 0 then Some cached else None)"

text \<open>What is offered: the active entries, else the active seeds, else one entry that is always there.\<close>

definition MIXED_PLASTIC :: Material where
  "MIXED_PLASTIC = \<lparr>m_code = ''MIXED'', m_name = ''Mixed plastic'', m_description = None, m_examples = [], m_active = True,
     m_sortOrder = 0\<rparr>"

definition pickableFrom :: "(string \<Rightarrow> string \<Rightarrow> int) \<Rightarrow> Material list \<Rightarrow> Material list" where
  "pickableFrom localeCompare all_materials = (let active = activeMaterials localeCompare all_materials in
     if length active > 0 then active
     else (let seeded = activeMaterials localeCompare SEED_MATERIALS in
       if length seeded > 0 then seeded else [MIXED_PLASTIC]))"

section \<open>The mobile app\<close>

record Catalogue =
  ct_all :: "Material list"
  ct_pickable :: "Material list"
  ct_isFallback :: bool
  ct_fetchedAt :: "string option"

definition fallbackCatalogue :: "(string \<Rightarrow> string \<Rightarrow> int) \<Rightarrow> Catalogue" where
  "fallbackCatalogue lc = \<lparr>ct_all = sortMaterials lc SEED_MATERIALS, ct_pickable = pickableFrom lc SEED_MATERIALS,
     ct_isFallback = True, ct_fetchedAt = None\<rparr>"

definition loadCatalogue :: "(string \<Rightarrow> string \<Rightarrow> int) \<Rightarrow> text_store \<Rightarrow> string \<Rightarrow> Catalogue" where
  "loadCatalogue lc store origin = (let cached = mobile_readCache store origin;
       everything = sortMaterials lc (case cached of Some c \<Rightarrow> cc_materials c | None \<Rightarrow> SEED_MATERIALS)
     in \<lparr>ct_all = everything, ct_pickable = pickableFrom lc everything, ct_isFallback = (cached = None),
         ct_fetchedAt = Option.bind cached cc_fetchedAt\<rparr>)"

text \<open>What becomes of a request: no answer in time, or an answer that is ok or not with a body that parses or not.\<close>

datatype fetched = NoAnswer | Answered bool "json option"

definition answer_entries :: "fetched \<Rightarrow> json list option" where
  "answer_entries a = (case a of Answered True (Some (JArr entries)) \<Rightarrow> Some entries | _ \<Rightarrow> None)"

definition mobile_refreshCatalogue ::
  "(string \<Rightarrow> string \<Rightarrow> int) \<Rightarrow> fetched \<Rightarrow> string \<Rightarrow> string \<Rightarrow> text_store \<Rightarrow> Catalogue \<times> text_store" where
  "mobile_refreshCatalogue lc a nowText origin store = (case answer_entries a of
      None \<Rightarrow> (loadCatalogue lc store origin, store)
    | Some body \<Rightarrow> (let clean = clean_materials body in
        if length clean = 0 then (loadCatalogue lc store origin, store)
        else (let store' = store(CACHE_KEY \<mapsto> Parses (catalogue_json nowText origin clean))
          in (loadCatalogue lc store' origin, store'))))"

definition mobile_reconcileSelection :: "Catalogue \<Rightarrow> string option \<Rightarrow> string" where
  "mobile_reconcileSelection catalogue current =
    (if current \<noteq> None \<and> current \<noteq> Some '''' \<and> exists_where (\<lambda>m. m_code m = the current) (ct_pickable catalogue)
     then the current else m_code (hd (ct_pickable catalogue)))"

section \<open>The browser app\<close>

definition cachedCatalogue :: "(string \<Rightarrow> string \<Rightarrow> int) \<Rightarrow> string \<Rightarrow> text_store \<Rightarrow> Material list" where
  "cachedCatalogue lc backendUrl store = (case capture_readCache backendUrl store of
      Some cached \<Rightarrow> if length (cc_materials cached) > 0 then sortMaterials lc (cc_materials cached) else sortMaterials lc SEED_MATERIALS
    | None \<Rightarrow> sortMaterials lc SEED_MATERIALS)"

definition pickableMaterials :: "(string \<Rightarrow> string \<Rightarrow> int) \<Rightarrow> string \<Rightarrow> text_store \<Rightarrow> Material list" where
  "pickableMaterials lc backendUrl store = pickableFrom lc (cachedCatalogue lc backendUrl store)"

definition isUsingFallbackCatalogue :: "string \<Rightarrow> text_store \<Rightarrow> bool" where
  "isUsingFallbackCatalogue backendUrl store = (capture_readCache backendUrl store = None)"

definition catalogueFetchedAt :: "string \<Rightarrow> text_store \<Rightarrow> string option" where
  "catalogueFetchedAt backendUrl store = Option.bind (capture_readCache backendUrl store) cc_fetchedAt"

definition material_text :: "Material \<Rightarrow> string" where
  "material_text m = m_code m @ ''|'' @ m_name m @ ''|'' @ (if m_active m then ''true'' else ''false'') @ ''|''
     @ int_to_string (m_sortOrder m) @ ''|'' @ join_with '','' (m_examples m)"

definition serialise :: "(string \<Rightarrow> string \<Rightarrow> int) \<Rightarrow> Material list \<Rightarrow> string" where
  "serialise lc ms = join_with '';'' (map material_text (sortMaterials lc ms))"

text \<open>The result says whether anything changed; the caller renders again only then.\<close>

definition capture_refreshCatalogue ::
  "(string \<Rightarrow> string \<Rightarrow> int) \<Rightarrow> fetched \<Rightarrow> string \<Rightarrow> string \<Rightarrow> text_store \<Rightarrow> bool \<times> text_store" where
  "capture_refreshCatalogue lc a nowText origin store = (case answer_entries a of
      None \<Rightarrow> (False, store)
    | Some body \<Rightarrow> if length body = 0 then (False, store) else (let clean = clean_materials body in
        if length clean = 0 then (False, store)
        else (let previous = capture_readCache origin store;
            unchanged = (case previous of None \<Rightarrow> False
              | Some p \<Rightarrow> cc_origin p = origin \<and> serialise lc (cc_materials p) = serialise lc clean)
          in (\<not> unchanged, store(CACHE_KEY \<mapsto> Parses (catalogue_json nowText origin clean))))))"

definition capture_reconcileSelection :: "Material list \<Rightarrow> string \<Rightarrow> string" where
  "capture_reconcileSelection pickable material =
    (if \<not> exists_where (\<lambda>m. m_code m = material) pickable then m_code (hd pickable) else material)"

section \<open>What a cache gives back\<close>

lemma material_round_trip:
  "good_examples (m_examples m) \<Longrightarrow> sanitise (material_json m) = m"
  by (cases m) (simp add: sanitise_def material_json_def text_member_def string_member_def flag_member_def number_member_def
      member_def with_default_def normalise_good_id split: option.split)

lemma isMaterial_json: "isMaterial (material_json m) \<longleftrightarrow> m_code m \<noteq> ''''"
  by (simp add: isMaterial_def material_json_def member_def string_member_def text_member_def flag_member_def)

lemma sanitised_good: "m \<in> set (clean_materials es) \<Longrightarrow> good_examples (m_examples m) \<and> m_code m \<noteq> ''''"
  by (auto simp: clean_materials_def sanitise_def normaliseExamples_good isMaterial_def)

lemma clean_round_trip: "clean_materials (map material_json (clean_materials es)) = clean_materials es"
proof -
  have "map sanitise (filter isMaterial (map material_json ms)) = ms"
    if "\<forall>m \<in> set ms. good_examples (m_examples m) \<and> m_code m \<noteq> ''''" for ms
    using that by (induction ms) (simp_all add: isMaterial_json material_round_trip)
  then show ?thesis using sanitised_good by (metis clean_materials_def)
qed

lemma readCache_written:
  "capture_readCache origin (store(CACHE_KEY \<mapsto> Parses (catalogue_json t origin (clean_materials es))))
    = Some \<lparr>cc_fetchedAt = Some t, cc_origin = origin, cc_materials = clean_materials es\<rparr>"
  by (simp add: capture_readCache_def catalogue_json_def member_def string_member_def clean_round_trip)

lemma readCache_elsewhere:
  "other \<noteq> origin \<Longrightarrow> capture_readCache other (store(CACHE_KEY \<mapsto> Parses (catalogue_json t origin ms))) = None"
  by (simp add: capture_readCache_def catalogue_json_def member_def)

section \<open>The picker is never empty\<close>

lemma pickable_ok:
  "pickableFrom lc ms \<noteq> [] \<and> (\<forall>m \<in> set (pickableFrom lc ms). m_active m)"
  by (auto simp: pickableFrom_def Let_def MIXED_PLASTIC_def)

lemma hd_in: "xs \<noteq> [] \<Longrightarrow> hd xs \<in> set xs"
  by simp

lemma reconciled_offered:
  "ct_pickable c \<noteq> [] \<Longrightarrow> \<exists>m \<in> set (ct_pickable c). m_code m = mobile_reconcileSelection c current"
  using hd_in[of "ct_pickable c"] by (auto simp: mobile_reconcileSelection_def exists_where_iff)

lemma capture_reconciled_offered:
  "ms \<noteq> [] \<Longrightarrow> \<exists>m \<in> set ms. m_code m = capture_reconcileSelection ms code"
  using hd_in[of ms] by (auto simp: capture_reconcileSelection_def exists_where_iff)

text \<open>The comparison the browser makes does not see a description.\<close>

lemma serialise_description: "serialise lc (map (\<lambda>m. m\<lparr>m_description := f m\<rparr>) ms) = serialise lc ms"
proof -
  have "sortMaterials lc (map (\<lambda>m. m\<lparr>m_description := f m\<rparr>) ms) = map (\<lambda>m. m\<lparr>m_description := f m\<rparr>) (sortMaterials lc ms)"
    unfolding sortMaterials_def by (rule js_sort_map) (simp add: material_compare_def)
  moreover have "material_text (m\<lparr>m_description := d\<rparr>) = material_text m" for m d by (simp add: material_text_def)
  ultimately show ?thesis by (simp add: serialise_def comp_def)
qed

section \<open>Properties\<close>

text \<open>A collector can always pick a material.  Whatever a device has stored, and whatever was selected
  before, the picker of either app is not empty, offers active materials only, and the selection is one of
  them; a selection that is still offered stays.\<close>

theorem picker_always_offers_a_choice:
  "(let c = loadCatalogue lc store origin in ct_pickable c \<noteq> [] \<and> (\<forall>m \<in> set (ct_pickable c). m_active m)
      \<and> mobile_reconcileSelection c current \<in> m_code ` set (ct_pickable c)
      \<and> (\<forall>code \<in> m_code ` set (ct_pickable c). code \<noteq> '''' \<longrightarrow> mobile_reconcileSelection c (Some code) = code))
    \<and> (let ms = pickableMaterials lc origin store in ms \<noteq> [] \<and> (\<forall>m \<in> set ms. m_active m)
      \<and> capture_reconcileSelection ms code \<in> m_code ` set ms
      \<and> (\<forall>code \<in> m_code ` set ms. capture_reconcileSelection ms code = code))"
proof -
  have p: "ct_pickable (loadCatalogue lc store origin) \<noteq> []" "\<forall>m \<in> set (ct_pickable (loadCatalogue lc store origin)). m_active m"
    using pickable_ok by (simp_all add: loadCatalogue_def Let_def)
  have q: "pickableMaterials lc origin store \<noteq> []" "\<forall>m \<in> set (pickableMaterials lc origin store). m_active m"
    using pickable_ok by (simp_all add: pickableMaterials_def)
  show ?thesis
    using p q reconciled_offered[OF p(1), of current] capture_reconciled_offered[OF q(1), of code]
    by (auto simp: Let_def mobile_reconcileSelection_def capture_reconcileSelection_def exists_where_iff)
qed

theorem picker_always_offers_a_choice_witness:
  "capture_reconcileSelection (pickableMaterials (\<lambda>_ _. 0) ''http://x'' Map.empty) ''GONE''
    \<in> m_code ` set (pickableMaterials (\<lambda>_ _. 0) ''http://x'' Map.empty)"
  using picker_always_offers_a_choice[of "\<lambda>_ _. 0" Map.empty "''http://x''" None "''GONE''"] by (simp add: Let_def)

text \<open>A refreshed catalogue is the one shown until the next refresh.  After an answer with at least one
  material, both apps read back from their store exactly the materials the backend sent, cleaned, for that
  backend and no other; an answer without one, or none at all, leaves the store as it was.\<close>

theorem refreshed_catalogue_is_read_back:
  assumes "clean_materials body \<noteq> []"
  shows "(let store' = snd (mobile_refreshCatalogue lc (Answered True (Some (JArr body))) t origin store) in
      ct_all (loadCatalogue lc store' origin) = sortMaterials lc (clean_materials body)
      \<and> ct_fetchedAt (loadCatalogue lc store' origin) = Some t
      \<and> \<not> ct_isFallback (loadCatalogue lc store' origin)
      \<and> (other \<noteq> origin \<longrightarrow> ct_isFallback (loadCatalogue lc store' other)
          \<and> ct_all (loadCatalogue lc store' other) = sortMaterials lc SEED_MATERIALS))
    \<and> cachedCatalogue lc origin (snd (capture_refreshCatalogue lc (Answered True (Some (JArr body))) t origin store))
        = sortMaterials lc (clean_materials body)
    \<and> (a \<in> {NoAnswer, Answered False (Some (JArr body)), Answered True None, Answered True (Some (JArr []))} \<longrightarrow>
        snd (mobile_refreshCatalogue lc a t origin store) = store \<and> capture_refreshCatalogue lc a t origin store = (False, store))"
proof -
  have b: "body \<noteq> []" using assms by (auto simp: clean_materials_def)
  have w: "mobile_readCache (store(CACHE_KEY \<mapsto> Parses (catalogue_json t origin (clean_materials body)))) origin
      = Some \<lparr>cc_fetchedAt = Some t, cc_origin = origin, cc_materials = clean_materials body\<rparr>"
    using assms by (simp add: mobile_readCache_def readCache_written)
  have e: "other \<noteq> origin \<Longrightarrow> mobile_readCache (store(CACHE_KEY \<mapsto> Parses (catalogue_json t origin (clean_materials body)))) other = None"
    by (simp add: mobile_readCache_def readCache_elsewhere)
  show ?thesis
    using assms b w e readCache_written
    by (auto simp: mobile_refreshCatalogue_def capture_refreshCatalogue_def answer_entries_def Let_def loadCatalogue_def
        cachedCatalogue_def clean_materials_def[of "[]"])
qed

theorem refreshed_catalogue_is_read_back_witness:
  "ct_all (loadCatalogue (\<lambda>_ _. 0) (snd (mobile_refreshCatalogue (\<lambda>_ _. 0)
      (Answered True (Some (JArr [material_json MIXED_PLASTIC]))) ''t'' ''o'' Map.empty)) ''o'') = [MIXED_PLASTIC]"
proof -
  have m: "clean_materials [material_json MIXED_PLASTIC] = [MIXED_PLASTIC]"
    by (simp add: clean_materials_def isMaterial_json material_round_trip MIXED_PLASTIC_def good_examples_def)
  show ?thesis
    using refreshed_catalogue_is_read_back[of "[material_json MIXED_PLASTIC]" "\<lambda>_ _. 0" "''t''" "''o''" Map.empty "''o''" NoAnswer]
    by (simp add: m Let_def sortMaterials_def)
qed

end
