(* ===== verification/CaptureHub.thy ===== *)
theory CaptureHub
  imports IntegrityCopy
begin

unbundle bit_operations_syntax

text \<open>
  What a capture device knows of the hub it weighs at and of its scale:
  \<open>apps/capture/src/lib/hubs.ts\<close>, the choice of a hub among a snapshot of the directory, and
  \<open>apps/capture/src/lib/scale.ts\<close>, the frames of a Bluetooth scale.
\<close>

section \<open>Hubs\<close>

record HubOption =
  ho_id :: string
  ho_code :: string
  ho_name :: string
  ho_minWeightKg :: "jsnum option"
  ho_maxWeightKg :: "jsnum option"

record HubAssignment =
  ha_hubId :: string
  ha_hubName :: string

text \<open>The assignment a device holds, with the hub's code where it has one.\<close>

record CurrentHub = HubAssignment +
  ha_hubCode :: "string option"

definition hubLabel :: "string \<Rightarrow> string \<Rightarrow> string" where
  "hubLabel hub_code hub_name = (let code = js_trim hub_code in
     if code = '''' \<or> starts_with code (js_trim hub_name) then hub_name else code @ '' -- '' @ hub_name)"

definition selectHub :: "HubOption list \<Rightarrow> string \<Rightarrow> HubAssignment option" where
  "selectHub hs hubId = (case find_one (\<lambda>h. ho_id h = hubId) hs of
      None \<Rightarrow> None
    | Some hub \<Rightarrow> Some \<lparr>ha_hubId = ho_id hub, ha_hubName = hubLabel (ho_code hub) (ho_name hub)\<rparr>)"

definition synthesised :: "CurrentHub \<Rightarrow> HubOption" where
  "synthesised current = \<lparr>ho_id = ha_hubId current, ho_code = with_default (ha_hubCode current) '''',
     ho_name = ha_hubName current, ho_minWeightKg = None, ho_maxWeightKg = None\<rparr>"

definition hubChoices :: "HubOption list option \<Rightarrow> CurrentHub \<Rightarrow> HubOption list" where
  "hubChoices snapshot current = (case snapshot of
      None \<Rightarrow> [synthesised current]
    | Some hs \<Rightarrow> if length hs > 0
        then (if exists_where (\<lambda>h. ho_id h = ha_hubId current) hs then hs else hs @ [synthesised current])
        else [synthesised current])"

record MergedSnapshot =
  ms_hubs :: "HubOption list"
  ms_assignment :: "HubAssignment option"

definition mergeHubSnapshot :: "HubOption list \<Rightarrow> CurrentHub \<Rightarrow> MergedSnapshot" where
  "mergeHubSnapshot directory current = (let hs = hubChoices (Some directory) current in
     case find_one (\<lambda>h. ho_id h = ha_hubId current) directory of
       None \<Rightarrow> \<lparr>ms_hubs = hs, ms_assignment = None\<rparr>
     | Some fresh \<Rightarrow> (let renamed = (hubLabel (ho_code fresh) (ho_name fresh) \<noteq> ha_hubName current) in
         \<lparr>ms_hubs = hs, ms_assignment = (if renamed then selectHub [fresh] (ho_id fresh) else None)\<rparr>))"

definition boundsForHub :: "HubOption list \<Rightarrow> string \<Rightarrow> HubWeightBounds" where
  "boundsForHub hs hubId = (let hub = find_one (\<lambda>h. ho_id h = hubId) hs in
     \<lparr>minKg = Option.bind hub ho_minWeightKg, maxKg = Option.bind hub ho_maxWeightKg\<rparr>)"

text \<open>The device takes over a new assignment.\<close>

definition adopt :: "HubAssignment option \<Rightarrow> CurrentHub \<Rightarrow> CurrentHub" where
  "adopt a current = (case a of None \<Rightarrow> current
    | Some x \<Rightarrow> current\<lparr>ha_hubId := ha_hubId x, ha_hubName := ha_hubName x\<rparr>)"

section \<open>The scale\<close>

record ScaleReading =
  sr_weightKg :: jsnum
  sr_stable :: bool
  sr_at :: string

text \<open>The numbers written in the source: 0.005, 0.01 and 0.45359237.\<close>

definition pound_kg :: jsnum where "pound_kg = rnd False (45359237 / 100000000)"

text \<open>The little-endian 16-bit word of two bytes.\<close>

definition uint16_le :: "8 word \<Rightarrow> 8 word \<Rightarrow> 16 word" where
  "uint16_le lo hi = ucast lo OR push_bit 8 (ucast hi)"

text \<open>A frame shorter than its three bytes is a \<open>RangeError\<close>.\<close>

definition parseWeightMeasurement :: "string \<Rightarrow> bytes \<Rightarrow> ScaleReading result" where
  "parseWeightMeasurement nowText view = (case view of
      flags # lo # hi # _ \<Rightarrow> (let
          imperial = (flags AND 0x01 = 1);
          raw = js_of_int (int (unat (uint16_le lo hi)));
          weightKg = (if imperial then js_mul (js_mul raw (gram 10)) pound_kg else js_mul raw (gram 5))
        in return \<lparr>sr_weightKg = js_quantise 3 weightKg, sr_stable = True, sr_at = nowText\<rparr>)
    | _ \<Rightarrow> throw (PlainError ''Offset is outside the bounds of the DataView''))"

text \<open>The notification handler: a malformed frame is dropped and the subscription lives on.\<close>

definition on_frame :: "string \<Rightarrow> bytes \<Rightarrow> ScaleReading list \<Rightarrow> ScaleReading list" where
  "on_frame nowText view readings = (case parseWeightMeasurement nowText view of
      Inl _ \<Rightarrow> readings | Inr r \<Rightarrow> readings @ [r])"

section \<open>Which hub the device weighs at\<close>

lemma find_id: "find_one (\<lambda>h. ho_id h = i) hs = Some h \<Longrightarrow> h \<in> set hs \<and> ho_id h = i"
  by (rule find_one_SomeD)

lemma choices_hold_current: "ha_hubId current \<in> ho_id ` set (hubChoices snapshot current)"
  by (auto simp: hubChoices_def synthesised_def exists_where_iff split: option.splits intro: rev_image_eqI)

lemma choices_hold_snapshot: "set hs \<subseteq> set (hubChoices (Some hs) current)"
  by (auto simp: hubChoices_def)

lemma selectHub_current: "\<exists>a. selectHub (hubChoices snapshot current) (ha_hubId current) = Some a \<and> ha_hubId a = ha_hubId current"
proof -
  obtain h where "find_one (\<lambda>h. ho_id h = ha_hubId current) (hubChoices snapshot current) = Some h"
    using choices_hold_current[of current snapshot]
    by (cases "find_one (\<lambda>h. ho_id h = ha_hubId current) (hubChoices snapshot current)") (auto simp: find_one_None_iff)
  then show ?thesis using find_id by (auto simp: selectHub_def)
qed

lemma merge_assignment:
  "ms_assignment (mergeHubSnapshot directory current) = (case find_one (\<lambda>h. ho_id h = ha_hubId current) directory of
     None \<Rightarrow> None
   | Some fresh \<Rightarrow> if hubLabel (ho_code fresh) (ho_name fresh) = ha_hubName current then None
       else Some \<lparr>ha_hubId = ha_hubId current, ha_hubName = hubLabel (ho_code fresh) (ho_name fresh)\<rparr>)"
proof (cases "find_one (\<lambda>h. ho_id h = ha_hubId current) directory")
  case (Some h)
  then have "ho_id h = ha_hubId current" using find_id by blast
  then show ?thesis using Some by (simp add: mergeHubSnapshot_def selectHub_def Let_def)
qed (simp add: mergeHubSnapshot_def Let_def)

lemma merge_adopted: "ha_hubId (adopt (ms_assignment (mergeHubSnapshot directory current)) current) = ha_hubId current"
  by (simp add: merge_assignment adopt_def split: option.split)

lemma merge_settles:
  "ms_assignment (mergeHubSnapshot directory (adopt (ms_assignment (mergeHubSnapshot directory current)) current)) = None"
  by (cases "find_one (\<lambda>h. ho_id h = ha_hubId current) directory") (simp_all add: merge_assignment[of directory] adopt_def)

section \<open>What the scale reads\<close>

lemma unat_uint16_le: "unat (uint16_le lo hi) = unat lo + 256 * unat hi"
proof -
  have l: "unat lo < 256" "unat hi < 256" using unsigned_less[of lo] unsigned_less[of hi] by simp_all
  have m: "unat hi * 256 < 65536" "unat lo < 65536" "unat hi < 65536" using l by linarith+
  have t: "take_bit 16 (push_bit 8 (unat hi)) = push_bit 8 (unat hi)" "take_bit 16 (unat lo) = unat lo" "take_bit 16 (unat hi) = unat hi"
    using m by (simp_all add: push_bit_eq_mult take_bit_eq_mod)
  have lo: "take_bit 8 (unat lo) = unat lo" using l by (simp add: take_bit_eq_mod)
  have "\<not> (bit (unat lo) i \<and> bit (push_bit 8 (unat hi)) i)" for i
    by (subst lo[symmetric]) (auto simp: bit_push_bit_iff bit_take_bit_iff)
  then have "unat lo AND push_bit 8 (unat hi) = 0" by (auto simp: bit_eq_iff bit_and_iff)
  then have "unat lo OR push_bit 8 (unat hi) = unat lo + push_bit 8 (unat hi)" by (simp add: disjunctive_add_eq_or)
  moreover have "unat (uint16_le lo hi) = unat lo OR push_bit 8 (unat hi)"
    by (simp add: uint16_le_def unsigned_or_eq unsigned_push_bit_eq unsigned_ucast_eq t)
  ultimately show ?thesis by (simp add: push_bit_eq_mult)
qed

text \<open>The product of two approximations, and its rounding.\<close>

lemma product_error:
  fixes v x g y :: rat
  assumes "\<bar>v - x\<bar> \<le> e1" and "\<bar>g - y\<bar> \<le> e2" and "\<bar>g\<bar> \<le> G" and "\<bar>x\<bar> \<le> X"
  shows "\<bar>v * g - x * y\<bar> \<le> e1 * G + X * e2"
proof -
  have "v * g - x * y = (v - x) * g + x * (g - y)" by (simp add: algebra_simps)
  then have "\<bar>v * g - x * y\<bar> \<le> \<bar>v - x\<bar> * \<bar>g\<bar> + \<bar>x\<bar> * \<bar>g - y\<bar>"
    by (metis abs_mult abs_triangle_ineq)
  also have "\<dots> \<le> e1 * G + X * e2" using assms by (intro add_mono mult_mono) auto
  finally show ?thesis .
qed

lemma rounded_near:
  assumes "0 \<le> x" and "x \<le> 70000"
  shows "\<exists>z. rnd False x = Fin z \<and> 0 \<le> z \<and> \<bar>z - x\<bar> \<le> 1 / 10 ^ 11"
proof -
  have "\<bar>round_binary64 x - x\<bar> \<le> (70000 + 1) / 2 ^ 53" using assms by (intro round_binary64_near) auto
  moreover have "(70000 + 1) / 2 ^ 53 \<le> (1 / 10 ^ 11 :: rat)" by simp
  ultimately show ?thesis using assms by (simp add: rnd_Fin round_binary64_nonneg)
qed

lemma rounded_small:
  assumes "0 \<le> x" and "x \<le> 1"
  shows "\<exists>z. rnd False x = Fin z \<and> 0 \<le> z \<and> \<bar>z - x\<bar> \<le> 1 / 10 ^ 15"
proof -
  have "\<bar>round_binary64 x - x\<bar> \<le> (1 + 1) / 2 ^ 53" using assms by (intro round_binary64_near) auto
  moreover have "(1 + 1) / 2 ^ 53 \<le> (1 / 10 ^ 15 :: rat)" by simp
  ultimately show ?thesis using assms by (simp add: rnd_Fin round_binary64_nonneg)
qed

lemma js_mul_near:
  assumes "0 \<le> a" and "0 \<le> b" and "a * b \<le> 70000"
  shows "\<exists>z. js_mul (Fin a) (Fin b) = Fin z \<and> 0 \<le> z \<and> \<bar>z - a * b\<bar> \<le> 1 / 10 ^ 11"
proof -
  have "js_mul (Fin a) (Fin b) = rnd False (a * b)" using assms by (simp add: js_mul_def)
  then show ?thesis using rounded_near[of "a * b"] assms by simp
qed

lemma si_weight:
  assumes "n < 65536"
  shows "js_quantise 3 (js_mul (js_of_int (int n)) (gram 5)) = gram (5 * n)"
proof -
  have n: "(of_nat n :: rat) \<le> 65535" using assms by (simp add: of_nat_le_iff[symmetric] del: of_nat_le_iff)
  then obtain v where v: "js_of_int (int n) = Fin v" "0 \<le> v" "\<bar>v - of_nat n\<bar> \<le> 1 / 10 ^ 11"
    using rounded_near[of "of_nat n"] by (auto simp: js_of_int_def)
  obtain g where g: "gram 5 = Fin g" "0 \<le> g" "\<bar>g - 1 / 200\<bar> \<le> 1 / 10 ^ 15"
    using rounded_small[of "1 / 200"] by (auto simp: gram_def)
  have "g \<le> 1" using g(3) by (auto simp: abs_if split: if_splits)
  then have "\<bar>v * g - of_nat n * (1 / 200)\<bar> \<le> 1 / 10 ^ 11 * 1 + 65535 * (1 / 10 ^ 15)"
    using v g n by (intro product_error) auto
  also have "\<dots> \<le> 1 / (10 ^ 9 :: rat)" by simp
  finally have p: "\<bar>v * g - of_nat n / 200\<bar> \<le> 1 / 10 ^ 9" by simp
  moreover have "0 \<le> v * g" using v g by simp
  ultimately obtain z where z: "js_mul (Fin v) (Fin g) = Fin z" "0 \<le> z" "\<bar>z - v * g\<bar> \<le> 1 / 10 ^ 11"
    using js_mul_near[OF v(2) g(2)] n by (auto simp: abs_if split: if_splits)
  have e: "\<bar>z - of_nat (5 * n) / 1000\<bar> \<le> 1 / 10 ^ 9 + 1 / 10 ^ 11" using p z(3) by (auto simp: abs_if split: if_splits)
  have "js_quantise 3 (Fin z) = gram (5 * n)"
    by (rule quantise_near) (use e z(2) n in \<open>auto simp: abs_if split: if_splits\<close>)
  then show ?thesis by (simp add: v g z)
qed

text \<open>A quantised weight is the weight of the nearest gram.\<close>

lemma quantise_is_gram:
  assumes "0 \<le> z" and "z \<le> 70000"
  shows "\<exists>k. js_quantise 3 (Fin z) = gram k \<and> \<bar>of_nat k / 1000 - z\<bar> \<le> 1 / 2000"
proof -
  define k where "k = nat (fixed_int 3 z)"
  have "0 \<le> fixed_int 3 z" using assms by (simp add: fixed_int_def)
  then have k: "of_nat k = (of_int (fixed_int 3 z) :: rat)" by (simp add: k_def)
  have "of_int (fixed_int 3 z) \<le> z * 1000 + 1 / 2" "z * 1000 + 1 / 2 < of_int (fixed_int 3 z) + 1"
    using floor_correct[of "z * 1000 + 1 / 2"] by (simp_all add: fixed_int_def)
  then have "\<bar>of_nat k / 1000 - z\<bar> \<le> 1 / 2000" unfolding k by (simp add: abs_if field_simps)
  moreover have "js_quantise 3 (Fin z) = gram k" using assms by (simp add: js_quantise_def gram_def k)
  ultimately show ?thesis by blast
qed

lemma pound_weight:
  assumes "n < 65536"
  shows "\<exists>k. js_quantise 3 (js_mul (js_mul (js_of_int (int n)) (gram 10)) pound_kg) = gram k
    \<and> \<bar>of_nat k / 1000 - of_nat n * (1 / 100) * (45359237 / 100000000)\<bar> \<le> 1 / 2000 + 1 / (10 ^ 8 :: rat)"
proof -
  have n: "(of_nat n :: rat) \<le> 65535" using assms by (simp add: of_nat_le_iff[symmetric] del: of_nat_le_iff)
  then obtain v where v: "js_of_int (int n) = Fin v" "0 \<le> v" "\<bar>v - of_nat n\<bar> \<le> 1 / 10 ^ 11"
    using rounded_near[of "of_nat n"] by (auto simp: js_of_int_def)
  obtain g where g: "gram 10 = Fin g" "0 \<le> g" "\<bar>g - 1 / 100\<bar> \<le> 1 / 10 ^ 15"
    using rounded_small[of "1 / 100"] by (auto simp: gram_def)
  obtain h where h: "pound_kg = Fin h" "0 \<le> h" "\<bar>h - 45359237 / 100000000\<bar> \<le> 1 / 10 ^ 15"
    using rounded_small[of "45359237 / 100000000"] by (auto simp: pound_kg_def)
  have gh1: "g \<le> 1" "h \<le> 1" using g(3) h(3) by (auto simp: abs_if split: if_splits)
  have p1: "\<bar>v * g - of_nat n * (1 / 100)\<bar> \<le> 1 / 10 ^ 11 * 1 + 65535 * (1 / 10 ^ 15)"
    using v g gh1 n by (intro product_error) auto
  have vg: "0 \<le> v * g" "v * g \<le> 70000" using p1 v g n by (auto simp: abs_if split: if_splits)
  obtain z where z: "js_mul (Fin v) (Fin g) = Fin z" "0 \<le> z" "\<bar>z - v * g\<bar> \<le> 1 / 10 ^ 11"
    using js_mul_near[OF v(2) g(2) vg(2)] by blast
  have z1: "\<bar>z - of_nat n * (1 / 100)\<bar> \<le> 1 / 10 ^ 9" using p1 z(3) by (auto simp: abs_if split: if_splits)
  have p2: "\<bar>z * h - of_nat n * (1 / 100) * (45359237 / 100000000)\<bar> \<le> 1 / 10 ^ 9 * 1 + 656 * (1 / 10 ^ 15)"
    using z1 h gh1 n by (intro product_error) auto
  have zh: "0 \<le> z * h" "z * h \<le> 1000" using p2 z h n by (auto simp: abs_if split: if_splits)
  obtain w where w: "js_mul (Fin z) (Fin h) = Fin w" "0 \<le> w" "\<bar>w - z * h\<bar> \<le> 1 / 10 ^ 11"
    using js_mul_near[OF z(2) h(2)] zh by auto
  have w1: "\<bar>w - of_nat n * (1 / 100) * (45359237 / 100000000)\<bar> \<le> 1 / 10 ^ 8" "w \<le> 70000"
    using p2 w(3) zh by (auto simp: abs_if split: if_splits)
  obtain k where k: "js_quantise 3 (Fin w) = gram k" "\<bar>of_nat k / 1000 - w\<bar> \<le> 1 / 2000"
    using quantise_is_gram[OF w(2) w1(2)] by blast
  have "\<bar>of_nat k / 1000 - of_nat n * (1 / 100) * (45359237 / 100000000)\<bar> \<le> 1 / 2000 + 1 / (10 ^ 8 :: rat)"
    using k(2) w1(1) by linarith
  then show ?thesis using k(1) by (auto simp: v g h z w)
qed

section \<open>Properties\<close>

text \<open>C30. A scale that reports in kilograms is read to the gram: the number the app gets for a frame is the one
  that the decimal weight of the raw count (five grams each) would be, so no rounding of the products is
  left in it.  A scale in pounds is read to within half a gram, and a frame that is too short is dropped
  without ending the subscription.\<close>

theorem scale_reading_exact:
  fixes lo hi :: "8 word"
  defines "n \<equiv> unat lo + 256 * unat hi"
  shows "(flags AND 0x01 \<noteq> 1 \<longrightarrow> parseWeightMeasurement t (flags # lo # hi # rest)
        = Inr \<lparr>sr_weightKg = gram (5 * n), sr_stable = True, sr_at = t\<rparr>)
    \<and> (flags AND 0x01 = 1 \<longrightarrow> (\<exists>k. parseWeightMeasurement t (flags # lo # hi # rest)
        = Inr \<lparr>sr_weightKg = gram k, sr_stable = True, sr_at = t\<rparr>
        \<and> \<bar>of_nat k / 1000 - of_nat n * (1 / 100) * (45359237 / 100000000)\<bar> \<le> 1 / 2000 + 1 / (10 ^ 8 :: rat)))
    \<and> (length view < 3 \<longrightarrow> on_frame t view readings = readings)"
proof (intro conjI impI)
  have u: "unat (uint16_le lo hi) = n" by (simp add: unat_uint16_le n_def)
  have "unat (uint16_le lo hi) < 65536" by (rule order.strict_trans2[OF unsigned_less]) simp
  then have n: "n < 65536" using u by simp
  have "int (unat (uint16_le lo hi)) = int n" using u by (rule arg_cong)
  then have u: "uint (uint16_le lo hi) = int n" by simp
  show "parseWeightMeasurement t (flags # lo # hi # rest) = Inr \<lparr>sr_weightKg = gram (5 * n), sr_stable = True, sr_at = t\<rparr>"
    if "flags AND 0x01 \<noteq> 1"
    using that si_weight[OF n] by (simp add: parseWeightMeasurement_def Let_def u)
  show "\<exists>k. parseWeightMeasurement t (flags # lo # hi # rest) = Inr \<lparr>sr_weightKg = gram k, sr_stable = True, sr_at = t\<rparr>
        \<and> \<bar>of_nat k / 1000 - of_nat n * (1 / 100) * (45359237 / 100000000)\<bar> \<le> 1 / 2000 + 1 / (10 ^ 8 :: rat)"
    if "flags AND 0x01 = 1"
    using that pound_weight[OF n] by (auto simp: parseWeightMeasurement_def Let_def u)
  show "on_frame t view readings = readings" if "length view < 3"
    using that by (auto simp: on_frame_def parseWeightMeasurement_def split: list.splits)
qed

theorem scale_reading_exact_witness:
  "parseWeightMeasurement ''t'' [0, 57, 48] = Inr \<lparr>sr_weightKg = gram 61725, sr_stable = True, sr_at = ''t''\<rparr>
    \<and> on_frame ''t'' [0, 57] [] = []"
  using scale_reading_exact[of 0 "''t''" 57 48 "[]" "[0, 57]" "[]"] by simp

text \<open>Refreshing the hub directory never takes the device's hub from it.  The choices always hold the hub
  the device is assigned to and all the directory lists, choosing it keeps its id, a refresh changes at
  most the name it is shown under, and a second refresh of the same directory changes nothing.\<close>

theorem hub_refresh_keeps_assignment:
  "ha_hubId current \<in> ho_id ` set (ms_hubs (mergeHubSnapshot directory current))
    \<and> set directory \<subseteq> set (ms_hubs (mergeHubSnapshot directory current))
    \<and> map_option ha_hubId (selectHub (hubChoices snapshot current) (ha_hubId current)) = Some (ha_hubId current)
    \<and> ha_hubId (adopt (ms_assignment (mergeHubSnapshot directory current)) current) = ha_hubId current
    \<and> ms_assignment (mergeHubSnapshot directory (adopt (ms_assignment (mergeHubSnapshot directory current)) current)) = None"
proof -
  have "ms_hubs (mergeHubSnapshot directory current) = hubChoices (Some directory) current"
    by (simp add: mergeHubSnapshot_def Let_def split: option.split)
  then show ?thesis
    using choices_hold_current[of current "Some directory"] choices_hold_snapshot[of directory current]
      selectHub_current[of snapshot current] merge_adopted[of directory current] merge_settles[of directory current]
    by auto
qed

end
