(* ===== verification/CaptureApp.thy ===== *)
theory CaptureApp
  imports DeviceQueue DeviceIdentity DeviceCatalogue CaptureHub
begin

text \<open>
  The browser app's own state, the handlers of \<open>apps/capture/src/main.ts\<close>: the hub and the
  material chosen, the photo taken, the weigh-in committed to the queue, and the refreshes that
  run beside them.  Everything runs on one thread but stops at every \<open>await\<close>; a handler that
  does is two steps here, with what it has read kept until the second.  What the screen paints is
  left out, but for the notice.
\<close>

section \<open>State\<close>

record Provisioning =
  pv_collectorId :: string
  pv_hubId :: string
  pv_deviceId :: string
  pv_collectorName :: string
  pv_hubName :: string
  pv_hubs :: "HubOption list option"

datatype tone = good | bad | caution

text \<open>The fields of the module, and the photos being read, the weigh-ins being saved and the
  directory requests under way, each with what its handler had read before it stopped.\<close>

record capture_app =
  ca_provisioning :: "Provisioning option"
  ca_material :: string
  ca_photo :: "bytes option"
  ca_photoHash :: "string option"
  ca_weight :: jsnum
  ca_notice :: "(tone \<times> string) option"
  ca_queue :: table
  ca_reading :: "bytes list"
  ca_saving :: "bytes QueuedWeighIn list"
  ca_refreshing :: "Provisioning list"

definition current_of :: "Provisioning \<Rightarrow> CurrentHub" where
  "current_of p = \<lparr>ha_hubId = pv_hubId p, ha_hubName = pv_hubName p, ha_hubCode = None\<rparr>"

definition assigned :: "HubAssignment \<Rightarrow> Provisioning \<Rightarrow> Provisioning" where
  "assigned a p = p\<lparr>pv_hubId := ha_hubId a, pv_hubName := ha_hubName a\<rparr>"

definition saveProvisioning :: "Provisioning \<Rightarrow> capture_app \<Rightarrow> capture_app" where
  "saveProvisioning p s = s\<lparr>ca_provisioning := Some p\<rparr>"

definition notify :: "tone \<Rightarrow> string \<Rightarrow> capture_app \<Rightarrow> capture_app" where
  "notify t text s = s\<lparr>ca_notice := Some (t, text)\<rparr>"

section \<open>Handlers\<close>

definition choose_hub :: "string \<Rightarrow> Provisioning \<Rightarrow> capture_app \<Rightarrow> capture_app" where
  "choose_hub chosen p s = (case selectHub (hubChoices (pv_hubs p) (current_of p)) chosen of
      None \<Rightarrow> notify bad ''That hub is not on this device. Re-enrol to refresh the list.'' s
    | Some assignment \<Rightarrow> notify good (''Capturing at '' @ ha_hubName assignment @ ''.'') (saveProvisioning (assigned assignment p) s))"

definition choose_material :: "string \<Rightarrow> capture_app \<Rightarrow> capture_app" where
  "choose_material code s = s\<lparr>ca_material := code\<rparr>"

definition type_weight :: "jsnum \<Rightarrow> capture_app \<Rightarrow> capture_app" where
  "type_weight w s = s\<lparr>ca_weight := w\<rparr>"

text \<open>The camera: the photo is hashed first and adopted second, and a photo that cannot be read changes nothing.\<close>

definition photo_chosen :: "bytes \<Rightarrow> capture_app \<Rightarrow> capture_app" where
  "photo_chosen file s = s\<lparr>ca_reading := ca_reading s @ [file]\<rparr>"

definition photo_read :: "bytes \<Rightarrow> bool \<Rightarrow> capture_app \<Rightarrow> capture_app" where
  "photo_read file readable s = (let s1 = s\<lparr>ca_reading := remove1 file (ca_reading s)\<rparr> in
     if readable then s1\<lparr>ca_photo := Some file, ca_photoHash := Some (hashPhoto file)\<rparr> else s1)"

text \<open>Committing a weigh-in, up to the write of the queue.\<close>

definition commit_problems :: "capture_app \<Rightarrow> string list" where
  "commit_problems s = (if \<not> is_finite (ca_weight s) \<or> js_le (ca_weight s) (Fin 0) then [''a weight''] else [])
     @ (if ca_photoHash s = None \<or> ca_photoHash s = Some '''' then [''a photo''] else [])"

definition commit_payload :: "Provisioning \<Rightarrow> string \<Rightarrow> string \<Rightarrow> capture_app \<Rightarrow> WeighInPayload" where
  "commit_payload p nowText nonce s = \<lparr>p_schema = ''proofchain.weighin.v2'', p_collectorId = pv_collectorId p,
     p_hubId = pv_hubId p, p_deviceId = pv_deviceId p, p_weightKg = js_quantise 3 (ca_weight s), p_material = ca_material s,
     p_capturedAt = nowText, p_photoHash = with_default (ca_photoHash s) '''', p_nonce = nonce\<rparr>"

definition commit_record :: "WeighInPayload \<Rightarrow> string \<Rightarrow> string \<Rightarrow> string \<Rightarrow> capture_app \<Rightarrow> bytes QueuedWeighIn" where
  "commit_record payload signature i nowText s = \<lparr>qw_id = i, qw_payload = payload, qw_signature = signature,
     qw_photo = ca_photo s, qw_photoUploadedAt = None, qw_status = queued, qw_attempts = 0, qw_lastError = None,
     qw_createdAt = nowText, qw_syncedAt = None, qw_serverEventId = None\<rparr>"

definition commit_begin :: "curve \<Rightarrow> DeviceIdentity \<Rightarrow> Provisioning \<Rightarrow> string \<Rightarrow> string \<Rightarrow> string \<Rightarrow> capture_app \<Rightarrow> capture_app" where
  "commit_begin C identity p nowText nonce i s = (let problems = commit_problems s in
     if length problems > 0 then notify bad (''Still needed: '' @ join_with '', '' problems @ ''.'') s
     else (case weightProblem (ca_weight s) (boundsForHub (hubChoices (pv_hubs p) (current_of p)) (pv_hubId p)) of
         Some outOfRange \<Rightarrow> notify bad outOfRange s
       | None \<Rightarrow> (let payload = commit_payload p nowText nonce s in
           case capture_signWeighIn C payload identity of
             Inl e \<Rightarrow> notify bad ''commit failed unexpectedly'' s
           | Inr signature \<Rightarrow> s\<lparr>ca_saving := ca_saving s @ [commit_record payload signature i nowText s]\<rparr>)))"

text \<open>The write is done: the evidence is cleared for the next weigh-in.\<close>

definition commit_end :: "bytes QueuedWeighIn \<Rightarrow> capture_app \<Rightarrow> capture_app" where
  "commit_end r s = notify good (''Signed and queued '' @ js_toFixed 3 (p_weightKg (qw_payload r)) @ '' kg.'')
     (s\<lparr>ca_saving := remove1 r (ca_saving s), ca_queue := idb_enqueue r (ca_queue s),
        ca_photo := None, ca_photoHash := None, ca_weight := Fin 0\<rparr>)"

text \<open>\<open>syncHubs\<close>: the directory is asked for with the provisioning that was read before.\<close>

definition hubs_begin :: "Provisioning \<Rightarrow> capture_app \<Rightarrow> capture_app" where
  "hubs_begin p s = s\<lparr>ca_refreshing := ca_refreshing s @ [p]\<rparr>"

definition hubs_end :: "Provisioning \<Rightarrow> HubOption list option \<Rightarrow> capture_app \<Rightarrow> capture_app" where
  "hubs_end p answer s = (let s1 = s\<lparr>ca_refreshing := remove1 p (ca_refreshing s)\<rparr> in
     case answer of None \<Rightarrow> s1
     | Some directory \<Rightarrow> (let merged = mergeHubSnapshot directory (current_of p);
           listChanged = (ms_hubs merged \<noteq> hubChoices (pv_hubs p) (current_of p));
           p1 = (case ms_assignment merged of None \<Rightarrow> p | Some a \<Rightarrow> assigned a p)
         in if \<not> listChanged \<and> ms_assignment merged = None then s1
            else (let s2 = saveProvisioning (p1\<lparr>pv_hubs := Some (ms_hubs merged)\<rparr>) s1
              in case ms_assignment merged of None \<Rightarrow> s2
                | Some a \<Rightarrow> notify caution (''This hub is now called '' @ ha_hubName a @ ''.'') s2)))"

text \<open>\<open>syncCatalogue\<close> and its \<open>reconcileSelection\<close>.\<close>

definition catalogue_changed :: "Material list \<Rightarrow> capture_app \<Rightarrow> capture_app" where
  "catalogue_changed pickable s = s\<lparr>ca_material := capture_reconcileSelection pickable (ca_material s)\<rparr>"

section \<open>Steps\<close>

text \<open>
  A sync replaces the queue by one with the same work, as \<open>browser_sync_loses_nothing\<close> of
  \<open>DeviceSync\<close> shows of it, and pruning drops records.
\<close>

definition same_work :: "table \<Rightarrow> table \<Rightarrow> bool" where
  "same_work t t' = (\<forall>r' \<in> set t'. \<exists>r \<in> set t. qw_payload r' = qw_payload r \<and> qw_signature r' = qw_signature r
     \<and> qw_photo r' = qw_photo r)"

inductive capture_step :: "curve \<Rightarrow> DeviceIdentity \<Rightarrow> capture_app \<Rightarrow> capture_app \<Rightarrow> bool" for C identity where
  Enrolled: "capture_step C identity s (saveProvisioning p s)"
| Hub: "ca_provisioning s = Some p \<Longrightarrow> capture_step C identity s (choose_hub chosen p s)"
| Choice: "capture_step C identity s (choose_material code s)"
| Weight: "capture_step C identity s (type_weight w s)"
| Photo: "capture_step C identity s (photo_chosen file s)"
| Read: "file \<in> set (ca_reading s) \<Longrightarrow> capture_step C identity s (photo_read file readable s)"
| Commit: "ca_provisioning s = Some p \<Longrightarrow> capture_step C identity s (commit_begin C identity p nowText nonce i s)"
| Saved: "r \<in> set (ca_saving s) \<Longrightarrow> capture_step C identity s (commit_end r s)"
| Ask: "ca_provisioning s = Some p \<Longrightarrow> capture_step C identity s (hubs_begin p s)"
| Told: "p \<in> set (ca_refreshing s) \<Longrightarrow> capture_step C identity s (hubs_end p answer s)"
| Refreshed: "capture_step C identity s (catalogue_changed pickable s)"
| Synced: "same_work (ca_queue s) t \<Longrightarrow> capture_step C identity s (s\<lparr>ca_queue := t\<rparr>)"

abbreviation capture_runs :: "curve \<Rightarrow> DeviceIdentity \<Rightarrow> capture_app \<Rightarrow> capture_app \<Rightarrow> bool" where
  "capture_runs C identity \<equiv> (capture_step C identity)\<^sup>*\<^sup>*"

definition first_app :: "Provisioning option \<Rightarrow> string \<Rightarrow> capture_app" where
  "first_app p code = \<lparr>ca_provisioning = p, ca_material = code, ca_photo = None, ca_photoHash = None, ca_weight = Fin 0,
     ca_notice = None, ca_queue = [], ca_reading = [], ca_saving = [], ca_refreshing = []\<rparr>"

section \<open>What is in the queue\<close>

definition attested_record :: "(bytes \<Rightarrow> bytes \<Rightarrow> bytes \<Rightarrow> bool option) \<Rightarrow> DeviceIdentity \<Rightarrow> bytes QueuedWeighIn \<Rightarrow> bool" where
  "attested_record cv identity r = (verifyWeighInSignature cv (qw_payload r) (qw_signature r) (di_publicKeyBase64 identity)
     \<and> (\<exists>bs. qw_photo r = Some bs \<and> p_photoHash (qw_payload r) = sha256Hex bs)
     \<and> p_schema (qw_payload r) = ''proofchain.weighin.v2'')"

definition app_ok :: "(bytes \<Rightarrow> bytes \<Rightarrow> bytes \<Rightarrow> bool option) \<Rightarrow> DeviceIdentity \<Rightarrow> capture_app \<Rightarrow> bool" where
  "app_ok cv identity s = (ca_photoHash s = map_option hashPhoto (ca_photo s)
     \<and> (\<forall>r \<in> set (ca_queue s) \<union> set (ca_saving s). attested_record cv identity r))"

lemma app_okI:
  assumes "app_ok cv identity s" and "ca_photo s' = ca_photo s" and "ca_photoHash s' = ca_photoHash s"
    and "set (ca_queue s') \<union> set (ca_saving s') \<subseteq> set (ca_queue s) \<union> set (ca_saving s)"
  shows "app_ok cv identity s'"
  using assms(1-3) subsetD[OF assms(4)] by (simp only: app_ok_def) blast

lemma hash_is_sha256 [simp]: "hashPhoto bs = sha256Hex bs"
  by (simp add: hashPhoto_def sha256Hex_def)

lemma app_keeps [simp]:
  "ca_photo (notify t x s) = ca_photo s" "ca_photoHash (notify t x s) = ca_photoHash s"
  "ca_queue (notify t x s) = ca_queue s" "ca_saving (notify t x s) = ca_saving s"
  "ca_photo (saveProvisioning p s) = ca_photo s" "ca_photoHash (saveProvisioning p s) = ca_photoHash s"
  "ca_queue (saveProvisioning p s) = ca_queue s" "ca_saving (saveProvisioning p s) = ca_saving s"
  "ca_provisioning (notify t x s) = ca_provisioning s" "ca_provisioning (saveProvisioning p s) = Some p"
  by (simp_all add: notify_def saveProvisioning_def)

lemma set_enqueue: "set (idb_enqueue r t) \<subseteq> insert r (set t)"
  by (auto simp: idb_enqueue_def put_def)

lemma commit_begin_ok:
  assumes l: "ed25519_laws C cv" "made_from C secret identity" and ok: "app_ok cv identity s"
  shows "app_ok cv identity (commit_begin C identity p nowText nonce i s)"
proof -
  have same: "app_ok cv identity (notify t x s)" for t x by (rule app_okI[OF ok]) simp_all
  show ?thesis
  proof (cases "length (commit_problems s) > 0")
    case True
    then show ?thesis using same by (simp add: commit_begin_def Let_def)
  next
    case False
    then obtain bs where bs: "ca_photo s = Some bs" "ca_photoHash s = Some (sha256Hex bs)"
      using ok by (auto simp: commit_problems_def app_ok_def split: if_splits)
    let ?payload = "commit_payload p nowText nonce s"
    show ?thesis
    proof (cases "capture_signWeighIn C ?payload identity")
      case (Inl e)
      then show ?thesis using same False by (simp add: commit_begin_def Let_def split: option.split)
    next
      case (Inr sig)
      have "attested_record cv identity (commit_record ?payload sig i nowText s)"
        using signed_verifies[OF l disjI2[OF Inr]] bs
        by (simp add: attested_record_def commit_record_def commit_payload_def with_default_def)
      then have "app_ok cv identity (s\<lparr>ca_saving := ca_saving s @ [commit_record ?payload sig i nowText s]\<rparr>)"
        using ok by (auto simp: app_ok_def)
      then show ?thesis using same False Inr by (simp add: commit_begin_def Let_def split: option.split)
    qed
  qed
qed

lemma capture_step_ok:
  assumes "capture_step C identity s s'" and l: "ed25519_laws C cv" "made_from C secret identity" and ok: "app_ok cv identity s"
  shows "app_ok cv identity s'"
  using assms(1)
proof cases
  case (Enrolled p)
  then show ?thesis by (intro app_okI[OF ok]) simp_all
next
  case (Hub p chosen)
  then show ?thesis by (intro app_okI[OF ok]) (auto simp: choose_hub_def split: option.split)
next
  case (Choice code)
  then show ?thesis by (intro app_okI[OF ok]) (simp_all add: choose_material_def)
next
  case (Weight w)
  then show ?thesis by (intro app_okI[OF ok]) (simp_all add: type_weight_def)
next
  case (Photo pic)
  then show ?thesis by (intro app_okI[OF ok]) (simp_all add: photo_chosen_def)
next
  case (Read pic readable)
  then show ?thesis using ok by (auto simp: app_ok_def photo_read_def Let_def)
next
  case (Commit p nowText nonce i)
  then show ?thesis using commit_begin_ok[OF l ok] by simp
next
  case (Saved r)
  have "\<forall>x \<in> set (idb_enqueue r (ca_queue s)) \<union> set (remove1 r (ca_saving s)). attested_record cv identity x"
    using ok Saved(2) set_enqueue[of r "ca_queue s"] set_remove1_subset[of r "ca_saving s"] by (auto simp: app_ok_def)
  then show ?thesis using Saved(1) by (simp add: app_ok_def commit_end_def)
next
  case (Ask p)
  then show ?thesis by (intro app_okI[OF ok]) (simp_all add: hubs_begin_def)
next
  case (Told p answer)
  then show ?thesis by (intro app_okI[OF ok]) (auto simp: hubs_end_def Let_def split: option.split)
next
  case (Refreshed pickable)
  then show ?thesis by (intro app_okI[OF ok]) (simp_all add: catalogue_changed_def)
next
  case (Synced t)
  have "attested_record cv identity r" if "r \<in> set t" for r
  proof -
    obtain x where "x \<in> set (ca_queue s)" "qw_payload r = qw_payload x" "qw_signature r = qw_signature x" "qw_photo r = qw_photo x"
      using Synced(2) \<open>r \<in> set t\<close> unfolding same_work_def by blast
    then show ?thesis using ok by (auto simp: app_ok_def attested_record_def)
  qed
  then show ?thesis using Synced(1) ok by (auto simp: app_ok_def)
qed

lemma capture_runs_ok:
  assumes "capture_runs C identity s s'" and "ed25519_laws C cv" and "made_from C secret identity" and "app_ok cv identity s"
  shows "app_ok cv identity s'"
  using assms(1,4) by (induction rule: rtranclp_induct) (auto intro: capture_step_ok[OF _ assms(2,3)])

lemma first_app_ok: "app_ok cv identity (first_app p code)"
  by (simp add: app_ok_def first_app_def)

lemma runs_step: "capture_runs C identity s t \<Longrightarrow> capture_step C identity t u \<Longrightarrow> capture_runs C identity s u"
  by (rule rtranclp.rtrancl_into_rtrancl)

lemma commit_begin_ready:
  assumes "is_finite (ca_weight s)" and "\<not> js_le (ca_weight s) (Fin 0)" and "ca_photo s = Some bs"
    and "ca_photoHash s = Some (sha256Hex bs)"
    and "weightProblem (ca_weight s) (boundsForHub (hubChoices (pv_hubs p) (current_of p)) (pv_hubId p)) = None"
    and "capture_signWeighIn C (commit_payload p t n s) identity = Inr sig"
  shows "commit_begin C identity p t n i s
    = s\<lparr>ca_saving := ca_saving s @ [commit_record (commit_payload p t n s) sig i t s]\<rparr>"
proof -
  have "sha256Hex bs \<noteq> ''''" using sha256Hex_hash64[of bs] by (auto simp: is_hash64_def simp del: sha256Hex_hash64)
  then have "commit_problems s = []" using assms(1,2,4) by (simp add: commit_problems_def)
  then show ?thesis using assms(5,6) by (simp add: commit_begin_def Let_def)
qed

lemma enqueued_in: "qw_id r \<notin> qw_id ` set t \<Longrightarrow> set (idb_enqueue r t) = insert r (set t)"
  by (simp add: idb_enqueue_def put_def)

section \<open>A device that is ready to commit, for the witnesses\<close>

definition sample_provisioning :: Provisioning where
  "sample_provisioning = \<lparr>pv_collectorId = ''c'', pv_hubId = ''h'', pv_deviceId = ''d'', pv_collectorName = ''C'',
     pv_hubName = ''Hub'', pv_hubs = None\<rparr>"

definition ready_app :: capture_app where
  "ready_app = (first_app (Some sample_provisioning) ''PET'')\<lparr>ca_photo := Some [1, 2], ca_photoHash := Some (sha256Hex [1, 2]),
     ca_weight := gram 12345\<rparr>"

lemma ready_run: "capture_runs C identity (first_app (Some sample_provisioning) ''PET'') ready_app"
proof -
  let ?s = "first_app (Some sample_provisioning) ''PET''"
  have "capture_runs C identity ?s (photo_chosen [1, 2] ?s)" by (intro r_into_rtranclp Photo)
  then have "capture_runs C identity ?s (photo_read [1, 2] True (photo_chosen [1, 2] ?s))"
    by (rule runs_step) (rule Read, simp add: photo_chosen_def)
  then have "capture_runs C identity ?s (type_weight (gram 12345) (photo_read [1, 2] True (photo_chosen [1, 2] ?s)))"
    by (rule runs_step) (rule Weight)
  then show ?thesis
    by (simp add: ready_app_def type_weight_def photo_read_def photo_chosen_def first_app_def)
qed

lemma ready_weight: "weightProblem (ca_weight ready_app) (boundsForHub (hubChoices (pv_hubs sample_provisioning) (current_of sample_provisioning))
    (pv_hubId sample_provisioning)) = None"
  by (simp add: sample_provisioning_def hubChoices_def boundsForHub_def synthesised_def current_of_def weightProblem_def Let_def)

lemma ready_commit:
  "\<exists>r s. capture_runs sample_curve sample_identity (first_app (Some sample_provisioning) ''PET'') s \<and> ca_saving s = [r]"
proof -
  let ?p = "commit_payload sample_provisioning ''t'' ''n'' ready_app"
  have "canonicalEventPayload ?p = Inr (canonical_text ?p)"
    by (rule canonical_total) (simp add: commit_payload_def ready_app_def quantise_gram gram_weight)
  then obtain sig where sig: "capture_signWeighIn sample_curve ?p sample_identity = Inr sig"
    by (simp add: capture_signWeighIn_def Let_def)
  have w: "is_finite (ca_weight ready_app)" "\<not> js_le (ca_weight ready_app) (Fin 0)"
    using gram_positive[of 12345] by (simp_all add: ready_app_def)
  have "commit_begin sample_curve sample_identity sample_provisioning ''t'' ''n'' ''i'' ready_app
      = ready_app\<lparr>ca_saving := [commit_record ?p sig ''i'' ''t'' ready_app]\<rparr>"
    using commit_begin_ready[OF w _ _ ready_weight sig, of "[1, 2]" "''i''"] by (simp add: ready_app_def first_app_def)
  then have "capture_step sample_curve sample_identity ready_app (ready_app\<lparr>ca_saving := [commit_record ?p sig ''i'' ''t'' ready_app]\<rparr>)"
    using Commit[of ready_app sample_provisioning sample_curve sample_identity "''t''" "''n''" "''i''"]
    by (simp add: ready_app_def first_app_def)
  then have "capture_runs sample_curve sample_identity (first_app (Some sample_provisioning) ''PET'')
      (ready_app\<lparr>ca_saving := [commit_record ?p sig ''i'' ''t'' ready_app]\<rparr>)"
    by (rule runs_step[OF ready_run])
  then show ?thesis by (intro exI conjI) (assumption, simp)
qed

section \<open>Properties\<close>

text \<open>C12. Everything in the browser app's queue is attested.  However the handlers, the camera, the refreshes
  and the syncs interleave, each weigh-in in the queue (or on its way there) carries a signature that the
  server accepts under the device's enrolled key, and the photo it will upload is the one whose hash was
  signed.\<close>

theorem queued_weigh_ins_are_attested:
  assumes "ed25519_laws C cv" and "made_from C secret identity" and "capture_runs C identity (first_app p code) s"
    and "r \<in> set (ca_queue s) \<union> set (ca_saving s)"
  shows "verifyWeighInSignature cv (qw_payload r) (qw_signature r) (di_publicKeyBase64 identity)
    \<and> (\<exists>bs. qw_photo r = Some bs \<and> p_photoHash (qw_payload r) = sha256Hex bs)
    \<and> p_schema (qw_payload r) = ''proofchain.weighin.v2''"
proof -
  have "app_ok cv identity s" by (rule capture_runs_ok[OF assms(3,1,2) first_app_ok])
  then show ?thesis using assms(4) by (simp add: app_ok_def attested_record_def)
qed

theorem queued_weigh_ins_are_attested_witness:
  "\<exists>(s :: capture_app) r. r \<in> set (ca_saving s)
    \<and> verifyWeighInSignature (\<lambda>key _ sig. Some (sig = key @ key)) (qw_payload r) (qw_signature r) (di_publicKeyBase64 sample_identity)"
proof -
  obtain r s where r: "capture_runs sample_curve sample_identity (first_app (Some sample_provisioning) ''PET'') s" "ca_saving s = [r]"
    using ready_commit by blast
  then have "r \<in> set (ca_queue s) \<union> set (ca_saving s)" by simp
  then have "verifyWeighInSignature (\<lambda>key _ sig. Some (sig = key @ key)) (qw_payload r) (qw_signature r) (di_publicKeyBase64 sample_identity)"
    using queued_weigh_ins_are_attested[OF sample_laws sample_made r(1)] by blast
  then show ?thesis using r(2) by (intro exI[of _ s] exI[of _ r]) simp
qed

text \<open>Committing twice counts the sack twice.  The commit handler stops at the write of the queue with
  nothing to keep it from being run again, and clears the evidence only afterwards: a second tap before
  that signs a second weigh-in of the same weight and photo, which differs in its nonce and time and so is
  not a duplicate to the server.\<close>

theorem double_tap_commits_twice:
  assumes "ca_provisioning s = Some p" and "ca_photo s = Some bs" and "ca_photoHash s = Some (sha256Hex bs)"
    and "ca_weight s = gram g" and "0 < g" and "g \<le> 10 ^ 14"
    and "weightProblem (ca_weight s) (boundsForHub (hubChoices (pv_hubs p) (current_of p)) (pv_hubId p)) = None"
    and "i1 \<noteq> i2" and "i1 \<notin> qw_id ` set (ca_queue s)" and "i2 \<notin> qw_id ` set (ca_queue s)" and "ca_saving s = []"
  shows "\<exists>s' r1 r2. capture_runs C identity s s' \<and> r1 \<in> set (ca_queue s') \<and> r2 \<in> set (ca_queue s')
    \<and> qw_payload r1 = commit_payload p t1 n1 s \<and> qw_payload r2 = commit_payload p t2 n2 s
    \<and> qw_photo r1 = Some bs \<and> qw_photo r2 = Some bs \<and> qw_id r1 \<noteq> qw_id r2"
proof -
  have w: "is_finite (ca_weight s)" "\<not> js_le (ca_weight s) (Fin 0)"
    using gram_positive[OF assms(5,6)] assms(4) by simp_all
  have "canonicalEventPayload (commit_payload p t n s) = Inr (canonical_text (commit_payload p t n s))" for t n
    by (rule canonical_total) (use assms(4,6) in \<open>simp add: commit_payload_def quantise_gram gram_weight\<close>)
  note total = this
  obtain sig1 where sig1: "capture_signWeighIn C (commit_payload p t1 n1 s) identity = Inr sig1"
    by (simp add: capture_signWeighIn_def total Let_def)
  obtain sig2 where sig2: "capture_signWeighIn C (commit_payload p t2 n2 s) identity = Inr sig2"
    by (simp add: capture_signWeighIn_def total Let_def)
  define r1 where "r1 = commit_record (commit_payload p t1 n1 s) sig1 i1 t1 s"
  define r2 where "r2 = commit_record (commit_payload p t2 n2 s) sig2 i2 t2 s"
  define a where "a = s\<lparr>ca_saving := [r1]\<rparr>"
  define b where "b = s\<lparr>ca_saving := [r1, r2]\<rparr>"
  have p1: "commit_begin C identity p t1 n1 i1 s = a"
    using commit_begin_ready[OF w assms(2,3,7) sig1] assms(11) by (simp add: a_def r1_def)
  have same: "commit_payload p t2 n2 a = commit_payload p t2 n2 s" "commit_record x y i2 t2 a = commit_record x y i2 t2 s" for x y
    by (simp_all add: a_def commit_payload_def commit_record_def)
  have p2: "commit_begin C identity p t2 n2 i2 a = b"
    using commit_begin_ready[of a bs p C t2 n2 identity sig2 i2] w assms(2,3,7) sig2 same by (simp add: a_def b_def r2_def)
  have ids: "qw_id r1 = i1" "qw_id r2 = i2" by (simp_all add: r1_def r2_def commit_record_def)
  have "r1 \<noteq> r2" using ids assms(8) by auto
  let ?s' = "commit_end r2 (commit_end r1 b)"
  have q1: "set (ca_queue (commit_end r1 b)) = insert r1 (set (ca_queue s))"
    using assms(9) ids by (simp add: commit_end_def b_def enqueued_in)
  have q2: "set (ca_queue ?s') = insert r2 (insert r1 (set (ca_queue s)))"
    using assms(8,10) ids q1 by (simp add: commit_end_def[of r2] enqueued_in image_iff)
  have "capture_runs C identity s a" using Commit[of s p C identity t1 n1 i1] assms(1) p1 by (simp add: r_into_rtranclp)
  moreover have "ca_provisioning a = Some p" using assms(1) by (simp add: a_def)
  then have "capture_step C identity a b" using Commit[of a p C identity t2 n2 i2] unfolding p2 by blast
  ultimately have "capture_runs C identity s b" by (rule runs_step)
  then have "capture_runs C identity s (commit_end r1 b)" by (rule runs_step) (rule Saved, simp add: b_def)
  then have "capture_runs C identity s ?s'"
    by (rule runs_step) (rule Saved, use \<open>r1 \<noteq> r2\<close> in \<open>simp add: commit_end_def b_def\<close>)
  moreover have "r1 \<in> set (ca_queue ?s')" "r2 \<in> set (ca_queue ?s')" unfolding q2 by simp_all
  moreover have "qw_payload r1 = commit_payload p t1 n1 s" "qw_payload r2 = commit_payload p t2 n2 s"
      "qw_photo r1 = Some bs" "qw_photo r2 = Some bs"
    using assms(2) by (simp_all add: r1_def r2_def commit_record_def)
  moreover have "qw_id r1 \<noteq> qw_id r2" using ids assms(8) by simp
  ultimately show ?thesis by blast
qed

theorem double_tap_commits_twice_witness:
  "\<exists>s r1 r2. capture_runs sample_curve sample_identity ready_app s \<and> {r1, r2} \<subseteq> set (ca_queue s) \<and> qw_id r1 \<noteq> qw_id r2
    \<and> p_nonce (qw_payload r1) = ''n1'' \<and> p_nonce (qw_payload r2) = ''n2''
    \<and> p_weightKg (qw_payload r1) = p_weightKg (qw_payload r2)"
proof -
  have "ca_provisioning ready_app = Some sample_provisioning" "ca_photo ready_app = Some [1, 2]"
      "ca_photoHash ready_app = Some (sha256Hex [1, 2])" "ca_weight ready_app = gram 12345" "ca_saving ready_app = []"
      "ca_queue ready_app = []"
    by (simp_all add: ready_app_def first_app_def)
  then obtain s r1 r2 where "capture_runs sample_curve sample_identity ready_app s" "r1 \<in> set (ca_queue s)" "r2 \<in> set (ca_queue s)"
      "qw_payload r1 = commit_payload sample_provisioning ''t1'' ''n1'' ready_app"
      "qw_payload r2 = commit_payload sample_provisioning ''t2'' ''n2'' ready_app" "qw_id r1 \<noteq> qw_id r2"
    using double_tap_commits_twice[OF _ _ _ _ _ _ ready_weight, of "[1, 2]" 12345 "''i1''" "''i2''" sample_curve sample_identity
        "''t1''" "''n1''" "''t2''" "''n2''"] by auto
  then show ?thesis by (intro exI[of _ s] exI[of _ r1] exI[of _ r2]) (simp add: commit_payload_def)
qed

text \<open>A hub refresh can undo the collector's choice of hub.  The refresh keeps the provisioning it read before
  it asked for the directory and saves that one, changed, when the answer comes: a hub chosen in between
  is silently replaced by the old one, and the weigh-ins that follow are signed for it.\<close>

theorem hub_choice_is_undone_by_refresh:
  assumes "ca_provisioning s = Some p" and "selectHub (hubChoices (pv_hubs p) (current_of p)) chosen = Some a"
    and "hubChoices (Some directory) (current_of p) \<noteq> hubChoices (pv_hubs p) (current_of p)" and "ca_refreshing s = []"
  shows "\<exists>s1 s2 p1 p2. capture_runs C identity s s1 \<and> ca_provisioning s1 = Some p1 \<and> pv_hubId p1 = chosen
    \<and> capture_step C identity s1 s2 \<and> ca_provisioning s2 = Some p2 \<and> pv_hubId p2 = pv_hubId p"
proof -
  have a: "ha_hubId a = chosen" using assms(2) by (auto simp: selectHub_def split: option.splits dest!: find_id)
  define b where "b = hubs_begin p s"
  define c where "c = choose_hub chosen p b"
  have "capture_runs C identity s b" unfolding b_def by (intro r_into_rtranclp Ask assms(1))
  then have run: "capture_runs C identity s c"
    unfolding c_def by (rule runs_step) (intro Hub, simp add: b_def hubs_begin_def assms(1))
  have c: "ca_provisioning c = Some (assigned a p)" "ca_refreshing c = [p]"
    using assms(2,4) by (simp_all add: c_def choose_hub_def b_def hubs_begin_def notify_def saveProvisioning_def)
  let ?merged = "mergeHubSnapshot directory (current_of p)"
  have hubs: "ms_hubs ?merged = hubChoices (Some directory) (current_of p)"
    by (simp add: mergeHubSnapshot_def Let_def split: option.split)
  define p2 where "p2 = (case ms_assignment ?merged of None \<Rightarrow> p | Some x \<Rightarrow> assigned x p)\<lparr>pv_hubs := Some (ms_hubs ?merged)\<rparr>"
  have "pv_hubId p2 = pv_hubId p"
    using merge_adopted[of directory "current_of p"]
    by (auto simp: p2_def assigned_def adopt_def current_of_def split: option.splits)
  moreover have "ca_provisioning (hubs_end p (Some directory) c) = Some p2"
    using assms(3) hubs by (auto simp: hubs_end_def Let_def p2_def split: option.split)
  moreover have "capture_step C identity c (hubs_end p (Some directory) c)" by (rule Told) (simp add: c)
  moreover have "pv_hubId (assigned a p) = chosen" using a by (simp add: assigned_def)
  ultimately show ?thesis using run c(1) by blast
qed

theorem hub_choice_is_undone_by_refresh_witness:
  "\<exists>s1 s2 p1 p2. capture_runs sample_curve sample_identity
      (first_app (Some (sample_provisioning\<lparr>pv_hubs := Some [synthesised (current_of (sample_provisioning\<lparr>pv_hubId := ''h2''\<rparr>))]\<rparr>)) ''PET'') s1
    \<and> ca_provisioning s1 = Some p1 \<and> pv_hubId p1 = ''h2''
    \<and> capture_step sample_curve sample_identity s1 s2 \<and> ca_provisioning s2 = Some p2 \<and> pv_hubId p2 = ''h''"
proof -
  let ?h2 = "synthesised (current_of (sample_provisioning\<lparr>pv_hubId := ''h2''\<rparr>))"
  let ?p = "sample_provisioning\<lparr>pv_hubs := Some [?h2]\<rparr>"
  have "ca_provisioning (first_app (Some ?p) ''PET'') = Some ?p" "ca_refreshing (first_app (Some ?p) ''PET'') = []"
    by (simp_all add: first_app_def)
  moreover have "\<exists>a. selectHub (hubChoices (pv_hubs ?p) (current_of ?p)) ''h2'' = Some a"
    by (simp add: selectHub_def hubChoices_def exists_where_def synthesised_def current_of_def sample_provisioning_def)
  moreover have "hubChoices (Some []) (current_of ?p) \<noteq> hubChoices (pv_hubs ?p) (current_of ?p)"
    by (simp add: hubChoices_def exists_where_def synthesised_def current_of_def sample_provisioning_def)
  moreover have "pv_hubId ?p = ''h''" by (simp add: sample_provisioning_def)
  ultimately show ?thesis using hub_choice_is_undone_by_refresh[of "first_app (Some ?p) ''PET''" ?p "''h2''"] by metis
qed

end
