(* ===== verification/MobileApp.thy ===== *)
theory MobileApp
  imports DeviceSync DeviceIdentity DeviceCatalogue
begin

text \<open>
  The mobile app above its libraries: the weigh-in screen
  (\<open>apps/mobile/src/screens/CaptureScreen.tsx\<close>), the background sync
  (\<open>apps/mobile/src/lib/useAutoSync.ts\<close>) and the two tabs of \<open>App.tsx\<close>, as steps on one
  state, so that captures, several passes of the sync and the rest of the world interleave.
  A pass moves one record at a time; the finer interleavings inside an update of the store
  are those of \<open>DeviceQueue\<close>.
\<close>

section \<open>A typed weight\<close>

text \<open>\<open>Number.parseFloat\<close>: the longest start of the text that is a decimal literal, NaN when there is none.\<close>

definition unsigned_part :: "string \<Rightarrow> string" where
  "unsigned_part s = (case s of [] \<Rightarrow> [] | c # cs \<Rightarrow> if c = CHR ''-'' \<or> c = CHR ''+'' then cs else s)"

definition float_literal :: "string \<Rightarrow> bool" where
  "float_literal s = (let t = unsigned_part s in
     t = ''Infinity'' \<or> valid_decimal (map (\<lambda>c. if c = CHR ''E'' then CHR ''e'' else c) t))"

definition js_parseFloat :: "string \<Rightarrow> jsnum" where
  "js_parseFloat s0 = (let s = trim_start s0 in
     case find_one (\<lambda>n. float_literal (take n s)) (rev [1..<Suc (length s)]) of
       None \<Rightarrow> NaN | Some n \<Rightarrow> number_of_string (take n s))"

text \<open>\<open>weight.replace(",", ".")\<close>: the first comma only.\<close>

fun comma_to_point :: "string \<Rightarrow> string" where
  "comma_to_point [] = []"
| "comma_to_point (c # cs) = (if c = CHR '','' then CHR ''.'' # cs else c # comma_to_point cs)"

definition typed_weight :: "string \<Rightarrow> jsnum" where
  "typed_weight weight = js_parseFloat (comma_to_point weight)"

section \<open>The state\<close>

datatype tab = CaptureTab | QueueTab

text \<open>A pass of the sync: the hook whose flag guards it, what its loop still has to do, and what it counted.\<close>

datatype stage = Posting "string QueuedWeighIn list" | Sending "string QueuedWeighIn list"

record pass =
  ps_hook :: nat
  ps_stage :: stage
  ps_outcome :: SyncOutcome

text \<open>A capture under way, with what its handler had read when it was tapped.\<close>

record capture =
  cp_screen :: nat
  cp_weightKg :: jsnum
  cp_material :: string

text \<open>
  The tab on display and the number of its instance: a component that is shown again is a
  new instance with new state and a new flag.  The texts and the flag of the weigh-in screen
  are those of the instance on display.  \<open>ma_files\<close> are the photos on the phone.
\<close>

record mobile_app =
  ma_tab :: tab
  ma_instance :: nat
  ma_weight :: string
  ma_material :: string
  ma_busy :: bool
  ma_alert :: "string option"
  ma_captures :: "capture list"
  ma_inFlight :: "nat \<Rightarrow> bool"
  ma_passes :: "pass list"
  ma_store :: KeyValueStore
  ma_link :: link
  ma_files :: "string \<Rightarrow> bytes option"

section \<open>The weigh-in screen\<close>

definition device_bounds :: "DeviceMeta \<Rightarrow> HubWeightBounds" where
  "device_bounds device = \<lparr>minKg = dm_minWeightKg device, maxKg = dm_maxWeightKg device\<rparr>"

definition weightValid :: "DeviceMeta \<Rightarrow> jsnum \<Rightarrow> bool" where
  "weightValid device weightKg = (is_finite weightKg \<and> js_gt weightKg (Fin 0) \<and> weightProblem weightKg (device_bounds device) = None)"

definition type_text :: "string \<Rightarrow> mobile_app \<Rightarrow> mobile_app" where
  "type_text t s = s\<lparr>ma_weight := t\<rparr>"

definition pick_material :: "string \<Rightarrow> mobile_app \<Rightarrow> mobile_app" where
  "pick_material code s = s\<lparr>ma_material := code\<rparr>"

text \<open>The tap on the button: nothing while the weight is not valid or a capture is busy.\<close>

definition tap_capture :: "DeviceMeta \<Rightarrow> mobile_app \<Rightarrow> mobile_app" where
  "tap_capture device s = (if \<not> weightValid device (typed_weight (ma_weight s)) \<or> ma_busy s then s
     else s\<lparr>ma_busy := True, ma_captures := ma_captures s
       @ [\<lparr>cp_screen = ma_instance s, cp_weightKg = typed_weight (ma_weight s), cp_material = ma_material s\<rparr>]\<rparr>)"

definition catalogue_loaded :: "Catalogue \<Rightarrow> mobile_app \<Rightarrow> mobile_app" where
  "catalogue_loaded catalogue s = s\<lparr>ma_material := mobile_reconcileSelection catalogue (Some (ma_material s))\<rparr>"

text \<open>Showing a tab makes a new instance of its screen.\<close>

definition show_tab :: "tab \<Rightarrow> string \<Rightarrow> mobile_app \<Rightarrow> mobile_app" where
  "show_tab t fallback s = (if ma_tab s = t then s
     else s\<lparr>ma_tab := t, ma_instance := ma_instance s + 1, ma_weight := '''', ma_material := fallback, ma_busy := False\<rparr>)"

definition mobile_payload :: "DeviceMeta \<Rightarrow> capture \<Rightarrow> string \<Rightarrow> string \<Rightarrow> string \<Rightarrow> WeighInPayload" where
  "mobile_payload device c nowText photoHash nonce = \<lparr>p_schema = ''proofchain.weighin.v2'', p_collectorId = dm_collectorId device,
     p_hubId = dm_hubId device, p_deviceId = dm_deviceId device, p_weightKg = cp_weightKg c, p_material = cp_material c,
     p_capturedAt = nowText, p_photoHash = photoHash, p_nonce = nonce\<rparr>"

definition mobile_record :: "WeighInPayload \<Rightarrow> string \<Rightarrow> string \<Rightarrow> int \<Rightarrow> string \<Rightarrow> string QueuedWeighIn" where
  "mobile_record payload signature uri nowMs nowText = \<lparr>qw_id = int_to_string nowMs @ ''-'' @ take 8 (p_nonce payload),
     qw_payload = payload, qw_signature = signature, qw_photo = Some uri, qw_photoUploadedAt = None, qw_status = queued,
     qw_attempts = 0, qw_lastError = None, qw_createdAt = nowText, qw_syncedAt = None, qw_serverEventId = None\<rparr>"

text \<open>\<open>finally\<close>: the flag of the instance that was tapped, where it is still on display.\<close>

definition not_busy :: "capture \<Rightarrow> mobile_app \<Rightarrow> mobile_app" where
  "not_busy c s = (let s1 = s\<lparr>ma_captures := remove1 c (ma_captures s)\<rparr> in
     if ma_tab s1 = CaptureTab \<and> ma_instance s1 = cp_screen c then s1\<lparr>ma_busy := False\<rparr> else s1)"

definition capture_fails :: "string \<Rightarrow> capture \<Rightarrow> mobile_app \<Rightarrow> mobile_app" where
  "capture_fails message c s = not_busy c (s\<lparr>ma_alert := Some message\<rparr>)"

text \<open>
  The rest of the handler, after the camera has written a photo: hash, sign, store, clear
  the text and go to the queue tab.  Signing throws on a weight that has no canonical text.
\<close>

definition capture_done ::
  "curve \<Rightarrow> DeviceIdentity \<Rightarrow> DeviceMeta \<Rightarrow> string \<Rightarrow> int \<Rightarrow> string \<Rightarrow> string \<Rightarrow> bytes \<Rightarrow> string \<Rightarrow> capture \<Rightarrow> mobile_app \<Rightarrow> mobile_app" where
  "capture_done C identity device fallback nowMs nowText uri photo nonce c s = (let
       s1 = s\<lparr>ma_files := (ma_files s)(uri \<mapsto> photo)\<rparr>;
       photoHash = hashPhotoFile (\<lambda>u. base64_encode (with_default (ma_files s1 u) [])) uri;
       payload = mobile_payload device c nowText photoHash nonce
     in case mobile_signWeighIn C payload identity of
         Inl e \<Rightarrow> capture_fails ''canonical payload'' c s1
       | Inr signature \<Rightarrow> (let
             s2 = s1\<lparr>ma_store := enqueue (mobile_record payload signature uri nowMs nowText) (ma_store s1)\<rparr>
           in show_tab QueueTab fallback (not_busy c (if ma_tab s2 = CaptureTab \<and> ma_instance s2 = cp_screen c
                then s2\<lparr>ma_weight := ''''\<rparr> else s2))))"

section \<open>The background sync\<close>

text \<open>\<open>run\<close>: at most one pass per hook; without a connection the pass ends where it began.\<close>

definition run_sync :: "(string \<Rightarrow> string \<Rightarrow> int) \<Rightarrow> bool \<Rightarrow> nat \<Rightarrow> mobile_app \<Rightarrow> mobile_app" where
  "run_sync lc online h s = (if ma_inFlight s h \<or> \<not> online then s
     else s\<lparr>ma_inFlight := (ma_inFlight s)(h := True),
       ma_passes := ma_passes s @ [\<lparr>ps_hook = h, ps_stage = Posting (pending lc (ma_store s)), ps_outcome = no_outcome\<rparr>]\<rparr>)"

text \<open>The next record of a pass, the turn to the photos, and the end, which clears the flag.\<close>

definition advance_pass :: "(string \<Rightarrow> string \<Rightarrow> int) \<Rightarrow> backend \<Rightarrow> pass \<Rightarrow> mobile_app \<Rightarrow> mobile_app" where
  "advance_pass lc B p s = (let others = remove1 p (ma_passes s); CL = mobile_client lc (ma_files s) B in case ps_stage p of
      Posting (r # rs) \<Rightarrow> (case sync_record CL r (ma_store s, ma_link s, ps_outcome p) of (store, l, oc) \<Rightarrow>
        s\<lparr>ma_store := store, ma_link := l, ma_passes := others @ [p\<lparr>ps_stage := Posting rs, ps_outcome := oc\<rparr>]\<rparr>)
    | Posting [] \<Rightarrow> s\<lparr>ma_passes := others @ [p\<lparr>ps_stage := Sending (pendingPhotos lc (ma_store s))\<rparr>]\<rparr>
    | Sending (r # rs) \<Rightarrow> (case sync_photo CL r (ma_store s, ma_link s, ps_outcome p) of (store, l, oc) \<Rightarrow>
        s\<lparr>ma_store := store, ma_link := l, ma_passes := others @ [p\<lparr>ps_stage := Sending rs, ps_outcome := oc\<rparr>]\<rparr>)
    | Sending [] \<Rightarrow> s\<lparr>ma_passes := others, ma_inFlight := (ma_inFlight s)(ps_hook p := False)\<rparr>)"

section \<open>A start of the app\<close>

text \<open>What is in memory is gone; the queue is pruned before a screen is shown.\<close>

definition start_app :: "(string \<Rightarrow> int option) \<Rightarrow> int \<Rightarrow> string \<Rightarrow> mobile_app \<Rightarrow> mobile_app" where
  "start_app parse_date now fallback s = s\<lparr>ma_tab := CaptureTab, ma_instance := ma_instance s + 1, ma_weight := '''',
     ma_material := fallback, ma_busy := False, ma_alert := None, ma_captures := [], ma_inFlight := (\<lambda>_. False), ma_passes := [],
     ma_store := snd (pruneSynced parse_date now 14 (ma_store s))\<rparr>"

section \<open>Steps\<close>

text \<open>
  What surrounds the app: the curve, the collation, the backend and the device with its
  assignment.
\<close>

record mobile_env =
  mb_curve :: curve
  mb_identity :: DeviceIdentity
  mb_device :: DeviceMeta
  mb_collate :: "string \<Rightarrow> string \<Rightarrow> int"
  mb_backend :: backend

text \<open>The first material of the compiled list.\<close>

definition first_material :: "mobile_env \<Rightarrow> string" where
  "first_material E = m_code (hd (ct_pickable (fallbackCatalogue (mb_collate E))))"

text \<open>
  The camera gives a photo a file of its own, and the nonce a record an id of its own.
  \<open>Elsewhere\<close> is what the link and the backend do meanwhile, without forgetting a weigh-in.
  The app may be closed at any moment and started again: between two records of a pass, or
  when a record is marked and its exchange has gone as far as it may.
\<close>

inductive mobile_step :: "mobile_env \<Rightarrow> mobile_app \<Rightarrow> mobile_app \<Rightarrow> bool" for E where
  Typed: "mobile_step E s (type_text t s)"
| Picked: "mobile_step E s (pick_material code s)"
| Catalogued: "mobile_step E s (catalogue_loaded catalogue s)"
| Tapped: "ma_tab s = CaptureTab \<Longrightarrow> mobile_step E s (tap_capture (mb_device E) s)"
| Shown: "mobile_step E s (show_tab t (first_material E) s)"
| Failed: "c \<in> set (ma_captures s) \<Longrightarrow> mobile_step E s (capture_fails message c s)"
| Captured: "c \<in> set (ma_captures s) \<Longrightarrow> ma_files s uri = None
    \<Longrightarrow> int_to_string nowMs @ ''-'' @ take 8 nonce \<notin> qw_id ` set (readAll (ma_store s))
    \<Longrightarrow> mobile_step E s (capture_done (mb_curve E) (mb_identity E) (mb_device E) (first_material E) nowMs nowText uri photo nonce c s)"
| Ran: "ma_tab s = QueueTab \<Longrightarrow> mobile_step E s (run_sync (mb_collate E) online (ma_instance s) s)"
| Moved: "p \<in> set (ma_passes s) \<Longrightarrow> mobile_step E s (advance_pass (mb_collate E) (mb_backend E) p s)"
| Elsewhere: "link_goes (ma_link s) l \<Longrightarrow> mobile_step E s (s\<lparr>ma_link := l\<rparr>)"
| Started: "mobile_step E s (start_app parse_date now (first_material E) s)"
| Killed: "p \<in> set (ma_passes s) \<Longrightarrow> ps_stage p = Posting (r # rs) \<Longrightarrow> link_goes (ma_link s) l
    \<Longrightarrow> mobile_step E s (start_app parse_date now (first_material E)
      (s\<lparr>ma_store := update (qw_id r) mark_syncing (ma_store s), ma_link := l\<rparr>))"

abbreviation mobile_runs :: "mobile_env \<Rightarrow> mobile_app \<Rightarrow> mobile_app \<Rightarrow> bool" where
  "mobile_runs E \<equiv> (mobile_step E)\<^sup>*\<^sup>*"

text \<open>The app as it starts, with an empty queue.\<close>

definition first_mobile :: "string \<Rightarrow> link \<Rightarrow> mobile_app" where
  "first_mobile material l = \<lparr>ma_tab = CaptureTab, ma_instance = 0, ma_weight = '''', ma_material = material, ma_busy = False,
     ma_alert = None, ma_captures = [], ma_inFlight = (\<lambda>_. False), ma_passes = [], ma_store = Map.empty, ma_link = l,
     ma_files = Map.empty\<rparr>"

section \<open>What is in the queue\<close>

text \<open>A record whose signature the server accepts and whose photo is the one that was hashed.\<close>

definition attested_on :: "(bytes \<Rightarrow> bytes \<Rightarrow> bytes \<Rightarrow> bool option) \<Rightarrow> DeviceIdentity \<Rightarrow> (string \<Rightarrow> bytes option)
    \<Rightarrow> string QueuedWeighIn \<Rightarrow> bool" where
  "attested_on cv identity files r = (verifyWeighInSignature cv (qw_payload r) (qw_signature r) (di_publicKeyBase64 identity)
     \<and> (\<exists>uri photo. qw_photo r = Some uri \<and> files uri = Some photo \<and> p_photoHash (qw_payload r) = sha256Hex photo))"

fun still_due :: "stage \<Rightarrow> string QueuedWeighIn list" where
  "still_due (Posting rs) = rs"
| "still_due (Sending rs) = rs"

text \<open>The records, what the passes still hold of them, and the flags that guard the passes.\<close>

definition rows_ok :: "(bytes \<Rightarrow> bytes \<Rightarrow> bytes \<Rightarrow> bool option) \<Rightarrow> mobile_env \<Rightarrow> mobile_app \<Rightarrow> bool" where
  "rows_ok cv E s = (distinct (map qw_id (readAll (ma_store s)))
     \<and> (\<forall>r \<in> set (readAll (ma_store s)). settled_by (link_holds (ma_link s)) r \<and> attested_on cv (mb_identity E) (ma_files s) r))"

definition passes_ok :: "mobile_app \<Rightarrow> bool" where
  "passes_ok s = ((\<forall>p \<in> set (ma_passes s). \<forall>r \<in> set (still_due (ps_stage p)). work r \<in> work ` set (readAll (ma_store s)))
     \<and> distinct (map ps_hook (ma_passes s)) \<and> (\<forall>h. ma_inFlight s h = (h \<in> ps_hook ` set (ma_passes s))))"

definition mobile_ok :: "(bytes \<Rightarrow> bytes \<Rightarrow> bytes \<Rightarrow> bool option) \<Rightarrow> mobile_env \<Rightarrow> mobile_app \<Rightarrow> bool" where
  "mobile_ok cv E s = (rows_ok cv E s \<and> passes_ok s)"

text \<open>What a step may do to the rows: a record's work stays, unless the backend holds the weigh-in.\<close>

definition rows_go :: "mobile_app \<Rightarrow> mobile_app \<Rightarrow> bool" where
  "rows_go s s' = (link_goes (ma_link s) (ma_link s') \<and> (\<forall>r \<in> set (readAll (ma_store s)).
     work r \<in> work ` set (readAll (ma_store s')) \<or> (\<exists>i. link_holds (ma_link s') (qw_payload r) i)))"

lemma rows_go_kept:
  "link_goes (ma_link s) (ma_link s') \<Longrightarrow> map work (readAll (ma_store s')) = map work (readAll (ma_store s)) @ new \<Longrightarrow> rows_go s s'"
proof -
  assume l: "link_goes (ma_link s) (ma_link s')" and "map work (readAll (ma_store s')) = map work (readAll (ma_store s)) @ new"
  then have "set (map work (readAll (ma_store s'))) = set (map work (readAll (ma_store s)) @ new)" by simp
  then have "work ` set (readAll (ma_store s)) \<subseteq> work ` set (readAll (ma_store s'))" by auto
  then show ?thesis using l by (auto simp: rows_go_def)
qed

lemma rows_go_same: "ma_store s' = ma_store s \<Longrightarrow> ma_link s' = ma_link s \<Longrightarrow> rows_go s s'"
  by (simp add: rows_go_def)

lemma rows_go_trans:
  assumes "rows_go s t" and "rows_go t u"
  shows "rows_go s u"
proof -
  have l: "link_goes (ma_link s) (ma_link t)" "link_goes (ma_link t) (ma_link u)" using assms by (simp_all add: rows_go_def)
  have "work r \<in> work ` set (readAll (ma_store u)) \<or> (\<exists>i. link_holds (ma_link u) (qw_payload r) i)"
    if "r \<in> set (readAll (ma_store s))" for r
  proof (cases "work r \<in> work ` set (readAll (ma_store t))")
    case True
    then obtain x where x: "x \<in> set (readAll (ma_store t))" "work r = work x" by (rule imageE) simp
    moreover have "qw_payload r = qw_payload x" using x(2) by (simp add: work_def)
    ultimately show ?thesis using assms(2) by (simp add: rows_go_def)
  next
    case False
    have "\<forall>r \<in> set (readAll (ma_store s)). work r \<in> work ` set (readAll (ma_store t)) \<or> (\<exists>i. link_holds (ma_link t) (qw_payload r) i)"
      using assms(1) by (simp add: rows_go_def)
    from bspec[OF this that] False have "\<exists>i. link_holds (ma_link t) (qw_payload r) i" by simp
    then obtain i where "link_holds (ma_link t) (qw_payload r) i" ..
    then show ?thesis using link_holds_later[OF l(2), of "qw_payload r" i] by (intro disjI2 exI)
  qed
  moreover have "link_goes (ma_link s) (ma_link u)" using l by (rule link_goes_trans)
  ultimately show ?thesis by (simp add: rows_go_def)
qed

text \<open>A step that touches neither the queue, the link, the photos nor the passes.\<close>

lemma untouched:
  assumes "mobile_ok cv E s" and "ma_store s' = ma_store s" "ma_link s' = ma_link s" "ma_files s' = ma_files s"
    and "ma_passes s' = ma_passes s" "ma_inFlight s' = ma_inFlight s"
  shows "mobile_ok cv E s' \<and> rows_go s s'"
  using assms by (simp add: mobile_ok_def rows_ok_def passes_ok_def rows_go_def)

lemma show_tab_keeps [simp]:
  "ma_store (show_tab t m s) = ma_store s" "ma_link (show_tab t m s) = ma_link s" "ma_files (show_tab t m s) = ma_files s"
  "ma_passes (show_tab t m s) = ma_passes s" "ma_inFlight (show_tab t m s) = ma_inFlight s"
  by (simp_all add: show_tab_def)

lemma not_busy_keeps [simp]:
  "ma_store (not_busy c s) = ma_store s" "ma_link (not_busy c s) = ma_link s" "ma_files (not_busy c s) = ma_files s"
  "ma_passes (not_busy c s) = ma_passes s" "ma_inFlight (not_busy c s) = ma_inFlight s"
  by (simp_all add: not_busy_def Let_def)

text \<open>A store and a link with the same work, as a record of the sync leaves them.\<close>

lemma work_image: "map work rs' = map work rs \<Longrightarrow> work ` set rs' = work ` set rs"
  by (metis set_map)

lemma work_ids: "map work rs' = map work rs \<Longrightarrow> map qw_id rs' = map qw_id rs"
proof -
  assume "map work rs' = map work rs"
  then have "map fst (map work rs') = map fst (map work rs)" by simp
  then show ?thesis by (simp add: work_def comp_def)
qed

lemma attested_work: "work r = work x \<Longrightarrow> attested_on cv i fs r = attested_on cv i fs x"
  by (simp add: work_def attested_on_def)

lemma synced_ok:
  assumes ok: "mobile_ok cv E s" and p: "p \<in> set (ma_passes s)"
    and same: "map work (readAll store) = map work (readAll (ma_store s))"
    and settled: "\<forall>x \<in> set (readAll store). settled_by (link_holds l) x" and l: "link_goes (ma_link s) l"
    and q: "ps_hook q = ps_hook p" "\<forall>r \<in> set (still_due (ps_stage q)). work r \<in> work ` set (readAll (ma_store s))"
    and s': "s' = s\<lparr>ma_store := store, ma_link := l, ma_passes := remove1 p (ma_passes s) @ [q]\<rparr>"
  shows "mobile_ok cv E s' \<and> rows_go s s'"
proof -
  note im = work_image[OF same] and ids = work_ids[OF same]
  have att: "attested_on cv (mb_identity E) (ma_files s) r" if "r \<in> set (readAll store)" for r
  proof -
    have "work r \<in> work ` set (readAll (ma_store s))" using imageI[OF that, of work] unfolding im .
    then obtain x where "x \<in> set (readAll (ma_store s))" "work r = work x" by (rule imageE) simp
    then show ?thesis using ok attested_work[of r x] by (simp add: mobile_ok_def rows_ok_def)
  qed
  have "rows_ok cv E s'" using ok ids settled att by (simp add: mobile_ok_def rows_ok_def s')
  moreover have "passes_ok s'"
  proof -
    have d: "distinct (map ps_hook (ma_passes s))" and fl: "\<forall>h. ma_inFlight s h = (h \<in> ps_hook ` set (ma_passes s))"
        and du: "\<forall>p \<in> set (ma_passes s). \<forall>r \<in> set (still_due (ps_stage p)). work r \<in> work ` set (readAll (ma_store s))"
      using ok by (auto simp: mobile_ok_def passes_ok_def)
    have split: "mset (ma_passes s) = add_mset p (mset (remove1 p (ma_passes s)))" using p by simp
    have hooks: "mset (map ps_hook (ma_passes s')) = mset (map ps_hook (ma_passes s))"
      using arg_cong[OF split, of "image_mset ps_hook"] by (simp add: s' q(1))
    have "distinct (map ps_hook (ma_passes s'))" using d mset_eq_imp_distinct_iff[OF hooks] by blast
    moreover have "ps_hook ` set (ma_passes s') = ps_hook ` set (ma_passes s)" using mset_eq_setD[OF hooks] by simp
    moreover have "\<forall>x \<in> set (ma_passes s'). \<forall>r \<in> set (still_due (ps_stage x)). work r \<in> work ` set (readAll store)"
      using du q(2) set_remove1_subset[of p "ma_passes s"] im by (auto simp: s')
    moreover have "ma_inFlight s' = ma_inFlight s" "ma_store s' = store" by (simp_all add: s')
    ultimately show ?thesis using fl unfolding passes_ok_def by simp
  qed
  moreover have "rows_go s s'" by (rule rows_go_kept[where new = "[]"]) (simp_all add: s' same l)
  ultimately show ?thesis by (simp add: mobile_ok_def)
qed

lemma advance_ok:
  assumes ok: "mobile_ok cv E s" and p: "p \<in> set (ma_passes s)"
  shows "mobile_ok cv E (advance_pass lc B p s) \<and> rows_go s (advance_pass lc B p s)"
proof -
  let ?C = "mobile_client lc (ma_files s) B"
  have d: "distinct (map qw_id (readAll (ma_store s)))" and st: "\<forall>x \<in> set (readAll (ma_store s)). settled_by (link_holds (ma_link s)) x"
      and due: "\<forall>r \<in> set (still_due (ps_stage p)). work r \<in> work ` set (readAll (ma_store s))"
    using ok p by (auto simp: mobile_ok_def rows_ok_def passes_ok_def)
  show ?thesis
  proof (cases "ps_stage p")
    case (Posting rs)
    show ?thesis
    proof (cases rs)
      case Nil
      have sub: "\<forall>r \<in> set (pendingPhotos lc (ma_store s)). work r \<in> work ` set (readAll (ma_store s))"
        by (auto simp: pendingPhotos_def)
      show ?thesis
        by (rule synced_ok[OF ok p refl st goes_fates(2), of "p\<lparr>ps_stage := Sending (pendingPhotos lc (ma_store s))\<rparr>"])
          (use sub Posting Nil in \<open>simp_all add: advance_pass_def\<close>)
    next
      case (Cons r rest)
      obtain store l oc where one: "sync_record ?C r (ma_store s, ma_link s, ps_outcome p) = (store, l, oc)"
        by (cases "sync_record ?C r (ma_store s, ma_link s, ps_outcome p)")
      then have "fold (sync_record ?C) [r] (ma_store s, ma_link s, ps_outcome p) = (store, l, oc)" by simp
      from mobile_sync.sync_records_pass[OF this d] due Posting Cons
      have w: "map work (readAll store) = map work (readAll (ma_store s))"
        and l: "\<forall>x \<in> set (readAll store). settled_by (link_holds l) x" and g: "link_goes (ma_link s) l" using st by auto
      show ?thesis
        by (rule synced_ok[OF ok p w l g, of "p\<lparr>ps_stage := Posting rest, ps_outcome := oc\<rparr>"])
          (use due one Posting Cons in \<open>simp_all add: advance_pass_def\<close>)
    qed
  next
    case (Sending rs)
    show ?thesis
    proof (cases rs)
      case Nil
      have "passes_ok (advance_pass lc B p s)"
      proof -
        have d: "distinct (map ps_hook (ma_passes s))" using ok by (simp add: mobile_ok_def passes_ok_def)
        have "ps_hook ` set (remove1 p (ma_passes s)) = ps_hook ` set (ma_passes s) - {ps_hook p}"
          using d p by (auto simp: distinct_map inj_on_def)
        moreover have "distinct (map ps_hook (remove1 p (ma_passes s)))"
          using d set_remove1_subset[of p "ma_passes s"] by (auto simp: distinct_map intro: inj_on_subset)
        ultimately show ?thesis
          using ok set_remove1_subset[of p "ma_passes s"] Sending Nil
          by (auto simp: mobile_ok_def passes_ok_def advance_pass_def)
      qed
      moreover have "rows_ok cv E (advance_pass lc B p s)" using ok Sending Nil
        by (simp add: mobile_ok_def rows_ok_def advance_pass_def)
      moreover have "rows_go s (advance_pass lc B p s)" using Sending Nil by (simp add: rows_go_def advance_pass_def)
      ultimately show ?thesis by (simp add: mobile_ok_def)
    next
      case (Cons r rest)
      obtain store l oc where one: "sync_photo ?C r (ma_store s, ma_link s, ps_outcome p) = (store, l, oc)"
        by (cases "sync_photo ?C r (ma_store s, ma_link s, ps_outcome p)")
      then have "fold (sync_photo ?C) [r] (ma_store s, ma_link s, ps_outcome p) = (store, l, oc)" by simp
      from mobile_sync.sync_photos_pass[OF this d]
      have w: "map work (readAll store) = map work (readAll (ma_store s))"
        and l: "\<forall>x \<in> set (readAll store). settled_by (link_holds l) x" and g: "link_goes (ma_link s) l" using st by auto
      show ?thesis
        by (rule synced_ok[OF ok p w l g, of "p\<lparr>ps_stage := Sending rest, ps_outcome := oc\<rparr>"])
          (use due one Sending Cons in \<open>simp_all add: advance_pass_def\<close>)
    qed
  qed
qed

lemma run_ok:
  assumes ok: "mobile_ok cv E s"
  shows "mobile_ok cv E (run_sync lc online h s) \<and> rows_go s (run_sync lc online h s)"
proof (cases "ma_inFlight s h \<or> \<not> online")
  case True
  then show ?thesis using ok by (auto simp: run_sync_def rows_go_def)
next
  case False
  have "set (pending lc (ma_store s)) \<subseteq> set (readAll (ma_store s))" by (auto simp: pending_def)
  then show ?thesis using ok False
    by (auto simp: mobile_ok_def rows_ok_def passes_ok_def rows_go_def run_sync_def)
qed

text \<open>A finished capture adds one record: new, queued and attested, with its photo beside those of the others.\<close>

lemma enqueue_rows [simp]: "readAll (enqueue r store) = readAll store @ [r]"
  by (simp add: enqueue_def enqueue_write_def)

lemma hash_of_file: "files uri = Some photo \<Longrightarrow> hashPhotoFile (\<lambda>u. base64_encode (with_default (files u) [])) uri = sha256Hex photo"
  by (simp add: hashPhotoFile_def sha256Hex_def with_default_def)

lemma fails_ok:
  assumes "mobile_ok cv E s"
  shows "mobile_ok cv E (capture_fails m c s) \<and> rows_go s (capture_fails m c s)"
  by (rule untouched[OF assms]) (simp_all add: capture_fails_def)

lemma new_file_ok:
  assumes "mobile_ok cv E s" and "ma_files s uri = None"
  shows "mobile_ok cv E (s\<lparr>ma_files := (ma_files s)(uri \<mapsto> photo)\<rparr>)"
proof -
  have "attested_on cv i ((ma_files s)(uri \<mapsto> photo)) r" if a: "attested_on cv i (ma_files s) r" for i r
  proof -
    obtain u bs where u: "qw_photo r = Some u" "ma_files s u = Some bs" "p_photoHash (qw_payload r) = sha256Hex bs"
      using a unfolding attested_on_def by blast
    then have "((ma_files s)(uri \<mapsto> photo)) u = Some bs" using assms(2) by (cases "u = uri") simp_all
    then show ?thesis using a u unfolding attested_on_def by metis
  qed
  then show ?thesis using assms(1) by (simp add: mobile_ok_def rows_ok_def passes_ok_def)
qed

lemma new_record_ok:
  assumes "mobile_ok cv E s" and "qw_id r \<notin> qw_id ` set (readAll (ma_store s))" and "is_pending r"
    and "attested_on cv (mb_identity E) (ma_files s) r"
  shows "mobile_ok cv E (s\<lparr>ma_store := enqueue r (ma_store s)\<rparr>)"
proof -
  let ?s = "s\<lparr>ma_store := enqueue r (ma_store s)\<rparr>"
  have "settled_by (link_holds (ma_link s)) r" using assms(3) by (simp add: settled_by_def)
  then have "rows_ok cv E ?s" using assms(1,2,4) by (simp add: mobile_ok_def rows_ok_def)
  moreover have "passes_ok ?s" using assms(1) by (simp add: mobile_ok_def passes_ok_def)
  ultimately show ?thesis by (simp add: mobile_ok_def)
qed

lemma capture_done_ok:
  assumes ok: "mobile_ok cv E s" and l: "ed25519_laws (mb_curve E) cv" "made_from (mb_curve E) secret (mb_identity E)"
    and new: "ma_files s uri = None" "int_to_string nowMs @ ''-'' @ take 8 nonce \<notin> qw_id ` set (readAll (ma_store s))"
    and s': "s' = capture_done (mb_curve E) (mb_identity E) device m nowMs nowText uri photo nonce c s"
  shows "mobile_ok cv E s' \<and> rows_go s s'"
proof -
  let ?s1 = "s\<lparr>ma_files := (ma_files s)(uri \<mapsto> photo)\<rparr>"
  let ?p = "mobile_payload device c nowText (sha256Hex photo) nonce"
  have one: "mobile_ok cv E ?s1" by (rule new_file_ok[OF ok new(1)])
  have hash: "hashPhotoFile (\<lambda>u. base64_encode (with_default (ma_files ?s1 u) [])) uri = sha256Hex photo"
    by (rule hash_of_file) simp
  show ?thesis
  proof (cases "mobile_signWeighIn (mb_curve E) ?p (mb_identity E)")
    case (Inl e)
    then have "s' = capture_fails ''canonical payload'' c ?s1" unfolding s' capture_done_def Let_def hash by simp
    then show ?thesis using fails_ok[OF one, of "''canonical payload''" c] by (auto simp: rows_go_def)
  next
    case (Inr sig)
    let ?r = "mobile_record ?p sig uri nowMs nowText"
    have "attested_on cv (mb_identity E) (ma_files ?s1) ?r"
      using signed_verifies[OF l disjI1[OF Inr]] by (simp add: attested_on_def mobile_record_def mobile_payload_def)
    then have two: "mobile_ok cv E (?s1\<lparr>ma_store := enqueue ?r (ma_store ?s1)\<rparr>)"
      using new(2) by (intro new_record_ok[OF one]) (simp_all add: mobile_record_def mobile_payload_def is_pending_def)
    have "ma_store s' = enqueue ?r (ma_store s)" "ma_link s' = ma_link s" "ma_files s' = (ma_files s)(uri \<mapsto> photo)"
        "ma_passes s' = ma_passes s" "ma_inFlight s' = ma_inFlight s"
      unfolding s' capture_done_def Let_def hash by (simp_all add: Inr)
    then show ?thesis using untouched[OF two, of s'] rows_go_kept[of s s' "[work ?r]"] by simp
  qed
qed

text \<open>A start drops only records that the backend holds, and the passes with the flags that guarded them.\<close>

lemma pruned_rows:
  "readAll (snd (pruneSynced pd now days store)) = filter (\<lambda>r. \<not> is_stale pd (now - days * DAY_MS) r) (readAll store)"
proof (cases "filter (\<lambda>r. \<not> is_stale pd (now - days * DAY_MS) r) (readAll store) = readAll store")
  case False
  then have "length (filter (\<lambda>r. \<not> is_stale pd (now - days * DAY_MS) r) (readAll store)) \<noteq> length (readAll store)"
    by (metis filter_id_conv length_filter_less order_less_irrefl)
  then show ?thesis by (simp add: pruneSynced_def Let_def)
qed (simp add: pruneSynced_def Let_def)

lemma start_ok:
  assumes ok: "rows_ok cv E s"
  shows "mobile_ok cv E (start_app pd now m s) \<and> rows_go s (start_app pd now m s)"
proof -
  let ?s = "start_app pd now m s"
  have rows: "readAll (ma_store ?s) = filter (\<lambda>r. \<not> is_stale pd (now - 14 * DAY_MS) r) (readAll (ma_store s))"
    by (simp add: start_app_def pruned_rows)
  have same: "ma_link ?s = ma_link s" "ma_files ?s = ma_files s" "ma_passes ?s = []" "ma_inFlight ?s = (\<lambda>_. False)"
    by (simp_all add: start_app_def)
  have "rows_ok cv E ?s" using ok by (simp add: rows_ok_def rows same distinct_map_filter)
  moreover have "passes_ok ?s" by (simp add: passes_ok_def same)
  moreover have "\<exists>i. link_holds (ma_link s) (qw_payload r) i" if "r \<in> set (readAll (ma_store s))" "is_stale pd c r" for r c
    using that ok by (auto simp: rows_ok_def settled_by_def is_stale_def is_pending_def)
  then have "rows_go s ?s" unfolding rows_go_def rows same by auto
  ultimately show ?thesis by (simp add: mobile_ok_def)
qed

lemma settled_goes: "link_goes l l' \<Longrightarrow> settled_by (link_holds l) r \<Longrightarrow> settled_by (link_holds l') r"
  using link_holds_later by (auto simp: settled_by_def)

lemma marked_rows:
  assumes ok: "rows_ok cv E s" and l: "link_goes (ma_link s) l" and s': "s' = s\<lparr>ma_store := update i mark_syncing (ma_store s), ma_link := l\<rparr>"
  shows "rows_ok cv E s' \<and> rows_go s s'"
proof -
  let ?at = "\<lambda>x. if qw_id x = i then mark_syncing x else x"
  have d: "distinct (map qw_id (readAll (ma_store s)))" using ok by (simp add: rows_ok_def)
  have rows: "readAll (ma_store s') = map ?at (readAll (ma_store s))" using mobile_queue.rows_upd[OF keeps_work_id[OF marks_keep_work(1)] d] by (simp add: s')
  have w: "work (?at x) = work x" "qw_id (?at x) = qw_id x" for x by (simp_all add: work_def mark_syncing_def)
  have ids: "map qw_id (map ?at (readAll (ma_store s))) = map qw_id (readAll (ma_store s))" by (simp add: mark_syncing_def)
  have each: "settled_by (link_holds l) (?at x) \<and> attested_on cv (mb_identity E) (ma_files s) (?at x)" if "x \<in> set (readAll (ma_store s))" for x
  proof -
    have x: "settled_by (link_holds (ma_link s)) x" "attested_on cv (mb_identity E) (ma_files s) x"
      using ok that by (simp_all add: rows_ok_def)
    have "settled_by (link_holds l) (?at x)"
      using settled_goes[OF l x(1)] by (simp add: settled_by_def mark_syncing_def is_pending_def)
    then show ?thesis using attested_work[OF w(1)] x(2) by blast
  qed
  have "\<forall>r \<in> set (map ?at (readAll (ma_store s))). settled_by (link_holds l) r \<and> attested_on cv (mb_identity E) (ma_files s) r"
    unfolding set_map by (rule ballI, erule imageE) (erule ssubst, erule each)
  then have "rows_ok cv E s'" unfolding rows_ok_def rows using ids d by (simp only:) (simp add: s')
  moreover have "map work (readAll (ma_store s')) = map work (readAll (ma_store s)) @ []" by (simp add: rows work_def mark_syncing_def)
  then have "rows_go s s'" using l by (intro rows_go_kept) (simp_all add: s')
  ultimately show ?thesis ..
qed

lemma mobile_step_ok:
  assumes "mobile_step E s s'" and l: "ed25519_laws (mb_curve E) cv" "made_from (mb_curve E) secret (mb_identity E)"
    and ok: "mobile_ok cv E s"
  shows "mobile_ok cv E s' \<and> rows_go s s'"
  using assms(1)
proof cases
  case (Typed t)
  then show ?thesis by (intro untouched[OF ok]) (simp_all add: type_text_def)
next
  case (Picked code)
  then show ?thesis by (intro untouched[OF ok]) (simp_all add: pick_material_def)
next
  case (Catalogued catalogue)
  then show ?thesis by (intro untouched[OF ok]) (simp_all add: catalogue_loaded_def)
next
  case Tapped
  then show ?thesis by (intro untouched[OF ok]) (simp_all add: tap_capture_def)
next
  case (Shown t)
  then show ?thesis by (intro untouched[OF ok]) simp_all
next
  case (Failed c message)
  then show ?thesis using fails_ok[OF ok] by simp
next
  case (Captured c uri nowMs nonce nowText photo)
  show ?thesis by (rule capture_done_ok[OF ok l Captured(3,4,1)])
next
  case (Ran online)
  then show ?thesis using run_ok[OF ok] by simp
next
  case (Moved p)
  then show ?thesis using advance_ok[OF ok Moved(2)] by simp
next
  case (Elsewhere l)
  then show ?thesis using ok settled_goes[OF Elsewhere(2)] by (auto simp: mobile_ok_def rows_ok_def passes_ok_def rows_go_def)
next
  case (Started pd now)
  have "rows_ok cv E s" using ok by (simp add: mobile_ok_def)
  then show ?thesis unfolding Started by (rule start_ok)
next
  case (Killed p r rs l pd now)
  have "rows_ok cv E s" using ok by (simp add: mobile_ok_def)
  note marked = marked_rows[OF this Killed(4) refl, of "qw_id r"]
  show ?thesis unfolding Killed(1) using start_ok[OF conjunct1[OF marked]] rows_go_trans[OF conjunct2[OF marked]] by blast
qed

lemma mobile_runs_ok:
  assumes "mobile_runs E s s'" and "ed25519_laws (mb_curve E) cv" and "made_from (mb_curve E) secret (mb_identity E)"
    and "mobile_ok cv E s"
  shows "mobile_ok cv E s' \<and> rows_go s s'"
  using assms(1)
proof (induction rule: rtranclp_induct)
  case base
  then show ?case using assms(4) by (simp add: rows_go_same)
next
  case (step t u)
  then show ?case using mobile_step_ok[OF step(2) assms(2,3)] rows_go_trans by blast
qed

lemma first_mobile_ok: "mobile_ok cv E (first_mobile material l)"
  by (simp add: mobile_ok_def rows_ok_def passes_ok_def first_mobile_def readAll_def getItem_def)

section \<open>A weight is read as it was typed\<close>

lemma longest_start:
  assumes "1 \<le> m" and "m \<le> n" and "P m" and "\<And>k. m < k \<Longrightarrow> k \<le> n \<Longrightarrow> \<not> P k"
  shows "find_one P (rev [1..<Suc n]) = Some m"
  using assms
proof (induction n)
  case (Suc n)
  then show ?case by (cases "m = Suc n") auto
qed simp

lemma digits_no [simp]:
  assumes "digit_chars ds"
  shows "CHR ''.'' \<notin> set ds" "CHR ''e'' \<notin> set ds" "CHR ''E'' \<notin> set ds" "CHR '','' \<notin> set ds"
  using assms by (auto simp: digit_chars_def list_all_iff)

lemma comma_read: "CHR '','' \<notin> set i \<Longrightarrow> comma_to_point (i @ CHR '','' # r) = i @ CHR ''.'' # r"
  by (induction i) auto

lemma comma_none: "CHR '','' \<notin> set t \<Longrightarrow> comma_to_point t = t"
  by (induction t) auto

lemma no_E: "digit_chars ds \<Longrightarrow> map (\<lambda>c. if c = CHR ''E'' then CHR ''e'' else c) ds = ds"
  by (auto simp: digit_chars_def list_all_iff intro!: map_idI)

lemma digit_start:
  assumes "digit_chars i" and "i \<noteq> []"
  shows "unsigned_part (i @ r) = i @ r" and "trim_start (i @ r) = i @ r" and "i @ r \<noteq> ''Infinity''" and "hd (i @ r) \<noteq> CHR ''-''"
    and "hd (i @ r) \<noteq> CHR ''+''"
proof -
  obtain c cs where i: "i = c # cs" using assms(2) by (cases i) auto
  have c: "48 \<le> (of_char c :: nat)" "(of_char c :: nat) < 58" using assms(1) i by (simp_all add: digit_chars_def)
  then have n: "c \<noteq> CHR ''-''" "c \<noteq> CHR ''+''" "c \<noteq> CHR ''I''" "\<not> is_space c" by (auto simp: is_space_def)
  then show "unsigned_part (i @ r) = i @ r" "trim_start (i @ r) = i @ r" "i @ r \<noteq> ''Infinity''" "hd (i @ r) \<noteq> CHR ''-''"
      "hd (i @ r) \<noteq> CHR ''+''"
    by (simp_all add: i unsigned_part_def trim_start_def)
qed

lemma point_number:
  assumes "digit_chars i" and "digit_chars f" and "i \<noteq> []"
  shows "float_literal (i @ CHR ''.'' # f)"
    and "number_of_string (i @ CHR ''.'' # f) = js_of_rat (of_int (digits_value (i @ f)) * 10 powi (- int (length f)))"
proof -
  let ?t = "i @ CHR ''.'' # f"
  note start = digit_start[OF assms(1,3), of "CHR ''.'' # f"]
  have E: "map (\<lambda>c. if c = CHR ''E'' then CHR ''e'' else c) ?t = ?t" using no_E[OF assms(1)] no_E[OF assms(2)] by simp
  have v: "valid_decimal ?t" using assms by (intro valid_decimal_plain valid_mantissa_point) simp_all
  show "float_literal ?t" using start(1,3) E v by (simp add: float_literal_def)
  have chars: "list_all number_char ?t" using digit_chars_number assms(1,2) by (simp add: number_char_def)
  have r: "read_number ?t = of_int (digits_value (i @ f)) * 10 powi (- int (length f))"
    using assms(1,2) by (subst read_number_plain) (simp_all add: read_mantissa_point)
  have tr: "trim_number ?t = ?t" by (rule trim_number_id[OF chars])
  have ra: "radix_prefix ?t = None" by (rule radix_prefix_none[OF chars])
  have ne: "?t \<noteq> []" by simp
  show "number_of_string ?t = js_of_rat (of_int (digits_value (i @ f)) * 10 powi (- int (length f)))"
    unfolding number_of_string_def Let_def tr using ra ne start(3,4,5) E v r by simp
qed

lemma two_points:
  assumes "digit_chars i" and "digit_chars f" and "i \<noteq> []"
  shows "\<not> float_literal (i @ CHR ''.'' # f @ CHR ''.'' # r)"
proof -
  let ?m = "map (\<lambda>c. if c = CHR ''E'' then CHR ''e'' else c)"
  note start = digit_start[OF assms(1,3), of "CHR ''.'' # f @ CHR ''.'' # r"]
  have u: "?m (i @ CHR ''.'' # f @ CHR ''.'' # r) = i @ CHR ''.'' # f @ CHR ''.'' # ?m r" using no_E assms(1,2) by simp
  have "takeWhile (\<lambda>c. c \<noteq> CHR ''e'') (i @ CHR ''.'' # f @ CHR ''.'' # ?m r)
      = i @ CHR ''.'' # f @ CHR ''.'' # takeWhile (\<lambda>c. c \<noteq> CHR ''e'') (?m r)"
    using digits_no(2)[OF assms(1)] digits_no(2)[OF assms(2)] by (simp add: takeWhile_append)
  moreover have "\<not> valid_mantissa (i @ CHR ''.'' # f @ CHR ''.'' # x)" for x
    using assms(1) by (simp add: valid_mantissa_def split_at) (simp add: digit_chars_def)
  ultimately have "\<not> valid_decimal (i @ CHR ''.'' # f @ CHR ''.'' # ?m r)" by (simp add: valid_decimal_def)
  then show ?thesis unfolding float_literal_def Let_def start(1) u using start(3) by simp
qed

text \<open>What follows a second point is not read.\<close>

lemma parse_point:
  assumes "digit_chars i" and "digit_chars f" and "i \<noteq> []" and "r = [] \<or> hd r = CHR ''.''"
  shows "js_parseFloat (i @ CHR ''.'' # f @ r) = js_of_rat (of_int (digits_value (i @ f)) * 10 powi (- int (length f)))"
proof -
  let ?t = "i @ CHR ''.'' # f" and ?s = "i @ CHR ''.'' # f @ r"
  have "find_one (\<lambda>n. float_literal (take n ?s)) (rev [1..<Suc (length ?s)]) = Some (length ?t)"
  proof (rule longest_start)
    show "float_literal (take (length ?t) ?s)" using point_number(1)[OF assms(1-3)] by simp
    fix k assume k: "length ?t < k" "k \<le> length ?s"
    then obtain r' where r: "r = CHR ''.'' # r'" using assms(4) by (cases r) auto
    have "take k ?s = i @ CHR ''.'' # f @ CHR ''.'' # take (k - length ?t - 1) r'"
      using k by (simp add: r take_Cons')
    then show "\<not> float_literal (take k ?s)" using two_points[OF assms(1-3)] by simp
  qed simp_all
  moreover have "take (length ?t) ?s = ?t" by simp
  ultimately show ?thesis
    using point_number(2)[OF assms(1-3)] digit_start(2)[OF assms(1,3), of "CHR ''.'' # f @ r"] by (simp add: js_parseFloat_def Let_def)
qed

lemma grams_of_decimals:
  assumes "length f \<le> 3" and "digit_chars (i @ f)"
  shows "js_of_rat (of_int (digits_value (i @ f)) * 10 powi (- int (length f))) = gram (nat (digits_value (i @ f)) * 10 ^ (3 - length f))"
proof -
  have p: "0 \<le> digits_value (i @ f)" using digits_value_bound assms(2) by (simp add: all_digits_chars)
  have "(10 :: rat) ^ (3 - length f) * 10 ^ length f = 10 ^ 3" using assms(1) by (simp flip: power_add)
  then have u: "(10 :: rat) powi (- int (length f)) = 10 ^ (3 - length f) / 1000"
    by (simp add: power_int_minus field_simps)
  show ?thesis unfolding gram_def u using p by simp
qed

section \<open>Two passes over one queue\<close>

text \<open>What one answered record of a pass leaves of a queue of one, whatever the row has become since the pass read it.\<close>

lemma answered_row:
  assumes x: "readAll store = [x]" "qw_id x = qw_id r" and p: "postWeighIn B r l = (Inr a, l1)"
  shows "\<exists>store' l' oc' t b. sync_record (mobile_client lc files B) r (store, l, oc) = (store', l', oc') \<and> link_goes l1 l'
    \<and> (if r_quarantined a \<and> \<not> r_duplicate a then l' = l1 \<and> readAll store' = [mark_rejected a t (mark_syncing x)]
       else readAll store' = [mark_synced a b t (mark_syncing x)])"
proof -
  let ?C = "mobile_client lc files B"
  have two: "readAll (update (qw_id r) g (update (qw_id r) mark_syncing store)) = [g (mark_syncing x)]" if "keeps_work g" for g
    using mobile_sync.upd_twice[OF marks_keep_work(1) that, of store "qw_id r"] x by simp
  have cl: "cl_update ?C = update" "cl_post ?C r l = (Inr a, l1)" by (simp_all add: mobile_client_def p)
  show ?thesis
  proof (cases "r_quarantined a \<and> \<not> r_duplicate a")
    case True
    then show ?thesis using two[OF marks_keep_work(2)] by (simp add: sync_record_def cl Let_def link_goes_def) blast
  next
    case False
    obtain b l2 where t: "cl_tryPhoto ?C r (r_eventId a) l1 = (b, l2)" by fastforce
    then have "link_goes l1 l2" by (simp add: mobile_client_def mobile_photo_goes)
    then show ?thesis using two[OF marks_keep_work(3)] t False by (simp add: sync_record_def cl Let_def) blast
  qed
qed

lemma posted_twice:
  assumes f: "ln_fates l = Delivered # Delivered # fates"
    and s: "submit (bk_accepts B) (bk_env B) (ln_clock l) (fst (pop '''' (ln_newIds l))) (submission_json r) (ln_db l) = Inr (a, db)"
    and n: "\<not> r_duplicate a" "distinct (map e_payloadHash (events (ln_db l)))"
  shows "\<exists>l1 l2 b e. postWeighIn B r l = (Inr a, l1) \<and> postWeighIn B r l1 = (Inr b, l2) \<and> ln_db l1 = db \<and> r_duplicate b
    \<and> r_eventId b = e_id e \<and> e \<in> set (events db) \<and> e_id e = r_eventId a \<and> e_quarantined e = r_quarantined a"
proof -
  define l1 where "l1 = l\<lparr>ln_fates := Delivered # fates, ln_newIds := snd (pop '''' (ln_newIds l)), ln_db := db\<rparr>"
  have one: "postWeighIn B r l = (Inr a, l1)"
    using f serve_answered[of B "l\<lparr>ln_fates := Delivered # fates\<rparr>" r a db] s
    by (simp add: postWeighIn_def pop_def[of RequestLost] l1_def)
  obtain e b where e: "e \<in> set (events db)" "e_id e = r_eventId a" "e_quarantined e = r_quarantined a"
      and b: "submit (bk_accepts B) (bk_env B) (ln_clock l1) (fst (pop '''' (ln_newIds l1))) (submission_json r) db = Inr (b, db)"
        "r_duplicate b" "r_eventId b = e_id e"
    using submit_again[OF s n] by metis
  have "\<exists>l2. postWeighIn B r l1 = (Inr b, l2)"
    using serve_answered[of B "l1\<lparr>ln_fates := fates\<rparr>" r b db] b(1)
    by (simp add: postWeighIn_def pop_def[of RequestLost] l1_def)
  then obtain l2 where two: "postWeighIn B r l1 = (Inr b, l2)" by blast
  have "ln_db l1 = db" by (simp add: l1_def)
  then show ?thesis using one two b(2,3) e by blast
qed

section \<open>A run, for the witnesses\<close>

definition sample_mobile :: mobile_env where
  "sample_mobile = \<lparr>mb_curve = sample_curve, mb_identity = sample_identity, mb_device = \<lparr>dm_deviceId = ''d'', dm_collectorId = ''c'',
     dm_collectorName = ''C'', dm_hubId = ''h'', dm_hubName = ''Hub'', dm_minWeightKg = None, dm_maxWeightKg = None\<rparr>,
     mb_collate = (\<lambda>_ _. 0), mb_backend = sample_backend\<rparr>"

lemma typed_12345: "typed_weight ''12.345'' = gram 12345"
proof -
  have "digit_chars ''12''" "digit_chars ''345''" "digit_chars (''12'' @ ''345'')" "digits_value (''12'' @ ''345'') = 12345" by code_simp+
  then show ?thesis
    using parse_point[of "''12''" "''345''" "[]"] grams_of_decimals[of "''345''" "''12''"] by (simp add: typed_weight_def)
qed

lemma sample_capture:
  "\<exists>s r. mobile_runs sample_mobile (first_mobile ''PET'' l) s \<and> readAll (ma_store s) = [r]"
proof -
  let ?E = sample_mobile and ?s0 = "first_mobile ''PET'' l"
  let ?s1 = "type_text ''12.345'' ?s0"
  let ?s2 = "tap_capture (mb_device ?E) ?s1"
  let ?c = "\<lparr>cp_screen = 0, cp_weightKg = gram 12345, cp_material = ''PET''\<rparr>"
  let ?s3 = "capture_done (mb_curve ?E) (mb_identity ?E) (mb_device ?E) (first_material ?E) 0 ''t'' ''u'' [1, 2] ''n'' ?c ?s2"
  have "is_finite (gram 12345)" "js_gt (gram 12345) (Fin 0)" using gram_positive[of 12345] js_le_zero[of "gram 12345"] by auto
  then have valid: "weightValid (mb_device ?E) (gram 12345)"
    by (simp add: weightValid_def weightProblem_def device_bounds_def sample_mobile_def)
  have s2: "?s2 = ?s1\<lparr>ma_busy := True, ma_captures := [?c]\<rparr>"
    using valid by (simp add: tap_capture_def type_text_def first_mobile_def typed_12345)
  have "mobile_step ?E ?s0 ?s1" "mobile_step ?E ?s1 ?s2"
    by (rule Typed, rule Tapped) (simp add: type_text_def first_mobile_def)
  moreover have q: "?c \<in> set (ma_captures ?s2)" "ma_files ?s2 ''u'' = None" "readAll (ma_store ?s2) = []"
    unfolding s2 by (simp_all add: type_text_def first_mobile_def readAll_def getItem_def)
  moreover have "mobile_step ?E ?s2 ?s3" by (rule Captured[OF q(1,2)]) (simp add: q(3))
  ultimately have run: "mobile_runs ?E ?s0 ?s3" by (meson rtranclp.rtrancl_into_rtrancl rtranclp.rtrancl_refl)
  have "canonicalEventPayload (mobile_payload d ?c t h n) = Inr (canonical_text (mobile_payload d ?c t h n))" for d t h n
    by (rule canonical_total) (simp add: mobile_payload_def gram_weight)
  then have "\<exists>r. readAll (ma_store ?s3) = readAll (ma_store ?s2) @ [r]" by (simp add: capture_done_def mobile_signWeighIn_def Let_def)
  then show ?thesis using run q(3) by auto
qed

section \<open>Properties\<close>



text \<open>C38. Two passes hide a rejection.  The flag against overlapping passes belongs to an instance of the queue
  screen, and showing the other tab and coming back makes a new one.  So a collector who does that while a
  pass is under way starts a second pass over the same records; a weigh-in that the backend quarantined for
  the first pass is a duplicate to the second, and the app marks the rejected record synced, although no
  exchange was lost.\<close>

theorem second_pass_hides_rejection:
  assumes "ma_tab s = QueueTab" and "\<not> ma_inFlight s (ma_instance s)" and "\<not> ma_inFlight s (ma_instance s + 2)" and "ma_passes s = []"
    and "readAll (ma_store s) = [r]" and "is_pending r" and "ln_fates (ma_link s) = Delivered # Delivered # fates"
    and "submit (bk_accepts (mb_backend E)) (bk_env (mb_backend E)) (ln_clock (ma_link s)) (fst (pop '''' (ln_newIds (ma_link s))))
      (submission_json r) (ln_db (ma_link s)) = Inr (a, db)"
    and "r_quarantined a" and "\<not> r_duplicate a" and "distinct (map e_payloadHash (events (ln_db (ma_link s))))"
  shows "\<exists>s1 s2 x y e. mobile_runs E s s1 \<and> readAll (ma_store s1) = [x] \<and> qw_status x = rejected
    \<and> mobile_runs E s1 s2 \<and> readAll (ma_store s2) = [y] \<and> qw_status y = synced \<and> qw_serverEventId y = Some (e_id e)
    \<and> e \<in> set (events db) \<and> e_quarantined e"
proof -
  let ?lc = "mb_collate E" and ?B = "mb_backend E" and ?h = "ma_instance s" and ?fs = "ma_files s"
  let ?C = "mobile_client ?lc ?fs ?B"
  let ?pass = "\<lambda>h. \<lparr>ps_hook = h, ps_stage = Posting [r], ps_outcome = no_outcome\<rparr>"
  obtain l1 l2 b e where p: "postWeighIn ?B r (ma_link s) = (Inr a, l1)" "postWeighIn ?B r l1 = (Inr b, l2)" "r_duplicate b"
      "r_eventId b = e_id e" "e \<in> set (events db)" "e_quarantined e"
    using posted_twice[OF assms(7,8,10,11)] assms(9) by metis
  have due: "pending ?lc (ma_store s) = [r]" by (rule mobile_sync.due_single[OF assms(5,6)])
  define sA where "sA = run_sync ?lc True ?h s"
  define sB where "sB = show_tab QueueTab (first_material E) (show_tab CaptureTab (first_material E) sA)"
  define sC where "sC = run_sync ?lc True (ma_instance sB) sB"
  have A: "ma_passes sA = [?pass ?h]" "ma_tab sA = QueueTab" "ma_instance sA = ?h" "ma_store sA = ma_store s" "ma_link sA = ma_link s"
      "ma_files sA = ?fs" "ma_inFlight sA = (ma_inFlight s)(?h := True)"
    using assms(1,2,4) due by (simp_all add: sA_def run_sync_def)
  have B: "ma_passes sB = [?pass ?h]" "ma_tab sB = QueueTab" "ma_instance sB = ?h + 2" "ma_store sB = ma_store s" "ma_link sB = ma_link s"
      "ma_files sB = ?fs" "\<not> ma_inFlight sB (?h + 2)"
    using A assms(3) by (simp_all add: sB_def show_tab_def)
  have Cs: "ma_passes sC = [?pass ?h, ?pass (?h + 2)]" "ma_store sC = ma_store s" "ma_link sC = ma_link s" "ma_files sC = ?fs"
    using B due by (simp_all add: sC_def run_sync_def)
  have "mobile_step E s sA" unfolding sA_def by (rule Ran) (rule assms(1))
  moreover have "mobile_step E sA (show_tab CaptureTab (first_material E) sA)" by (rule Shown)
  moreover have "mobile_step E (show_tab CaptureTab (first_material E) sA) sB" unfolding sB_def by (rule Shown)
  moreover have "mobile_step E sB sC" unfolding sC_def by (rule Ran) (rule B(2))
  ultimately have run: "mobile_runs E s sC" by (meson rtranclp.rtrancl_into_rtrancl rtranclp.rtrancl_refl)
  obtain store1 oc1 t1 where one: "sync_record ?C r (ma_store s, ma_link s, no_outcome) = (store1, l1, oc1)"
      "readAll store1 = [mark_rejected a t1 (mark_syncing r)]"
    using answered_row[OF assms(5) refl p(1), of ?lc ?fs no_outcome] assms(9,10) by auto
  define s1 where "s1 = advance_pass ?lc ?B (?pass ?h) sC"
  have s1: "ma_store s1 = store1" "ma_link s1 = l1" "ma_files s1 = ?fs" "?pass (?h + 2) \<in> set (ma_passes s1)"
    using Cs one(1) by (simp_all add: s1_def advance_pass_def)
  have step1: "mobile_step E sC s1" unfolding s1_def by (rule Moved) (simp add: Cs)
  have "qw_id (mark_rejected a t1 (mark_syncing r)) = qw_id r" by (simp add: mark_rejected_def mark_syncing_def)
  from answered_row[OF one(2) this p(2), of ?lc ?fs no_outcome] p(3)
  obtain store2 l3 oc2 t2 c where two: "sync_record ?C r (store1, l1, no_outcome) = (store2, l3, oc2)"
      "readAll store2 = [mark_synced b c t2 (mark_syncing (mark_rejected a t1 (mark_syncing r)))]"
    by auto
  define s2 where "s2 = advance_pass ?lc ?B (?pass (?h + 2)) s1"
  have s2: "ma_store s2 = store2" using s1 two(1) by (simp add: s2_def advance_pass_def)
  have "mobile_step E s1 s2" unfolding s2_def by (rule Moved) (rule s1(4))
  then have "mobile_runs E s1 s2" by (rule r_into_rtranclp)
  moreover have "mobile_runs E s s1" by (rule rtranclp.rtrancl_into_rtrancl[OF run step1])
  ultimately show ?thesis using s1(1) s2 one(2) two(2) p(4,5,6)
    by (intro exI[of _ s1] exI[of _ s2] exI conjI) (assumption | simp add: mark_rejected_def mark_synced_def)+
qed

theorem second_pass_hides_rejection_witness:
  "\<exists>s2 y. readAll (ma_store (s2 :: mobile_app)) = [y] \<and> qw_status y = synced
    \<and> mobile_runs sample_mobile ((first_mobile ''PET'' (sample_link [Delivered, Delivered]))
        \<lparr>ma_tab := QueueTab, ma_store := writeAll [sample_record] Map.empty\<rparr>) s2"
proof -
  let ?s = "(first_mobile ''PET'' (sample_link [Delivered, Delivered]))\<lparr>ma_tab := QueueTab, ma_store := writeAll [sample_record] Map.empty\<rparr>"
  obtain a db where sub: "submit sample_accepts (dp_env run_deployment) 0 ''e'' sample_body registered_db = Inr (a, db)"
      "r_quarantined a" "\<not> r_duplicate a"
    using sample_quarantined by blast
  have "is_pending (sample_record :: string QueuedWeighIn)" by (simp add: is_pending_def sample_record_def)
  then obtain s1 s2 y where "mobile_runs sample_mobile ?s s1" "mobile_runs sample_mobile s1 s2" "readAll (ma_store s2) = [y]"
      "qw_status y = synced"
    using second_pass_hides_rejection[of ?s sample_record "[]" sample_mobile a db] sub
    by (auto simp: first_mobile_def sample_link_def sample_mobile_def sample_backend_def sample_record_body pop_def registered_db_def
        empty_db_def)
  then show ?thesis by (meson rtranclp_trans)
qed

text \<open>C13. A typed weight is weighed as it was typed, and a thousands separator is not understood.  Digits with up
  to three decimals, behind a point or a comma, are read to the exact gram.  With a comma before the thousands
  and a point before the decimals the text is read up to the point only: a sack of 1,234.5 kg is weighed in,
  and signed, as 1.234 kg.\<close>

theorem typed_weight_is_weighed:
  assumes "digit_chars i" and "digit_chars f" and "i \<noteq> []" and "length f \<le> 3"
  shows "(let w = gram (nat (digits_value (i @ f)) * 10 ^ (3 - length f)) in typed_weight (i @ CHR ''.'' # f) = w
    \<and> typed_weight (i @ CHR '','' # f) = w \<and> typed_weight (i @ CHR '','' # f @ CHR ''.'' # rest) = w)"
proof -
  have g: "js_parseFloat (i @ CHR ''.'' # f @ r) = gram (nat (digits_value (i @ f)) * 10 ^ (3 - length f))"
    if "r = [] \<or> hd r = CHR ''.''" for r
    using parse_point[OF assms(1,2,3) that] grams_of_decimals[OF assms(4)] assms(1,2) by simp
  have c: "comma_to_point (i @ CHR ''.'' # f) = i @ CHR ''.'' # f" using assms(1,2) by (intro comma_none) simp
  have d: "comma_to_point (i @ CHR '','' # r) = i @ CHR ''.'' # r" for r using assms(1) by (intro comma_read) simp
  show ?thesis
    using g[of "[]"] g[of "CHR ''.'' # rest"] by (simp add: typed_weight_def c d Let_def)
qed

theorem typed_weight_is_weighed_witness:
  "typed_weight ''12,345'' = gram 12345 \<and> typed_weight ''1,234.5'' = gram 1234"
proof -
  have v: "digit_chars ''12''" "digit_chars ''345''" "digit_chars ''1''" "digit_chars ''234''" "digits_value ''12345'' = 12345"
      "digits_value ''1234'' = 1234" by code_simp+
  show ?thesis
    using typed_weight_is_weighed[OF v(1,2)] typed_weight_is_weighed[OF v(3,4), of "''5''"] v(5,6) by (simp add: Let_def)
qed

end
