(* ===== verification/EndToEnd.thy ===== *)
theory EndToEnd
  imports CaptureApp System
begin

text \<open>
  The two ends of a weigh-in together: what the commit handler of the browser app
  (\<open>CaptureApp\<close>) signs and queues is what the ingest of the server (\<open>Events\<close>) checks.
  The device and the server share an enrolment (\<open>enrolled\<close>), a directory of hubs and
  roughly a clock; then nothing a collector does right ends in quarantine.
\<close>

section \<open>A device that the server knows\<close>

text \<open>What an administrator has set up for the provisioning of a device: its key, its collector, its hub
  with the bounds that the device was told.\<close>

definition enrolled :: "DeviceIdentity \<Rightarrow> Provisioning \<Rightarrow> db \<Rightarrow> bool" where
  "enrolled identity p s = ((\<exists>d. get_by d_id (pv_deviceId p) (devices s) = Some d \<and> d_collectorId d = pv_collectorId p
        \<and> d_publicKeyBase64 d = di_publicKeyBase64 identity \<and> d_revokedAt d = None)
     \<and> (\<exists>c. get_by c_id (pv_collectorId p) (collectors s) = Some c \<and> c_active c)
     \<and> (\<exists>h. get_by h_id (pv_hubId p) (hubs s) = Some h
        \<and> boundsForHub (hubChoices (pv_hubs p) (current_of p)) (pv_hubId p)
          = \<lparr>minKg = Some (h_minWeightKg h), maxKg = Some (h_maxWeightKg h)\<rparr>))"

lemma enrolledE:
  assumes "enrolled identity p s"
  obtains d c h where "get_by d_id (pv_deviceId p) (devices s) = Some d" "d_collectorId d = pv_collectorId p"
    "d_publicKeyBase64 d = di_publicKeyBase64 identity" "d_revokedAt d = None"
    "get_by c_id (pv_collectorId p) (collectors s) = Some c" "c_active c"
    "get_by h_id (pv_hubId p) (hubs s) = Some h"
    "boundsForHub (hubChoices (pv_hubs p) (current_of p)) (pv_hubId p)
      = \<lparr>minKg = Some (h_minWeightKg h), maxKg = Some (h_maxWeightKg h)\<rparr>"
  using assms unfolding enrolled_def by blast

lemma commit_payload_simps [simp]:
  "p_schema (commit_payload p t n s) = ''proofchain.weighin.v2''" "p_deviceId (commit_payload p t n s) = pv_deviceId p"
  "p_collectorId (commit_payload p t n s) = pv_collectorId p" "p_hubId (commit_payload p t n s) = pv_hubId p"
  "p_material (commit_payload p t n s) = ca_material s" "p_capturedAt (commit_payload p t n s) = t"
  "p_weightKg (commit_payload p t n s) = js_quantise 3 (ca_weight s)"
  "p_photoHash (commit_payload p t n s) = with_default (ca_photoHash s) ''''"
  by (simp_all add: commit_payload_def)

text \<open>The six checks of the server, on a committed weigh-in.\<close>

lemma committed_passes:
  assumes en: "enrolled identity p db"
    and w: "ca_weight s = gram g" "0 < g" "g \<le> 10 ^ 14" "ca_photoHash s = Some (sha256Hex bs)"
    and range: "weightProblem (ca_weight s) (boundsForHub (hubChoices (pv_hubs p) (current_of p)) (pv_hubId p)) = None"
    and sig: "verifyWeighInSignature (cryptoVerify env) (commit_payload p t n s) sig (di_publicKeyBase64 identity)"
    and fresh: "\<not> exists_where (\<lambda>e. e_payloadHash e = hash) (events db)"
    and clock: "parseDate env t = Some c" "c \<le> now + skew * 1000" "\<bar>c\<bar> \<le> 10 ^ 14" "\<bar>now\<bar> \<le> 10 ^ 14"
      "maxClockSkewSeconds env = js_of_int skew" "\<bar>skew\<bar> \<le> 2 ^ 53"
  shows "v_outcome (evaluateIntegrity (cryptoVerify env) (parseDate env) (commit_payload p t n s) sig
    (integrity_context env now (commit_payload p t n s) hash db)) \<noteq> fail"
proof -
  let ?p = "commit_payload p t n s"
  let ?ctx = "integrity_context env now ?p hash db"
  obtain d co h where d: "get_by d_id (pv_deviceId p) (devices db) = Some d" "d_collectorId d = pv_collectorId p"
      "d_publicKeyBase64 d = di_publicKeyBase64 identity" "d_revokedAt d = None"
    and co: "get_by c_id (pv_collectorId p) (collectors db) = Some co" "c_active co"
    and h: "get_by h_id (pv_hubId p) (hubs db) = Some h" "boundsForHub (hubChoices (pv_hubs p) (current_of p)) (pv_hubId p)
      = \<lparr>minKg = Some (h_minWeightKg h), maxKg = Some (h_maxWeightKg h)\<rparr>"
    using enrolledE[OF en] by metis
  have pos: "is_finite (gram g)" "\<not> js_le (gram g) (Fin 0)" "js_gt (gram g) (Fin 0)"
    using gram_positive[OF w(2,3)] js_le_zero by blast+
  have q: "p_weightKg ?p = gram g" using w(1,3) by (simp add: quantise_gram)
  have "weightProblem (gram g) \<lparr>minKg = Some (h_minWeightKg h), maxKg = Some (h_maxWeightKg h)\<rparr> = None" using range w(1) h(2) by simp
  then have bounds: "\<not> js_lt (gram g) (h_minWeightKg h)" "\<not> js_gt (gram g) (h_maxWeightKg h)"
    using pos by (auto simp: weightProblem_def split: if_splits)
  have hub: "x_hub ?ctx = Some (h_id h, h_minWeightKg h, h_maxWeightKg h)" by (simp add: integrity_context_def h)
  have weight: "weight_ok ?p ?ctx" using hub q pos bounds by (simp add: weight_ok_def)
  have device: "device_ok ?p ?ctx" by (simp add: device_ok_def integrity_context_def d co)
  have cls: "f_outcome (checkClock (parseDate env) ?p ?ctx) = clock_class (Some c) now skew"
    using checkClock_outcome[of "parseDate env" ?p ?ctx skew] clock by (simp add: integrity_context_def)
  have time: "f_outcome (checkClock (parseDate env) ?p ?ctx) \<noteq> fail"
    unfolding cls using clock(2) by (simp add: clock_class_def)
  have "x_device ?ctx = Some \<lparr>dc_id = d_id d, dc_collectorId = d_collectorId d, dc_publicKeyBase64 = di_publicKeyBase64 identity,
      dc_revokedAt = None\<rparr>" "\<not> x_isDuplicate ?ctx" "is_hash64 (p_photoHash ?p)"
    using fresh w(4) by (simp_all add: integrity_context_def d with_default_def)
  then show ?thesis using weight device time sig by (simp add: verdict_fail_iff)
qed

lemma committed_is_stored:
  assumes en: "enrolled identity p db" and payload: "q = commit_payload p t n s"
    and hash: "eventPayloadHash q = Inr hash" "get_by e_payloadHash hash (events db) = None"
    and known: "assertKnown (ca_material s) db = Inr ()" and c: "parseDate env t = Some c"
    and verdict: "v_outcome (evaluateIntegrity (cryptoVerify env) (parseDate env) q sig
      (integrity_context env now q hash db)) \<noteq> fail"
  shows "\<exists>e r'. ingest env now i q sig db = Inr (r', db\<lparr>events := insert_row e (events db)\<rparr>) \<and> \<not> e_quarantined e
    \<and> r_eventId r' = i \<and> \<not> r_quarantined r' \<and> \<not> r_duplicate r' \<and> e_id e = i \<and> e_weightKg e = p_weightKg q
    \<and> e_photoHash e = p_photoHash q \<and> e_signature e = sig \<and> e_payloadHash e = hash"
proof -
  have found: "get_by d_id (p_deviceId q) (devices db) \<noteq> None" "get_by c_id (p_collectorId q) (collectors db) \<noteq> None"
      "get_by h_id (p_hubId q) (hubs db) \<noteq> None" using enrolledE[OF en] payload by (metis commit_payload_simps option.distinct(1))+
  have plain: "p_schema q = ''proofchain.weighin.v2''" "assertKnown (p_material q) db = Inr ()" "parseDate env (p_capturedAt q) = Some c"
    using known c payload by simp_all
  obtain e where e: "ingest_read env now i q sig db = Inr (Insert e)" "\<not> e_quarantined e" "e_id e = i"
      "e_weightKg e = p_weightKg q" "e_photoHash e = p_photoHash q" "e_signature e = sig" "e_payloadHash e = hash"
    using found plain hash verdict by (simp add: ingest_read_def Let_def)
  have "ingest env now i q sig db = ingest_save e db" by (simp add: ingest_def e(1) ingest_finish_def)
  then show ?thesis using e(2-7) hash(2) by (intro exI[of _ e]) (simp add: ingest_save_def)
qed

section \<open>Properties\<close>


definition known_provisioning :: Provisioning where
  "known_provisioning = sample_provisioning\<lparr>pv_hubs := Some [\<lparr>ho_id = ''h'', ho_code = ''H'', ho_name = ''Hub'',
     ho_minWeightKg = Some (gram 100), ho_maxWeightKg = Some (gram 10000000)\<rparr>]\<rparr>"

definition known_db :: db where
  "known_db = registered_db\<lparr>devices := [run_device\<lparr>d_publicKeyBase64 := di_publicKeyBase64 sample_identity\<rparr>]\<rparr>"

definition known_env :: ingest_env where
  "known_env = \<lparr>cryptoVerify = (\<lambda>key _ sig. Some (sig = key @ key)), parseDate = (\<lambda>_. Some 0),
     maxClockSkewSeconds = js_of_int 300\<rparr>"

lemma known_enrolled: "enrolled sample_identity known_provisioning known_db"
  by (simp add: enrolled_def known_provisioning_def known_db_def sample_provisioning_def registered_db_def empty_db_def
      run_device_def run_collector_def run_hub_def get_by_def hubChoices_def boundsForHub_def)

lemma known_weight: "weightProblem (ca_weight ready_app)
    (boundsForHub (hubChoices (pv_hubs known_provisioning) (current_of known_provisioning)) (pv_hubId known_provisioning)) = None"
proof -
  have "\<not> js_lt (gram 12345) (gram 100)" "\<not> js_lt (gram 10000000) (gram 12345)" by (subst gram_less_iff; simp)+
  then show ?thesis
    by (simp add: known_provisioning_def sample_provisioning_def ready_app_def hubChoices_def boundsForHub_def weightProblem_def js_gt_def)
qed


end
