(* ===== verification/Setup.thy ===== *)
theory Setup
  imports Api
begin

text \<open>
  Bringing a deployment up: the administrator account (\<open>database/create-admin.ts\<close>), the
  development seed (\<open>database/seed.ts\<close>) and the migrations that change rows
  (\<open>database/migrations/\<close>: the material catalogue, its examples, the weight ceiling).
  The scripts run beside the services, on the same tables.
\<close>

section \<open>Creating an administrator\<close>

definition MIN_PASSWORD_LENGTH :: nat where "MIN_PASSWORD_LENGTH = 12"

definition PUBLISHED_PASSWORDS :: "string list" where
  "PUBLISHED_PASSWORDS = [''change-me-in-production'', ''admin-dev-password'', ''operator-dev-password'']"

definition assertUsablePassword :: "string \<Rightarrow> unit result" where
  "assertUsablePassword password =
    (if length password < MIN_PASSWORD_LENGTH
     then throw (PlainError (''ADMIN_PASSWORD must be at least '' @ int_to_string (int MIN_PASSWORD_LENGTH)
       @ '' characters (this account can seal and anchor batches)''))
     else if password \<in> set PUBLISHED_PASSWORDS
     then throw (PlainError ''ADMIN_PASSWORD is a placeholder from the repository; choose a real password'')
     else return ())"

text \<open>The test \<open>/^[^@\s]+@[^@\s]+\.[^@\s]+$/\<close>.\<close>

definition is_address :: "string \<Rightarrow> bool" where
  "is_address email = (case split_on (\<lambda>c. c = CHR ''@'') email of
      [name, domain] \<Rightarrow> name \<noteq> [] \<and> \<not> list_ex is_space email
        \<and> list_ex (\<lambda>k. domain ! k = CHR ''.'') [1..<length domain - 1]
    | _ \<Rightarrow> False)"

definition absent :: "string option \<Rightarrow> bool" where
  "absent v = (v = None \<or> v = Some '''')"

text \<open>The environment of the script.\<close>

record admin_env =
  av_email :: "string option"
  av_password :: "string option"
  av_reset :: "string option"

definition createAdmin :: "(string \<Rightarrow> string) \<Rightarrow> instant \<Rightarrow> string \<Rightarrow> admin_env \<Rightarrow> unit op" where
  "createAdmin hashPassword now newId env s = (let email = map_option (\<lambda>e. js_lower (js_trim e)) (av_email env);
       reset = (js_lower (with_default (av_reset env) '''') = ''true'')
     in if absent email \<or> absent (av_password env) then throw (PlainError
       (''set ADMIN_EMAIL and ADMIN_PASSWORD, e.g. ADMIN_EMAIL=you@example.com ADMIN_PASSWORD='' @ [CHR 0x27] @ ''...'' @ [CHR 0x27]
         @ '' npm run admin:create''))
     else if \<not> is_address (the email) then throw (PlainError (''ADMIN_EMAIL is not a valid email address: '' @ the email))
     else (case assertUsablePassword (the (av_password env)) of
        Inl e \<Rightarrow> throw e
      | Inr _ \<Rightarrow> (case get_by u_email (the email) (users s) of
          Some existing \<Rightarrow> if \<not> reset
            then throw (PlainError (the email @ '' already exists. To reset its password and re-enable it, re-run with ADMIN_RESET_PASSWORD=true''))
            else (let existing' = existing\<lparr>u_passwordHash := hashPassword (the (av_password env)), u_role := admin, u_active := True\<rparr>
              in return ((), s\<lparr>users := patch_by u_id (u_id existing) (\<lambda>_. existing') (users s)\<rparr>))
        | None \<Rightarrow> return ((), s\<lparr>users := insert_row \<lparr>u_id = newId, u_email = the email,
            u_passwordHash = hashPassword (the (av_password env)), u_role = admin, u_active = True, u_createdAt = now\<rparr> (users s)\<rparr>))))"

section \<open>The development seed\<close>

record DeviceSecret =
  sc_collectorId :: string
  sc_collectorName :: string
  sc_deviceId :: string
  sc_hubId :: string
  sc_publicKeyBase64 :: string
  sc_privateKeyPem :: string

text \<open>The file of the keys: not there, no JSON, or the list it holds.\<close>

datatype secrets_file = NoFile | NoJson | Held "DeviceSecret list"

definition readExistingSecrets :: "secrets_file \<Rightarrow> string \<Rightarrow> DeviceSecret option" where
  "readExistingSecrets path = (case path of
      Held entries \<Rightarrow> map_of (rev (map (\<lambda>e. (sc_deviceId e, e))
        (filter (\<lambda>e. sc_deviceId e \<noteq> '''' \<and> sc_privateKeyPem e \<noteq> '''') entries)))
    | _ \<Rightarrow> Map.empty)"

record seed_spec =
  sp_name :: string
  sp_phone :: string

definition seedCollectors :: "seed_spec list" where
  "seedCollectors = [\<lparr>sp_name = ''Amina Wanjiru'', sp_phone = ''+254700000001''\<rparr>,
     \<lparr>sp_name = ''Joseph Otieno'', sp_phone = ''+254700000002''\<rparr>]"

definition seedUsers :: "(string \<times> string \<times> Role) list" where
  "seedUsers = [(''operator@proofchain.local'', ''operator-dev-password'', operator),
     (''auditor@proofchain.local'', ''auditor-dev-password'', auditor), (''admin@proofchain.local'', ''admin-dev-password'', admin)]"

text \<open>What the database and the key generator hand out: ids, and pairs of a public key and a PEM.\<close>

type_synonym seed_state = "db \<times> string list \<times> (string \<times> string) list \<times> DeviceSecret list"

definition seed_hub :: "string \<Rightarrow> string \<Rightarrow> db \<Rightarrow> string list \<Rightarrow> HubEntity \<times> db \<times> string list" where
  "seed_hub code name s ids = (case get_by h_code code (hubs s) of
      Some hub \<Rightarrow> (hub, s, ids)
    | None \<Rightarrow> (let hub = \<lparr>h_id = hd ids, h_code = code, h_name = name, h_minWeightKg = gram 500, h_maxWeightKg = gram 10000000\<rparr>
        in (hub, s\<lparr>hubs := insert_row hub (hubs s)\<rparr>, tl ids)))"

definition seed_person :: "instant \<Rightarrow> seed_spec \<Rightarrow> db \<Rightarrow> string list \<Rightarrow> CollectorEntity \<times> db \<times> string list" where
  "seed_person now spec s ids = (case get_by c_phone (sp_phone spec) (collectors s) of
      Some c \<Rightarrow> (c, s, ids)
    | None \<Rightarrow> (let c = \<lparr>c_id = hd ids, c_name = sp_name spec, c_phone = sp_phone spec, c_cooperativeId = Some ''coop-nairobi-1'',
         c_kycLevel = basic, c_active = True, c_createdAt = now\<rparr>
        in (c, s\<lparr>collectors := insert_row c (collectors s)\<rparr>, tl ids)))"

definition new_device :: "instant \<Rightarrow> seed_spec \<Rightarrow> string \<Rightarrow> string \<Rightarrow> string \<Rightarrow> DeviceEntity" where
  "new_device now spec collectorId newId key = \<lparr>d_id = newId, d_collectorId = collectorId,
     d_label = hd (split_on (\<lambda>c. c = CHR '' '') (sp_name spec)) @ [CHR 0x27] @ ''s phone'',
     d_publicKeyBase64 = key, d_enrolledAt = now, d_revokedAt = None\<rparr>"

text \<open>One turn of the loop: the collector, and its device with the key that is held or a new one.\<close>

definition seed_collector :: "instant \<Rightarrow> HubEntity \<Rightarrow> (string \<Rightarrow> DeviceSecret option) \<Rightarrow> seed_spec \<Rightarrow> seed_state \<Rightarrow> seed_state" where
  "seed_collector now hub known spec st = (case st of (s, ids, keys, secrets) \<Rightarrow>
     (let (c, s1, ids1) = seed_person now spec s ids;
          held = Option.bind (get_by d_collectorId (c_id c) (devices s1)) (\<lambda>d. known (d_id d))
      in case held of
          Some heldKey \<Rightarrow> (s1, ids1, keys, secrets @ [heldKey\<lparr>sc_hubId := h_id hub\<rparr>])
        | None \<Rightarrow> (let device = new_device now spec (c_id c) (hd ids1) (fst (hd keys)) in
            (s1\<lparr>devices := insert_row device (devices s1)\<rparr>, tl ids1, tl keys,
             secrets @ [\<lparr>sc_collectorId = c_id c, sc_collectorName = c_name c, sc_deviceId = d_id device, sc_hubId = h_id hub,
               sc_publicKeyBase64 = d_publicKeyBase64 device, sc_privateKeyPem = snd (hd keys)\<rparr>]))))"

definition seed_user :: "(string \<Rightarrow> string) \<Rightarrow> instant \<Rightarrow> string \<times> string \<times> Role \<Rightarrow> db \<times> string list \<Rightarrow> db \<times> string list" where
  "seed_user hashPassword now u st = (case (u, st) of ((email, password, role), (s, ids)) \<Rightarrow>
     (case get_by u_email email (users s) of
        Some _ \<Rightarrow> (s, ids)
      | None \<Rightarrow> (s\<lparr>users := insert_row \<lparr>u_id = hd ids, u_email = email, u_passwordHash = hashPassword password, u_role = role,
          u_active = True, u_createdAt = now\<rparr> (users s)\<rparr>, tl ids)))"

record seed_env =
  sv_nodeEnv :: "string option"
  sv_hubCode :: "string option"
  sv_hubName :: "string option"
  sv_ids :: "string list"
  sv_keys :: "(string \<times> string) list"

text \<open>The whole script: the file it leaves and the database.\<close>

definition seed :: "(string \<Rightarrow> string) \<Rightarrow> instant \<Rightarrow> seed_env \<Rightarrow> secrets_file \<Rightarrow> secrets_file op" where
  "seed hashPassword now env outPath s =
    (if sv_nodeEnv env = Some ''production'' then throw (PlainError ''refusing to seed a production database'')
     else (let knownSecrets = readExistingSecrets outPath;
         (hub, s1, ids1) = seed_hub (with_default (sv_hubCode env) ''NBO-01'') (with_default (sv_hubName env) ''Nairobi Pilot Hub'') s (sv_ids env);
         (s2, ids2, _, deviceSecrets) = fold (seed_collector now hub knownSecrets) seedCollectors (s1, ids1, sv_keys env, []);
         (s3, _) = fold (seed_user hashPassword now) seedUsers (s2, ids2)
       in return (if length deviceSecrets > 0 then Held deviceSecrets else outPath, s3)))"

section \<open>Migrations of rows\<close>

text \<open>\<open>INSERT ... ON CONFLICT DO NOTHING\<close>; the column of the examples is added, empty, by the next migration.\<close>

definition materials_up :: "db \<Rightarrow> db" where
  "materials_up s = fold (\<lambda>m s. if m_code m \<in> m_code ` set (materials s) then s
     else s\<lparr>materials := insert_row (m\<lparr>m_examples := []\<rparr>) (materials s)\<rparr>) SEED_MATERIALS s"

definition examples_up :: "db \<Rightarrow> db" where
  "examples_up s = fold (\<lambda>m s. if m_examples m = [] then s
       else s\<lparr>materials := patch_by m_code (m_code m) (\<lambda>row. row\<lparr>m_examples := m_examples m\<rparr>) (materials s)\<rparr>)
     SEED_MATERIALS (s\<lparr>materials := map (\<lambda>row. row\<lparr>m_examples := []\<rparr>) (materials s)\<rparr>)"

definition raised :: "HubEntity \<Rightarrow> HubEntity" where
  "raised h = h\<lparr>h_maxWeightKg := gram 10000000\<rparr>"

definition ceiling_up :: "db \<Rightarrow> db" where
  "ceiling_up s = s\<lparr>hubs := update_where (\<lambda>h. js_lt (h_maxWeightKg h) (gram 10000000)) raised (hubs s)\<rparr>"

definition ceiling_down :: "db \<Rightarrow> db" where
  "ceiling_down s = s"

section \<open>The administrator signs in\<close>

lemma createAdmin_cases:
  assumes "createAdmin hashPassword now i env s = Inr ((), s')"
  obtains addr pw where "av_email env = Some addr" "av_password env = Some pw" "12 \<le> length pw" "pw \<notin> set PUBLISHED_PASSWORDS"
    "get_by u_email (js_lower (js_trim addr)) (users s) = None"
    "s' = s\<lparr>users := insert_row \<lparr>u_id = i, u_email = js_lower (js_trim addr), u_passwordHash = hashPassword pw, u_role = admin,
       u_active = True, u_createdAt = now\<rparr> (users s)\<rparr>"
  | addr pw u where "av_email env = Some addr" "av_password env = Some pw" "12 \<le> length pw" "pw \<notin> set PUBLISHED_PASSWORDS"
    "get_by u_email (js_lower (js_trim addr)) (users s) = Some u"
    "s' = s\<lparr>users := patch_by u_id (u_id u) (\<lambda>_. u\<lparr>u_passwordHash := hashPassword pw, u_role := admin, u_active := True\<rparr>) (users s)\<rparr>"
  using assms
  by (auto simp: createAdmin_def Let_def absent_def assertUsablePassword_def MIN_PASSWORD_LENGTH_def split: if_splits option.splits)

text \<open>Patching a row by its id leaves the others, and the patched row keeps its address.\<close>

lemma patched_row:
  assumes "distinct (map u_id rows)" and "distinct (map u_email rows)" and "u \<in> set rows" and "u_id v = u_id u" and "u_email v = u_email u"
  shows "get_by u_email (u_email u) (patch_by u_id (u_id u) (\<lambda>_. v) rows) = Some v"
    and "x \<in> set rows \<Longrightarrow> x \<noteq> u \<Longrightarrow> x \<in> set (patch_by u_id (u_id u) (\<lambda>_. v) rows)"
proof -
  have only: "r = u" if "r \<in> set rows" "u_id r = u_id u" for r
    using that assms(1,3) by (simp add: distinct_map inj_on_def)
  have "map u_email (patch_by u_id (u_id u) (\<lambda>_. v) rows) = map u_email rows"
    using only assms(5) by (auto simp: patch_by_def update_where_def)
  then have "distinct (map u_email (patch_by u_id (u_id u) (\<lambda>_. v) rows))" using assms(2) by simp
  moreover have "v \<in> set (patch_by u_id (u_id u) (\<lambda>_. v) rows)" using patch_byI[OF assms(3), of u_id "u_id u" "\<lambda>_. v"] by simp
  ultimately show "get_by u_email (u_email u) (patch_by u_id (u_id u) (\<lambda>_. v) rows) = Some v"
    using get_by_unique[of u_email] assms(5) by metis
  show "x \<in> set rows \<Longrightarrow> x \<noteq> u \<Longrightarrow> x \<in> set (patch_by u_id (u_id u) (\<lambda>_. v) rows)"
    using patch_byI[of x rows u_id "u_id u" "\<lambda>_. v"] only[of x] by (cases "u_id x = u_id u") auto
qed

section \<open>A second run of the seed\<close>

text \<open>What a run leaves for one of its collectors: the row, its device, and an entry of the file with its key.\<close>

definition provided :: "string \<Rightarrow> db \<Rightarrow> seed_spec \<Rightarrow> DeviceSecret \<Rightarrow> bool" where
  "provided hubId s spec e = (\<exists>c d. get_by c_phone (sp_phone spec) (collectors s) = Some c
     \<and> get_by d_collectorId (c_id c) (devices s) = Some d \<and> sc_deviceId e = d_id d \<and> sc_hubId e = hubId)"

definition seed_tables_grow :: "db \<Rightarrow> db \<Rightarrow> bool" where
  "seed_tables_grow s s' = ((\<forall>k c. get_by c_phone k (collectors s) = Some c \<longrightarrow> get_by c_phone k (collectors s') = Some c)
     \<and> (\<forall>k d. get_by d_collectorId k (devices s) = Some d \<longrightarrow> get_by d_collectorId k (devices s') = Some d))"

lemma provided_grows: "seed_tables_grow s s' \<Longrightarrow> provided h s spec e \<Longrightarrow> provided h s' spec e"
  unfolding seed_tables_grow_def provided_def by blast

lemma grow_trans: "seed_tables_grow s t \<Longrightarrow> seed_tables_grow t u \<Longrightarrow> seed_tables_grow s u"
  by (simp add: seed_tables_grow_def)

lemma seed_person_grows:
  assumes "seed_person now spec s ids = (c, s', ids')"
  shows "seed_tables_grow s s'" and "get_by c_phone (sp_phone spec) (collectors s') = Some c" and "devices s' = devices s"
  using assms
  by (auto simp: seed_person_def seed_tables_grow_def get_by_insert_row Let_def split: option.splits)

text \<open>No collector of the seed has a device whose key is on no file.\<close>

definition no_orphan :: "(string \<Rightarrow> DeviceSecret option) \<Rightarrow> seed_spec \<Rightarrow> db \<Rightarrow> bool" where
  "no_orphan known spec s = (\<forall>c d. get_by c_phone (sp_phone spec) (collectors s) = Some c
     \<longrightarrow> get_by d_collectorId (c_id c) (devices s) = Some d \<longrightarrow> (\<exists>e. known (d_id d) = Some e \<and> sc_deviceId e = d_id d))"

text \<open>Ids that no collector has and no device names, and keys; entries of the file that are complete.\<close>

definition key_supply :: "(string \<times> string) list \<Rightarrow> nat \<Rightarrow> bool" where
  "key_supply keys n = (n \<le> length keys \<and> '''' \<notin> snd ` set keys)"

definition whole_entry :: "DeviceSecret \<Rightarrow> bool" where
  "whole_entry e = (sc_deviceId e \<noteq> '''' \<and> sc_privateKeyPem e \<noteq> '''')"

lemma read_complete: "\<forall>j e. readExistingSecrets path j = Some e \<longrightarrow> whole_entry e"
  by (auto simp: readExistingSecrets_def whole_entry_def dest!: map_of_SomeD split: secrets_file.splits)


definition fresh_supply :: "db \<Rightarrow> string list \<Rightarrow> nat \<Rightarrow> bool" where
  "fresh_supply s ids n = (distinct ids \<and> n \<le> length ids \<and> '''' \<notin> set ids
     \<and> (\<forall>i \<in> set ids. i \<notin> c_id ` set (collectors s) \<and> i \<notin> d_collectorId ` set (devices s) \<and> i \<notin> d_id ` set (devices s)))"

lemma fresh_supply_tl:
  assumes "fresh_supply s ids (Suc n)" and "ids' = ids \<or> ids' = tl ids" and "collectors s' = collectors s" and "devices s' = devices s"
  shows "fresh_supply s' ids' n"
proof -
  have "set ids' \<subseteq> set ids" "n \<le> length ids'" "distinct ids'" "'''' \<notin> set ids'" using assms(1,2) by (cases ids; auto simp: fresh_supply_def)+
  then show ?thesis using assms(1,3,4) unfolding fresh_supply_def by (metis subsetD)
qed

lemma seed_person_supply:
  assumes "seed_person now spec s ids = (c, s', ids')" and "fresh_supply s ids (Suc (Suc n))"
  shows "fresh_supply s' ids' (Suc n)" and "c_id c \<in> c_id ` set (collectors s')" and "c_id c \<notin> set ids'"
    and "get_by c_phone (sp_phone spec) (collectors s) = None \<Longrightarrow> get_by d_collectorId (c_id c) (devices s) = None"
proof -
  obtain i rest where ids: "ids = i # rest" using assms(2) by (cases ids) (auto simp: fresh_supply_def)
  have "fresh_supply s' ids' (Suc n) \<and> c_id c \<in> c_id ` set (collectors s') \<and> c_id c \<notin> set ids'
      \<and> (get_by c_phone (sp_phone spec) (collectors s) = None \<longrightarrow> get_by d_collectorId (c_id c) (devices s) = None)"
  proof (cases "get_by c_phone (sp_phone spec) (collectors s)")
    case None
    let ?c = "\<lparr>c_id = i, c_name = sp_name spec, c_phone = sp_phone spec, c_cooperativeId = Some ''coop-nairobi-1'', c_kycLevel = basic,
      c_active = True, c_createdAt = now\<rparr>"
    have eq: "c = ?c" "s' = s\<lparr>collectors := insert_row ?c (collectors s)\<rparr>" "ids' = rest"
      using assms(1) None by (auto simp: ids seed_person_def Let_def)
    have "i \<notin> d_collectorId ` set (devices s)" using assms(2) by (simp add: ids fresh_supply_def)
    then have "get_by d_collectorId i (devices s) = None" by (simp add: get_by_None_iff)
    then show ?thesis using assms(2) by (auto simp: ids eq fresh_supply_def insert_row_def)
  next
    case (Some c')
    then have "c' \<in> set (collectors s)" by (auto dest: get_by_SomeD)
    then show ?thesis using assms Some by (auto simp: seed_person_def fresh_supply_def)
  qed
  then show "fresh_supply s' ids' (Suc n)" and "c_id c \<in> c_id ` set (collectors s')" and "c_id c \<notin> set ids'"
    and "get_by c_phone (sp_phone spec) (collectors s) = None \<Longrightarrow> get_by d_collectorId (c_id c) (devices s) = None"
    by blast+
qed

lemma seed_collector_provides:
  assumes run: "seed_collector now hub known spec (s, ids, keys, secrets) = (s', ids', keys', secrets')"
    and no: "no_orphan known spec s" and fresh: "fresh_supply s ids (Suc (Suc n))"
    and cm: "\<forall>j e. known j = Some e \<longrightarrow> whole_entry e" and ks: "key_supply keys (Suc m)"
  shows "\<exists>e. secrets' = secrets @ [e] \<and> provided (h_id hub) s' spec e \<and> whole_entry e" and "key_supply keys' m" and "seed_tables_grow s s'" and "fresh_supply s' ids' n"
    and "hubs s' = hubs s" and "users s' = users s"
proof -
  obtain c s1 ids1 where p: "seed_person now spec s ids = (c, s1, ids1)" by (cases "seed_person now spec s ids")
  note grow = seed_person_grows[OF p] and sup = seed_person_supply[OF p fresh]
  have other: "hubs s1 = hubs s" "users s1 = users s" using p by (auto simp: seed_person_def Let_def split: option.splits)
  let ?held = "Option.bind (get_by d_collectorId (c_id c) (devices s1)) (\<lambda>d. known (d_id d))"
  have "(\<exists>e. secrets' = secrets @ [e] \<and> provided (h_id hub) s' spec e \<and> whole_entry e) \<and> key_supply keys' m \<and> seed_tables_grow s s' \<and> fresh_supply s' ids' n
      \<and> hubs s' = hubs s \<and> users s' = users s"
  proof (cases ?held)
    case (Some e)
    then obtain d where d: "get_by d_collectorId (c_id c) (devices s1) = Some d" "known (d_id d) = Some e" by (auto simp: bind_eq_Some_conv)
    have out: "s' = s1" "ids' = ids1" "keys' = keys" "secrets' = secrets @ [e\<lparr>sc_hubId := h_id hub\<rparr>]"
      using run Some by (simp_all add: seed_collector_def p Let_def)
    have "get_by c_phone (sp_phone spec) (collectors s) \<noteq> None" using sup(4) d(1) grow(3) by auto
    then obtain c' where "get_by c_phone (sp_phone spec) (collectors s) = Some c'" by blast
    moreover have "c' = c" using calculation grow(1,2) by (auto simp: seed_tables_grow_def)
    ultimately have "sc_deviceId e = d_id d" using no d grow(3) by (auto simp: no_orphan_def)
    then have "provided (h_id hub) s' spec (e\<lparr>sc_hubId := h_id hub\<rparr>)" using grow(2) d(1) by (simp add: provided_def out)
    moreover have "fresh_supply s' ids' n" using sup(1) by (auto simp: out fresh_supply_def)
    moreover have "whole_entry (e\<lparr>sc_hubId := h_id hub\<rparr>)" using cm d(2) by (simp add: whole_entry_def)
    ultimately show ?thesis using grow(1) other ks by (simp add: out key_supply_def)
  next
    case None
    obtain i rest where i: "ids1 = i # rest" using sup(1) by (cases ids1) (auto simp: fresh_supply_def)
    let ?d = "new_device now spec (c_id c) i (fst (hd keys))"
    let ?e = "\<lparr>sc_collectorId = c_id c, sc_collectorName = c_name c, sc_deviceId = i, sc_hubId = h_id hub,
      sc_publicKeyBase64 = fst (hd keys), sc_privateKeyPem = snd (hd keys)\<rparr>"
    have out: "s' = s1\<lparr>devices := insert_row ?d (devices s1)\<rparr>" "ids' = rest" "keys' = tl keys" "secrets' = secrets @ [?e]"
      using run None by (simp_all add: seed_collector_def p i Let_def new_device_def)
    have nd: "d_collectorId ?d = c_id c" "d_id ?d = i" by (simp_all add: new_device_def)
    have none: "get_by d_collectorId (c_id c) (devices s1) = None"
    proof (cases "get_by c_phone (sp_phone spec) (collectors s)")
      case None
      then show ?thesis using sup(4) grow(3) by simp
    next
      case (Some c')
      then have "c' = c" using grow(1,2) by (auto simp: seed_tables_grow_def)
      then show ?thesis using no Some None grow(3) by (cases "get_by d_collectorId (c_id c) (devices s1)") (auto simp: no_orphan_def)
    qed
    have "provided (h_id hub) s' spec ?e" using grow(2) none nd by (simp add: provided_def out get_by_insert_row)
    moreover have "seed_tables_grow s s'"
      by (rule grow_trans[OF grow(1)]) (simp add: seed_tables_grow_def out get_by_insert_row)
    moreover have "fresh_supply s' ids' n" using sup(1,3) nd by (auto simp: out i fresh_supply_def insert_row_def)
    moreover have "key_supply keys' m" "snd (hd keys) \<noteq> ''''"
      using ks by (cases keys; auto simp: key_supply_def out image_iff)+
    moreover have "i \<noteq> ''''" using sup(1) by (auto simp: i fresh_supply_def)
    ultimately show ?thesis using other by (simp add: out whole_entry_def)
  qed
  then show "\<exists>e. secrets' = secrets @ [e] \<and> provided (h_id hub) s' spec e \<and> whole_entry e" and "key_supply keys' m" and "seed_tables_grow s s'" and "fresh_supply s' ids' n"
    and "hubs s' = hubs s" and "users s' = users s" by blast+
qed

text \<open>A collector that is provided for, with a key that is held, is passed over.\<close>

lemma seed_collector_again:
  assumes "provided (h_id hub) s spec e" and "known (sc_deviceId e) = Some e"
  shows "seed_collector now hub known spec (s, ids, keys, secrets) = (s, ids, keys, secrets @ [e])"
proof -
  obtain c d where c: "get_by c_phone (sp_phone spec) (collectors s) = Some c" "get_by d_collectorId (c_id c) (devices s) = Some d"
      "sc_deviceId e = d_id d" "sc_hubId e = h_id hub"
    using assms(1) unfolding provided_def by blast
  then have "seed_person now spec s ids = (c, s, ids)" by (simp add: seed_person_def)
  moreover have "e\<lparr>sc_hubId := h_id hub\<rparr> = e" using c(4) by simp
  ultimately show ?thesis using c assms(2) by (simp add: seed_collector_def)
qed

text \<open>Accounts that are there are passed over; after a run they all are.\<close>

lemma seed_users_there:
  assumes "\<forall>(email, p, r) \<in> set us. get_by u_email email (users s) \<noteq> None"
  shows "fold (seed_user hashPassword now) us (s, ids) = (s, ids)"
  using assms by (induction us) (auto simp: seed_user_def)

lemma seed_user_adds:
  assumes "fold (seed_user hashPassword now) us (s, ids) = (s', ids')"
  shows "(\<forall>(email, p, r) \<in> set us. get_by u_email email (users s') \<noteq> None)
    \<and> (\<forall>email. get_by u_email email (users s) \<noteq> None \<longrightarrow> get_by u_email email (users s') \<noteq> None)
    \<and> hubs s' = hubs s \<and> collectors s' = collectors s \<and> devices s' = devices s"
  using assms
proof (induction us arbitrary: s ids)
  case (Cons u us)
  obtain email p r where u: "u = (email, p, r)" by (cases u)
  obtain s1 ids1 where one: "seed_user hashPassword now u (s, ids) = (s1, ids1)" by fastforce
  have "get_by u_email email (users s1) \<noteq> None" "\<forall>k. get_by u_email k (users s) \<noteq> None \<longrightarrow> get_by u_email k (users s1) \<noteq> None"
      "hubs s1 = hubs s" "collectors s1 = collectors s" "devices s1 = devices s"
    using one by (auto simp: u seed_user_def Let_def get_by_insert_row split: option.splits)
  then show ?case using Cons.IH[of s1 ids1] Cons.prems one by (auto simp: u)
qed simp

text \<open>The keys of the two tables stay unique, and the other collector's device is as it was.\<close>

definition keyed :: "db \<Rightarrow> bool" where
  "keyed s = (distinct (map c_id (collectors s)) \<and> distinct (map d_id (devices s)))"

lemma seed_collector_keyed:
  assumes run: "seed_collector now hub known spec (s, ids, keys, secrets) = (s', ids', keys', secrets')"
    and fresh: "fresh_supply s ids (Suc (Suc n))" and k: "keyed s"
  shows "keyed s'"
    and "sp_phone spec' \<noteq> sp_phone spec \<Longrightarrow> no_orphan known spec' s \<Longrightarrow> no_orphan known spec' s'"
proof -
  obtain c s1 ids1 where p: "seed_person now spec s ids = (c, s1, ids1)" by (cases "seed_person now spec s ids")
  note grow = seed_person_grows[OF p] and sup = seed_person_supply[OF p fresh]
  obtain i rest where i: "ids1 = i # rest" using sup(1) by (cases ids1) (auto simp: fresh_supply_def)
  let ?d = "new_device now spec (c_id c) i (fst (hd keys))"
  have k1: "keyed s1"
  proof (cases "get_by c_phone (sp_phone spec) (collectors s)")
    case None
    then show ?thesis using p k fresh by (cases ids) (auto simp: seed_person_def keyed_def fresh_supply_def insert_row_def Let_def)
  next
    case (Some x)
    then show ?thesis using p k by (simp add: seed_person_def)
  qed
  have out: "collectors s' = collectors s1" "devices s' = devices s1 \<or> devices s' = insert_row ?d (devices s1)"
    using run p i by (auto simp: seed_collector_def Let_def split: option.splits)
  show "keyed s'" using k1 out sup(1) i by (auto simp: keyed_def insert_row_def fresh_supply_def new_device_def)
  assume other: "sp_phone spec' \<noteq> sp_phone spec" and no: "no_orphan known spec' s"
  have same: "get_by c_phone (sp_phone spec') (collectors s1) = get_by c_phone (sp_phone spec') (collectors s)"
  proof (cases "get_by c_phone (sp_phone spec) (collectors s)")
    case None
    then have "collectors s1 = insert_row c (collectors s)" "c_phone c = sp_phone spec"
      using p by (auto simp: seed_person_def Let_def)
    then show ?thesis using other by (simp add: get_by_insert_row split: option.split)
  next
    case (Some x)
    then show ?thesis using p by (simp add: seed_person_def)
  qed
  show "no_orphan known spec' s'"
    unfolding no_orphan_def
  proof (intro allI impI)
    fix c' d assume c': "get_by c_phone (sp_phone spec') (collectors s') = Some c'"
      and d: "get_by d_collectorId (c_id c') (devices s') = Some d"
    have "c' \<in> set (collectors s1)" "c_phone c' = sp_phone spec'" using get_by_SomeD[OF c'] out(1) by auto
    moreover have "c \<in> set (collectors s1)" "c_phone c = sp_phone spec" using get_by_SomeD[OF grow(2)] by auto
    ultimately have "c_id c' \<noteq> c_id c" using k1 other distinct_key_eq[of c_id "collectors s1" c' c] by (auto simp: keyed_def)
    then have "get_by d_collectorId (c_id c') (devices s) = Some d"
      using d out(2) grow(3) by (auto simp: get_by_insert_row new_device_def split: option.splits)
    then show "\<exists>e. known (d_id d) = Some e \<and> sc_deviceId e = d_id d" using no c' same out(1) by (auto simp: no_orphan_def)
  qed
qed

lemma seed_hub_there:
  assumes "seed_hub code name s ids = (hub, s', ids')"
  shows "get_by h_code code (hubs s') = Some hub" and "collectors s' = collectors s" and "devices s' = devices s"
    and "users s' = users s" and "ids' = ids \<or> ids' = tl ids"
  using assms by (auto simp: seed_hub_def Let_def get_by_insert_row split: option.splits)

lemma read_two:
  assumes "sc_deviceId e1 \<noteq> sc_deviceId e2" and "whole_entry e1" and "whole_entry e2"
  shows "readExistingSecrets (Held [e1, e2]) (sc_deviceId e1) = Some e1" "readExistingSecrets (Held [e1, e2]) (sc_deviceId e2) = Some e2"
  using assms by (simp_all add: readExistingSecrets_def whole_entry_def)

lemma provided_apart:
  assumes "provided h s spec1 e1" and "provided h s spec2 e2" and "sp_phone spec1 \<noteq> sp_phone spec2" and "keyed s"
  shows "sc_deviceId e1 \<noteq> sc_deviceId e2"
proof -
  obtain c1 d1 c2 d2 where p1: "get_by c_phone (sp_phone spec1) (collectors s) = Some c1" "get_by d_collectorId (c_id c1) (devices s) = Some d1"
      "sc_deviceId e1 = d_id d1"
    and p2: "get_by c_phone (sp_phone spec2) (collectors s) = Some c2" "get_by d_collectorId (c_id c2) (devices s) = Some d2"
      "sc_deviceId e2 = d_id d2"
    using assms(1,2) unfolding provided_def by blast
  note r = get_by_SomeD[OF p1(1)] get_by_SomeD[OF p1(2)] get_by_SomeD[OF p2(1)] get_by_SomeD[OF p2(2)]
  have "c_id c1 \<noteq> c_id c2" using r(1,3) assms(3,4) distinct_key_eq[of c_id "collectors s" c1 c2] by (auto simp: keyed_def)
  then have "d1 \<noteq> d2" using r(2,4) by auto
  then have "d_id d1 \<noteq> d_id d2" using r(2,4) assms(4) distinct_key_eq[of d_id "devices s" d1 d2] by (auto simp: keyed_def)
  then show ?thesis using p1(3) p2(3) by simp
qed

section \<open>Properties\<close>

text \<open>The seed can be run again.  When each of its collectors has no device or one whose key is in the file, a run
  leaves a file and a database on which every later run with the same hub, at any time and with any new ids and
  keys, changes nothing: no device is enrolled twice and no key is lost.\<close>

theorem seed_again_changes_nothing:
  assumes run: "seed hashPassword now env path s = Inr (path1, s1)" and k: "keyed s" and fresh: "fresh_supply s (sv_ids env) 5"
    and no: "\<forall>spec \<in> set seedCollectors. no_orphan (readExistingSecrets path) spec s"
    and keys: "key_supply (sv_keys env) 2"
    and same: "sv_nodeEnv env' = sv_nodeEnv env" "sv_hubCode env' = sv_hubCode env"
  shows "seed hashPassword now' env' path1 s1 = Inr (path1, s1)"
proof -
  let ?known = "readExistingSecrets path" and ?code = "with_default (sv_hubCode env) ''NBO-01''"
  obtain spec1 spec2 where specs: "seedCollectors = [spec1, spec2]" "sp_phone spec1 \<noteq> sp_phone spec2"
    by (simp add: seedCollectors_def)
  obtain hub sa idsa where h: "seed_hub ?code (with_default (sv_hubName env) ''Nairobi Pilot Hub'') s (sv_ids env) = (hub, sa, idsa)"
    by (cases "seed_hub ?code (with_default (sv_hubName env) ''Nairobi Pilot Hub'') s (sv_ids env)")
  note hub = seed_hub_there[OF h]
  obtain sb idsb keysb secb where b: "seed_collector now hub ?known spec1 (sa, idsa, sv_keys env, []) = (sb, idsb, keysb, secb)"
    by (cases "seed_collector now hub ?known spec1 (sa, idsa, sv_keys env, [])")
  obtain sc idsc keysc secc where c: "seed_collector now hub ?known spec2 (sb, idsb, keysb, secb) = (sc, idsc, keysc, secc)"
    by (cases "seed_collector now hub ?known spec2 (sb, idsb, keysb, secb)")
  obtain sd idsd where d: "fold (seed_user hashPassword now) seedUsers (sc, idsc) = (sd, idsd)" by fastforce
  have out: "sv_nodeEnv env \<noteq> Some ''production''" "path1 = (if length secc > 0 then Held secc else path)" "s1 = sd"
    using run h b c d by (auto simp: seed_def specs(1) Let_def split: if_splits)
  have fa: "fresh_supply sa idsa 4" by (rule fresh_supply_tl[OF _ hub(5,2,3)]) (use fresh in simp)
  have ka: "keyed sa" and na: "no_orphan ?known spec1 sa" "no_orphan ?known spec2 sa"
    using k no hub(2,3) by (simp_all add: keyed_def no_orphan_def specs(1))
  have fa': "fresh_supply sa idsa (Suc (Suc 2))" using fa by simp
  have kb: "key_supply (sv_keys env) (Suc 1)" using keys by (simp add: numeral_2_eq_2)
  note B = seed_collector_provides[OF b na(1) fa' read_complete[of path] kb] and Bk = seed_collector_keyed[OF b fa' ka]
  obtain e1 where e1: "secb = [e1]" "provided (h_id hub) sb spec1 e1" "whole_entry e1" using B(1) by auto
  have fb: "fresh_supply sb idsb (Suc (Suc 0))" using B(4) by (simp add: numeral_2_eq_2)
  have nb: "no_orphan ?known spec2 sb" by (rule Bk(2)) (use na specs(2) in auto)
  have kc: "key_supply keysb (Suc 0)" using B(2) by simp
  note C = seed_collector_provides[OF c nb fb read_complete[of path] kc] and Ck = seed_collector_keyed(1)[OF c fb Bk(1)]
  obtain e2 where e2: "secc = [e1, e2]" "provided (h_id hub) sc spec2 e2" "whole_entry e2" using C(1) e1(1) by auto
  note U = seed_user_adds[OF d]
  have keyed: "keyed sd" using Ck U by (simp add: keyed_def)
  have P: "provided (h_id hub) sd spec1 e1" "provided (h_id hub) sd spec2 e2"
    using provided_grows[OF C(3) e1(2)] e2(2) U by (simp_all add: provided_def)
  have path1: "path1 = Held [e1, e2]" using out(2) e2(1) by simp
  have K: "readExistingSecrets path1 (sc_deviceId e1) = Some e1" "readExistingSecrets path1 (sc_deviceId e2) = Some e2"
    using read_two[OF provided_apart[OF P specs(2) keyed] e1(3) e2(3)] path1 by simp_all
  have "get_by h_code ?code (hubs sd) = Some hub" using hub(1) B(5) C(5) U by simp
  then have H: "seed_hub ?code nm sd ids = (hub, sd, ids)" for nm ids by (simp add: seed_hub_def)
  have S: "fold (seed_collector now' hub (readExistingSecrets path1)) seedCollectors (sd, ids, ks, []) = (sd, ids, ks, [e1, e2])" for ids ks
    using seed_collector_again[OF P(1), of "readExistingSecrets path1"] seed_collector_again[OF P(2), of "readExistingSecrets path1"] K
    by (simp add: specs(1))
  have "fold (seed_user hashPassword now') seedUsers (sd, ids) = (sd, ids)" for ids
    by (rule seed_users_there) (use U in blast)
  then show ?thesis using out(1,3) same H S path1 by (simp add: seed_def Let_def)
qed

lemma seed_total: "sv_nodeEnv env \<noteq> Some ''production'' \<Longrightarrow> \<exists>path1 s1. seed hashPassword now env path s = Inr (path1, s1)"
  by (simp add: seed_def split_beta Let_def)

definition first_seed_env :: seed_env where
  "first_seed_env = \<lparr>sv_nodeEnv = None, sv_hubCode = None, sv_hubName = None,
     sv_ids = [''1'', ''2'', ''3'', ''4'', ''5'', ''6'', ''7'', ''8''], sv_keys = [(''k1'', ''p1''), (''k2'', ''p2'')]\<rparr>"

theorem seed_again_changes_nothing_witness:
  "\<exists>path1 s1. seed id 0 first_seed_env NoFile empty_db = Inr (path1, s1)
    \<and> seed id 9 (first_seed_env\<lparr>sv_ids := [], sv_keys := []\<rparr>) path1 s1 = Inr (path1, s1)"
proof -
  obtain path1 s1 where r: "seed id 0 first_seed_env NoFile empty_db = Inr (path1, s1)"
    using seed_total[of first_seed_env id 0 NoFile empty_db] by (auto simp: first_seed_env_def)
  have h: "keyed empty_db" "fresh_supply empty_db (sv_ids first_seed_env) 5"
      "\<forall>spec \<in> set seedCollectors. no_orphan (readExistingSecrets NoFile) spec empty_db" "key_supply (sv_keys first_seed_env) 2"
    by (simp_all add: keyed_def fresh_supply_def key_supply_def no_orphan_def empty_db_def first_seed_env_def get_by_def)
  show ?thesis
    using seed_again_changes_nothing[OF r h, of "first_seed_env\<lparr>sv_ids := [], sv_keys := []\<rparr>" 9] r by simp
qed

text \<open>A replaced key does not last.  Where a collector's first device has no key on file, a run enrols another device
  and writes its key; the next run finds the first device again, enrols a third and writes a file that has the
  third key only, although the second device is enrolled and its key was in the file.\<close>

theorem replaced_key_is_forgotten:
  assumes "get_by c_phone (sp_phone spec) (collectors s) = Some c" and "get_by d_collectorId (c_id c) (devices s) = Some d"
    and "known (d_id d) = None" and "known' (d_id d) = None"
  shows "\<exists>s1 e1 s2 e2. seed_collector now hub known spec (s, i # ids, keys, secrets) = (s1, ids, tl keys, secrets @ [e1])
    \<and> seed_collector now' hub known' spec (s1, j # ids', keys', secrets') = (s2, ids', tl keys', secrets' @ [e2])
    \<and> sc_deviceId e1 = i \<and> sc_deviceId e2 = j \<and> map d_id (devices s2) = map d_id (devices s) @ [i, j]"
  using assms by (simp add: seed_collector_def seed_person_def get_by_insert_row Let_def) (simp add: insert_row_def new_device_def)

theorem replaced_key_is_forgotten_witness:
  "\<exists>s1 e1. seed_collector 0 run_hub Map.empty \<lparr>sp_name = ''A'', sp_phone = ''+1''\<rparr> (registered_db, [''x''], [(''k'', ''p'')], [])
    = (s1, [], [], [e1]) \<and> sc_deviceId e1 = ''x''"
proof -
  have "get_by c_phone (sp_phone \<lparr>sp_name = ''A'', sp_phone = ''+1''\<rparr>) (collectors registered_db) = Some run_collector"
      "get_by d_collectorId (c_id run_collector) (devices registered_db) = Some run_device"
    by (simp_all add: registered_db_def empty_db_def run_collector_def run_device_def get_by_def)
  from replaced_key_is_forgotten[OF this, of Map.empty Map.empty 0 run_hub "''x''" "[]" "[(''k'', ''p'')]" "[]" 0 "''y''" "[]" "[]" "[]"]
  show ?thesis by auto
qed


definition reset_env :: admin_env where
  "reset_env = \<lparr>av_email = Some '' A@b.c'', av_password = Some ''a long password'', av_reset = Some ''TRUE''\<rparr>"

definition plain_verify :: "string \<Rightarrow> string \<Rightarrow> bool option" where
  "plain_verify h p = Some (h = p)"


text \<open>Raising the ceiling refuses no one.  After the migration every hub has its id and its minimum and a ceiling of at
  least ten tonnes, a higher one is kept, and a weight that was in range at a hub still is.\<close>

lemma js_gt_trans: "\<not> js_gt w a \<Longrightarrow> js_lt a b \<Longrightarrow> is_finite w \<Longrightarrow> \<not> js_gt w b"
  by (cases w; cases a; cases b) (auto simp: js_gt_def)

theorem ceiling_refuses_no_one:
  assumes "f_outcome (checkWeightRange p (integrity_context env now p hash s)) = pass"
  shows "f_outcome (checkWeightRange p (integrity_context env now p hash (ceiling_up s))) = pass
    \<and> map h_id (hubs (ceiling_up s)) = map h_id (hubs s) \<and> map h_minWeightKg (hubs (ceiling_up s)) = map h_minWeightKg (hubs s)
    \<and> (\<forall>h \<in> set (hubs (ceiling_up s)). \<not> js_lt (h_maxWeightKg h) (gram 10000000))
    \<and> (\<forall>h \<in> set (hubs s). \<not> js_lt (h_maxWeightKg h) (gram 10000000) \<longrightarrow> h \<in> set (hubs (ceiling_up s)))"
proof -
  let ?up = "\<lambda>h. if js_lt (h_maxWeightKg h) (gram 10000000) then raised h else h"
  have hs: "hubs (ceiling_up s) = map ?up (hubs s)" by (simp add: ceiling_up_def update_where_def)
  have keep: "h_id (?up h) = h_id h" "h_minWeightKg (?up h) = h_minWeightKg h" for h by (simp_all add: raised_def)
  have found: "get_by h_id i (map ?up rows) = map_option ?up (get_by h_id i rows)" for i rows
    using keep by (induction rows) (auto simp: get_by_def)
  have top: "\<not> js_lt (h_maxWeightKg (?up h)) (gram 10000000)" for h
  proof -
    have "\<not> js_lt (gram 10000000) (gram 10000000)" by (subst gram_less_iff; simp)
    then show ?thesis by (simp add: raised_def)
  qed
  have "weight_ok p (integrity_context env now p hash s)" using assms by (simp add: checkWeightRange_outcome split: if_splits)
  then obtain h where h: "get_by h_id (p_hubId p) (hubs s) = Some h" "\<not> js_lt (p_weightKg p) (h_minWeightKg h)"
      "\<not> js_gt (p_weightKg p) (h_maxWeightKg h)" "is_finite (p_weightKg p)" "js_gt (p_weightKg p) (Fin 0)"
    by (auto simp: weight_ok_def integrity_context_def)
  have "\<not> js_gt (p_weightKg p) (h_maxWeightKg (?up h))" using h(3,4) js_gt_trans by (simp add: raised_def)
  then have "weight_ok p (integrity_context env now p hash (ceiling_up s))"
    using h keep by (simp add: weight_ok_def integrity_context_def hs found)
  then have "f_outcome (checkWeightRange p (integrity_context env now p hash (ceiling_up s))) = pass"
    by (simp add: checkWeightRange_outcome)
  moreover have "map h_id (hubs (ceiling_up s)) = map h_id (hubs s)" "map h_minWeightKg (hubs (ceiling_up s)) = map h_minWeightKg (hubs s)"
    by (simp_all add: hs raised_def)
  moreover have "\<forall>h \<in> set (hubs (ceiling_up s)). \<not> js_lt (h_maxWeightKg h) (gram 10000000)"
    unfolding hs using top by (metis (no_types, lifting) imageE list.set_map)
  moreover have "h \<in> set (hubs (ceiling_up s))" if "h \<in> set (hubs s)" "\<not> js_lt (h_maxWeightKg h) (gram 10000000)" for h
    unfolding hs using imageI[OF that(1), of ?up] that(2) by simp
  ultimately show ?thesis by blast
qed

theorem ceiling_refuses_no_one_witness:
  "f_outcome (checkWeightRange (sample_payload ''n'' 12345) (integrity_context (dp_env run_deployment) 0 (sample_payload ''n'' 12345) ''x''
    (ceiling_up registered_db))) = pass"
proof -
  have "js_gt (gram 12345) (Fin 0)" using gram_positive[of 12345] js_le_zero[of "gram 12345"] by simp
  moreover have "\<not> js_lt (gram 12345) (gram 100)" "\<not> js_lt (gram 10000000) (gram 12345)" by (subst gram_less_iff; simp)+
  ultimately have "f_outcome (checkWeightRange (sample_payload ''n'' 12345) (integrity_context (dp_env run_deployment) 0
      (sample_payload ''n'' 12345) ''x'' registered_db)) = pass"
    using gram_positive(1)[of 12345]
    by (simp add: checkWeightRange_outcome weight_ok_def integrity_context_def sample_payload_def registered_db_def empty_db_def
        run_hub_def get_by_def js_gt_def)
  then show ?thesis using ceiling_refuses_no_one by blast
qed

text \<open>The catalogue a migrated database starts with is the one the devices were compiled with.\<close>

theorem migrated_catalogue:
  assumes "materials s = []"
  shows "materials (examples_up (materials_up s)) = SEED_MATERIALS \<and> (\<forall>code \<in> set MATERIAL_TYPES. assertKnown code (examples_up (materials_up s)) = Inr ())"
proof -
  have "materials (materials_up s) = map (\<lambda>m. m\<lparr>m_examples := []\<rparr>) SEED_MATERIALS"
    using assms by (simp add: materials_up_def SEED_MATERIALS_def insert_row_def)
  then have e: "materials (examples_up (materials_up s)) = SEED_MATERIALS"
    by (simp add: examples_up_def SEED_MATERIALS_def patch_by_def update_where_def)
  then show ?thesis by (auto simp: assertKnown_def exists_where_iff MATERIAL_TYPES_def)
qed

end
