(* ===== verification/Enrol.thy ===== *)
theory Enrol
  imports EndToEnd MobileApp Api
begin

text \<open>
  Enrolment: an operator signs in on a device, picks the collector and the hub, and the
  device's key is registered (\<open>apps/mobile/src/screens/EnrolScreen.tsx\<close> and \<open>lib/api.ts\<close>; for the
  browser app the pairing screen of \<open>main.ts\<close> and its \<open>lib/api.ts\<close>), against the HTTP interface of \<open>Api\<close>.
  A handler runs to its end in one step: its button is disabled meanwhile.  Between two handlers
  the server may do anything.
\<close>

section \<open>Calls of a device\<close>

text \<open>The database with its clock and disk, and the counters of the limiter.\<close>

type_synonym server = "world \<times> buckets"

text \<open>What the network makes of one exchange, and what the server draws for it.\<close>

record exchange =
  xc_fate :: fate
  xc_roll :: rat
  xc_ids :: ids

text \<open>The server at an address, the address of the device, and the texts of what fails.\<close>

record client =
  cn_url :: string
  cn_api :: api_env
  cn_ip :: "string option"
  cn_networkError :: string
  cn_errorText :: "exception \<Rightarrow> string"

type_synonym 'a called = "(string + 'a) \<times> server"

text \<open>\<open>fetch\<close>: it rejects (\<open>None\<close>) when the exchange is lost; else a status with the text of the body, or an answer.\<close>

definition fetch :: "client \<Rightarrow> exchange \<Rightarrow> string \<Rightarrow> http_request \<Rightarrow> server \<Rightarrow> ((nat \<times> string) + answer) option \<times> server" where
  "fetch C x url q st = (case respond (cn_api C) q (xc_roll x) (xc_ids x) st of (r, st') \<Rightarrow>
     if url \<noteq> cn_url C then (None, st)
     else (case xc_fate x of
         RequestLost \<Rightarrow> (None, st)
       | Refused status \<Rightarrow> (Some (Inl (status, '''')), st)
       | AnswerLost \<Rightarrow> (None, st')
       | Delivered \<Rightarrow> (Some (case r of Inl e \<Rightarrow> Inl (http_status e, cn_errorText C e) | Inr a \<Rightarrow> Inr a), st')))"

definition device_request :: "client \<Rightarrow> verb \<Rightarrow> string list \<Rightarrow> json \<Rightarrow> string option \<Rightarrow> http_request" where
  "device_request C v path body authorization = \<lparr>hq_verb = v, hq_path = path, hq_query = JObj [], hq_body = body, hq_bytes = [],
     hq_authorization = authorization, hq_workerToken = None, hq_ifNoneMatch = None, hq_ip = cn_ip C\<rparr>"

definition bearer :: "string \<Rightarrow> string" where
  "bearer token = ''Bearer '' @ token"

definition has_text :: "string option \<Rightarrow> bool" where
  "has_text v = (v \<noteq> None \<and> v \<noteq> Some '''')"

definition postJson :: "client \<Rightarrow> exchange \<Rightarrow> string \<Rightarrow> string list \<Rightarrow> json \<Rightarrow> string option \<Rightarrow> server
    \<Rightarrow> ((nat \<times> string) + answer) option \<times> server" where
  "postJson C x url path body token st =
     fetch C x url (device_request C POST path body (if has_text token then map_option bearer token else None)) st"

text \<open>What a caller makes of an exchange: the message it throws, or what it reads of the answer.\<close>

definition outcome_of :: "client \<Rightarrow> (nat \<Rightarrow> string \<Rightarrow> string) \<Rightarrow> (answer \<Rightarrow> 'a) \<Rightarrow> ((nat \<times> string) + answer) option \<times> server
    \<Rightarrow> 'a called" where
  "outcome_of C refused read rs = (case rs of
      (None, st) \<Rightarrow> (Inl (cn_networkError C), st)
    | (Some (Inl (status, body)), st) \<Rightarrow> (Inl (refused status body), st)
    | (Some (Inr a), st) \<Rightarrow> (Inr (read a), st))"

fun accessToken :: "answer \<Rightarrow> string" where
  "accessToken (Token t _) = t"
| "accessToken _ = ''''"

fun people_of :: "answer \<Rightarrow> (string \<times> string) list" where
  "people_of (Collectors cs) = map (\<lambda>c. (c_id c, c_name c)) cs"
| "people_of _ = []"

fun sites_of :: "answer \<Rightarrow> HubDirectoryEntry list" where
  "sites_of (Hubs hs) = map (\<lambda>h. \<lparr>hd_id = h_id h, hd_code = h_code h, hd_name = h_name h,
     hd_minWeightKg = h_minWeightKg h, hd_maxWeightKg = h_maxWeightKg h\<rparr>) hs"
| "sites_of _ = []"

fun deviceId_of :: "answer \<Rightarrow> string" where
  "deviceId_of (ADevice d) = d_id d"
| "deviceId_of _ = ''''"

definition operatorLogin :: "client \<Rightarrow> exchange \<Rightarrow> string \<Rightarrow> string \<Rightarrow> string \<Rightarrow> server \<Rightarrow> string called" where
  "operatorLogin C x url email password st = outcome_of C (\<lambda>_ _. ''operator sign-in failed'') accessToken
     (postJson C x url [''auth'', ''login''] (JObj [(''email'', JStr email), (''password'', JStr password)]) None st)"

definition authedGet :: "(answer \<Rightarrow> 'a) \<Rightarrow> client \<Rightarrow> exchange \<Rightarrow> string \<Rightarrow> string \<Rightarrow> string \<Rightarrow> server \<Rightarrow> 'a called" where
  "authedGet read C x url path token st =
     outcome_of C (\<lambda>status _. ''GET /'' @ path @ '' failed ('' @ int_to_string (int status) @ '')'') read
       (fetch C x url (device_request C GET [path] JUndefined (Some (bearer token))) st)"

definition fetchCollectors :: "client \<Rightarrow> exchange \<Rightarrow> string \<Rightarrow> string \<Rightarrow> server \<Rightarrow> (string \<times> string) list called" where
  "fetchCollectors C x url token st = authedGet people_of C x url ''collectors'' token st"

definition fetchHubs :: "client \<Rightarrow> exchange \<Rightarrow> string \<Rightarrow> string \<Rightarrow> server \<Rightarrow> HubDirectoryEntry list called" where
  "fetchHubs C x url token st = authedGet sites_of C x url ''hubs'' token st"

definition device_input :: "string \<Rightarrow> string \<Rightarrow> string \<Rightarrow> json" where
  "device_input collectorId label key = JObj [(''collectorId'', JStr collectorId), (''label'', JStr label), (''publicKeyBase64'', JStr key)]"

definition enrolment_refused :: "nat \<Rightarrow> string \<Rightarrow> string" where
  "enrolment_refused _ body = ''enrolment failed: '' @ body"

definition mobile_enrolDevice :: "client \<Rightarrow> exchange \<Rightarrow> string \<Rightarrow> string \<Rightarrow> json \<Rightarrow> server \<Rightarrow> string called" where
  "mobile_enrolDevice C x url token input st =
     outcome_of C enrolment_refused deviceId_of (postJson C x url [''devices''] input (Some token) st)"

definition capture_enrolDevice :: "client \<Rightarrow> exchange \<Rightarrow> string \<Rightarrow> string \<Rightarrow> json \<Rightarrow> server \<Rightarrow> string called" where
  "capture_enrolDevice C x url token input st =
     outcome_of C enrolment_refused deviceId_of (fetch C x url (device_request C POST [''devices''] input (Some (bearer token))) st)"

text \<open>The browser app has the same calls, over \<open>fetch\<close> alone and the address it keeps.\<close>

definition capture_operatorLogin :: "client \<Rightarrow> exchange \<Rightarrow> string \<Rightarrow> string \<Rightarrow> string \<Rightarrow> server \<Rightarrow> string called" where
  "capture_operatorLogin C x url email password st = outcome_of C (\<lambda>_ _. ''operator sign-in failed'') accessToken
     (fetch C x url (device_request C POST [''auth'', ''login'']
       (JObj [(''email'', JStr email), (''password'', JStr password)]) None) st)"

definition capture_authedGet :: "(answer \<Rightarrow> 'a) \<Rightarrow> client \<Rightarrow> exchange \<Rightarrow> string \<Rightarrow> string \<Rightarrow> string \<Rightarrow> server \<Rightarrow> 'a called" where
  "capture_authedGet read C x url path token st =
     outcome_of C (\<lambda>status _. ''GET /'' @ path @ '' failed ('' @ int_to_string (int status) @ '')'') read
       (fetch C x url (device_request C GET [path] JUndefined (Some (bearer token))) st)"

definition capture_fetchCollectors :: "client \<Rightarrow> exchange \<Rightarrow> string \<Rightarrow> string \<Rightarrow> server \<Rightarrow> (string \<times> string) list called" where
  "capture_fetchCollectors C x url token st = capture_authedGet people_of C x url ''collectors'' token st"

definition capture_fetchHubs :: "client \<Rightarrow> exchange \<Rightarrow> string \<Rightarrow> string \<Rightarrow> server \<Rightarrow> HubDirectoryEntry list called" where
  "capture_fetchHubs C x url token st = capture_authedGet sites_of C x url ''hubs'' token st"

lemma capture_calls [simp]:
  "capture_operatorLogin = operatorLogin" "capture_fetchCollectors = fetchCollectors" "capture_fetchHubs = fetchHubs"
  by (intro ext; simp add: capture_operatorLogin_def operatorLogin_def postJson_def has_text_def capture_fetchCollectors_def
      fetchCollectors_def capture_fetchHubs_def fetchHubs_def capture_authedGet_def authedGet_def)+

section \<open>The address of the backend\<close>

text \<open>\<open>url.replace(/\/+$/, "")\<close>.\<close>

definition strip_slashes :: "string \<Rightarrow> string" where
  "strip_slashes url = rev (dropWhile (\<lambda>c. c = CHR ''/'') (rev url))"

definition BACKEND_KEY :: string where "BACKEND_KEY = ''proofchain.backendUrl''"

definition DEFAULT_BACKEND :: string where "DEFAULT_BACKEND = ''http://10.0.2.2:3000''"

definition mobile_getBackendUrl :: "KeyValueStore \<Rightarrow> string" where
  "mobile_getBackendUrl store = (case getItem BACKEND_KEY store of Some (Plain url) \<Rightarrow> url | _ \<Rightarrow> DEFAULT_BACKEND)"

definition mobile_setBackendUrl :: "string \<Rightarrow> KeyValueStore \<Rightarrow> KeyValueStore" where
  "mobile_setBackendUrl url store = setItem BACKEND_KEY (Plain (strip_slashes (js_trim url))) store"

text \<open>The browser's entry of its local storage, if there is one.\<close>

definition capture_backendUrl :: "string option \<Rightarrow> string" where
  "capture_backendUrl stored_url = with_default stored_url ''http://localhost:3000''"

definition capture_setBackendUrl :: "string \<Rightarrow> string option" where
  "capture_setBackendUrl url = Some (strip_slashes url)"

section \<open>The enrolment screen of the mobile app\<close>

record enrol_screen =
  es_backend :: string
  es_email :: string
  es_password :: string
  es_label :: string
  es_collectors :: "(string \<times> string) list"
  es_hubs :: "HubDirectoryEntry list"
  es_token :: "string option"
  es_collectorId :: "string option"
  es_hubId :: "string option"
  es_alert :: "(string \<times> string) option"

text \<open>The phone: the screen, both stores and the device once it is enrolled.\<close>

record phone =
  ph_screen :: enrol_screen
  ph_store :: KeyValueStore
  ph_secure :: text_store
  ph_device :: "DeviceMeta option"

definition alerted :: "string \<Rightarrow> string \<Rightarrow> phone \<Rightarrow> phone" where
  "alerted title message p = p\<lparr>ph_screen := (ph_screen p)\<lparr>es_alert := Some (title, message)\<rparr>\<rparr>"

definition first_id :: "(string \<times> 'a) list \<Rightarrow> string option" where
  "first_id items = (case items of [] \<Rightarrow> None | x # _ \<Rightarrow> Some (fst x))"

text \<open>The lists are asked for together: both requests are made, and the first that fails is the one that is told.\<close>

definition signIn :: "client \<Rightarrow> exchange \<Rightarrow> exchange \<Rightarrow> exchange \<Rightarrow> phone \<times> server \<Rightarrow> phone \<times> server" where
  "signIn C x1 x2 x3 pst = (case pst of (p0, st0) \<Rightarrow> (let s = ph_screen p0;
       p = (if js_trim (es_backend s) \<noteq> '''' then p0\<lparr>ph_store := mobile_setBackendUrl (es_backend s) (ph_store p0)\<rparr> else p0);
       url = mobile_getBackendUrl (ph_store p)
     in case operatorLogin C x1 url (js_trim (es_email s)) (es_password s) st0 of
         (Inl m, st1) \<Rightarrow> (alerted ''Sign-in failed'' m p, st1)
       | (Inr t, st1) \<Rightarrow> (case fetchCollectors C x2 url t st1 of (people, st2) \<Rightarrow> (case fetchHubs C x3 url t st2 of (sites, st3) \<Rightarrow>
           (case (people, sites) of
              (Inl m, _) \<Rightarrow> (alerted ''Sign-in failed'' m p, st3)
            | (_, Inl m) \<Rightarrow> (alerted ''Sign-in failed'' m p, st3)
            | (Inr ps, Inr hs) \<Rightarrow> (p\<lparr>ph_screen := s\<lparr>es_token := Some t, es_collectors := ps, es_hubs := hs,
                es_collectorId := first_id ps, es_hubId := first_id (map (\<lambda>h. (hd_id h, h)) hs)\<rparr>\<rparr>, st3))))))"

definition mobile_meta :: "string \<Rightarrow> string \<Rightarrow> enrol_screen \<Rightarrow> HubDirectoryEntry \<Rightarrow> DeviceMeta" where
  "mobile_meta deviceId collectorId s hub = \<lparr>dm_deviceId = deviceId, dm_collectorId = collectorId,
     dm_collectorName = (case find_one (\<lambda>c. fst c = collectorId) (es_collectors s) of None \<Rightarrow> ''collector'' | Some c \<Rightarrow> snd c),
     dm_hubId = hd_id hub, dm_hubName = hd_name hub, dm_minWeightKg = Some (hd_minWeightKg hub),
     dm_maxWeightKg = Some (hd_maxWeightKg hub)\<rparr>"

definition label_or :: "string \<Rightarrow> string \<Rightarrow> string" where
  "label_or fallback label = (if js_trim label = '''' then fallback else js_trim label)"

definition enrol :: "client \<Rightarrow> DeviceIdentity \<Rightarrow> exchange \<Rightarrow> phone \<times> server \<Rightarrow> phone \<times> server" where
  "enrol C identity x pst = (case pst of (p, st0) \<Rightarrow> (let s = ph_screen p in
     if \<not> has_text (es_token s) \<or> \<not> has_text (es_collectorId s) \<or> \<not> has_text (es_hubId s) then (p, st0)
     else (case mobile_enrolDevice C x (mobile_getBackendUrl (ph_store p)) (the (es_token s))
              (device_input (the (es_collectorId s)) (label_or ''field phone'' (es_label s)) (di_publicKeyBase64 identity)) st0 of
         (Inl m, st1) \<Rightarrow> (alerted ''Enrolment failed'' m p, st1)
       | (Inr deviceId, st1) \<Rightarrow> (case find_one (\<lambda>h. hd_id h = the (es_hubId s)) (es_hubs s) of
           None \<Rightarrow> (alerted ''Enrolment failed'' ''hub not found'' p, st1)
         | Some hub \<Rightarrow> (let meta = mobile_meta deviceId (the (es_collectorId s)) s hub in
             (p\<lparr>ph_secure := saveDeviceMeta meta (ph_secure p), ph_device := Some meta\<rparr>, st1))))))"

section \<open>The pairing screen of the browser app\<close>

text \<open>What is typed and chosen, and the two variables of the closure that wires the screen.\<close>

record pairing =
  pr_backend :: string
  pr_email :: string
  pr_password :: string
  pr_label :: string
  pr_assign :: bool
  pr_people :: "(string \<times> string) list"
  pr_collector :: string
  pr_hub :: string
  pr_token :: string
  pr_loadedHubs :: "HubDirectoryEntry list"

record browser =
  bw_screen :: pairing
  bw_url :: "string option"
  bw_provisioning :: "Provisioning option"
  bw_notice :: "(tone \<times> string) option"

text \<open>The screen as it is drawn and wired anew.\<close>

definition fresh_pairing :: "string option \<Rightarrow> pairing" where
  "fresh_pairing url = \<lparr>pr_backend = capture_backendUrl url, pr_email = '''', pr_password = '''', pr_label = ''Field phone'',
     pr_assign = False, pr_people = [], pr_collector = '''', pr_hub = '''', pr_token = '''', pr_loadedHubs = []\<rparr>"

text \<open>Drawing replaces the whole screen; only the weight, which the pairing screen has none of, is carried over.\<close>

definition render :: "browser \<Rightarrow> browser" where
  "render b = (if bw_provisioning b = None then b\<lparr>bw_screen := fresh_pairing (bw_url b)\<rparr> else b)"

definition told :: "tone \<Rightarrow> string \<Rightarrow> browser \<Rightarrow> browser" where
  "told t m b = b\<lparr>bw_notice := Some (t, m)\<rparr>"

definition load_lists :: "client \<Rightarrow> exchange \<Rightarrow> exchange \<Rightarrow> exchange \<Rightarrow> browser \<times> server \<Rightarrow> browser \<times> server" where
  "load_lists C x1 x2 x3 bst = (case bst of (b0, st0) \<Rightarrow> (let s = bw_screen b0;
       b = b0\<lparr>bw_notice := None, bw_url := capture_setBackendUrl (js_trim (pr_backend s))\<rparr>; url = capture_backendUrl (bw_url b)
     in case capture_operatorLogin C x1 url (js_trim (pr_email s)) (pr_password s) st0 of
         (Inl m, st1) \<Rightarrow> (render (told bad m b), st1)
       | (Inr t, st1) \<Rightarrow> (case capture_fetchCollectors C x2 url t st1 of (people, st2) \<Rightarrow> (case capture_fetchHubs C x3 url t st2 of (sites, st3) \<Rightarrow>
           (case (people, sites) of
              (Inl m, _) \<Rightarrow> (render (told bad m b), st3)
            | (_, Inl m) \<Rightarrow> (render (told bad m b), st3)
            | (Inr ps, Inr hs) \<Rightarrow> (told good ''Signed in. Choose the collector and hub for this phone.''
                (b\<lparr>bw_screen := s\<lparr>pr_token := t, pr_loadedHubs := hs, pr_people := ps, pr_assign := True,
                  pr_collector := with_default (first_id ps) '''',
                  pr_hub := with_default (first_id (map (\<lambda>h. (hd_id h, h)) hs)) ''''\<rparr>\<rparr>), st3))))))"

definition hub_option :: "HubDirectoryEntry \<Rightarrow> HubOption" where
  "hub_option h = \<lparr>ho_id = hd_id h, ho_code = hd_code h, ho_name = hd_name h, ho_minWeightKg = Some (hd_minWeightKg h),
     ho_maxWeightKg = Some (hd_maxWeightKg h)\<rparr>"

definition new_provisioning :: "string \<Rightarrow> pairing \<Rightarrow> Provisioning" where
  "new_provisioning deviceId s = \<lparr>pv_collectorId = pr_collector s, pv_hubId = pr_hub s, pv_deviceId = deviceId,
     pv_collectorName = (case find_one (\<lambda>c. fst c = pr_collector s) (pr_people s) of None \<Rightarrow> ''Collector'' | Some c \<Rightarrow> snd c),
     pv_hubName = (case find_one (\<lambda>h. hd_id h = pr_hub s) (pr_loadedHubs s) of None \<Rightarrow> ''Hub''
        | Some h \<Rightarrow> hd_code h @ '' -- '' @ hd_name h),
     pv_hubs = Some (map hub_option (pr_loadedHubs s))\<rparr>"

definition enrol_clicked :: "client \<Rightarrow> DeviceIdentity \<Rightarrow> exchange \<Rightarrow> browser \<times> server \<Rightarrow> browser \<times> server" where
  "enrol_clicked C identity x bst = (case bst of (b, st0) \<Rightarrow> (let s = bw_screen b in
     case capture_enrolDevice C x (capture_backendUrl (bw_url b)) (pr_token s)
            (device_input (pr_collector s) (label_or ''Field phone'' (pr_label s)) (di_publicKeyBase64 identity)) st0 of
         (Inl m, st1) \<Rightarrow> (render (told bad m b), st1)
       | (Inr deviceId, st1) \<Rightarrow> (case find_one (\<lambda>h. hd_id h = pr_hub s) (pr_loadedHubs s) of
           None \<Rightarrow> (render (told bad ''selected hub not found'' b), st1)
         | Some _ \<Rightarrow> (render (told good ''Device enrolled. Ready to capture.''
             (b\<lparr>bw_provisioning := Some (new_provisioning deviceId s)\<rparr>)), st1))))"

text \<open>The timer, the connection coming back and the button run the queue; with nothing sent there is no notice.\<close>

definition run_queue :: "(string \<Rightarrow> string \<Rightarrow> int) \<Rightarrow> backend \<Rightarrow> bool \<Rightarrow> bool \<Rightarrow> table \<Rightarrow> link \<Rightarrow> browser \<Rightarrow> table \<times> link \<times> browser" where
  "run_queue lc B online running t l b = (if \<not> online \<or> running then (t, l, b)
     else (case capture_syncPending lc B online (t, l) of (t', l', oc) \<Rightarrow>
       (t', l', render (if so_attempted oc > 0
          then told (if so_rejected oc > 0 then caution else good)
            (join_with '', '' ([int_to_string (int (so_synced oc)) @ '' synced'']
              @ (if so_rejected oc > 0 then [int_to_string (int (so_rejected oc)) @ '' rejected''] else [])
              @ (if so_failed oc > 0 then [int_to_string (int (so_failed oc)) @ '' still queued''] else []))) b
          else b))))"

section \<open>What the server goes on holding\<close>

text \<open>Hubs and collectors stay as they are, and a key stays enrolled.\<close>

definition registry_kept :: "db \<Rightarrow> db \<Rightarrow> bool" where
  "registry_kept s s' = (set (hubs s) \<subseteq> set (hubs s') \<and> set (collectors s) \<subseteq> set (collectors s')
     \<and> d_publicKeyBase64 ` set (devices s) \<subseteq> d_publicKeyBase64 ` set (devices s'))"

lemma registry_kept_refl: "hubs s' = hubs s \<Longrightarrow> collectors s' = collectors s \<Longrightarrow> devices s' = devices s \<Longrightarrow> registry_kept s s'"
  by (simp add: registry_kept_def)

lemma registry_kept_trans: "registry_kept s t \<Longrightarrow> registry_kept t u \<Longrightarrow> registry_kept s u"
  unfolding registry_kept_def by (elim conjE, intro conjI) (erule (1) order.trans)+

lemma grows_keys:
  assumes "grows now s s'"
  shows "registry_kept s s'"
proof -
  have "d_publicKeyBase64 d \<in> d_publicKeyBase64 ` set (devices s')" if d: "d \<in> set (devices s)" for d
  proof -
    have "\<forall>d \<in> set (devices s). \<exists>d' \<in> set (devices s'). device_succeeds now d d'" using assms by (simp add: grows_def)
    then obtain d' where "d' \<in> set (devices s')" "device_succeeds now d d'" using d by blast
    then have "d' \<in> set (devices s')" "d_publicKeyBase64 d = d_publicKeyBase64 d'" by (simp_all add: device_succeeds_def)
    then show ?thesis by (rule rev_image_eqI)
  qed
  then have "d_publicKeyBase64 ` set (devices s) \<subseteq> d_publicKeyBase64 ` set (devices s')" by (rule image_subsetI)
  then show ?thesis using assms by (simp add: registry_kept_def grows_def)
qed

lemma step_registry:
  assumes "step D w w'" and "world_ok D w"
  shows "registry_kept (w_db w) (w_db w')"
  using assms(1)
proof cases
  case (serves s')
  have "registry_ok (w_db w)" using assms(2) by (simp add: world_ok_def tables_ok_def)
  then show ?thesis using grows_keys[OF service_step_grows[OF serves(2)]] serves(1) by simp
next
  case (saves xs e ys r s')
  from saves(3) have "hubs s' = hubs (w_db w) \<and> collectors s' = collectors (w_db w) \<and> devices s' = devices (w_db w)"
    by (cases rule: save_effect) auto
  then show ?thesis using saves(1) by (simp add: registry_kept_refl)
next
  case (attaches j bs pa s' d')
  obtain u where "s' = (w_db w)\<lparr>events := map (with_photo j u) (events (w_db w))\<rparr>" by (rule attach_effect[OF attaches(2)])
  then show ?thesis using attaches(1) by (simp add: registry_kept_refl)
qed (simp_all add: registry_kept_refl)

lemma runs_registry:
  assumes "runs D w w'" and "world_ok D w"
  shows "registry_kept (w_db w) (w_db w')"
  using assms(1)
proof (induction rule: rtranclp_induct)
  case (step u v)
  then show ?case using registry_kept_trans step_registry runs_keep[OF step.hyps(1) assms(2)] by blast
qed (simp add: registry_kept_refl)

section \<open>What a call leaves on the server\<close>

lemma fetch_answered:
  assumes "fetch C x url q st = (Some (Inr a), st')"
  shows "respond (cn_api C) q (xc_roll x) (xc_ids x) st = (Inr a, st')"
  using assms by (auto simp: fetch_def split: prod.splits if_splits fate.splits sum.splits)

lemma fetch_effect:
  assumes "fetch C x url q st = (r, st')"
  shows "st' = st \<or> st' = snd (respond (cn_api C) q (xc_roll x) (xc_ids x) st)"
  using assms by (auto simp: fetch_def split: prod.splits if_splits fate.splits)

lemma outcome_ok:
  assumes "outcome_of C f g rs = (Inr v, st)"
  obtains a where "rs = (Some (Inr a), st)" "v = g a"
  using assms by (cases rs) (auto simp: outcome_of_def split: option.splits sum.splits)

lemma outcome_state [simp]: "snd (outcome_of C f g rs) = snd rs"
  by (cases rs) (auto simp: outcome_of_def split: option.splits sum.splits)

lemma device_routes:
  "find_route POST [''devices''] = Some (staff POST [Lit ''devices''] Registry_enrolDevice)"
  "find_route GET [''collectors''] = Some (members GET [Lit ''collectors''] Registry_listCollectors)"
  "find_route GET [''hubs''] = Some (members GET [Lit ''hubs''] Registry_listHubs)"
  "find_route POST [''auth'', ''login''] = Some (limited 10 60 (anyone POST [Lit ''auth'', Lit ''login''] Auth_login))"
  by (simp_all add: find_route_def find_one_def ROUTES_def root_routes_def auth_routes_def health_routes_def users_routes_def
      registry_routes_def events_routes_def photos_routes_def batches_routes_def custody_routes_def reports_routes_def
      materials_routes_def route_defs)

lemma device_request_simps [simp]:
  "hq_verb (device_request C v path body auth) = v" "hq_path (device_request C v path body auth) = path"
  "hq_body (device_request C v path body auth) = body" "hq_authorization (device_request C v path body auth) = auth"
  by (simp_all add: device_request_def)

text \<open>Reading leaves the tables alone.\<close>

lemma lists_read:
  assumes "respond A (device_request C GET [''collectors''] body auth) roll ns (w, bs) = (r, w', bs')"
  shows "w' = w" and "r = Inr a \<Longrightarrow> a = Collectors (listCollectors (w_db w))"
  using assms by (auto simp: respond_def device_routes members_def split: prod.splits sum.splits)

lemma hubs_read:
  assumes "respond A (device_request C GET [''hubs''] body auth) roll ns (w, bs) = (r, w', bs')"
  shows "w' = w" and "r = Inr a \<Longrightarrow> a = Hubs (listHubs (ae_collate A) (w_db w))"
  using assms by (auto simp: respond_def device_routes members_def split: prod.splits sum.splits)

lemma login_reads:
  assumes "respond A (device_request C POST [''auth'', ''login''] body auth) roll ns (w, bs) = (r, w', bs')"
  shows "w' = w"
  using assms
  by (auto simp: respond_def device_routes route_defs auth_login_def and_then_Inr split: prod.splits sum.splits)

lemma device_body_read:
  assumes "body_as A (call_of rt (device_request C v p (device_input c l k) auth) user) EnrolDeviceDto_fields = Inr get"
  shows "device_body get = \<lparr>ed_collectorId = c, ed_label = l, ed_publicKeyBase64 = k\<rparr>"
  using assms
  by (auto simp: body_as_def call_of_def device_input_def validate_dto_def EnrolDeviceDto_fields_def field_value_def device_body_def
      with_default_def text_of_def split: if_splits)

text \<open>What an enrolment does: a device for the collector, by a member of the staff.\<close>

lemma enrolment_effect:
  assumes "respond A (device_request C POST [''devices''] (device_input c l k) auth) roll ns (w, bs) = (r, w', bs')"
  shows "w' = w \<and> isl r \<or> (\<exists>d s' u. r = Inr (ADevice d) \<and> w' = w\<lparr>w_db := s'\<rparr>
    \<and> enrolDevice (w_clock w) (id_new ns) \<lparr>ed_collectorId = c, ed_label = l, ed_publicKeyBase64 = k\<rparr> (w_db w) = Inr (d, s')
    \<and> u \<in> set (users (w_db w)) \<and> u_active u \<and> u_role u \<in> {admin, operator}
    \<and> (\<exists>header. auth = Some header \<and> (\<exists>claims. ae_jwtVerify A (drop 7 header) = Some claims)))"
proof -
  let ?q = "device_request C POST [''devices''] (device_input c l k) auth" and ?rt = "staff POST [Lit ''devices''] Registry_enrolDevice"
  show ?thesis
  proof (cases "guards A ?rt ?q roll (w_db w) (w_clock w) bs")
    case (Pair g bs1)
    show ?thesis
    proof (cases g)
      case (Inl e)
      then show ?thesis using assms Pair by (auto simp: respond_def device_routes)
    next
      case (Inr user)
      obtain u where u: "signed_in A ?q w u" "u_role u \<in> {admin, operator}"
        using guarded_account[OF Pair[unfolded Inr]] by (auto simp: route_defs)
      have row: "u \<in> set (users (w_db w))" "u_active u" "\<exists>header. auth = Some header \<and> (\<exists>claims. ae_jwtVerify A (drop 7 header) = Some claims)"
        using u(1) by (auto simp: signed_in_def dest: get_by_SomeD)
      show ?thesis
      proof (cases "registry_enrolDevice A ns (call_of ?rt ?q user) w")
        case (Inl e)
        then show ?thesis using assms Pair Inr by (auto simp: respond_def device_routes route_defs)
      next
        case (Inr aw)
        obtain a w1 where aw: "aw = (a, w1)" by fastforce
        then obtain get d s' where g: "body_as A (call_of ?rt ?q user) EnrolDeviceDto_fields = Inr get"
            "enrolDevice (w_clock w) (id_new ns) (device_body get) (w_db w) = Inr (d, s')" "a = ADevice d" "w1 = w\<lparr>w_db := s'\<rparr>"
          using Inr unfolding registry_enrolDevice_def by (auto simp: and_then_Inr writing_eq)
        have "r = Inr a" "w' = w1" using assms Pair \<open>g = Inr user\<close> Inr aw by (auto simp: respond_def device_routes route_defs)
        then show ?thesis using g device_body_read[OF g(1)] u(2) row by auto
      qed
    qed
  qed
qed

section \<open>The screens against the server\<close>

lemma fetch_reads:
  assumes "\<And>r w' bs'. respond (cn_api C) q (xc_roll x) (xc_ids x) (w, bs) = (r, w', bs') \<Longrightarrow> w' = w"
    and "outcome_of C f g (fetch C x url q (w, bs)) = (v, (w', bs'))"
  shows "w' = w"
proof -
  obtain r st where f: "fetch C x url q (w, bs) = (r, st)" by (rule prod.exhaust)
  have "st = (w', bs')" using arg_cong[OF assms(2), of snd] f by simp
  then have "(w', bs') = (w, bs) \<or> (w', bs') = snd (respond (cn_api C) q (xc_roll x) (xc_ids x) (w, bs))" using fetch_effect[OF f] by auto
  then show ?thesis using assms(1) by (metis Pair_inject prod.collapse)
qed

lemma login_world: "operatorLogin C x url e p (w, bs) = (v, (w', bs')) \<Longrightarrow> w' = w"
  unfolding operatorLogin_def postJson_def by (erule fetch_reads[rotated]) (erule login_reads)

lemma logged_in:
  obtains v bs' where "operatorLogin C x url e p (w, bs) = (v, (w, bs'))"
proof -
  obtain v w' bs' where "operatorLogin C x url e p (w, bs) = (v, (w', bs'))" by (rule prod_cases3)
  then show thesis using that login_world by blast
qed

lemma collectors_fetched:
  assumes "fetchCollectors C x url t (w, bs) = (v, (w', bs'))"
  shows "w' = w" and "v = Inr ps \<Longrightarrow> ps = people_of (Collectors (listCollectors (w_db w)))"
proof -
  show "w' = w" using assms unfolding fetchCollectors_def authedGet_def by (elim fetch_reads[rotated]) (erule lists_read(1))
  assume "v = Inr ps"
  then obtain a where a: "fetch C x url (device_request C GET [''collectors''] JUndefined (Some (bearer t))) (w, bs) = (Some (Inr a), (w', bs'))"
      "ps = people_of a"
    using assms unfolding fetchCollectors_def authedGet_def by (auto elim: outcome_ok)
  show "ps = people_of (Collectors (listCollectors (w_db w)))" using lists_read(2)[OF fetch_answered[OF a(1)] refl] a(2) by simp
qed

lemma hubs_fetched:
  assumes "fetchHubs C x url t (w, bs) = (v, (w', bs'))"
  shows "w' = w" and "v = Inr hs \<Longrightarrow> hs = sites_of (Hubs (listHubs (ae_collate (cn_api C)) (w_db w)))"
proof -
  show "w' = w" using assms unfolding fetchHubs_def authedGet_def by (elim fetch_reads[rotated]) (erule hubs_read(1))
  assume "v = Inr hs"
  then obtain a where a: "fetch C x url (device_request C GET [''hubs''] JUndefined (Some (bearer t))) (w, bs) = (Some (Inr a), (w', bs'))"
      "hs = sites_of a"
    using assms unfolding fetchHubs_def authedGet_def by (auto elim: outcome_ok)
  show "hs = sites_of (Hubs (listHubs (ae_collate (cn_api C)) (w_db w)))" using hubs_read(2)[OF fetch_answered[OF a(1)] refl] a(2) by simp
qed

lemma lists_fetched:
  obtains ps hs bs1 bs2 where "fetchCollectors C x url t (w, bs) = (ps, (w, bs1))" "fetchHubs C y url t (w, bs1) = (hs, (w, bs2))"
proof -
  obtain ps w1 bs1 where c: "fetchCollectors C x url t (w, bs) = (ps, (w1, bs1))" by (rule prod_cases3)
  obtain hs w2 bs2 where h: "fetchHubs C y url t (w, bs1) = (hs, (w2, bs2))" by (rule prod_cases3)
  show thesis using that c h collectors_fetched(1)[OF c] hubs_fetched(1)[OF h] by blast
qed

definition all_sites :: "client \<Rightarrow> world \<Rightarrow> HubDirectoryEntry list" where
  "all_sites C w = sites_of (Hubs (listHubs (ae_collate (cn_api C)) (w_db w)))"

lemma signIn_effect:
  assumes "signIn C x1 x2 x3 (p0, (w0, bs0)) = (p1, (w1, bs1))"
  shows "w1 = w0" and "ph_secure p1 = ph_secure p0" and "ph_device p1 = ph_device p0"
    and "k \<noteq> BACKEND_KEY \<Longrightarrow> ph_store p1 k = ph_store p0 k"
    and "es_token (ph_screen p1) = es_token (ph_screen p0) \<or> es_hubs (ph_screen p1) = all_sites C w0"
proof -
  obtain v st1 where l: "operatorLogin C x1 (mobile_getBackendUrl (ph_store (if js_trim (es_backend (ph_screen p0)) \<noteq> '''' then
        p0\<lparr>ph_store := mobile_setBackendUrl (es_backend (ph_screen p0)) (ph_store p0)\<rparr> else p0)))
      (js_trim (es_email (ph_screen p0))) (es_password (ph_screen p0)) (w0, bs0) = (v, (w0, st1))"
    by (rule logged_in)
  note out = assms[unfolded signIn_def Let_def prod.case l]
  have "w1 = w0 \<and> ph_secure p1 = ph_secure p0 \<and> ph_device p1 = ph_device p0 \<and> (k \<noteq> BACKEND_KEY \<longrightarrow> ph_store p1 k = ph_store p0 k)
    \<and> (es_token (ph_screen p1) = es_token (ph_screen p0) \<or> es_hubs (ph_screen p1) = all_sites C w0)"
  proof (cases v)
    case (Inl m)
    then show ?thesis using out by (auto simp: alerted_def mobile_setBackendUrl_def setItem_def)
  next
    case (Inr t)
    let ?url = "mobile_getBackendUrl (ph_store (if js_trim (es_backend (ph_screen p0)) \<noteq> '''' then
        p0\<lparr>ph_store := mobile_setBackendUrl (es_backend (ph_screen p0)) (ph_store p0)\<rparr> else p0))"
    obtain people sites st2 st3 where c: "fetchCollectors C x2 ?url t (w0, st1) = (people, (w0, st2))"
        and h: "fetchHubs C x3 ?url t (w0, st2) = (sites, (w0, st3))" by (rule lists_fetched)
    note out' = out[unfolded Inr sum.case c h prod.case]
    show ?thesis using out' hubs_fetched(2)[OF h]
      by (auto simp: alerted_def mobile_setBackendUrl_def setItem_def all_sites_def split: sum.splits)
  qed
  then show "w1 = w0" and "ph_secure p1 = ph_secure p0" and "ph_device p1 = ph_device p0"
    and "k \<noteq> BACKEND_KEY \<Longrightarrow> ph_store p1 k = ph_store p0 k"
    and "es_token (ph_screen p1) = es_token (ph_screen p0) \<or> es_hubs (ph_screen p1) = all_sites C w0"
    by blast+
qed

lemma load_lists_effect:
  assumes "load_lists C x1 x2 x3 (b0, (w0, bs0)) = (b1, (w1, bs1))" and "bw_provisioning b0 = None"
  shows "w1 = w0" and "bw_provisioning b1 = None"
    and "pr_token (bw_screen b1) = '''' \<or> pr_loadedHubs (bw_screen b1) = all_sites C w0"
proof -
  let ?url = "capture_backendUrl (capture_setBackendUrl (js_trim (pr_backend (bw_screen b0))))"
  obtain v st1 where l: "operatorLogin C x1 ?url (js_trim (pr_email (bw_screen b0))) (pr_password (bw_screen b0)) (w0, bs0) = (v, (w0, st1))"
    by (rule logged_in)
  have b: "bw_url (b0\<lparr>bw_notice := None, bw_url := u\<rparr>) = u" for u by simp
  note out = assms(1)[unfolded load_lists_def capture_calls Let_def prod.case b l]
  have "w1 = w0 \<and> bw_provisioning b1 = None \<and> (pr_token (bw_screen b1) = '''' \<or> pr_loadedHubs (bw_screen b1) = all_sites C w0)"
  proof (cases v)
    case (Inl m)
    then show ?thesis using out assms(2) by (auto simp: render_def told_def fresh_pairing_def)
  next
    case (Inr t)
    obtain people sites st2 st3 where c: "fetchCollectors C x2 ?url t (w0, st1) = (people, (w0, st2))"
        and h: "fetchHubs C x3 ?url t (w0, st2) = (sites, (w0, st3))" by (rule lists_fetched)
    note out' = out[unfolded Inr sum.case c h prod.case]
    show ?thesis using out' hubs_fetched(2)[OF h] assms(2)
      by (auto simp: render_def told_def fresh_pairing_def all_sites_def split: sum.splits)
  qed
  then show "w1 = w0" and "bw_provisioning b1 = None"
    and "pr_token (bw_screen b1) = '''' \<or> pr_loadedHubs (bw_screen b1) = all_sites C w0" by blast+
qed

text \<open>An enrolment that is answered with a device made it.\<close>

definition new_device_for :: "client \<Rightarrow> exchange \<Rightarrow> string \<Rightarrow> string \<Rightarrow> world \<Rightarrow> string \<Rightarrow> world \<Rightarrow> bool" where
  "new_device_for C x c key w i w' = (\<exists>d l s' u. i = d_id d \<and> w' = w\<lparr>w_db := s'\<rparr>
    \<and> Registry.enrolDevice (w_clock w) (id_new (xc_ids x)) \<lparr>ed_collectorId = c, ed_label = l, ed_publicKeyBase64 = key\<rparr> (w_db w) = Inr (d, s')
    \<and> u \<in> set (users (w_db w)) \<and> u_active u \<and> u_role u \<in> {admin, operator})"

lemma enrolled_by:
  assumes "outcome_of C f deviceId_of (fetch C x url (device_request C POST [''devices''] (device_input c l key) auth) (w, bs)) = (Inr i, (w', bs'))"
  shows "new_device_for C x c key w i w'"
proof -
  obtain a where a: "fetch C x url (device_request C POST [''devices''] (device_input c l key) auth) (w, bs) = (Some (Inr a), (w', bs'))"
      "i = deviceId_of a"
    using assms by (auto elim: outcome_ok)
  from enrolment_effect[OF fetch_answered[OF a(1)]] obtain d s' u where "a = ADevice d" "w' = w\<lparr>w_db := s'\<rparr>"
      "Registry.enrolDevice (w_clock w) (id_new (xc_ids x)) \<lparr>ed_collectorId = c, ed_label = l, ed_publicKeyBase64 = key\<rparr> (w_db w) = Inr (d, s')"
      "u \<in> set (users (w_db w))" "u_active u" "u_role u \<in> {admin, operator}"
    by auto
  then show ?thesis using a(2) unfolding new_device_for_def by auto
qed

lemma new_device_row:
  assumes "new_device_for C x c key w i w'" and "world_ok D w" and "fresh_ids (xc_ids x) w"
  obtains d co u where "get_by d_id i (devices (w_db w')) = Some d" "d_collectorId d = c" "d_publicKeyBase64 d = key"
    "d_revokedAt d = None" "get_by c_id c (collectors (w_db w')) = Some co" "u \<in> set (users (w_db w))" "u_active u"
    "u_role u \<in> {admin, operator}" "hubs (w_db w') = hubs (w_db w)" "collectors (w_db w') = collectors (w_db w)"
proof -
  obtain d l s' u where n: "i = d_id d" "w' = w\<lparr>w_db := s'\<rparr>"
    "Registry.enrolDevice (w_clock w) (id_new (xc_ids x)) \<lparr>ed_collectorId = c, ed_label = l, ed_publicKeyBase64 = key\<rparr> (w_db w) = Inr (d, s')"
    "u \<in> set (users (w_db w))" "u_active u" "u_role u \<in> {admin, operator}"
    using assms(1) unfolding new_device_for_def by blast
  note e = enrolDevice_eq[OF n(3)]
  have "d_id d \<notin> d_id ` set (devices (w_db w))" using assms(3) e(2) by (simp add: fresh_ids_def Let_def)
  then have "get_by d_id (d_id d) (devices (w_db w)) = None" by (simp add: get_by_None_iff)
  then have "get_by d_id i (devices (w_db w')) = Some d" using e(1) n(1,2) by (simp add: get_by_insert_row)
  moreover obtain co where "get_by c_id c (collectors (w_db w')) = Some co" using e(1,6) n(2) by auto
  ultimately show thesis using that e(1,3,4,5) n(2,4,5,6) by auto
qed

text \<open>What the operator's list says of a hub is so when the device is enrolled.\<close>

lemma site_row:
  assumes "h \<in> set (all_sites C w0)" and "registry_kept (w_db w0) s"
  obtains row where "row \<in> set (hubs s)" "row \<in> set (hubs (w_db w0))" "h_id row = hd_id h" "h_minWeightKg row = hd_minWeightKg h"
    "h_maxWeightKg row = hd_maxWeightKg h"
proof -
  obtain row where row: "row \<in> set (hubs (w_db w0))" "h = \<lparr>hd_id = h_id row, hd_code = h_code row, hd_name = h_name row,
      hd_minWeightKg = h_minWeightKg row, hd_maxWeightKg = h_maxWeightKg row\<rparr>"
    using assms(1) by (auto simp: all_sites_def listHubs_def)
  have "set (hubs (w_db w0)) \<subseteq> set (hubs s)" using assms(2) by (simp add: registry_kept_def)
  from subsetD[OF this row(1)] show thesis by (rule that) (use row in simp_all)
qed

lemma hub_by_id: "world_ok D w \<Longrightarrow> row \<in> set (hubs (w_db w)) \<Longrightarrow> get_by h_id (h_id row) (hubs (w_db w)) = Some row"
  by (rule get_by_unique) (simp_all add: world_ok_def tables_ok_def registry_ok_def)

lemma enrol_effect:
  assumes "enrol C identity x (p, (w, bs)) = (p', (w', bs'))" and "ph_device p = None" and "ph_device p' = Some meta"
  obtains c h hub where "es_collectorId (ph_screen p) = Some c" "es_hubId (ph_screen p) = Some h"
    "find_one (\<lambda>h'. hd_id h' = h) (es_hubs (ph_screen p)) = Some hub" "meta = mobile_meta (dm_deviceId meta) c (ph_screen p) hub"
    "new_device_for C x c (di_publicKeyBase64 identity) w (dm_deviceId meta) w'"
    "p' = p\<lparr>ph_secure := saveDeviceMeta meta (ph_secure p), ph_device := Some meta\<rparr>" "has_text (es_token (ph_screen p))"
proof -
  let ?s = "ph_screen p"
  have g: "has_text (es_token ?s)" "has_text (es_collectorId ?s)" "has_text (es_hubId ?s)"
    using assms by (auto simp: enrol_def Let_def split: if_splits)
  then obtain t c h where s: "es_token ?s = Some t" "es_collectorId ?s = Some c" "es_hubId ?s = Some h" by (auto simp: has_text_def)
  obtain v st1 where call: "mobile_enrolDevice C x (mobile_getBackendUrl (ph_store p)) t
      (device_input c (label_or ''field phone'' (es_label ?s)) (di_publicKeyBase64 identity)) (w, bs) = (v, st1)" by (rule prod.exhaust)
  have out: "enrol C identity x (p, (w, bs)) = (case v of Inl m \<Rightarrow> (alerted ''Enrolment failed'' m p, st1)
     | Inr i \<Rightarrow> (case find_one (\<lambda>h'. hd_id h' = h) (es_hubs ?s) of
           None \<Rightarrow> (alerted ''Enrolment failed'' ''hub not found'' p, st1)
         | Some hub \<Rightarrow> (p\<lparr>ph_secure := saveDeviceMeta (mobile_meta i c ?s hub) (ph_secure p), ph_device := Some (mobile_meta i c ?s hub)\<rparr>, st1)))"
    using g s call by (simp add: enrol_def Let_def split: sum.splits option.splits)
  from assms obtain i hub where i: "v = Inr i" "find_one (\<lambda>h'. hd_id h' = h) (es_hubs ?s) = Some hub" "meta = mobile_meta i c ?s hub"
      "p' = p\<lparr>ph_secure := saveDeviceMeta meta (ph_secure p), ph_device := Some meta\<rparr>" "st1 = (w', bs')"
    unfolding out by (auto simp: alerted_def split: sum.splits option.splits)
  have "new_device_for C x c (di_publicKeyBase64 identity) w i w'"
    using call unfolding i(1,5) mobile_enrolDevice_def postJson_def by (rule enrolled_by)
  moreover have "dm_deviceId meta = i" by (simp add: i(3) mobile_meta_def)
  ultimately show thesis using that s i g by simp
qed

section \<open>A server, for the witnesses\<close>

definition enrol_db :: db where
  "enrol_db = empty_db\<lparr>users := [run_admin\<lparr>u_passwordHash := ''secret12''\<rparr>], hubs := [run_hub], collectors := [run_collector]\<rparr>"

definition enrol_world :: world where
  "enrol_world = first_world\<lparr>w_db := enrol_db\<rparr>"

definition enrol_api :: api_env where
  "enrol_api = run_api\<lparr>ae_accepts := (\<lambda>d v. d = IsEmail \<or> sample_accepts d v),
     ae_jwtVerify := (\<lambda>t. if t = ''u'' then Some \<lparr>jwt_sub = ''u'', jwt_email = '''', jwt_role = auditor\<rparr> else None)\<rparr>"

definition enrol_client :: client where
  "enrol_client = \<lparr>cn_url = ''http://b'', cn_api = enrol_api, cn_ip = None, cn_networkError = ''lost'', cn_errorText = (\<lambda>_. '''')\<rparr>"

definition run_exchange :: "fate \<Rightarrow> exchange" where
  "run_exchange f = \<lparr>xc_fate = f, xc_roll = 1, xc_ids = \<lparr>id_new = ''d'', id_attempt = ''x''\<rparr>\<rparr>"

lemma enrol_deployment [simp]: "ae_deployment enrol_api = run_deployment" "cn_api enrol_client = enrol_api"
    "cn_url enrol_client = ''http://b''"
  by (simp_all add: enrol_api_def run_api_def enrol_client_def)

lemma enrol_world_ok: "world_ok run_deployment enrol_world"
proof -
  have a: "create_user (dp_hashPassword run_deployment) 0 ''u''
      \<lparr>cu_email = ''a@b.c'', cu_password = ''secret12'', cu_role = admin\<rparr> (w_db first_world)
    = Inr (toUserView (run_admin\<lparr>u_passwordHash := ''secret12''\<rparr>), empty_db\<lparr>users := [run_admin\<lparr>u_passwordHash := ''secret12''\<rparr>]\<rparr>)"
    by (simp add: create_user_def run_deployment_def first_world_def empty_db_def run_admin_def get_by_def insert_row_def
        js_trim_def trim_start_def trim_end_def is_space_def js_lower_def lower_char_def Let_def toUserView_def)
  have h: "createHub ''h'' \<lparr>ch_code = ''H'', ch_name = ''Hub'', ch_minWeightKg = None, ch_maxWeightKg = None\<rparr>
      (empty_db\<lparr>users := [run_admin\<lparr>u_passwordHash := ''secret12''\<rparr>]\<rparr>)
    = Inr (run_hub, empty_db\<lparr>users := [run_admin\<lparr>u_passwordHash := ''secret12''\<rparr>], hubs := [run_hub]\<rparr>)"
    by (simp add: createHub_def Let_def empty_db_def run_hub_def insert_row_def get_by_def)
  have c: "createCollector 0 ''c'' \<lparr>cc_name = ''C'', cc_phone = ''+1'', cc_cooperativeId = None, cc_kycLevel = None\<rparr>
      (empty_db\<lparr>users := [run_admin\<lparr>u_passwordHash := ''secret12''\<rparr>], hubs := [run_hub]\<rparr>) = Inr (run_collector, enrol_db)"
    by (simp add: createCollector_def Let_def empty_db_def run_collector_def insert_row_def get_by_def enrol_db_def)
  have t: "w_clock first_world = 0" by (simp add: first_world_def)
  let ?u = "empty_db\<lparr>users := [run_admin\<lparr>u_passwordHash := ''secret12''\<rparr>]\<rparr>"
  have "service_step run_deployment (w_clock first_world) (w_db first_world) ?u"
    unfolding t by (rule creates_user[OF a]) (simp add: first_world_def empty_db_def)
  note r1 = serves_run[OF this]
  have "service_step run_deployment (w_clock (first_world\<lparr>w_db := ?u\<rparr>)) (w_db (first_world\<lparr>w_db := ?u\<rparr>)) (?u\<lparr>hubs := [run_hub]\<rparr>)"
    by (simp add: t) (rule creates_hub[OF h], simp add: empty_db_def)
  note r2 = serve_run[OF this r1]
  have "service_step run_deployment (w_clock (first_world\<lparr>w_db := ?u\<lparr>hubs := [run_hub]\<rparr>\<rparr>))
      (w_db (first_world\<lparr>w_db := ?u\<lparr>hubs := [run_hub]\<rparr>\<rparr>)) enrol_db"
    by (simp add: t) (rule creates_collector[OF c], simp add: empty_db_def)
  from serve_run[OF this, of first_world] r2 have "runs run_deployment first_world enrol_world" by (simp add: enrol_world_def)
  then show ?thesis using runs_keep first_world_ok by blast
qed

lemma login_answer:
  "\<exists>bs. operatorLogin enrol_client (run_exchange Delivered) ''http://b'' ''a@b.c'' ''secret12'' (enrol_world, []) = (Inr ''u'', (enrol_world, bs))"
proof -
  let ?b = "JObj [(''email'', JStr ''a@b.c''), (''password'', JStr ''secret12'')]"
  let ?q = "device_request enrol_client POST [''auth'', ''login''] ?b None" and ?rt = "limited 10 60 (anyone POST [Lit ''auth'', Lit ''login''] Auth_login)"
  obtain bs where g: "guards enrol_api ?rt ?q 1 (w_db enrol_world) (w_clock enrol_world) [] = (Inr None, bs)"
    by (simp add: guards_def jwt_canActivate_def route_defs route.truncate_def rate_canActivate_def rate_step_def)
  have e: "js_lower (js_trim ''a@b.c'') = ''a@b.c''" "js_lower ''a@b.c'' = ''a@b.c''" by code_simp+
  have h: "auth_login enrol_api (call_of rt ?q None) enrol_world = Inr (Token ''u'' admin, enrol_world)" for rt
    by (simp add: auth_login_def and_then_def body_as_def call_of_def validate_dto_def LoginDto_def field_ok_def field_value_def
        with_default_def enrol_api_def run_api_def run_deployment_def reading_def login_def validate_def password_ok_def e Let_def
        enrol_world_def enrol_db_def run_admin_def get_by_def text_of_def)
  have "respond enrol_api ?q 1 ns (enrol_world, []) = (Inr (Token ''u'' admin), enrol_world, bs)" for ns
    by (simp add: respond_def device_routes g) (simp add: route_defs h)
  then show ?thesis
    by (simp add: operatorLogin_def postJson_def fetch_def run_exchange_def has_text_def outcome_of_def)
qed

lemma staff_guard:
  assumes "\<not> rt_isPublic rt" and "rt_roles rt = [] \<or> admin \<in> set (rt_roles rt)" and "ar_limit rt = None" and "\<not> ar_worker rt"
    and "hq_authorization q = Some (bearer ''u'')"
  shows "guards enrol_api rt q roll (w_db enrol_world) now bs
    = (Inr (Some \<lparr>jwt_sub = ''u'', jwt_email = ''a@b.c'', jwt_role = admin\<rparr>), bs)"
  using assms
  by (auto simp: guards_def jwt_canActivate_def route.truncate_def starts_with_def bearer_def enrol_api_def enrol_world_def enrol_db_def
      run_admin_def get_by_def rate_canActivate_def)

lemma lists_answer:
  "fetchCollectors enrol_client (run_exchange Delivered) ''http://b'' ''u'' (enrol_world, bs) = (Inr [(''c'', ''C'')], (enrol_world, bs))"
  "fetchHubs enrol_client (run_exchange Delivered) ''http://b'' ''u'' (enrol_world, bs)
    = (Inr [\<lparr>hd_id = ''h'', hd_code = ''H'', hd_name = ''Hub'', hd_minWeightKg = gram 100, hd_maxWeightKg = gram 10000000\<rparr>], (enrol_world, bs))"
proof -
  have "listCollectors (w_db enrol_world) = [run_collector]" "listHubs lc (w_db enrol_world) = [run_hub]" for lc
    by (simp_all add: listCollectors_def listHubs_def enrol_world_def enrol_db_def)
  then show "fetchCollectors enrol_client (run_exchange Delivered) ''http://b'' ''u'' (enrol_world, bs) = (Inr [(''c'', ''C'')], (enrol_world, bs))"
    "fetchHubs enrol_client (run_exchange Delivered) ''http://b'' ''u'' (enrol_world, bs)
      = (Inr [\<lparr>hd_id = ''h'', hd_code = ''H'', hd_name = ''Hub'', hd_minWeightKg = gram 100, hd_maxWeightKg = gram 10000000\<rparr>], (enrol_world, bs))"
    by (simp_all add: fetchCollectors_def fetchHubs_def authedGet_def fetch_def respond_def device_routes staff_guard members_def
        run_exchange_def outcome_of_def run_collector_def run_hub_def)
qed

lemma enrol_answer:
  "\<exists>d s'. respond enrol_api (device_request enrol_client POST [''devices''] (device_input ''c'' ''phone'' (di_publicKeyBase64 sample_identity))
      (Some (bearer ''u''))) 1 \<lparr>id_new = ''d'', id_attempt = ''x''\<rparr> (enrol_world, bs) = (Inr (ADevice d), enrol_world\<lparr>w_db := s'\<rparr>, bs)
    \<and> d_id d = ''d'' \<and> s' \<noteq> enrol_db"
proof -
  let ?k = "di_publicKeyBase64 sample_identity" and ?rt = "staff POST [Lit ''devices''] Registry_enrolDevice"
  let ?q = "device_request enrol_client POST [''devices''] (device_input ''c'' ''phone'' ?k) (Some (bearer ''u''))"
  let ?c = "call_of ?rt ?q (Some \<lparr>jwt_sub = ''u'', jwt_email = ''a@b.c'', jwt_role = admin\<rparr>)"
  have k: "device_key_pattern ?k" "\<exists>raw. publicKeyFromBase64 ?k = Inr raw"
  proof -
    have "device_key_pattern (capture_toBase64 (replicate 32 7))" "\<not> isl (publicKeyFromBase64 (capture_toBase64 (replicate 32 7)))"
      by code_simp+
    moreover have "?k = capture_toBase64 (replicate 32 7)" by (simp add: sample_identity_def)
    ultimately show "device_key_pattern ?k" "\<exists>raw. publicKeyFromBase64 ?k = Inr raw" by (auto simp: isl_def split: sum.splits) (metis sum.exhaust)
  qed
  obtain get where g: "body_as enrol_api ?c EnrolDeviceDto_fields = Inr get"
    using k(1) by (simp add: body_as_def call_of_def device_input_def validate_dto_def EnrolDeviceDto_fields_def field_ok_def field_value_def
        with_default_def enrol_api_def nullish_def)
  note b = device_body_read[OF g]
  obtain d s' where e: "Registry.enrolDevice 0 ''d'' \<lparr>ed_collectorId = ''c'', ed_label = ''phone'', ed_publicKeyBase64 = ?k\<rparr> enrol_db = Inr (d, s')"
    using k(2) by (auto simp: enrolDevice_def enrol_db_def empty_db_def run_collector_def get_by_def Let_def)
  have "registry_enrolDevice enrol_api \<lparr>id_new = ''d'', id_attempt = ''x''\<rparr> ?c enrol_world = Inr (ADevice d, enrol_world\<lparr>w_db := s'\<rparr>)"
    using e by (simp add: registry_enrolDevice_def and_then_def g b writing_def enrol_world_def first_world_def)
  moreover have "ar_handler ?rt = Registry_enrolDevice" by (simp add: route_defs)
  ultimately have "respond enrol_api ?q 1 \<lparr>id_new = ''d'', id_attempt = ''x''\<rparr> (enrol_world, bs) = (Inr (ADevice d), enrol_world\<lparr>w_db := s'\<rparr>, bs)"
    by (simp add: respond_def device_routes staff_guard route_defs)
  moreover have "s' \<noteq> enrol_db" using enrolDevice_eq(1)[OF e] by (auto simp: insert_row_def enrol_db_def empty_db_def)
  ultimately show ?thesis using enrolDevice_eq(2)[OF e] by blast
qed

definition first_phone :: phone where
  "first_phone = \<lparr>ph_screen = \<lparr>es_backend = ''http://b/'', es_email = ''a@b.c'', es_password = ''secret12'', es_label = '''', es_collectors = [],
     es_hubs = [], es_token = None, es_collectorId = None, es_hubId = None, es_alert = None\<rparr>,
     ph_store = Map.empty, ph_secure = Map.empty, ph_device = None\<rparr>"

definition signed_phone :: phone where
  "signed_phone = first_phone\<lparr>ph_store := Map.empty(BACKEND_KEY \<mapsto> Plain ''http://b''), ph_screen := (ph_screen first_phone)\<lparr>es_token := Some ''u'',
     es_collectors := [(''c'', ''C'')], es_hubs := [\<lparr>hd_id = ''h'', hd_code = ''H'', hd_name = ''Hub'', hd_minWeightKg = gram 100,
       hd_maxWeightKg = gram 10000000\<rparr>], es_collectorId := Some ''c'', es_hubId := Some ''h''\<rparr>\<rparr>"

lemma phone_signs_in:
  "\<exists>bs. signIn enrol_client (run_exchange Delivered) (run_exchange Delivered) (run_exchange Delivered) (first_phone, (enrol_world, []))
    = (signed_phone, (enrol_world, bs))"
proof -
  have t: "js_trim ''http://b/'' = ''http://b/''" "strip_slashes ''http://b/'' = ''http://b''" "js_trim ''a@b.c'' = ''a@b.c''" by code_simp+
  obtain bs where l: "operatorLogin enrol_client (run_exchange Delivered) ''http://b'' ''a@b.c'' ''secret12'' (enrol_world, []) = (Inr ''u'', (enrol_world, bs))"
    using login_answer by blast
  have f: "ph_screen first_phone = \<lparr>es_backend = ''http://b/'', es_email = ''a@b.c'', es_password = ''secret12'', es_label = '''', es_collectors = [],
     es_hubs = [], es_token = None, es_collectorId = None, es_hubId = None, es_alert = None\<rparr>" "ph_store first_phone = Map.empty"
    by (simp_all add: first_phone_def)
  show ?thesis
    by (simp add: signIn_def Let_def f t l lists_answer mobile_setBackendUrl_def mobile_getBackendUrl_def getItem_def setItem_def
        signed_phone_def first_id_def)
qed

lemma phone_enrols:
  assumes "p = signed_phone\<lparr>ph_screen := (ph_screen signed_phone)\<lparr>es_collectorId := Some ''c'', es_hubId := Some ''h'', es_label := ''phone''\<rparr>\<rparr>"
  shows "\<exists>meta s'. enrol enrol_client sample_identity (run_exchange Delivered) (p, (enrol_world, bs))
      = (p\<lparr>ph_secure := saveDeviceMeta meta (ph_secure p), ph_device := Some meta\<rparr>, (enrol_world\<lparr>w_db := s'\<rparr>, bs)) \<and> s' \<noteq> enrol_db"
    and "\<exists>s'. enrol enrol_client sample_identity (run_exchange AnswerLost) (p, (enrol_world, bs))
      = (alerted ''Enrolment failed'' ''lost'' p, (enrol_world\<lparr>w_db := s'\<rparr>, bs)) \<and> s' \<noteq> enrol_db"
proof -
  obtain d s' where d: "respond enrol_api (device_request enrol_client POST [''devices''] (device_input ''c'' ''phone'' (di_publicKeyBase64 sample_identity))
      (Some (bearer ''u''))) 1 \<lparr>id_new = ''d'', id_attempt = ''x''\<rparr> (enrol_world, bs) = (Inr (ADevice d), enrol_world\<lparr>w_db := s'\<rparr>, bs)"
      "d_id d = ''d''" "s' \<noteq> enrol_db"
    using enrol_answer by blast
  have l: "label_or ''field phone'' ''phone'' = ''phone''" by code_simp
  have s: "es_token (ph_screen p) = Some ''u''" "es_collectorId (ph_screen p) = Some ''c''" "es_hubId (ph_screen p) = Some ''h''" "es_label (ph_screen p) = ''phone''"
      "mobile_getBackendUrl (ph_store p) = ''http://b''" "hd_id (hd (es_hubs (ph_screen p))) = ''h''" "es_hubs (ph_screen p) = [hd (es_hubs (ph_screen p))]"
    by (simp_all add: assms signed_phone_def mobile_getBackendUrl_def getItem_def)
  have one: "find_one (\<lambda>h. hd_id h = ''h'') (es_hubs (ph_screen p)) = Some (hd (es_hubs (ph_screen p)))"
    by (subst s(7)) (simp add: s(6))
  have net: "cn_networkError enrol_client = ''lost''" by (simp add: enrol_client_def)
  show "\<exists>meta s'. enrol enrol_client sample_identity (run_exchange Delivered) (p, (enrol_world, bs))
      = (p\<lparr>ph_secure := saveDeviceMeta meta (ph_secure p), ph_device := Some meta\<rparr>, (enrol_world\<lparr>w_db := s'\<rparr>, bs)) \<and> s' \<noteq> enrol_db"
    using d(3) by (simp add: enrol_def Let_def s(1-5) l one mobile_enrolDevice_def postJson_def fetch_def run_exchange_def has_text_def outcome_of_def d(1))
      blast
  show "\<exists>s'. enrol enrol_client sample_identity (run_exchange AnswerLost) (p, (enrol_world, bs))
      = (alerted ''Enrolment failed'' ''lost'' p, (enrol_world\<lparr>w_db := s'\<rparr>, bs)) \<and> s' \<noteq> enrol_db"
    using d(3) by (simp add: enrol_def Let_def s(1-5) l mobile_enrolDevice_def postJson_def fetch_def run_exchange_def has_text_def outcome_of_def d(1) net) blast
qed

lemma run_exchange_fresh: "fresh_ids (xc_ids (run_exchange f)) enrol_world"
  by (simp add: fresh_ids_def run_exchange_def enrol_world_def enrol_db_def first_world_def empty_db_def run_admin_def run_hub_def run_collector_def)

section \<open>Properties\<close>

text \<open>C39. An enrolled phone is known.  A member of the staff signs in on the phone, the server goes on working, the
  operator picks a collector and a hub, and the enrolment gives the phone its assignment.  Then the server has a
  device of that collector with the phone's key that is not revoked; the phone knows the bounds of its hub as the
  server has them and finds the assignment again after a restart; an active member of the staff did it; and
  neither store of the phone holds anything new but the address and the assignment, so no credential is kept.\<close>

theorem enrolled_phone_is_known:
  assumes "signIn C x1 x2 x3 (p0, (w0, bs0)) = (p1, (w1, bs1))" and "es_token (ph_screen p0) = None" and "ph_device p0 = None"
    and "world_ok (ae_deployment (cn_api C)) w1" and "runs (ae_deployment (cn_api C)) w1 w2"
    and "p2 = p1\<lparr>ph_screen := (ph_screen p1)\<lparr>es_collectorId := Some c, es_hubId := Some h, es_label := label\<rparr>\<rparr>"
    and "enrol C identity x (p2, (w2, bs2)) = (p3, (w3, bs3))" and "ph_device p3 = Some meta" and "fresh_ids (xc_ids x) w2"
    and "\<forall>row \<in> set (hubs (w_db w1)). is_finite (h_minWeightKg row) \<and> is_finite (h_maxWeightKg row)"
  shows "\<exists>d hub u. get_by d_id (dm_deviceId meta) (devices (w_db w3)) = Some d \<and> d_collectorId d = c
    \<and> d_publicKeyBase64 d = di_publicKeyBase64 identity \<and> d_revokedAt d = None \<and> dm_collectorId meta = c
    \<and> c \<in> c_id ` set (collectors (w_db w3)) \<and> get_by h_id h (hubs (w_db w3)) = Some hub \<and> dm_hubId meta = h
    \<and> device_bounds meta = \<lparr>minKg = Some (h_minWeightKg hub), maxKg = Some (h_maxWeightKg hub)\<rparr>
    \<and> loadDeviceMeta (ph_secure p3) = Inr (Some meta)
    \<and> u \<in> set (users (w_db w2)) \<and> u_active u \<and> u_role u \<in> {admin, operator}
    \<and> (\<forall>k. k \<noteq> BACKEND_KEY \<longrightarrow> ph_store p3 k = ph_store p0 k) \<and> (\<forall>k. k \<noteq> DEVICE_META_KEY \<longrightarrow> ph_secure p3 k = ph_secure p0 k)"
proof -
  note s = signIn_effect[OF assms(1)]
  have p2: "ph_device p2 = None" "ph_secure p2 = ph_secure p0" "ph_store p2 = ph_store p1" "es_hubs (ph_screen p2) = es_hubs (ph_screen p1)"
      "es_token (ph_screen p2) = es_token (ph_screen p1)" "es_collectorId (ph_screen p2) = Some c" "es_hubId (ph_screen p2) = Some h"
    using s(2,3) assms(3,6) by simp_all
  obtain hub where e: "find_one (\<lambda>h'. hd_id h' = h) (es_hubs (ph_screen p2)) = Some hub" "meta = mobile_meta (dm_deviceId meta) c (ph_screen p2) hub"
      "new_device_for C x c (di_publicKeyBase64 identity) w2 (dm_deviceId meta) w3"
      "p3 = p2\<lparr>ph_secure := saveDeviceMeta meta (ph_secure p2), ph_device := Some meta\<rparr>" "has_text (es_token (ph_screen p2))"
    using enrol_effect[OF assms(7) p2(1) assms(8)] p2(6,7) by (metis option.inject)
  have "es_token (ph_screen p1) \<noteq> None" using e(5) p2(5) by (simp add: has_text_def)
  then have sites: "es_hubs (ph_screen p2) = all_sites C w0" using s(5) assms(2) p2(4) by auto
  have w2: "world_ok (ae_deployment (cn_api C)) w2" by (rule runs_keep[OF assms(5,4)])
  obtain d co u where d: "get_by d_id (dm_deviceId meta) (devices (w_db w3)) = Some d" "d_collectorId d = c"
      "d_publicKeyBase64 d = di_publicKeyBase64 identity" "d_revokedAt d = None" "get_by c_id c (collectors (w_db w3)) = Some co"
      "u \<in> set (users (w_db w2))" "u_active u" "u_role u \<in> {admin, operator}" "hubs (w_db w3) = hubs (w_db w2)"
    by (rule new_device_row[OF e(3) w2 assms(9)])
  have hub: "hub \<in> set (all_sites C w0)" "hd_id hub = h" using find_one_SomeD[OF e(1)] sites by auto
  have "registry_kept (w_db w0) (w_db w2)" using runs_registry[OF assms(5,4)] s(1) by simp
  from site_row[OF hub(1) this] obtain row where row: "row \<in> set (hubs (w_db w2))" "row \<in> set (hubs (w_db w0))" "h_id row = hd_id hub"
      "h_minWeightKg row = hd_minWeightKg hub" "h_maxWeightKg row = hd_maxWeightKg hub" by blast
  have "get_by h_id h (hubs (w_db w3)) = Some row" using hub_by_id[OF w2 row(1)] row(3) hub(2) d(9) by simp
  moreover have m: "dm_collectorId meta = c" "dm_hubId meta = h" "dm_minWeightKg meta = Some (h_minWeightKg row)"
      "dm_maxWeightKg meta = Some (h_maxWeightKg row)"
    by (subst e(2), simp add: mobile_meta_def hub(2) row(4,5))+
  moreover have "loadDeviceMeta (ph_secure p3) = Inr (Some meta)"
  proof -
    have "is_finite (h_minWeightKg row)" "is_finite (h_maxWeightKg row)" using assms(10) row(2) s(1) by auto
    then show ?thesis using meta_round_trip[of meta "ph_secure p2"] m(3,4) e(4) by auto
  qed
  moreover have "c \<in> c_id ` set (collectors (w_db w3))" using get_by_SomeD[OF d(5)] by auto
  moreover have "\<forall>k. k \<noteq> BACKEND_KEY \<longrightarrow> ph_store p3 k = ph_store p0 k" using s(4) e(4) p2(3) by simp
  moreover have "\<forall>k. k \<noteq> DEVICE_META_KEY \<longrightarrow> ph_secure p3 k = ph_secure p0 k" using e(4) p2(2) by (simp add: saveDeviceMeta_def)
  ultimately show ?thesis using d by (intro exI[of _ d] exI[of _ row] exI[of _ u]) (simp add: device_bounds_def)
qed

theorem enrolled_phone_is_known_witness:
  "\<exists>p1 st1 p3 w3 bs3 meta d. signIn enrol_client (run_exchange Delivered) (run_exchange Delivered) (run_exchange Delivered)
      (first_phone, (enrol_world, [])) = (p1, st1)
    \<and> enrol enrol_client sample_identity (run_exchange Delivered) (p1\<lparr>ph_screen := (ph_screen p1)\<lparr>es_collectorId := Some ''c'',
        es_hubId := Some ''h'', es_label := ''phone''\<rparr>\<rparr>, st1) = (p3, (w3, bs3))
    \<and> ph_device p3 = Some meta \<and> get_by d_id (dm_deviceId meta) (devices (w_db w3)) = Some d
    \<and> d_publicKeyBase64 d = di_publicKeyBase64 sample_identity"
proof -
  let ?p = "signed_phone\<lparr>ph_screen := (ph_screen signed_phone)\<lparr>es_collectorId := Some ''c'', es_hubId := Some ''h'', es_label := ''phone''\<rparr>\<rparr>"
  obtain bs where s: "signIn enrol_client (run_exchange Delivered) (run_exchange Delivered) (run_exchange Delivered) (first_phone, (enrol_world, []))
    = (signed_phone, (enrol_world, bs))" using phone_signs_in by blast
  obtain meta s' where e: "enrol enrol_client sample_identity (run_exchange Delivered) (?p, (enrol_world, bs))
      = (?p\<lparr>ph_secure := saveDeviceMeta meta (ph_secure ?p), ph_device := Some meta\<rparr>, (enrol_world\<lparr>w_db := s'\<rparr>, bs))"
    using phone_enrols(1)[OF refl, of bs] by blast
  have f: "es_token (ph_screen first_phone) = None" "ph_device first_phone = None" by (simp_all add: first_phone_def)
  have w: "world_ok (ae_deployment (cn_api enrol_client)) enrol_world" "runs (ae_deployment (cn_api enrol_client)) enrol_world enrol_world"
    using enrol_world_ok by simp_all
  have g: "\<forall>row \<in> set (hubs (w_db enrol_world)). is_finite (h_minWeightKg row) \<and> is_finite (h_maxWeightKg row)"
    using is_weight_finite[OF gram_weight] by (simp add: enrol_world_def enrol_db_def run_hub_def)
  have m: "ph_device (?p\<lparr>ph_secure := saveDeviceMeta meta (ph_secure ?p), ph_device := Some meta\<rparr>) = Some meta" by simp
  from enrolled_phone_is_known[OF s f w refl e m run_exchange_fresh g]
  obtain d where "get_by d_id (dm_deviceId meta) (devices (w_db (enrol_world\<lparr>w_db := s'\<rparr>))) = Some d"
      "d_publicKeyBase64 d = di_publicKeyBase64 sample_identity" by blast
  then show ?thesis using s e m by blast
qed

text \<open>A paired browser is enrolled.  After the sign-in on the pairing screen and a click on enrol, with whatever the
  server did in between, the provisioning the browser has is one that the server knows in the sense of
  \<open>EndToEnd\<close>, if the collector is an active one, and the whole list of hubs with their bounds is on the device.\<close>

theorem paired_browser_is_enrolled:
  assumes "load_lists C x1 x2 x3 (b0, (w0, bs0)) = (b1, (w1, bs1))" and "bw_provisioning b0 = None"
    and "world_ok (ae_deployment (cn_api C)) w1" and "runs (ae_deployment (cn_api C)) w1 w2"
    and "b2 = b1\<lparr>bw_screen := (bw_screen b1)\<lparr>pr_collector := c, pr_hub := h, pr_label := label\<rparr>\<rparr>" and "ae_jwtVerify (cn_api C) '''' = None"
    and "enrol_clicked C identity x (b2, (w2, bs2)) = (b3, (w3, bs3))" and "bw_provisioning b3 = Some p" and "fresh_ids (xc_ids x) w2"
    and "\<forall>row \<in> set (collectors (w_db w2)). c_active row"
  shows "enrolled identity p (w_db w3) \<and> pv_collectorId p = c \<and> pv_hubId p = h \<and> pv_hubs p = Some (map hub_option (all_sites C w1))"
proof -
  note s = load_lists_effect[OF assms(1,2)]
  let ?s = "bw_screen b2"
  obtain v st1 where call: "capture_enrolDevice C x (capture_backendUrl (bw_url b2)) (pr_token ?s)
      (device_input (pr_collector ?s) (label_or ''Field phone'' (pr_label ?s)) (di_publicKeyBase64 identity)) (w2, bs2) = (v, st1)" by (rule prod.exhaust)
  have none: "bw_provisioning b2 = None" using assms(5) s(2) by simp
  have "\<exists>i hub. v = Inr i \<and> st1 = (w3, bs3) \<and> find_one (\<lambda>h. hd_id h = pr_hub ?s) (pr_loadedHubs ?s) = Some hub
      \<and> p = new_provisioning i ?s"
    using assms(7,8) none call
    by (auto simp: enrol_clicked_def Let_def render_def told_def split: sum.splits option.splits if_splits)
  then obtain i hub where i: "v = Inr i" "st1 = (w3, bs3)" "find_one (\<lambda>h. hd_id h = pr_hub ?s) (pr_loadedHubs ?s) = Some hub"
      "p = new_provisioning i ?s" by blast
  have sc: "pr_collector ?s = c" "pr_hub ?s = h" "pr_loadedHubs ?s = pr_loadedHubs (bw_screen b1)" "pr_token ?s = pr_token (bw_screen b1)"
    using assms(5) by simp_all
  have new: "new_device_for C x c (di_publicKeyBase64 identity) w2 i w3"
    using call unfolding i(1,2) capture_enrolDevice_def sc(1) by (rule enrolled_by)
  obtain a where a: "fetch C x (capture_backendUrl (bw_url b2)) (device_request C POST [''devices'']
      (device_input c (label_or ''Field phone'' (pr_label ?s)) (di_publicKeyBase64 identity)) (Some (bearer (pr_token ?s)))) (w2, bs2) = (Some (Inr a), (w3, bs3))"
    using call unfolding i(1,2) capture_enrolDevice_def sc(1) by (auto elim: outcome_ok)
  have "pr_token ?s \<noteq> ''''"
  proof
    assume "pr_token ?s = ''''"
    then show False using enrolment_effect[OF fetch_answered[OF a]] assms(6) by (auto simp: bearer_def)
  qed
  then have sites: "pr_loadedHubs ?s = all_sites C w1" using s(1,3) sc by simp
  have w2: "world_ok (ae_deployment (cn_api C)) w2" by (rule runs_keep[OF assms(4,3)])
  obtain d co where d: "get_by d_id i (devices (w_db w3)) = Some d" "d_collectorId d = c"
      "d_publicKeyBase64 d = di_publicKeyBase64 identity" "d_revokedAt d = None" "get_by c_id c (collectors (w_db w3)) = Some co"
      "hubs (w_db w3) = hubs (w_db w2)" "collectors (w_db w3) = collectors (w_db w2)"
    by (rule new_device_row[OF new w2 assms(9)])
  have hub: "hub \<in> set (all_sites C w1)" "hd_id hub = h" using find_one_SomeD[OF i(3)] sites sc by auto
  from site_row[OF hub(1) runs_registry[OF assms(4,3)]] obtain row where row: "row \<in> set (hubs (w_db w2))" "h_id row = hd_id hub"
      "h_minWeightKg row = hd_minWeightKg hub" "h_maxWeightKg row = hd_maxWeightKg hub" by blast
  have h: "get_by h_id h (hubs (w_db w3)) = Some row" using hub_by_id[OF w2 row(1)] row(2) hub(2) d(6) by simp
  have p: "pv_collectorId p = c" "pv_hubId p = h" "pv_deviceId p = i" "pv_hubs p = Some (map hub_option (all_sites C w1))"
    using i(4) sc sites by (simp_all add: new_provisioning_def)
  have opts: "find_one (\<lambda>x. ho_id x = h) (map hub_option hs) = map_option hub_option (find_one (\<lambda>x. hd_id x = h) hs)" for hs
    by (induction hs) (auto simp: hub_option_def)
  have found: "find_one (\<lambda>x. ho_id x = h) (map hub_option (all_sites C w1)) = Some (hub_option hub)" using i(3) sites sc opts by simp
  have "exists_where (\<lambda>x. ho_id x = h) (map hub_option (all_sites C w1))"
    using find_one_SomeD[OF found] by (auto simp: exists_where_iff)
  moreover have "length (map hub_option (all_sites C w1)) > 0" using hub(1) by (cases "all_sites C w1") auto
  ultimately have "hubChoices (pv_hubs p) (current_of p) = map hub_option (all_sites C w1)"
    by (simp add: hubChoices_def p current_of_def)
  then have "boundsForHub (hubChoices (pv_hubs p) (current_of p)) (pv_hubId p)
      = \<lparr>minKg = Some (h_minWeightKg row), maxKg = Some (h_maxWeightKg row)\<rparr>"
    by (simp only: p boundsForHub_def found) (simp add: hub_option_def row(3,4))
  moreover have "c_active co" using assms(10) get_by_SomeD[OF d(5)] d(7) by auto
  ultimately show ?thesis using d h p by (auto simp: enrolled_def)
qed

text \<open>C40. An enrolment whose answer is lost can never be completed.  The server has the device, the phone does not know
  it, and whatever the server does afterwards, every further enrolment of the same key, in either app, by
  whatever operator, for whatever collector, fails.\<close>

theorem lost_enrolment_cannot_be_repeated:
  assumes "enrol C identity x (p, (w, bs)) = (p', (w1, bs1))" and "ph_device p = None" and "xc_fate x = AnswerLost" and "w1 \<noteq> w"
    and "world_ok (ae_deployment (cn_api C)) w" and "fresh_ids (xc_ids x) w" and "runs (ae_deployment (cn_api C)) w1 w2"
  shows "ph_device p' = None \<and> ph_secure p' = ph_secure p
    \<and> isl (fst (mobile_enrolDevice C y url t (device_input c l (di_publicKeyBase64 identity)) (w2, bs2)))
    \<and> isl (fst (capture_enrolDevice C y url t (device_input c l (di_publicKeyBase64 identity)) (w2, bs2)))"
proof -
  let ?s = "ph_screen p" and ?key = "di_publicKeyBase64 identity"
  have g: "has_text (es_token ?s)" "has_text (es_collectorId ?s)" "has_text (es_hubId ?s)"
    using assms(1,4) by (auto simp: enrol_def Let_def split: if_splits)
  let ?q = "device_request C POST [''devices''] (device_input (the (es_collectorId ?s)) (label_or ''field phone'' (es_label ?s)) ?key)
    (Some (bearer (the (es_token ?s))))"
  obtain v st1 where call: "mobile_enrolDevice C x (mobile_getBackendUrl (ph_store p)) (the (es_token ?s))
      (device_input (the (es_collectorId ?s)) (label_or ''field phone'' (es_label ?s)) ?key) (w, bs) = (v, st1)" by (rule prod.exhaust)
  have tok: "has_text (Some (the (es_token ?s)))" using g(1) by (auto simp: has_text_def)
  obtain rs where f: "fetch C x (mobile_getBackendUrl (ph_store p)) ?q (w, bs) = rs" by blast
  have none: "fst rs = None" using f assms(3) by (auto simp: fetch_def split: prod.splits)
  then have v: "v = Inl (cn_networkError C)" "st1 = snd rs"
    using call f tok by (cases rs; simp add: mobile_enrolDevice_def postJson_def outcome_of_def)+
  then have out: "p' = alerted ''Enrolment failed'' (cn_networkError C) p" "snd rs = (w1, bs1)"
    using assms(1) g call by (simp_all add: enrol_def Let_def)
  have "rs = (fst rs, (w1, bs1))" using out(2) by (cases rs) simp
  then have "(w1, bs1) = snd (respond (cn_api C) ?q (xc_roll x) (xc_ids x) (w, bs))"
    using fetch_effect[of C x "mobile_getBackendUrl (ph_store p)" ?q "(w, bs)"] f assms(4) by force
  then obtain r where r: "respond (cn_api C) ?q (xc_roll x) (xc_ids x) (w, bs) = (r, w1, bs1)" by (metis prod.collapse)
  from enrolment_effect[OF r] assms(4) obtain d s' where e: "w1 = w\<lparr>w_db := s'\<rparr>" "Registry.enrolDevice (w_clock w) (id_new (xc_ids x))
      \<lparr>ed_collectorId = the (es_collectorId ?s), ed_label = label_or ''field phone'' (es_label ?s), ed_publicKeyBase64 = ?key\<rparr> (w_db w) = Inr (d, s')"
    by auto
  note row = enrolDevice_eq[OF e(2)]
  have run: "runs (ae_deployment (cn_api C)) w w1"
    by (rule respond_cases[OF r]) (auto intro: handle_runs[OF _ assms(6)])
  have "d \<in> set (devices (w_db w1))" using row(1) by (simp add: e(1) insert_row_def)
  then have "?key \<in> d_publicKeyBase64 ` set (devices (w_db w1))" using row(4) by (intro image_eqI[of _ _ d]) simp_all
  then have held: "?key \<in> d_publicKeyBase64 ` set (devices (w_db w2))"
    using runs_registry[OF assms(7) runs_keep[OF run assms(5)]] unfolding registry_kept_def by blast
  have refused: "\<not> new_device_for C y c ?key w2 i w3" for i w3
  proof
    assume "new_device_for C y c ?key w2 i w3"
    then obtain d l s' where "Registry.enrolDevice (w_clock w2) (id_new (xc_ids y)) \<lparr>ed_collectorId = c, ed_label = l, ed_publicKeyBase64 = ?key\<rparr>
        (w_db w2) = Inr (d, s')" unfolding new_device_for_def by blast
    from enrolDevice_eq(7)[OF this] show False using held by (simp add: get_by_None_iff)
  qed
  have "isl (fst (outcome_of C enrolment_refused deviceId_of (fetch C y url (device_request C POST [''devices'']
      (device_input c l ?key) auth) (w2, bs2))))" for auth
  proof (cases "outcome_of C enrolment_refused deviceId_of (fetch C y url (device_request C POST [''devices''] (device_input c l ?key) auth) (w2, bs2))")
    case (fields v w3 bs3)
    then show ?thesis using refused enrolled_by[of C enrolment_refused y url c l ?key auth w2 bs2] by (cases v) auto
  qed
  then show ?thesis using out(1) assms(2) by (simp add: alerted_def mobile_enrolDevice_def capture_enrolDevice_def postJson_def)
qed

theorem lost_enrolment_cannot_be_repeated_witness:
  "\<exists>p' w1 bs1. enrol enrol_client sample_identity (run_exchange AnswerLost) (signed_phone\<lparr>ph_screen := (ph_screen signed_phone)\<lparr>es_collectorId := Some ''c'',
      es_hubId := Some ''h'', es_label := ''phone''\<rparr>\<rparr>, (enrol_world, [])) = (p', (w1, bs1)) \<and> ph_device p' = None
    \<and> (\<forall>y t c l bs2. isl (fst (mobile_enrolDevice enrol_client y ''http://b'' t (device_input c l (di_publicKeyBase64 sample_identity)) (w1, bs2))))"
proof -
  let ?p = "signed_phone\<lparr>ph_screen := (ph_screen signed_phone)\<lparr>es_collectorId := Some ''c'', es_hubId := Some ''h'', es_label := ''phone''\<rparr>\<rparr>"
  obtain s' where e: "enrol enrol_client sample_identity (run_exchange AnswerLost) (?p, (enrol_world, []))
      = (alerted ''Enrolment failed'' ''lost'' ?p, (enrol_world\<lparr>w_db := s'\<rparr>, []))" "s' \<noteq> enrol_db"
    using phone_enrols(2)[OF refl, of "[]"] by blast
  have h: "ph_device ?p = None" "xc_fate (run_exchange AnswerLost) = AnswerLost" "enrol_world\<lparr>w_db := s'\<rparr> \<noteq> enrol_world"
    using e(2) by (auto simp: signed_phone_def first_phone_def run_exchange_def enrol_world_def first_world_def)
  have w: "world_ok (ae_deployment (cn_api enrol_client)) enrol_world" using enrol_world_ok by simp
  note lost = lost_enrolment_cannot_be_repeated[OF e(1) h w run_exchange_fresh rtranclp.rtrancl_refl]
  show ?thesis using e(1) lost by blast
qed

text \<open>The pairing screen forgets the operator.  Whenever the queue is run while a browser is not paired, at the latest
  by the timer after a minute, the screen is drawn anew: what was typed is gone, the lists are hidden again and
  the token with them, so that a click on enrol, if there still were a button, would be refused.\<close>

theorem timer_discards_sign_in:
  assumes "bw_provisioning b = None" and "run_queue lc B True False t l b = (t', l', b')" and "ae_jwtVerify (cn_api C) '''' = None"
  shows "bw_screen b' = fresh_pairing (bw_url b) \<and> bw_provisioning b' = None
    \<and> (\<forall>c h label. bw_provisioning (fst (enrol_clicked C identity x (b'\<lparr>bw_screen := (bw_screen b')\<lparr>pr_collector := c, pr_hub := h,
          pr_label := label\<rparr>\<rparr>, (w, bs)))) = None
      \<and> fst (snd (enrol_clicked C identity x (b'\<lparr>bw_screen := (bw_screen b')\<lparr>pr_collector := c, pr_hub := h, pr_label := label\<rparr>\<rparr>, (w, bs)))) = w)"
proof -
  have b': "bw_screen b' = fresh_pairing (bw_url b)" "bw_provisioning b' = None"
    using assms(1,2) by (auto simp: run_queue_def render_def told_def split: prod.splits)
  have "bw_provisioning (fst (enrol_clicked C identity x (b2, (w, bs)))) = None \<and> fst (snd (enrol_clicked C identity x (b2, (w, bs)))) = w"
    if b2: "b2 = b'\<lparr>bw_screen := (bw_screen b')\<lparr>pr_collector := c, pr_hub := h, pr_label := label\<rparr>\<rparr>" for b2 c h label
  proof -
    let ?q = "device_request C POST [''devices''] (device_input c (label_or ''Field phone'' label) (di_publicKeyBase64 identity)) (Some (bearer ''''))"
    have s: "pr_token (bw_screen b2) = ''''" "pr_collector (bw_screen b2) = c" "pr_label (bw_screen b2) = label" "bw_provisioning b2 = None"
      using b' b2 by (simp_all add: fresh_pairing_def)
    obtain r w1 bs1 where r: "respond (cn_api C) ?q (xc_roll x) (xc_ids x) (w, bs) = (r, w1, bs1)" by (rule prod_cases3)
    have no: "w1 = w" "isl r" using enrolment_effect[OF r] assms(3) by (auto simp: bearer_def)
    obtain v w2 bs2 where call: "capture_enrolDevice C x (capture_backendUrl (bw_url b2)) '''' (device_input c (label_or ''Field phone'' label)
        (di_publicKeyBase64 identity)) (w, bs) = (v, (w2, bs2))" by (rule prod_cases3)
    have "w2 = w" "isl v" using call no r
      by (auto simp: capture_enrolDevice_def fetch_def outcome_of_def isl_def split: fate.splits if_splits)
    then show ?thesis using call s by (auto simp: enrol_clicked_def Let_def render_def told_def isl_def)
  qed
  then show ?thesis using b' by blast
qed

theorem timer_discards_sign_in_witness:
  "\<exists>t' l' b'. run_queue (\<lambda>_ _. 0) sample_backend True False [] (sample_link []) \<lparr>bw_screen = (fresh_pairing None)\<lparr>pr_email := ''a@b.c'', pr_token := ''u'',
      pr_assign := True\<rparr>, bw_url = None, bw_provisioning = None, bw_notice = None\<rparr> = (t', l', b') \<and> pr_token (bw_screen b') = '''' \<and> \<not> pr_assign (bw_screen b')"
proof -
  let ?b = "\<lparr>bw_screen = (fresh_pairing None)\<lparr>pr_email := ''a@b.c'', pr_token := ''u'', pr_assign := True\<rparr>, bw_url = None, bw_provisioning = None,
    bw_notice = None\<rparr>"
  obtain t' l' b' where r: "run_queue (\<lambda>_ _. 0) sample_backend True False [] (sample_link []) ?b = (t', l', b')" by (rule prod_cases3)
  have "ae_jwtVerify (cn_api enrol_client) '''' = None" "bw_provisioning ?b = None" by (simp_all add: enrol_client_def enrol_api_def)
  from timer_discards_sign_in[OF this(2) r this(1)] have "bw_screen b' = fresh_pairing (bw_url ?b)" by blast
  then show ?thesis using r by (simp add: fresh_pairing_def)
qed

end
