(* ===== verification/ServiceWorker.thy ===== *)
theory ServiceWorker
  imports Prelude JsText
begin

text \<open>
  The service worker of the browser app, \<open>apps/capture/public/sw.js\<close>: the caches it keeps and how it
  answers the requests of the app from them and from the network.  The network is a parameter
  of every event (what it answers for a URL now, or that it rejects), so that deployments and lost
  connections lie between events.  Writing to a cache is taken to succeed before the next event.
\<close>

section \<open>Requests, responses and caches\<close>

record sw_request =
  sq_method :: string
  sq_origin :: string
  sq_path :: string
  sq_search :: string
  sq_mode :: string
  sq_destination :: string

record sw_response =
  sr_status :: nat
  sr_body :: string

definition response_ok :: "sw_response \<Rightarrow> bool" where
  "response_ok r = (200 \<le> sr_status r \<and> sr_status r < 300)"

text \<open>\<open>Response.error()\<close>; a handler whose promise rejects is answered alike.\<close>

definition response_error :: sw_response where
  "response_error = \<lparr>sr_status = 0, sr_body = ''''\<rparr>"

text \<open>A cache holds responses by their URL within the origin; the caches are kept in the order they were made.\<close>

type_synonym cache = "(string \<times> sw_response) list"
type_synonym caches = "(string \<times> cache) list"
type_synonym network = "string \<Rightarrow> sw_response option"

definition sw_key :: "sw_request \<Rightarrow> string" where
  "sw_key q = sq_path q @ sq_search q"

definition open_cache :: "string \<Rightarrow> caches \<Rightarrow> caches" where
  "open_cache n s = (if n \<in> set (map fst s) then s else s @ [(n, [])])"

definition cache_put :: "string \<Rightarrow> string \<Rightarrow> sw_response \<Rightarrow> caches \<Rightarrow> caches" where
  "cache_put n k r s = map (\<lambda>(m, c). if m = n then (m, (k, r) # filter (\<lambda>e. fst e \<noteq> k) c) else (m, c)) (open_cache n s)"

fun caches_match :: "string \<Rightarrow> caches \<Rightarrow> sw_response option" where
  "caches_match k [] = None"
| "caches_match k ((_, c) # s) = (case map_of c k of Some r \<Rightarrow> Some r | None \<Rightarrow> caches_match k s)"

section \<open>The events\<close>

definition SW_CACHE :: string where "SW_CACHE = ''proofchain-capture-v3''"

definition SHELL :: "string list" where
  "SHELL = [''/'', ''/index.html'', ''/manifest.webmanifest'', ''/icon.svg'']"

text \<open>\<open>addAll\<close> stores all or nothing; the flag says whether the worker is installed.\<close>

definition sw_install :: "network \<Rightarrow> caches \<Rightarrow> bool \<times> caches" where
  "sw_install net s = (let s1 = open_cache SW_CACHE s in
     if list_all (\<lambda>u. case net u of None \<Rightarrow> False | Some r \<Rightarrow> response_ok r) SHELL
     then (True, foldl (\<lambda>s u. cache_put SW_CACHE u (the (net u)) s) s1 SHELL) else (False, s1))"

definition sw_activate :: "caches \<Rightarrow> caches" where
  "sw_activate s = filter (\<lambda>e. fst e = SW_CACHE) s"

definition isImmutableAsset :: "sw_request \<Rightarrow> bool" where
  "isImmutableAsset q = starts_with ''/assets/'' (sq_path q)"

definition isHtmlRequest :: "sw_request \<Rightarrow> bool" where
  "isHtmlRequest q = (sq_mode q = ''navigate'' \<or> sq_destination q = ''document'' \<or> sq_path q = ''/'' \<or> ends_with ''.html'' (sq_path q))"

text \<open>\<open>None\<close>: the worker leaves the request to the browser.\<close>

definition sw_handles :: "string \<Rightarrow> sw_request \<Rightarrow> bool" where
  "sw_handles origin q = (sq_method q = ''GET'' \<and> sq_origin q = origin)"

definition put_ok :: "string \<Rightarrow> sw_response \<Rightarrow> caches \<Rightarrow> caches" where
  "put_ok k r s = (if response_ok r then cache_put SW_CACHE k r s else s)"

definition sw_fetch :: "string \<Rightarrow> network \<Rightarrow> sw_request \<Rightarrow> caches \<Rightarrow> sw_response option \<times> caches" where
  "sw_fetch origin net q s = (let k = sw_key q; cached = caches_match k s in
     if \<not> sw_handles origin q then (None, s)
     else if isHtmlRequest q then (case net k of
         Some r \<Rightarrow> (Some r, cache_put SW_CACHE ''/index.html'' r s)
       | None \<Rightarrow> (Some (with_default (caches_match ''/index.html'' s) response_error), s))
     else if isImmutableAsset q then (case cached of
         Some c \<Rightarrow> (Some c, s)
       | None \<Rightarrow> (case net k of
             Some r \<Rightarrow> (Some r, put_ok k r s)
           | None \<Rightarrow> (Some response_error, s)))
     else (case net k of
         Some r \<Rightarrow> (Some (with_default cached r), put_ok k r s)
       | None \<Rightarrow> (Some (with_default cached response_error), s)))"

text \<open>The requests of a stretch of time, each with the network it met.\<close>

fun sw_run :: "string \<Rightarrow> (network \<times> sw_request) list \<Rightarrow> caches \<Rightarrow> caches" where
  "sw_run origin [] s = s"
| "sw_run origin ((net, q) # evs) s = sw_run origin evs (snd (sw_fetch origin net q s))"

section \<open>The one cache of an active worker\<close>

text \<open>A request as the browser makes it: the search part is empty or starts with a question mark, the path has none.\<close>

definition proper_request :: "sw_request \<Rightarrow> bool" where
  "proper_request q = (CHR ''?'' \<notin> set (sq_path q) \<and> (sq_search q = '''' \<or> hd (sq_search q) = CHR ''?''))"

lemma put_one: "cache_put SW_CACHE k r [(SW_CACHE, c)] = [(SW_CACHE, (k, r) # filter (\<lambda>e. fst e \<noteq> k) c)]"
  by (simp add: cache_put_def open_cache_def)

lemma match_one: "caches_match k [(n, c)] = map_of c k"
  by (simp split: option.splits)

declare caches_match.simps(2) [simp del]

lemma map_of_filter_ne: "map_of (filter (\<lambda>e. fst e \<noteq> k) c) j = (if j = k then None else map_of c j)"
  by (induction c) auto

lemma match_put_one: "caches_match j (cache_put SW_CACHE k r [(SW_CACHE, c)]) = (if j = k then Some r else map_of c j)"
  by (simp only: put_one match_one) (simp add: map_of_filter_ne)

lemma put_ok_one: "\<exists>c'. put_ok k r [(SW_CACHE, c)] = [(SW_CACHE, c')]"
  by (simp add: put_ok_def put_one)

lemma match_put_ok_one: "caches_match j (put_ok k r [(SW_CACHE, c)]) = (if j = k \<and> response_ok r then Some r else map_of c j)"
  by (simp add: put_ok_def match_put_one match_one)

lemma fetch_one: "\<exists>c'. snd (sw_fetch origin net q [(SW_CACHE, c)]) = [(SW_CACHE, c')]"
  using put_ok_one by (simp add: sw_fetch_def Let_def put_one split: option.splits)

lemma put_names: "map fst (cache_put n k r s) = map fst (open_cache n s)"
  by (auto simp: cache_put_def)

lemma put_names_open: "n \<in> set (map fst s) \<Longrightarrow> map fst (cache_put n k r s) = map fst s"
  by (simp add: put_names open_cache_def)

lemma open_names: "distinct (map fst s) \<Longrightarrow> distinct (map fst (open_cache n s)) \<and> n \<in> set (map fst (open_cache n s))"
  by (auto simp: open_cache_def)

lemma filter_none: "n \<notin> fst ` set s \<Longrightarrow> filter (\<lambda>e. fst e = n) s = []"
  by (induction s) auto

lemma filter_one: "distinct (map fst s) \<Longrightarrow> n \<in> set (map fst s) \<Longrightarrow> \<exists>c. filter (\<lambda>e. fst e = n) s = [(n, c)]"
proof (induction s)
  case (Cons e s)
  then show ?case by (cases e; cases "fst e = n") (auto simp: filter_none)
qed simp

lemma activated_one:
  "distinct (map fst s) \<Longrightarrow> SW_CACHE \<in> set (map fst s) \<Longrightarrow> \<exists>c. sw_activate s = [(SW_CACHE, c)]"
  unfolding sw_activate_def by (rule filter_one)

lemma filter_map_names: "(\<And>e. fst (f e) = fst e) \<Longrightarrow> filter (\<lambda>e. fst e = n) (map f s) = map f (filter (\<lambda>e. fst e = n) s)"
  by (induction s) auto

lemma activate_put:
  assumes "distinct (map fst s)" and "SW_CACHE \<in> set (map fst s)"
  shows "sw_activate (cache_put SW_CACHE k r s) = cache_put SW_CACHE k r (sw_activate s)"
proof -
  obtain c where c: "sw_activate s = [(SW_CACHE, c)]" using activated_one[OF assms] by blast
  have "open_cache SW_CACHE s = s" using assms(2) by (simp add: open_cache_def)
  moreover have "open_cache SW_CACHE (sw_activate s) = sw_activate s" unfolding c by (simp add: open_cache_def)
  ultimately show ?thesis unfolding cache_put_def sw_activate_def by (simp add: filter_map_names split: prod.splits)
qed

lemma match_activated_put:
  assumes "distinct (map fst s)" and "SW_CACHE \<in> set (map fst s)"
  shows "caches_match j (sw_activate (cache_put SW_CACHE k r s)) = (if j = k then Some r else caches_match j (sw_activate s))"
proof -
  obtain c where c: "sw_activate s = [(SW_CACHE, c)]" using activated_one[OF assms] by blast
  show ?thesis unfolding activate_put[OF assms] c match_put_one match_one by simp
qed

text \<open>The install, page by page: the names of the caches stay, each page is what the network answered.\<close>

definition put_page :: "network \<Rightarrow> caches \<Rightarrow> string \<Rightarrow> caches" where
  "put_page net s u = cache_put SW_CACHE u (the (net u)) s"

lemma put_pages_names: "SW_CACHE \<in> set (map fst t) \<Longrightarrow> map fst (foldl (put_page net) t us) = map fst t"
proof (induction us arbitrary: t)
  case (Cons u us)
  have n: "map fst (put_page net t u) = map fst t" unfolding put_page_def by (rule put_names_open[OF Cons.prems])
  show ?case using Cons.IH[of "put_page net t u"] Cons.prems unfolding n by simp
qed simp

lemma put_pages_match:
  "distinct (map fst t) \<Longrightarrow> SW_CACHE \<in> set (map fst t) \<Longrightarrow>
   caches_match k (sw_activate (foldl (put_page net) t us)) = (if k \<in> set us then Some (the (net k)) else caches_match k (sw_activate t))"
proof (induction us arbitrary: t)
  case (Cons u us)
  have n: "map fst (put_page net t u) = map fst t" unfolding put_page_def by (rule put_names_open[OF Cons.prems(2)])
  have "caches_match k (sw_activate (put_page net t u)) = (if k = u then Some (the (net u)) else caches_match k (sw_activate t))"
    unfolding put_page_def by (rule match_activated_put[OF Cons.prems])
  then show ?case using Cons.IH[of "put_page net t u"] Cons.prems unfolding n by auto
qed simp

text \<open>An installed and activated worker has one cache, with the page and the icons of the install.\<close>

lemma installed_cache:
  assumes "sw_install net s = (True, s')" and "distinct (map fst s)"
  obtains c where "sw_activate s' = [(SW_CACHE, c)]" "\<And>k. k \<in> set SHELL \<Longrightarrow> map_of c k = net k"
    "\<And>k. k \<in> set SHELL \<Longrightarrow> \<exists>r. net k = Some r \<and> response_ok r"
    "\<And>k. SW_CACHE \<notin> set (map fst s) \<Longrightarrow> k \<notin> set SHELL \<Longrightarrow> map_of c k = None"
proof -
  let ?s = "open_cache SW_CACHE s"
  have all: "\<exists>r. net u = Some r \<and> response_ok r" if "u \<in> set SHELL" for u
    using assms(1) that by (auto simp: sw_install_def Let_def list_all_iff split: if_splits option.splits)
  have s': "s' = foldl (put_page net) ?s SHELL"
    using assms(1) unfolding put_page_def by (auto simp: sw_install_def Let_def split: if_splits)
  have o: "distinct (map fst ?s)" "SW_CACHE \<in> set (map fst ?s)" using open_names[OF assms(2)] by auto
  obtain c where c: "sw_activate s' = [(SW_CACHE, c)]"
    using activated_one[of s'] o unfolding s' put_pages_names[OF o(2)] by auto
  have "map_of c k = net k" if "k \<in> set SHELL" for k
    using put_pages_match[OF o, of k net SHELL] that all[OF that] unfolding s'[symmetric] c match_one by auto
  moreover have "map_of c k = None" if "SW_CACHE \<notin> set (map fst s)" "k \<notin> set SHELL" for k
  proof -
    have "sw_activate ?s = [(SW_CACHE, [])]"
      using that(1) filter_none[of SW_CACHE s] by (simp add: sw_activate_def open_cache_def)
    then show ?thesis using put_pages_match[OF o, of k net SHELL] that(2) unfolding s'[symmetric] c match_one by (simp add: match_one)
  qed
  ultimately show ?thesis using that[OF c] all by blast
qed

section \<open>Offline\<close>

text \<open>The page an offline start must show: the last one a handled page request got from the network, else the installed one.\<close>

definition page_answer :: "string \<Rightarrow> network \<Rightarrow> sw_request \<Rightarrow> sw_response option" where
  "page_answer origin net q = (if sw_handles origin q \<and> isHtmlRequest q then net (sw_key q) else None)"

fun last_page :: "string \<Rightarrow> (network \<times> sw_request) list \<Rightarrow> sw_response \<Rightarrow> sw_response" where
  "last_page origin [] d = d"
| "last_page origin ((net, q) # evs) d = last_page origin evs (with_default (page_answer origin net q) d)"

lemma page_key: "proper_request q \<Longrightarrow> sw_key q = ''/index.html'' \<Longrightarrow> isHtmlRequest q"
proof -
  assume p: "proper_request q" and k: "sw_key q = ''/index.html''"
  have "CHR ''?'' \<notin> set (sw_key q)" unfolding k by simp
  then have "sq_search q = ''''" using p by (cases "sq_search q") (auto simp: proper_request_def sw_key_def)
  then have "sq_path q = ''/index.html''" using k by (simp add: sw_key_def)
  then show "isHtmlRequest q" by (simp add: isHtmlRequest_def ends_with_def)
qed

lemma fetch_page_one:
  assumes "proper_request q"
  shows "caches_match ''/index.html'' (snd (sw_fetch origin net q [(SW_CACHE, c)])) =
    (case page_answer origin net q of Some r \<Rightarrow> Some r | None \<Rightarrow> map_of c ''/index.html'')"
proof (cases "sw_handles origin q \<and> isHtmlRequest q")
  case True
  then show ?thesis by (cases "net (sw_key q)") (simp_all add: sw_fetch_def Let_def page_answer_def match_one match_put_one)
next
  case False
  show ?thesis
  proof (cases "sw_handles origin q")
    case True
    then have n: "\<not> isHtmlRequest q" using False by simp
    then have "sw_key q \<noteq> ''/index.html''" using page_key[OF assms] by blast
    then show ?thesis using n True
      by (auto simp: sw_fetch_def Let_def page_answer_def match_one match_put_ok_one split: option.splits)
  next
    case False
    then show ?thesis by (simp add: sw_fetch_def Let_def page_answer_def match_one)
  qed
qed

lemma run_page_one:
  assumes "\<forall>e \<in> set evs. proper_request (snd e)" and "map_of c ''/index.html'' = Some d"
  shows "\<exists>c'. sw_run origin evs [(SW_CACHE, c)] = [(SW_CACHE, c')] \<and> map_of c' ''/index.html'' = Some (last_page origin evs d)"
  using assms
proof (induction evs arbitrary: c d)
  case (Cons e evs)
  obtain net q where e: "e = (net, q)" by (cases e)
  obtain c' where c': "snd (sw_fetch origin net q [(SW_CACHE, c)]) = [(SW_CACHE, c')]" using fetch_one by blast
  have "map_of c' ''/index.html'' = Some (with_default (page_answer origin net q) d)"
    using fetch_page_one[of q origin net c] Cons.prems unfolding c' match_one e by (simp split: option.splits)
  then show ?case using Cons.IH[of c'] Cons.prems(1) unfolding e by (simp add: c')
qed simp

text \<open>C33. Once the worker is installed and active, a start of the app without a network is answered, whatever requests came
  between: by the last page a page request got from the network, whatever its status was, and by the installed page if there was none.\<close>

theorem offline_opens_last_page:
  assumes "sw_install net s = (True, s')" and "distinct (map fst s)"
    and "\<forall>e \<in> set evs. proper_request (snd e)"
    and "sw_handles origin nav" and "isHtmlRequest nav" and "off (sw_key nav) = None"
  shows "fst (sw_fetch origin off nav (sw_run origin evs (sw_activate s'))) =
    Some (last_page origin evs (the (net ''/index.html'')))"
proof -
  obtain c where c: "sw_activate s' = [(SW_CACHE, c)]" and k: "\<And>k. k \<in> set SHELL \<Longrightarrow> map_of c k = net k"
    and ok: "\<And>k. k \<in> set SHELL \<Longrightarrow> \<exists>r. net k = Some r \<and> response_ok r"
    using installed_cache[OF assms(1,2)] by metis
  have i: "''/index.html'' \<in> set SHELL" by (simp add: SHELL_def)
  obtain d where d: "net ''/index.html'' = Some d" using ok[OF i] by blast
  obtain c' where r: "sw_run origin evs [(SW_CACHE, c)] = [(SW_CACHE, c')]"
    and p: "map_of c' ''/index.html'' = Some (last_page origin evs d)"
    using run_page_one[OF assms(3), of c d] k[OF i] d by auto
  show ?thesis using assms(4-6) by (simp add: sw_fetch_def Let_def c r match_one p d)
qed

text \<open>A deployment behind a failing proxy: the phone opens the app once while the answer is a 502, then loses its signal.\<close>

definition sample_net :: "network" where
  "sample_net u = Some \<lparr>sr_status = 200, sr_body = ''app''\<rparr>"

definition gateway_down :: "network" where
  "gateway_down u = Some \<lparr>sr_status = 502, sr_body = ''bad gateway''\<rparr>"

definition sample_start :: sw_request where
  "sample_start = \<lparr>sq_method = ''GET'', sq_origin = ''https://c'', sq_path = ''/'', sq_search = '''',
     sq_mode = ''navigate'', sq_destination = ''document''\<rparr>"

lemma offline_opens_last_page_witness:
  "fst (sw_fetch ''https://c'' Map.empty sample_start (sw_run ''https://c'' [(gateway_down, sample_start)]
     (sw_activate (snd (sw_install sample_net []))))) = Some \<lparr>sr_status = 502, sr_body = ''bad gateway''\<rparr>"
proof -
  have i: "sw_install sample_net [] = (True, snd (sw_install sample_net []))"
    by (simp add: sw_install_def Let_def SHELL_def sample_net_def response_ok_def)
  have h: "sw_handles ''https://c'' sample_start" "isHtmlRequest sample_start" "proper_request sample_start"
    by (simp_all add: sw_handles_def isHtmlRequest_def proper_request_def sample_start_def)
  show ?thesis
    using offline_opens_last_page[OF i, of "[(gateway_down, sample_start)]" "''https://c''" sample_start Map.empty] h
    by (simp add: page_answer_def gateway_down_def)
qed

section \<open>Assets\<close>

lemma fetch_other_one:
  assumes "k \<noteq> ''/index.html''" and "map_of c' k = Some r"
    and "snd (sw_fetch origin net q [(SW_CACHE, c)]) = [(SW_CACHE, c')]"
  shows "map_of c k = Some r \<or> sw_key q = k \<and> net k = Some r \<and> response_ok r"
proof -
  have "caches_match k (snd (sw_fetch origin net q [(SW_CACHE, c)])) = Some r" unfolding assms(3) match_one by (rule assms(2))
  then show ?thesis using assms(1)
    by (auto simp: sw_fetch_def Let_def match_one match_put_one match_put_ok_one split: option.splits if_splits)
qed

lemma run_other_one:
  assumes "k \<noteq> ''/index.html''"
  shows "\<exists>c'. sw_run origin evs [(SW_CACHE, c)] = [(SW_CACHE, c')] \<and>
    (\<forall>r. map_of c' k = Some r \<longrightarrow> map_of c k = Some r \<or> (\<exists>(net, q) \<in> set evs. sw_key q = k \<and> net k = Some r \<and> response_ok r))"
proof (induction evs arbitrary: c)
  case (Cons e evs)
  obtain net q where e: "e = (net, q)" by (cases e)
  obtain c1 where c1: "snd (sw_fetch origin net q [(SW_CACHE, c)]) = [(SW_CACHE, c1)]" using fetch_one by blast
  note step = fetch_other_one[OF assms _ c1]
  show ?case using Cons.IH[of c1] step unfolding e by (fastforce simp: c1)
qed simp

text \<open>A missing asset is never answered with a page or an earlier failure: what is returned is the network's own
  answer, a success it once gave for the same URL, or the error of a lost connection.\<close>

lemma asset_is_its_own_answer:
  assumes "sw_install net0 s = (True, s')" and "distinct (map fst s)" and "SW_CACHE \<notin> set (map fst s)"
    and "isImmutableAsset q" and "\<not> isHtmlRequest q"
    and "fst (sw_fetch origin net q (sw_run origin evs (sw_activate s'))) = Some r"
  shows "net (sw_key q) = Some r \<or> net (sw_key q) = None \<and> r = response_error \<or>
    (\<exists>(net', q') \<in> set evs. sw_key q' = sw_key q \<and> net' (sw_key q) = Some r \<and> response_ok r)"
proof -
  obtain c where c: "sw_activate s' = [(SW_CACHE, c)]"
    and n: "\<And>k. SW_CACHE \<notin> set (map fst s) \<Longrightarrow> k \<notin> set SHELL \<Longrightarrow> map_of c k = None"
    using installed_cache[OF assms(1,2)] by metis
  have a: "take 8 (sq_path q) = ''/assets/''" using assms(4) by (simp add: isImmutableAsset_def starts_with_def eval_nat_numeral)
  have "length (take 8 (sq_path q)) = 8" unfolding a by simp
  then have "8 \<le> length (sq_path q)" by (simp add: min_def split: if_splits)
  then have "take 8 (sw_key q) = ''/assets/''" using a by (simp add: sw_key_def)
  then have k: "sw_key q \<noteq> ''/index.html''" "sw_key q \<notin> set SHELL" by (auto simp: SHELL_def)
  obtain c' where r: "sw_run origin evs [(SW_CACHE, c)] = [(SW_CACHE, c')]"
    and o: "\<And>r. map_of c' (sw_key q) = Some r \<Longrightarrow> \<exists>(net, q') \<in> set evs. sw_key q' = sw_key q \<and> net (sw_key q) = Some r \<and> response_ok r"
    using run_other_one[OF k(1), of origin evs c] n[OF assms(3) k(2)] by auto
  show ?thesis using assms(4-6) o
    by (auto simp: sw_fetch_def Let_def c r match_one split: option.splits if_splits)
qed

text \<open>A write to the server, and any request to another origin, never touches a cache.\<close>

lemma writes_pass_through: "\<not> sw_handles origin q \<Longrightarrow> sw_fetch origin net q s = (None, s)"
  by (simp add: sw_fetch_def)

end
