(* ===== verification/DashboardClient.thy ===== *)
theory DashboardClient
  imports Enrol
begin

text \<open>
  What the pages of the dashboard share: the server-side client of the backend with the session
  cookie (\<open>apps/dashboard/src/lib/api.ts\<close>), signing in (\<open>app/login/page.tsx\<close>), the texts of
  \<open>lib/format.ts\<close>, and the form data, redirects and query strings that server actions use.
  Dashes and ellipses of the pages are spelled in ASCII.
\<close>

section \<open>Texts in a URL\<close>

text \<open>\<open>encodeURIComponent\<close>: every byte of the UTF-8 of a character that is not unreserved is escaped.\<close>

definition unreserved :: "char \<Rightarrow> bool" where
  "unreserved c = (is_upper c \<or> is_lower c \<or> is_digit c
     \<or> c \<in> {CHR ''-'', CHR ''_'', CHR ''.'', CHR ''!'', CHR ''~'', CHR ''*'', CHR 0x27, CHR ''('', CHR '')''})"

definition upper_hex_digit :: "nat \<Rightarrow> char" where
  "upper_hex_digit n = (if n < 10 then char_of (48 + n) else char_of (55 + n))"

definition percent_byte :: "8 word \<Rightarrow> string" where
  "percent_byte b = [CHR ''%'', upper_hex_digit (unat b div 16), upper_hex_digit (unat b mod 16)]"

definition encode_char :: "char \<Rightarrow> string" where
  "encode_char c = (if unreserved c then [c] else concat (map percent_byte (utf8_char c)))"

definition encodeURIComponent :: "string \<Rightarrow> string" where
  "encodeURIComponent s = concat (map encode_char s)"

text \<open>
  The bytes of a text with escapes.  A percent sign without two digits is an error for
  \<open>decodeURIComponent\<close> (strict) and stands for itself in a query.
\<close>

fun percent_bytes :: "bool \<Rightarrow> string \<Rightarrow> bytes option" where
  "percent_bytes strict [] = Some []"
| "percent_bytes strict (c # cs) = (if c = CHR ''%'' then
      (case cs of
         a # b # ds \<Rightarrow> (case (hex_value a, hex_value b) of
             (Some x, Some y) \<Rightarrow> map_option (\<lambda>r. of_nat (16 * x + y) # r) (percent_bytes strict ds)
           | _ \<Rightarrow> if strict then None else map_option (\<lambda>r. utf8_char c @ r) (percent_bytes strict (a # b # ds)))
       | _ \<Rightarrow> if strict then None else map_option (\<lambda>r. utf8_char c @ r) (percent_bytes strict cs))
    else map_option (\<lambda>r. utf8_char c @ r) (percent_bytes strict cs))"

text \<open>Characters of one and two bytes; others are outside the model.\<close>

fun utf8_read :: "bytes \<Rightarrow> string option" where
  "utf8_read [] = Some []"
| "utf8_read (b # bs) = (let n = unat b in
     if n < 128 then map_option ((#) (char_of n)) (utf8_read bs)
     else (case bs of
         c # cs \<Rightarrow> if 194 \<le> n \<and> n < 196 \<and> 128 \<le> unat c \<and> unat c < 192
           then map_option ((#) (char_of (64 * (n - 192) + (unat c - 128)))) (utf8_read cs) else None
       | [] \<Rightarrow> None))"

definition decodeURIComponent :: "string \<Rightarrow> string option" where
  "decodeURIComponent s = Option.bind (percent_bytes True s) utf8_read"

text \<open>A parameter of the query of a URL, as a page is given it.\<close>

definition query_text :: "string \<Rightarrow> string option" where
  "query_text s = Option.bind (percent_bytes False (map (\<lambda>c. if c = CHR ''+'' then CHR '' '' else c) s)) utf8_read"

definition query_pairs :: "string \<Rightarrow> (string \<times> string) list" where
  "query_pairs url = (case dropWhile (\<lambda>c. c \<noteq> CHR ''?'') url of
      [] \<Rightarrow> []
    | _ # q \<Rightarrow> map (\<lambda>p. (takeWhile (\<lambda>c. c \<noteq> CHR ''='') p, drop 1 (dropWhile (\<lambda>c. c \<noteq> CHR ''='') p)))
        (split_on (\<lambda>c. c = CHR ''&'') q))"

definition search_param :: "string \<Rightarrow> string \<Rightarrow> string option" where
  "search_param k url = Option.bind (map_of (query_pairs url) k) query_text"

lemma hex_value_upper [simp]: "n < 16 \<Longrightarrow> hex_value (upper_hex_digit n) = Some n"
  by (auto simp: upper_hex_digit_def hex_value_def)

lemma utf8_read_char [simp]: "utf8_read (utf8_char c @ r) = map_option ((#) c) (utf8_read r)"
proof -
  define n where "n = (of_char c :: nat)"
  have n: "n < 256" and c: "c = char_of n" by (simp_all add: n_def)
  show ?thesis
  proof (cases "n < 128")
    case True
    then show ?thesis using c by (simp add: utf8_char_def n_def[symmetric] Let_def)
  next
    case False
    then have b: "192 + n div 64 < 256" "128 + n mod 64 < 256" "194 \<le> 192 + n div 64" "192 + n div 64 < 196" "n mod 64 < 64"
      using n by auto
    have u: "unat (of_nat (192 + n div 64) :: 8 word) = 192 + n div 64" "unat (of_nat (128 + n mod 64) :: 8 word) = 128 + n mod 64"
      using b by (simp_all only: unat_byte)
    have "utf8_char c = [of_nat (192 + n div 64), of_nat (128 + n mod 64)]" using False by (simp add: utf8_char_def n_def[symmetric] Let_def)
    moreover have "64 * (192 + n div 64 - 192) + (128 + n mod 64 - 128) = n" by simp
    ultimately show ?thesis using b c u by (simp del: of_nat_add)
  qed
qed

lemma utf8_read_utf8 [simp]: "utf8_read (utf8 s) = Some s"
proof (induction s)
  case (Cons c s)
  have "utf8 (c # s) = utf8_char c @ utf8 s" by (simp add: utf8_def)
  then show ?case using Cons by simp
qed (simp add: utf8_def)

lemma percent_byte_read: "percent_bytes strict (percent_byte b @ r) = map_option ((#) b) (percent_bytes strict r)"
proof -
  have "unat b < 256" using unsigned_less[of b] by simp
  then have h: "unat b div 16 < 16" "unat b mod 16 < 16" by (simp_all add: less_mult_imp_div_less)
  have "of_nat (16 * (unat b div 16) + unat b mod 16) = b" by simp
  then show ?thesis using h by (simp add: percent_byte_def del: of_nat_add of_nat_mult)
qed

lemma percent_bytes_escaped:
  "percent_bytes strict (concat (map percent_byte bs) @ r) = map_option (\<lambda>x. bs @ x) (percent_bytes strict r)"
  by (induction bs) (simp_all add: percent_byte_read option.map_comp comp_def option.map_ident)

lemma unreserved_plain: "unreserved c \<Longrightarrow> c \<noteq> CHR ''%'' \<and> c \<noteq> CHR ''+'' \<and> c \<noteq> CHR ''&'' \<and> c \<noteq> CHR ''=''"
  by (auto simp: unreserved_def is_upper_def is_lower_def is_digit_def)

lemma encoded_read: "percent_bytes strict (encodeURIComponent s) = Some (utf8 s)"
proof (induction s)
  case (Cons c s)
  have "encodeURIComponent (c # s) = encode_char c @ encodeURIComponent s" by (simp add: encodeURIComponent_def)
  moreover have "utf8 (c # s) = utf8_char c @ utf8 s" by (simp add: utf8_def)
  ultimately show ?case using Cons unreserved_plain[of c]
    by (cases "unreserved c") (simp_all add: encode_char_def percent_bytes_escaped)
qed (simp add: encodeURIComponent_def utf8_def)

lemma escape_chars: "x \<in> set (percent_byte b) \<Longrightarrow> x = CHR ''%'' \<or> is_upper x \<or> is_digit x"
proof -
  have "unat b < 256" using unsigned_less[of b] by simp
  then have h: "unat b div 16 < 16" "unat b mod 16 < 16" by (simp_all add: less_mult_imp_div_less)
  have "is_upper (upper_hex_digit n) \<or> is_digit (upper_hex_digit n)" if "n < 16" for n
    using that by (auto simp: upper_hex_digit_def is_upper_def is_digit_def)
  from this[OF h(1)] this[OF h(2)] show "x \<in> set (percent_byte b) \<Longrightarrow> x = CHR ''%'' \<or> is_upper x \<or> is_digit x"
    by (auto simp: percent_byte_def)
qed

lemma encoded_plain: "x \<in> set (encodeURIComponent s) \<Longrightarrow> x \<noteq> CHR ''+'' \<and> x \<noteq> CHR ''&'' \<and> x \<noteq> CHR ''=''"
  using unreserved_plain escape_chars
  by (fastforce simp: encodeURIComponent_def encode_char_def is_upper_def is_digit_def split: if_splits)

text \<open>A text put into a URL comes out again, and decoding it by hand gives it too.\<close>

lemma decode_encode [simp]: "decodeURIComponent (encodeURIComponent s) = Some s"
  by (simp add: decodeURIComponent_def encoded_read)

lemma search_param_encoded:
  assumes "CHR ''?'' \<notin> set path" and "CHR ''='' \<notin> set k" and "CHR ''&'' \<notin> set k"
  shows "search_param k (path @ CHR ''?'' # k @ CHR ''='' # encodeURIComponent s) = Some s"
proof -
  let ?e = "encodeURIComponent s"
  have "dropWhile (\<lambda>c. c \<noteq> CHR ''?'') (path @ CHR ''?'' # k @ CHR ''='' # ?e) = CHR ''?'' # k @ CHR ''='' # ?e"
    using assms(1) by (subst dropWhile_append2) auto
  moreover have "split_on (\<lambda>c. c = CHR ''&'') (k @ CHR ''='' # ?e) = [k @ CHR ''='' # ?e]"
    using assms(3) encoded_plain by (intro split_on_plain) auto
  moreover have "takeWhile (\<lambda>c. c \<noteq> CHR ''='') (k @ CHR ''='' # ?e) = k" "dropWhile (\<lambda>c. c \<noteq> CHR ''='') (k @ CHR ''='' # ?e) = CHR ''='' # ?e"
    using assms(2) by (subst takeWhile_append2 dropWhile_append2; auto)+
  ultimately have "map_of (query_pairs (path @ CHR ''?'' # k @ CHR ''='' # ?e)) k = Some ?e" by (simp add: query_pairs_def)
  moreover have "map (\<lambda>c. if c = CHR ''+'' then CHR '' '' else c) ?e = ?e"
    using encoded_plain by (intro map_idI) auto
  ultimately show ?thesis by (simp add: search_param_def query_text_def encoded_read)
qed

section \<open>The client of the backend\<close>

text \<open>
  The error response of a request: its status, its text, and what parsing the text as JSON gives.
  The dashboard runs beside a backend; what the exception filter of the framework writes for an
  exception, and what a gateway in between writes for a refusal of its own, are parameters, as is
  the printing of numbers and dates in the locale of the server.  The last two fields are \<open>BACKEND_URL\<close>
  and the address that browsers reach the backend at, if it is set.
\<close>

record failed_reply =
  rp_status :: nat
  rp_text :: string
  rp_json :: "json option"

record dashboard =
  da_api :: api_env
  da_ip :: "string option"
  da_filter :: "exception \<Rightarrow> string \<times> json option"
  da_gateway :: "nat \<Rightarrow> string \<times> json option"
  da_number :: "nat \<Rightarrow> jsnum \<Rightarrow> string"
  da_dateText :: "string \<Rightarrow> string"
  da_secure :: bool
  da_backendUrl :: string
  da_publicUrl :: "string option"

datatype failure = ApiError nat "string option" | Unreachable

fun only_strings :: "json list \<Rightarrow> string list" where
  "only_strings [] = []"
| "only_strings (JStr s # vs) = s # only_strings vs"
| "only_strings (_ # vs) = only_strings vs"

definition detailOf :: "failed_reply \<Rightarrow> string option" where
  "detailOf r = (case rp_json r of
      None \<Rightarrow> None
    | Some body \<Rightarrow> (case jfield ''message'' body of
        JStr m \<Rightarrow> Some m
      | JArr ms \<Rightarrow> Some (join_with ''; '' (only_strings ms))
      | _ \<Rightarrow> None))"

definition error_reply :: "dashboard \<Rightarrow> exception \<Rightarrow> failed_reply" where
  "error_reply D e = (case da_filter D e of (t, j) \<Rightarrow> \<lparr>rp_status = http_status e, rp_text = t, rp_json = j\<rparr>)"

definition gateway_reply :: "dashboard \<Rightarrow> nat \<Rightarrow> failed_reply" where
  "gateway_reply D status = (case da_gateway D status of (t, j) \<Rightarrow> \<lparr>rp_status = status, rp_text = t, rp_json = j\<rparr>)"

text \<open>One exchange with the backend; \<open>None\<close> when \<open>fetch\<close> rejects.  An empty token is sent as none.\<close>

definition dashboard_request :: "dashboard \<Rightarrow> verb \<Rightarrow> string list \<Rightarrow> json \<Rightarrow> json \<Rightarrow> string option \<Rightarrow> http_request" where
  "dashboard_request D v path query body token = \<lparr>hq_verb = v, hq_path = path, hq_query = query, hq_body = body, hq_bytes = [],
     hq_authorization = (if has_text token then map_option bearer token else None), hq_workerToken = None,
     hq_ifNoneMatch = None, hq_ip = da_ip D\<rparr>"

definition send :: "dashboard \<Rightarrow> exchange \<Rightarrow> http_request \<Rightarrow> server \<Rightarrow> (failed_reply + answer) option \<times> server" where
  "send D x q st = (case respond (da_api D) q (xc_roll x) (xc_ids x) st of (r, st') \<Rightarrow>
     (case xc_fate x of
         RequestLost \<Rightarrow> (None, st)
       | Refused status \<Rightarrow> (Some (Inl (gateway_reply D status)), st)
       | AnswerLost \<Rightarrow> (None, st')
       | Delivered \<Rightarrow> (Some (case r of Inl e \<Rightarrow> Inl (error_reply D e) | Inr a \<Rightarrow> Inr a), st')))"

definition api_request :: "dashboard \<Rightarrow> exchange \<Rightarrow> verb \<Rightarrow> string list \<Rightarrow> json \<Rightarrow> json \<Rightarrow> string option \<Rightarrow> server
    \<Rightarrow> (failure + answer) \<times> server" where
  "api_request D x v path query body token st = (case send D x (dashboard_request D v path query body token) st of
      (None, st') \<Rightarrow> (Inl Unreachable, st')
    | (Some (Inl r), st') \<Rightarrow> (Inl (ApiError (rp_status r) (detailOf r)), st')
    | (Some (Inr a), st') \<Rightarrow> (Inr a, st'))"

text \<open>The calls the pages make, by their names in \<open>api\<close>.\<close>

type_synonym call_result = "(failure + answer) \<times> server"

definition api_get :: "string list \<Rightarrow> dashboard \<Rightarrow> exchange \<Rightarrow> string option \<Rightarrow> server \<Rightarrow> call_result" where
  "api_get path D x token st = api_request D x GET path (JObj []) JUndefined token st"

definition api_anchorHealth :: "dashboard \<Rightarrow> exchange \<Rightarrow> string option \<Rightarrow> server \<Rightarrow> call_result" where
  "api_anchorHealth = api_get [''batches'', ''anchor-health'']"

definition api_me :: "dashboard \<Rightarrow> exchange \<Rightarrow> string option \<Rightarrow> server \<Rightarrow> call_result" where
  "api_me = api_get [''auth'', ''me'']"

definition api_materials :: "dashboard \<Rightarrow> exchange \<Rightarrow> string option \<Rightarrow> server \<Rightarrow> call_result" where
  "api_materials = api_get [''materials'']"

definition api_createMaterial :: "json \<Rightarrow> dashboard \<Rightarrow> exchange \<Rightarrow> string option \<Rightarrow> server \<Rightarrow> call_result" where
  "api_createMaterial body D x token st = api_request D x POST [''materials''] (JObj []) body token st"

definition api_updateMaterial :: "string \<Rightarrow> json \<Rightarrow> dashboard \<Rightarrow> exchange \<Rightarrow> string option \<Rightarrow> server \<Rightarrow> call_result" where
  "api_updateMaterial code body D x token st = api_request D x PATCH [''materials'', code] (JObj []) body token st"

definition api_deleteMaterial :: "string \<Rightarrow> dashboard \<Rightarrow> exchange \<Rightarrow> string option \<Rightarrow> server \<Rightarrow> call_result" where
  "api_deleteMaterial code D x token st = api_request D x DELETE [''materials'', code] (JObj []) JUndefined token st"

definition api_anchorAttempts :: "string \<Rightarrow> dashboard \<Rightarrow> exchange \<Rightarrow> string option \<Rightarrow> server \<Rightarrow> call_result" where
  "api_anchorAttempts i = api_get [''batches'', i, ''anchor-attempts'']"

text \<open>The pages list batches without a status only.\<close>

definition api_listBatches :: "dashboard \<Rightarrow> exchange \<Rightarrow> string option \<Rightarrow> server \<Rightarrow> call_result" where
  "api_listBatches = api_get [''batches'']"

definition api_getBatch :: "string \<Rightarrow> dashboard \<Rightarrow> exchange \<Rightarrow> string option \<Rightarrow> server \<Rightarrow> call_result" where
  "api_getBatch i = api_get [''batches'', i]"

definition api_batchEvents :: "string \<Rightarrow> dashboard \<Rightarrow> exchange \<Rightarrow> string option \<Rightarrow> server \<Rightarrow> call_result" where
  "api_batchEvents i = api_get [''batches'', i, ''events'']"

definition api_listEvents :: "(string \<times> string) list \<Rightarrow> dashboard \<Rightarrow> exchange \<Rightarrow> string option \<Rightarrow> server \<Rightarrow> call_result" where
  "api_listEvents query D x token st =
     api_request D x GET [''events''] (JObj (map (\<lambda>(k, v). (k, JStr v)) query)) JUndefined token st"

definition api_report :: "string \<Rightarrow> dashboard \<Rightarrow> exchange \<Rightarrow> string option \<Rightarrow> server \<Rightarrow> call_result" where
  "api_report i = api_get [''batches'', i, ''report'']"

section \<open>Forms, redirects and the session\<close>

text \<open>\<open>String(formData.get(k) ?? "")\<close>.\<close>

type_synonym form_data = "(string \<times> string) list"

definition form_text :: "string \<Rightarrow> form_data \<Rightarrow> string" where
  "form_text k f = with_default (map_of f k) ''''"

text \<open>A single-line input drops line breaks from the value it is given, as the standard of HTML says.\<close>

definition single_line :: "string \<Rightarrow> string" where
  "single_line v = filter (\<lambda>c. c \<noteq> CHR 0x0A \<and> c \<noteq> CHR 0x0D) v"

text \<open>Where an action leaves the browser: on the page, at a URL, or at the error page when the action throws.\<close>

datatype navigation = Stay | GoTo string | ErrorPage

record cookie =
  ck_value :: string
  ck_httpOnly :: bool
  ck_secure :: bool
  ck_expires :: instant

type_synonym jar = "cookie option"

definition token_of :: "instant \<Rightarrow> jar \<Rightarrow> string option" where
  "token_of now j = (case j of None \<Rightarrow> None | Some c \<Rightarrow> if now < ck_expires c then Some (ck_value c) else None)"

definition dashboard_signIn :: "dashboard \<Rightarrow> exchange \<Rightarrow> instant \<Rightarrow> form_data \<Rightarrow> jar \<times> server \<Rightarrow> navigation \<times> jar \<times> server" where
  "dashboard_signIn D x now f jst = (case jst of (j, st) \<Rightarrow>
     (case send D x (dashboard_request D POST [''auth'', ''login''] (JObj [])
          (JObj [(''email'', JStr (form_text ''email'' f)), (''password'', JStr (form_text ''password'' f))]) None) st of
        (None, st') \<Rightarrow> (ErrorPage, j, st')
      | (Some (Inl _), st') \<Rightarrow> (GoTo ''/login?error=1'', j, st')
      | (Some (Inr a), st') \<Rightarrow> (GoTo ''/'', Some \<lparr>ck_value = accessToken a, ck_httpOnly = True, ck_secure = da_secure D,
          ck_expires = now + 60 * 60 * 12 * 1000\<rparr>, st')))"

section \<open>Texts of the pages\<close>

definition dashboard_formatKg :: "dashboard \<Rightarrow> jsnum \<Rightarrow> string" where
  "dashboard_formatKg D value = da_number D 3 value"

definition formatTonnes :: "dashboard \<Rightarrow> jsnum \<Rightarrow> string" where
  "formatTonnes D kg = da_number D 4 (js_div kg (js_of_int 1000))"

definition formatDateTime :: "dashboard \<Rightarrow> string option \<Rightarrow> string" where
  "formatDateTime D date = (if has_text date then da_dateText D (the date) else ''--'')"

definition shortHash :: "string option \<Rightarrow> nat \<Rightarrow> string" where
  "shortHash hash chars = (if \<not> has_text hash then ''--''
     else (let h = the hash in
       if length h \<le> chars * 2 then h else take chars h @ ''...'' @ drop (length h - chars) h))"

datatype data_tone = tone_verified | tone_pending | tone_neutral | tone_broken

definition batchTone :: "BatchStatus \<Rightarrow> bool \<Rightarrow> data_tone" where
  "batchTone status anchored = (if anchored then tone_verified else if status = open then tone_neutral else tone_pending)"

text \<open>Every page that needs an account shows one of two texts when its first call fails.\<close>

definition unauthorised :: "failure \<Rightarrow> bool" where
  "unauthorised e = (case e of ApiError status _ \<Rightarrow> status = 401 \<or> status = 403 | Unreachable \<Rightarrow> False)"

section \<open>What a call leaves on the server\<close>

lemma dashboard_request_simps [simp]:
  "hq_verb (dashboard_request D v path query body token) = v" "hq_path (dashboard_request D v path query body token) = path"
  "hq_query (dashboard_request D v path query body token) = query" "hq_body (dashboard_request D v path query body token) = body"
  "hq_authorization (dashboard_request D v path query body token) = (if has_text token then map_option bearer token else None)"
  by (simp_all add: dashboard_request_def)

lemma send_effect:
  assumes "send D x q st = (r, st')"
  shows "st' = st \<or> st' = snd (respond (da_api D) q (xc_roll x) (xc_ids x) st)"
  using assms by (auto simp: send_def split: prod.splits fate.splits)

lemma send_answered:
  assumes "send D x q st = (Some (Inr a), st')"
  shows "respond (da_api D) q (xc_roll x) (xc_ids x) st = (Inr a, st')"
  using assms by (auto simp: send_def split: prod.splits fate.splits sum.splits)

lemma send_delivered:
  assumes "xc_fate x = Delivered" and "respond (da_api D) q (xc_roll x) (xc_ids x) st = (r, st')"
  shows "send D x q st = (Some (case r of Inl e \<Rightarrow> Inl (error_reply D e) | Inr a \<Rightarrow> Inr a), st')"
  using assms by (simp add: send_def)

lemma request_cases:
  assumes "api_request D x v path query body token st = (r, st')"
  obtains (kept) "st' = st" "isl r"
    | (answered) rs where "respond (da_api D) (dashboard_request D v path query body token) (xc_roll x) (xc_ids x) st = (rs, st')"
        "\<And>a. r = Inr a \<Longrightarrow> rs = Inr a"
        "xc_fate x = Delivered \<Longrightarrow> r = (case rs of Inl e \<Rightarrow> Inl (ApiError (http_status e) (detailOf (error_reply D e))) | Inr a \<Rightarrow> Inr a)"
        "xc_fate x \<noteq> Delivered \<Longrightarrow> r = Inl Unreachable"
proof -
  obtain rs st1 where rs: "respond (da_api D) (dashboard_request D v path query body token) (xc_roll x) (xc_ids x) st = (rs, st1)"
    by (rule prod.exhaust)
  show ?thesis
  proof (cases "xc_fate x")
    case Delivered
    then have "r = (case rs of Inl e \<Rightarrow> Inl (ApiError (http_status e) (detailOf (error_reply D e))) | Inr a \<Rightarrow> Inr a)" "st' = st1"
      using assms rs by (auto simp: api_request_def send_def error_reply_def split: sum.splits prod.splits)
    then show ?thesis using rs Delivered by (intro answered[of rs]) (auto split: sum.splits)
  next
    case AnswerLost
    then have "r = Inl Unreachable" "st' = st1" using assms rs by (auto simp: api_request_def send_def)
    then show ?thesis using rs AnswerLost by (intro answered[of rs]) auto
  qed (use assms rs kept in \<open>auto simp: api_request_def send_def\<close>)
qed

text \<open>A call on a route whose handler only reads leaves the world as it is.\<close>

lemma reading_call:
  assumes "find_route v path = Some rt" and "\<not> writes (ar_handler rt)"
    and "api_request D x v path query body token (w, bs) = (r, (w', bs'))"
  shows "w' = w"
  using assms(3)
proof (cases rule: request_cases)
  case (answered rs)
  then show ?thesis using assms(1,2) readers_keep
    by (auto simp: respond_def split: prod.splits sum.splits)
qed simp

lemma answered_call:
  assumes "find_route v path = Some rt" and "api_request D x v path query body token (w, bs) = (Inr a, (w', bs'))"
  obtains user bs1 where
    "guards (da_api D) rt (dashboard_request D v path query body token) (xc_roll x) (w_db w) (w_clock w) bs = (Inr user, bs1)"
    "handle (ar_handler rt) (da_api D) (xc_ids x) (call_of rt (dashboard_request D v path query body token) user) w = Inr (a, w')"
  using assms(2)
proof (cases rule: request_cases)
  case (answered rs)
  then show ?thesis using assms(1) that by (auto simp: respond_def split: prod.splits sum.splits)
qed simp

lemma dashboard_routes:
  "find_route GET [''materials''] = Some (anyone GET [Lit ''materials''] Materials_list)"
  "find_route POST [''materials''] = Some (admins POST [Lit ''materials''] Materials_create)"
  "find_route GET [''auth'', ''me''] = Some (members GET [Lit ''auth'', Lit ''me''] Auth_me)"
  "find_route GET [''batches''] = Some (members GET [Lit ''batches''] Batches_list)"
  "find_route GET [''events''] = Some (members GET [Lit ''events''] Events_list)"
  "find_route GET [''batches'', ''anchor-health''] = Some (staff GET [Lit ''batches'', Lit ''anchor-health''] Batches_anchorHealth)"
  by (simp_all add: find_route_def find_one_def ROUTES_def root_routes_def auth_routes_def health_routes_def users_routes_def
      registry_routes_def events_routes_def photos_routes_def batches_routes_def custody_routes_def reports_routes_def
      materials_routes_def route_defs)

lemma dashboard_param_routes:
  "c \<noteq> '''' \<Longrightarrow> find_route PATCH [''materials'', c] = Some (admins PATCH [Lit ''materials'', Param] Materials_update)"
  "c \<noteq> '''' \<Longrightarrow> find_route DELETE [''materials'', c] = Some (admins DELETE [Lit ''materials'', Param] Materials_remove)"
  "i \<noteq> '''' \<Longrightarrow> find_route POST [''batches'', i, ''seal''] = Some (staff POST [Lit ''batches'', Param, Lit ''seal''] Batches_seal)"
  "i \<noteq> '''' \<Longrightarrow> find_route POST [''batches'', i, ''status''] = Some (staff POST [Lit ''batches'', Param, Lit ''status''] Batches_advance)"
  "i \<noteq> '''' \<Longrightarrow> find_route GET [''batches'', i, ''events''] = Some (members GET [Lit ''batches'', Param, Lit ''events''] Batches_events)"
  "i \<noteq> '''' \<Longrightarrow> find_route GET [''batches'', i, ''report''] = Some (anyone GET [Lit ''batches'', Param, Lit ''report''] Reports_json)"
  "i \<noteq> '''' \<Longrightarrow> find_route GET [''batches'', i, ''anchor-attempts'']
     = Some (staff GET [Lit ''batches'', Param, Lit ''anchor-attempts''] Batches_anchorAttempts)"
  by (simp_all add: find_route_def find_one_def ROUTES_def root_routes_def auth_routes_def health_routes_def users_routes_def
      registry_routes_def events_routes_def photos_routes_def batches_routes_def custody_routes_def reports_routes_def
      materials_routes_def route_defs)

lemma batch_route:
  "i \<notin> {'''', ''pending-anchor'', ''anchor-health''} \<Longrightarrow> find_route GET [''batches'', i] = Some (members GET [Lit ''batches'', Param] Batches_findOne)"
  by (auto simp: find_route_def find_one_def ROUTES_def root_routes_def auth_routes_def health_routes_def users_routes_def
      registry_routes_def events_routes_def photos_routes_def batches_routes_def custody_routes_def reports_routes_def
      materials_routes_def route_defs)

lemma login_answers:
  assumes "reading (\<lambda>(t, r). Token t r) (login verify sign e p s) w = Inr (a, w')"
  shows "\<exists>u. validate verify e p s = Inr u \<and> w' = w \<and> a = Token (sign \<lparr>jwt_sub = u_id u, jwt_email = u_email u, jwt_role = u_role u\<rparr>) (u_role u)"
  using assms by (cases "validate verify e p s") (simp_all add: reading_def login_def)

text \<open>
  A sign-in opens a session of twelve hours: the cookie cannot be read by scripts, and until it expires
  every request of the pages carries a token that stands for the account whose password was given.
\<close>

theorem sign_in_opens_session:
  assumes "dashboard_signIn D x now f (j0, (w, bs)) = (GoTo ''/'', j, (w', bs'))"
    and "\<forall>p. ae_jwtVerify (da_api D) (ae_signJwt (da_api D) p) = Some p" and "\<forall>p. ae_signJwt (da_api D) p \<noteq> ''''"
  shows "w' = w \<and> (\<exists>c u. j = Some c \<and> ck_httpOnly c \<and> ck_secure c = da_secure D
    \<and> password_ok (dp_verifyPassword (ae_deployment (da_api D))) (u_passwordHash u) (form_text ''password'' f)
    \<and> (\<forall>t v path q b. t < now + 12 * 3600000 \<longrightarrow> get_by u_id (u_id u) (users (w_db w)) = Some u \<longrightarrow>
         signed_in (da_api D) (dashboard_request D v path q b (token_of t j)) w u)
    \<and> u \<in> set (users (w_db w)) \<and> u_active u \<and> (\<forall>t \<ge> now + 12 * 3600000. token_of t j = None))"
proof -
  let ?q = "dashboard_request D POST [''auth'', ''login''] (JObj [])
    (JObj [(''email'', JStr (form_text ''email'' f)), (''password'', JStr (form_text ''password'' f))]) None"
  let ?rt = "limited 10 60 (anyone POST [Lit ''auth'', Lit ''login''] Auth_login)"
  obtain a where a: "send D x ?q (w, bs) = (Some (Inr a), (w', bs'))"
      and j: "j = Some \<lparr>ck_value = accessToken a, ck_httpOnly = True, ck_secure = da_secure D, ck_expires = now + 60 * 60 * 12 * 1000\<rparr>"
    using assms(1) by (auto simp: dashboard_signIn_def split: prod.splits option.splits sum.splits)
  obtain user where "handle (ar_handler ?rt) (da_api D) (xc_ids x) (call_of ?rt ?q user) w = Inr (a, w')"
    using send_answered[OF a] device_routes(4) by (auto simp: respond_def split: prod.splits sum.splits)
  then have "auth_login (da_api D) (call_of ?rt ?q user) w = Inr (a, w')" by (simp add: route_defs)
  then obtain get where get: "body_as (da_api D) (call_of ?rt ?q user) LoginDto = Inr get"
      and l: "reading (\<lambda>(t, r). Token t r) (login (dp_verifyPassword (ae_deployment (da_api D))) (ae_signJwt (da_api D))
        (text_of (get ''email'')) (text_of (get ''password'')) (w_db w)) w = Inr (a, w')"
    unfolding auth_login_def by (elim and_thenE)
  have texts: "text_of (get ''password'') = form_text ''password'' f" "text_of (get ''email'') = form_text ''email'' f"
    using get by (auto simp: body_as_def call_of_def validate_dto_def LoginDto_def field_value_def with_default_def text_of_def split: if_splits)
  obtain u where u: "validate (dp_verifyPassword (ae_deployment (da_api D))) (form_text ''email'' f) (form_text ''password'' f) (w_db w) = Inr u"
      and w: "w' = w" and t: "a = Token (ae_signJwt (da_api D) \<lparr>jwt_sub = u_id u, jwt_email = u_email u, jwt_role = u_role u\<rparr>) (u_role u)"
    using login_answers[OF l[unfolded texts]] by blast
  have row: "u \<in> set (users (w_db w))" "u_active u"
      "password_ok (dp_verifyPassword (ae_deployment (da_api D))) (u_passwordHash u) (form_text ''password'' f)"
    using u by (auto simp: validate_def Let_def split: option.splits if_splits dest: get_by_SomeD)
  have token: "token_of s j = Some (accessToken a)" if "s < now + 12 * 3600000" for s using that by (simp add: j token_of_def)
  have "signed_in (da_api D) (dashboard_request D v path q b (Some (accessToken a))) w u" if "get_by u_id (u_id u) (users (w_db w)) = Some u" for v path q b
    using that row(2) assms(2,3) by (simp add: signed_in_def t has_text_def bearer_def starts_with_def)
  then show ?thesis using w row token j by (auto simp: token_of_def)
qed

end
