(* ===== verification/DashboardMaterials.thy ===== *)
theory DashboardMaterials
  imports DashboardClient
begin

text \<open>
  The catalogue page of the dashboard, \<open>apps/dashboard/src/app/materials/page.tsx\<close>: what it shows to
  whom, the forms it draws and the server actions behind them, against the HTTP interface of \<open>Api\<close>.
\<close>

section \<open>Server actions\<close>

definition messageOf :: "failure \<Rightarrow> string" where
  "messageOf e = (case e of
      ApiError status detail \<Rightarrow> with_default detail (''Request failed ('' @ int_to_string (int status) @ '').'')
    | Unreachable \<Rightarrow> ''Could not reach the backend.'')"

definition split_products :: "string \<Rightarrow> string list" where
  "split_products input = filter (\<lambda>entry. length entry > 0) (map (\<lambda>entry. js_trim (collapse_spaces False entry))
     (split_on (\<lambda>c. c = CHR '','' \<or> c = CHR 0x0A) input))"

definition error_url :: "failure \<Rightarrow> string" where
  "error_url e = ''/materials?error='' @ encodeURIComponent (messageOf e)"

text \<open>\<open>JSON.stringify\<close> writes null for a number that is not finite.\<close>

definition wire_number :: "jsnum \<Rightarrow> json" where
  "wire_number v = (if is_finite v then JNum v else JNull)"

definition new_material_body :: "form_data \<Rightarrow> json" where
  "new_material_body f = (let
       description = js_trim (form_text ''description'' f);
       examples = split_products (form_text ''examples'' f);
       sortOrder = js_trim (form_text ''sortOrder'' f)
     in JObj ([(''code'', JStr (js_trim (form_text ''code'' f))), (''name'', JStr (js_trim (form_text ''name'' f)))]
       @ (if description \<noteq> '''' then [(''description'', JStr description)] else [])
       @ (if examples \<noteq> [] then [(''examples'', strings_json examples)] else [])
       @ (if sortOrder \<noteq> '''' then [(''sortOrder'', wire_number (number_of_string sortOrder))] else [])))"

definition addMaterial :: "dashboard \<Rightarrow> exchange \<Rightarrow> string option \<Rightarrow> form_data \<Rightarrow> server \<Rightarrow> navigation \<times> server" where
  "addMaterial D x token f st = (case api_createMaterial (new_material_body f) D x token st of
      (Inl e, st') \<Rightarrow> (GoTo (error_url e), st')
    | (Inr _, st') \<Rightarrow> (GoTo (''/materials?added='' @ encodeURIComponent (js_upper (js_trim (form_text ''code'' f)))), st'))"

definition edit_body :: "form_data \<Rightarrow> json" where
  "edit_body f = JObj [(''name'', JStr (js_trim (form_text ''name'' f))),
     (''description'', JStr (js_trim (form_text ''description'' f))),
     (''examples'', strings_json (split_products (form_text ''examples'' f)))]"

definition editMaterial :: "dashboard \<Rightarrow> exchange \<Rightarrow> string option \<Rightarrow> form_data \<Rightarrow> server \<Rightarrow> navigation \<times> server" where
  "editMaterial D x token f st = (case api_updateMaterial (form_text ''code'' f) (edit_body f) D x token st of
      (Inl e, st') \<Rightarrow> (GoTo (error_url e), st')
    | (Inr _, st') \<Rightarrow> (GoTo ''/materials'', st'))"

definition setActive :: "dashboard \<Rightarrow> exchange \<Rightarrow> string option \<Rightarrow> form_data \<Rightarrow> server \<Rightarrow> navigation \<times> server" where
  "setActive D x token f st = (case api_updateMaterial (form_text ''code'' f)
        (JObj [(''active'', JBool (form_text ''active'' f = ''true''))]) D x token st of
      (Inl e, st') \<Rightarrow> (GoTo (error_url e), st')
    | (Inr _, st') \<Rightarrow> (GoTo ''/materials'', st'))"

definition deleteMaterial :: "dashboard \<Rightarrow> exchange \<Rightarrow> string option \<Rightarrow> form_data \<Rightarrow> server \<Rightarrow> navigation \<times> server" where
  "deleteMaterial D x token f st = (case api_deleteMaterial (form_text ''code'' f) D x token st of
      (Inl e, st') \<Rightarrow> (GoTo (error_url e), st')
    | (Inr _, st') \<Rightarrow> (GoTo (''/materials?deleted='' @ encodeURIComponent (form_text ''code'' f)), st'))"

section \<open>The page\<close>

text \<open>A form as it is submitted with nothing changed: hidden fields as they are, inputs on one line.\<close>

definition toggle_form :: "Material \<Rightarrow> form_data" where
  "toggle_form m = [(''code'', m_code m), (''active'', if m_active m then ''false'' else ''true'')]"

definition edit_form :: "Material \<Rightarrow> form_data" where
  "edit_form m = [(''code'', m_code m), (''name'', single_line (m_name m)),
     (''description'', single_line (with_default (m_description m) '''')),
     (''examples'', single_line (join_with '', '' (m_examples m)))]"

definition delete_form :: "Material \<Rightarrow> form_data" where
  "delete_form m = [(''code'', m_code m)]"

record row_actions =
  ra_toggle :: form_data
  ra_toggleLabel :: string
  ra_edit :: form_data
  ra_delete :: form_data

record material_row =
  mr_code :: string
  mr_name :: string
  mr_guidance :: string
  mr_products :: "string list"
  mr_order :: int
  mr_pill :: "data_tone \<times> string"
  mr_actions :: "row_actions option"

definition material_row_of :: "bool \<Rightarrow> Material \<Rightarrow> material_row" where
  "material_row_of canEdit m = \<lparr>mr_code = m_code m, mr_name = m_name m, mr_guidance = with_default (m_description m) ''--'',
     mr_products = (if m_examples m = [] then [''--''] else m_examples m), mr_order = m_sortOrder m,
     mr_pill = (if m_active m then (tone_verified, ''offered'') else (tone_neutral, ''retired'')),
     mr_actions = (if canEdit then Some \<lparr>ra_toggle = toggle_form m, ra_toggleLabel = (if m_active m then ''Retire'' else ''Restore''),
       ra_edit = edit_form m, ra_delete = delete_form m\<rparr> else None)\<rparr>"

record materials_view =
  mv_error :: "string option"
  mv_added :: "string option"
  mv_deleted :: "string option"
  mv_readOnly :: bool
  mv_offered :: "material_row list"
  mv_retired :: "material_row list"
  mv_addForm :: bool

datatype materials_page = MaterialsUnreachable | MaterialsSignedOut | MaterialsView materials_view

definition materials_of :: "answer \<Rightarrow> Material list" where
  "materials_of a = (case a of MaterialList ms \<Rightarrow> ms | _ \<Rightarrow> [])"

definition viewer_of :: "failure + answer \<Rightarrow> JwtPayload option" where
  "viewer_of r = (case r of Inr (Me viewer) \<Rightarrow> Some viewer | _ \<Rightarrow> None)"

definition note_shown :: "string option \<Rightarrow> (string \<Rightarrow> string) \<Rightarrow> string option" where
  "note_shown v f = (if has_text v then Some (f (the v)) else None)"

definition materials_view_of :: "string \<Rightarrow> JwtPayload \<Rightarrow> Material list \<Rightarrow> materials_view" where
  "materials_view_of url viewer ms = (let canEdit = (jwt_role viewer = admin) in
     \<lparr>mv_error = note_shown (search_param ''error'' url) id,
      mv_added = note_shown (search_param ''added'' url) (\<lambda>c. ''Added '' @ c @ ''. It is now offered in the capture apps.''),
      mv_deleted = note_shown (search_param ''deleted'' url) (\<lambda>c. ''Deleted '' @ c @ ''. It had never been used.''),
      mv_readOnly = (\<not> canEdit), mv_offered = map (material_row_of canEdit) (filter m_active ms),
      mv_retired = map (material_row_of canEdit) (filter (\<lambda>m. \<not> m_active m) ms), mv_addForm = canEdit\<rparr>)"

text \<open>Both calls are made at once; a failure of the second only means that nobody is signed in.\<close>

definition MaterialsPage :: "dashboard \<Rightarrow> exchange \<Rightarrow> exchange \<Rightarrow> string option \<Rightarrow> string \<Rightarrow> server \<Rightarrow> materials_page \<times> server" where
  "MaterialsPage D x1 x2 token url st = (case api_materials D x1 token st of (listed, st1) \<Rightarrow>
     (case api_me D x2 token st1 of (me, st2) \<Rightarrow>
       (case listed of
          Inl _ \<Rightarrow> MaterialsUnreachable
        | Inr a \<Rightarrow> (case viewer_of me of
            None \<Rightarrow> MaterialsSignedOut
          | Some viewer \<Rightarrow> MaterialsView (materials_view_of url viewer (materials_of a))), st2)))"

section \<open>Products through the form\<close>

lemma good_example_lines: "good_example w \<Longrightarrow> CHR 0x0A \<notin> set w \<and> CHR 0x0D \<notin> set w"
proof -
  have nl: "is_space (CHR 0x0A)" "is_space (CHR 0x0D)" by code_simp+
  have "CHR 0x0A \<notin> set w \<and> CHR 0x0D \<notin> set w" if "tidy prev w" for prev w
    using that nl by (induction prev w rule: tidy.induct) (auto split: if_splits)
  then show "good_example w \<Longrightarrow> CHR 0x0A \<notin> set w \<and> CHR 0x0D \<notin> set w" by (auto simp: good_example_def)
qed

lemma set_join: "c \<in> set (join_with sep xs) \<Longrightarrow> c \<in> set sep \<or> (\<exists>x \<in> set xs. c \<in> set x)"
  by (induction sep xs rule: join_with.induct) auto

lemma single_line_id: "CHR 0x0A \<notin> set v \<Longrightarrow> CHR 0x0D \<notin> set v \<Longrightarrow> single_line v = v"
  unfolding single_line_def by (rule filter_True) auto

lemma joined_line:
  assumes "good_examples xs"
  shows "single_line (join_with '', '' xs) = join_with '', '' xs"
proof -
  have "c \<noteq> CHR 0x0A \<and> c \<noteq> CHR 0x0D" if "c \<in> set (join_with '', '' xs)" for c
    using set_join[OF that] good_example_lines assms by (auto simp: good_examples_def list_all_iff)
  then show ?thesis by (intro single_line_id) auto
qed

lemma good_piece:
  assumes "good_example w"
  shows "js_trim (collapse_spaces False w) = w" and "js_trim (collapse_spaces False (CHR '' '' # w)) = w" and "w \<noteq> []"
proof -
  have g: "trimmed w" "tidy False w" "w \<noteq> []" using assms by (simp_all add: good_example_def)
  show "js_trim (collapse_spaces False w) = w" using g by (simp add: collapse_tidy js_trim_trimmed)
  obtain c cs where w: "w = c # cs" "\<not> is_space c" using g(1,3) by (cases w) (auto simp: trimmed_def)
  have "collapse_spaces False (CHR '' '' # w) = CHR '' '' # w" using g(2) w by (simp add: collapse_tidy)
  moreover have "js_trim (CHR '' '' # w) = js_trim w" by (simp add: js_trim_def trim_start_def)
  ultimately show "js_trim (collapse_spaces False (CHR '' '' # w)) = w" using g(1) by (simp add: js_trim_trimmed)
  show "w \<noteq> []" by (rule g(3))
qed

lemma products_read_back:
  assumes g: "good_examples xs" and sep: "\<forall>w \<in> set xs. CHR '','' \<notin> set w"
  shows "split_products (join_with '', '' xs) = xs"
proof (cases xs)
  case Nil
  then show ?thesis by (simp add: split_products_def js_trim_def trim_end_def trim_start_def)
next
  case (Cons y ys)
  let ?p = "\<lambda>c. c = CHR '','' \<or> c = CHR 0x0A"
  have ex: "good_example w" if "w \<in> set xs" for w using g that by (auto simp: good_examples_def list_all_iff)
  have "split_on ?p (join_with '', '' xs) = hd xs # map (\<lambda>x. CHR '' '' # x) (tl xs)"
    by (rule split_format) (use Cons sep ex good_example_lines in auto)
  then have s: "split_on ?p (join_with '', '' (y # ys)) = y # map (\<lambda>x. CHR '' '' # x) ys" using Cons by simp
  have y: "good_example y" "\<forall>w \<in> set ys. good_example w" using ex Cons by simp_all
  have "filter (\<lambda>e. e \<noteq> []) (map (\<lambda>e. js_trim (collapse_spaces False e)) (map (\<lambda>x. CHR '' '' # x) ys)) = ys"
    using y(2) good_piece(2,3) by (induction ys) (auto simp del: collapse_spaces.simps)
  then show ?thesis using s y(1) good_piece(1,3) Cons by (simp add: split_products_def del: collapse_spaces.simps)
qed

text \<open>What is read from the form holds no comma, whatever was in the list.\<close>

lemma normalised_from: "w \<in> set (normalise_loop seen out (map JStr xs)) \<Longrightarrow> w \<in> set out \<or> w \<in> clean_example ` set xs"
proof (induction xs arbitrary: seen out)
  case (Cons x xs)
  then show ?case by (auto simp: Let_def split: if_splits dest!: Cons.IH)
qed simp

lemma set_collapse: "c \<in> set (collapse_spaces prev s) \<Longrightarrow> c = CHR '' '' \<or> c \<in> set s"
  by (induction prev s rule: collapse_spaces.induct) (auto split: if_splits)

lemma no_comma_after_split:
  assumes "w \<in> set (normaliseExamples (strings_json (split_products s)))"
  shows "CHR '','' \<notin> set w"
proof
  assume c: "CHR '','' \<in> set w"
  obtain x where x: "x \<in> set (split_products s)" "w = clean_example x"
    using assms normalised_from[of w "[]" "[]" "split_products s"] by (auto simp: normaliseExamples_def strings_json_def)
  have "CHR '','' \<in> set (collapse_spaces False x)"
    using c unfolding x(2) clean_example_def by (meson in_set_takeD set_js_trim subsetD)
  then have "CHR '','' \<in> set x" using set_collapse by fastforce
  then obtain p where p: "p \<in> set (split_on (\<lambda>c. c = CHR '','' \<or> c = CHR 0x0A) s)" "x = js_trim (collapse_spaces False p)"
      "CHR '','' \<in> set x" using x(1) by (auto simp: split_products_def)
  then have "CHR '','' \<in> set (collapse_spaces False p)" using set_js_trim by blast
  then have "CHR '','' \<in> set p" using set_collapse by fastforce
  then show False using split_on_no_sep[OF p(1)] by blast
qed

section \<open>What the page shows\<close>

lemma good_material:
  assumes "catalogue_ok s" and "m \<in> set (materials s)"
  shows "isMaterialCode (m_code m)" and "good_examples (m_examples m)" and "toMaterial m = m" and "m_code m \<noteq> ''''"
    and "js_upper (js_trim (m_code m)) = m_code m" and "get_by m_code (m_code m) (materials s) = Some m"
proof -
  show c: "isMaterialCode (m_code m)" and g: "good_examples (m_examples m)"
    using assms by (auto simp: catalogue_ok_def list_all_iff)
  show "toMaterial m = m" using g by (simp add: toMaterial_def normalise_good_id)
  show "m_code m \<noteq> ''''" using c by (auto simp: isMaterialCode_def)
  show "get_by m_code (m_code m) (materials s) = Some m"
    using assms by (simp add: catalogue_ok_def get_by_iff)
  have up: "upper_char x = [x]" "\<not> is_space x" if "code_char x \<or> is_upper x \<or> is_digit x" for x
    using that by (auto simp: code_char_def is_upper_def is_digit_def upper_char_def is_space_def Let_def)
  obtain x xs where m: "m_code m = x # xs" "is_upper x \<or> is_digit x" "list_all code_char xs"
    using c by (auto simp: isMaterialCode_def split: list.splits)
  then have all: "\<forall>y \<in> set (m_code m). code_char y \<or> is_upper y \<or> is_digit y" by (auto simp: list_all_iff)
  then have "\<forall>y \<in> set (m_code m). \<not> is_space y" using up(2) by blast
  then have "trimmed (m_code m)" using hd_in_set[of "m_code m"] last_in_set[of "m_code m"] m(1) by (auto simp: trimmed_def)
  moreover have "js_upper (m_code m) = m_code m"
  proof -
    have "concat (map upper_char cs) = cs" if "\<forall>y \<in> set cs. code_char y \<or> is_upper y \<or> is_digit y" for cs
      using that up(1) by (induction cs) auto
    then show ?thesis using all by (simp add: js_upper_def)
  qed
  ultimately show "js_upper (js_trim (m_code m)) = m_code m" by (simp add: js_trim_trimmed)
qed

lemma listed_materials:
  assumes "catalogue_ok s"
  shows "list_materials lc s = sortMaterials lc (materials s)"
  using good_material(3)[OF assms] unfolding list_materials_def by (simp add: map_idI)

lemma MaterialsPage_shows:
  assumes "MaterialsPage D x1 x2 token url (w, bs) = (MaterialsView v, (w1, bs1))"
  obtains u where "w1 = w" "has_text token" "ae_jwtVerify (da_api D) (the token) \<noteq> None"
    "\<forall>path v q b. signed_in (da_api D) (dashboard_request D v path q b token) w u"
    "v = materials_view_of url \<lparr>jwt_sub = u_id u, jwt_email = u_email u, jwt_role = u_role u\<rparr> (list_materials (ae_collate (da_api D)) (w_db w))"
proof -
  obtain listed w' bs' where l: "api_request D x1 GET [''materials''] (JObj []) JUndefined token (w, bs) = (listed, (w', bs'))" by (rule prod_cases3)
  obtain me w'' bs'' where m: "api_request D x2 GET [''auth'', ''me''] (JObj []) JUndefined token (w', bs') = (me, (w'', bs''))" by (rule prod_cases3)
  have w: "w' = w" "w'' = w'"
    using reading_call[OF dashboard_routes(1) _ l] reading_call[OF dashboard_routes(3) _ m] by (simp_all add: route_defs writes_def)
  note page = assms[unfolded MaterialsPage_def api_materials_def api_me_def api_get_def l m prod.case]
  obtain a where a: "listed = Inr a" using page by (cases listed) simp_all
  obtain viewer where me: "me = Inr (Me viewer)" and v: "v = materials_view_of url viewer (materials_of a)" and "w1 = w''"
    using page a by (auto simp: viewer_of_def split: sum.splits option.splits answer.splits)
  from answered_call[OF dashboard_routes(1) l[unfolded a]] have "a = MaterialList (list_materials (ae_collate (da_api D)) (w_db w))"
    by (auto simp: route_defs)
  then have ms: "materials_of a = list_materials (ae_collate (da_api D)) (w_db w)" by (simp add: materials_of_def)
  obtain user bs1 where
      g: "guards (da_api D) (members GET [Lit ''auth'', Lit ''me''] Auth_me) (dashboard_request D GET [''auth'', ''me''] (JObj []) JUndefined token)
        (xc_roll x2) (w_db w') (w_clock w') bs' = (Inr user, bs1)"
      and "handle (ar_handler (members GET [Lit ''auth'', Lit ''me''] Auth_me)) (da_api D) (xc_ids x2)
        (call_of (members GET [Lit ''auth'', Lit ''me''] Auth_me) (dashboard_request D GET [''auth'', ''me''] (JObj []) JUndefined token) user) w'
        = Inr (Me viewer, w'')"
    by (rule answered_call[OF dashboard_routes(3) m[unfolded me]])
  then have h: "user = Some viewer" by (simp add: route_defs call_of_def split: option.splits)
  obtain u where u: "signed_in (da_api D) (dashboard_request D GET [''auth'', ''me''] (JObj []) JUndefined token) w' u"
      "user = Some \<lparr>jwt_sub = u_id u, jwt_email = u_email u, jwt_role = u_role u\<rparr>"
    by (rule guarded_account[OF g]) (simp_all add: route_defs)
  have "has_text token" using u(1) by (auto simp: signed_in_def split: if_splits)
  moreover have "ae_jwtVerify (da_api D) (the token) \<noteq> None"
    using u(1) \<open>has_text token\<close> by (auto simp: signed_in_def bearer_def has_text_def)
  ultimately show ?thesis
    using that[of u] u w h v ms \<open>w1 = w''\<close> by (auto simp: signed_in_def)
qed

text \<open>A row of the page is a row of the catalogue, and its forms are there for an administrator only.\<close>

lemma shown_row:
  assumes "row \<in> set (mv_offered (materials_view_of url viewer ms) @ mv_retired (materials_view_of url viewer ms))"
  obtains m where "m \<in> set ms" "row = material_row_of (jwt_role viewer = admin) m"
  using assms by (auto simp: materials_view_of_def Let_def)

section \<open>Accepted changes\<close>

text \<open>What a patch of a material through the interface does to the world.\<close>

lemma patch_call:
  assumes "api_updateMaterial code (JObj kvs) D x token (w, bs) = (r, (w', bs'))" and "code \<noteq> ''''"
  obtains (kept) "w' = w" "isl r"
    | (patched) get saved s' where "body_as (da_api D) (call_of (admins PATCH [Lit ''materials'', Param] Materials_update)
          (dashboard_request D PATCH [''materials'', code] (JObj []) (JObj kvs) token) user) UpdateMaterialDto_fields = Inr get"
        "get ''name'' \<noteq> JNull" "get ''active'' \<noteq> JNull" "get ''sortOrder'' \<noteq> JNull"
        "update_material code (material_patch get) (w_db w) = Inr (saved, s')" "w' = w\<lparr>w_db := s'\<rparr>"
proof -
  note route = dashboard_param_routes(1)[OF assms(2)]
  from assms(1)[unfolded api_updateMaterial_def] show ?thesis
  proof (cases rule: request_cases)
    case (answered rs)
    note out = answered(1)
    show ?thesis
    proof (cases "w' = w \<and> isl r")
      case False
      obtain rt user' a bs1 where h: "rs = Inr a" and rt: "find_route PATCH [''materials'', code] = Some rt"
          and hd: "handle (ar_handler rt) (da_api D) (xc_ids x) (call_of rt (dashboard_request D PATCH [''materials'', code] (JObj []) (JObj kvs) token) user') w = Inr (a, w')"
      proof (rule respond_cases[OF out])
        assume "w' = w"
        then have "\<not> isl r" using False by simp
        then obtain a where "rs = Inr a" using answered(3,4) by (cases "xc_fate x = Delivered") (auto split: sum.splits)
        then show thesis using that out by (auto simp: respond_def split: option.splits prod.splits sum.splits)
      qed (use that in auto)
      have "rt = admins PATCH [Lit ''materials'', Param] Materials_update" using rt route by simp
      then have "materials_patch (da_api D) (call_of (admins PATCH [Lit ''materials'', Param] Materials_update)
          (dashboard_request D PATCH [''materials'', code] (JObj []) (JObj kvs) token) user') w = Inr (a, w')"
        using hd by (simp add: route_defs)
      then obtain get where g: "body_as (da_api D) (call_of (admins PATCH [Lit ''materials'', Param] Materials_update)
          (dashboard_request D PATCH [''materials'', code] (JObj []) (JObj kvs) token) user') UpdateMaterialDto_fields = Inr get"
          and k: "get ''name'' \<noteq> JNull" "get ''active'' \<noteq> JNull" "get ''sortOrder'' \<noteq> JNull"
          and u: "writing AMaterial (update_material code (material_patch get)) w = Inr (a, w')"
        unfolding materials_patch_def Let_def
        by (elim and_thenE) (auto simp: null_patch_fails call_of_def route_defs split: if_splits)
      have "body_as (da_api D) (call_of (admins PATCH [Lit ''materials'', Param] Materials_update)
          (dashboard_request D PATCH [''materials'', code] (JObj []) (JObj kvs) token) user) UpdateMaterialDto_fields = Inr get"
        using g by (simp add: body_as_def call_of_def)
      then show ?thesis using u k by (elim writingE) (rule patched)
    qed (rule kept; blast)
  qed (use kept in simp)
qed

lemma texts_opt_strings [simp]: "texts_opt (strings_json xs) = Some xs" "strings_json xs \<noteq> JNull"
  by (simp_all add: texts_opt_def strings_json_def nullish_def texts_of_def text_of_def comp_def)

lemma edit_read:
  assumes "body_as A (call_of rt (dashboard_request D v p q (edit_body f) token) user) UpdateMaterialDto_fields = Inr get"
  shows "material_patch get = \<lparr>um_name = Some (js_trim (form_text ''name'' f)), um_description = Some (js_trim (form_text ''description'' f)),
    um_examples = Some (split_products (form_text ''examples'' f)), um_active = None, um_sortOrder = None\<rparr>"
  using assms
  by (auto simp: body_as_def call_of_def edit_body_def validate_dto_def UpdateMaterialDto_fields_def field_value_def material_patch_def
      with_default_def string_of_def flag_of_def whole_def split: if_splits)

lemma toggle_read:
  assumes "body_as A (call_of rt (dashboard_request D v p q (JObj [(''active'', JBool b)]) token) user) UpdateMaterialDto_fields = Inr get"
  shows "material_patch get = \<lparr>um_name = None, um_description = None, um_examples = None, um_active = Some b, um_sortOrder = None\<rparr>"
  using assms
  by (auto simp: body_as_def call_of_def validate_dto_def UpdateMaterialDto_fields_def field_value_def material_patch_def
      with_default_def string_of_def flag_of_def whole_def texts_opt_def nullish_def split: if_splits)

text \<open>A patch of a listed material replaces its row.\<close>

lemma patch_row:
  assumes "catalogue_ok s" and "m \<in> set (materials s)" and "update_material (m_code m) dto s = Inr (saved, s')"
  shows "s' = s\<lparr>materials := map (\<lambda>x. if x = m then patch_material dto m else x) (materials s)\<rparr>"
proof -
  note g = good_material[OF assms(1,2)]
  have s': "s' = s\<lparr>materials := patch_by m_code (m_code m) (\<lambda>_. patch_material dto m) (materials s)\<rparr>"
    using assms(3) g(5,6) by (auto simp: update_material_eq require_material_eq)
  have "distinct (map m_code (materials s))" using assms(1) by (simp add: catalogue_ok_def)
  then have "m_code x = m_code m \<longleftrightarrow> x = m" if "x \<in> set (materials s)" for x
    using that assms(2) by (auto dest: distinct_key_eq)
  then show ?thesis unfolding s' patch_by_def update_where_def by (intro arg_cong[where f = "\<lambda>r. s\<lparr>materials := r\<rparr>"] map_cong) auto
qed

lemma map_fixed: "map f xs = xs \<longleftrightarrow> (\<forall>x \<in> set xs. f x = x)"
  by (induction xs) auto

text \<open>Labels as the service stores them, on one line.\<close>

definition plain_labels :: "Material \<Rightarrow> bool" where
  "plain_labels m = (list_all (\<lambda>t. trimmed t \<and> CHR 0x0A \<notin> set t \<and> CHR 0x0D \<notin> set t) (m_name m # with_default (m_description m) '''' # [])
     \<and> m_description m \<noteq> Some '''')"


text \<open>A deletion is told truly.  When the answer arrives, either the page says that the material is deleted, and
  it is gone and nothing ever used it; or nothing changed, and if the caller is an administrator the next page shows
  the backend's own words, with the numbers of records that hold the code.\<close>

definition in_use_text :: "string \<Rightarrow> db \<Rightarrow> string" where
  "in_use_text code s = ''material '' @ code @ '' is used by '' @ int_to_string (int (count_where (\<lambda>e. e_material e = code) (events s)))
     @ '' event(s) and '' @ int_to_string (int (count_where (\<lambda>b. b_material b = code) (batches s)))
     @ '' batch(es) and cannot be deleted -- its code is part of their signed payloads. Retire it instead (PATCH /materials/''
     @ code @ '' {\"active\": false}), which hides it from new capture and leaves the record intact.''"

definition material_used :: "string \<Rightarrow> db \<Rightarrow> bool" where
  "material_used code s = (exists_where (\<lambda>e. e_material e = code) (events s) \<or> exists_where (\<lambda>b. b_material b = code) (batches s))"

definition may_administer :: "dashboard \<Rightarrow> exchange \<Rightarrow> api_route \<Rightarrow> http_request \<Rightarrow> server \<Rightarrow> bool" where
  "may_administer D x rt q st = (case st of (w, bs) \<Rightarrow>
     \<not> isl (fst (guards (da_api D) rt q (xc_roll x) (w_db w) (w_clock w) bs)))"

lemma error_url_shown:
  "search_param ''error'' (error_url e) = Some (messageOf e)" "search_param ''deleted'' (error_url e) = None"
  "search_param ''added'' (error_url e) = None"
proof -
  have u: "error_url e = ''/materials'' @ CHR ''?'' # ''error'' @ CHR ''='' # encodeURIComponent (messageOf e)" by (simp add: error_url_def)
  show "search_param ''error'' (error_url e) = Some (messageOf e)" unfolding u by (rule search_param_encoded) simp_all
  have "split_on (\<lambda>c. c = CHR ''&'') (''error='' @ encodeURIComponent (messageOf e)) = [''error='' @ encodeURIComponent (messageOf e)]"
    using encoded_plain by (intro split_on_plain) auto
  then have "query_pairs (error_url e) = [(''error'', encodeURIComponent (messageOf e))]"
    by (simp add: query_pairs_def error_url_def)
  then show "search_param ''deleted'' (error_url e) = None" "search_param ''added'' (error_url e) = None"
    by (simp_all add: search_param_def)
qed

theorem deletion_is_told_truly:
  assumes "catalogue_ok (w_db w)" and "m \<in> set (materials (w_db w))" and "xc_fate x = Delivered"
    and "deleteMaterial D x token (delete_form m) (w, bs) = (nav, (w', bs'))"
    and "\<forall>t. \<exists>text body. da_filter D (ConflictException t) = (text, Some body) \<and> jfield ''message'' body = JStr t"
  shows "(nav = GoTo (''/materials?deleted='' @ encodeURIComponent (m_code m)) \<and> \<not> material_used (m_code m) (w_db w)
        \<and> w' = w\<lparr>w_db := (w_db w)\<lparr>materials := filter (\<lambda>x. x \<noteq> m) (materials (w_db w))\<rparr>\<rparr>)
    \<or> (w' = w \<and> (\<exists>url. nav = GoTo url \<and> search_param ''deleted'' url = None
        \<and> (material_used (m_code m) (w_db w)
              \<and> may_administer D x (admins DELETE [Lit ''materials'', Param] Materials_remove)
                  (dashboard_request D DELETE [''materials'', m_code m] (JObj []) JUndefined token) (w, bs) \<longrightarrow>
            (\<forall>viewer ms. mv_error (materials_view_of url viewer ms) = Some (in_use_text (m_code m) (w_db w))))))"
proof -
  let ?c = "m_code m" and ?rt = "admins DELETE [Lit ''materials'', Param] Materials_remove"
  let ?q = "dashboard_request D DELETE [''materials'', ?c] (JObj []) JUndefined token"
  note g = good_material[OF assms(1,2)]
  note route = dashboard_param_routes(2)[OF g(4)]
  obtain r st where call: "api_request D x DELETE [''materials'', ?c] (JObj []) JUndefined token (w, bs) = (r, st)" by (rule prod.exhaust)
  have st: "st = (w', bs')" and nav: "nav = GoTo (case r of Inl e \<Rightarrow> error_url e | Inr _ \<Rightarrow> ''/materials?deleted='' @ encodeURIComponent ?c)"
    using assms(4) call by (auto simp: deleteMaterial_def api_deleteMaterial_def delete_form_def form_text_def with_default_def split: sum.splits)
  obtain rs where rs: "respond (da_api D) ?q (xc_roll x) (xc_ids x) (w, bs) = (rs, (w', bs'))"
      and r: "r = (case rs of Inl e \<Rightarrow> Inl (ApiError (http_status e) (detailOf (error_reply D e))) | Inr a \<Rightarrow> Inr a)"
    using call assms(3) st by (auto simp: api_request_def send_def error_reply_def split: prod.splits sum.splits)
  obtain gr bs1 where gd: "guards (da_api D) ?rt ?q (xc_roll x) (w_db w) (w_clock w) bs = (gr, bs1)" by (rule prod.exhaust)
  have key: "m_code y = ?c \<longleftrightarrow> y = m" if "y \<in> set (materials (w_db w))" for y
    using that assms(1,2) by (auto simp: catalogue_ok_def dest: distinct_key_eq)
  have used: "material_used ?c (w_db w) \<longleftrightarrow> count_where (\<lambda>e. e_material e = ?c) (events (w_db w)) > 0
      \<or> count_where (\<lambda>b. b_material b = ?c) (batches (w_db w)) > 0"
    by (auto simp: material_used_def exists_where_iff count_where_0_iff[unfolded neq0_conv[symmetric]] simp flip: neq0_conv)
  have removed: "remove_material ?c (w_db w) = (if material_used ?c (w_db w) then throw (ConflictException (in_use_text ?c (w_db w)))
      else return (?c, (w_db w)\<lparr>materials := delete_where (\<lambda>x. m_code x = ?c) (materials (w_db w))\<rparr>))"
    by (simp add: remove_material_def require_material_def g(5,6) Let_def used in_use_text_def)
  show ?thesis
  proof (cases gr)
    case (Inl e)
    then have "w' = w" "rs = Inl e" using rs gd route by (simp_all add: respond_def)
    moreover have "\<not> may_administer D x ?rt ?q (w, bs)" using gd Inl by (simp add: may_administer_def)
    ultimately show ?thesis using nav r by (auto simp: error_url_shown)
  next
    case (Inr user)
    have h: "respond (da_api D) ?q (xc_roll x) (xc_ids x) (w, bs) = (case writing MaterialGone (remove_material ?c) w of
        Inl e \<Rightarrow> (throw e, w, bs1) | Inr (a, w') \<Rightarrow> (return a, w', bs1))"
      using gd Inr route by (simp add: respond_def route_defs call_of_def split: sum.splits)
    show ?thesis
    proof (cases "material_used ?c (w_db w)")
      case True
      then have "w' = w" "rs = Inl (ConflictException (in_use_text ?c (w_db w)))" using rs h removed by (auto simp: writing_def)
      moreover have "detailOf (error_reply D (ConflictException t)) = Some t" for t
      proof -
        obtain shown body where "da_filter D (ConflictException t) = (shown, Some body)" "jfield ''message'' body = JStr t"
          using assms(5) by blast
        then show ?thesis by (simp add: detailOf_def error_reply_def)
      qed
      moreover have "in_use_text ?c (w_db w) \<noteq> ''''" by (simp add: in_use_text_def)
      ultimately show ?thesis using nav r
        by (auto simp: error_url_shown materials_view_of_def Let_def note_shown_def has_text_def messageOf_def with_default_def)
    next
      case False
      then have "rs = Inr (MaterialGone ?c)" "w' = w\<lparr>w_db := (w_db w)\<lparr>materials := delete_where (\<lambda>x. m_code x = ?c) (materials (w_db w))\<rparr>\<rparr>"
        using rs h removed by (simp_all add: writing_def)
      moreover have "delete_where (\<lambda>x. m_code x = ?c) (materials (w_db w)) = filter (\<lambda>x. x \<noteq> m) (materials (w_db w))"
        using key by (auto simp: delete_where_def intro: filter_cong)
      ultimately show ?thesis using nav r False by simp
    qed
  qed
qed

text \<open>The page draws its controls for those whom the interface lets change the catalogue, and for nobody else:
  the add form and the forms of every row are there exactly when the account guard of the routes behind them lets the
  token of the page pass.\<close>

theorem controls_match_the_guard:
  assumes "MaterialsPage D x1 x2 token url (w, bs) = (MaterialsView v, (w1, bs1))"
    and "rt \<in> {admins POST [Lit ''materials''] Materials_create, admins PATCH [Lit ''materials'', Param] Materials_update,
        admins DELETE [Lit ''materials'', Param] Materials_remove}"
  shows "(mv_addForm v \<longleftrightarrow> \<not> isl (jwt_canActivate (ae_jwtVerify (da_api D)) (route.truncate rt)
        (hq_authorization (dashboard_request D (ar_verb rt) path query body token)) (w_db w)))
    \<and> (\<forall>row \<in> set (mv_offered v @ mv_retired v). mr_actions row \<noteq> None \<longleftrightarrow> mv_addForm v)"
proof -
  obtain u :: UserEntity where u: "\<forall>path v q b. signed_in (da_api D) (dashboard_request D v path q b token) w u"
    and v: "v = materials_view_of url \<lparr>jwt_sub = u_id u, jwt_email = u_email u, jwt_role = u_role u\<rparr>
      (list_materials (ae_collate (da_api D)) (w_db w))"
    by (rule MaterialsPage_shows[OF assms(1)])
  have add: "mv_addForm v \<longleftrightarrow> u_role u = admin" by (simp add: v materials_view_of_def Let_def)
  obtain header claims where h: "hq_authorization (dashboard_request D (ar_verb rt) path query body token) = Some header"
      "starts_with ''Bearer '' header" "ae_jwtVerify (da_api D) (drop 7 header) = Some claims"
      "get_by u_id (jwt_sub claims) (users (w_db w)) = Some u" "u_active u"
    using u unfolding signed_in_def by blast
  have "\<not> isl (jwt_canActivate (ae_jwtVerify (da_api D)) (route.truncate rt)
        (hq_authorization (dashboard_request D (ar_verb rt) path query body token)) (w_db w)) \<longleftrightarrow> u_role u = admin"
    using h assms(2) by (auto simp: jwt_canActivate_def route_defs route.truncate_def simp del: dashboard_request_simps)
  moreover have "mr_actions row \<noteq> None \<longleftrightarrow> u_role u = admin" if "row \<in> set (mv_offered v @ mv_retired v)" for row
    using that[unfolded v] by (rule shown_row) (simp add: material_row_of_def)
  ultimately show ?thesis using add by blast
qed

text \<open>The button of a row retires an offered material and restores a retired one, and does nothing else: every code
  stays known, so stored weigh-ins keep theirs, and a batch can be opened for the material exactly when it is offered.\<close>

theorem toggle_retires_or_restores:
  assumes "catalogue_ok (w_db w)" and "m \<in> set (materials (w_db w))"
    and "setActive D x token (toggle_form m) (w, bs) = (GoTo ''/materials'', (w', bs'))"
  shows "w' = w\<lparr>w_db := (w_db w)\<lparr>materials := map (\<lambda>x. if x = m then m\<lparr>m_active := \<not> m_active m\<rparr> else x) (materials (w_db w))\<rparr>\<rparr>
    \<and> (\<forall>c. assertKnown c (w_db w') = assertKnown c (w_db w))
    \<and> (assertOpenable (m_code m) (w_db w') = Inr () \<longleftrightarrow> \<not> m_active m)"
proof -
  note g = good_material[OF assms(1,2)]
  let ?b = "\<not> m_active m" and ?m = "m\<lparr>m_active := \<not> m_active m\<rparr>"
  obtain r st where call: "api_updateMaterial (m_code m) (JObj [(''active'', JBool ?b)]) D x token (w, bs) = (r, st)" by (rule prod.exhaust)
  have st: "st = (w', bs')" "\<not> isl r"
    using assms(3) call by (auto simp: setActive_def toggle_form_def form_text_def with_default_def error_url_def split: sum.splits if_splits)
  from call[unfolded st(1)] g(4) have w': "w' = w\<lparr>w_db := (w_db w)\<lparr>materials := map (\<lambda>x. if x = m then ?m else x) (materials (w_db w))\<rparr>\<rparr>"
  proof (cases rule: patch_call[where user = None])
    case (patched get saved s')
    have "patch_material (material_patch get) m = ?m"
      unfolding toggle_read[OF patched(1)] by (simp add: patch_material_def with_default_def)
    then show ?thesis using patched(6) patch_row[OF assms(1,2) patched(5)] by simp
  qed (use st(2) in simp)
  have codes: "map m_code (materials (w_db w')) = map m_code (materials (w_db w))" by (simp add: w')
  have listed: "exists_where (\<lambda>x. m_code x = c) ms \<longleftrightarrow> c \<in> set (map m_code ms)" for c ms
    by (auto simp: exists_where_iff)
  have known: "assertKnown c (w_db w') = assertKnown c (w_db w)" for c unfolding assertKnown_def listed codes ..
  have "distinct (map m_code (materials (w_db w')))" using codes assms(1) by (simp add: catalogue_ok_def)
  then have "assertOpenable (m_code m) (w_db w') = Inr () \<longleftrightarrow> (\<exists>y \<in> set (materials (w_db w')). m_code y = m_code m \<and> m_active y)"
    by (rule assertOpenable_iff)
  moreover have "m_code y = m_code m \<longleftrightarrow> y = m" if "y \<in> set (materials (w_db w))" for y
    using that assms(1,2) by (auto simp: catalogue_ok_def dest: distinct_key_eq)
  ultimately have "assertOpenable (m_code m) (w_db w') = Inr () \<longleftrightarrow> \<not> m_active m"
    using assms(2) by (auto simp: w' split: if_splits)
  then show ?thesis using w' known by blast
qed

section \<open>A catalogue to instantiate the statements with\<close>

definition desk :: dashboard where
  "desk = \<lparr>da_api = run_api\<lparr>ae_accepts := (\<lambda>_ _. True)\<rparr>, da_ip = Some ''1'',
     da_filter = (\<lambda>e. case e of ConflictException t \<Rightarrow> (t, Some (JObj [(''message'', JStr t)])) | _ \<Rightarrow> (''no'', None)),
     da_gateway = (\<lambda>_. (''100% busy'', None)), da_number = (\<lambda>_ _. ''0''), da_dateText = id, da_secure = True,
     da_backendUrl = ''http://b'', da_publicUrl = None\<rparr>"

definition shelf_material :: "string list \<Rightarrow> Material" where
  "shelf_material xs = \<lparr>m_code = ''PET'', m_name = ''PET'', m_description = None, m_examples = xs, m_active = True, m_sortOrder = 10\<rparr>"

definition shelf_batch :: BatchEntity where
  "shelf_batch = \<lparr>b_id = ''b'', b_hubId = ''h'', b_material = ''PET'', b_status = open, b_totalWeightKg = Fin 0, b_eventCount = 0,
     b_merkleRoot = None, b_sealedAt = None, b_createdAt = 0\<rparr>"

definition shelf_world :: "string list \<Rightarrow> world" where
  "shelf_world xs = first_world\<lparr>w_db := empty_db\<lparr>users := [run_admin], materials := [shelf_material xs], batches := [shelf_batch]\<rparr>\<rparr>"

definition now_exchange :: exchange where
  "now_exchange = \<lparr>xc_fate = Delivered, xc_roll = 1, xc_ids = run_ids\<rparr>"

lemma shelf_simps [simp]:
  "materials (w_db (shelf_world xs)) = [shelf_material xs]" "users (w_db (shelf_world xs)) = [run_admin]"
  "batches (w_db (shelf_world xs)) = [shelf_batch]" "events (w_db (shelf_world xs)) = []" "w_clock (shelf_world xs) = 0"
  by (simp_all add: shelf_world_def first_world_def empty_db_def)

lemma shelf_catalogue: "good_examples xs \<Longrightarrow> catalogue_ok (w_db (shelf_world xs))"
  by (simp add: catalogue_ok_def shelf_material_def isMaterialCode_def is_upper_def code_char_def Let_def)

lemma desk_guard:
  assumes "ar_limit rt = None" and "\<not> ar_worker rt" and "\<not> rt_isPublic rt" and "rt_roles rt = [] \<or> admin \<in> set (rt_roles rt)"
    and "users s = [run_admin]"
  shows "guards (da_api desk) rt (dashboard_request desk v path q b (Some ''t'')) (xc_roll now_exchange) s now bs
    = (Inr (Some \<lparr>jwt_sub = ''u'', jwt_email = ''a@b.c'', jwt_role = admin\<rparr>), bs)"
  using assms by (auto simp: guards_def desk_def run_api_def jwt_canActivate_def route.truncate_def has_text_def bearer_def starts_with_def
      get_by_def run_admin_def rate_canActivate_def)

lemma desk_request:
  assumes "find_route v path = Some rt" and "ar_limit rt = None" and "\<not> ar_worker rt" and "\<not> rt_isPublic rt"
    and "rt_roles rt = [] \<or> admin \<in> set (rt_roles rt)" and "users (w_db w) = [run_admin]"
    and "handle (ar_handler rt) (da_api desk) run_ids (call_of rt (dashboard_request desk v path q b (Some ''t''))
        (Some \<lparr>jwt_sub = ''u'', jwt_email = ''a@b.c'', jwt_role = admin\<rparr>)) w = Inr (a, w')"
  shows "api_request desk now_exchange v path q b (Some ''t'') (w, bs) = (Inr a, (w', bs))"
  using assms(1,7) desk_guard[OF assms(2-6)]
  by (simp add: api_request_def send_def respond_def now_exchange_def)

lemma shelf_page:
  "\<exists>v. MaterialsPage desk now_exchange now_exchange (Some ''t'') url (shelf_world xs, []) = (MaterialsView v, (shelf_world xs, []))
    \<and> v = materials_view_of url \<lparr>jwt_sub = ''u'', jwt_email = ''a@b.c'', jwt_role = admin\<rparr> [toMaterial (shelf_material xs)]"
proof -
  have "api_request desk now_exchange GET [''auth'', ''me''] (JObj []) JUndefined (Some ''t'') (shelf_world xs, [])
      = (Inr (Me \<lparr>jwt_sub = ''u'', jwt_email = ''a@b.c'', jwt_role = admin\<rparr>), (shelf_world xs, []))"
    by (rule desk_request[OF dashboard_routes(3)]) (simp_all add: route_defs call_of_def)
  moreover have "api_request desk now_exchange GET [''materials''] (JObj []) JUndefined (Some ''t'') (shelf_world xs, [])
      = (Inr (MaterialList [toMaterial (shelf_material xs)]), (shelf_world xs, []))"
    by (simp add: api_request_def send_def respond_def now_exchange_def dashboard_routes route_defs guards_def jwt_canActivate_def
        route.truncate_def rate_canActivate_def list_materials_def sortMaterials_def)
  ultimately show ?thesis
    by (simp add: MaterialsPage_def api_me_def api_materials_def api_get_def viewer_of_def materials_of_def)
qed


theorem deletion_is_told_truly_witness:
  "\<exists>nav bs. deleteMaterial desk now_exchange (Some ''t'') (delete_form (shelf_material [])) (shelf_world [], []) = (nav, (shelf_world [], bs))
    \<and> (\<exists>url. nav = GoTo url \<and> mv_error (materials_view_of url \<lparr>jwt_sub = ''u'', jwt_email = ''a@b.c'', jwt_role = admin\<rparr> [])
        = Some (in_use_text ''PET'' (w_db (shelf_world []))))"
proof -
  let ?w = "shelf_world []" and ?m = "shelf_material []"
  have cat: "catalogue_ok (w_db ?w)" by (rule shelf_catalogue) (simp add: good_examples_def)
  obtain nav w' bs' where d: "deleteMaterial desk now_exchange (Some ''t'') (delete_form ?m) (?w, []) = (nav, (w', bs'))" by (rule prod_cases3)
  have used: "material_used (m_code ?m) (w_db ?w)" by (simp add: material_used_def exists_where_def shelf_batch_def shelf_material_def)
  have "may_administer desk now_exchange (admins DELETE [Lit ''materials'', Param] Materials_remove)
      (dashboard_request desk DELETE [''materials'', m_code ?m] (JObj []) JUndefined (Some ''t'')) (?w, [])"
    by (simp add: may_administer_def desk_guard route_defs)
  moreover have "\<forall>t. \<exists>shown body. da_filter desk (ConflictException t) = (shown, Some body) \<and> jfield ''message'' body = JStr t"
    by (simp add: desk_def jfield_def with_default_def)
  moreover have "xc_fate now_exchange = Delivered" by (simp add: now_exchange_def)
  ultimately have "w' = ?w \<and> (\<exists>url. nav = GoTo url \<and> (\<forall>viewer ms. mv_error (materials_view_of url viewer ms) = Some (in_use_text (m_code ?m) (w_db ?w))))"
    using deletion_is_told_truly[OF cat _ _ d] used by auto
  then show ?thesis using d by (auto simp: shelf_material_def)
qed

theorem controls_match_the_guard_witness:
  "\<exists>v. MaterialsPage desk now_exchange now_exchange (Some ''t'') ''/materials'' (shelf_world [], []) = (MaterialsView v, (shelf_world [], []))
    \<and> mv_addForm v \<and> \<not> isl (jwt_canActivate (ae_jwtVerify (da_api desk)) (route.truncate (admins POST [Lit ''materials''] Materials_create))
        (hq_authorization (dashboard_request desk POST [''materials''] (JObj []) JNull (Some ''t''))) (w_db (shelf_world [])))"
proof -
  obtain v where p: "MaterialsPage desk now_exchange now_exchange (Some ''t'') ''/materials'' (shelf_world [], []) = (MaterialsView v, (shelf_world [], []))"
      and v: "mv_addForm v"
    using shelf_page by (fastforce simp: materials_view_of_def Let_def)
  have "admins POST [Lit ''materials''] Materials_create \<in> {admins POST [Lit ''materials''] Materials_create,
      admins PATCH [Lit ''materials'', Param] Materials_update, admins DELETE [Lit ''materials'', Param] Materials_remove}" by simp
  from controls_match_the_guard[OF p this, of "[''materials'']" "JObj []" JNull] v p show ?thesis by (auto simp: route_defs)
qed

end
