(* ===== verification/DashboardBatches.thy ===== *)
theory DashboardBatches
  imports DashboardMaterials
begin

text \<open>
  The pages of the dashboard on batches and weigh-ins (\<open>apps/dashboard/src/app/page.tsx\<close>, \<open>events/page.tsx\<close>,
  \<open>batches/[id]/page.tsx\<close> and \<open>batches/[id]/report/page.tsx\<close>): what each shows of the answers of the backend, and
  the two actions of the batch page.  A definition list is a list of pairs of texts, a table a list
  of rows of texts; a pill is a tone with its text.
\<close>

type_synonym pill = "data_tone \<times> string"
type_synonym texts = "(string \<times> string) list"

datatype 'v page = SignedOut | Unavailable | PageThrew | View 'v

text \<open>What a page makes of its first call: its view, or one of its two texts.\<close>

definition page_of :: "failure + 'a \<Rightarrow> ('a \<Rightarrow> 'v page) \<Rightarrow> 'v page" where
  "page_of r f = (case r of Inl e \<Rightarrow> if unauthorised e then SignedOut else Unavailable | Inr a \<Rightarrow> f a)"

section \<open>The overview\<close>

definition plural :: "int \<Rightarrow> string \<Rightarrow> string" where
  "plural n ending = (if n = 1 then '''' else ending)"

record overview_row =
  or_id :: string
  or_link :: string
  or_material :: string
  or_status :: pill
  or_count :: nat
  or_weight :: string
  or_root :: string
  or_proof :: pill
  or_created :: string

definition overview_row_of :: "dashboard \<Rightarrow> BatchEntity \<times> AnchorRecordEntity option \<Rightarrow> overview_row" where
  "overview_row_of D ba = (case ba of (b, anchor) \<Rightarrow>
     \<lparr>or_id = take 8 (b_id b), or_link = ''/batches/'' @ b_id b, or_material = b_material b,
      or_status = (batchTone (b_status b) (anchor \<noteq> None), status_name (b_status b)),
      or_count = b_eventCount b, or_weight = dashboard_formatKg D (b_totalWeightKg b) @ '' kg'', or_root = shortHash (b_merkleRoot b) 8,
      or_proof = (if anchor \<noteq> None then (tone_verified, ''on Stellar'')
        else if b_status b = open then (tone_neutral, ''not sealed'') else (tone_pending, ''awaiting anchor'')),
      or_created = formatDateTime D (Some (toISOString (b_createdAt b)))\<rparr>)"

record overview =
  ov_stats :: texts
  ov_banner :: "(string \<times> texts) option"
  ov_rows :: "overview_row list"

definition banner_of :: "AnchorHealth \<Rightarrow> string \<times> texts" where
  "banner_of h = (int_to_string (int (hl_stuck h)) @ '' batch'' @ plural (int (hl_stuck h)) ''es'' @ '' cannot be anchored'',
     map (\<lambda>b. (take 8 (aw_batchId b), int_to_string (int (aw_failedAttempts b)) @ '' failed attempt''
         @ plural (int (aw_failedAttempts b)) ''s'' @ middot @ with_default (aw_lastDetail b) ''no detail recorded''))
       (filter aw_stuck (hl_batches h)))"

definition batch_list :: "answer \<Rightarrow> (BatchEntity \<times> AnchorRecordEntity option) list" where
  "batch_list a = (case a of BatchList bs \<Rightarrow> bs | _ \<Rightarrow> [])"

definition health_of :: "failure + answer \<Rightarrow> AnchorHealth option" where
  "health_of r = (case r of Inr (Health h) \<Rightarrow> Some h | _ \<Rightarrow> None)"

definition overview_of :: "dashboard \<Rightarrow> (BatchEntity \<times> AnchorRecordEntity option) list \<Rightarrow> AnchorHealth option \<Rightarrow> overview" where
  "overview_of D bs health = (let anchored = length (filter (\<lambda>(b, a). a \<noteq> None) bs); n = int_to_string (int (length bs));
       totalKg = js_sum (map (\<lambda>(b, a). b_totalWeightKg b) bs)
     in \<lparr>ov_stats = [(''Batches'', n), (''Anchored'', int_to_string (int anchored) @ '' / '' @ n),
           (''Collected'', dashboard_formatKg D totalKg @ '' kg''), (''Tonnes'', js_toFixed 4 (js_div totalKg (js_of_int 1000)))],
         ov_banner = (case health of None \<Rightarrow> None | Some h \<Rightarrow> if hl_stuck h > 0 then Some (banner_of h) else None),
         ov_rows = map (overview_row_of D) bs\<rparr>)"

text \<open>The health is asked for after the list; its failure hides the banner only.\<close>

definition BatchesPage :: "dashboard \<Rightarrow> exchange \<Rightarrow> exchange \<Rightarrow> string option \<Rightarrow> server \<Rightarrow> overview page \<times> server" where
  "BatchesPage D x1 x2 token st = (case api_listBatches D x1 token st of
      (Inl e, st1) \<Rightarrow> (if unauthorised e then SignedOut else Unavailable, st1)
    | (Inr a, st1) \<Rightarrow> (case api_anchorHealth D x2 token st1 of (h, st2) \<Rightarrow>
        (View (overview_of D (batch_list a) (health_of h)), st2)))"

section \<open>The weigh-ins\<close>

record event_line =
  el_captured :: string
  el_weight :: string
  el_material :: string
  el_integrity :: pill
  el_failed :: string
  el_batch :: string

definition event_line_of :: "dashboard \<Rightarrow> CollectionEventEntity \<Rightarrow> event_line" where
  "event_line_of D e = (let failing = filter (\<lambda>f. f_outcome f = fail) (v_findings (e_integrity e)) in
     \<lparr>el_captured = formatDateTime D (Some (toISOString (e_capturedAt e))), el_weight = dashboard_formatKg D (e_weightKg e) @ '' kg'',
      el_material = e_material e,
      el_integrity = (if e_quarantined e then tone_broken
          else if v_outcome (e_integrity e) = warn then tone_pending else tone_verified,
        if e_quarantined e then ''quarantined'' else outcome_name (v_outcome (e_integrity e))),
      el_failed = (if failing = [] then ''--'' else join_with '', '' (map (\<lambda>f. check_name (f_check f)) failing)),
      el_batch = (if has_text (e_batchId e) then take 8 (the (e_batchId e)) else shortHash None 10)\<rparr>)"

record events_view =
  ew_stats :: texts
  ew_heading :: string
  ew_rows :: "event_line list"

definition events_view_of :: "dashboard \<Rightarrow> bool \<Rightarrow> CollectionEventEntity list \<Rightarrow> events_view" where
  "events_view_of D onlyQuarantined es = (let n = int (length es); clean = int (length (filter (\<lambda>e. \<not> e_quarantined e) es)) in
     \<lparr>ew_stats = [(''Shown'', int_to_string n), (''Clean'', int_to_string clean), (''Quarantined'', int_to_string (n - clean)),
        (''Capture rate'', (if n = 0 then ''--''
           else js_toFixed 1 (js_mul (js_div (js_of_int clean) (js_of_int n)) (js_of_int 100))) @ '' %'')],
      ew_heading = (if onlyQuarantined then ''Quarantined weigh-ins'' else ''Recent weigh-ins''),
      ew_rows = map (event_line_of D) es\<rparr>)"

definition event_list :: "answer \<Rightarrow> CollectionEventEntity list" where
  "event_list a = (case a of EventList es \<Rightarrow> es | _ \<Rightarrow> [])"

definition EventsPage :: "dashboard \<Rightarrow> exchange \<Rightarrow> string option \<Rightarrow> string \<Rightarrow> server \<Rightarrow> events_view page \<times> server" where
  "EventsPage D x token url st = (let onlyQuarantined = (search_param ''quarantined'' url = Some ''true'') in
     case api_listEvents (if onlyQuarantined then [(''quarantined'', ''true''), (''limit'', ''200'')] else [(''limit'', ''200'')]) D x token st of
       (r, st') \<Rightarrow> (page_of r (\<lambda>a. View (events_view_of D onlyQuarantined (event_list a))), st'))"

section \<open>Actions on a batch\<close>

text \<open>
  The message of a failed action: that of the body (a text, or a list of texts), else its text, cut
  when it is not JSON or nothing can be read of it.  \<open>None\<close> for the whole when \<open>fetch\<close> rejects.
\<close>

definition failure_text :: "failed_reply \<Rightarrow> string" where
  "failure_text r = (case rp_json r of
      None \<Rightarrow> take 300 (rp_text r)
    | Some body \<Rightarrow> if body = JNull then take 300 (rp_text r)
        else (case jfield ''message'' body of
          JStr m \<Rightarrow> m | JArr ms \<Rightarrow> join_with ''; '' (map text_of ms) | _ \<Rightarrow> rp_text r))"

definition mutate :: "dashboard \<Rightarrow> exchange \<Rightarrow> string list \<Rightarrow> json \<Rightarrow> string option \<Rightarrow> server \<Rightarrow> string option option \<times> server" where
  "mutate D x path body token st = (case send D x (dashboard_request D POST path (JObj []) body token) st of
      (None, st') \<Rightarrow> (None, st')
    | (Some (Inl r), st') \<Rightarrow> (Some (Some (failure_text r)), st')
    | (Some (Inr _), st') \<Rightarrow> (Some None, st'))"

definition batch_url :: "string \<Rightarrow> string \<Rightarrow> string" where
  "batch_url i m = ''/batches/'' @ i @ ''?error='' @ encodeURIComponent m"

definition after_action :: "string \<Rightarrow> string option option \<Rightarrow> navigation" where
  "after_action i r = (case r of
      None \<Rightarrow> ErrorPage
    | Some failure \<Rightarrow> if has_text failure then GoTo (batch_url i (the failure)) else Stay)"

definition sealBatch :: "dashboard \<Rightarrow> exchange \<Rightarrow> string \<Rightarrow> string option \<Rightarrow> server \<Rightarrow> navigation \<times> server" where
  "sealBatch D x i token st = (case mutate D x [''batches'', i, ''seal''] JUndefined token st of (r, st') \<Rightarrow> (after_action i r, st'))"

definition advance :: "dashboard \<Rightarrow> exchange \<Rightarrow> string \<Rightarrow> string option \<Rightarrow> form_data \<Rightarrow> server \<Rightarrow> navigation \<times> server" where
  "advance D x i token f st = (case mutate D x [''batches'', i, ''status''] (JObj [(''status'', JStr (form_text ''status'' f))]) token st of
      (r, st') \<Rightarrow> (after_action i r, st'))"

section \<open>The page of a batch\<close>

definition pass_tone :: "bool \<Rightarrow> data_tone" where
  "pass_tone passed = (if passed then tone_verified else tone_pending)"

fun attempt_outcome_name :: "AnchorAttemptOutcome \<Rightarrow> string" where
  "attempt_outcome_name failed = ''failed''"
| "attempt_outcome_name unverified = ''unverified''"
| "attempt_outcome_name succeeded = ''succeeded''"

definition attempt_cells :: "dashboard \<Rightarrow> AnchorAttemptEntity \<Rightarrow> data_tone \<times> string list" where
  "attempt_cells D a = (pass_tone (at_outcome a = succeeded), [int_to_string (int (at_attemptNumber a)), formatDateTime D (Some (toISOString (at_occurredAt a))),
     attempt_outcome_name (at_outcome a), with_default (at_detail a) ''--''
       @ (if has_text (at_stellarTxHash a) then '' '' @ shortHash (at_stellarTxHash a) 8 else '''')])"

text \<open>The transaction of an anchor, in a public explorer of the ledger.\<close>

definition tx_link :: "AnchorRecordEntity \<Rightarrow> string" where
  "tx_link a = ''https://stellar.expert/explorer/'' @ (if a_network a = public then ''public'' else ''testnet'') @ ''/tx/'' @ a_stellarTxHash a"

lemma tx_link_explorer: "tx_link a = explorerUrl (a_network a) (a_stellarTxHash a)"
  by (cases "a_network a") (simp_all add: tx_link_def explorerUrl_def)

definition proof_link :: "dashboard \<Rightarrow> BatchEntity \<Rightarrow> CollectionEventEntity \<Rightarrow> string option" where
  "proof_link D b e = (if has_text (b_merkleRoot b) then Some (with_default (da_publicUrl D) ''http://localhost:3000''
       @ ''/batches/'' @ b_id b @ ''/verify/'' @ e_id e) else None)"

record member_row =
  mm_captured :: string
  mm_weight :: string
  mm_integrity :: pill
  mm_payload :: string
  mm_proof :: "string option"

definition member_row_of :: "dashboard \<Rightarrow> BatchEntity \<Rightarrow> CollectionEventEntity \<Rightarrow> member_row" where
  "member_row_of D b e = \<lparr>mm_captured = formatDateTime D (Some (toISOString (e_capturedAt e))),
     mm_weight = dashboard_formatKg D (e_weightKg e) @ '' kg'',
     mm_integrity = (pass_tone (v_outcome (e_integrity e) = pass), outcome_name (v_outcome (e_integrity e))),
     mm_payload = shortHash (Some (e_payloadHash e)) 8, mm_proof = proof_link D b e\<rparr>"

record batch_view =
  bv_heading :: string
  bv_sealText :: "string option"
  bv_advance :: "(string \<times> string) option"
  bv_error :: "string option"
  bv_stats :: texts
  bv_tone :: data_tone
  bv_proofState :: "data_tone option"
  bv_proofHeading :: string
  bv_proof :: texts
  bv_txLink :: "string option"
  bv_attempts :: "(data_tone \<times> string list) list"
  bv_members :: "member_row list"

definition anchor_lines :: "dashboard \<Rightarrow> AnchorRecordEntity \<Rightarrow> texts" where
  "anchor_lines D a = [(''Stellar tx'', a_stellarTxHash a), (''Ledger'', int_to_string (a_stellarLedger a)),
     (''Anchored'', formatDateTime D (Some (toISOString (a_anchoredAt a))))]"

definition awaiting_lines :: "dashboard \<Rightarrow> AwaitingAnchor \<Rightarrow> texts" where
  "awaiting_lines D w = (if aw_failedAttempts w = 0 then []
     else [(''Failed attempts'', int_to_string (int (aw_failedAttempts w))),
       (''Last attempt'', (case aw_lastOutcome w of None \<Rightarrow> '''' | Some oc \<Rightarrow> attempt_outcome_name oc) @ middot
          @ with_default (aw_lastDetail w) ''no detail recorded''
          @ (if has_text (aw_lastAttemptAt w) then '' ('' @ formatDateTime D (aw_lastAttemptAt w) @ '')'' else '''')),
       (''Next attempt'', if has_text (aw_nextAttemptAt w) then formatDateTime D (aw_nextAttemptAt w) else ''due now'')])"

definition seal_warning :: "BatchEntity \<Rightarrow> string" where
  "seal_warning b = ''Sealing freezes this batch's '' @ int_to_string (int (b_eventCount b))
     @ '' weigh-ins and computes the Merkle root that will be anchored on-chain. It cannot be undone.''"

text \<open>The button that moves a batch on: what it submits, and its label.\<close>

definition advance_button :: "BatchStatus \<Rightarrow> (string \<times> string) option" where
  "advance_button status = (if status = sealed then Some (''processed'', ''Mark processed'')
     else if status = processed then Some (''sold'', ''Mark sold'') else None)"

definition batch_view_of :: "dashboard \<Rightarrow> BatchEntity \<Rightarrow> AnchorRecordEntity option \<Rightarrow> CollectionEventEntity list
    \<Rightarrow> AnchorAttemptEntity list \<Rightarrow> AwaitingAnchor option \<Rightarrow> string option \<Rightarrow> batch_view" where
  "batch_view_of D b anchor es history awaiting error = (let anchored = (anchor \<noteq> None);
       stuck = (case awaiting of None \<Rightarrow> False | Some w \<Rightarrow> aw_stuck w);
       collectedKg = js_sum (map e_weightKg es)
     in \<lparr>bv_heading = b_material b @ middot @ dashboard_formatKg D (b_totalWeightKg b) @ '' kg'',
         bv_sealText = (if b_status b = open then Some (seal_warning b) else None),
         bv_advance = advance_button (b_status b), bv_error = error,
         bv_stats = [(''Status'', status_name (b_status b)), (''Weigh-ins'', int_to_string (int (length es))),
           (''Collected'', dashboard_formatKg D collectedKg @ '' kg''), (''Tonnes'', js_toFixed 4 (js_div collectedKg (js_of_int 1000))),
           (''Sealed'', formatDateTime D (map_option toISOString (b_sealedAt b)))],
         bv_tone = batchTone (b_status b) anchored,
         bv_proofState = (if anchored then Some tone_verified else if stuck then Some tone_broken
           else if has_text (b_merkleRoot b) then Some tone_pending else None),
         bv_proofHeading = (if anchored then ''Anchored on Stellar'' else if stuck then ''Sealed -- anchoring is failing''
           else if has_text (b_merkleRoot b) then ''Sealed -- awaiting the anchor worker'' else ''Not sealed''),
         bv_proof = (''Merkle root'', with_default (b_merkleRoot b) ''not computed until the batch is sealed'')
           # (case anchor of None \<Rightarrow> [] | Some a \<Rightarrow> anchor_lines D a)
           @ (case awaiting of None \<Rightarrow> [] | Some w \<Rightarrow> awaiting_lines D w),
         bv_txLink = map_option tx_link anchor, bv_attempts = map (attempt_cells D) history, bv_members = map (member_row_of D b) es\<rparr>)"

text \<open>
  The history of a sealed batch is asked for after the batch; for one that is not anchored the health
  too, and when that call fails the history is dropped.
\<close>

definition anchor_context :: "dashboard \<Rightarrow> exchange \<Rightarrow> exchange \<Rightarrow> string option \<Rightarrow> BatchEntity \<Rightarrow> bool \<Rightarrow> server
    \<Rightarrow> (AnchorAttemptEntity list \<times> AwaitingAnchor option) \<times> server" where
  "anchor_context D x3 x4 token b anchored st = (if \<not> has_text (b_merkleRoot b) then (([], None), st)
     else (case api_anchorAttempts (b_id b) D x3 token st of
         (Inl _, st1) \<Rightarrow> (([], None), st1)
       | (Inr a, st1) \<Rightarrow> (let history = (case a of Attempts xs \<Rightarrow> xs | _ \<Rightarrow> []) in
           if anchored then ((history, None), st1)
           else (case api_anchorHealth D x4 token st1 of (h, st2) \<Rightarrow> (case health_of h of
               None \<Rightarrow> (([], None), st2)
             | Some health \<Rightarrow> ((history, find_one (\<lambda>w. aw_batchId w = b_id b) (hl_batches health)), st2))))))"

definition batch_of :: "answer \<Rightarrow> (BatchEntity \<times> AnchorRecordEntity option) option" where
  "batch_of a = (case a of TheBatch b anchor \<Rightarrow> Some (b, anchor) | _ \<Rightarrow> None)"

text \<open>The error of the URL is decoded once more here; a stray percent sign makes that throw.\<close>

definition BatchPage :: "dashboard \<Rightarrow> exchange \<Rightarrow> exchange \<Rightarrow> exchange \<Rightarrow> exchange \<Rightarrow> string \<Rightarrow> string option \<Rightarrow> string \<Rightarrow> server
    \<Rightarrow> batch_view page \<times> server" where
  "BatchPage D x1 x2 x3 x4 i token url st = (case api_getBatch i D x1 token st of (rb, st1) \<Rightarrow>
     (case api_batchEvents i D x2 token st1 of (re, st2) \<Rightarrow>
       (case (rb, re) of
          (Inl e, _) \<Rightarrow> (if unauthorised e then SignedOut else Unavailable, st2)
        | (_, Inl e) \<Rightarrow> (if unauthorised e then SignedOut else Unavailable, st2)
        | (Inr a, Inr es) \<Rightarrow> (case batch_of a of
             None \<Rightarrow> (PageThrew, st2)
           | Some (b, anchor) \<Rightarrow> (case anchor_context D x3 x4 token b (anchor \<noteq> None) st2 of ((history, awaiting), st3) \<Rightarrow>
               (let shown = (\<lambda>error. View (batch_view_of D b anchor (event_list es) history awaiting error));
                    error = search_param ''error'' url
                in (if \<not> has_text error then shown None
                    else (case decodeURIComponent (the error) of None \<Rightarrow> PageThrew | Some m \<Rightarrow> shown (Some m)), st3)))))))"

section \<open>What the page of a batch shows\<close>

lemma batch_routes_fixed:
  "find_route GET [''batches'', ''pending-anchor''] = Some (anyone GET [Lit ''batches'', Lit ''pending-anchor''] Batches_pendingAnchor)"
  "find_route GET [''batches'', ''''] = None"
  by (simp_all add: find_route_def find_one_def ROUTES_def root_routes_def auth_routes_def health_routes_def users_routes_def
      registry_routes_def events_routes_def photos_routes_def batches_routes_def custody_routes_def reports_routes_def
      materials_routes_def route_defs)

lemma unrouted_call:
  assumes "find_route v path = None" and "api_request D x v path query body token (w, bs) = (r, st)"
  shows "isl r"
  using assms by (auto simp: api_request_def send_def respond_def split: fate.splits prod.splits)

lemma handled_call:
  assumes "find_route v path = Some rt" and "api_request D x v path query body token (w, bs) = (Inr a, (w', bs'))"
  shows "\<exists>user. handle (ar_handler rt) (da_api D) (xc_ids x) (call_of rt (dashboard_request D v path query body token) user) w = Inr (a, w')"
  by (rule answered_call[OF assms]) blast

lemma batch_read:
  assumes "api_getBatch i D x token (w, bs) = (Inr a, (w', bs'))" and "batch_of a = Some (b, anchor)"
  shows "w' = w" and "get_by b_id i (batches (w_db w)) = Some b" and "anchor = anchor_of i (w_db w)" and "i \<noteq> ''''"
proof -
  note call = assms(1)[unfolded api_getBatch_def api_get_def]
  have i: "i \<notin> {'''', ''pending-anchor'', ''anchor-health''}"
  proof -
    have "i \<noteq> ''''" using unrouted_call[OF batch_routes_fixed(2)] call by fastforce
    moreover have "i \<noteq> ''pending-anchor''"
    proof
      assume i: "i = ''pending-anchor''"
      have "\<exists>p. a = Pending p" using handled_call[OF batch_routes_fixed(1) call[unfolded i]] by (auto simp: route_defs)
      then show False using assms(2) by (auto simp: batch_of_def)
    qed
    moreover have "i \<noteq> ''anchor-health''"
    proof
      assume i: "i = ''anchor-health''"
      have "\<exists>h. a = Health h" using handled_call[OF dashboard_routes(6) call[unfolded i]] by (auto simp: route_defs)
      then show False using assms(2) by (auto simp: batch_of_def)
    qed
    ultimately show ?thesis by blast
  qed
  then show "i \<noteq> ''''" by simp
  note route = batch_route[OF i]
  show "w' = w" using reading_call[OF route _ call] by (simp add: route_defs writes_def)
  obtain user bs1 where "handle Batches_findOne (da_api D) (xc_ids x) (call_of (members GET [Lit ''batches'', Param] Batches_findOne)
      (dashboard_request D GET [''batches'', i] (JObj []) JUndefined token) user) w = Inr (a, w')"
    by (rule answered_call[OF route call]) (simp add: route_defs)
  then have "reading (\<lambda>b. TheBatch b (anchor_of i (w_db w))) (findOne_batch i (w_db w)) w = Inr (a, w')"
    by (auto simp: and_then_Inr uuid_param_def call_of_def route_defs split: if_splits)
  then show "get_by b_id i (batches (w_db w)) = Some b" and "anchor = anchor_of i (w_db w)"
    using assms(2) by (auto simp: reading_def findOne_batch_def batch_of_def split: option.splits sum.splits)
qed

lemma members_read:
  assumes "api_batchEvents i D x token (w, bs) = (r, (w', bs'))" and "i \<noteq> ''''"
  shows "w' = w" and "r = Inr a \<Longrightarrow> event_list a = orderedEvents i (w_db w)"
proof -
  note call = assms(1)[unfolded api_batchEvents_def api_get_def] and route = dashboard_param_routes(5)[OF assms(2)]
  show "w' = w" using reading_call[OF route _ call] by (simp add: route_defs writes_def)
  assume r: "r = Inr a"
  obtain user bs1 where "handle Batches_events (da_api D) (xc_ids x) (call_of (members GET [Lit ''batches'', Param, Lit ''events''] Batches_events)
      (dashboard_request D GET [''batches'', i, ''events''] (JObj []) JUndefined token) user) w = Inr (a, w')"
    by (rule answered_call[OF route call[unfolded r]]) (simp add: route_defs)
  then have "reading EventList (eventsOf i (w_db w)) w = Inr (a, w')"
    by (auto simp: and_then_Inr uuid_param_def call_of_def route_defs split: if_splits)
  then show "event_list a = orderedEvents i (w_db w)"
    by (auto simp: reading_def eventsOf_def event_list_def split: sum.splits)
qed

lemma context_reads:
  assumes "anchor_context D x3 x4 token b anchored (w, bs) = (r, (w', bs'))" and "b_id b \<noteq> ''''"
  shows "w' = w"
proof -
  note route = dashboard_param_routes(7)[OF assms(2)]
  obtain ra w1 bs1 where a: "api_request D x3 GET [''batches'', b_id b, ''anchor-attempts''] (JObj []) JUndefined token (w, bs) = (ra, (w1, bs1))"
    by (rule prod_cases3)
  obtain rh w2 bs2 where h: "api_request D x4 GET [''batches'', ''anchor-health''] (JObj []) JUndefined token (w1, bs1) = (rh, (w2, bs2))"
    by (rule prod_cases3)
  have "w1 = w" "w2 = w1"
    using reading_call[OF route _ a] reading_call[OF dashboard_routes(6) _ h] by (simp_all add: route_defs writes_def)
  then show ?thesis using assms(1) a h
    by (auto simp: anchor_context_def api_anchorAttempts_def api_anchorHealth_def api_get_def Let_def split: if_splits sum.splits option.splits)
qed

text \<open>The page does not depend on the URL but for the error.\<close>

lemma BatchPage_cases:
  assumes "BatchPage D x1 x2 x3 x4 i token url (w, bs) = (p, (w1, bs1))"
  obtains (failed) "\<And>url'. BatchPage D x1 x2 x3 x4 i token url' (w, bs) = (p, (w1, bs1))" "\<And>v. p \<noteq> View v"
    | (read) b history awaiting where "get_by b_id i (batches (w_db w)) = Some b" "w1 = w"
        "\<And>url'. BatchPage D x1 x2 x3 x4 i token url' (w, bs) = (let error = search_param ''error'' url';
           shown = (\<lambda>error. View (batch_view_of D b (anchor_of i (w_db w)) (orderedEvents i (w_db w)) history awaiting error)) in
           (if \<not> has_text error then shown None
            else case decodeURIComponent (the error) of None \<Rightarrow> PageThrew | Some m \<Rightarrow> shown (Some m), (w1, bs1)))"
proof -
  obtain rb wb bsb where b: "api_getBatch i D x1 token (w, bs) = (rb, (wb, bsb))" by (rule prod_cases3)
  obtain re we bse where e: "api_batchEvents i D x2 token (wb, bsb) = (re, (we, bse))" by (rule prod_cases3)
  note page = BatchPage_def[of D x1 x2 x3 x4 i token _ "(w, bs)", unfolded b e prod.case]
  show ?thesis
  proof (cases "\<exists>a es. rb = Inr a \<and> re = Inr es \<and> batch_of a \<noteq> None")
    case False
    then have "\<And>url'. BatchPage D x1 x2 x3 x4 i token url' (w, bs) = BatchPage D x1 x2 x3 x4 i token url (w, bs)"
        "\<And>v. fst (BatchPage D x1 x2 x3 x4 i token url (w, bs)) \<noteq> View v"
      unfolding page by (auto split: sum.splits option.splits)
    then show ?thesis using assms failed by simp
  next
    case True
    then obtain a es bt anchor where r: "rb = Inr a" "re = Inr es" "batch_of a = Some (bt, anchor)" by auto
    note g = batch_read[OF b[unfolded r(1)] r(3)]
    note m = members_read[OF e g(4)]
    obtain ctx wc bsc where c: "anchor_context D x3 x4 token bt (anchor \<noteq> None) (we, bse) = (ctx, (wc, bsc))" by (rule prod_cases3)
    have "b_id bt \<noteq> ''''" using g(2,4) by (auto dest: get_by_SomeD)
    then have w: "wc = w" using context_reads[OF c] m(1) g(1) by simp
    obtain history awaiting where ctx: "ctx = (history, awaiting)" by fastforce
    note shown = page[unfolded r sum.case prod.case option.case c ctx]
    have st: "(w1, bs1) = (w, bsc)" using assms unfolding shown w by (auto simp: Let_def)
    have es: "event_list es = orderedEvents i (w_db w)" using m(2)[OF r(2)] g(1) by simp
    show ?thesis
      by (rule read[OF g(2)]) (use st w es g(3) in \<open>simp_all add: shown Let_def\<close>)
  qed
qed

lemma shown_batch:
  assumes "BatchPage D x1 x2 x3 x4 i token url (w, bs) = (View v, (w1, bs1))"
  obtains b history awaiting error where "get_by b_id i (batches (w_db w)) = Some b" "w1 = w"
    "v = batch_view_of D b (anchor_of i (w_db w)) (orderedEvents i (w_db w)) history awaiting error"
  using assms
proof (cases rule: BatchPage_cases)
  case (read b history awaiting)
  from read(3)[of url] assms show ?thesis
    by (auto simp: Let_def split: if_splits option.splits intro: that[OF read(1,2)])
next
  case failed
  then show ?thesis by blast
qed


text \<open>
  The reason of a failed action goes through the URL.  It is decoded once by the framework and once by
  the page, so a reason with a percent sign that starts no escape, like the text of a gateway in
  front of the backend, is not shown: the page itself fails.
\<close>

lemma batch_url_param: "CHR ''?'' \<notin> set i \<Longrightarrow> search_param ''error'' (batch_url i m) = Some m"
  using search_param_encoded[of "''/batches/'' @ i" "''error''" m] by (simp add: batch_url_def)

theorem reason_is_decoded_twice:
  assumes "sealBatch D x i token st = (GoTo url, st')" and "xc_fate x = Refused status" and "da_gateway D status = (reason, None)"
    and "BatchPage D x1 x2 x3 x4 i token (''/batches/'' @ i) (w, bs) = (View v, (w1, bs1))" and "CHR ''?'' \<notin> set i"
  shows "st' = st \<and> BatchPage D x1 x2 x3 x4 i token url (w, bs)
    = (case decodeURIComponent (take 300 reason) of None \<Rightarrow> PageThrew | Some t \<Rightarrow> View (v\<lparr>bv_error := Some t\<rparr>), (w1, bs1))"
proof -
  have r: "mutate D x [''batches'', i, ''seal''] JUndefined token st = (Some (Some (take 300 reason)), st)"
    using assms(2,3) by (auto simp: mutate_def send_def failure_text_def gateway_reply_def split: prod.splits)
  then have url: "st' = st" "url = batch_url i (take 300 reason)" "take 300 reason \<noteq> ''''"
    using assms(1) by (auto simp: sealBatch_def after_action_def has_text_def split: if_splits)
  have u: "search_param ''error'' url = Some (take 300 reason)" unfolding url(2) by (rule batch_url_param[OF assms(5)])
  have n: "search_param ''error'' (''/batches/'' @ i) = None"
  proof -
    have nil: "dropWhile (\<lambda>c. c \<noteq> CHR ''?'') i = []" using assms(5) by (auto simp: dropWhile_eq_Nil_conv)
    show ?thesis by (simp add: search_param_def query_pairs_def nil del: dropWhile_eq_Nil_conv)
  qed
  from assms(4) show ?thesis
  proof (cases rule: BatchPage_cases)
    case (read b history awaiting)
    have v: "v = batch_view_of D b (anchor_of i (w_db w)) (orderedEvents i (w_db w)) history awaiting None"
      using assms(4) unfolding read(3)[of "''/batches/'' @ i"] n by (simp add: Let_def has_text_def)
    have "batch_view_of D b (anchor_of i (w_db w)) (orderedEvents i (w_db w)) history awaiting (Some t) = v\<lparr>bv_error := Some t\<rparr>" for t
      by (simp add: v batch_view_of_def Let_def)
    then show ?thesis unfolding read(3)[of url] u using url(1,3) by (simp add: Let_def has_text_def split: option.splits)
  next
    case failed
    then show ?thesis by blast
  qed
qed

section \<open>What the overview shows\<close>

lemma listed_batches:
  assumes "BatchesPage D x1 x2 token (w, bs) = (View v, (w1, bs1))"
  obtains h where "w1 = w" "v = overview_of D (list_batches None (w_db w)) h"
proof -
  obtain r wa bsa where l: "api_request D x1 GET [''batches''] (JObj []) JUndefined token (w, bs) = (r, (wa, bsa))" by (rule prod_cases3)
  obtain h wh bsh where h: "api_request D x2 GET [''batches'', ''anchor-health''] (JObj []) JUndefined token (wa, bsa) = (h, (wh, bsh))"
    by (rule prod_cases3)
  have w: "wa = w" "wh = wa"
    using reading_call[OF dashboard_routes(4) _ l] reading_call[OF dashboard_routes(6) _ h] by (simp_all add: route_defs writes_def)
  note page = assms[unfolded BatchesPage_def api_listBatches_def api_anchorHealth_def api_get_def l h prod.case]
  obtain a where a: "r = Inr a" using page by (cases r) (auto split: if_splits)
  then have v: "v = overview_of D (batch_list a) (health_of h)" "w1 = wh" using page by (auto simp: h)
  obtain user where "handle Batches_list (da_api D) (xc_ids x1) (call_of (members GET [Lit ''batches''] Batches_list)
      (dashboard_request D GET [''batches''] (JObj []) JUndefined token) user) w = Inr (a, wa)"
    using handled_call[OF dashboard_routes(4) l[unfolded a]] by (auto simp: route_defs)
  then have "batch_list a = list_batches None (w_db w)"
    by (auto simp: batches_list_def call_of_def jfield_def with_default_def string_of_def batch_list_def)
  then show ?thesis using v w by (intro that[of "health_of h"]) simp_all
qed

text \<open>Green means anchored: a batch that the overview colours as verified is past open, its root is on the ledger
  by an anchor of the table, and it is the root that the weigh-ins stored now give.\<close>

theorem green_means_anchored:
  assumes "BatchesPage D x1 x2 token (w, bs) = (View v, (w1, bs1))" and "core_ok (w_db w)" and "row \<in> set (ov_rows v)"
    and "fst (or_proof row) = tone_verified \<or> fst (or_status row) = tone_verified"
  shows "\<exists>b a. b \<in> set (batches (w_db w)) \<and> or_link row = ''/batches/'' @ b_id b \<and> b_status b \<noteq> open
    \<and> a \<in> set (anchors (w_db w)) \<and> a_batchId a = b_id b
    \<and> a_merkleRoot a = level_root (leavesOf (orderedEvents (b_id b) (w_db w)))"
proof -
  obtain h where v: "v = overview_of D (list_batches None (w_db w)) h" by (rule listed_batches[OF assms(1)])
  then obtain b where b: "b \<in> set (batches (w_db w))" "row = overview_row_of D (b, anchor_of (b_id b) (w_db w))"
    using assms(3) by (auto simp: overview_of_def list_batches_def Let_def)
  then obtain a where a: "anchor_of (b_id b) (w_db w) = Some a"
    using assms(4) by (auto simp: overview_row_of_def batchTone_def split: if_splits)
  then have a': "a \<in> set (anchors (w_db w))" "a_batchId a = b_id b" by (auto simp: anchor_of_def dest: get_by_SomeD)
  have ids: "distinct (map b_id (batches (w_db w)))" using assms(2) by (rule core_okD(3))
  obtain b' where b': "b' \<in> set (batches (w_db w))" "b_id b' = b_id b" "b_status b' \<noteq> open" "b_merkleRoot b' = Some (a_merkleRoot a)"
    using assms(2) a' by (auto simp: core_ok_def batches_ok_def anchor_ok_def)
  then have "b' = b" using b(1) ids by (auto dest: distinct_key_eq)
  then have s: "b_status b \<noteq> open" "b_merkleRoot b = Some (a_merkleRoot a)" using b' by auto
  have "get_by b_id (b_id b) (batches (w_db w)) = Some b" using b(1) ids by (simp add: get_by_iff)
  from sealed_root(2)[OF assms(2) this s(1)] s show ?thesis
    using a' b by (intro exI[of _ b] exI[of _ a]) (simp add: overview_row_of_def)
qed

section \<open>A batch to instantiate the statements with\<close>

definition batch_world :: world where
  "batch_world = first_world\<lparr>w_db := sealed_db\<lparr>users := [run_admin]\<rparr>\<rparr>"

lemma batch_world_simps [simp]:
  "users (w_db batch_world) = [run_admin]" "batches (w_db batch_world) = batches sealed_db" "events (w_db batch_world) = events sealed_db"
  by (simp_all add: batch_world_def)

lemma core_ok_users: "core_ok (s\<lparr>users := us\<rparr>) = core_ok s"
proof -
  have o: "orderedEvents i (s\<lparr>users := us\<rparr>) = orderedEvents i s" "recomputeTotals i (s\<lparr>users := us\<rparr>) = recomputeTotals i s" for i
    by (simp_all add: orderedEvents_def batch_events_def recomputeTotals_def)
  have "member_ok (s\<lparr>users := us\<rparr>) e = member_ok s e" for e
    by (cases "e_batchId e") (simp_all add: member_ok_def)
  moreover have "batch_ok (s\<lparr>users := us\<rparr>) b = batch_ok s b" for b
    by (simp add: batch_ok_def open_ok_def sealed_ok_def o)
  moreover have "anchor_ok (s\<lparr>users := us\<rparr>) a = anchor_ok s a" for a by (simp add: anchor_ok_def)
  ultimately show ?thesis by (simp add: core_ok_def events_ok_def batches_ok_def)
qed

lemma batch_world_core: "core_ok (w_db batch_world)"
  using sealed_core_ok by (simp add: batch_world_def core_ok_users)

lemma batch_world_page:
  assumes "search_param ''error'' url = None"
  shows "\<exists>v st. BatchPage desk now_exchange now_exchange now_exchange now_exchange ''b1'' (Some ''t'') url (batch_world, []) = (View v, st)"
proof -
  obtain b where b: "get_by b_id ''b1'' (batches sealed_db) = Some b" using sealed_lookup by blast
  have r: "api_request desk now_exchange GET [''batches'', ''b1''] (JObj []) JUndefined (Some ''t'') (batch_world, [])
      = (Inr (TheBatch b (anchor_of ''b1'' (w_db batch_world))), (batch_world, []))"
    by (rule desk_request[OF batch_route])
      (simp_all add: route_defs call_of_def uuid_param_def and_then_def reading_def findOne_batch_def b desk_def run_api_def)
  have e: "api_request desk now_exchange GET [''batches'', ''b1'', ''events''] (JObj []) JUndefined (Some ''t'') (batch_world, [])
      = (Inr (EventList (orderedEvents ''b1'' (w_db batch_world))), (batch_world, []))"
    by (rule desk_request[OF dashboard_param_routes(5)])
      (simp_all add: route_defs call_of_def uuid_param_def and_then_def reading_def eventsOf_def findOne_batch_def b desk_def run_api_def)
  obtain history awaiting st where "anchor_context desk now_exchange now_exchange (Some ''t'') b (anchor_of ''b1'' (w_db batch_world) \<noteq> None)
      (batch_world, []) = ((history, awaiting), st)" by (metis prod.exhaust)
  then show ?thesis
    using assms by (simp add: BatchPage_def api_getBatch_def api_batchEvents_def api_get_def r e batch_of_def has_text_def)
qed


theorem reason_is_decoded_twice_witness:
  "\<exists>url st. sealBatch desk (now_exchange\<lparr>xc_fate := Refused 502\<rparr>) ''b1'' (Some ''t'') (batch_world, []) = (GoTo url, (batch_world, []))
    \<and> BatchPage desk now_exchange now_exchange now_exchange now_exchange ''b1'' (Some ''t'') url (batch_world, []) = (PageThrew, st)"
proof -
  have "search_param ''error'' (''/batches/'' @ ''b1'') = None" by code_simp
  then obtain v w1 bs1 where p: "BatchPage desk now_exchange now_exchange now_exchange now_exchange ''b1'' (Some ''t'') (''/batches/'' @ ''b1'') (batch_world, [])
      = (View v, (w1, bs1))" using batch_world_page by (metis prod.exhaust)
  have g: "da_gateway desk 502 = (''100% busy'', None)" "xc_fate (now_exchange\<lparr>xc_fate := Refused 502\<rparr>) = Refused 502" by (simp_all add: desk_def)
  have s: "sealBatch desk (now_exchange\<lparr>xc_fate := Refused 502\<rparr>) ''b1'' (Some ''t'') (batch_world, [])
      = (GoTo (batch_url ''b1'' ''100% busy''), (batch_world, []))"
    using g by (auto simp: sealBatch_def mutate_def send_def after_action_def failure_text_def gateway_reply_def has_text_def split: prod.splits)
  have "decodeURIComponent (take 300 ''100% busy'') = None" by code_simp
  then show ?thesis using reason_is_decoded_twice[OF s g(2,1) p] s by simp
qed

end
