(* ===== verification/DashboardReport.thy ===== *)
theory DashboardReport
  imports DashboardBatches
begin

text \<open>
  The audit report as the dashboard prints it, \<open>apps/dashboard/src/app/batches/[id]/report/page.tsx\<close>: the
  sections of the page, what its verdict rests on, and a case where the verdict says what is not so.
\<close>

section \<open>The page\<close>

text \<open>What is said when there is no report: the explanation, and the line below it.\<close>

definition report_failure :: "string \<Rightarrow> failure \<Rightarrow> string \<times> string" where
  "report_failure i e = (let status = (case e of ApiError s _ \<Rightarrow> Some s | Unreachable \<Rightarrow> None) in
     (if status = Some 404 then ''No batch exists with this identifier.''
      else if status = Some 401 \<or> status = Some 403 then ''This report is not publicly readable. Sign in as an operator to view it.''
      else ''The reporting service could not be reached. This says nothing about the validity of the batch -- try again shortly.'',
      ''Batch '' @ i @ (case status of None \<Rightarrow> '''' | Some s \<Rightarrow> middot @ ''HTTP '' @ int_to_string (int s))))"

definition internallyConsistent :: "AuditReport \<Rightarrow> bool" where
  "internallyConsistent r = (rp_rootMatchesSealedValue (ar_proof r) \<and> rp_allProofsValid (ar_proof r))"

definition ledgerSays :: "AuditReport \<Rightarrow> bool option" where
  "ledgerSays r = (case ar_onChain r of None \<Rightarrow> None | Some c \<Rightarrow> ro_rootMatchesLedger c)"

definition proofState :: "AuditReport \<Rightarrow> data_tone" where
  "proofState r = (if \<not> has_text (rp_merkleRoot (ar_proof r)) then tone_pending
     else if \<not> internallyConsistent r \<or> ledgerSays r = Some False then tone_broken
     else if ledgerSays r = Some True then tone_verified else tone_pending)"

definition proof_heading :: "AuditReport \<Rightarrow> string" where
  "proof_heading r = (
     if proofState r = tone_verified then ''Independently verifiable against the Stellar ledger''
     else if proofState r = tone_pending
       then (if ar_onChain r \<noteq> None then ''Anchored -- awaiting confirmation from the Stellar ledger''
             else ''Sealed and internally consistent -- not yet anchored on-chain'')
     else if proofState r = tone_broken
       then (if ledgerSays r = Some False then ''LEDGER DISAGREES -- do not rely on this batch''
             else ''INCONSISTENT -- do not rely on this batch'')
     else ''Not sealed'')"

definition ledger_line :: "dashboard \<Rightarrow> bool option \<Rightarrow> ReportOnChain \<Rightarrow> string" where
  "ledger_line D says c = (if says = Some True then ''root confirmed on-chain''
     else if says = Some False then ''ROOT NOT FOUND ON-CHAIN'' else ''not confirmed -- Horizon unreachable'')
     @ middot @ ''checked '' @ formatDateTime D (Some (ro_checkedAt c))"

definition chain_lines :: "dashboard \<Rightarrow> AuditReport \<Rightarrow> texts" where
  "chain_lines D r = (case ar_onChain r of None \<Rightarrow> []
     | Some c \<Rightarrow> [(''Network'', ''Stellar '' @ network_name (ro_network c)), (''Transaction'', ro_stellarTxHash c),
         (''Ledger'', int_to_string (ro_stellarLedger c)), (''Data entry'', ro_dataEntryKey c),
         (''Anchored at'', formatDateTime D (Some (ro_anchoredAt c))), (''Ledger says'', ledger_line D (ledgerSays r) c)])"

definition proof_lines :: "dashboard \<Rightarrow> AuditReport \<Rightarrow> texts" where
  "proof_lines D r = (let p = ar_proof r in
     [(''Sealed root'', with_default (rp_merkleRoot p) ''--''), (''Recomputed'', with_default (rp_recomputedRoot p) ''--''),
      (''Roots agree'', if rp_rootMatchesSealedValue p then ''yes'' else ''NO''),
      (''All proofs'', if rp_allProofsValid p then ''valid'' else ''INVALID''),
      (''Leaf hash'', ''sha256(0x00 || payloadHash)''), (''Node hash'', ''sha256(0x01 || left || right)''),
      (''Ordering'', ''capturedAt ASC, id ASC'')] @ chain_lines D r)"

definition summary_lines :: "dashboard \<Rightarrow> ReportBatch \<Rightarrow> texts" where
  "summary_lines D b = [(''Material'', rb_material b), (''Weigh-ins'', int_to_string (int (rb_eventCount b))),
     (''Net weight'', dashboard_formatKg D (rb_totalWeightKg b) @ '' kg''), (''Tonnes'', js_toFixed 4 (rb_totalWeightTonnes b)),
     (''Sealed'', formatDateTime D (rb_sealedAt b))]"

fun kyc_name :: "KycLevel \<Rightarrow> string" where
  "kyc_name kyc_none = ''none''"
| "kyc_name basic = ''basic''"
| "kyc_name verified = ''verified''"

definition share_text :: "jsnum \<Rightarrow> jsnum \<Rightarrow> string" where
  "share_text part sum_kg = (if is_zero sum_kg then ''--'' else js_toFixed 1 (js_mul (js_div part sum_kg) (js_of_int 100)) @ ''%'')"

definition collector_cells :: "dashboard \<Rightarrow> AuditReport \<Rightarrow> ReportCollector \<Rightarrow> data_tone \<times> string list" where
  "collector_cells D r c = (if rc_kycLevel c = kyc_none then tone_pending else tone_neutral, [rc_name c, kyc_name (rc_kycLevel c), int_to_string (int (rc_eventCount c)),
     dashboard_formatKg D (rc_weightKg c) @ '' kg'', share_text (rc_weightKg c) (rb_totalWeightKg (ar_batch r))])"

definition transfer_cells :: "dashboard \<Rightarrow> ReportTransfer \<Rightarrow> string list" where
  "transfer_cells D t = [formatDateTime D (Some (rt_transferredAt t)), rt_fromParty t, rt_toParty t, dashboard_formatKg D (rt_weightInKg t),
     dashboard_formatKg D (rt_weightOutKg t),
     dashboard_formatKg D (rt_varianceKg t) @ (case rt_variancePct t of None \<Rightarrow> '''' | Some p \<Rightarrow> '' ('' @ num_to_string p @ ''%)''),
     with_default (rt_reason t) ''--'']"

definition reconciliation_lines :: "dashboard \<Rightarrow> Reconciliation \<Rightarrow> texts" where
  "reconciliation_lines D n = [(''Collected in'', dashboard_formatKg D (rn_collectedKg n) @ '' kg''),
     (''Processed out'', (case rn_finalWeightOutKg n of None \<Rightarrow> ''--'' | Some v \<Rightarrow> dashboard_formatKg D v) @ '' kg''),
     (''Gap'', (case rn_gapKg n of None \<Rightarrow> ''--'' | Some v \<Rightarrow> dashboard_formatKg D v) @ '' kg''),
     (''Gap %'', (case rn_gapPct n of None \<Rightarrow> ''--'' | Some v \<Rightarrow> num_to_string v)),
     (''Explained'', if rn_explained n then ''yes'' else ''no'')]"

definition photo_link :: "dashboard \<Rightarrow> AuditReportEvent \<Rightarrow> string option" where
  "photo_link D e = (if re_photoAvailable e \<and> has_text (re_photoUrl e)
     then Some (with_default (da_publicUrl D) (da_backendUrl D) @ the (re_photoUrl e)) else None)"

definition log_cells :: "dashboard \<Rightarrow> nat \<Rightarrow> AuditReportEvent \<Rightarrow> data_tone \<times> string list" where
  "log_cells D n e = (pass_tone (re_integrityOutcome e = pass), [int_to_string (int n + 1), re_capturedAt e, re_collectorName e, dashboard_formatKg D (re_weightKg e) @ '' kg'',
     (case photo_link D e of None \<Rightarrow> ''not uploaded'' | Some url \<Rightarrow> url), shortHash (Some (re_photoHash e)) 8,
     shortHash (Some (re_leaf e)) 8, outcome_name (re_integrityOutcome e)])"

record report_view =
  rv_title :: string
  rv_links :: "string list"
  rv_summary :: texts
  rv_state :: data_tone
  rv_heading :: string
  rv_proof :: texts
  rv_hub :: texts
  rv_txLink :: "string option"
  rv_collectors :: "(data_tone \<times> string list) list"
  rv_custody :: "string list list"
  rv_reconciliation :: texts
  rv_explained :: data_tone
  rv_log :: "(data_tone \<times> string list) list"
  rv_notes :: "string list"

definition report_view_of :: "dashboard \<Rightarrow> string \<Rightarrow> AuditReport \<Rightarrow> report_view" where
  "report_view_of D i r = (let origin = with_default (da_publicUrl D) (da_backendUrl D) in
     \<lparr>rv_title = ''proofchain.audit.v1'' @ middot @ ''generated '' @ formatDateTime D (Some (ar_generatedAt r)),
      rv_links = [''/batches/'' @ i, origin @ ''/batches/'' @ i @ ''/report/events.csv'', origin @ ''/batches/'' @ i @ ''/report''],
      rv_summary = summary_lines D (ar_batch r), rv_state = proofState r, rv_heading = proof_heading r, rv_proof = proof_lines D r,
      rv_hub = (case ar_hub r of (_, code, name) \<Rightarrow> [(''Hub'', name @ '' ('' @ code @ '')''), (''Batch id'', rb_id (ar_batch r))]),
      rv_txLink = map_option ro_explorerUrl (ar_onChain r), rv_collectors = map (collector_cells D r) (ar_collectors r), rv_custody = map (transfer_cells D) (ar_chainOfCustody r),
      rv_reconciliation = reconciliation_lines D (ar_reconciliation r),
      rv_explained = (if rn_explained (ar_reconciliation r) then tone_verified else tone_broken),
      rv_log = map (\<lambda>(n, e). log_cells D n e) (enumerate 0 (ar_events r)), rv_notes = ar_attestationNotes r\<rparr>)"

definition report_of :: "answer \<Rightarrow> AuditReport option" where
  "report_of a = (case a of Report r \<Rightarrow> Some r | _ \<Rightarrow> None)"

definition ReportPage :: "dashboard \<Rightarrow> exchange \<Rightarrow> string \<Rightarrow> string option \<Rightarrow> server \<Rightarrow> ((string \<times> string) + report_view option) \<times> server" where
  "ReportPage D x i token st = (case api_report i D x token st of
      (Inl e, st') \<Rightarrow> (Inl (report_failure i e), st')
    | (Inr a, st') \<Rightarrow> (Inr (map_option (report_view_of D i) (report_of a)), st'))"

section \<open>What the verdict rests on\<close>

lemma report_route_none: "find_route GET [''batches'', '''', ''report''] = None"
  by (simp add: find_route_def find_one_def ROUTES_def root_routes_def auth_routes_def health_routes_def users_routes_def
      registry_routes_def events_routes_def photos_routes_def batches_routes_def custody_routes_def reports_routes_def
      materials_routes_def route_defs)

lemma shown_report:
  assumes "ReportPage D x i token (w, bs) = (Inr (Some v), (w1, bs1))"
  obtains r where "buildAuditReport (ae_verifyAnchor (da_api D)) (w_clock w) i (w_db w) = Inr r" "v = report_view_of D i r" "w1 = w"
proof -
  obtain ra w' bs' where c: "api_request D x GET [''batches'', i, ''report''] (JObj []) JUndefined token (w, bs) = (ra, (w', bs'))"
    by (rule prod_cases3)
  have "i \<noteq> ''''"
  proof
    assume "i = ''''"
    then have "isl ra" using unrouted_call[OF report_route_none] c by simp
    then show False using assms(1) c by (cases ra) (simp_all add: ReportPage_def api_report_def api_get_def)
  qed
  note route = dashboard_param_routes(6)[OF this]
  have w: "w' = w" using reading_call[OF route _ c] by (simp add: route_defs writes_def)
  note page = assms(1)[unfolded ReportPage_def api_report_def api_get_def c prod.case]
  obtain a where a: "ra = Inr a" using page by (cases ra) simp_all
  then obtain r where r: "report_of a = Some r" "v = report_view_of D i r" "w1 = w'" using page by (auto simp: split: option.splits)
  obtain user where "handle Reports_json (da_api D) (xc_ids x) (call_of (anyone GET [Lit ''batches'', Param, Lit ''report''] Reports_json)
      (dashboard_request D GET [''batches'', i, ''report''] (JObj []) JUndefined token) user) w = Inr (a, w')"
    using handled_call[OF route c[unfolded a]] by (auto simp: route_defs)
  then have "reading Report (buildAuditReport (ae_verifyAnchor (da_api D)) (w_clock w) i (w_db w)) w = Inr (a, w')"
    by (auto simp: and_then_Inr uuid_param_def call_of_def route_defs split: if_splits)
  then show ?thesis using r w that by (auto simp: reading_def report_of_def split: sum.splits)
qed

lemma report_chain:
  assumes "buildAuditReport verify now i s = Inr r"
  shows "case anchor_of i s of None \<Rightarrow> ar_onChain r = None
    | Some a \<Rightarrow> \<exists>c. verify (to_verify a) = Inr c \<and> ar_onChain r = Some (report_on_chain a c)"
proof -
  obtain b where b: "get_by b_id i (batches s) = Some b"
    using assms by (auto simp: buildAuditReport_def split: option.splits)
  obtain h where h: "get_by h_id (b_hubId b) (hubs s) = Some h"
    using assms b by (auto simp: buildAuditReport_def split: option.splits)
  show ?thesis
  proof (cases "anchor_of i s")
    case None
    then show ?thesis using assms b h by (auto simp: buildAuditReport_def Let_def split: sum.splits if_splits)
  next
    case (Some a)
    then show ?thesis using assms b h by (cases "verify (to_verify a)") (auto simp: buildAuditReport_def Let_def split: sum.splits if_splits)
  qed
qed

text \<open>C34. The verdict at the head of the printed report.  It says that the batch is verifiable against the ledger
  exactly when the batch is past open and anchored and the ledger service confirmed its root when the report was
  made.  But for a batch that is still open, with or without weigh-ins, the page says that it is sealed and
  internally consistent: the text meant for it cannot be reached.\<close>

theorem report_page_verdict:
  assumes "ReportPage D x i token (w, bs) = (Inr (Some v), (w1, bs1))" and "core_ok (w_db w)"
    and "get_by b_id i (batches (w_db w)) = Some b"
  shows "(rv_heading v = ''Independently verifiable against the Stellar ledger'' \<longleftrightarrow> b_status b \<noteq> open \<and>
      (\<exists>a c. anchor_of i (w_db w) = Some a \<and> ae_verifyAnchor (da_api D) (to_verify a) = Inr c \<and> lc_rootMatchesLedger c = Some True))
    \<and> (b_status b = open \<longrightarrow> rv_heading v = ''Sealed and internally consistent -- not yet anchored on-chain'')
    \<and> rv_heading v \<noteq> ''Not sealed''"
proof -
  obtain r where r: "buildAuditReport (ae_verifyAnchor (da_api D)) (w_clock w) i (w_db w) = Inr r" and v: "v = report_view_of D i r"
    by (rule shown_report[OF assms(1)])
  have heading: "rv_heading v = proof_heading r" by (simp add: v report_view_of_def Let_def)
  obtain b' where b': "get_by b_id i (batches (w_db w)) = Some b'" "report_facts (w_db w) i b' r" using report_eq[OF r] by blast
  then have root: "rp_merkleRoot (ar_proof r) = b_merkleRoot b" using assms(3) by (simp add: report_facts_def Let_def)
  note chain = report_chain[OF r]
  show ?thesis
  proof (cases "b_status b = open")
    case True
    have b: "b \<in> set (batches (w_db w))" "b_id b = i" using assms(3) by (auto dest: get_by_SomeD)
    then have "b_merkleRoot b = None" using assms(2) True by (auto simp: core_ok_def batches_ok_def batch_ok_def open_ok_def)
    moreover have "anchor_of i (w_db w) = None"
    proof (rule ccontr)
      assume "anchor_of i (w_db w) \<noteq> None"
      then obtain a where "a \<in> set (anchors (w_db w))" "a_batchId a = i" by (auto simp: anchor_of_def dest: get_by_SomeD)
      then obtain c where c: "c \<in> set (batches (w_db w))" "b_id c = i" "b_status c \<noteq> open"
        using assms(2) by (auto simp: core_ok_def batches_ok_def anchor_ok_def)
      have "c = b" using c(1,2) b core_okD(3)[OF assms(2)] by (auto dest: distinct_key_eq)
      then show False using c(3) True by simp
    qed
    moreover have "ar_onChain r = None" using chain calculation(2) by simp
    ultimately show ?thesis using root True by (simp add: heading proof_heading_def proofState_def has_text_def)
  next
    case False
    note sealed = report_of_sealed[OF assms(2,3) False r]
    have "has_text (rp_merkleRoot (ar_proof r))"
      using root sealed_root(1,2)[OF assms(2,3) False] level_root_not_empty by (simp add: has_text_def)
    then have state: "proofState r = (if ledgerSays r = Some False then tone_broken else if ledgerSays r = Some True then tone_verified else tone_pending)"
      using sealed(2,3) by (simp add: proofState_def internallyConsistent_def)
    show ?thesis
    proof (cases "anchor_of i (w_db w)")
      case None
      then show ?thesis using chain False by (simp add: heading proof_heading_def state ledgerSays_def)
    next
      case (Some a)
      then obtain c where "ae_verifyAnchor (da_api D) (to_verify a) = Inr c" "ar_onChain r = Some (report_on_chain a c)"
        using chain by auto
      then show ?thesis using Some False
        by (auto simp: heading proof_heading_def state ledgerSays_def report_on_chain_def)
    qed
  qed
qed

definition open_world :: world where
  "open_world = first_world\<lparr>w_db := filled_db\<lparr>users := [run_admin]\<rparr>\<rparr>"

theorem report_page_verdict_witness:
  "\<exists>v bs. ReportPage desk now_exchange ''b1'' None (open_world, []) = (Inr (Some v), (open_world, bs))
    \<and> rv_heading v = ''Sealed and internally consistent -- not yet anchored on-chain'' \<and> b_status (hd (batches (w_db open_world))) = open"
proof -
  have core: "core_ok (w_db open_world)" using filled_core_ok by (simp add: open_world_def core_ok_users)
  obtain b where b: "get_by b_id ''b1'' (batches (w_db open_world)) = Some b" "b_status b = open" "b = hd (batches (w_db open_world))"
    using filled_lookup by (simp add: open_world_def sample_batch_def filled_db_def)
  have "\<exists>r. buildAuditReport (ae_verifyAnchor (da_api desk)) (w_clock open_world) ''b1'' (w_db open_world) = Inr r"
    by (rule report_built[where b = b and h = sample_hub])
      (use b in \<open>simp_all add: open_world_def filled_db_def sample_db_def sample_batch_def sample_hub_def get_by_def anchor_of_def empty_db_def\<close>)
  then obtain r where r: "buildAuditReport (ae_verifyAnchor (da_api desk)) (w_clock open_world) ''b1'' (w_db open_world) = Inr r" by blast
  have isu: "ae_isUuid (da_api desk) ''b1''" by (simp add: desk_def run_api_def)
  have "api_request desk now_exchange GET [''batches'', ''b1'', ''report''] (JObj []) JUndefined None (open_world, [])
      = (Inr (Report r), (open_world, []))"
    by (simp add: api_request_def send_def respond_def now_exchange_def dashboard_param_routes route_defs guards_def jwt_canActivate_def
        route.truncate_def rate_canActivate_def call_of_def uuid_param_def and_then_def reading_def r isu)
  then have p: "ReportPage desk now_exchange ''b1'' None (open_world, []) = (Inr (Some (report_view_of desk ''b1'' r)), (open_world, []))"
    by (simp add: ReportPage_def api_report_def api_get_def report_of_def)
  from report_page_verdict[OF p core b(1)] show ?thesis using p b(2,3) by blast
qed

end
